(* ===== verification/Prelude.thy ===== *)
theory Prelude
  imports Complex_Main "HOL-Library.Signed_Division"
begin

text \<open>
  Shared vocabulary of the development: JavaScript exceptions as values of a sum type, the
  \<open>BigInt\<close> division and shift operators of the source, and the arithmetic lemmas that the
  fixed-point theories use. The collection \<open>js_arith\<close> holds the rewrite rules that turn a
  truncating division of non-negative operands into HOL's \<open>div\<close>.
\<close>

named_theorems js_arith \<open>rewrite rules for BigInt division on non-negative operands\<close>
named_theorems err_simps \<open>rewrite rules for the exception monad\<close>

section \<open>Exceptions\<close>

text \<open>
  A thrown \<open>Error\<close> carries the message of the source; the other constructors are the errors the
  language itself raises (\<open>BigInt("x")\<close>, division of a \<open>BigInt\<close> by zero, a failed property access).
\<close>

datatype js_error =
    Error string
  | SyntaxError
  | RangeError
  | TypeError

type_synonym 'a res = "js_error + 'a"

definition bindE :: "'a res \<Rightarrow> ('a \<Rightarrow> 'b res) \<Rightarrow> 'b res" where
  "bindE m f = (case m of Inl e \<Rightarrow> Inl e | Inr v \<Rightarrow> f v)"

definition returns :: "'a res \<Rightarrow> bool" where
  "returns m = (case m of Inl _ \<Rightarrow> False | Inr _ \<Rightarrow> True)"

lemma bindE_simps [simp, err_simps]:
  "bindE (Inl e) f = Inl e"
  "bindE (Inr v) f = f v"
  by (simp_all add: bindE_def)

lemma bindE_eq_Inr [err_simps]:
  "bindE m f = Inr r \<longleftrightarrow> (\<exists>v. m = Inr v \<and> f v = Inr r)"
  by (cases m) simp_all

lemma bindE_eq_Inl [err_simps]:
  "bindE m f = Inl e \<longleftrightarrow> m = Inl e \<or> (\<exists>v. m = Inr v \<and> f v = Inl e)"
  by (cases m) simp_all

lemma bindE_assoc: "bindE (bindE m f) g = bindE m (\<lambda>v. bindE (f v) g)"
  by (cases m) simp_all

lemma returns_simps [simp]: "returns (Inr v)" "\<not> returns (Inl e)"
  by (simp_all add: returns_def)

lemma returns_iff: "returns m \<longleftrightarrow> (\<exists>v. m = Inr v)"
  by (cases m) simp_all

section \<open>BigInt arithmetic\<close>

text \<open>
  The \<open>/\<close> of two \<open>BigInt\<close> values truncates toward zero: it is \<open>sdiv\<close> of the library, and
  \<open>%\<close> is \<open>smod\<close>. \<open>x >> n\<close> is the arithmetic shift \<open>drop_bit n x\<close>, \<open>x << n\<close> is \<open>push_bit n x\<close>.
\<close>

lemma sdiv_nonneg [js_arith]: "0 \<le> a \<Longrightarrow> 0 < b \<Longrightarrow> a sdiv b = a div b" for a b :: int
  by (cases "a = 0") (simp_all add: signed_divide_int_def)

lemma smod_nonneg [js_arith]: "0 \<le> a \<Longrightarrow> 0 < b \<Longrightarrow> a smod b = a mod b" for a b :: int
  by (cases "a = 0") (simp_all add: signed_modulo_int_def)

lemma sdiv_minus_left: "(- a) sdiv b = - (a sdiv b)" for a b :: int
  by (simp add: signed_divide_int_def)

lemma sdiv_nonneg_result: "0 \<le> a \<Longrightarrow> 0 < b \<Longrightarrow> 0 \<le> a sdiv b" for a b :: int
  by (simp add: sdiv_nonneg pos_imp_zdiv_nonneg_iff)

lemma abs_sdiv: "0 < b \<Longrightarrow> \<bar>a sdiv b\<bar> = \<bar>a\<bar> div b" for a b :: int
  by (cases "a = 0") (simp_all add: signed_divide_int_def abs_mult pos_imp_zdiv_nonneg_iff)

lemma sdiv_mono: "a \<le> a' \<Longrightarrow> 0 < b \<Longrightarrow> a sdiv b \<le> a' sdiv b" for a a' b :: int
proof (cases "0 \<le> a")
  case True
  assume "a \<le> a'" "0 < b"
  with True show ?thesis by (simp add: sdiv_nonneg zdiv_mono1)
next
  case False
  assume le: "a \<le> a'" and b: "0 < b"
  have neg: "x sdiv b = - ((- x) div b)" if "x \<le> 0" for x
    using that b by (metis minus_minus sdiv_minus_left sdiv_nonneg neg_0_le_iff_le)
  show ?thesis
  proof (cases "0 \<le> a'")
    case True
    with False b have "a sdiv b \<le> 0"
      by (simp add: neg pos_imp_zdiv_nonneg_iff)
    also have "0 \<le> a' sdiv b" using True b by (rule sdiv_nonneg_result)
    finally show ?thesis .
  next
    case a': False
    have "(- a') div b \<le> (- a) div b" using le b by (simp add: zdiv_mono1)
    then show ?thesis using False a' by (simp add: neg)
  qed
qed

text \<open>Floor division by a positive number: the two inequalities that characterise it.\<close>

lemma div_lower: "0 < b \<Longrightarrow> b * (a div b) \<le> a" for a b :: int
  by (simp add: mult_div_mod_eq [symmetric] minus_mod_eq_mult_div [symmetric])

lemma div_upper: "0 < b \<Longrightarrow> a < b * (a div b) + b" for a b :: int
  using pos_mod_bound [of b a] mult_div_mod_eq [of b a] by linarith

lemma div_leI: "0 < b \<Longrightarrow> a \<le> b * c \<Longrightarrow> a div b \<le> c" for a b c :: int
  by (metis nonzero_mult_div_cancel_left zdiv_mono1 less_irrefl)

lemma le_divI: "0 < b \<Longrightarrow> b * c \<le> a \<Longrightarrow> c \<le> a div b" for a b c :: int
  by (metis nonzero_mult_div_cancel_left zdiv_mono1 less_irrefl)

lemma div_ltI: "0 < b \<Longrightarrow> a < b * c \<Longrightarrow> a div b < c" for a b c :: int
  by (meson div_lower le_less_trans mult_less_cancel_left_pos)

lemma mult_bounds: "0 \<le> x \<Longrightarrow> x \<le> X \<Longrightarrow> 0 \<le> y \<Longrightarrow> y \<le> Y \<Longrightarrow> 0 \<le> x * y \<and> x * y \<le> X * Y"
  for x y X Y :: int
  by (simp add: mult_mono)

lemma sq_le: "0 \<le> a \<Longrightarrow> a \<le> b \<Longrightarrow> a * a \<le> b * b" for a b :: int
  by (simp add: mult_mono)

lemma sq_less_imp_less: "a * a < b * b \<Longrightarrow> 0 \<le> b \<Longrightarrow> a < b" for a b :: int
  using sq_le [of b a] by linarith

text \<open>The real value of a floor division, used by the accuracy theorems.\<close>

lemma real_div_bounds:
  fixes a b :: int
  assumes "0 < b"
  shows "real_of_int a / real_of_int b - 1 < real_of_int (a div b)"
    and "real_of_int (a div b) \<le> real_of_int a / real_of_int b"
proof -
  show "real_of_int a / real_of_int b - 1 < real_of_int (a div b)"
    by (metis (mono_tags) floor_divide_of_int_eq real_of_int_floor_gt_diff_one)
  show "real_of_int (a div b) \<le> real_of_int a / real_of_int b"
    by (rule real_of_int_div4)
qed

lemma real_sdiv_bounds:
  fixes a b :: int
  assumes "0 < b"
  shows "\<bar>real_of_int (a sdiv b) - real_of_int a / real_of_int b\<bar> < 1"
proof (cases "0 \<le> a")
  case True
  then show ?thesis using real_div_bounds [OF assms, of a] assms by (simp add: sdiv_nonneg abs_less_iff)
next
  case False
  then have "a sdiv b = - ((- a) div b)"
    using assms by (metis linear minus_minus neg_0_le_iff_le sdiv_minus_left sdiv_nonneg)
  then show ?thesis using real_div_bounds [OF assms, of "- a"] by (simp add: abs_less_iff)
qed

end
