(* ===== verification/FixedMath.thy ===== *)
theory FixedMath
  imports Prelude
begin

text \<open>
  \<open>dashboard/src/lib/math.ts\<close>: the fixed-point scale and the two checked multiply-divide helpers
  that every fixed-point routine of the dashboard uses.
\<close>

definition FLOAT_SCALING :: int where
  "FLOAT_SCALING = 1000000000"

abbreviation (input) F :: int where
  "F \<equiv> FLOAT_SCALING"

definition mulDivRoundDown :: "int \<Rightarrow> int \<Rightarrow> int \<Rightarrow> int res" where
  "mulDivRoundDown a b c =
     (if c = 0 then Inl (Error ''mulDivRoundDown: divisor is zero'')
      else Inr ((a * b) sdiv c))"

definition mulDivRoundUp :: "int \<Rightarrow> int \<Rightarrow> int \<Rightarrow> int res" where
  "mulDivRoundUp a b c =
     (if c = 0 then Inl (Error ''mulDivRoundUp: divisor is zero'')
      else (let prod = a * b; q = prod sdiv c; r = prod smod c
            in Inr (if r > 0 then q + 1 else q)))"

lemma F_pos [simp]: "0 < FLOAT_SCALING" "FLOAT_SCALING \<noteq> 0" "0 \<le> FLOAT_SCALING"
    "\<not> FLOAT_SCALING \<le> 0"
  by (simp_all add: FLOAT_SCALING_def)

lemma mulDivRoundDown_nonneg:
  "0 \<le> a \<Longrightarrow> 0 \<le> b \<Longrightarrow> 0 < c \<Longrightarrow> mulDivRoundDown a b c = Inr (a * b div c)"
  by (simp add: mulDivRoundDown_def sdiv_nonneg)

end
