(* ===== verification/Isqrt.thy ===== *)
theory Isqrt
  imports FixedMath
begin

text \<open>
  \<open>dashboard/src/lib/isqrt.ts\<close>: the integer square root with a bit-length seed, seven unrolled
  Newton steps and one overshoot correction. The main result is that on the 128-bit domain the
  seven steps are enough: the returned value is the floor of the square root.
\<close>

section \<open>The source\<close>

text \<open>One \<open>if (val >= 1n << s) { val >>= s; bits += s; }\<close> of the seed.\<close>

definition shift_probe :: "nat \<Rightarrow> int \<times> nat \<Rightarrow> int \<times> nat" where
  "shift_probe s = (\<lambda>(val, bits).
     if val \<ge> push_bit s 1 then (drop_bit s val, bits + s) else (val, bits))"

definition isqrtInitialGuess :: "int \<Rightarrow> int" where
  "isqrtInitialGuess x =
     (if x = 0 then 0
      else let (val, bits) = (x, 0);
               (val, bits) = shift_probe 64 (val, bits);
               (val, bits) = shift_probe 32 (val, bits);
               (val, bits) = shift_probe 16 (val, bits);
               (val, bits) = shift_probe 8 (val, bits);
               (val, bits) = shift_probe 4 (val, bits);
               (val, bits) = shift_probe 2 (val, bits);
               bits = (if val \<ge> push_bit 1 1 then bits + 1 else bits)
           in push_bit ((bits + 1) div 2) 1)"

definition newton_step :: "int \<Rightarrow> int \<Rightarrow> int" where
  "newton_step x g = (g + x sdiv g) sdiv 2"

definition isqrtU128 :: "int \<Rightarrow> int" where
  "isqrtU128 x =
     (if x = 0 then 0
      else if x < 4 then 1
      else let g = isqrtInitialGuess x;
               g = newton_step x g;
               g = newton_step x g;
               g = newton_step x g;
               g = newton_step x g;
               g = newton_step x g;
               g = newton_step x g;
               g = newton_step x g
           in if g * g > x then g - 1 else g)"

section \<open>Specification\<close>

definition is_isqrt :: "int \<Rightarrow> int \<Rightarrow> bool" where
  "is_isqrt x r \<longleftrightarrow> 0 \<le> r \<and> r * r \<le> x \<and> x < (r + 1) * (r + 1)"

lemma is_isqrt_exists:
  assumes "0 \<le> x"
  shows "\<exists>s. is_isqrt x s"
proof -
  define s where "s = \<lfloor>sqrt (real_of_int x)\<rfloor>"
  have s0: "0 \<le> s" using assms by (simp add: s_def)
  have "real_of_int s \<le> sqrt (real_of_int x)" by (simp add: s_def)
  then have "real_of_int s * real_of_int s \<le> sqrt (real_of_int x) * sqrt (real_of_int x)"
    using s0 assms by (intro mult_mono) auto
  then have lo: "s * s \<le> x"
    using assms by (simp flip: of_int_mult)
  have "sqrt (real_of_int x) < real_of_int s + 1" by (simp add: s_def)
  then have "sqrt (real_of_int x) * sqrt (real_of_int x) < (real_of_int s + 1) * (real_of_int s + 1)"
    using assms by (intro mult_strict_mono') auto
  then have "real_of_int x < real_of_int ((s + 1) * (s + 1))"
    using assms by simp
  then have "x < (s + 1) * (s + 1)" by (simp only: of_int_less_iff)
  with s0 lo show ?thesis by (auto simp: is_isqrt_def)
qed

lemma is_isqrt_unique:
  assumes "is_isqrt x r" "is_isqrt x s"
  shows "r = s"
proof -
  have "r < s + 1" if "is_isqrt x r" "is_isqrt x s" for r s
  proof (rule ccontr)
    assume "\<not> r < s + 1"
    then have "(s + 1) * (s + 1) \<le> r * r"
      using that by (intro mult_mono) (auto simp: is_isqrt_def)
    with that show False by (auto simp: is_isqrt_def)
  qed
  from this [OF assms] this [OF assms(2,1)] show ?thesis by simp
qed

section \<open>The seed is the power of two next to the root\<close>

definition seed_inv :: "int \<Rightarrow> nat \<Rightarrow> int \<times> nat \<Rightarrow> bool" where
  "seed_inv x s = (\<lambda>(val, bits). val = x div 2 ^ bits \<and> 0 < val \<and> val < 2 ^ s)"

lemma shift_probe_inv:
  assumes "seed_inv x (2 * s) p"
  shows "seed_inv x s (shift_probe s p)"
proof -
  obtain val bits where p: "p = (val, bits)" by (cases p)
  from assms p have v: "val = x div 2 ^ bits" "0 < val" "val < 2 ^ (2 * s)"
    by (simp_all add: seed_inv_def)
  show ?thesis
  proof (cases "2 ^ s \<le> val")
    case True
    have "val div 2 ^ s = x div 2 ^ (bits + s)"
      by (simp add: v(1) power_add zdiv_zmult2_eq)
    moreover have "0 < val div 2 ^ s"
      using True by (simp add: pos_imp_zdiv_pos_iff)
    moreover have "val div 2 ^ s < 2 ^ s"
      using v(3) by (intro div_ltI) (simp_all add: power_add [symmetric] mult_2)
    ultimately show ?thesis
      using True by (simp add: p shift_probe_def seed_inv_def push_bit_eq_mult drop_bit_eq_div)
  next
    case False
    with v show ?thesis
      by (simp add: p shift_probe_def seed_inv_def push_bit_eq_mult)
  qed
qed

lemma seed_exact:
  assumes "0 < x" "x < 2 ^ 128"
  obtains b where "2 ^ b \<le> x" "x < 2 ^ (b + 1)"
    and "isqrtInitialGuess x = 2 ^ ((b + 1) div 2)"
proof -
  define p where "p = shift_probe 2 (shift_probe 4 (shift_probe 8
    (shift_probe 16 (shift_probe 32 (shift_probe 64 (x, 0))))))"
  have "seed_inv x 128 (x, 0)" using assms by (simp add: seed_inv_def)
  then have "seed_inv x 2 p"
    unfolding p_def
    using shift_probe_inv [of x 64] shift_probe_inv [of x 32] shift_probe_inv [of x 16]
      shift_probe_inv [of x 8] shift_probe_inv [of x 4] shift_probe_inv [of x 2]
    by simp
  moreover obtain val bits where p: "p = (val, bits)" by (cases p)
  ultimately have v: "val = x div 2 ^ bits" "0 < val" "val < 4"
    by (simp_all add: seed_inv_def)
  define b where "b = (if val \<ge> 2 then bits + 1 else bits)"
  have "x div 2 ^ b = 1"
  proof (cases "val \<ge> 2")
    case True
    have "x div 2 ^ b = val div 2"
      using True zdiv_zmult2_eq [of 2 x "2 ^ bits"] by (simp add: b_def v(1) mult.commute)
    also have "\<dots> = 1" using True v(3) by presburger
    finally show ?thesis .
  next
    case False
    with v show ?thesis by (simp add: b_def)
  qed
  then have "2 ^ b \<le> x" "x < 2 ^ (b + 1)"
    using div_lower [of "2 ^ b" x] div_upper [of "2 ^ b" x] by simp_all
  moreover have "isqrtInitialGuess x = 2 ^ ((b + 1) div 2)"
    using assms p unfolding p_def
    by (auto simp: isqrtInitialGuess_def b_def push_bit_eq_mult split: prod.splits)
  ultimately show ?thesis by (rule that)
qed

section \<open>Newton steps\<close>

lemma newton_step_div: "0 \<le> x \<Longrightarrow> 0 < g \<Longrightarrow> newton_step x g = (g + x div g) div 2"
  by (simp add: newton_step_def sdiv_nonneg pos_imp_zdiv_nonneg_iff)

lemma newton_step_ge:
  assumes "0 \<le> x" "0 < g" "s * s \<le> x"
  shows "s \<le> newton_step x g"
proof -
  have "g * (2 * s - g) \<le> s * s"
    using zero_le_square [of "s - g"] by (simp add: algebra_simps)
  then have "2 * s - g \<le> x div g"
    using assms by (intro le_divI) auto
  then show ?thesis
    using assms by (simp add: newton_step_div)
qed

lemma newton_step_err:
  assumes "0 \<le> x" "0 < g" "x \<le> t * t"
  shows "2 * g * (newton_step x g - t) \<le> (g - t) * (g - t)"
proof -
  have "2 * newton_step x g \<le> g + x div g"
    using assms by (simp add: newton_step_div)
  then have "g * (2 * newton_step x g) \<le> g * (g + x div g)"
    using assms(2) by (intro mult_left_mono) auto
  also have "\<dots> \<le> g * g + x"
    using div_lower [of g x] assms(2) by (simp add: algebra_simps)
  finally show ?thesis using assms(3) by (simp add: algebra_simps)
qed

text \<open>
  The approximation \<open>g\<close> is \<open>c\<close>-close to the root \<open>s\<close> of \<open>x\<close> when it is at least \<open>s\<close> and exceeds
  \<open>s + 1\<close> by at most a \<open>c\<close>-th of \<open>s + 1\<close>. One step squares (and doubles) \<open>c\<close>.
\<close>

definition newton_close :: "int \<Rightarrow> int \<Rightarrow> int \<Rightarrow> bool" where
  "newton_close s c g \<longleftrightarrow> s \<le> g \<and> c * (g - (s + 1)) \<le> s + 1"

lemma newton_close_step:
  assumes x: "is_isqrt x s" and s: "1 \<le> s" and c: "1 \<le> c" and g: "newton_close s c g"
  shows "newton_close s (2 * (c * c)) (newton_step x g)"
proof -
  define t where "t = s + 1"
  define d where "d = newton_step x g - t"
  have gs: "s \<le> g" "c * (g - t) \<le> t" using g by (simp_all add: newton_close_def t_def)
  have x0: "0 \<le> x" using x s by (auto simp: is_isqrt_def intro: order_trans [OF zero_le_square])
  have ge: "s \<le> newton_step x g"
    using x x0 s gs by (intro newton_step_ge) (auto simp: is_isqrt_def)
  have err: "2 * g * d \<le> (g - t) * (g - t)"
    unfolding d_def using x x0 s gs by (intro newton_step_err) (auto simp: is_isqrt_def t_def)
  have "2 * (c * c) * d \<le> t"
  proof (cases "d \<le> 0")
    case True
    then have "2 * (c * c) * d \<le> 0" using c by (intro mult_nonneg_nonpos) auto
    then show ?thesis using s by (simp add: t_def)
  next
    case False
    have "t \<le> g"
    proof (rule ccontr)
      assume "\<not> t \<le> g"
      then have "g = t - 1" using gs by (simp add: t_def)
      with err have "2 * (t - 1) * d \<le> 1" by simp
      moreover have "2 * 1 * 1 \<le> 2 * (t - 1) * d"
        using False s by (intro mult_mono) (auto simp: t_def)
      ultimately show False by simp
    qed
    have "t * (2 * (c * c) * d) \<le> (c * c) * (2 * g * d)"
      using \<open>t \<le> g\<close> False c by (simp add: mult_mono ac_simps)
    also have "\<dots> \<le> (c * c) * ((g - t) * (g - t))"
      using err c by (intro mult_left_mono) auto
    also have "\<dots> = (c * (g - t)) * (c * (g - t))" by (simp add: ac_simps)
    also have "\<dots> \<le> t * t"
      using gs(2) \<open>t \<le> g\<close> c s by (intro sq_le) (auto simp: t_def)
    finally show ?thesis using s by (simp add: t_def)
  qed
  with ge show ?thesis by (simp add: newton_close_def d_def t_def)
qed

lemma even_pow2_root_bound:
  assumes "2 dvd g0" "s * s < 2 * (g0 * g0)" "0 < g0"
  shows "2 * (s + 1) \<le> 3 * (g0 :: int)"
proof (rule ccontr)
  assume "\<not> ?thesis"
  then have "3 * g0 < 2 * (s + 1)" by simp
  moreover have "2 dvd 3 * g0" using assms(1) by simp
  ultimately have "3 * g0 \<le> 2 * s" by presburger
  then have "(3 * g0) * (3 * g0) \<le> (2 * s) * (2 * s)"
    using assms(3) by (intro sq_le) auto
  moreover have "0 < g0 * g0" using assms(3) by simp
  ultimately show False using assms(2) by simp
qed

lemma ratio_from_squares:
  assumes "4 * (g * g) < 9 * (t * t)" "0 \<le> t"
  shows "2 * g < 3 * (t :: int)"
proof (rule ccontr)
  assume "\<not> ?thesis"
  then have "(3 * t) * (3 * t) \<le> (2 * g) * (2 * g)" using assms(2) by (intro sq_le) auto
  with assms(1) show False by simp
qed

lemma newton_seed_close:
  assumes x: "4 \<le> x" "x < 2 ^ 128" and s: "is_isqrt x s"
  shows "newton_close s 8 (newton_step x (isqrtInitialGuess x))"
proof -
  obtain b where b: "2 ^ b \<le> x" "x < 2 ^ (b + 1)"
    and g0: "isqrtInitialGuess x = 2 ^ ((b + 1) div 2)"
    using x by (auto intro: seed_exact [of x])
  define g where "g = isqrtInitialGuess x"
  define t where "t = s + 1"
  define d where "d = newton_step x g - t"
  have gpos: "0 < g" by (simp add: g_def g0)
  have s0: "0 \<le> s" "s * s \<le> x" "x < t * t" using s by (auto simp: is_isqrt_def t_def)
  have ge: "s \<le> newton_step x g"
    using x s0 gpos by (intro newton_step_ge) auto
  have err: "2 * g * d \<le> (g - t) * (g - t)"
    unfolding d_def using x s0 gpos by (intro newton_step_err) auto
  have "b \<noteq> 0"
    using x b by (auto intro: ccontr)
  have "8 * d \<le> t"
  proof (cases "even b")
    case True
    then obtain m where m: "b = 2 * m" by (elim evenE)
    with \<open>b \<noteq> 0\<close> have "g = 2 ^ m" "m \<noteq> 0" by (simp_all add: g_def g0)
    then have "2 dvd g" by (simp add: dvd_power)
    have "b = m + m" by (simp add: m)
    then have "(2::int) ^ b = g * g" by (simp add: \<open>g = 2 ^ m\<close> power_add)
    then have gg: "g * g \<le> x" "x < 2 * (g * g)" using b by simp_all
    then have "2 * t \<le> 3 * g"
      using even_pow2_root_bound [OF \<open>2 dvd g\<close>, of s] s0 gpos by (simp add: t_def)
    have "g < t"
      using gg s0 by (intro sq_less_imp_less [of g t]) (linarith, simp add: t_def)
    have "(2 * (t - g)) * (2 * (t - g)) \<le> g * g"
      using \<open>g < t\<close> \<open>2 * t \<le> 3 * g\<close> gpos by (intro sq_le) auto
    then have "g * (8 * d) \<le> g * g"
      using err by (simp add: algebra_simps)
    then have "8 * d \<le> g" using gpos by simp
    with \<open>g < t\<close> show ?thesis by simp
  next
    case False
    then obtain m where m: "b = 2 * m + 1" by (elim oddE)
    then have "g = 2 ^ (m + 1)" by (simp add: g_def g0)
    have "b = m + m + 1" by (simp add: m)
    then have "2 * (2::int) ^ b = g * g" by (simp add: \<open>g = 2 ^ (m + 1)\<close> power_add)
    then have gg: "g * g \<le> 2 * x" "x < g * g" using b by simp_all
    have "s < g"
      using gg s0 gpos by (intro sq_less_imp_less [of s g]; linarith)
    then have "t \<le> g" by (simp add: t_def)
    have "4 * (g * g) < 9 * (t * t)" using gg(1) s0(3) zero_le_square [of t] by linarith
    then have "2 * g < 3 * t" using s0 by (intro ratio_from_squares) (auto simp: t_def)
    show ?thesis
    proof (cases "d \<le> 0")
      case True
      then show ?thesis using s0 by (simp add: t_def)
    next
      case False
      have "t * (8 * d) \<le> 4 * (2 * g * d)"
        using \<open>t \<le> g\<close> False by simp
      also have "\<dots> \<le> (2 * (g - t)) * (2 * (g - t))" using err by (simp add: algebra_simps)
      also have "\<dots> \<le> t * t"
        using \<open>t \<le> g\<close> \<open>2 * g < 3 * t\<close> by (intro sq_le) auto
      finally show ?thesis using s0 by (simp add: t_def)
    qed
  qed
  with ge show ?thesis by (simp add: newton_close_def d_def t_def g_def)
qed

section \<open>Correctness\<close>

lemma isqrtU128_is_isqrt:
  assumes "0 \<le> x" "x < 2 ^ 128"
  shows "is_isqrt x (isqrtU128 x)"
proof (cases "x < 4")
  case True
  with assms show ?thesis by (auto simp: isqrtU128_def is_isqrt_def)
next
  case False
  obtain s where s: "is_isqrt x s" using is_isqrt_exists assms by blast
  have "1 \<le> s"
  proof (rule ccontr)
    assume "\<not> 1 \<le> s"
    with s have "s = 0" by (simp add: is_isqrt_def)
    with s False show False by (simp add: is_isqrt_def)
  qed
  define g where "g = newton_step x (newton_step x (newton_step x (newton_step x (newton_step x
    (newton_step x (newton_step x (isqrtInitialGuess x)))))))"
  note step = newton_close_step [OF s \<open>1 \<le> s\<close>]
  have "newton_close s 8 (newton_step x (isqrtInitialGuess x))"
    using False assms s by (intro newton_seed_close) auto
  from step [OF _ step [OF _ step [OF _ step [OF _ step [OF _ step [OF _ this]]]]]]
  have "newton_close s (2 ^ 255) g" unfolding g_def by simp
  then have g: "s \<le> g" "2 ^ 255 * (g - (s + 1)) \<le> s + 1" by (simp_all add: newton_close_def)
  have "s < 2 ^ 64"
    using s assms by (intro sq_less_imp_less [of s "2 ^ 64"]) (simp_all add: is_isqrt_def)
  then have "g \<le> s + 1" using g(2) by simp
  with g(1) have "g = s \<or> g = s + 1" by arith
  moreover have "isqrtU128 x = (if g * g > x then g - 1 else g)"
    using False by (simp add: isqrtU128_def g_def Let_def)
  ultimately have "isqrtU128 x = s" using s by (auto simp: is_isqrt_def)
  with s show ?thesis by simp
qed

text \<open>C1. On every input of the 128-bit domain \<open>isqrtU128\<close> returns the floor of the square root:
  the seed and seven Newton steps always land on the root or one above it, and the final
  correction removes the overshoot.\<close>

theorem isqrtU128_correct:
  assumes "0 \<le> x" "x < 2 ^ 128"
  shows "0 \<le> isqrtU128 x \<and> isqrtU128 x * isqrtU128 x \<le> x
    \<and> x < (isqrtU128 x + 1) * (isqrtU128 x + 1)"
  using isqrtU128_is_isqrt [OF assms] by (simp add: is_isqrt_def)

theorem isqrtU128_correct_witness:
  "(0::int) \<le> 12345678901234567890 \<and> (12345678901234567890 :: int) < 2 ^ 128
    \<and> isqrtU128 12345678901234567890 = 3513641828"
proof -
  have h: "(0::int) \<le> 12345678901234567890" "(12345678901234567890 :: int) < 2 ^ 128"
    by simp_all
  have "is_isqrt 12345678901234567890 (isqrtU128 12345678901234567890)"
    unfolding is_isqrt_def using isqrtU128_correct [OF h] .
  moreover have "is_isqrt 12345678901234567890 3513641828" by (simp add: is_isqrt_def)
  ultimately show ?thesis using h is_isqrt_unique by blast
qed

end
