(* ===== verification/PhiCoefficients.thy ===== *)
theory PhiCoefficients
  imports FixedMath
begin

text \<open>
  \<open>dashboard/src/lib/phi_coefficients.ts\<close>: the thresholds and the coefficients of the piecewise
  rational approximation of the normal distribution function, as one constant object.
\<close>

record phi_coefficients =
  SMALL_THRESHOLD :: int
  SMALL_A0 :: int
  SMALL_A1 :: int
  SMALL_A2 :: int
  SMALL_A3 :: int
  SMALL_A4 :: int
  SMALL_B0 :: int
  SMALL_B1 :: int
  SMALL_B2 :: int
  SMALL_B3 :: int
  MEDIUM_THRESHOLD :: int
  MEDIUM_C0 :: int
  MEDIUM_C1 :: int
  MEDIUM_C2 :: int
  MEDIUM_C3 :: int
  MEDIUM_C4 :: int
  MEDIUM_C5 :: int
  MEDIUM_C6 :: int
  MEDIUM_C7 :: int
  MEDIUM_C8 :: int
  MEDIUM_D0 :: int
  MEDIUM_D1 :: int
  MEDIUM_D2 :: int
  MEDIUM_D3 :: int
  MEDIUM_D4 :: int
  MEDIUM_D5 :: int
  MEDIUM_D6 :: int
  MEDIUM_D7 :: int
  LN2_U128 :: int

definition PHI_COEFFICIENTS :: phi_coefficients where
  "PHI_COEFFICIENTS =
    \<lparr>SMALL_THRESHOLD = 662910000,
     SMALL_A0 = 2235252035,
     SMALL_A1 = 161028231069,
     SMALL_A2 = 1067689485460,
     SMALL_A3 = 18154981253344,
     SMALL_A4 = 65682338,
     SMALL_B0 = 47202581905,
     SMALL_B1 = 976098551738,
     SMALL_B2 = 10260932208619,
     SMALL_B3 = 45507789335027,
     MEDIUM_THRESHOLD = 5656854249,
     MEDIUM_C0 = 398941512,
     MEDIUM_C1 = 8883149794,
     MEDIUM_C2 = 93506656132,
     MEDIUM_C3 = 597270276395,
     MEDIUM_C4 = 2494537585290,
     MEDIUM_C5 = 6848190450536,
     MEDIUM_C6 = 11602651437647,
     MEDIUM_C7 = 9842714838384,
     MEDIUM_C8 = 11,
     MEDIUM_D0 = 22266688044,
     MEDIUM_D1 = 235387901782,
     MEDIUM_D2 = 1519377599408,
     MEDIUM_D3 = 6485558298267,
     MEDIUM_D4 = 18615571640885,
     MEDIUM_D5 = 34900952721146,
     MEDIUM_D6 = 38912003286093,
     MEDIUM_D7 = 19685429676860,
     LN2_U128 = 693147180\<rparr>"

end
