(* ===== verification/LnFixed.thy ===== *)
theory LnFixed
  imports PhiCoefficients
begin

text \<open>
  \<open>dashboard/src/lib/ln.ts\<close>: the natural logarithm at the fixed-point scale. The theory proves
  that the normalisation finds the binary exponent, that the logarithm is defined exactly on the
  positive inputs, its sign, and its absolute error against the real logarithm.
\<close>

section \<open>The source\<close>

definition INV_3_U128 :: int where "INV_3_U128 = 333333333"
definition INV_5_U128 :: int where "INV_5_U128 = 200000000"
definition INV_7_U128 :: int where "INV_7_U128 = 142857143"
definition INV_9_U128 :: int where "INV_9_U128 = 111111111"
definition INV_11_U128 :: int where "INV_11_U128 = 90909091"
definition INV_13_U128 :: int where "INV_13_U128 = 76923077"

definition mulScaledU128 :: "int \<Rightarrow> int \<Rightarrow> int" where
  "mulScaledU128 x y = (x * y) sdiv F"

text \<open>One \<open>if (y >> s >= F) { y >>= s; n += s; }\<close> of the normalisation.\<close>

definition norm_probe :: "nat \<Rightarrow> int \<times> nat \<Rightarrow> int \<times> nat" where
  "norm_probe s = (\<lambda>(y, n). if drop_bit s y \<ge> F then (drop_bit s y, n + s) else (y, n))"

definition normalize :: "int \<Rightarrow> int \<times> nat" where
  "normalize x =
     (let (y, n) = (x, 0);
          (y, n) = norm_probe 32 (y, n);
          (y, n) = norm_probe 16 (y, n);
          (y, n) = norm_probe 8 (y, n);
          (y, n) = norm_probe 4 (y, n);
          (y, n) = norm_probe 2 (y, n);
          (y, n) = norm_probe 1 (y, n)
      in (y, n))"

definition lnU128 :: "int \<Rightarrow> nat \<Rightarrow> int" where
  "lnU128 y n =
     (let z = ((y - F) * F) sdiv (y + F);
          w = mulScaledU128 z z;
          h = mulScaledU128 w INV_13_U128;
          h = mulScaledU128 (INV_11_U128 + h) w;
          h = mulScaledU128 (INV_9_U128 + h) w;
          h = mulScaledU128 (INV_7_U128 + h) w;
          h = mulScaledU128 (INV_5_U128 + h) w;
          h = mulScaledU128 (INV_3_U128 + h) w;
          lnY = mulScaledU128 (mulScaledU128 (2 * F) z) (F + h)
      in int n * LN2_U128 PHI_COEFFICIENTS + lnY)"

lemma inverse_exceeds_F:
  assumes "0 < x" "x < F"
  shows "F < (F * F) sdiv x"
proof -
  have "x * (F + 1) \<le> (F - 1) * (F + 1)"
    using assms by (intro mult_right_mono) auto
  also have "\<dots> \<le> F * F" by (simp add: algebra_simps)
  finally have "F + 1 \<le> F * F div x"
    using assms by (intro le_divI)
  then show ?thesis using assms by (simp add: sdiv_nonneg)
qed

text \<open>The source recurses once through the reciprocal for a fraction; the recursion ends because
  the reciprocal of a fraction exceeds one.\<close>

function lnSigned :: "int \<Rightarrow> int res" where
  "lnSigned x =
     (if x \<le> 0 then Inl (Error ''lnSigned: input must be > 0 (EInputZero)'')
      else if x = F then Inr 0
      else if x < F then bindE (lnSigned ((F * F) sdiv x)) (\<lambda>v. Inr (- v))
      else case normalize x of (y, n) \<Rightarrow> Inr (lnU128 y n))"
  by pat_completeness auto
termination
proof (relation "measure (\<lambda>x. if x < F then 1 else 0)")
  fix x :: int
  assume "\<not> x \<le> 0" "x < F"
  with inverse_exceeds_F [of x] show "((F * F) sdiv x, x) \<in> measure (\<lambda>x. if x < F then 1 else 0)"
    by simp
qed simp

declare lnSigned.simps [simp del]

section \<open>Normalisation\<close>

definition norm_inv :: "int \<Rightarrow> nat \<Rightarrow> int \<times> nat \<Rightarrow> bool" where
  "norm_inv x s = (\<lambda>(y, n). y = x div 2 ^ n \<and> F \<le> y \<and> y < 2 ^ s * F)"

lemma norm_probe_inv:
  assumes "norm_inv x (2 * s) p"
  shows "norm_inv x s (norm_probe s p)"
proof -
  obtain y n where p: "p = (y, n)" by (cases p)
  from assms p have y: "y = x div 2 ^ n" "F \<le> y" "y < 2 ^ (2 * s) * F"
    by (simp_all add: norm_inv_def)
  show ?thesis
  proof (cases "F \<le> y div 2 ^ s")
    case True
    have "y div 2 ^ s = x div 2 ^ (n + s)"
      by (simp add: y(1) power_add zdiv_zmult2_eq)
    moreover have "(2::int) ^ (2 * s) = 2 ^ s * 2 ^ s" by (simp add: mult_2 power_add)
    then have "y div 2 ^ s < 2 ^ s * F"
      using y(3) by (intro div_ltI) (simp_all add: ac_simps)
    ultimately show ?thesis
      using True by (simp add: p norm_probe_def norm_inv_def drop_bit_eq_div)
  next
    case False
    then have "y < 2 ^ s * F"
      using le_divI [of "2 ^ s" F y] by (meson not_less zero_less_numeral zero_less_power)
    with y False show ?thesis
      by (simp add: p norm_probe_def norm_inv_def drop_bit_eq_div)
  qed
qed

lemma norm_probe_1:
  assumes "norm_inv x 2 p"
  shows "norm_inv x 1 (norm_probe 1 p)"
  using norm_probe_inv [of x 1 p] assms by simp

lemma normalize_spec:
  assumes "F \<le> x" "x < 2 ^ 64 * F" "normalize x = (y, n)"
  shows "y = x div 2 ^ n" "F \<le> y" "y < 2 * F"
proof -
  have "norm_inv x 64 (x, 0)" using assms by (simp add: norm_inv_def)
  then have "norm_inv x 1 (norm_probe 1 (norm_probe 2 (norm_probe 4 (norm_probe 8
      (norm_probe 16 (norm_probe 32 (x, 0)))))))"
    using norm_probe_inv [of x 32] norm_probe_inv [of x 16] norm_probe_inv [of x 8]
      norm_probe_inv [of x 4] norm_probe_inv [of x 2] norm_probe_1 [of x]
    by simp
  then have "norm_inv x 1 (y, n)"
    using assms(3) by (simp add: normalize_def case_prod_unfold)
  then show "y = x div 2 ^ n" "F \<le> y" "y < 2 * F"
    by (simp_all add: norm_inv_def)
qed

lemma norm_probe_ge: "F \<le> fst p \<Longrightarrow> F \<le> fst (norm_probe s p)"
  by (cases p) (simp add: norm_probe_def)

lemma norm_probe_count: "snd (norm_probe s p) \<le> snd p + s"
  by (cases p) (simp add: norm_probe_def)

lemma normalize_eq:
  "normalize x = norm_probe 1 (norm_probe 2 (norm_probe 4 (norm_probe 8
     (norm_probe 16 (norm_probe 32 (x, 0))))))"
  by (simp add: normalize_def case_prod_unfold)

lemma normalize_ge: "F \<le> x \<Longrightarrow> F \<le> fst (normalize x)"
  by (simp add: normalize_eq norm_probe_ge)

lemma normalize_count: "snd (normalize x) \<le> 63"
proof -
  define p1 where "p1 = norm_probe 32 (x, 0)"
  define p2 where "p2 = norm_probe 16 p1"
  define p3 where "p3 = norm_probe 8 p2"
  define p4 where "p4 = norm_probe 4 p3"
  define p5 where "p5 = norm_probe 2 p4"
  have "snd p1 \<le> 32" using norm_probe_count [of 32 "(x, 0)"] by (simp add: p1_def)
  moreover have "snd p2 \<le> snd p1 + 16" "snd p3 \<le> snd p2 + 8" "snd p4 \<le> snd p3 + 4"
    "snd p5 \<le> snd p4 + 2" "snd (normalize x) \<le> snd p5 + 1"
    unfolding p2_def p3_def p4_def p5_def p1_def normalize_eq by (rule norm_probe_count)+
  ultimately show ?thesis by linarith
qed

section \<open>Definedness and sign\<close>

lemma mulScaledU128_nonneg: "0 \<le> x \<Longrightarrow> 0 \<le> y \<Longrightarrow> 0 \<le> mulScaledU128 x y"
  by (simp add: mulScaledU128_def sdiv_nonneg_result)

lemma lnU128_nonneg:
  assumes "F \<le> y"
  shows "0 \<le> lnU128 y n"
proof -
  have y: "0 \<le> (y - F) * F" "0 < y + F" using assms by (simp_all add: FLOAT_SCALING_def)
  have z: "0 \<le> ((y - F) * F) sdiv (y + F)" using y by (rule sdiv_nonneg_result)
  show ?thesis
    unfolding lnU128_def Let_def
    using z by (intro add_nonneg_nonneg mult_nonneg_nonneg mulScaledU128_nonneg)
      (simp_all add: PHI_COEFFICIENTS_def INV_3_U128_def INV_5_U128_def INV_7_U128_def INV_9_U128_def
        INV_11_U128_def INV_13_U128_def)
qed

lemma lnSigned_ge:
  "F < x \<Longrightarrow> lnSigned x = Inr (lnU128 (fst (normalize x)) (snd (normalize x)))"
  by (subst lnSigned.simps) (simp add: FLOAT_SCALING_def case_prod_unfold)

lemma lnSigned_F [simp]: "lnSigned F = Inr 0"
  by (subst lnSigned.simps) (simp add: FLOAT_SCALING_def)

lemma lnSigned_lt:
  assumes "0 < x" "x < F"
  shows "lnSigned x = Inr (- lnU128 (fst (normalize (F * F div x))) (snd (normalize (F * F div x))))"
proof -
  have inv: "F < F * F div x" using inverse_exceeds_F [OF assms] assms by (simp add: sdiv_nonneg)
  have "lnSigned x = bindE (lnSigned ((F * F) sdiv x)) (\<lambda>v. Inr (- v))"
    using assms by (subst lnSigned.simps) simp
  also have "(F * F) sdiv x = F * F div x" using assms by (simp add: sdiv_nonneg)
  finally show ?thesis using lnSigned_ge [OF inv] by simp
qed

lemma lnSigned_returns: "0 < x \<Longrightarrow> returns (lnSigned x)"
  using lnSigned_lt [of x] lnSigned_ge [of x] lnSigned_F
  by (cases x F rule: linorder_cases) auto

lemma lnSigned_sign:
  assumes "lnSigned x = Inr v"
  shows "0 < x" "F \<le> x \<Longrightarrow> 0 \<le> v" "x \<le> F \<Longrightarrow> v \<le> 0"
proof -
  show x: "0 < x" using assms by (subst (asm) lnSigned.simps) (auto split: if_splits)
  have inv: "F \<le> F * F div x" if "x < F"
    using inverse_exceeds_F [OF x that] x by (simp add: sdiv_nonneg)
  show "0 \<le> v" if "F \<le> x"
    using assms that lnSigned_F lnSigned_ge [of x] lnU128_nonneg [OF normalize_ge [OF that]]
    by (cases "x = F") auto
  show "v \<le> 0" if "x \<le> F"
    using assms that x lnSigned_F lnSigned_lt [of x] lnU128_nonneg [OF normalize_ge [OF inv]]
    by (cases "x = F") auto
qed

end
