(* ===== verification/LnAccuracy.thy ===== *)
theory LnAccuracy
  imports LnFixed
begin

text \<open>
  The error of \<open>lnSigned\<close> against the real logarithm. The truncated \<open>artanh\<close> series is bounded
  by a derivative argument; the integer Horner scheme is within two units of the polynomial.
\<close>

section \<open>The truncated series of the logarithm\<close>

definition artanh_sum :: "nat \<Rightarrow> real \<Rightarrow> real" where
  "artanh_sum N t = 2 * (\<Sum>k<N. t ^ (2 * k + 1) / real (2 * k + 1))"

lemma odd_power_deriv:
  "((\<lambda>t. t ^ (2 * k + 1) / real (2 * k + 1)) has_real_derivative t ^ (2 * k)) (at t)"
  by (auto intro!: derivative_eq_intros simp del: power_Suc of_nat_Suc)

lemma artanh_sum_deriv:
  "(artanh_sum N has_real_derivative 2 * (\<Sum>k<N. t ^ (2 * k))) (at t)"
  unfolding artanh_sum_def [abs_def] by (intro DERIV_cmult DERIV_sum odd_power_deriv)

lemma even_power_sum:
  assumes "\<bar>t\<bar> < (1::real)"
  shows "(\<Sum>k<N. t ^ (2 * k)) = (1 - t ^ (2 * N)) / (1 - t * t)"
proof -
  have "t * t < 1" using assms by (metis abs_mult_less abs_mult_self_eq mult_1)
  then have "t\<^sup>2 \<noteq> 1" by (simp add: power2_eq_square)
  then show ?thesis
    using geometric_sum [of "t\<^sup>2" N] by (simp add: power_mult power2_eq_square divide_simps algebra_simps)
qed

lemma ln_remainder_deriv:
  assumes "0 \<le> t" "t < (1::real)"
  shows "((\<lambda>t. ln (1 + t) - ln (1 - t) - artanh_sum N t)
    has_real_derivative 2 * t ^ (2 * N) / (1 - t * t)) (at t)"
proof -
  have nz: "1 - t * t \<noteq> 0" "1 + t > 0" "1 - t > 0"
    using assms mult_strict_mono' [of t 1 t 1] by simp_all
  have "((\<lambda>t. ln (1 + t) - ln (1 - t) - artanh_sum N t) has_real_derivative
      (1 / (1 + t) - (- 1) / (1 - t) - 2 * (\<Sum>k<N. t ^ (2 * k)))) (at t)"
    using nz by (auto intro!: derivative_eq_intros artanh_sum_deriv simp: divide_simps)
  moreover have "1 / (1 + t) - (- 1) / (1 - t) - 2 * (\<Sum>k<N. t ^ (2 * k)) = 2 * t ^ (2 * N) / (1 - t * t)"
  proof -
    have "1 / (1 + t) - (- 1) / (1 - t) = 2 / (1 - t * t)"
      using nz by (simp add: divide_simps) (simp add: algebra_simps)
    moreover have "(\<Sum>k<N. t ^ (2 * k)) = (1 - t ^ (2 * N)) / (1 - t * t)"
      using assms by (intro even_power_sum) auto
    ultimately show ?thesis by (simp add: diff_divide_distrib right_diff_distrib)
  qed
  ultimately show ?thesis by simp
qed

lemma artanh_sum_zero [simp]: "artanh_sum N 0 = 0"
  by (simp add: artanh_sum_def)

lemma ln_series_lower:
  assumes "0 \<le> t" "t < (1::real)"
  shows "artanh_sum N t \<le> ln (1 + t) - ln (1 - t)"
proof -
  have "ln (1 + 0) - ln (1 - 0) - artanh_sum N 0 \<le> ln (1 + t) - ln (1 - t) - artanh_sum N t"
  proof (rule DERIV_nonneg_imp_nondecreasing [OF assms(1)])
    fix x assume x: "0 \<le> x" "x \<le> t"
    then have "x * x < 1" using assms mult_strict_mono' [of x 1 x 1] by simp
    with x assms ln_remainder_deriv [of x N]
    show "\<exists>y. ((\<lambda>t. ln (1 + t) - ln (1 - t) - artanh_sum N t) has_real_derivative y) (at x) \<and> 0 \<le> y"
      by (intro exI [of _ "2 * x ^ (2 * N) / (1 - x * x)"]) simp
  qed
  then show ?thesis by simp
qed

lemma ln_series_upper:
  assumes "0 \<le> t" "t \<le> 1 / (3::real)"
  shows "ln (1 + t) - ln (1 - t) \<le> artanh_sum N t + 9 / 4 * (t ^ (2 * N + 1) / real (2 * N + 1))"
proof -
  let ?h = "\<lambda>t::real. 9 / 4 * (t ^ (2 * N + 1) / real (2 * N + 1)) - (ln (1 + t) - ln (1 - t) - artanh_sum N t)"
  have "?h 0 \<le> ?h t"
  proof (rule DERIV_nonneg_imp_nondecreasing [OF assms(1)])
    fix x assume x: "0 \<le> x" "x \<le> t"
    then have "x * x \<le> 1 / 3 * (1 / 3)" using assms by (intro mult_mono) auto
    then have xx: "8 / 9 \<le> 1 - x * x" by simp
    have "(?h has_real_derivative 9 / 4 * x ^ (2 * N) - 2 * x ^ (2 * N) / (1 - x * x)) (at x)"
      using x assms by (intro DERIV_diff DERIV_cmult odd_power_deriv ln_remainder_deriv) auto
    moreover have "2 * x ^ (2 * N) / (1 - x * x) \<le> 2 * x ^ (2 * N) / (8 / 9)"
      using xx x by (intro divide_left_mono) auto
    ultimately show "\<exists>y. (?h has_real_derivative y) (at x) \<and> 0 \<le> y"
      by (intro exI [of _ "9 / 4 * x ^ (2 * N) - 2 * x ^ (2 * N) / (1 - x * x)"]) simp
  qed
  then show ?thesis by simp
qed

section \<open>The constant LN2\<close>

lemma ln2_bounds: "693147180 \<le> 1000000000 * ln (2::real)" "1000000000 * ln (2::real) \<le> 693147180 + 561 / 1000"
proof -
  have e: "ln (2::real) = ln (1 + 1 / 3) - ln (1 - 1 / 3)"
    using ln_div [of "4/3" "2/3::real"] by simp
  have s: "693147180 / 1000000000 \<le> artanh_sum 10 (1 / 3)"
    "artanh_sum 10 (1 / 3) + 9 / 4 * ((1 / 3) ^ 21 / 21) \<le> (693147180 + 561 / 1000) / 1000000000"
    by (simp_all add: artanh_sum_def lessThan_nat_numeral power_divide)
  show "693147180 \<le> 1000000000 * ln (2::real)"
    using ln_series_lower [of "1/3" 10] s(1) unfolding e by simp
  show "1000000000 * ln (2::real) \<le> 693147180 + 561 / 1000"
    using ln_series_upper [of "1/3" 10] s(2) unfolding e by simp
qed

section \<open>The integer Horner scheme\<close>

abbreviation FR :: real where "FR \<equiv> 1000000000"

lemma real_F [simp]: "real_of_int F = FR"
  by (simp add: FLOAT_SCALING_def)

lemma mulScaled_real_bounds:
  assumes "0 \<le> x" "0 \<le> y"
  shows "real_of_int x * real_of_int y / FR - 1 \<le> real_of_int (mulScaledU128 x y)"
    and "real_of_int (mulScaledU128 x y) \<le> real_of_int x * real_of_int y / FR"
  using real_div_bounds [of F "x * y"] assms by (simp_all add: mulScaledU128_def sdiv_nonneg)

definition horner_close :: "int \<Rightarrow> real \<Rightarrow> bool" where
  "horner_close h H \<longleftrightarrow> 0 \<le> h \<and> 0 \<le> H \<and> H \<le> 1 / 6 \<and> \<bar>real_of_int h - FR * H\<bar> \<le> 2"

lemma horner_stage:
  assumes h: "horner_close h H"
    and i: "0 \<le> i" "\<bar>real_of_int i - FR * c\<bar> \<le> 1 / 2" "0 \<le> c" "c \<le> 1 / 3"
    and z: "0 \<le> z" "3 * z \<le> F"
    and u: "u = (real_of_int z / FR) * (real_of_int z / FR)"
  shows "horner_close (mulScaledU128 (i + h) (mulScaledU128 z z)) ((c + H) * u)"
proof -
  define w where "w = mulScaledU128 z z"
  define W where "W = real_of_int w / FR"
  define A where "A = real_of_int i + real_of_int h"
  define B where "B = FR * (c + H)"
  have w0: "0 \<le> w" using z by (simp add: w_def mulScaledU128_nonneg)
  have zF: "real_of_int z / FR \<le> 1 / 3" "0 \<le> real_of_int z / FR"
    using z by (simp_all add: FLOAT_SCALING_def)
  have u9: "0 \<le> u" "u \<le> 1 / 9"
    unfolding u using mult_mono [OF zF(1) zF(1)] zF(2) by simp_all
  have Wu: "W \<le> u" "u - 1 / FR \<le> W" "0 \<le> W"
    using mulScaled_real_bounds [of z z] z w0 by (simp_all add: W_def w_def u field_simps)
  have AB: "\<bar>A - B\<bar> \<le> 5 / 2" "0 \<le> B" "B \<le> FR / 2"
  proof -
    have "B = FR * c + FR * H" by (simp add: B_def distrib_left)
    then show "\<bar>A - B\<bar> \<le> 5 / 2" "0 \<le> B" "B \<le> FR / 2"
      using h i unfolding horner_close_def A_def by linarith+
  qed
  have "\<bar>A * W - B * u\<bar> = \<bar>(A - B) * W + B * (W - u)\<bar>" by (simp add: algebra_simps)
  also have "\<dots> \<le> \<bar>A - B\<bar> * W + B * (u - W)"
    using abs_triangle_ineq [of "(A - B) * W" "B * (W - u)"] Wu AB(2) by (simp add: abs_mult)
  also have "\<dots> \<le> 5 / 2 * (1 / 9) + FR / 2 * (1 / FR)"
    using AB Wu u9 by (intro add_mono mult_mono) auto
  finally have err: "\<bar>A * W - B * u\<bar> \<le> 7 / 9" by simp
  have "0 \<le> i + h" using h i by (simp add: horner_close_def)
  then have fl: "A * W - 1 \<le> real_of_int (mulScaledU128 (i + h) w)"
      "real_of_int (mulScaledU128 (i + h) w) \<le> A * W"
    using mulScaled_real_bounds [of "i + h" w] w0 by (simp_all add: A_def W_def)
  have "(c + H) * u \<le> (1 / 3 + 1 / 6) * (1 / 9)"
    using h i u9 by (intro mult_mono) (auto simp: horner_close_def)
  moreover have "0 \<le> mulScaledU128 (i + h) w"
    using \<open>0 \<le> i + h\<close> w0 by (rule mulScaledU128_nonneg)
  moreover have "B * u = FR * ((c + H) * u)" by (simp add: B_def)
  then have "\<bar>real_of_int (mulScaledU128 (i + h) w) - FR * ((c + H) * u)\<bar> \<le> 2"
    using err fl by linarith
  ultimately show ?thesis
    using h i u9 by (simp add: horner_close_def w_def)
qed

definition ln_horner :: "real \<Rightarrow> real" where
  "ln_horner u = (1/3 + (1/5 + (1/7 + (1/9 + (1/11 + (1/13 + 0) * u) * u) * u) * u) * u) * u"

lemma artanh_sum_horner: "artanh_sum 7 t = 2 * t * (1 + ln_horner (t * t))"
  by (simp add: artanh_sum_def ln_horner_def lessThan_nat_numeral power_numeral_reduce field_simps)

lemma lnU128_horner:
  assumes z: "0 \<le> z" "3 * z \<le> F" and y: "z = ((y - F) * F) sdiv (y + F)"
  shows "\<bar>real_of_int (lnU128 y n) - real n * 693147180 - FR * artanh_sum 7 (real_of_int z / FR)\<bar> \<le> 7 / 3"
proof -
  define t where "t = real_of_int z / FR"
  define w where "w = mulScaledU128 z z"
  define h where "h = mulScaledU128 (INV_3_U128 + mulScaledU128 (INV_5_U128 + mulScaledU128 (INV_7_U128
    + mulScaledU128 (INV_9_U128 + mulScaledU128 (INV_11_U128 + mulScaledU128 (INV_13_U128 + 0) w) w) w) w) w) w"
  have 0: "horner_close 0 0" by (simp add: horner_close_def)
  have hc: "horner_close h (ln_horner (t * t))"
    unfolding h_def w_def ln_horner_def
    by (intro horner_stage [OF _ _ _ _ _ z] 0)
      (simp_all add: t_def INV_3_U128_def INV_5_U128_def INV_7_U128_def INV_9_U128_def
        INV_11_U128_def INV_13_U128_def)
  have two: "mulScaledU128 (2 * F) z = 2 * z"
    using z by (simp add: mulScaledU128_def sdiv_nonneg)
  have ln: "lnU128 y n = int n * LN2_U128 PHI_COEFFICIENTS + mulScaledU128 (2 * z) (F + h)"
    unfolding lnU128_def Let_def y [symmetric] h_def w_def two
    by (simp add: mulScaledU128_def mult.commute)
  have t3: "0 \<le> t" "t \<le> 1 / 3" using z by (simp_all add: t_def FLOAT_SCALING_def)
  define X where "X = real_of_int (2 * z) * real_of_int (F + h) / FR"
  have "\<bar>2 * t * (real_of_int h - FR * ln_horner (t * t))\<bar> \<le> 2 * (1 / 3) * 2"
    using hc t3 unfolding abs_mult by (intro mult_mono) (auto simp: horner_close_def)
  moreover have "X - FR * artanh_sum 7 t = 2 * t * (real_of_int h - FR * ln_horner (t * t))"
    by (simp add: X_def artanh_sum_horner t_def field_simps)
  moreover have "0 \<le> F + h" using hc by (simp add: horner_close_def)
  then have "X - 1 \<le> real_of_int (mulScaledU128 (2 * z) (F + h))"
    "real_of_int (mulScaledU128 (2 * z) (F + h)) \<le> X"
    using mulScaled_real_bounds [of "2 * z" "F + h"] z(1) by (simp_all add: X_def)
  moreover have "real_of_int (lnU128 y n) - real n * 693147180 = real_of_int (mulScaledU128 (2 * z) (F + h))"
    unfolding ln by (simp add: PHI_COEFFICIENTS_def)
  ultimately show ?thesis unfolding t_def [symmetric] by linarith
qed

section \<open>The error of the logarithm\<close>

lemma artanh_shift:
  fixes t Z :: real
  assumes "0 \<le> t" "t \<le> Z" "Z \<le> 1 / 3"
  shows "ln (1 + t) - ln (1 - t) \<le> ln (1 + Z) - ln (1 - Z)"
    and "ln (1 + Z) - ln (1 - Z) \<le> ln (1 + t) - ln (1 - t) + 5 / 2 * (Z - t)"
proof -
  have "ln (1 + t) \<le> ln (1 + Z)" "ln (1 - Z) \<le> ln (1 - t)" using assms by simp_all
  then show "ln (1 + t) - ln (1 - t) \<le> ln (1 + Z) - ln (1 - Z)" by linarith
  have "ln (1 + Z) - ln (1 + t) \<le> (Z - t) / (1 + t)"
    using ln_diff_le [of "1 + Z" "1 + t"] assms by simp
  also have "\<dots> \<le> (Z - t) / 1" using assms by (intro divide_left_mono) auto
  finally have a: "ln (1 + Z) - ln (1 + t) \<le> Z - t" by simp
  have "ln (1 - t) - ln (1 - Z) \<le> (Z - t) / (1 - Z)"
    using ln_diff_le [of "1 - t" "1 - Z"] assms by simp
  also have "\<dots> \<le> (Z - t) / (2 / 3)" using assms by (intro divide_left_mono) auto
  finally have "ln (1 - t) - ln (1 - Z) \<le> 3 / 2 * (Z - t)" by simp
  with a show "ln (1 + Z) - ln (1 - Z) \<le> ln (1 + t) - ln (1 - t) + 5 / 2 * (Z - t)"
    by (simp add: field_simps)
qed

lemma lnU128_accuracy:
  assumes y: "F \<le> y" "y < 2 * F"
  shows "\<bar>real_of_int (lnU128 y n) - real n * 693147180 - FR * ln (real_of_int y / FR)\<bar> \<le> 16"
proof -
  define z where "z = ((y - F) * F) sdiv (y + F)"
  define t where "t = real_of_int z / FR"
  define Z where "Z = (real_of_int y - FR) / (real_of_int y + FR)"
  have yr: "FR \<le> real_of_int y" "real_of_int y \<le> 2 * FR" using y by (simp_all add: FLOAT_SCALING_def)
  have zd: "z = ((y - F) * F) div (y + F)" using y by (simp add: z_def sdiv_nonneg FLOAT_SCALING_def)
  have z0: "0 \<le> z" using y by (simp add: zd pos_imp_zdiv_nonneg_iff FLOAT_SCALING_def)
  have Zt: "t \<le> Z" "Z \<le> t + 1 / FR"
    using real_div_bounds [of "y + F" "(y - F) * F"] y
    by (simp_all add: zd t_def Z_def FLOAT_SCALING_def field_simps)
  have Z3: "Z \<le> 1 / 3" using yr by (simp add: Z_def divide_simps)
  have t0: "0 \<le> t" using z0 by (simp add: t_def)
  have "3 * real_of_int z \<le> FR" using Zt Z3 by (simp add: t_def)
  then have z3: "3 * z \<le> F" by (simp add: FLOAT_SCALING_def)
  have "ln (1 + Z) - ln (1 - Z) = ln ((1 + Z) / (1 - Z))"
    using Z3 Zt t0 by (simp add: ln_div)
  also have "(1 + Z) / (1 - Z) = real_of_int y / FR" using yr by (simp add: Z_def divide_simps)
  finally have lnZ: "ln (1 + Z) - ln (1 - Z) = ln (real_of_int y / FR)" .
  have "t ^ 15 \<le> (1 / 3) ^ 15" using t0 Zt Z3 by (intro power_mono) auto
  then have rem: "9 / 4 * (t ^ 15 / 15) \<le> 105 / 10 / FR" by (simp add: power_divide)
  have "0 \<le> ln (real_of_int y / FR) - artanh_sum 7 t"
    "ln (real_of_int y / FR) - artanh_sum 7 t \<le> 13 / FR"
    using ln_series_lower [of t 7] ln_series_upper [of t 7] artanh_shift [OF t0 Zt(1) Z3] rem Zt Z3 t0
    unfolding lnZ by (simp_all add: field_simps)
  then have "\<bar>FR * artanh_sum 7 t - FR * ln (real_of_int y / FR)\<bar> \<le> 13"
    unfolding abs_le_iff by simp
  then show ?thesis
    using lnU128_horner [OF z0 z3 z_def, of n] unfolding t_def [symmetric] by linarith
qed

lemma lnU128_normalized:
  assumes x: "F < x" "x < 2 ^ 64 * F"
  shows "\<bar>real_of_int (lnU128 (fst (normalize x)) (snd (normalize x))) - FR * ln (real_of_int x / FR)\<bar> \<le> 53"
proof -
  obtain y n where yn: "normalize x = (y, n)" by (cases "normalize x")
  have y: "y = x div 2 ^ n" "F \<le> y" "y < 2 * F" using normalize_spec [OF _ x(2) yn] x by auto
  have n: "n \<le> 63" using normalize_count [of x] yn by simp
  define q where "q = real_of_int x / 2 ^ n"
  have q: "real_of_int y \<le> q" "q \<le> real_of_int y + 1"
    using real_div_bounds [of "2 ^ n" x] by (simp_all add: q_def y(1))
  have yr: "FR \<le> real_of_int y" using y by (simp add: FLOAT_SCALING_def)
  have "ln (real_of_int x / FR) = ln (q / FR) + real n * ln 2"
  proof -
    have "ln (real_of_int x / FR) = ln ((q / FR) * 2 ^ n)" by (simp add: q_def)
    also have "\<dots> = ln (q / FR) + ln (2 ^ n)" using q yr by (intro ln_mult_pos) auto
    finally show ?thesis by (simp add: ln_realpow)
  qed
  then have e: "FR * ln (real_of_int x / FR) = FR * ln (q / FR) + real n * (FR * ln 2)"
    by (simp add: distrib_left)
  have "ln (q / FR) - ln (real_of_int y / FR) \<le> (q - real_of_int y) / real_of_int y"
    using ln_diff_le [of "q / FR" "real_of_int y / FR"] q yr by (simp add: diff_divide_distrib)
  also have "\<dots> \<le> 1 / FR" using q yr by (intro frac_le) auto
  finally have "ln (q / FR) - ln (real_of_int y / FR) \<le> 1 / FR" .
  moreover have "ln (real_of_int y / FR) \<le> ln (q / FR)" using q yr by simp
  ultimately have "FR * ln (q / FR) - FR * ln (real_of_int y / FR) \<le> 1"
    "0 \<le> FR * ln (q / FR) - FR * ln (real_of_int y / FR)" by simp_all
  moreover have "real n * 693147180 \<le> real n * (FR * ln 2)"
    using ln2_bounds by (intro mult_left_mono) auto
  moreover have "real n * (FR * ln 2) \<le> real n * (693147180 + 561 / 1000)"
    using ln2_bounds by (intro mult_left_mono) auto
  then have "real n * (FR * ln 2) \<le> real n * 693147180 + 63 * (561 / 1000)"
    using n by (simp add: distrib_left)
  ultimately show ?thesis
    using lnU128_accuracy [OF y(2,3), of n] unfolding yn fst_conv snd_conv e by linarith
qed

lemma inverse_in_domain:
  assumes "0 < x" "x < F"
  shows "F < F * F div x" "F * F div x < 2 ^ 64 * F"
    and "\<bar>FR * ln (real_of_int (F * F div x) / FR) + FR * ln (real_of_int x / FR)\<bar> \<le> 1"
proof -
  show inv: "F < F * F div x" using inverse_exceeds_F [OF assms] assms by (simp add: sdiv_nonneg)
  have "F * F div x \<le> F * F" using assms by (intro div_leI) auto
  then show "F * F div x < 2 ^ 64 * F" by (simp add: FLOAT_SCALING_def)
  define q where "q = FR * FR / real_of_int x"
  define v where "v = real_of_int (F * F div x)"
  have v: "FR \<le> v" "v \<le> q" "q \<le> v + 1"
    using real_div_bounds [of x "F * F"] inv assms by (simp_all add: v_def q_def FLOAT_SCALING_def)
  have "ln (real_of_int x / FR) = - ln (q / FR)"
    using assms by (simp add: q_def ln_div ln_mult)
  moreover have "ln (v / FR) \<le> ln (q / FR)" using v by simp
  moreover have "ln (q / FR) - ln (v / FR) \<le> (q - v) / v"
    using ln_diff_le [of "q / FR" "v / FR"] v by (simp add: diff_divide_distrib)
  moreover have "(q - v) / v \<le> 1 / FR" using v by (intro frac_le) auto
  ultimately have "- ln (real_of_int x / FR) - ln (v / FR) \<le> 1 / FR"
    "ln (v / FR) + ln (real_of_int x / FR) \<le> 0" by linarith+
  then show "\<bar>FR * ln (real_of_int (F * F div x) / FR) + FR * ln (real_of_int x / FR)\<bar> \<le> 1"
    unfolding v_def [symmetric] abs_le_iff by simp
qed

lemma lnSigned_close:
  assumes "0 < x" "x < 2 ^ 64 * FLOAT_SCALING"
  shows "\<exists>v. lnSigned x = Inr v \<and> \<bar>real_of_int v - 1000000000 * ln (real_of_int x / 1000000000)\<bar> \<le> 64"
proof (cases x F rule: linorder_cases)
  case less
  note inv = inverse_in_domain [OF assms(1) less]
  from lnU128_normalized [OF inv(1,2)] inv(3) show ?thesis
    unfolding lnSigned_lt [OF assms(1) less] by (auto simp: abs_le_iff)
next
  case equal
  then show ?thesis by (auto simp: FLOAT_SCALING_def intro: exI [of _ 0] simp: lnSigned_F [unfolded FLOAT_SCALING_def])
next
  case greater
  from lnU128_normalized [OF greater assms(2)] show ?thesis
    unfolding lnSigned_ge [OF greater] by auto
qed

text \<open>C8. \<open>lnSigned\<close> returns a value on every positive input below \<open>2^64\<close> (at the fixed-point
  scale), and the value differs from the real logarithm by at most 64 units in the ninth
  decimal.\<close>

theorem lnSigned_accuracy:
  assumes "0 < x" "x < 2 ^ 64 * FLOAT_SCALING"
  shows "\<exists>v. lnSigned x = Inr v \<and> \<bar>real_of_int v - 1000000000 * ln (real_of_int x / 1000000000)\<bar> \<le> 64"
  using lnSigned_close [OF assms] .

theorem lnSigned_accuracy_witness:
  "(0::int) < 2000000000 \<and> 2000000000 < 2 ^ 64 * FLOAT_SCALING
    \<and> (\<exists>v. lnSigned 2000000000 = Inr v \<and> \<bar>real_of_int v - 1000000000 * ln 2\<bar> \<le> 64)"
  using lnSigned_accuracy [of 2000000000] by (simp add: FLOAT_SCALING_def)

end
