(* ===== verification/Phi.thy ===== *)
theory Phi
  imports PhiCoefficients
begin

text \<open>
  \<open>dashboard/src/lib/phi.ts\<close>: the standard normal distribution function at the fixed-point scale.
  The theory proves that the result is a probability, that it is symmetric about one half without
  any rounding loss, and that the staged shifts of the exponential are a single shift.
\<close>

section \<open>The source\<close>

text \<open>One step \<open>acc = ((acc + c) * x) / F\<close> of the two polynomial evaluations.\<close>

definition horner_step :: "int \<Rightarrow> int \<Rightarrow> int \<Rightarrow> int" where
  "horner_step acc c x = ((acc + c) * x) sdiv F"

text \<open>The loop of \<open>_expSeriesU128\<close> with its early exit when a term vanishes.\<close>

function exp_series_loop :: "int \<Rightarrow> int \<Rightarrow> int \<Rightarrow> nat \<Rightarrow> int" where
  "exp_series_loop r acc trm k =
     (if k \<le> 12
      then let trm' = (trm * r) sdiv (int k * F)
           in if trm' = 0 then acc else exp_series_loop r (acc + trm') trm' (k + 1)
      else acc)"
  by pat_completeness auto
termination by (relation "measure (\<lambda>(r, acc, trm, k). 13 - k)") auto

declare exp_series_loop.simps [simp del]

definition expSeriesU128 :: "int \<Rightarrow> int" where
  "expSeriesU128 r = exp_series_loop r F F 1"

text \<open>\<open>if (nn >= s) { result >>= s; if (result === 0n) return 0n; nn -= s; }\<close>: \<open>None\<close> is the early
  return of zero.\<close>

definition shr_stage :: "nat \<Rightarrow> int \<times> int \<Rightarrow> (int \<times> int) option" where
  "shr_stage s = (\<lambda>(result, nn).
     if nn \<ge> int s
     then let result' = drop_bit s result
          in if result' = 0 then None else Some (result', nn - int s)
     else Some (result, nn))"

definition shl_stage :: "nat \<Rightarrow> int \<times> int \<Rightarrow> int \<times> int" where
  "shl_stage s = (\<lambda>(result, nn).
     if nn \<ge> int s then (push_bit s result, nn - int s) else (result, nn))"

definition expU128 :: "int \<Rightarrow> int \<Rightarrow> bool \<Rightarrow> int" where
  "expU128 r n xNegative =
     (let expR = expSeriesU128 r in
      if xNegative
      then case Option.bind (Option.bind (Option.bind (Option.bind
                  (shr_stage 32 ((F * F) sdiv expR, n))
                  (shr_stage 16)) (shr_stage 8)) (shr_stage 4)) (shr_stage 2) of
             None \<Rightarrow> 0
           | Some (result, nn) \<Rightarrow> (if nn \<ge> 1 then drop_bit 1 result else result)
      else case shl_stage 2 (shl_stage 4 (shl_stage 8 (shl_stage 16 (shl_stage 32 (expR, n))))) of
             (result, nn) \<Rightarrow> (if nn \<ge> 1 then push_bit 1 result else result))"

definition normalCdfU128 :: "int \<Rightarrow> bool \<Rightarrow> int" where
  "normalCdfU128 x xNegative =
     (let c = PHI_COEFFICIENTS in
      if x < SMALL_THRESHOLD c
      then let xsq = (x * x) sdiv F;
               xnum = (SMALL_A4 c * xsq) sdiv F;
               xden = xsq;
               xnum = horner_step xnum (SMALL_A0 c) xsq;
               xden = horner_step xden (SMALL_B0 c) xsq;
               xnum = horner_step xnum (SMALL_A1 c) xsq;
               xden = horner_step xden (SMALL_B1 c) xsq;
               xnum = horner_step xnum (SMALL_A2 c) xsq;
               xden = horner_step xden (SMALL_B2 c) xsq;
               ratio = ((xnum + SMALL_A3 c) * F) sdiv (xden + SMALL_B3 c);
               term = (x * ratio) sdiv F
           in if xNegative then F sdiv 2 - term else F sdiv 2 + term
      else if x < MEDIUM_THRESHOLD c
      then let xnum = (MEDIUM_C8 c * x) sdiv F;
               xden = x;
               xnum = horner_step xnum (MEDIUM_C0 c) x;
               xden = horner_step xden (MEDIUM_D0 c) x;
               xnum = horner_step xnum (MEDIUM_C1 c) x;
               xden = horner_step xden (MEDIUM_D1 c) x;
               xnum = horner_step xnum (MEDIUM_C2 c) x;
               xden = horner_step xden (MEDIUM_D2 c) x;
               xnum = horner_step xnum (MEDIUM_C3 c) x;
               xden = horner_step xden (MEDIUM_D3 c) x;
               xnum = horner_step xnum (MEDIUM_C4 c) x;
               xden = horner_step xden (MEDIUM_D4 c) x;
               xnum = horner_step xnum (MEDIUM_C5 c) x;
               xden = horner_step xden (MEDIUM_D5 c) x;
               xnum = horner_step xnum (MEDIUM_C6 c) x;
               xden = horner_step xden (MEDIUM_D6 c) x;
               rational = ((xnum + MEDIUM_C7 c) * F) sdiv (xden + MEDIUM_D7 c);
               xSqHalf = (x * x) sdiv (F * 2);
               n = xSqHalf sdiv LN2_U128 c;
               r = xSqHalf - n * LN2_U128 c;
               expVal = expU128 r n True;
               complement = (expVal * rational) sdiv F
           in if xNegative then complement else F - complement
      else if xNegative then 0 else F)"

definition normalCdf :: "int \<Rightarrow> int" where
  "normalCdf x =
     (let xNegative = x < 0;
          xMag = (if xNegative then - x else x)
      in if xMag > 8 * F then (if xNegative then 0 else F)
         else normalCdfU128 xMag xNegative)"

section \<open>The exponential\<close>

lemma exp_series_loop_ge: "0 \<le> r \<Longrightarrow> 0 \<le> trm \<Longrightarrow> acc \<le> exp_series_loop r acc trm k"
proof (induction r acc trm k rule: exp_series_loop.induct)
  case (1 r acc trm k)
  define t where "t = (trm * r) sdiv (int k * F)"
  have t0: "0 \<le> t"
  proof (cases "k = 0")
    case False
    then have "0 < int k * F" by simp
    with 1 show ?thesis by (simp add: t_def sdiv_nonneg_result)
  qed (simp add: t_def)
  show ?case
  proof (cases "k \<le> 12 \<and> t \<noteq> 0")
    case True
    then have "acc + t \<le> exp_series_loop r (acc + t) t (k + 1)"
      using "1.IH" [of t] "1.prems" t0 by (simp add: t_def)
    then show ?thesis
      using True t0 by (subst exp_series_loop.simps) (simp add: t_def [symmetric] Let_def)
  next
    case False
    then show ?thesis
      by (subst exp_series_loop.simps) (auto simp: t_def [symmetric] Let_def)
  qed
qed

lemma expSeriesU128_ge: "0 \<le> r \<Longrightarrow> F \<le> expSeriesU128 r"
  by (simp add: expSeriesU128_def exp_series_loop_ge)

lemma expSeriesU128_pos: "0 \<le> r \<Longrightarrow> 0 < expSeriesU128 r"
  using expSeriesU128_ge [of r] by (simp add: FLOAT_SCALING_def)

text \<open>The staged right shift: after the stages down to \<open>2 ^ j\<close> what is left is one shift by the bits
  of \<open>n\<close> that were consumed. \<open>shr_inv\<close> relates a stage result to the total shift still due.\<close>

definition shr_inv :: "int \<Rightarrow> nat \<Rightarrow> (int \<times> int) option \<Rightarrow> bool" where
  "shr_inv v m p = (case p of
     None \<Rightarrow> v = 0
   | Some (result, nn) \<Rightarrow> 0 \<le> result \<and> 0 \<le> nn \<and> nn < 2 * int m \<and> v = result div 2 ^ nat nn)"

lemma shr_stage_inv:
  assumes "shr_inv v (2 * m) (Some p)" "0 < m"
  shows "shr_inv v m (shr_stage (2 * m) p)"
proof -
  obtain result nn where p: "p = (result, nn)" by (cases p)
  from assms p have i: "0 \<le> result" "0 \<le> nn" "nn < 4 * int m" "v = result div 2 ^ nat nn"
    by (simp_all add: shr_inv_def)
  show ?thesis
  proof (cases "nn \<ge> int (2 * m)")
    case True
    then have "nat nn = 2 * m + nat (nn - int (2 * m))" by simp
    then have "v = (result div 2 ^ (2 * m)) div 2 ^ nat (nn - int (2 * m))"
      unfolding i(4) by (metis power_add zdiv_zmult2_eq zero_le_numeral zero_le_power)
    with True i show ?thesis
      by (auto simp: p shr_stage_def shr_inv_def drop_bit_eq_div Let_def pos_imp_zdiv_nonneg_iff)
  next
    case False
    with i show ?thesis by (simp add: p shr_stage_def shr_inv_def)
  qed
qed

lemma shr_bind_inv:
  assumes "shr_inv v (2 * m) q" "0 < m"
  shows "shr_inv v m (Option.bind q (shr_stage (2 * m)))"
proof (cases q)
  case None
  with assms show ?thesis by (simp add: shr_inv_def)
next
  case (Some p)
  with assms show ?thesis using shr_stage_inv [of v m p] by simp
qed

lemma shr_inv_last:
  "shr_inv v 1 p \<Longrightarrow>
   (case p of None \<Rightarrow> 0 | Some (result, nn) \<Rightarrow> (if nn \<ge> 1 then drop_bit 1 result else result)) = v"
proof (cases p)
  case (Some q)
  obtain result nn where q: "q = (result, nn)" by (cases q)
  assume "shr_inv v 1 p"
  then have "nn = 0 \<or> nn = 1" "v = result div 2 ^ nat nn" by (auto simp: shr_inv_def Some q)
  then show ?thesis by (auto simp: Some q drop_bit_eq_div)
qed (simp add: shr_inv_def)

lemma expU128_negative:
  assumes "0 \<le> r" "0 \<le> n" "n < 64"
  shows "expU128 r n True = (F * F div expSeriesU128 r) div 2 ^ nat n"
proof -
  define v where "v = (F * F div expSeriesU128 r) div 2 ^ nat n"
  have e: "0 < expSeriesU128 r" using assms(1) by (rule expSeriesU128_pos)
  then have "(F * F) sdiv expSeriesU128 r = F * F div expSeriesU128 r"
    by (simp add: sdiv_nonneg)
  moreover have "0 \<le> F * F div expSeriesU128 r"
    using e by (simp add: pos_imp_zdiv_nonneg_iff)
  ultimately have "shr_inv v 32 (Some ((F * F) sdiv expSeriesU128 r, n))"
    using assms by (simp add: shr_inv_def v_def)
  from shr_bind_inv [of v 16, simplified, OF this]
  have "shr_inv v 16 (shr_stage 32 ((F * F) sdiv expSeriesU128 r, n))" by simp
  from shr_bind_inv [of v 1, simplified, OF shr_bind_inv [of v 2, simplified, OF
      shr_bind_inv [of v 4, simplified, OF shr_bind_inv [of v 8, simplified, OF this]]]]
  have "shr_inv v 1 (Option.bind (Option.bind (Option.bind (Option.bind
      (shr_stage 32 ((F * F) sdiv expSeriesU128 r, n))
      (shr_stage 16)) (shr_stage 8)) (shr_stage 4)) (shr_stage 2))" by simp
  then show ?thesis
    unfolding v_def [symmetric] expU128_def Let_def by (simp only: shr_inv_last if_True)
qed

lemma expU128_negative_range:
  assumes "0 \<le> r" "0 \<le> n" "n < 64"
  shows "0 \<le> expU128 r n True" "expU128 r n True \<le> F"
proof -
  have e: "F \<le> expSeriesU128 r" using assms(1) by (rule expSeriesU128_ge)
  have pos: "0 < expSeriesU128 r" using assms(1) by (rule expSeriesU128_pos)
  have "F * F \<le> expSeriesU128 r * F" using e by (intro mult_right_mono) auto
  then have q: "F * F div expSeriesU128 r \<le> F" using pos by (intro div_leI)
  have q0: "0 \<le> F * F div expSeriesU128 r" using pos by (simp add: pos_imp_zdiv_nonneg_iff)
  show "0 \<le> expU128 r n True"
    using q0 by (simp add: expU128_negative [OF assms] pos_imp_zdiv_nonneg_iff)
  have "(F * F div expSeriesU128 r) div 2 ^ nat n \<le> F * F div expSeriesU128 r"
    using q0 by (simp add: div_leI mult_le_cancel_right1)
  with q show "expU128 r n True \<le> F" by (simp add: expU128_negative [OF assms])
qed

text \<open>The exponential of a negative argument: the six conditional shifts with their early
  returns compute one right shift of the reciprocal series by the whole exponent.\<close>

theorem expU128_staged_shift:
  assumes "0 \<le> r" "0 \<le> n" "n < 64"
  shows "expU128 r n True = ((FLOAT_SCALING * FLOAT_SCALING) div expSeriesU128 r) div 2 ^ nat n"
  using expU128_negative [OF assms] .

theorem expU128_staged_shift_witness:
  "(0::int) \<le> 0 \<and> (0::int) \<le> 20 \<and> (20::int) < 64 \<and> expU128 0 20 True = 953"
proof -
  have "exp_series_loop 0 F F 1 = F" by (subst exp_series_loop.simps) simp
  then have "expSeriesU128 0 = F" by (simp add: expSeriesU128_def)
  with expU128_staged_shift [of 0 20] show ?thesis by (simp add: FLOAT_SCALING_def)
qed

section \<open>The small range\<close>

lemma horner_step_bounds:
  assumes "0 \<le> acc" "acc \<le> A" "0 \<le> c" "0 \<le> x" "x \<le> X"
  shows "0 \<le> horner_step acc c x \<and> horner_step acc c x \<le> (A + c) * X div F"
proof -
  have "0 \<le> (acc + c) * x" "(acc + c) * x \<le> (A + c) * X"
    using assms by (simp_all add: mult_mono)
  then show ?thesis
    by (simp add: horner_step_def sdiv_nonneg zdiv_mono1 pos_imp_zdiv_nonneg_iff)
qed

lemma horner_step_nonneg: "0 \<le> acc \<Longrightarrow> 0 \<le> c \<Longrightarrow> 0 \<le> x \<Longrightarrow> 0 \<le> horner_step acc c x"
  using horner_step_bounds [of acc acc c x x] by simp

lemma sdiv_F_bounds:
  "0 \<le> a \<Longrightarrow> a \<le> A \<Longrightarrow> 0 \<le> a sdiv F \<and> a sdiv F \<le> A div F"
  by (simp add: sdiv_nonneg zdiv_mono1 pos_imp_zdiv_nonneg_iff)

definition small_term :: "int \<Rightarrow> int" where
  "small_term x =
     (let c = PHI_COEFFICIENTS; xsq = (x * x) sdiv F;
          xnum = horner_step (horner_step (horner_step ((SMALL_A4 c * xsq) sdiv F)
                   (SMALL_A0 c) xsq) (SMALL_A1 c) xsq) (SMALL_A2 c) xsq;
          xden = horner_step (horner_step (horner_step xsq
                   (SMALL_B0 c) xsq) (SMALL_B1 c) xsq) (SMALL_B2 c) xsq
      in (x * (((xnum + SMALL_A3 c) * F) sdiv (xden + SMALL_B3 c))) sdiv F)"

lemma small_range:
  "x < SMALL_THRESHOLD PHI_COEFFICIENTS \<Longrightarrow>
   normalCdfU128 x neg = (if neg then F sdiv 2 - small_term x else F sdiv 2 + small_term x)"
  by (simp add: normalCdfU128_def small_term_def Let_def)

lemma small_term_range:
  assumes "0 \<le> x" "x < SMALL_THRESHOLD PHI_COEFFICIENTS"
  shows "0 \<le> small_term x \<and> small_term x \<le> F div 2"
proof -
  define c where "c = PHI_COEFFICIENTS"
  note cs = c_def PHI_COEFFICIENTS_def FLOAT_SCALING_def
  define xsq where "xsq = (x * x) sdiv F"
  define n0 where "n0 = (SMALL_A4 c * xsq) sdiv F"
  define n1 where "n1 = horner_step n0 (SMALL_A0 c) xsq"
  define n2 where "n2 = horner_step n1 (SMALL_A1 c) xsq"
  define n3 where "n3 = horner_step n2 (SMALL_A2 c) xsq"
  define d3 where "d3 = horner_step (horner_step (horner_step xsq (SMALL_B0 c) xsq) (SMALL_B1 c) xsq) (SMALL_B2 c) xsq"
  have x: "x \<le> 662910000" using assms by (simp add: cs)
  have "x * x \<le> 662910000 * 662910000" using x assms by (intro sq_le)
  then have q: "0 \<le> xsq \<and> xsq \<le> 439449669"
    using sdiv_F_bounds [of "x * x" "662910000 * 662910000"] by (simp add: xsq_def FLOAT_SCALING_def)
  have "0 \<le> SMALL_A4 c * xsq \<and> SMALL_A4 c * xsq \<le> SMALL_A4 c * 439449669"
    using q by (simp add: cs)
  then have n0: "0 \<le> n0 \<and> n0 \<le> 28864082"
    using sdiv_F_bounds [of "SMALL_A4 c * xsq" "SMALL_A4 c * 439449669"] by (simp add: n0_def cs)
  have n1: "0 \<le> n1 \<and> n1 \<le> 1000000000"
    using horner_step_bounds [of n0 28864082 "SMALL_A0 c" xsq 439449669] n0 q by (simp add: n1_def cs)
  have n2: "0 \<le> n2 \<and> n2 \<le> 72000000000"
    using horner_step_bounds [of n1 1000000000 "SMALL_A1 c" xsq 439449669] n1 q by (simp add: n2_def cs)
  have n3: "0 \<le> n3 \<and> n3 \<le> 502000000000"
    using horner_step_bounds [of n2 72000000000 "SMALL_A2 c" xsq 439449669] n2 q by (simp add: n3_def cs)
  have d3: "0 \<le> d3" using q by (simp add: d3_def cs horner_step_nonneg)
  define ratio where "ratio = ((n3 + SMALL_A3 c) * F) sdiv (d3 + SMALL_B3 c)"
  have rd: "ratio = ((n3 + SMALL_A3 c) * F) div (d3 + SMALL_B3 c)"
    using n3 d3 by (simp add: ratio_def sdiv_nonneg cs)
  have "(n3 + SMALL_A3 c) * F \<le> (d3 + SMALL_B3 c) * 410000000"
    using n3 d3 by (simp add: cs)
  then have r: "0 \<le> ratio \<and> ratio \<le> 410000000"
    unfolding rd using n3 d3 by (intro conjI div_leI) (simp_all add: cs pos_imp_zdiv_nonneg_iff)
  have "0 \<le> x * ratio \<and> x * ratio \<le> 662910000 * 410000000"
    using r x assms by (intro mult_bounds) auto
  then have "0 \<le> (x * ratio) sdiv F \<and> (x * ratio) sdiv F \<le> F div 2"
    using sdiv_F_bounds [of "x * ratio" "662910000 * 410000000"] by (simp add: FLOAT_SCALING_def)
  moreover have "small_term x = (x * ratio) sdiv F"
    by (simp add: small_term_def Let_def ratio_def d3_def n3_def n2_def n1_def n0_def xsq_def c_def)
  ultimately show ?thesis by simp
qed

section \<open>The medium range\<close>

text \<open>The numerator stays below half the denominator through all steps, because every numerator
  coefficient is at most half of the denominator's.\<close>

definition half_le :: "int \<Rightarrow> int \<Rightarrow> bool" where
  "half_le a b \<longleftrightarrow> 0 \<le> a \<and> 2 * a \<le> b"

lemma horner_step_half:
  assumes "half_le a b" "half_le c d" "0 \<le> x"
  shows "half_le (horner_step a c x) (horner_step b d x)"
proof -
  have h: "0 \<le> a" "2 * a \<le> b" "0 \<le> c" "2 * c \<le> d" using assms by (simp_all add: half_le_def)
  have n: "0 \<le> (a + c) * x" "0 \<le> (b + d) * x" using h assms(3) by simp_all
  have "2 * ((a + c) * x div F) \<le> (2 * ((a + c) * x)) div F"
    by (intro le_divI) (simp, use div_lower [of F "(a + c) * x"] in simp)
  also have "2 * ((a + c) * x) \<le> (b + d) * x"
    using h assms(3) mult_right_mono [of "2 * (a + c)" "b + d" x] by (simp add: algebra_simps)
  then have "(2 * ((a + c) * x)) div F \<le> (b + d) * x div F" by (simp add: zdiv_mono1)
  finally show ?thesis using n
    by (simp add: half_le_def horner_step_def sdiv_nonneg pos_imp_zdiv_nonneg_iff)
qed

definition medium_complement :: "int \<Rightarrow> int" where
  "medium_complement x =
     (let c = PHI_COEFFICIENTS;
          xnum = horner_step (horner_step (horner_step (horner_step (horner_step (horner_step
            (horner_step ((MEDIUM_C8 c * x) sdiv F) (MEDIUM_C0 c) x) (MEDIUM_C1 c) x) (MEDIUM_C2 c) x)
            (MEDIUM_C3 c) x) (MEDIUM_C4 c) x) (MEDIUM_C5 c) x) (MEDIUM_C6 c) x;
          xden = horner_step (horner_step (horner_step (horner_step (horner_step (horner_step
            (horner_step x (MEDIUM_D0 c) x) (MEDIUM_D1 c) x) (MEDIUM_D2 c) x)
            (MEDIUM_D3 c) x) (MEDIUM_D4 c) x) (MEDIUM_D5 c) x) (MEDIUM_D6 c) x;
          rational = ((xnum + MEDIUM_C7 c) * F) sdiv (xden + MEDIUM_D7 c);
          xSqHalf = (x * x) sdiv (F * 2);
          n = xSqHalf sdiv LN2_U128 c;
          r = xSqHalf - n * LN2_U128 c
      in (expU128 r n True * rational) sdiv F)"

lemma medium_range:
  "\<not> x < SMALL_THRESHOLD PHI_COEFFICIENTS \<Longrightarrow> x < MEDIUM_THRESHOLD PHI_COEFFICIENTS \<Longrightarrow>
   normalCdfU128 x neg = (if neg then medium_complement x else F - medium_complement x)"
  by (simp add: normalCdfU128_def medium_complement_def Let_def)

lemma large_range:
  "\<not> x < MEDIUM_THRESHOLD PHI_COEFFICIENTS \<Longrightarrow> normalCdfU128 x neg = (if neg then 0 else F)"
  by (simp add: normalCdfU128_def Let_def PHI_COEFFICIENTS_def)

lemma medium_exponent:
  assumes "0 \<le> x" "x < MEDIUM_THRESHOLD PHI_COEFFICIENTS"
  defines "s \<equiv> (x * x) sdiv (F * 2)"
  defines "n \<equiv> s sdiv LN2_U128 PHI_COEFFICIENTS"
  shows "0 \<le> n" "n < 64" "0 \<le> s - n * LN2_U128 PHI_COEFFICIENTS"
proof -
  have "x * x \<le> 5656854249 * 5656854249" using assms(1,2) by (intro sq_le) (simp_all add: PHI_COEFFICIENTS_def)
  then have s: "s = (x * x) div (F * 2)" "0 \<le> s" "s \<le> 16000000000"
    unfolding s_def by (simp_all add: sdiv_nonneg FLOAT_SCALING_def pos_imp_zdiv_nonneg_iff div_leI)
  then have n: "n = s div 693147180" by (simp add: n_def PHI_COEFFICIENTS_def sdiv_nonneg)
  show "0 \<le> n" "n < 64" using s by (simp_all add: n pos_imp_zdiv_nonneg_iff div_ltI)
  show "0 \<le> s - n * LN2_U128 PHI_COEFFICIENTS"
    using div_lower [of 693147180 s] by (simp add: n PHI_COEFFICIENTS_def)
qed

lemma medium_complement_range:
  assumes x: "0 \<le> x" "x < MEDIUM_THRESHOLD PHI_COEFFICIENTS"
  shows "0 \<le> medium_complement x \<and> medium_complement x \<le> F div 2"
proof -
  define c where "c = PHI_COEFFICIENTS"
  define a0 where "a0 = (MEDIUM_C8 c * x) sdiv F"
  define a where "a = horner_step (horner_step (horner_step (horner_step (horner_step (horner_step
            (horner_step a0 (MEDIUM_C0 c) x) (MEDIUM_C1 c) x) (MEDIUM_C2 c) x)
            (MEDIUM_C3 c) x) (MEDIUM_C4 c) x) (MEDIUM_C5 c) x) (MEDIUM_C6 c) x"
  define b where "b = horner_step (horner_step (horner_step (horner_step (horner_step (horner_step
            (horner_step x (MEDIUM_D0 c) x) (MEDIUM_D1 c) x) (MEDIUM_D2 c) x)
            (MEDIUM_D3 c) x) (MEDIUM_D4 c) x) (MEDIUM_D5 c) x) (MEDIUM_D6 c) x"
  have "2 * (11 * x div F) \<le> x"
    using div_lower [of F "11 * x"] x by (simp add: FLOAT_SCALING_def)
  then have "0 \<le> a0 \<and> 2 * a0 \<le> x"
    using x by (simp add: a0_def c_def PHI_COEFFICIENTS_def sdiv_nonneg pos_imp_zdiv_nonneg_iff)
  then have "half_le a0 x" by (simp add: half_le_def)
  then have "half_le a b"
    unfolding a_def b_def using x
    by (intro horner_step_half) (simp_all add: half_le_def c_def PHI_COEFFICIENTS_def)
  then have ab: "0 \<le> a \<and> 2 * a \<le> b" by (simp add: half_le_def)
  define rational where "rational = ((a + MEDIUM_C7 c) * F) sdiv (b + MEDIUM_D7 c)"
  have r: "rational = ((a + MEDIUM_C7 c) * F) div (b + MEDIUM_D7 c)"
    using ab by (simp add: rational_def sdiv_nonneg c_def PHI_COEFFICIENTS_def)
  have "(a + MEDIUM_C7 c) * F \<le> (b + MEDIUM_D7 c) * (F div 2)"
    using ab by (simp add: c_def PHI_COEFFICIENTS_def FLOAT_SCALING_def)
  then have rr: "0 \<le> rational \<and> rational \<le> F div 2"
    unfolding r using ab
    by (intro conjI div_leI) (simp_all add: pos_imp_zdiv_nonneg_iff c_def PHI_COEFFICIENTS_def)
  define e where "e = expU128 ((x * x) sdiv (F * 2) - ((x * x) sdiv (F * 2)) sdiv LN2_U128 c * LN2_U128 c)
    (((x * x) sdiv (F * 2)) sdiv LN2_U128 c) True"
  have e: "0 \<le> e" "e \<le> F"
    unfolding e_def c_def using medium_exponent [OF x] by (intro expU128_negative_range; simp)+
  have "0 \<le> e * rational \<and> e * rational \<le> F * (F div 2)"
    using e rr by (intro mult_bounds) auto
  then have "0 \<le> (e * rational) sdiv F \<and> (e * rational) sdiv F \<le> F div 2"
    using sdiv_F_bounds [of "e * rational" "F * (F div 2)"] by simp
  moreover have "medium_complement x = (e * rational) sdiv F"
    by (simp add: medium_complement_def Let_def e_def rational_def a_def b_def a0_def c_def)
  ultimately show ?thesis by simp
qed

section \<open>The distribution function\<close>

lemma normalCdfU128_range:
  assumes "0 \<le> x"
  shows "F div 2 \<le> normalCdfU128 x False \<and> normalCdfU128 x False \<le> F"
    and "normalCdfU128 x True = F - normalCdfU128 x False"
proof -
  have "F div 2 \<le> normalCdfU128 x False \<and> normalCdfU128 x False \<le> F
    \<and> normalCdfU128 x True = F - normalCdfU128 x False"
  proof (cases "x < SMALL_THRESHOLD PHI_COEFFICIENTS")
    case True
    with small_term_range [OF assms True] show ?thesis
      by (simp add: small_range FLOAT_SCALING_def sdiv_nonneg)
  next
    case small: False
    show ?thesis
    proof (cases "x < MEDIUM_THRESHOLD PHI_COEFFICIENTS")
      case True
      with small medium_complement_range [OF assms True] show ?thesis
        by (simp add: medium_range FLOAT_SCALING_def)
    next
      case False
      then show ?thesis by (simp add: large_range FLOAT_SCALING_def)
    qed
  qed
  then show "F div 2 \<le> normalCdfU128 x False \<and> normalCdfU128 x False \<le> F"
    and "normalCdfU128 x True = F - normalCdfU128 x False" by simp_all
qed

lemma normalCdf_nonneg: "0 \<le> x \<Longrightarrow> F div 2 \<le> normalCdf x \<and> normalCdf x \<le> F"
  using normalCdfU128_range(1) [of x] by (simp add: normalCdf_def Let_def FLOAT_SCALING_def)

lemma normalCdf_minus: "normalCdf (- x) = F - normalCdf x"
proof -
  have pos: "normalCdf (- x) = F - normalCdf x" if "0 < x" for x
    using that normalCdfU128_range(2) [of x] by (simp add: normalCdf_def Let_def)
  have "normalCdf 0 = F div 2"
    by (simp add: normalCdf_def small_range PHI_COEFFICIENTS_def small_term_def horner_step_def
        FLOAT_SCALING_def sdiv_nonneg Let_def)
  moreover have "F - F div 2 = F div 2" by (simp add: FLOAT_SCALING_def)
  ultimately show ?thesis
    using pos [of x] pos [of "- x"] by (cases x "0::int" rule: linorder_cases) auto
qed

lemma normalCdf_range: "0 \<le> normalCdf x \<and> normalCdf x \<le> F"
proof (cases "0 \<le> x")
  case True
  then show ?thesis using normalCdf_nonneg [of x] by (simp add: FLOAT_SCALING_def)
next
  case False
  then show ?thesis
    using normalCdf_nonneg [of "- x"] normalCdf_minus [of x] by (simp add: FLOAT_SCALING_def)
qed

text \<open>C5. The distribution function is exactly symmetric: no rounding is lost between
  \<open>normalCdf(-x)\<close> and \<open>F - normalCdf(x)\<close>, in any of its ranges; its values lie between zero and one,
  and on the non-negative side in the upper half.\<close>

theorem normalCdf_symmetric_range:
  "normalCdf (- x) = FLOAT_SCALING - normalCdf x
   \<and> 0 \<le> normalCdf x \<and> normalCdf x \<le> FLOAT_SCALING
   \<and> (x \<ge> 0 \<longrightarrow> FLOAT_SCALING div 2 \<le> normalCdf x)"
  using normalCdf_minus [of x] normalCdf_range [of x] normalCdf_nonneg [of x] by simp

theorem normalCdf_symmetric_range_witness:
  "normalCdf (- 1959963985) = FLOAT_SCALING - normalCdf 1959963985
    \<and> FLOAT_SCALING div 2 \<le> normalCdf 1959963985"
  using normalCdf_symmetric_range [of 1959963985] by simp

end
