(* ===== verification/Svi.thy ===== *)
theory Svi
  imports Isqrt LnAccuracy Phi
begin

text \<open>
  \<open>dashboard/src/lib/svi.ts\<close> with the bounds of \<open>strategy_constants.ts\<close>: the raw five-parameter SVI
  total variance and the theoretical price of a binary call. The theory proves how far the
  fixed-point variance is from the real formula, which errors are reachable, and that a price is a
  probability which is at most one half out of the money.
\<close>

section \<open>The source\<close>

record SVIParams =
  svi_a :: int
  svi_b :: int
  svi_rho :: int
  svi_m :: int
  svi_sigma :: int

record strategy_constants =
  DECIMALS :: int
  VARIANCE_DECIMALS :: int
  SHARE_DECIMALS :: int
  ALLOCATION_BPS :: int
  STRIKE_OTM_BPS :: int
  TENOR_SECONDS :: int
  ROLL_TRIGGER_SECONDS :: int
  SIZING_FUNCTION :: string
  MAX_PRICE_PREMIUM_BPS :: int
  TOKEN_BUCKET_CAPACITY :: int
  TOKEN_BUCKET_REFILL_RATE_PER_MS :: int
  SEED_QUOTE_MICRO_UNITS :: int
  VIRTUAL_SHARES :: int
  NAV_SCALE :: int
  MARGIN_LTV_CAP_BPS :: int
  WORST_CASE_SETTLEMENT_HAIRCUT_BPS :: int
  MAX_STALENESS_SECONDS :: int
  REDEMPTION_COOLDOWN_MS :: int
  SVI_PARAMETERIZATION :: string
  SVI_SCALE :: int
  SVI_GRID_POINTS_FOR_ARB_CHECK :: int
  SVI_STRIKE_RANGE_SIGMA :: int
  SVI_K_MAX_LOG_STRIKE :: int
  SVI_A_MAX :: int
  SVI_B_MAX :: int
  SVI_SIGMA_MIN :: int
  SVI_SIGMA_MAX :: int
  SVI_M_ABS_MAX :: int

definition STRATEGY_CONSTANTS :: strategy_constants where
  "STRATEGY_CONSTANTS =
     \<lparr>DECIMALS = 18,
      VARIANCE_DECIMALS = 27,
      SHARE_DECIMALS = 9,
      ALLOCATION_BPS = 1000,
      STRIKE_OTM_BPS = 1500,
      TENOR_SECONDS = 1209600,
      ROLL_TRIGGER_SECONDS = 172800,
      SIZING_FUNCTION = ''fixed'',
      MAX_PRICE_PREMIUM_BPS = 50,
      TOKEN_BUCKET_CAPACITY = 100000000,
      TOKEN_BUCKET_REFILL_RATE_PER_MS = 1200,
      SEED_QUOTE_MICRO_UNITS = 10000000,
      VIRTUAL_SHARES = 1000000,
      NAV_SCALE = 1000000000,
      MARGIN_LTV_CAP_BPS = 5000,
      WORST_CASE_SETTLEMENT_HAIRCUT_BPS = 10000,
      MAX_STALENESS_SECONDS = 300,
      REDEMPTION_COOLDOWN_MS = 3600000,
      SVI_PARAMETERIZATION = ''raw_svi_5param'',
      SVI_SCALE = 9,
      SVI_GRID_POINTS_FOR_ARB_CHECK = 200,
      SVI_STRIKE_RANGE_SIGMA = 4,
      SVI_K_MAX_LOG_STRIKE = 2500000000,
      SVI_A_MAX = 4000000000,
      SVI_B_MAX = 8000000000,
      SVI_SIGMA_MIN = 1,
      SVI_SIGMA_MAX = 4000000000,
      SVI_M_ABS_MAX = 2500000000\<rparr>"

definition validateParams :: "SVIParams \<Rightarrow> unit res" where
  "validateParams svi =
     (if svi_a svi > SVI_A_MAX STRATEGY_CONSTANTS
      then Inl (Error ''SVIParams: a out of range (EParamOutOfRange)'')
      else if svi_b svi > SVI_B_MAX STRATEGY_CONSTANTS
      then Inl (Error ''SVIParams: b out of range (EParamOutOfRange)'')
      else if svi_sigma svi < SVI_SIGMA_MIN STRATEGY_CONSTANTS
            \<or> svi_sigma svi > SVI_SIGMA_MAX STRATEGY_CONSTANTS
      then Inl (Error ''SVIParams: sigma out of range (EParamOutOfRange)'')
      else let rhoMag = (if svi_rho svi < 0 then - svi_rho svi else svi_rho svi) in
           if rhoMag \<ge> F then Inl (Error ''SVIParams: |rho| must be < F (EParamOutOfRange)'')
      else let mMag = (if svi_m svi < 0 then - svi_m svi else svi_m svi) in
           if mMag > SVI_M_ABS_MAX STRATEGY_CONSTANTS
           then Inl (Error ''SVIParams: |m| out of range (EParamOutOfRange)'')
           else Inr ())"

definition ECannotBeNegative :: js_error where
  "ECannotBeNegative = Error ''total_variance: inner < 0 (ECannotBeNegative)''"

definition EZeroVariance :: js_error where
  "EZeroVariance = Error ''total_variance: result is zero (EZeroVariance)''"

definition EKOutOfRange :: js_error where
  "EKOutOfRange = Error ''binary_price: |k| out of safe input domain (EKOutOfRange)''"

definition EInputZero :: js_error where
  "EInputZero = Error ''lnSigned: input must be > 0 (EInputZero)''"

definition totalVariance :: "SVIParams \<Rightarrow> int \<Rightarrow> int res" where
  "totalVariance svi k =
     (let kMinusM = k - svi_m svi;
          kMinusMSq = (kMinusM * kMinusM) sdiv F in
      bindE (mulDivRoundDown (svi_sigma svi) (svi_sigma svi) F) (\<lambda>sigmaSq.
      let sq = isqrtU128 ((kMinusMSq + sigmaSq) * F);
          rhoKm = (svi_rho svi * kMinusM) sdiv F;
          inner = rhoKm + sq in
      if inner < 0 then Inl ECannotBeNegative
      else let w = svi_a svi + (svi_b svi * inner) sdiv F in
           if w = 0 then Inl EZeroVariance else Inr w))"

text \<open>The \<open>RangeError\<close> branch is the language's division of a \<open>BigInt\<close> by zero.\<close>

definition binaryPrice :: "SVIParams \<Rightarrow> int \<Rightarrow> int \<Rightarrow> int res" where
  "binaryPrice svi forward strike =
     (if forward \<le> 0 then Inl (Error ''binary_price: forward must be > 0 (EZeroForward)'')
      else if strike \<le> 0 then Inl (Error ''binary_price: strike must be > 0 (EZeroStrike)'')
      else bindE (validateParams svi) (\<lambda>_.
           bindE (mulDivRoundDown strike F forward) (\<lambda>strikeOverForward.
           bindE (lnSigned strikeOverForward) (\<lambda>k.
           let kMag = (if k < 0 then - k else k) in
           if kMag > SVI_K_MAX_LOG_STRIKE STRATEGY_CONSTANTS then Inl EKOutOfRange
           else bindE (totalVariance svi k) (\<lambda>w.
           let sqrtVar = isqrtU128 (w * F);
               halfVar = w sdiv 2;
               d2Numerator = k + halfVar in
           if sqrtVar = 0 then Inl RangeError
           else let d2 = - ((d2Numerator * F) sdiv sqrtVar) in Inr (normalCdf d2))))))"

record svi_evaluation =
  ev_w :: int
  ev_binaryPrice :: int

definition evaluateSVI :: "SVIParams \<Rightarrow> int \<Rightarrow> int \<Rightarrow> svi_evaluation res" where
  "evaluateSVI svi forward strike =
     (if forward \<le> 0 then Inl (Error ''evaluateSVI: forward must be > 0 (EZeroForward)'')
      else if strike \<le> 0 then Inl (Error ''evaluateSVI: strike must be > 0 (EZeroStrike)'')
      else bindE (mulDivRoundDown strike F forward) (\<lambda>strikeOverForward.
           bindE (lnSigned strikeOverForward) (\<lambda>k.
           bindE (totalVariance svi k) (\<lambda>w.
           bindE (binaryPrice svi forward strike) (\<lambda>bp.
           Inr \<lparr>ev_w = w, ev_binaryPrice = bp\<rparr>)))))"

section \<open>The square root of the variance formula\<close>

text \<open>The domain on which the routines are used: the parameters are of the kinds the comment on
  \<open>SVIParams\<close> states and pass the validation.\<close>

definition svi_ok :: "SVIParams \<Rightarrow> bool" where
  "svi_ok svi \<longleftrightarrow> 0 \<le> svi_a svi \<and> 0 \<le> svi_b svi \<and> validateParams svi = Inr ()"

lemma validateParams_ok:
  "validateParams svi = Inr () \<longleftrightarrow>
     svi_a svi \<le> 4000000000 \<and> svi_b svi \<le> 8000000000 \<and>
     1 \<le> svi_sigma svi \<and> svi_sigma svi \<le> 4000000000 \<and>
     \<bar>svi_rho svi\<bar> < F \<and> \<bar>svi_m svi\<bar> \<le> 2500000000"
  by (auto simp: validateParams_def STRATEGY_CONSTANTS_def Let_def abs_if)

text \<open>The value that \<open>totalVariance\<close> takes the square root of.\<close>

definition svi_radicand :: "SVIParams \<Rightarrow> int \<Rightarrow> int" where
  "svi_radicand svi k =
     ((k - svi_m svi) * (k - svi_m svi) div F + svi_sigma svi * svi_sigma svi div F) * F"

definition svi_inner :: "SVIParams \<Rightarrow> int \<Rightarrow> int" where
  "svi_inner svi k = (svi_rho svi * (k - svi_m svi)) sdiv F + isqrtU128 (svi_radicand svi k)"

lemma totalVariance_eq:
  assumes "0 \<le> svi_sigma svi"
  shows "totalVariance svi k =
    (if svi_inner svi k < 0 then Inl ECannotBeNegative
     else let w = svi_a svi + (svi_b svi * svi_inner svi k) sdiv F
          in if w = 0 then Inl EZeroVariance else Inr w)"
proof -
  have "((k - svi_m svi) * (k - svi_m svi)) sdiv F = (k - svi_m svi) * (k - svi_m svi) div F"
    by (simp add: sdiv_nonneg)
  then show ?thesis
    using assms by (simp add: totalVariance_def mulDivRoundDown_nonneg svi_inner_def svi_radicand_def Let_def)
qed

lemma svi_radicand_nonneg: "0 \<le> svi_radicand svi k"
  by (simp add: svi_radicand_def pos_imp_zdiv_nonneg_iff)

text \<open>The two floor divisions lose less than two units of the scale.\<close>

lemma svi_radicand_bounds:
  defines "T \<equiv> \<lambda>svi k. (k - svi_m svi) * (k - svi_m svi) + svi_sigma svi * svi_sigma svi"
  shows "svi_radicand svi k \<le> T svi k" "T svi k - 2 * F < svi_radicand svi k"
  unfolding T_def svi_radicand_def
  using div_lower [of F "(k - svi_m svi) * (k - svi_m svi)"]
    div_upper [of F "(k - svi_m svi) * (k - svi_m svi)"]
    div_lower [of F "svi_sigma svi * svi_sigma svi"] div_upper [of F "svi_sigma svi * svi_sigma svi"]
  by (simp_all add: algebra_simps)

lemma svi_root_ok:
  assumes "\<bar>k - svi_m svi\<bar> < 2 ^ 63" "\<bar>svi_sigma svi\<bar> < 2 ^ 63"
  shows "is_isqrt (svi_radicand svi k) (isqrtU128 (svi_radicand svi k))"
proof (rule isqrtU128_is_isqrt)
  have sq: "x * x \<le> 2 ^ 63 * 2 ^ 63" if "\<bar>x\<bar> < 2 ^ 63" for x :: int
    using sq_le [of "\<bar>x\<bar>" "2 ^ 63"] that by (simp add: abs_mult [symmetric])
  show "svi_radicand svi k < 2 ^ 128"
    using svi_radicand_bounds(1) [where svi = svi and k = k] sq [OF assms(1)] sq [OF assms(2)] by simp
qed (rule svi_radicand_nonneg)

section \<open>Accuracy of the total variance\<close>

text \<open>The real total variance of the SVI formula, in units of the fixed-point scale.\<close>

definition svi_w_real :: "SVIParams \<Rightarrow> int \<Rightarrow> real" where
  "svi_w_real svi k =
     (let t = real_of_int (k - svi_m svi); s = real_of_int (svi_sigma svi); f = real_of_int F
      in real_of_int (svi_a svi)
         + real_of_int (svi_b svi) * (real_of_int (svi_rho svi) * t / f + sqrt (t * t + s * s)) / f)"

lemma sqrt_drop:
  fixes x y :: real
  assumes "0 \<le> y" "y \<le> x" "0 < s" "s \<le> sqrt x"
  shows "sqrt x - (x - y) / s \<le> sqrt y"
proof -
  have "(sqrt x - sqrt y) * s \<le> (sqrt x - sqrt y) * (sqrt x + sqrt y)"
    using assms by (intro mult_left_mono) (auto simp: add_increasing2)
  also have "\<dots> = x - y" using assms by (simp add: algebra_simps)
  finally show ?thesis using assms(3) by (simp add: field_simps)
qed

lemma is_isqrt_real:
  assumes "is_isqrt x r"
  shows "real_of_int r \<le> sqrt (real_of_int x)" "sqrt (real_of_int x) < real_of_int r + 1"
proof -
  have r: "0 \<le> r" "r * r \<le> x" "x < (r + 1) * (r + 1)" using assms by (simp_all add: is_isqrt_def)
  have "real_of_int r * real_of_int r \<le> real_of_int x"
    using r(2) by (metis of_int_le_iff of_int_mult)
  then show "real_of_int r \<le> sqrt (real_of_int x)"
    by (intro real_le_rsqrt) (simp add: power2_eq_square)
  have "real_of_int x < real_of_int ((r + 1) * (r + 1))" using r(3) by (simp only: of_int_less_iff)
  then have "real_of_int x < (real_of_int r + 1) * (real_of_int r + 1)"
    by (simp only: of_int_mult of_int_add of_int_1)
  then show "sqrt (real_of_int x) < real_of_int r + 1"
    using r(1) real_less_lsqrt [of "real_of_int r + 1" "real_of_int x"]
    unfolding power2_eq_square by simp
qed

lemma svi_root_accuracy:
  assumes "\<bar>k - svi_m svi\<bar> < 2 ^ 63" "0 < svi_sigma svi" "svi_sigma svi < 2 ^ 63"
  defines "t \<equiv> real_of_int (k - svi_m svi)" and "s \<equiv> real_of_int (svi_sigma svi)"
  shows "real_of_int (isqrtU128 (svi_radicand svi k)) \<le> sqrt (t * t + s * s)"
    and "sqrt (t * t + s * s) - 2 * real_of_int F / s - 1 \<le> real_of_int (isqrtU128 (svi_radicand svi k))"
proof -
  define R where "R = svi_radicand svi k"
  define T where "T = (k - svi_m svi) * (k - svi_m svi) + svi_sigma svi * svi_sigma svi"
  have T: "real_of_int T = t * t + s * s" by (simp add: T_def t_def s_def)
  have b: "0 \<le> R" "R \<le> T" "T - 2 * F < R"
    using svi_radicand_nonneg [of svi k] svi_radicand_bounds [where svi = svi and k = k] by (simp_all add: R_def T_def)
  have root: "is_isqrt R (isqrtU128 R)"
    unfolding R_def using assms(1-3) by (intro svi_root_ok) auto
  note r = is_isqrt_real [OF root]
  have "sqrt (real_of_int R) \<le> sqrt (real_of_int T)" using b by simp
  with r(1) show "real_of_int (isqrtU128 (svi_radicand svi k)) \<le> sqrt (t * t + s * s)"
    unfolding T [symmetric] R_def by linarith
  have s0: "0 < s" using assms(2) by (simp add: s_def)
  have sT: "s \<le> sqrt (real_of_int T)"
    using s0 unfolding T by (intro real_le_rsqrt) (simp add: power2_eq_square)
  have "(real_of_int T - real_of_int R) / s \<le> 2 * real_of_int F / s"
    using b(3) s0 by (intro divide_right_mono) linarith+
  moreover have "sqrt (real_of_int T) - (real_of_int T - real_of_int R) / s \<le> sqrt (real_of_int R)"
    using b s0 sT by (intro sqrt_drop) auto
  ultimately show "sqrt (t * t + s * s) - 2 * real_of_int F / s - 1 \<le> real_of_int (isqrtU128 (svi_radicand svi k))"
    using r(2) unfolding T [symmetric] R_def [symmetric] by linarith
qed

lemma totalVariance_value:
  assumes "totalVariance svi k = Inr w" "0 \<le> svi_sigma svi"
  shows "0 \<le> svi_inner svi k" "w = svi_a svi + (svi_b svi * svi_inner svi k) sdiv F" "w \<noteq> 0"
  using assms(1) unfolding totalVariance_eq [OF assms(2)] by (auto simp: Let_def split: if_splits)

text \<open>C6. Accuracy of the total variance: whenever \<open>totalVariance\<close> returns, its value differs from
  the real formula \<open>a + b (rho (k - m) + sqrt((k - m)^2 + sigma^2))\<close> by at most one unit plus
  \<open>b (2 + 2 F / sigma)\<close> units of rounding carried through the wing slope. The bound grows only as
  the curvature \<open>sigma\<close> becomes tiny.\<close>

theorem totalVariance_accuracy:
  assumes "0 \<le> svi_b svi" "0 < svi_sigma svi" "svi_sigma svi < 2 ^ 63" "\<bar>k - svi_m svi\<bar> < 2 ^ 63"
    and "totalVariance svi k = Inr w"
  shows "\<bar>real_of_int w - svi_w_real svi k\<bar>
    \<le> 1 + real_of_int (svi_b svi) * (2 + 2 * real_of_int FLOAT_SCALING / real_of_int (svi_sigma svi))
           / real_of_int FLOAT_SCALING"
proof -
  define t where "t = real_of_int (k - svi_m svi)"
  define s where "s = real_of_int (svi_sigma svi)"
  define f where "f = real_of_int F"
  define b where "b = real_of_int (svi_b svi)"
  define i where "i = real_of_int (svi_inner svi k)"
  define j where "j = real_of_int (svi_rho svi) * t / f + sqrt (t * t + s * s)"
  note v = totalVariance_value [OF assms(5) less_imp_le [OF assms(2)]]
  have f: "0 < f" and b0: "0 \<le> b" using assms(1) by (simp_all add: f_def b_def)
  have "\<bar>real_of_int ((svi_rho svi * (k - svi_m svi)) sdiv F) - real_of_int (svi_rho svi) * t / f\<bar> < 1"
    using real_sdiv_bounds [of F "svi_rho svi * (k - svi_m svi)"] by (simp add: t_def f_def)
  then have "\<bar>i - j\<bar> \<le> 2 + 2 * f / s"
    using svi_root_accuracy [OF assms(4,2,3)] assms(2)
    unfolding i_def j_def svi_inner_def t_def [symmetric] s_def [symmetric] f_def [symmetric]
    by (auto simp: abs_le_iff abs_less_iff)
  then have "\<bar>b * i / f - b * j / f\<bar> \<le> b * (2 + 2 * f / s) / f"
    using f b0 by (simp add: diff_divide_distrib [symmetric] right_diff_distrib [symmetric] abs_mult
        divide_right_mono mult_left_mono)
  moreover have "\<bar>real_of_int ((svi_b svi * svi_inner svi k) sdiv F) - b * i / f\<bar> < 1"
    using real_sdiv_bounds [of F "svi_b svi * svi_inner svi k"] by (simp add: b_def i_def f_def)
  moreover have "real_of_int w - svi_w_real svi k =
      real_of_int ((svi_b svi * svi_inner svi k) sdiv F) - b * j / f"
    by (simp add: v(2) svi_w_real_def Let_def b_def j_def t_def s_def f_def)
  ultimately show ?thesis
    unfolding f_def [symmetric] s_def [symmetric] b_def [symmetric] by linarith
qed

theorem totalVariance_accuracy_witness:
  "totalVariance \<lparr>svi_a = 40000000, svi_b = 200000000, svi_rho = 0, svi_m = 0, svi_sigma = 500000000\<rparr> 0
     = Inr 140000000
   \<and> \<bar>real_of_int 140000000
       - svi_w_real \<lparr>svi_a = 40000000, svi_b = 200000000, svi_rho = 0, svi_m = 0, svi_sigma = 500000000\<rparr> 0\<bar>
     \<le> 1 + 200000000 * 6 / 1000000000"
proof -
  let ?p = "\<lparr>svi_a = 40000000, svi_b = 200000000, svi_rho = 0, svi_m = 0, svi_sigma = 500000000\<rparr>"
  have root: "is_isqrt 250000000000000000 (isqrtU128 250000000000000000)"
    by (rule isqrtU128_is_isqrt) simp_all
  have "is_isqrt 250000000000000000 500000000" by (simp add: is_isqrt_def)
  with root have "isqrtU128 250000000000000000 = 500000000" by (rule is_isqrt_unique)
  then have tv: "totalVariance ?p 0 = Inr 140000000"
    by (simp add: totalVariance_eq svi_inner_def svi_radicand_def FLOAT_SCALING_def sdiv_nonneg)
  with totalVariance_accuracy [of ?p 0 140000000] show ?thesis by (simp add: FLOAT_SCALING_def)
qed

section \<open>Which errors are reachable\<close>

text \<open>With enough curvature the root dominates the skew term, so the variance is defined.\<close>

lemma svi_inner_nonneg:
  assumes "\<bar>svi_rho svi\<bar> < F" "\<bar>k - svi_m svi\<bar> < 2 ^ 63" "svi_sigma svi < 2 ^ 63"
    and "44722 \<le> svi_sigma svi"
  shows "0 \<le> svi_inner svi k"
proof -
  define t where "t = k - svi_m svi"
  define r where "r = isqrtU128 (svi_radicand svi k)"
  have root: "is_isqrt (svi_radicand svi k) r"
    unfolding r_def using assms by (intro svi_root_ok) auto
  have "44722 * 44722 \<le> svi_sigma svi * svi_sigma svi" using assms(4) by (intro sq_le) auto
  then have "t * t < svi_radicand svi k"
    using svi_radicand_bounds(2) [where svi = svi and k = k] by (simp add: t_def FLOAT_SCALING_def)
  also have "\<dots> < (r + 1) * (r + 1)" using root by (simp add: is_isqrt_def)
  finally have "\<bar>t\<bar> < r + 1"
    using root by (intro sq_less_imp_less [of "\<bar>t\<bar>"]) (simp_all add: is_isqrt_def)
  moreover have "\<bar>svi_rho svi * t\<bar> \<le> F * \<bar>t\<bar>"
    using assms(1) by (simp add: abs_mult mult_right_mono)
  then have "\<bar>(svi_rho svi * t) sdiv F\<bar> \<le> \<bar>t\<bar>" by (simp add: abs_sdiv div_leI)
  ultimately show ?thesis unfolding svi_inner_def t_def [symmetric] r_def [symmetric] by linarith
qed

text \<open>With the curvature at least \<open>44722\<close> units (\<open>sigma^2 >= 2 F\<close>) and \<open>|rho| < 1\<close> the total
  variance never fails on its sign check: it returns unless it is exactly zero, its value is then
  strictly positive, and at least the level \<open>a\<close>.\<close>

theorem totalVariance_defined:
  assumes "0 \<le> svi_a svi" "0 \<le> svi_b svi" "\<bar>svi_rho svi\<bar> < FLOAT_SCALING"
    and "44722 \<le> svi_sigma svi" "svi_sigma svi < 2 ^ 63" "\<bar>k - svi_m svi\<bar> < 2 ^ 63"
  shows "totalVariance svi k = Inl EZeroVariance
    \<or> (\<exists>w. totalVariance svi k = Inr w \<and> 0 < w \<and> svi_a svi \<le> w)"
proof -
  have i: "0 \<le> svi_inner svi k" using assms by (intro svi_inner_nonneg)
  then have "0 \<le> (svi_b svi * svi_inner svi k) sdiv F" using assms(2) by (simp add: sdiv_nonneg_result)
  then show ?thesis
    using assms(1,4) i by (auto simp: totalVariance_eq Let_def)
qed

theorem totalVariance_defined_witness:
  "\<exists>w. totalVariance \<lparr>svi_a = 1, svi_b = 200000000, svi_rho = - 999999999, svi_m = 0, svi_sigma = 44722\<rparr> 7000000
     = Inr w \<and> 0 < w \<and> 1 \<le> w"
proof -
  let ?p = "\<lparr>svi_a = 1, svi_b = 200000000, svi_rho = - 999999999, svi_m = 0, svi_sigma = 44722\<rparr>"
  have "totalVariance ?p 7000000 \<noteq> Inl EZeroVariance"
    using svi_inner_nonneg [of ?p 7000000] sdiv_nonneg_result [of "200000000 * svi_inner ?p 7000000" F]
    by (simp add: totalVariance_eq FLOAT_SCALING_def Let_def)
  with totalVariance_defined [of ?p 7000000] show ?thesis by (simp add: FLOAT_SCALING_def)
qed

text \<open>The sign check is not merely defensive: parameters that pass the validation, with equal
  forward and strike, make \<open>binaryPrice\<close> throw \<open>ECannotBeNegative\<close>, because for a tiny \<open>sigma\<close> both
  squares truncate to zero while the skew term does not.\<close>

theorem ECannotBeNegative_reachable:
  "\<exists>svi forward strike. svi_ok svi \<and> 0 < forward \<and> 0 < strike
     \<and> binaryPrice svi forward strike = Inl ECannotBeNegative"
proof -
  let ?p = "\<lparr>svi_a = 1, svi_b = 1, svi_rho = - 900000000, svi_m = - 30000, svi_sigma = 1\<rparr>"
  have v: "validateParams ?p = Inr ()" by (simp add: validateParams_ok FLOAT_SCALING_def)
  have "svi_inner ?p 0 = - 27000"
    using sdiv_minus_left [of "900000000 * 30000" F]
    by (simp add: svi_inner_def svi_radicand_def isqrtU128_def FLOAT_SCALING_def sdiv_nonneg)
  then have "totalVariance ?p 0 = Inl ECannotBeNegative" by (simp add: totalVariance_eq)
  moreover have "mulDivRoundDown F F F = Inr F" by (simp add: mulDivRoundDown_nonneg)
  ultimately have "binaryPrice ?p F F = Inl ECannotBeNegative"
    using v by (simp add: binaryPrice_def STRATEGY_CONSTANTS_def)
  with v show ?thesis by (intro exI [of _ ?p] exI [of _ F]) (simp add: svi_ok_def)
qed

section \<open>The binary price\<close>

lemma sqrtVar_pos:
  assumes "0 < w" "w < 2 ^ 64"
  shows "0 < isqrtU128 (w * F)"
proof -
  have "w * F < 2 ^ 128" using assms by (simp add: FLOAT_SCALING_def)
  then have root: "is_isqrt (w * F) (isqrtU128 (w * F))"
    using assms by (intro isqrtU128_is_isqrt) auto
  have "isqrtU128 (w * F) \<noteq> 0"
  proof
    assume "isqrtU128 (w * F) = 0"
    with root have "w * F < 1" by (simp add: is_isqrt_def)
    with assms show False by (simp add: FLOAT_SCALING_def)
  qed
  with root show ?thesis by (simp add: is_isqrt_def)
qed

lemma svi_root_le:
  assumes "\<bar>k - svi_m svi\<bar> \<le> 5000000000" "0 < svi_sigma svi" "svi_sigma svi \<le> 4000000000"
  shows "isqrtU128 (svi_radicand svi k) < 9000000000"
proof -
  have root: "is_isqrt (svi_radicand svi k) (isqrtU128 (svi_radicand svi k))"
    using assms by (intro svi_root_ok) auto
  have "svi_sigma svi * svi_sigma svi \<le> 4000000000 * 4000000000" using assms by (intro sq_le) auto
  moreover have "\<bar>k - svi_m svi\<bar> * \<bar>k - svi_m svi\<bar> \<le> 5000000000 * 5000000000"
    using assms by (intro sq_le) auto
  ultimately have "svi_radicand svi k < 9000000000 * 9000000000"
    using svi_radicand_bounds(1) [where svi = svi and k = k] by (simp add: abs_mult [symmetric])
  with root show ?thesis
    by (intro sq_less_imp_less [of _ 9000000000]) (simp_all add: is_isqrt_def)
qed

lemma totalVariance_range:
  assumes "svi_ok svi" "\<bar>k\<bar> \<le> 2500000000" "totalVariance svi k = Inr w"
  shows "0 < w" "w < 2 ^ 64"
proof -
  note v = assms(1) [unfolded svi_ok_def validateParams_ok]
  have s: "0 \<le> svi_sigma svi" using v by simp
  note tv = totalVariance_value [OF assms(3) s]
  have t: "\<bar>k - svi_m svi\<bar> \<le> 5000000000" using v assms(2) by (elim conjE) linarith
  have "\<bar>svi_rho svi * (k - svi_m svi)\<bar> \<le> F * 5000000000"
    using v t unfolding abs_mult by (intro mult_mono) auto
  then have "\<bar>(svi_rho svi * (k - svi_m svi)) sdiv F\<bar> \<le> 5000000000" by (simp add: abs_sdiv div_leI)
  moreover have "isqrtU128 (svi_radicand svi k) < 9000000000" using v t by (intro svi_root_le) auto
  ultimately have i: "svi_inner svi k \<le> 14000000000" by (simp add: svi_inner_def)
  have "0 \<le> svi_b svi * svi_inner svi k \<and> svi_b svi * svi_inner svi k \<le> 8000000000 * 14000000000"
    using v tv(1) i by (intro mult_bounds) auto
  then have "0 \<le> (svi_b svi * svi_inner svi k) sdiv F \<and> (svi_b svi * svi_inner svi k) sdiv F \<le> 112000000000"
    using sdiv_F_bounds [of "svi_b svi * svi_inner svi k" "8000000000 * 14000000000"]
    by (simp add: FLOAT_SCALING_def)
  then show "0 < w" "w < 2 ^ 64" using tv(2,3) v by auto
qed

lemma normalCdf_nonpos: "x \<le> 0 \<Longrightarrow> normalCdf x \<le> F div 2"
  using normalCdf_nonneg [of "- x"] normalCdf_minus [of x] by (simp add: FLOAT_SCALING_def)

text \<open>The part of \<open>binaryPrice\<close> after its guards.\<close>

lemma binaryPrice_guarded:
  assumes "svi_ok svi" "0 < forward" "0 < strike"
  shows "binaryPrice svi forward strike =
    bindE (lnSigned (strike * F div forward)) (\<lambda>k.
      if \<bar>k\<bar> > 2500000000 then Inl EKOutOfRange
      else bindE (totalVariance svi k) (\<lambda>w.
        Inr (normalCdf (- (((k + w div 2) * F) sdiv isqrtU128 (w * F))))))"
proof -
  have kw: "(let kMag = (if k < 0 then - k else k) in
       if kMag > SVI_K_MAX_LOG_STRIKE STRATEGY_CONSTANTS then Inl EKOutOfRange
       else bindE (totalVariance svi k) (\<lambda>w.
         let sqrtVar = isqrtU128 (w * F); halfVar = w sdiv 2; d2Numerator = k + halfVar in
         if sqrtVar = 0 then Inl RangeError
         else let d2 = - ((d2Numerator * F) sdiv sqrtVar) in Inr (normalCdf d2))) =
      (if \<bar>k\<bar> > 2500000000 then Inl EKOutOfRange
       else bindE (totalVariance svi k) (\<lambda>w.
        Inr (normalCdf (- (((k + w div 2) * F) sdiv isqrtU128 (w * F))))))" for k
  proof (cases "\<bar>k\<bar> > 2500000000")
    case True
    then show ?thesis by (simp add: STRATEGY_CONSTANTS_def Let_def abs_if)
  next
    case False
    then have "\<bar>k\<bar> \<le> 2500000000" by simp
    note w = totalVariance_range [OF assms(1) this]
    show ?thesis
    proof (cases "totalVariance svi k")
      case (Inr w)
      note r = totalVariance_range [OF assms(1) \<open>\<bar>k\<bar> \<le> 2500000000\<close> Inr]
      from sqrtVar_pos [OF r] r False Inr show ?thesis
        by (simp add: STRATEGY_CONSTANTS_def Let_def abs_if sdiv_nonneg)
    qed (use False in \<open>simp add: STRATEGY_CONSTANTS_def Let_def abs_if\<close>)
  qed
  have "validateParams svi = Inr ()" using assms(1) by (simp add: svi_ok_def)
  then show ?thesis
    unfolding binaryPrice_def using assms by (simp add: mulDivRoundDown_nonneg kw)
qed

text \<open>C7. Outcomes of \<open>binaryPrice\<close> on validated parameters: a returned price lies between zero and
  one, a call that is not in the money is worth at most one half, and the only errors are the named
  ones. In particular the final division never divides by zero.\<close>

theorem binaryPrice_outcomes:
  assumes "svi_ok svi" "0 < forward" "0 < strike"
  shows "binaryPrice svi forward strike \<in> Inl ` {EInputZero, EKOutOfRange, ECannotBeNegative, EZeroVariance}
    \<or> (\<exists>p. binaryPrice svi forward strike = Inr p \<and> 0 \<le> p \<and> p \<le> FLOAT_SCALING
           \<and> (forward \<le> strike \<longrightarrow> p \<le> FLOAT_SCALING div 2))"
proof -
  have s: "0 \<le> svi_sigma svi" using assms(1) by (simp add: svi_ok_def validateParams_ok)
  show ?thesis
  proof (cases "lnSigned (strike * F div forward)")
    case (Inl e)
    then have "\<not> 0 < strike * F div forward"
      using lnSigned_returns [of "strike * F div forward"] by auto
    with Inl have "e = EInputZero"
      by (subst (asm) (1) lnSigned.simps) (simp add: EInputZero_def)
    with Inl show ?thesis by (simp add: binaryPrice_guarded [OF assms])
  next
    case (Inr k)
    show ?thesis
    proof (cases "totalVariance svi k")
      case (Inl e)
      then have "e \<in> {ECannotBeNegative, EZeroVariance}"
        unfolding totalVariance_eq [OF s] by (auto simp: Let_def split: if_splits)
      with Inl Inr show ?thesis by (auto simp: binaryPrice_guarded [OF assms])
    next
      case w: (Inr w)
      have half: "normalCdf (- (((k + w div 2) * F) sdiv isqrtU128 (w * F))) \<le> F div 2"
        if "forward \<le> strike" "\<bar>k\<bar> \<le> 2500000000"
      proof -
        note r = totalVariance_range [OF assms(1) that(2) w]
        have "F \<le> strike * F div forward"
          using that(1) assms(2) by (intro le_divI) (simp_all add: mult_right_mono)
        from lnSigned_sign(2) [OF Inr this] r have "0 \<le> (k + w div 2) * F" by simp
        with sqrtVar_pos [OF r] show ?thesis by (intro normalCdf_nonpos) (simp add: sdiv_nonneg_result)
      qed
      show ?thesis
        using Inr w half normalCdf_range by (auto simp: binaryPrice_guarded [OF assms])
    qed
  qed
qed

lemma lnSigned_octave:
  assumes "125000000 \<le> x" "x \<le> 8000000000"
  shows "\<exists>v. lnSigned x = Inr v \<and> \<bar>v\<bar> \<le> 2500000000"
proof -
  obtain v where v: "lnSigned x = Inr v"
    "\<bar>real_of_int v - 1000000000 * ln (real_of_int x / 1000000000)\<bar> \<le> 64"
    using lnSigned_close [of x] assms by (auto simp: FLOAT_SCALING_def)
  have l8: "ln 8 = 3 * ln (2::real)" using ln_realpow [of 2 3] by simp
  have "ln (real_of_int x / 1000000000) \<le> ln 8" using assms by simp
  moreover have "ln (1 / 8) \<le> ln (real_of_int x / 1000000000)" using assms by simp
  ultimately have "\<bar>1000000000 * ln (real_of_int x / 1000000000)\<bar> \<le> 3 * (1000000000 * ln 2)"
    by (simp add: l8 ln_div abs_le_iff)
  with v(2) ln2_bounds(2) have "\<bar>real_of_int v\<bar> \<le> real_of_int 2500000000" by linarith
  then have "\<bar>v\<bar> \<le> 2500000000" by linarith
  with v(1) show ?thesis by auto
qed

lemma binaryPrice_returns:
  assumes "svi_ok svi" "0 < svi_a svi" "44722 \<le> svi_sigma svi"
    and "0 < forward" "0 < strike" "forward \<le> 8 * strike" "strike \<le> 8 * forward"
  shows "\<exists>p w. binaryPrice svi forward strike = Inr p \<and> 0 \<le> p \<and> p \<le> FLOAT_SCALING \<and> 0 < w
    \<and> evaluateSVI svi forward strike = Inr \<lparr>ev_w = w, ev_binaryPrice = p\<rparr>"
proof -
  note v = assms(1) [unfolded svi_ok_def validateParams_ok]
  let ?x = "strike * F div forward"
  have "125000000 \<le> ?x" using assms(4,6) by (intro le_divI) (simp_all add: FLOAT_SCALING_def)
  moreover have "?x \<le> 8000000000" using assms(4,7) by (intro div_leI) (simp_all add: FLOAT_SCALING_def)
  ultimately obtain k where k: "lnSigned ?x = Inr k" "\<bar>k\<bar> \<le> 2500000000"
    using lnSigned_octave by blast
  have i: "0 \<le> svi_inner svi k" using v k(2) assms(3) by (intro svi_inner_nonneg) (elim conjE; simp)+
  then have pos: "0 < svi_a svi + (svi_b svi * svi_inner svi k) sdiv F"
    using assms(2) v by (simp add: sdiv_nonneg_result add_pos_nonneg)
  then obtain w where w: "totalVariance svi k = Inr w" "0 < w"
    using i v by (auto simp: totalVariance_eq Let_def)
  let ?p = "normalCdf (- (((k + w div 2) * F) sdiv isqrtU128 (w * F)))"
  have bp: "binaryPrice svi forward strike = Inr ?p"
    using k w by (simp add: binaryPrice_guarded [OF assms(1,4,5)])
  then have "evaluateSVI svi forward strike = Inr \<lparr>ev_w = w, ev_binaryPrice = ?p\<rparr>"
    using assms(4,5) k w by (simp add: evaluateSVI_def mulDivRoundDown_nonneg)
  with bp w(2) normalCdf_range show ?thesis by blast
qed

text \<open>C9. Totality of the price: with a positive variance level, curvature at least \<open>44722\<close> units
  and the strike within a factor of eight of the forward, \<open>binaryPrice\<close> returns a price, and
  \<open>evaluateSVI\<close> returns the same price together with a positive variance.\<close>

theorem binaryPrice_total:
  assumes "svi_ok svi" "0 < svi_a svi" "44722 \<le> svi_sigma svi"
    and "0 < forward" "0 < strike" "forward \<le> 8 * strike" "strike \<le> 8 * forward"
  shows "\<exists>p w. binaryPrice svi forward strike = Inr p \<and> 0 \<le> p \<and> p \<le> FLOAT_SCALING \<and> 0 < w
    \<and> evaluateSVI svi forward strike = Inr \<lparr>ev_w = w, ev_binaryPrice = p\<rparr>"
  using binaryPrice_returns [OF assms] .

definition golden_A01 :: SVIParams where
  "golden_A01 = \<lparr>svi_a = 40000000, svi_b = 200000000, svi_rho = 0, svi_m = 0, svi_sigma = 500000000\<rparr>"

lemma golden_A01_ok: "svi_ok golden_A01"
  by (simp add: golden_A01_def svi_ok_def validateParams_ok FLOAT_SCALING_def)

theorem binaryPrice_outcomes_witness:
  "binaryPrice golden_A01 50000000000 51000000000
     \<in> Inl ` {EInputZero, EKOutOfRange, ECannotBeNegative, EZeroVariance}
    \<or> (\<exists>p. binaryPrice golden_A01 50000000000 51000000000 = Inr p \<and> 0 \<le> p \<and> p \<le> FLOAT_SCALING div 2)"
  using binaryPrice_outcomes [OF golden_A01_ok, of 50000000000 51000000000] by auto

theorem binaryPrice_total_witness:
  "\<exists>p w. binaryPrice golden_A01 50000000000 51000000000 = Inr p \<and> 0 \<le> p \<and> p \<le> FLOAT_SCALING \<and> 0 < w
    \<and> evaluateSVI golden_A01 50000000000 51000000000 = Inr \<lparr>ev_w = w, ev_binaryPrice = p\<rparr>"
  using binaryPrice_total [OF golden_A01_ok, of 50000000000 51000000000] by (simp add: golden_A01_def)

end
