(* ===== verification/JsData.thy ===== *)
theory JsData
  imports Prelude "HOL-Library.Log_Nat"
begin

text \<open>
  The parts of the language's standard library that the relay, the dashboard and the oracle feed
  use on wire values: \<open>BigInt(string)\<close> and \<open>toString\<close>, \<open>BigInt(number)\<close>, the rounding of \<open>Number\<close>, \<open>Map\<close>
  and \<open>Set\<close> with insertion order, \<open>split\<close>, \<open>startsWith\<close> and \<open>slice\<close>. An interface \<open>js_map\<close> states the laws
  of \<open>Map\<close> that the clients rely on.
\<close>

section \<open>Decimal strings\<close>

definition digit_char :: "nat \<Rightarrow> char" where
  "digit_char d = (if d < 10 then char_of (48 + d) else char_of (87 + d))"

definition char_digit :: "char \<Rightarrow> nat option" where
  "char_digit c =
     (let n = of_char c :: nat in
      if 48 \<le> n \<and> n \<le> 57 then Some (n - 48)
      else if 97 \<le> n \<and> n \<le> 122 then Some (n - 87)
      else if 65 \<le> n \<and> n \<le> 90 then Some (n - 55)
      else None)"

fun nat_toString :: "nat \<Rightarrow> string" where
  "nat_toString n =
     (if n < 10 then [digit_char n] else nat_toString (n div 10) @ [digit_char (n mod 10)])"

declare nat_toString.simps [simp del]

definition int_toString :: "int \<Rightarrow> string" where
  "int_toString i = (if i < 0 then CHR ''-'' # nat_toString (nat (- i)) else nat_toString (nat i))"

text \<open>Digits of a literal in base \<open>b\<close>: \<open>None\<close> when a character is not a digit of that base.\<close>

fun parse_digits :: "nat \<Rightarrow> nat \<Rightarrow> string \<Rightarrow> nat option" where
  "parse_digits b acc [] = Some acc"
| "parse_digits b acc (c # cs) =
     (case char_digit c of
        None \<Rightarrow> None
      | Some d \<Rightarrow> (if d < b then parse_digits b (acc * b + d) cs else None))"

definition is_space :: "char \<Rightarrow> bool" where
  "is_space c \<longleftrightarrow> (of_char c :: nat) \<in> {9, 10, 11, 12, 13, 32, 160}"

definition trim :: "string \<Rightarrow> string" where
  "trim s = rev (dropWhile is_space (rev (dropWhile is_space s)))"

text \<open>\<open>StringToBigInt\<close>: white space is trimmed, the empty string is zero, a sign is allowed only on a
  decimal literal, the prefixes \<open>0x\<close>, \<open>0o\<close> and \<open>0b\<close> select the base, and anything else is a
  \<open>SyntaxError\<close>. Strings are Latin-1 here, as every wire value of the program is ASCII.\<close>

definition digits_value :: "nat \<Rightarrow> string \<Rightarrow> int res" where
  "digits_value b s =
     (if s = [] then Inl SyntaxError
      else case parse_digits b 0 s of None \<Rightarrow> Inl SyntaxError | Some n \<Rightarrow> Inr (int n))"

fun parse_literal :: "string \<Rightarrow> int res" where
  "parse_literal [] = Inr 0"
| "parse_literal (c # cs) =
     (if c = CHR ''-'' then bindE (digits_value 10 cs) (\<lambda>v. Inr (- v))
      else if c = CHR ''+'' then digits_value 10 cs
      else case (c, cs) of
        (d, x # rest) \<Rightarrow>
          (if d = CHR ''0'' \<and> x \<in> {CHR ''x'', CHR ''X''} then digits_value 16 rest
           else if d = CHR ''0'' \<and> x \<in> {CHR ''o'', CHR ''O''} then digits_value 8 rest
           else if d = CHR ''0'' \<and> x \<in> {CHR ''b'', CHR ''B''} then digits_value 2 rest
           else digits_value 10 (d # x # rest))
      | (d, []) \<Rightarrow> digits_value 10 [d])"

definition BigInt :: "string \<Rightarrow> int res" where
  "BigInt s = parse_literal (trim s)"

subsection \<open>Printing and parsing\<close>

lemma char_digit_digit_char: "d < 10 \<Longrightarrow> char_digit (digit_char d) = Some d"
  by (simp add: char_digit_def digit_char_def of_char_of Let_def)

lemma digit_char_not_space: "d < 10 \<Longrightarrow> \<not> is_space (digit_char d)"
  by (simp add: is_space_def digit_char_def of_char_of)

definition special_chars :: "char set" where
  "special_chars = {CHR ''-'', CHR ''+'', CHR ''x'', CHR ''X'', CHR ''o'', CHR ''O'', CHR ''b'', CHR ''B''}"

lemma digit_char_not_special: "d < 10 \<Longrightarrow> digit_char d \<notin> special_chars"
proof -
  assume "d < 10"
  then have "(of_char (digit_char d) :: nat) \<in> {48..57}" by (simp add: digit_char_def of_char_of)
  then show ?thesis by (auto simp: special_chars_def)
qed

lemma parse_digits_append:
  "parse_digits b acc (xs @ ys) = Option.bind (parse_digits b acc xs) (\<lambda>a. parse_digits b a ys)"
  by (induction xs arbitrary: acc) (auto split: option.splits)

lemma parse_nat_toString: "parse_digits 10 0 (nat_toString n) = Some n"
proof (induction n rule: nat_toString.induct)
  case (1 n)
  show ?case
  proof (cases "n < 10")
    case True
    then show ?thesis by (subst nat_toString.simps) (simp add: char_digit_digit_char)
  next
    case False
    with 1 have ih: "parse_digits 10 0 (nat_toString (n div 10)) = Some (n div 10)" by simp
    from False show ?thesis
      by (subst nat_toString.simps) (simp add: parse_digits_append ih char_digit_digit_char)
  qed
qed

text \<open>The shape of a printed number: a non-empty string of decimal digits.\<close>

lemma nat_toString_digits: "nat_toString n \<noteq> [] \<and> set (nat_toString n) \<subseteq> digit_char ` {..<10}"
proof (induction n rule: nat_toString.induct)
  case (1 n)
  then show ?case by (subst (1 2) nat_toString.simps) auto
qed

lemma nat_toString_chars: "c \<in> set (nat_toString n) \<Longrightarrow> \<exists>d<10. c = digit_char d"
  using nat_toString_digits [of n] by blast

lemma trim_id: "(\<And>c. c \<in> set s \<Longrightarrow> \<not> is_space c) \<Longrightarrow> trim s = s"
proof -
  assume a: "\<And>c. c \<in> set s \<Longrightarrow> \<not> is_space c"
  have d: "dropWhile is_space t = t" if "set t \<subseteq> set s" for t
    using that a by (cases t) auto
  show "trim s = s" by (simp add: trim_def d)
qed

lemma parse_literal_decimal:
  assumes "\<And>c. c \<in> set s \<Longrightarrow> \<exists>d<10. c = digit_char d" "s \<noteq> []"
  shows "parse_literal s = digits_value 10 s"
proof -
  obtain c cs where s: "s = c # cs" using assms(2) by (cases s) auto
  have plain: "x \<notin> special_chars" if "x \<in> set s" for x
    using assms(1) [OF that] digit_char_not_special by auto
  show ?thesis
  proof (cases cs)
    case Nil
    with plain [of c] show ?thesis by (simp add: s special_chars_def)
  next
    case (Cons x rest)
    with plain [of c] plain [of x] show ?thesis by (simp add: s special_chars_def)
  qed
qed

lemma digits_value_nat: "digits_value 10 (nat_toString n) = Inr (int n)"
  using nat_toString_digits [of n] by (simp add: digits_value_def parse_nat_toString)

lemma BigInt_toString: "BigInt (int_toString i) = Inr i"
proof -
  have "\<not> is_space c" if "c \<in> set (int_toString i)" for c
    using that nat_toString_chars digit_char_not_space
    by (fastforce simp: int_toString_def is_space_def split: if_splits)
  then have t: "trim (int_toString i) = int_toString i" by (rule trim_id)
  show ?thesis
  proof (cases "i < 0")
    case True
    then show ?thesis unfolding BigInt_def t by (simp add: int_toString_def digits_value_nat)
  next
    case False
    have "parse_literal (nat_toString (nat i)) = digits_value 10 (nat_toString (nat i))"
      using nat_toString_chars nat_toString_digits by (intro parse_literal_decimal) auto
    with False show ?thesis unfolding BigInt_def t by (simp add: int_toString_def digits_value_nat)
  qed
qed

lemma int_toString_inject: "int_toString i = int_toString j \<longleftrightarrow> i = j"
  by (metis BigInt_toString sum.inject(2))

lemma nat_toString_length: "0 < k \<Longrightarrow> n < 10 ^ k \<Longrightarrow> length (nat_toString n) \<le> k"
proof (induction n arbitrary: k rule: nat_toString.induct)
  case (1 n)
  show ?case
  proof (cases "n < 10")
    case True
    with 1 show ?thesis by (subst nat_toString.simps) simp
  next
    case False
    with 1(3) have "k \<noteq> 1" by auto
    with 1(2) obtain j where j: "k = Suc j" "0 < j" by (cases k) auto
    from 1(3) have "n div 10 < 10 ^ j" by (simp add: j less_mult_imp_div_less mult.commute)
    with 1(1) False j have "length (nat_toString (n div 10)) \<le> j" by blast
    with False show ?thesis by (subst nat_toString.simps) (simp add: j)
  qed
qed

section \<open>Numbers\<close>

text \<open>A \<open>number\<close> that the program feeds to \<open>BigInt\<close>: finite values are rationals. \<open>BigInt(number)\<close> is a
  \<open>RangeError\<close> unless the number is an integer.\<close>

datatype js_number = Num rat | Infinity bool | NaN

definition BigInt_of_number :: "js_number \<Rightarrow> int res" where
  "BigInt_of_number x =
     (case x of
        Num r \<Rightarrow> (if rat_of_int \<lfloor>r\<rfloor> = r then Inr \<lfloor>r\<rfloor> else Inl RangeError)
      | _ \<Rightarrow> Inl RangeError)"

text \<open>\<open>Number(i)\<close> of an integer: the nearest double, ties to the even mantissa. Below \<open>2^53\<close> it is exact.\<close>

definition to_double :: "int \<Rightarrow> int" where
  "to_double i =
     (let a = \<bar>i\<bar>; e = nat (bitlen a - 53) in
      if e = 0 then i
      else let q = a div 2 ^ e; r = a mod 2 ^ e; half = 2 ^ (e - 1);
               q' = (if r > half \<or> (r = half \<and> odd q) then q + 1 else q)
           in sgn i * (q' * 2 ^ e))"

lemma to_double_exact: "\<bar>i\<bar> < 2 ^ 53 \<Longrightarrow> to_double i = i"
  using bitlen_le_iff_power [of "\<bar>i\<bar>" 53] by (simp add: to_double_def)

text \<open>\<open>Number(s)\<close> on integer literals; \<open>None\<close> stands for \<open>NaN\<close>, with which every comparison is false.\<close>

definition Number_of_string :: "string \<Rightarrow> int option" where
  "Number_of_string s = (case BigInt s of Inl _ \<Rightarrow> None | Inr i \<Rightarrow> Some (to_double i))"

lemma Number_of_toString: "Number_of_string (int_toString i) = Some (to_double i)"
  by (simp add: Number_of_string_def BigInt_toString)

section \<open>Strings\<close>

definition starts_with :: "string \<Rightarrow> string \<Rightarrow> bool" where
  "starts_with pre s \<longleftrightarrow> take (length pre) s = pre"

definition is_digit :: "char \<Rightarrow> bool" where
  "is_digit c \<longleftrightarrow> 48 \<le> (of_char c :: nat) \<and> (of_char c :: nat) \<le> 57"

definition padStart :: "nat \<Rightarrow> string \<Rightarrow> string" where
  "padStart n s = replicate (n - length s) CHR ''0'' @ s"

definition str_includes :: "string \<Rightarrow> string \<Rightarrow> bool" where
  "str_includes sub s = list_ex (\<lambda>i. starts_with sub (drop i s)) [0..<Suc (length s)]"

definition lower_char :: "char \<Rightarrow> char" where
  "lower_char c =
     (let n = (of_char c :: nat) in
      if 65 \<le> n \<and> n \<le> 90 \<or> 192 \<le> n \<and> n \<le> 222 \<and> n \<noteq> 215 then char_of (n + 32) else c)"

lemma str_includes_Nil: "str_includes sub [] \<longleftrightarrow> sub = []"
  by (auto simp: str_includes_def starts_with_def)

lemma str_includes_Cons: "str_includes sub (c # s) \<longleftrightarrow> starts_with sub (c # s) \<or> str_includes sub s"
proof -
  have "{..<Suc (length (c # s))} = insert 0 (Suc ` {..<Suc (length s)})"
    by (simp only: length_Cons lessThan_Suc_eq_insert_0)
  then show ?thesis unfolding str_includes_def list_ex_iff atLeast0LessThan set_upt by simp
qed

text \<open>\<open>s.split(sep)\<close> for a non-empty separator; \<open>acc\<close> is the segment under construction, reversed.\<close>

function split_from :: "string \<Rightarrow> string \<Rightarrow> string \<Rightarrow> string list" where
  "split_from sep acc s =
     (case s of
        [] \<Rightarrow> [rev acc]
      | c # cs \<Rightarrow>
          (if sep \<noteq> [] \<and> starts_with sep s
           then rev acc # split_from sep [] (drop (length sep) s)
           else split_from sep (c # acc) cs))"
  by pat_completeness auto
termination by (relation "measure (\<lambda>(sep, acc, s). length s)") auto

declare split_from.simps [simp del]

definition split_string :: "string \<Rightarrow> string \<Rightarrow> string list" where
  "split_string sep s = split_from sep [] s"

lemma split_from_nonempty: "split_from sep acc s \<noteq> []"
  by (induction sep acc s rule: split_from.induct) (subst split_from.simps, auto split: list.splits)

lemma split_from_no_sep:
  "(\<And>c. c \<in> set s \<Longrightarrow> c \<noteq> hd sep) \<Longrightarrow> sep \<noteq> [] \<Longrightarrow> split_from sep acc s = [rev acc @ s]"
proof (induction s arbitrary: acc)
  case Nil
  then show ?case by (subst split_from.simps) simp
next
  case (Cons c cs)
  have "\<not> starts_with sep (c # cs)"
    using Cons.prems by (cases sep) (auto simp: starts_with_def)
  with Cons show ?case by (subst split_from.simps) simp
qed

text \<open>The last segment of a string that ends in a separator followed by separator-free text.\<close>

lemma split_cut:
  assumes "sep \<noteq> []" "\<And>c. c \<in> set n \<Longrightarrow> c \<notin> set sep"
  shows "last (split_from sep acc (sep @ n)) = n"
proof -
  obtain c cs where sc: "sep = c # cs" using assms(1) by (cases sep) auto
  have "split_from sep acc (sep @ n) = rev acc # split_from sep [] n"
    by (subst split_from.simps) (simp add: sc starts_with_def)
  moreover have "split_from sep [] n = [n]"
    using assms split_from_no_sep [of n sep "[]"] by (metis append_Nil hd_in_set rev.simps(1))
  ultimately show ?thesis by simp
qed

lemma split_last:
  assumes "sep \<noteq> []" "\<And>c. c \<in> set n \<Longrightarrow> c \<notin> set sep" "p = [] \<or> last p \<notin> set sep"
  shows "last (split_from sep acc (p @ sep @ n)) = n"
  using assms(3)
proof (induction "length p" arbitrary: p acc rule: less_induct)
  case less
  show ?case
  proof (cases p)
    case Nil
    then show ?thesis using split_cut [OF assms(1,2)] by simp
  next
    case (Cons c cs)
    show ?thesis
    proof (cases "starts_with sep (p @ sep @ n)")
      case False
      have "cs = [] \<or> last cs \<notin> set sep" using less.prems Cons by (auto split: if_splits)
      with False show ?thesis using less.hyps [of cs] Cons by (subst split_from.simps) simp
    next
      case True
      let ?k = "length sep"
      have k: "?k \<le> length p"
      proof (rule ccontr)
        assume "\<not> ?k \<le> length p"
        then have "take ?k (p @ sep @ n) = p @ take (?k - length p) (sep @ n)" by simp
        with True have "sep = p @ take (?k - length p) (sep @ n)" by (simp add: starts_with_def)
        then have "set p \<subseteq> set sep" by (metis Un_upper1 set_append)
        then show False using less.prems Cons last_in_set [of p] by blast
      qed
      have short: "length (drop ?k p) < length p" using assms(1) by (cases sep) (auto simp: Cons)
      have "drop ?k p = [] \<or> last (drop ?k p) \<notin> set sep"
        using less.prems Cons by (cases "?k < length p") auto
      note ih = less.hyps [OF short this, of "[]"]
      have "split_from sep acc (p @ sep @ n) = rev acc # split_from sep [] (drop ?k (p @ sep @ n))"
        using True assms(1) Cons by (subst split_from.simps) simp
      also have "drop ?k (p @ sep @ n) = drop ?k p @ sep @ n" using k by simp
      finally show ?thesis using ih by (simp add: split_from_nonempty)
    qed
  qed
qed

section \<open>Maps and sets with insertion order\<close>

text \<open>\<open>Map\<close> is an association list: \<open>set\<close> overwrites in place or appends, \<open>delete\<close> removes the entry,
  iteration follows the list. The interface lists what the components rely on.\<close>

type_synonym ('k, 'v) js_Map = "('k \<times> 'v) list"

fun map_set :: "'k \<Rightarrow> 'v \<Rightarrow> ('k, 'v) js_Map \<Rightarrow> ('k, 'v) js_Map" where
  "map_set k v [] = [(k, v)]"
| "map_set k v ((k', v') # m) = (if k' = k then (k, v) # m else (k', v') # map_set k v m)"

definition map_delete :: "'k \<Rightarrow> ('k, 'v) js_Map \<Rightarrow> ('k, 'v) js_Map" where
  "map_delete k m = filter (\<lambda>e. fst e \<noteq> k) m"

definition map_get :: "('k, 'v) js_Map \<Rightarrow> 'k \<Rightarrow> 'v option" where
  "map_get m k = map_of m k"

definition map_wf :: "('k, 'v) js_Map \<Rightarrow> bool" where
  "map_wf m \<longleftrightarrow> distinct (map fst m)"

definition map_values :: "('k, 'v) js_Map \<Rightarrow> 'v list" where
  "map_values m = map snd m"

locale js_map =
  fixes get :: "'m \<Rightarrow> 'k \<Rightarrow> 'v option"
    and put :: "'k \<Rightarrow> 'v \<Rightarrow> 'm \<Rightarrow> 'm"
    and del :: "'k \<Rightarrow> 'm \<Rightarrow> 'm"
    and vals :: "'m \<Rightarrow> 'v list"
    and wf :: "'m \<Rightarrow> bool"
  assumes get_put: "get (put k v m) j = (if j = k then Some v else get m j)"
    and get_del: "get (del k m) j = (if j = k then None else get m j)"
    and wf_put: "wf m \<Longrightarrow> wf (put k v m)"
    and wf_del: "wf m \<Longrightarrow> wf (del k m)"
    and set_vals: "wf m \<Longrightarrow> v \<in> set (vals m) \<longleftrightarrow> (\<exists>k. get m k = Some v)"
    and length_put: "length (vals (put k v m)) = (if get m k = None then Suc (length (vals m)) else length (vals m))"
begin

text \<open>Last writer wins: after a sequence of insertions the value of a key is the one of the last
  insertion that names it.\<close>

lemma get_fold_put:
  "get (fold (\<lambda>e. put (f e) (g e)) es m) k =
     (case find (\<lambda>e. f e = k) (rev es) of None \<Rightarrow> get m k | Some e \<Rightarrow> Some (g e))"
proof (induction es rule: rev_induct)
  case (snoc e es)
  then show ?case by (auto simp: get_put)
qed simp

lemma wf_fold_put: "wf m \<Longrightarrow> wf (fold (\<lambda>e. put (f e) (g e)) es m)"
  by (induction es arbitrary: m) (auto simp: wf_put)

lemma get_put_same [simp]: "get (put k v m) k = Some v"
  by (simp add: get_put)

end

lemma map_set_keys: "fst ` set (map_set k v m) = insert k (fst ` set m)"
  by (induction k v m rule: map_set.induct) auto

lemma map_set_fresh: "k \<notin> fst ` set m \<Longrightarrow> map_set k v m = m @ [(k, v)]"
  by (induction k v m rule: map_set.induct) auto

interpretation js_Map: js_map map_get map_set map_delete map_values map_wf
proof unfold_locales
  fix m :: "('k, 'v) js_Map" and k j :: 'k and v :: 'v
  show "map_get (map_set k v m) j = (if j = k then Some v else map_get m j)"
    unfolding map_get_def by (induction k v m rule: map_set.induct) auto
  show "map_get (map_delete k m) j = (if j = k then None else map_get m j)"
    unfolding map_get_def map_delete_def by (induction m) auto
  show "map_wf m \<Longrightarrow> map_wf (map_set k v m)"
    unfolding map_wf_def by (induction k v m rule: map_set.induct) (auto simp: map_set_keys)
  show "map_wf m \<Longrightarrow> map_wf (map_delete k m)"
    unfolding map_wf_def map_delete_def by (induction m) auto
  show "map_wf m \<Longrightarrow> v \<in> set (map_values m) \<longleftrightarrow> (\<exists>k. map_get m k = Some v)"
    unfolding map_wf_def map_values_def map_get_def by force
  show "length (map_values (map_set k v m)) =
      (if map_get m k = None then Suc (length (map_values m)) else length (map_values m))"
    unfolding map_values_def map_get_def by (induction k v m rule: map_set.induct) auto
qed

text \<open>\<open>Set.add\<close> and \<open>Set.delete\<close>.\<close>

definition set_add :: "'a \<Rightarrow> 'a list \<Rightarrow> 'a list" where
  "set_add x xs = (if x \<in> set xs then xs else xs @ [x])"

definition set_delete :: "'a \<Rightarrow> 'a list \<Rightarrow> 'a list" where
  "set_delete x xs = filter (\<lambda>y. y \<noteq> x) xs"

lemma set_set_add [simp]: "set (set_add x xs) = insert x (set xs)"
  by (auto simp: set_add_def)

lemma set_set_delete [simp]: "set (set_delete x xs) = set xs - {x}"
  by (auto simp: set_delete_def)

lemma distinct_set_add [simp]: "distinct xs \<Longrightarrow> distinct (set_add x xs)"
  by (simp add: set_add_def)

lemma distinct_set_delete [simp]: "distinct xs \<Longrightarrow> distinct (set_delete x xs)"
  by (simp add: set_delete_def)

section \<open>JSON values\<close>

datatype json =
    JNull
  | JBool bool
  | JNum rat
  | JStr string
  | JArr "json list"
  | JObj "(string \<times> json) list"

type_synonym json_record = "(string \<times> json) list"

text \<open>Property access \<open>o.k\<close> on a record with distinct keys: \<open>None\<close> is \<open>undefined\<close>.\<close>

definition jget :: "json_record \<Rightarrow> string \<Rightarrow> json option" where
  "jget r k = map_of r k"

fun jstr :: "json option \<Rightarrow> string option" where
  "jstr (Some (JStr s)) = Some s"
| "jstr _ = None"

text \<open>Optional chaining \<open>x?.k\<close> and truth of a value; \<open>None\<close> is \<open>undefined\<close>.\<close>

fun json_prop :: "json option \<Rightarrow> string \<Rightarrow> json option" where
  "json_prop (Some (JObj r)) k = jget r k"
| "json_prop _ k = None"

fun js_truthy :: "json option \<Rightarrow> bool" where
  "js_truthy (Some (JBool b)) = b"
| "js_truthy (Some (JNum x)) = (x \<noteq> 0)"
| "js_truthy (Some (JStr s)) = (s \<noteq> [])"
| "js_truthy (Some (JArr _)) = True"
| "js_truthy (Some (JObj _)) = True"
| "js_truthy _ = False"

definition nullish :: "json option \<Rightarrow> json option \<Rightarrow> json option" where
  "nullish x y = (if x = None \<or> x = Some JNull then y else x)"

end
