(* ===== verification/ParityRunner.thy ===== *)
theory ParityRunner
  imports Svi JsData
begin

text \<open>
  \<open>dashboard/src/lib/parity_runner.ts\<close>: the command-line check of the pricer against the golden
  vectors. The file read and \<open>JSON.parse\<close> are arguments (\<open>None\<close> is a missing file); the arguments,
  the selection, the comparison of every vector and the exit code are modelled. The main result is
  that exit code zero means exactly that every selected vector agrees.
\<close>

section \<open>The source\<close>

record SignedHex =
  mag :: string
  neg :: bool

datatype tier = A | B | C | C2

fun tier_name :: "tier \<Rightarrow> string" where
  "tier_name A = ''A''" | "tier_name B = ''B''" | "tier_name C = ''C''" | "tier_name C2 = ''C2''"

record Vector =
  vec_id :: string
  vec_tier :: tier
  in_a :: string
  in_b :: string
  in_sigma :: string
  in_forward :: string
  in_strike :: string
  in_rho :: SignedHex
  in_m :: SignedHex
  in_k :: SignedHex
  exp_w :: string
  exp_binary_price :: string
  params_valid :: bool

definition decodeSigned :: "SignedHex \<Rightarrow> int res" where
  "decodeSigned s = bindE (BigInt (mag s)) (\<lambda>m. Inr (if neg s then - m else m))"

definition absBig :: "int \<Rightarrow> int" where
  "absBig x = (if x < 0 then - x else x)"

text \<open>\<open>first\<close> is the \<open>number\<close> of \<open>parseInt\<close>, whose \<open>NaN\<close> is \<open>Some None\<close>.\<close>

record ParsedArgs =
  first_arg :: "int option option"
  tier_arg :: "string option"
  tolerance :: int

text \<open>\<open>parseInt(s, 10)\<close>: leading white space and a sign, then the longest prefix of decimal digits.\<close>

definition parse_prefix :: "string \<Rightarrow> nat option" where
  "parse_prefix s =
     (let ds = takeWhile (\<lambda>c. case char_digit c of None \<Rightarrow> False | Some d \<Rightarrow> d < 10) s
      in if ds = [] then None else parse_digits 10 0 ds)"

definition parseInt10 :: "string \<Rightarrow> int option" where
  "parseInt10 s =
     (case dropWhile is_space s of
        [] \<Rightarrow> None
      | c # cs \<Rightarrow>
          (if c = CHR ''-'' then map_option (\<lambda>n. - int n) (parse_prefix cs)
           else if c = CHR ''+'' then map_option int (parse_prefix cs)
           else map_option int (parse_prefix (c # cs))))"

text \<open>The loop over the arguments: an option takes its value when the next argument is a non-empty
  string, and then both are consumed; anything else is skipped.\<close>

fun parseArgs :: "string list \<Rightarrow> ParsedArgs \<Rightarrow> ParsedArgs res" where
  "parseArgs (x # v # rest) opts =
     (if x = ''--first'' \<and> v \<noteq> [] then parseArgs rest (opts\<lparr>first_arg := Some (parseInt10 v)\<rparr>)
      else if x = ''--tier'' \<and> v \<noteq> [] then parseArgs rest (opts\<lparr>tier_arg := Some v\<rparr>)
      else if x = ''--tolerance'' \<and> v \<noteq> []
      then bindE (BigInt v) (\<lambda>t. parseArgs rest (opts\<lparr>tolerance := t\<rparr>))
      else parseArgs (v # rest) opts)"
| "parseArgs _ opts = Inr opts"

definition default_args :: ParsedArgs where
  "default_args = \<lparr>first_arg = None, tier_arg = None, tolerance = 1\<rparr>"

text \<open>\<open>xs.slice(0, n)\<close>: a negative bound counts from the end, \<open>NaN\<close> is zero.\<close>

definition slice_first :: "int option \<Rightarrow> 'a list \<Rightarrow> 'a list" where
  "slice_first n xs =
     (case n of
        None \<Rightarrow> []
      | Some i \<Rightarrow> (if i \<ge> 0 then take (nat i) xs else take (length xs - nat (- i)) xs))"

definition select_vectors :: "ParsedArgs \<Rightarrow> Vector list \<Rightarrow> Vector list" where
  "select_vectors opts vectors =
     (let vs = (case tier_arg opts of
                  None \<Rightarrow> vectors
                | Some t \<Rightarrow> filter (\<lambda>v. tier_name (vec_tier v) = t) vectors)
      in case first_arg opts of None \<Rightarrow> vs | Some n \<Rightarrow> slice_first n vs)"

datatype failure =
    WMismatch string int int int
  | PriceMismatch string int int int
  | ExpectedThrow string
  | UnexpectedException string js_error

record decoded =
  dec_svi :: SVIParams
  dec_k :: int
  dec_forward :: int
  dec_strike :: int

definition decode_vector :: "Vector \<Rightarrow> decoded res" where
  "decode_vector v =
     bindE (BigInt (in_a v)) (\<lambda>a. bindE (BigInt (in_b v)) (\<lambda>b. bindE (BigInt (in_sigma v)) (\<lambda>sigma.
     bindE (decodeSigned (in_rho v)) (\<lambda>rho. bindE (decodeSigned (in_m v)) (\<lambda>m.
     bindE (decodeSigned (in_k v)) (\<lambda>k. bindE (BigInt (in_forward v)) (\<lambda>forward.
     bindE (BigInt (in_strike v)) (\<lambda>strike.
     Inr \<lparr>dec_svi = \<lparr>svi_a = a, svi_b = b, svi_rho = rho, svi_m = m, svi_sigma = sigma\<rparr>,
          dec_k = k, dec_forward = forward, dec_strike = strike\<rparr>))))))))"

text \<open>The body of the loop for one vector. The failures pushed before an exception stay, so the
  second component is the exception that left the inner block, if any.\<close>

definition check_valid :: "int \<Rightarrow> Vector \<Rightarrow> decoded \<Rightarrow> failure list \<times> js_error option" where
  "check_valid tol v d =
     (case totalVariance (dec_svi d) (dec_k d) of
        Inl e \<Rightarrow> ([], Some e)
      | Inr actualW \<Rightarrow>
     (case BigInt (exp_w v) of
        Inl e \<Rightarrow> ([], Some e)
      | Inr expectedW \<Rightarrow>
     (let diffW = absBig (actualW - expectedW);
          fs = (if diffW > tol then [WMismatch (vec_id v) actualW expectedW diffW] else [])
      in case binaryPrice (dec_svi d) (dec_forward d) (dec_strike d) of
        Inl e \<Rightarrow> (fs, Some e)
      | Inr actualBp \<Rightarrow>
     (case BigInt (exp_binary_price v) of
        Inl e \<Rightarrow> (fs, Some e)
      | Inr expectedBp \<Rightarrow>
     (let diffBp = absBig (actualBp - expectedBp)
      in (fs @ (if diffBp > tol then [PriceMismatch (vec_id v) actualBp expectedBp diffBp] else []),
          None))))))"

definition check_vector :: "int \<Rightarrow> Vector \<Rightarrow> failure list" where
  "check_vector tol v =
     (case decode_vector v of
        Inl e \<Rightarrow> (if params_valid v then [UnexpectedException (vec_id v) e] else [])
      | Inr d \<Rightarrow>
          (if params_valid v
           then (case check_valid tol v d of
                   (fs, None) \<Rightarrow> fs
                 | (fs, Some e) \<Rightarrow> fs @ [UnexpectedException (vec_id v) e])
           else (case totalVariance (dec_svi d) (dec_k d) of
                   Inl _ \<Rightarrow> []
                 | Inr _ \<Rightarrow> [ExpectedThrow (vec_id v)])))"

definition run_vectors :: "int \<Rightarrow> Vector list \<Rightarrow> failure list" where
  "run_vectors tol vectors = concat (map (check_vector tol) vectors)"

text \<open>\<open>file\<close> is what reading and parsing the golden file gives: \<open>None\<close> when it cannot be read, otherwise
  the value or exception of \<open>JSON.parse\<close>. The result is the process exit code; an uncaught exception
  is an error value.\<close>

definition parity_main :: "string list \<Rightarrow> Vector list res option \<Rightarrow> int res" where
  "parity_main argv file =
     bindE (parseArgs argv default_args) (\<lambda>opts.
     case file of
       None \<Rightarrow> Inr 1
     | Some parsed \<Rightarrow>
         bindE parsed (\<lambda>vectors.
         let vs = select_vectors opts vectors in
         if vs = [] then Inr 1
         else if run_vectors (tolerance opts) vs \<noteq> [] then Inr 1 else Inr 0))"

section \<open>Exit code\<close>

text \<open>What agreement means for one vector, independently of the loop.\<close>

definition vector_agrees :: "int \<Rightarrow> Vector \<Rightarrow> bool" where
  "vector_agrees tol v =
     (case decode_vector v of
        Inl _ \<Rightarrow> \<not> params_valid v
      | Inr d \<Rightarrow>
          (if params_valid v
           then case (totalVariance (dec_svi d) (dec_k d), BigInt (exp_w v),
                      binaryPrice (dec_svi d) (dec_forward d) (dec_strike d), BigInt (exp_binary_price v)) of
                  (Inr w, Inr w', Inr p, Inr p') \<Rightarrow> \<bar>w - w'\<bar> \<le> tol \<and> \<bar>p - p'\<bar> \<le> tol
                | _ \<Rightarrow> False
           else \<not> returns (totalVariance (dec_svi d) (dec_k d))))"

lemma absBig_abs [simp]: "absBig x = \<bar>x\<bar>"
  by (simp add: absBig_def)

lemma check_vector_empty: "check_vector tol v = [] \<longleftrightarrow> vector_agrees tol v"
  unfolding check_vector_def check_valid_def vector_agrees_def Let_def
  by (auto split: sum.splits option.splits prod.splits if_splits)

text \<open>C20. Exit code zero of the parity runner: the arguments parse, the golden file is read and parsed,
  at least one vector is selected, and every selected vector agrees within the tolerance, where a
  vector marked invalid agrees when the pricer rejects it. In every other case that does not end in an
  uncaught exception the exit code is one.\<close>

theorem parity_exit_code:
  assumes "parseArgs argv default_args = Inr opts"
  shows "(parity_main argv (Some (Inr vectors)) = Inr 0 \<longleftrightarrow>
      select_vectors opts vectors \<noteq> []
      \<and> (\<forall>v \<in> set (select_vectors opts vectors). vector_agrees (tolerance opts) v))
    \<and> parity_main argv (Some (Inr vectors)) \<in> {Inr 0, Inr 1}
    \<and> parity_main argv None = Inr 1"
  using assms by (auto simp: parity_main_def run_vectors_def Let_def check_vector_empty)

definition golden_vector_A01 :: Vector where
  "golden_vector_A01 =
     \<lparr>vec_id = ''A-01'', vec_tier = A, in_a = ''0x2625a00'', in_b = ''0xbebc200'',
      in_sigma = ''0x1dcd6500'', in_forward = ''0xba43b7400'', in_strike = ''0xba43b7400'',
      in_rho = \<lparr>mag = ''0x0'', neg = False\<rparr>, in_m = \<lparr>mag = ''0x0'', neg = False\<rparr>,
      in_k = \<lparr>mag = ''0x0'', neg = False\<rparr>, exp_w = ''0x8583b00'',
      exp_binary_price = ''0x196128c6'', params_valid = True\<rparr>"

lemmas literal_simps =
  decodeSigned_def BigInt_def trim_def is_space_def digits_value_def char_digit_def

lemma golden_vector_A01_decoded:
  "decode_vector golden_vector_A01 =
     Inr \<lparr>dec_svi = golden_A01, dec_k = 0, dec_forward = 50000000000, dec_strike = 50000000000\<rparr>"
  by (simp add: decode_vector_def golden_vector_A01_def golden_A01_def literal_simps)

lemma golden_A01_price: "binaryPrice golden_A01 50000000000 50000000000 = Inr 425797830"
  by code_simp

lemma golden_A01_variance: "totalVariance golden_A01 0 = Inr 140000000"
  by code_simp

lemma golden_vector_A01_agrees: "vector_agrees 1 golden_vector_A01"
proof -
  have "BigInt (exp_w golden_vector_A01) = Inr 140000000"
    "BigInt (exp_binary_price golden_vector_A01) = Inr 425797830" "params_valid golden_vector_A01"
    by (simp_all add: golden_vector_A01_def literal_simps)
  then show ?thesis
    by (simp add: vector_agrees_def golden_vector_A01_decoded golden_A01_price golden_A01_variance)
qed

theorem parity_exit_code_witness:
  "parity_main [''--tier'', ''A''] (Some (Inr [golden_vector_A01])) = Inr 0"
proof -
  have args: "parseArgs [''--tier'', ''A''] default_args = Inr (default_args\<lparr>tier_arg := Some ''A''\<rparr>)"
    by simp
  have "select_vectors (default_args\<lparr>tier_arg := Some ''A''\<rparr>) [golden_vector_A01] = [golden_vector_A01]"
    by (simp add: select_vectors_def default_args_def golden_vector_A01_def)
  then show ?thesis
    using parity_exit_code [OF args, of "[golden_vector_A01]"] golden_vector_A01_agrees
    by (simp add: default_args_def)
qed

end
