(* ===== verification/DeployInfo.thy ===== *)
theory DeployInfo
  imports JsData
begin

text \<open>
  \<open>indexer/src/decodeI64.ts\<close>, \<open>indexer/src/deployInfo.ts\<close> and the \<open>DeployJson\<close> of \<open>indexer/src/types.ts\<close>:
  the decoding of the chain's signed integers and the gate that decides whether the relay polls.
\<close>

record RawI64 =
  magnitude :: string
  is_negative :: bool

definition decodeI64 :: "RawI64 \<Rightarrow> string res" where
  "decodeI64 raw =
     bindE (BigInt (magnitude raw)) (\<lambda>mag.
     let signed = (if is_negative raw then - mag else mag) in Inr (int_toString signed))"

record DeployJson =
  network :: string
  status :: string
  deployed_at_iso :: string
  deploy_tx_digest :: string
  deployer :: string
  package_id :: string
  vault_id :: string
  vault_initial_shared_version :: int
  admin_cap_id :: string
  predict_manager_id :: string
  predict_manager_initial_shared_version :: int
  predict_package_id :: string
  predict_registry_id :: string
  predict_top_level_id :: string
  dusdc_type_tag :: string
  oracle_svi_id :: "string option"

text \<open>\<open>resolve\<close> is \<open>path.resolve\<close> against the repository root, \<open>read\<close> the file read with \<open>JSON.parse\<close>. An
  empty environment variable counts as absent; an empty override does not.\<close>

definition deploy_path :: "(string \<Rightarrow> string) \<Rightarrow> string option \<Rightarrow> string option \<Rightarrow> string" where
  "deploy_path resolve overridePath envPath =
     (case overridePath of
        Some p \<Rightarrow> p
      | None \<Rightarrow>
          (case envPath of
             Some e \<Rightarrow> (if e \<noteq> [] then resolve e
                       else resolve ''.planning/phases/02-vault-move-package-testnet-deploy/TESTNET-DEPLOY.json'')
           | None \<Rightarrow> resolve ''.planning/phases/02-vault-move-package-testnet-deploy/TESTNET-DEPLOY.json''))"

definition loadDeploy ::
  "(string \<Rightarrow> string) \<Rightarrow> (string \<Rightarrow> DeployJson res) \<Rightarrow> string option \<Rightarrow> string option \<Rightarrow> DeployJson res" where
  "loadDeploy resolve read overridePath envPath = read (deploy_path resolve overridePath envPath)"

definition isDeployed :: "DeployJson \<Rightarrow> bool" where
  "isDeployed deploy \<longleftrightarrow> status deploy = ''deployed'' \<and> package_id deploy \<noteq> ''PENDING''"

text \<open>Decoding a signed integer of the chain: the result parses back to the magnitude with the sign
  of the flag, at full precision; it fails exactly when the magnitude is not an integer literal; and a
  zero magnitude is never printed with a minus sign.\<close>

theorem decodeI64_roundtrip:
  "(\<forall>n. BigInt (magnitude raw) = Inr n \<longrightarrow>
      (\<exists>s. decodeI64 raw = Inr s \<and> BigInt s = Inr (if is_negative raw then - n else n)
        \<and> (n = 0 \<longrightarrow> s = ''0'')))
   \<and> (\<forall>e. BigInt (magnitude raw) = Inl e \<longrightarrow> decodeI64 raw = Inl e)"
proof -
  have "nat_toString 0 = ''0''" by code_simp
  then show ?thesis
    by (auto simp: decodeI64_def Let_def BigInt_toString int_toString_def [of 0])
qed

theorem decodeI64_roundtrip_witness:
  "\<exists>s. decodeI64 \<lparr>magnitude = int_toString 9007199254740993, is_negative = True\<rparr> = Inr s
     \<and> BigInt s = Inr (- 9007199254740993)"
  using decodeI64_roundtrip [of "\<lparr>magnitude = int_toString 9007199254740993, is_negative = True\<rparr>"]
  by (auto simp: BigInt_toString)

end
