(* ===== verification/SnapshotStore.thy ===== *)
theory SnapshotStore
  imports DeployInfo "HOL-Library.Sublist"
begin

text \<open>
  \<open>indexer/src/snapshot.ts\<close>: the in-memory store of the relay with the latest surface per oracle, the
  vault slot, the replay ring and the subscriber set. The clock readings of \<open>Date.now()\<close> are
  arguments, and an emission returns the deliveries it makes. The store is related to an abstract
  one that remembers the whole history of events: the ring is a suffix of the history and every
  oracle slot holds the last event of that oracle.
\<close>

section \<open>The source\<close>

record SurfaceSnapshot =
  ss_oracle_id :: string
  ss_a :: string
  ss_b :: string
  ss_rho_signed :: string
  ss_m_signed :: string
  ss_sigma :: string
  ss_timestamp_ms :: string
  ss_last_updated_ms :: string

record RingEvent =
  ev_name :: string
  ev_ts_ms :: string
  ev_data :: json_record

record VaultState =
  vs_vault_id :: string
  vs_balance :: string
  vs_total_assets :: string
  vs_total_shares :: string
  vs_paused :: bool
  vs_last_updated_ms :: string

record ParsedOracleSvi =
  po_oracle_id :: string
  po_a :: string
  po_b :: string
  po_rho_signed :: string
  po_m_signed :: string
  po_sigma :: string
  po_timestamp_ms :: string

record FullSnapshot =
  fs_oracles :: "SurfaceSnapshot list"
  fs_vault :: "VaultState option"
  fs_ring_buffer :: "RingEvent list"
  fs_served_at_ms :: string

text \<open>Subscribers are closures; each registration makes a new one, so an identifier stands for it.\<close>

record Snapshot =
  oracles :: "(string, SurfaceSnapshot) js_Map"
  vault :: "VaultState option"
  ring :: "RingEvent list"
  subscribers :: "nat list"

definition new_Snapshot :: Snapshot where
  "new_Snapshot = \<lparr>oracles = [], vault = None, ring = [], subscribers = []\<rparr>"

definition RING_MAX_COUNT :: nat where
  "RING_MAX_COUNT = 100"

definition RING_MAX_AGE_MS :: int where
  "RING_MAX_AGE_MS = 60 * 60 * 1000"

text \<open>\<open>{ ...snap }\<close> as a record.\<close>

definition surface_record :: "SurfaceSnapshot \<Rightarrow> json_record" where
  "surface_record s =
     [(''oracle_id'', JStr (ss_oracle_id s)), (''a'', JStr (ss_a s)), (''b'', JStr (ss_b s)),
      (''rho_signed'', JStr (ss_rho_signed s)), (''m_signed'', JStr (ss_m_signed s)),
      (''sigma'', JStr (ss_sigma s)), (''timestamp_ms'', JStr (ss_timestamp_ms s)),
      (''last_updated_ms'', JStr (ss_last_updated_ms s))]"

definition older :: "int \<Rightarrow> RingEvent \<Rightarrow> bool" where
  "older cutoff e = (case Number_of_string (ev_ts_ms e) of None \<Rightarrow> False | Some t \<Rightarrow> t < cutoff)"

text \<open>The \<open>while\<close> loop of \<open>pushRing\<close>.\<close>

fun evict :: "int \<Rightarrow> RingEvent list \<Rightarrow> RingEvent list" where
  "evict cutoff [] = []"
| "evict cutoff (e # es) =
     (if length (e # es) > RING_MAX_COUNT \<or> older cutoff e then evict cutoff es else e # es)"

definition pushRing :: "int \<Rightarrow> RingEvent \<Rightarrow> Snapshot \<Rightarrow> Snapshot" where
  "pushRing now e s = s\<lparr>ring := evict (now - RING_MAX_AGE_MS) (ring s @ [e])\<rparr>"

text \<open>\<open>emit\<close> calls every subscriber in insertion order and swallows its exceptions.\<close>

definition emit :: "RingEvent \<Rightarrow> Snapshot \<Rightarrow> (nat \<times> RingEvent) list" where
  "emit e s = map (\<lambda>fn. (fn, e)) (subscribers s)"

definition surface_of :: "ParsedOracleSvi \<Rightarrow> int \<Rightarrow> int \<Rightarrow> SurfaceSnapshot" where
  "surface_of parsed eventTsMs now =
     \<lparr>ss_oracle_id = po_oracle_id parsed, ss_a = po_a parsed, ss_b = po_b parsed,
      ss_rho_signed = po_rho_signed parsed, ss_m_signed = po_m_signed parsed,
      ss_sigma = po_sigma parsed, ss_timestamp_ms = int_toString eventTsMs,
      ss_last_updated_ms = int_toString now\<rparr>"

definition oracle_event :: "SurfaceSnapshot \<Rightarrow> RingEvent" where
  "oracle_event snap =
     \<lparr>ev_name = ''OracleSVIUpdated'', ev_ts_ms = ss_timestamp_ms snap, ev_data = surface_record snap\<rparr>"

definition applyOracleEvent ::
  "ParsedOracleSvi \<Rightarrow> int \<Rightarrow> int \<Rightarrow> int \<Rightarrow> Snapshot \<Rightarrow> Snapshot \<times> (nat \<times> RingEvent) list" where
  "applyOracleEvent parsed eventTsMs nowApply nowRing s =
     (let snap = surface_of parsed eventTsMs nowApply;
          s1 = s\<lparr>oracles := map_set (po_oracle_id parsed) snap (oracles s)\<rparr>;
          evt = oracle_event snap;
          s2 = pushRing nowRing evt s1
      in (s2, emit evt s2))"

definition applyVaultEvent ::
  "string \<Rightarrow> json_record \<Rightarrow> int \<Rightarrow> int \<Rightarrow> Snapshot \<Rightarrow> Snapshot \<times> (nat \<times> RingEvent) list" where
  "applyVaultEvent name parsedJson eventTsMs nowRing s =
     (let evt = \<lparr>ev_name = name, ev_ts_ms = int_toString eventTsMs, ev_data = parsedJson\<rparr>;
          s1 = pushRing nowRing evt s
      in (s1, emit evt s1))"

definition setVaultState :: "VaultState option \<Rightarrow> Snapshot \<Rightarrow> Snapshot" where
  "setVaultState v s = s\<lparr>vault := v\<rparr>"

definition onEvent :: "nat \<Rightarrow> Snapshot \<Rightarrow> Snapshot" where
  "onEvent fn s = s\<lparr>subscribers := set_add fn (subscribers s)\<rparr>"

definition unsubscribe :: "nat \<Rightarrow> Snapshot \<Rightarrow> Snapshot" where
  "unsubscribe fn s = s\<lparr>subscribers := set_delete fn (subscribers s)\<rparr>"

definition fullSnapshot :: "int \<Rightarrow> Snapshot \<Rightarrow> FullSnapshot" where
  "fullSnapshot now s =
     \<lparr>fs_oracles = map_values (oracles s), fs_vault = vault s, fs_ring_buffer = ring s,
      fs_served_at_ms = int_toString now\<rparr>"

definition ringLength :: "Snapshot \<Rightarrow> nat" where "ringLength s = length (ring s)"
definition oracleCount :: "Snapshot \<Rightarrow> nat" where "oracleCount s = length (oracles s)"
definition subscriberCount :: "Snapshot \<Rightarrow> nat" where "subscriberCount s = length (subscribers s)"

section \<open>The ring\<close>

lemma evict_suffix: "suffix (evict cutoff r) r"
  by (induction cutoff r rule: evict.induct) (auto intro: suffix_ConsI)

lemma evict_length: "length (evict cutoff r) \<le> RING_MAX_COUNT"
  by (induction cutoff r rule: evict.induct) (auto simp: RING_MAX_COUNT_def)

lemma evict_head: "evict cutoff r = e # es \<Longrightarrow> \<not> older cutoff e"
  by (induction cutoff r rule: evict.induct) (auto split: if_splits)

text \<open>Eviction drops only what it has to: what is dropped is one too many or old.\<close>

lemma evict_split:
  "\<exists>q. r = q @ evict cutoff r \<and> (\<forall>x \<in> set (drop (length r - RING_MAX_COUNT) q). older cutoff x)"
proof (induction cutoff r rule: evict.induct)
  case (2 cutoff e es)
  show ?case
  proof (cases "length (e # es) > RING_MAX_COUNT \<or> older cutoff e")
    case True
    then obtain q where q: "es = q @ evict cutoff (e # es)"
      "\<forall>x \<in> set (drop (length es - RING_MAX_COUNT) q). older cutoff x"
      using "2.IH" by auto
    have "\<forall>x \<in> set (drop (length (e # es) - RING_MAX_COUNT) (e # q)). older cutoff x"
    proof (cases "length (e # es) > RING_MAX_COUNT")
      case True
      then have "length (e # es) - RING_MAX_COUNT = Suc (length es - RING_MAX_COUNT)" by simp
      with q(2) show ?thesis by simp
    next
      case False
      then have "length (e # es) - RING_MAX_COUNT = 0" "length es - RING_MAX_COUNT = 0" by simp_all
      with q(2) False True show ?thesis by simp
    qed
    with q(1) show ?thesis by (intro exI [of _ "e # q"]) simp
  qed auto
qed simp

lemma older_mono: "older c e \<Longrightarrow> c \<le> c' \<Longrightarrow> older c' e"
  by (auto simp: older_def split: option.splits)

section \<open>Refinement of the event history\<close>

datatype snap_op =
    OracleOp ParsedOracleSvi int int int
  | VaultOp string json_record int int
  | SetVaultOp "VaultState option"
  | SubscribeOp nat
  | UnsubscribeOp nat

fun snap_step :: "snap_op \<Rightarrow> Snapshot \<Rightarrow> Snapshot \<times> (nat \<times> RingEvent) list" where
  "snap_step (OracleOp p ts n1 n2) s = applyOracleEvent p ts n1 n2 s"
| "snap_step (VaultOp name d ts n2) s = applyVaultEvent name d ts n2 s"
| "snap_step (SetVaultOp v) s = (setVaultState v s, [])"
| "snap_step (SubscribeOp fn) s = (onEvent fn s, [])"
| "snap_step (UnsubscribeOp fn) s = (unsubscribe fn s, [])"

definition snap_run :: "snap_op list \<Rightarrow> Snapshot" where
  "snap_run ops = fold (\<lambda>op s. fst (snap_step op s)) ops new_Snapshot"

text \<open>The abstract store: the events and the surfaces of the operations, in order.\<close>

fun op_events :: "snap_op \<Rightarrow> RingEvent list" where
  "op_events (OracleOp p ts n1 n2) = [oracle_event (surface_of p ts n1)]"
| "op_events (VaultOp name d ts n2) = [\<lparr>ev_name = name, ev_ts_ms = int_toString ts, ev_data = d\<rparr>]"
| "op_events _ = []"

fun op_surfaces :: "snap_op \<Rightarrow> SurfaceSnapshot list" where
  "op_surfaces (OracleOp p ts n1 n2) = [surface_of p ts n1]"
| "op_surfaces _ = []"

definition history :: "snap_op list \<Rightarrow> RingEvent list" where
  "history ops = concat (map op_events ops)"

definition surfaces :: "snap_op list \<Rightarrow> SurfaceSnapshot list" where
  "surfaces ops = concat (map op_surfaces ops)"

definition snap_rel :: "snap_op list \<Rightarrow> Snapshot \<Rightarrow> bool" where
  "snap_rel ops s \<longleftrightarrow>
     oracles s = fold (\<lambda>x. map_set (ss_oracle_id x) x) (surfaces ops) []
     \<and> suffix (ring s) (history ops) \<and> length (ring s) \<le> RING_MAX_COUNT
     \<and> distinct (subscribers s)"

lemma pushRing_simps [simp]:
  "oracles (pushRing now e s) = oracles s" "vault (pushRing now e s) = vault s"
  "subscribers (pushRing now e s) = subscribers s"
  "ring (pushRing now e s) = evict (now - RING_MAX_AGE_MS) (ring s @ [e])"
  by (simp_all add: pushRing_def)

lemma suffix_push: "suffix r h \<Longrightarrow> suffix (evict c (r @ [e])) (h @ [e])"
  by (meson evict_suffix suffix_order.trans snoc_suffix_snoc)

lemma snap_step_rel:
  assumes "snap_rel ops s"
  shows "snap_rel (ops @ [op]) (fst (snap_step op s))"
  using assms
  by (cases op) (auto simp: snap_rel_def history_def surfaces_def applyOracleEvent_def
      applyVaultEvent_def setVaultState_def onEvent_def unsubscribe_def Let_def surface_of_def
      suffix_push evict_length simp del: suffix_snoc)

lemma snap_run_rel: "snap_rel ops (snap_run ops)"
proof (induction ops rule: rev_induct)
  case Nil
  then show ?case
    by (simp add: snap_run_def snap_rel_def new_Snapshot_def history_def surfaces_def)
next
  case (snoc op ops)
  then show ?case using snap_step_rel [of ops "snap_run ops" op] by (simp add: snap_run_def)
qed

text \<open>C10. The store refines the event history: after any sequence of operations the replay ring is
  the tail of everything that was applied, of at most 100 events, and the slot of an oracle is the last
  surface applied for it (empty if there was none). No event is reordered or invented.\<close>

theorem snapshot_refines_history:
  "suffix (ring (snap_run ops)) (history ops)
   \<and> ringLength (snap_run ops) \<le> RING_MAX_COUNT
   \<and> map_get (oracles (snap_run ops)) oid = find (\<lambda>x. ss_oracle_id x = oid) (rev (surfaces ops))
   \<and> fs_ring_buffer (fullSnapshot now (snap_run ops)) = ring (snap_run ops)
   \<and> (x \<in> set (fs_oracles (fullSnapshot now (snap_run ops)))
       \<longleftrightarrow> (\<exists>i. map_get (oracles (snap_run ops)) i = Some x))"
proof -
  note r = snap_run_rel [of ops, unfolded snap_rel_def]
  have o: "oracles (snap_run ops) = fold (\<lambda>x. map_set (ss_oracle_id x) x) (surfaces ops) []"
    using r by simp
  have "map_get (oracles (snap_run ops)) oid = find (\<lambda>x. ss_oracle_id x = oid) (rev (surfaces ops))"
    using js_Map.get_fold_put [of ss_oracle_id "\<lambda>x. x" "surfaces ops" "[]" oid]
    by (simp add: o map_get_def split: option.splits)
  moreover have "map_wf (oracles (snap_run ops))"
    unfolding o by (rule js_Map.wf_fold_put) (simp add: map_wf_def)
  ultimately show ?thesis
    using r js_Map.set_vals by (simp add: ringLength_def fullSnapshot_def)
qed

section \<open>Freshness\<close>

text \<open>The exact content of the ring when events arrive in the order of their time stamps.\<close>

definition ring_inv :: "RingEvent list \<Rightarrow> int \<Rightarrow> RingEvent list \<Rightarrow> bool" where
  "ring_inv h c r \<longleftrightarrow> (\<exists>p. h = p @ r \<and> length r \<le> RING_MAX_COUNT
     \<and> (\<forall>x \<in> set (drop (length h - RING_MAX_COUNT) p). older c x) \<and> (\<forall>x \<in> set r. \<not> older c x))"

definition ts_le :: "RingEvent \<Rightarrow> RingEvent \<Rightarrow> bool" where
  "ts_le e e' \<longleftrightarrow> (\<forall>c. older c e' \<longrightarrow> older c e)"

lemma ring_inv_push:
  assumes "ring_inv h c r" "c \<le> c'" "sorted_wrt ts_le (h @ [e])"
  shows "ring_inv (h @ [e]) c' (evict c' (r @ [e]))"
proof -
  obtain p where p: "h = p @ r" "length r \<le> RING_MAX_COUNT"
    "\<forall>x \<in> set (drop (length h - RING_MAX_COUNT) p). older c x"
    using assms(1) by (auto simp: ring_inv_def)
  obtain q where q: "r @ [e] = q @ evict c' (r @ [e])"
    "\<forall>x \<in> set (drop (length (r @ [e]) - RING_MAX_COUNT) q). older c' x"
    using evict_split [of "r @ [e]" c'] by blast
  define r' where "r' = evict c' (r @ [e])"
  let ?d = "length (h @ [e]) - RING_MAX_COUNT"
  have "set (drop ?d p) \<subseteq> set (drop (length h - RING_MAX_COUNT) p)"
    by (rule set_drop_subset_set_drop) simp
  then have old_p: "\<forall>x \<in> set (drop ?d p). older c' x" using p(3) assms(2) older_mono by blast
  have "?d - length p = length (r @ [e]) - RING_MAX_COUNT" using p(1) by simp
  then have old: "\<forall>x \<in> set (drop ?d (p @ q)). older c' x" using old_p q(2) by auto
  have h': "h @ [e] = (p @ q) @ r'" using p(1) q(1) by (simp add: r'_def)
  have fresh: "\<not> older c' x" if "x \<in> set r'" for x
  proof (cases r')
    case (Cons y ys)
    have "suffix r' (h @ [e])" unfolding h' by (rule suffixI) simp
    then have "sorted_wrt ts_le r'" using assms(3) by (metis sorted_wrt_append suffixE)
    then have "y = x \<or> ts_le y x" using that Cons by auto
    moreover have "\<not> older c' y" using evict_head Cons by (simp add: r'_def)
    ultimately show ?thesis by (auto simp: ts_le_def)
  qed (use that in simp)
  show ?thesis unfolding ring_inv_def r'_def [symmetric]
    using h' old fresh evict_length [of c' "r @ [e]"] by (intro exI [of _ "p @ q"]) (simp add: r'_def)
qed

lemma ring_inv_exact:
  assumes "ring_inv h c r"
  shows "r = filter (\<lambda>e. \<not> older c e) (drop (length h - RING_MAX_COUNT) h)"
proof -
  obtain p where p: "h = p @ r" "length r \<le> RING_MAX_COUNT"
    "\<forall>x \<in> set (drop (length h - RING_MAX_COUNT) p). older c x" "\<forall>x \<in> set r. \<not> older c x"
    using assms by (auto simp: ring_inv_def)
  have "drop (length h - RING_MAX_COUNT) h = drop (length h - RING_MAX_COUNT) p @ r"
    using p(1,2) by simp
  with p(3,4) show ?thesis by simp
qed

lemma ring_inv_run:
  assumes "sorted_wrt ts_le (map fst ps)" "sorted (map snd ps)" "ps \<noteq> []"
  shows "ring_inv (map fst ps) (snd (last ps) - RING_MAX_AGE_MS)
    (ring (fold (\<lambda>(e, now). pushRing now e) ps new_Snapshot))"
  using assms
proof (induction ps rule: rev_induct)
  case (snoc p ps)
  obtain e now where p: "p = (e, now)" by (cases p)
  show ?case
  proof (cases "ps = []")
    case True
    have "ring_inv [] (now - RING_MAX_AGE_MS) []" by (simp add: ring_inv_def)
    from ring_inv_push [OF this order_refl, of e] True show ?thesis
      by (simp add: p new_Snapshot_def)
  next
    case False
    have "snd (last ps) \<le> now" using snoc.prems(2) False by (auto simp: p sorted_append)
    moreover have "ring_inv (map fst ps) (snd (last ps) - RING_MAX_AGE_MS)
        (ring (fold (\<lambda>(e, now). pushRing now e) ps new_Snapshot))"
      using snoc False by (simp add: sorted_append sorted_wrt_append)
    ultimately show ?thesis
      using ring_inv_push [of "map fst ps" "snd (last ps) - RING_MAX_AGE_MS" _ "now - RING_MAX_AGE_MS" e]
        snoc.prems(1) by (simp add: p)
  qed
qed simp

text \<open>Content of the replay ring when events arrive in time-stamp order and the clock does not run
  backwards: after the last push it is exactly those of the last 100 events that are not older than one
  hour.\<close>

theorem ring_content:
  assumes "sorted_wrt ts_le (map fst pushes)" "sorted (map snd pushes)" "pushes \<noteq> []"
  shows "ring (fold (\<lambda>(e, now). pushRing now e) pushes new_Snapshot) =
    filter (\<lambda>e. \<not> older (snd (last pushes) - RING_MAX_AGE_MS) e)
      (drop (length pushes - RING_MAX_COUNT) (map fst pushes))"
  using ring_inv_exact [OF ring_inv_run [OF assms]] by simp

lemma older_toString:
  "ev_ts_ms e = int_toString t \<Longrightarrow> \<bar>t\<bar> < 2 ^ 53 \<Longrightarrow> older c e \<longleftrightarrow> t < c"
  by (simp add: older_def Number_of_toString to_double_exact)

definition demo_event :: "int \<Rightarrow> RingEvent" where
  "demo_event t = \<lparr>ev_name = ''Supplied'', ev_ts_ms = int_toString t, ev_data = []\<rparr>"

lemma older_demo_event: "\<bar>t\<bar> < 2 ^ 53 \<Longrightarrow> older c (demo_event t) \<longleftrightarrow> t < c"
  by (rule older_toString) (simp_all add: demo_event_def)

theorem ring_content_witness:
  "ring (fold (\<lambda>(e, now). pushRing now e) [(demo_event 0, 1000 :: int), (demo_event 5000000, 5000000)] new_Snapshot)
     = [demo_event 5000000]"
proof -
  let ?ps = "[(demo_event 0, 1000 :: int), (demo_event 5000000, 5000000)]"
  have "sorted_wrt ts_le (map fst ?ps)" by (simp add: ts_le_def older_demo_event)
  moreover have "sorted (map snd ?ps)" by simp
  ultimately show ?thesis
    using ring_content [of ?ps] by (simp add: older_demo_event RING_MAX_AGE_MS_def RING_MAX_COUNT_def)
qed

text \<open>The one-hour bound looks only at the head of the ring: an event that arrives late, behind a
  fresh one (two of the relay's five polling loops are enough), stays in the ring although it is older
  than one hour when it is pushed.\<close>

theorem ring_keeps_late_event:
  "\<exists>ops. \<exists>x \<in> set (ring (snap_run ops)).
     ops = [VaultOp ''Supplied'' [] 10000000 10000000, VaultOp ''Supplied'' [] 0 10000001]
     \<and> older (10000001 - RING_MAX_AGE_MS) x"
proof -
  let ?ops = "[VaultOp ''Supplied'' [] 10000000 10000000, VaultOp ''Supplied'' [] 0 10000001]"
  have "ring (snap_run ?ops) = [demo_event 10000000, demo_event 0]"
    by (simp add: snap_run_def applyVaultEvent_def Let_def new_Snapshot_def demo_event_def [symmetric]
        older_demo_event RING_MAX_AGE_MS_def RING_MAX_COUNT_def)
  moreover have "older (10000001 - RING_MAX_AGE_MS) (demo_event 0)"
    by (simp add: older_demo_event RING_MAX_AGE_MS_def)
  ultimately show ?thesis by auto
qed

end
