(* ===== verification/CursorStore.thy ===== *)
theory CursorStore
  imports JsData
begin

text \<open>
  \<open>indexer/src/cursor.ts\<close>: the persisted cursor. \<open>load\<close> and \<open>set\<close> are functions of the outcome of each
  file operation; the write-then-rename protocol of \<open>set\<close> is also a step relation in which the process
  may crash between, or in the middle of, the file operations. The theory proves that the cursor file
  is never torn and that a restart reads a value that was really set.
\<close>

section \<open>The source\<close>

text \<open>A file holds the JSON text of a value, or text that does not parse.\<close>

datatype 'v file_content = JsonText 'v | TornText

datatype 'v read_outcome = ReadOk "'v file_content" | ReadENOENT | ReadError

record 'v Cursor =
  filePath :: string
  cur_initial :: "'v option"
  cur_value :: "'v option"

definition new_Cursor :: "string \<Rightarrow> 'v option \<Rightarrow> 'v Cursor" where
  "new_Cursor path ini = \<lparr>filePath = path, cur_initial = ini, cur_value = None\<rparr>"

type_synonym 'v disk = "string \<rightharpoonup> 'v file_content"

definition read_file :: "'v disk \<Rightarrow> string \<Rightarrow> 'v read_outcome" where
  "read_file d p = (case d p of None \<Rightarrow> ReadENOENT | Some t \<Rightarrow> ReadOk t)"

definition cursor_load :: "'v read_outcome \<Rightarrow> 'v Cursor \<Rightarrow> 'v Cursor \<times> 'v option res" where
  "cursor_load r c =
     (case r of
        ReadOk (JsonText v) \<Rightarrow> (let c' = c\<lparr>cur_value := Some v\<rparr> in (c', Inr (cur_value c')))
      | ReadOk TornText \<Rightarrow> (c, Inl SyntaxError)
      | ReadENOENT \<Rightarrow> (let c' = c\<lparr>cur_value := cur_initial c\<rparr> in (c', Inr (cur_value c')))
      | ReadError \<Rightarrow> (c, Inl (Error ''read failed'')))"

definition tmp_path :: "string \<Rightarrow> string" where
  "tmp_path p = p @ ''.tmp''"

text \<open>\<open>set\<close> with the outcome of \<open>mkdir\<close>, \<open>writeFile\<close> and \<open>rename\<close>: the in-memory value changes first, and
  an exception leaves the file operations that succeeded in place. A failed write may leave a torn
  temporary file.\<close>

record set_io =
  mkdir_ok :: bool
  write_ok :: bool
  write_torn :: bool
  rename_ok :: bool

definition cursor_set :: "set_io \<Rightarrow> 'v \<Rightarrow> 'v Cursor \<Rightarrow> 'v disk \<Rightarrow> 'v Cursor \<times> 'v disk \<times> unit res" where
  "cursor_set io v c d =
     (let c' = c\<lparr>cur_value := Some v\<rparr>;
          tmp = tmp_path (filePath c) in
      if \<not> mkdir_ok io then (c', d, Inl (Error ''mkdir failed''))
      else if \<not> write_ok io
      then (c', (if write_torn io then d(tmp \<mapsto> TornText) else d), Inl (Error ''write failed''))
      else let d1 = d(tmp \<mapsto> JsonText v) in
           if \<not> rename_ok io then (c', d1, Inl (Error ''rename failed''))
           else (c', (d1(filePath c := d1 tmp))(tmp := None), Inr ()))"

section \<open>Crash safety of the rename protocol\<close>

datatype 'v pc = Idle | Mkdir 'v | Writing 'v | Renaming 'v

text \<open>State: the disk, the program counter of a \<open>set\<close> in progress, and the in-memory value.\<close>

type_synonym 'v cstate = "'v disk \<times> 'v pc \<times> 'v option"

inductive cursor_step :: "string \<Rightarrow> 'v cstate \<Rightarrow> 'v cstate \<Rightarrow> bool" for p :: string where
  set_call: "cursor_step p (d, Idle, m) (d, Mkdir v, Some v)"
| mkdir_done: "cursor_step p (d, Mkdir v, m) (d, Writing v, m)"
| mkdir_fail: "cursor_step p (d, Mkdir v, m) (d, Idle, m)"
| write_part: "cursor_step p (d, Writing v, m) (d(tmp_path p \<mapsto> TornText), Writing v, m)"
| write_done: "cursor_step p (d, Writing v, m) (d(tmp_path p \<mapsto> JsonText v), Renaming v, m)"
| write_fail: "cursor_step p (d, Writing v, m) (d, Idle, m)"
| rename_done: "d (tmp_path p) = Some t \<Longrightarrow>
    cursor_step p (d, Renaming v, m) ((d(p \<mapsto> t))(tmp_path p := None), Idle, m)"
| rename_fail: "cursor_step p (d, Renaming v, m) (d, Idle, m)"
| crash: "cursor_step p (d, pc, m) (d, Idle, None)"

inductive_cases cursor_stepE: "cursor_step p s s'"

lemma tmp_path_neq [simp]: "tmp_path p \<noteq> p" "p \<noteq> tmp_path p"
  by (simp_all add: tmp_path_def)

text \<open>The file is as it was or the text of a complete value; while a rename is due the temporary file
  is complete.\<close>

definition cursor_inv :: "string \<Rightarrow> 'v file_content option \<Rightarrow> 'v cstate \<Rightarrow> bool" where
  "cursor_inv p f0 = (\<lambda>(d, pc, m).
     (d p = f0 \<or> (\<exists>v. d p = Some (JsonText v))) \<and>
     (\<forall>v. pc = Renaming v \<longrightarrow> d (tmp_path p) = Some (JsonText v)))"

lemma cursor_step_inv: "cursor_step p s s' \<Longrightarrow> cursor_inv p f0 s \<Longrightarrow> cursor_inv p f0 s'"
  by (induction rule: cursor_step.induct) (auto simp: cursor_inv_def)

lemma cursor_steps_inv:
  "(cursor_step p)\<^sup>*\<^sup>* s s' \<Longrightarrow> cursor_inv p f0 s \<Longrightarrow> cursor_inv p f0 s'"
  by (induction rule: rtranclp_induct) (auto intro: cursor_step_inv)

text \<open>The function \<open>cursor_set\<close> takes steps of the relation.\<close>

lemma cursor_set_steps:
  assumes "cursor_set io v c d = (c', d', r)" "filePath c = p"
  shows "(cursor_step p)\<^sup>*\<^sup>* (d, Idle, cur_value c) (d', Idle, cur_value c')"
proof -
  let ?m = "Some v"
  have c': "cur_value c' = ?m" using assms(1) by (auto simp: cursor_set_def Let_def split: if_splits)
  have a: "(cursor_step p)\<^sup>*\<^sup>* (d, Idle, cur_value c) (d, Mkdir v, ?m)"
    by (rule r_into_rtranclp) (rule set_call)
  have b: "(cursor_step p)\<^sup>*\<^sup>* (d, Idle, cur_value c) (d, Writing v, ?m)"
    by (rule rtranclp.rtrancl_into_rtrancl [OF a]) (rule mkdir_done)
  have b': "(cursor_step p)\<^sup>*\<^sup>* (d, Idle, cur_value c) (d(tmp_path p \<mapsto> TornText), Writing v, ?m)"
    by (rule rtranclp.rtrancl_into_rtrancl [OF b]) (rule write_part)
  have e: "(cursor_step p)\<^sup>*\<^sup>* (d, Idle, cur_value c) (d(tmp_path p \<mapsto> JsonText v), Renaming v, ?m)"
    by (rule rtranclp.rtrancl_into_rtrancl [OF b]) (rule write_done)
  show ?thesis
    using assms c' rtranclp.rtrancl_into_rtrancl [OF a mkdir_fail]
      rtranclp.rtrancl_into_rtrancl [OF b write_fail] rtranclp.rtrancl_into_rtrancl [OF b' write_fail]
      rtranclp.rtrancl_into_rtrancl [OF e rename_fail]
      rtranclp.rtrancl_into_rtrancl [OF e rename_done [of _ p "JsonText v"]]
    by (auto simp: cursor_set_def Let_def split: if_splits)
qed

text \<open>C21. Crash safety of the cursor file: whatever sequence of sets, failures, partial writes and
  crashes happens, a file that was absent or complete at the start is absent as before or complete at
  every moment, so that loading it never fails on torn text.\<close>

theorem cursor_never_torn:
  assumes "(cursor_step p)\<^sup>*\<^sup>* (d, Idle, m) (d', pc, m')" "d p \<noteq> Some TornText"
  shows "(d' p = d p \<or> (\<exists>v. d' p = Some (JsonText v)))
    \<and> returns (snd (cursor_load (read_file d' p) (new_Cursor p ini)))"
proof -
  have "cursor_inv p (d p) (d', pc, m')"
    using assms(1) by (rule cursor_steps_inv) (simp add: cursor_inv_def)
  then have one: "d' p = d p \<or> (\<exists>v. d' p = Some (JsonText v))" by (simp add: cursor_inv_def)
  then have "d' p \<noteq> Some TornText" using assms(2) by auto
  then have "returns (snd (cursor_load (read_file d' p) (new_Cursor p ini)))"
    by (auto simp: cursor_load_def read_file_def Let_def split: option.splits file_content.splits)
  with one show ?thesis by simp
qed

definition all_ok :: set_io where
  "all_ok = \<lparr>mkdir_ok = True, write_ok = True, write_torn = False, rename_ok = True\<rparr>"

theorem cursor_never_torn_witness:
  "returns (snd (cursor_load (read_file (Map.empty(tmp_path ''c'' \<mapsto> TornText)) ''c'')
     (new_Cursor ''c'' (None :: nat option))))"
proof -
  have "cursor_set (all_ok\<lparr>write_ok := False, write_torn := True\<rparr>) (7 :: nat) (new_Cursor ''c'' None) Map.empty
      = ((new_Cursor ''c'' None)\<lparr>cur_value := Some 7\<rparr>, Map.empty(tmp_path ''c'' \<mapsto> TornText), Inl (Error ''write failed''))"
    by (simp add: cursor_set_def all_ok_def new_Cursor_def Let_def)
  from cursor_set_steps [OF this, of "''c''"]
  have steps: "(cursor_step ''c'')\<^sup>*\<^sup>* (Map.empty, Idle, None) (Map.empty(tmp_path ''c'' \<mapsto> TornText), Idle, Some (7 :: nat))"
    by (simp add: new_Cursor_def)
  from cursor_never_torn [OF steps, of None] show ?thesis by simp
qed

text \<open>Outcomes of \<open>set\<close>: it succeeds exactly when the three file operations do; then a new process
  loads the value that was set. When it fails the file keeps its old content, but the value in memory
  has advanced all the same.\<close>

theorem cursor_set_outcomes:
  "\<exists>c' d' r. cursor_set io v c d = (c', d', r)
   \<and> cur_value c' = Some v
   \<and> (returns r \<longleftrightarrow> mkdir_ok io \<and> write_ok io \<and> rename_ok io)
   \<and> (returns r \<longrightarrow> snd (cursor_load (read_file d' (filePath c)) (new_Cursor (filePath c) ini)) = Inr (Some v))
   \<and> (\<not> returns r \<longrightarrow> d' (filePath c) = d (filePath c))
   \<and> (\<forall>q. q \<noteq> filePath c \<longrightarrow> q \<noteq> tmp_path (filePath c) \<longrightarrow> d' q = d q)"
  by (auto simp: cursor_set_def cursor_load_def read_file_def Let_def)

theorem cursor_set_outcomes_witness:
  "\<exists>c' d' r. cursor_set all_ok (7 :: nat) (new_Cursor ''c'' None) Map.empty = (c', d', r)
   \<and> returns r \<and> snd (cursor_load (read_file d' ''c'') (new_Cursor ''c'' None)) = Inr (Some 7)"
  using cursor_set_outcomes [of all_ok 7 "new_Cursor ''c'' None" Map.empty None]
  by (auto simp: all_ok_def new_Cursor_def)

end
