(* ===== verification/Pollers.thy ===== *)
theory Pollers
  imports SnapshotStore CursorStore
begin

text \<open>
  \<open>indexer/src/pollOracleSVI.ts\<close> and \<open>indexer/src/pollVaultEvents.ts\<close>: the polling loops that tail the
  chain, apply every event to the store and flush the cursor after each. The RPC answer, the abort
  signal, the clock and the outcome of the file operations are inputs of an iteration. What the two
  pollers share is proved once in the locale \<open>event_sink\<close>, which both interpret.
\<close>

section \<open>The source\<close>

record EventCursor =
  txDigest :: string
  eventSeq :: string

record RawOracleSviUpdated =
  raw_oracle_id :: string
  raw_a :: string
  raw_b :: string
  raw_rho :: RawI64
  raw_m :: RawI64
  raw_sigma :: string
  raw_timestamp_ms :: "string option"

record 'j sui_event =
  evt_id :: EventCursor
  evt_type :: string
  evt_parsedJson :: 'j
  evt_timestampMs :: "string option"

record 'j event_page =
  page_data :: "'j sui_event list"
  hasNextPage :: bool

text \<open>Inputs while one event is processed: the abort flag, two clock readings and the outcome of the
  file operations.\<close>

record event_io =
  io_aborted :: bool
  io_nowApply :: int
  io_nowRing :: int
  io_set :: set_io

record PollState =
  ps_cursor :: "EventCursor Cursor"
  ps_disk :: "EventCursor disk"
  ps_snapshot :: Snapshot
  ps_sent :: "(nat \<times> RingEvent) list"
  failCount :: nat

text \<open>\<open>parsed.timestamp_ms ?? evt.timestampMs ?? '0'\<close>.\<close>

definition payloadTs :: "string option \<Rightarrow> string option \<Rightarrow> string" where
  "payloadTs a b = (case a of Some t \<Rightarrow> t | None \<Rightarrow> (case b of Some t \<Rightarrow> t | None \<Rightarrow> ''0''))"

text \<open>The call of \<open>applyOracleEvent\<close> with its argument expressions, evaluated in order.\<close>

definition apply_oracle ::
  "RawOracleSviUpdated sui_event \<Rightarrow> event_io \<Rightarrow> Snapshot \<Rightarrow> (Snapshot \<times> (nat \<times> RingEvent) list) res" where
  "apply_oracle evt io s =
     (let parsed = evt_parsedJson evt; ts = payloadTs (raw_timestamp_ms parsed) (evt_timestampMs evt) in
      bindE (decodeI64 (raw_rho parsed)) (\<lambda>rho.
      bindE (decodeI64 (raw_m parsed)) (\<lambda>m.
      bindE (BigInt ts) (\<lambda>eventTs.
      Inr (applyOracleEvent
             \<lparr>po_oracle_id = raw_oracle_id parsed, po_a = raw_a parsed, po_b = raw_b parsed,
              po_rho_signed = rho, po_m_signed = m, po_sigma = raw_sigma parsed, po_timestamp_ms = ts\<rparr>
             eventTs (io_nowApply io) (io_nowRing io) s)))))"

definition eventNameFromType :: "string \<Rightarrow> string" where
  "eventNameFromType t = last (split_string ''::'' t)"

definition apply_vault ::
  "json_record sui_event \<Rightarrow> event_io \<Rightarrow> Snapshot \<Rightarrow> (Snapshot \<times> (nat \<times> RingEvent) list) res" where
  "apply_vault evt io s =
     (let name = eventNameFromType (evt_type evt); ts = payloadTs None (evt_timestampMs evt) in
      bindE (BigInt ts) (\<lambda>eventTs.
      Inr (applyVaultEvent name (evt_parsedJson evt) eventTs (io_nowRing io) s)))"

datatype page_result = PageDone | PageAborted | PageFailed js_error

text \<open>The \<open>for\<close> loop over a page. \<open>apply\<close> is one of the two applications above.\<close>

fun run_page ::
  "('j sui_event \<Rightarrow> event_io \<Rightarrow> Snapshot \<Rightarrow> (Snapshot \<times> (nat \<times> RingEvent) list) res)
   \<Rightarrow> (nat \<Rightarrow> event_io) \<Rightarrow> 'j sui_event list \<Rightarrow> PollState \<Rightarrow> page_result \<times> PollState" where
  "run_page apply ios [] st = (PageDone, st)"
| "run_page apply ios (evt # evts) st =
     (let io = ios 0 in
      if io_aborted io then (PageAborted, st)
      else case apply evt io (ps_snapshot st) of
        Inl err \<Rightarrow> (PageFailed err, st)
      | Inr (snap, sent) \<Rightarrow>
          (case cursor_set (io_set io) (evt_id evt) (ps_cursor st) (ps_disk st) of
             (cursor, disk, r) \<Rightarrow>
               let st' = st\<lparr>ps_snapshot := snap, ps_sent := ps_sent st @ sent,
                            ps_cursor := cursor, ps_disk := disk\<rparr>
               in (case r of
                     Inl err \<Rightarrow> (PageFailed err, st')
                   | Inr _ \<Rightarrow> run_page apply (\<lambda>i. ios (Suc i)) evts st')))"

definition poll_backoff :: "nat \<Rightarrow> int" where
  "poll_backoff k = min (2000 * 2 ^ (k - 1)) 30000"

datatype poll_action = Return | Sleep int | Again

text \<open>One turn of the \<open>while\<close> loop. \<open>aborted\<close> is the test at the head, \<open>abortedCatch\<close> the test in the
  \<open>catch\<close> block.\<close>

definition poll_error :: "bool \<Rightarrow> PollState \<Rightarrow> poll_action \<times> PollState" where
  "poll_error abortedCatch st =
     (if abortedCatch then (Return, st)
      else let st' = st\<lparr>failCount := failCount st + 1\<rparr>
           in (Sleep (poll_backoff (failCount st')), st'))"

record 'j poll_input =
  in_aborted :: bool
  in_query :: "EventCursor option \<Rightarrow> 'j event_page res"
  in_ios :: "nat \<Rightarrow> event_io"
  in_abortedCatch :: bool

definition poll_turn ::
  "('j sui_event \<Rightarrow> event_io \<Rightarrow> Snapshot \<Rightarrow> (Snapshot \<times> (nat \<times> RingEvent) list) res)
   \<Rightarrow> int \<Rightarrow> 'j poll_input \<Rightarrow> PollState \<Rightarrow> poll_action \<times> PollState" where
  "poll_turn apply pollMs i st =
     (if in_aborted i then (Return, st)
      else case in_query i (cur_value (ps_cursor st)) of
        Inl err \<Rightarrow> poll_error (in_abortedCatch i) st
      | Inr result \<Rightarrow>
          (case run_page apply (in_ios i) (page_data result) st of
             (PageAborted, st') \<Rightarrow> (Return, st')
           | (PageFailed err, st') \<Rightarrow> poll_error (in_abortedCatch i) st'
           | (PageDone, st') \<Rightarrow>
               ((if hasNextPage result then Again else Sleep pollMs), st'\<lparr>failCount := 0\<rparr>)))"

text \<open>The loop over a finite sequence of turns; it ends at \<open>Return\<close>.\<close>

fun poll_loop ::
  "('j sui_event \<Rightarrow> event_io \<Rightarrow> Snapshot \<Rightarrow> (Snapshot \<times> (nat \<times> RingEvent) list) res)
   \<Rightarrow> int \<Rightarrow> 'j poll_input list \<Rightarrow> PollState \<Rightarrow> PollState" where
  "poll_loop apply pollMs [] st = st"
| "poll_loop apply pollMs (i # is) st =
     (case poll_turn apply pollMs i st of
        (Return, st') \<Rightarrow> st'
      | (_, st') \<Rightarrow> poll_loop apply pollMs is st')"

definition pollOracleSVI :: "int \<Rightarrow> RawOracleSviUpdated poll_input list \<Rightarrow> PollState \<Rightarrow> PollState" where
  "pollOracleSVI pollMs = poll_loop apply_oracle pollMs"

definition pollVaultEvents :: "int \<Rightarrow> json_record poll_input list \<Rightarrow> PollState \<Rightarrow> PollState" where
  "pollVaultEvents pollMs = poll_loop apply_vault pollMs"

section \<open>Backoff\<close>

text \<open>The delay after the k-th consecutive failure lies between two and thirty seconds, never
  decreases with k, and is thirty seconds from the fifth failure on.\<close>

theorem poll_backoff_bounds:
  "2000 \<le> poll_backoff k \<and> poll_backoff k \<le> 30000 \<and> poll_backoff k \<le> poll_backoff (k + 1)
   \<and> poll_backoff (k + 5) = 30000"
proof -
  define x y z :: int where "x = 2 ^ (k - 1)" and "y = 2 ^ k" and "z = 2 ^ (k + 4)"
  have "1 \<le> x" "x \<le> y" by (simp_all add: x_def y_def)
  moreover have "16 \<le> z" using one_le_power [of "2::int" k] by (simp add: z_def power_add)
  moreover have "poll_backoff k = min (2000 * x) 30000" "poll_backoff (k + 1) = min (2000 * y) 30000"
    "poll_backoff (k + 5) = min (2000 * z) 30000"
    by (simp_all add: poll_backoff_def x_def y_def z_def add.commute)
  ultimately show ?thesis by auto
qed

section \<open>Event names\<close>

lemma eventNameFromType_qualified:
  assumes "CHR '':'' \<notin> set n" "p = [] \<or> last p \<noteq> CHR '':''"
  shows "eventNameFromType (p @ ''::'' @ n) = n"
  unfolding eventNameFromType_def split_string_def
  using assms by (intro split_last) auto

section \<open>The contract of an event sink\<close>

text \<open>Positions on the chain: after \<open>n\<close> events the cursor is the identifier of the last of them. The RPC
  answers a query at such a cursor with the events that follow it, in order; this is the documented
  behaviour of \<open>queryEvents\<close> with \<open>order: 'ascending'\<close>.\<close>

definition cursor_at :: "'j sui_event list \<Rightarrow> nat \<Rightarrow> EventCursor option" where
  "cursor_at chain n = (if n = 0 then None else Some (evt_id (chain ! (n - 1))))"

definition serves :: "'j sui_event list \<Rightarrow> (EventCursor option \<Rightarrow> 'j event_page res) \<Rightarrow> bool" where
  "serves chain q \<longleftrightarrow>
     (\<forall>n \<le> length chain. \<forall>pg. q (cursor_at chain n) = Inr pg \<longrightarrow> prefix (page_data pg) (drop n chain))"

definition apply_ops :: "snap_op list \<Rightarrow> Snapshot \<Rightarrow> Snapshot" where
  "apply_ops ops s = fold (\<lambda>op s. fst (snap_step op s)) ops s"

fun ops_sent :: "snap_op list \<Rightarrow> Snapshot \<Rightarrow> (nat \<times> RingEvent) list" where
  "ops_sent [] s = []"
| "ops_sent (op # ops) s = snd (snap_step op s) @ ops_sent ops (fst (snap_step op s))"

text \<open>The operations of a page: event \<open>k\<close> with the inputs of its turn.\<close>

definition page_ops :: "('j sui_event \<Rightarrow> event_io \<Rightarrow> snap_op) \<Rightarrow> (nat \<Rightarrow> event_io) \<Rightarrow> 'j sui_event list \<Rightarrow> snap_op list" where
  "page_ops as_op ios evts = map (\<lambda>k. as_op (evts ! k) (ios k)) [0..<length evts]"

lemma page_ops_simps [simp]:
  "page_ops as_op ios [] = []"
  "page_ops as_op ios (e # es) = as_op e (ios 0) # page_ops as_op (\<lambda>i. ios (Suc i)) es"
  by (simp_all add: page_ops_def upt_conv_Cons map_Suc_upt [symmetric] del: upt_Suc)

text \<open>\<open>tail_sync\<close>: the snapshot is the start snapshot with the events from position \<open>b\<close> to \<open>n\<close> applied
  once each, in chain order, and the cursor stands at \<open>n\<close>.\<close>

definition tail_sync ::
  "('j sui_event \<Rightarrow> event_io \<Rightarrow> snap_op) \<Rightarrow> 'j sui_event list \<Rightarrow> nat \<Rightarrow> Snapshot \<Rightarrow> nat \<Rightarrow> PollState \<Rightarrow> bool" where
  "tail_sync as_op chain b s0 n st \<longleftrightarrow>
     b \<le> n \<and> n \<le> length chain \<and> cur_value (ps_cursor st) = cursor_at chain n
     \<and> (\<exists>ios. length ios = n - b
          \<and> ps_snapshot st = apply_ops (map2 as_op (take (n - b) (drop b chain)) ios) s0)"

locale event_sink =
  fixes app :: "'j sui_event \<Rightarrow> event_io \<Rightarrow> Snapshot \<Rightarrow> (Snapshot \<times> (nat \<times> RingEvent) list) res"
    and as_op :: "'j sui_event \<Rightarrow> event_io \<Rightarrow> snap_op"
    and good :: "'j sui_event \<Rightarrow> bool"
  assumes app_good: "good e \<Longrightarrow> app e io s = Inr (snap_step (as_op e io) s)"
    and app_bad: "\<not> good e \<Longrightarrow> \<exists>err. app e io s = Inl err"
begin

lemma app_Inr: "app e io s = Inr r \<Longrightarrow> good e \<and> r = snap_step (as_op e io) s"
  by (metis app_bad app_good sum.distinct(1) sum.inject(2))

lemma sync_event:
  assumes "tail_sync as_op chain b s0 n st" "n < length chain"
    and "app (chain ! n) io (ps_snapshot st) = Inr (snap, sent)"
    and "cursor_set sio (evt_id (chain ! n)) (ps_cursor st) (ps_disk st) = (c, d, r)"
  shows "tail_sync as_op chain b s0 (Suc n)
    (st\<lparr>ps_snapshot := snap, ps_sent := ps_sent st @ sent, ps_cursor := c, ps_disk := d\<rparr>)"
proof -
  obtain ios where ios: "length ios = n - b" "b \<le> n"
    "ps_snapshot st = apply_ops (map2 as_op (take (n - b) (drop b chain)) ios) s0"
    using assms(1) by (auto simp: tail_sync_def)
  have "take (Suc n - b) (drop b chain) = take (n - b) (drop b chain) @ [chain ! n]"
    using ios(2) assms(2) by (simp add: Suc_diff_le take_Suc_conv_app_nth)
  moreover have "snap = fst (snap_step (as_op (chain ! n) io) (ps_snapshot st))"
    using app_Inr [OF assms(3)] by (metis fst_conv)
  moreover have "cur_value c = Some (evt_id (chain ! n))"
    using assms(4) by (auto simp: cursor_set_def Let_def split: if_splits)
  ultimately show ?thesis
    using ios assms(2) unfolding tail_sync_def
    by (auto simp: cursor_at_def apply_ops_def intro!: exI [of _ "ios @ [io]"])
qed

lemma run_page_sync:
  assumes "tail_sync as_op chain b s0 n st" "prefix evts (drop n chain)"
    and "run_page app ios evts st = (res, st')"
  shows "\<exists>n' \<ge> n. tail_sync as_op chain b s0 n' st' \<and> (\<forall>i. n \<le> i \<longrightarrow> i < n' \<longrightarrow> good (chain ! i))"
  using assms
proof (induction evts arbitrary: ios st n)
  case Nil
  then show ?case by (auto intro!: exI [of _ n])
next
  case (Cons evt evts)
  have "drop n chain \<noteq> []" "hd (drop n chain) = evt"
    using Cons.prems(2) by (auto simp: prefix_def)
  then have n: "n < length chain" "chain ! n = evt" by (simp_all add: hd_drop_conv_nth)
  then have rest: "prefix evts (drop (Suc n) chain)"
    using Cons.prems(2) by (simp add: Cons_nth_drop_Suc [symmetric])
  show ?case
  proof (cases "io_aborted (ios 0)")
    case True
    then show ?thesis using Cons.prems by (auto intro!: exI [of _ n])
  next
    case False
    show ?thesis
    proof (cases "app evt (ios 0) (ps_snapshot st)")
      case (Inl err)
      with False Cons.prems show ?thesis by (auto intro!: exI [of _ n])
    next
      case (Inr p)
      obtain snap sent where p: "p = (snap, sent)" by (cases p)
      obtain c d r where w: "cursor_set (io_set (ios 0)) (evt_id evt) (ps_cursor st) (ps_disk st) = (c, d, r)"
        by (cases "cursor_set (io_set (ios 0)) (evt_id evt) (ps_cursor st) (ps_disk st)")
      define st1 where "st1 = st\<lparr>ps_snapshot := snap, ps_sent := ps_sent st @ sent, ps_cursor := c, ps_disk := d\<rparr>"
      have sync: "tail_sync as_op chain b s0 (Suc n) st1"
        unfolding st1_def using Cons.prems(1) n Inr w p by (intro sync_event) auto
      have g: "good (chain ! n)" using app_Inr [OF Inr] n by simp
      show ?thesis
      proof (cases r)
        case (Inl err)
        with Cons.prems(3) False Inr p w have "st' = st1" by (simp add: st1_def Let_def)
        with sync g show ?thesis by (auto intro!: exI [of _ "Suc n"] simp: less_Suc_eq)
      next
        case ok: (Inr u)
        with Cons.prems(3) False Inr p w have "run_page app (\<lambda>i. ios (Suc i)) evts st1 = (res, st')"
          by (simp add: st1_def Let_def)
        from Cons.IH [OF sync rest this] obtain n' where n': "Suc n \<le> n'"
          "tail_sync as_op chain b s0 n' st'" "\<forall>i. Suc n \<le> i \<longrightarrow> i < n' \<longrightarrow> good (chain ! i)" by blast
        have "good (chain ! i)" if "n \<le> i" "i < n'" for i
          using g n'(3) that by (cases "i = n") auto
        with n'(1,2) show ?thesis by (intro exI [of _ n']) auto
      qed
    qed
  qed
qed

text \<open>Progress: a page of good events, without aborts and with working file operations, is applied
  completely and in order, every subscriber is told of each event, and the last identifier is on disk.\<close>

lemma run_page_done:
  assumes "\<forall>e \<in> set evts. good e"
    and "\<forall>i. \<not> io_aborted (ios i) \<and> mkdir_ok (io_set (ios i)) \<and> write_ok (io_set (ios i)) \<and> rename_ok (io_set (ios i))"
  shows "\<exists>st'. run_page app ios evts st = (PageDone, st')
    \<and> filePath (ps_cursor st') = filePath (ps_cursor st)
    \<and> ps_snapshot st' = apply_ops (page_ops as_op ios evts) (ps_snapshot st)
    \<and> ps_sent st' = ps_sent st @ ops_sent (page_ops as_op ios evts) (ps_snapshot st)
    \<and> (evts \<noteq> [] \<longrightarrow> cur_value (ps_cursor st') = Some (evt_id (last evts))
          \<and> ps_disk st' (filePath (ps_cursor st)) = Some (JsonText (evt_id (last evts))))"
  using assms
proof (induction evts arbitrary: ios st)
  case (Cons evt evts)
  obtain snap sent where a: "app evt (ios 0) (ps_snapshot st) = Inr (snap, sent)"
    using app_good [of evt "ios 0" "ps_snapshot st"] Cons.prems(1) by (metis list.set_intros(1) surj_pair)
  then have op: "snap_step (as_op evt (ios 0)) (ps_snapshot st) = (snap, sent)" using app_Inr by metis
  obtain c d r where w: "cursor_set (io_set (ios 0)) (evt_id evt) (ps_cursor st) (ps_disk st) = (c, d, r)"
    by (cases "cursor_set (io_set (ios 0)) (evt_id evt) (ps_cursor st) (ps_disk st)")
  have c: "r = Inr ()" "filePath c = filePath (ps_cursor st)" "cur_value c = Some (evt_id evt)"
    "d (filePath (ps_cursor st)) = Some (JsonText (evt_id evt))"
    using w Cons.prems(2) by (auto simp: cursor_set_def Let_def)
  define st1 where "st1 = st\<lparr>ps_snapshot := snap, ps_sent := ps_sent st @ sent, ps_cursor := c, ps_disk := d\<rparr>"
  have step: "run_page app ios (evt # evts) st = run_page app (\<lambda>i. ios (Suc i)) evts st1"
    using a w c(1) Cons.prems(2) by (simp add: st1_def Let_def)
  obtain st' where "run_page app (\<lambda>i. ios (Suc i)) evts st1 = (PageDone, st')"
    "filePath (ps_cursor st') = filePath (ps_cursor st1)"
    "ps_snapshot st' = apply_ops (page_ops as_op (\<lambda>i. ios (Suc i)) evts) (ps_snapshot st1)"
    "ps_sent st' = ps_sent st1 @ ops_sent (page_ops as_op (\<lambda>i. ios (Suc i)) evts) (ps_snapshot st1)"
    "evts \<noteq> [] \<longrightarrow> cur_value (ps_cursor st') = Some (evt_id (last evts))
          \<and> ps_disk st' (filePath (ps_cursor st1)) = Some (JsonText (evt_id (last evts)))"
    using Cons.IH [of "\<lambda>i. ios (Suc i)" st1] Cons.prems by auto
  with step c op show ?case by (cases "evts = []") (auto simp: st1_def apply_ops_def)
qed (simp add: apply_ops_def)

lemma tail_sync_fail [simp]:
  "tail_sync as_op chain b s0 n (st\<lparr>failCount := k\<rparr>) = tail_sync as_op chain b s0 n st"
  by (simp add: tail_sync_def)

lemma poll_turn_sync:
  assumes "tail_sync as_op chain b s0 n st" "serves chain (in_query i)"
    and "poll_turn app pollMs i st = (act, st')"
  shows "\<exists>n' \<ge> n. tail_sync as_op chain b s0 n' st' \<and> (\<forall>i. n \<le> i \<longrightarrow> i < n' \<longrightarrow> good (chain ! i))"
proof (cases "in_aborted i \<or> (\<exists>err. in_query i (cur_value (ps_cursor st)) = Inl err)")
  case True
  with assms show ?thesis
    by (auto simp: poll_turn_def poll_error_def Let_def intro!: exI [of _ n] split: if_splits)
next
  case False
  then obtain pg where pg: "in_query i (cur_value (ps_cursor st)) = Inr pg" "\<not> in_aborted i"
    by (cases "in_query i (cur_value (ps_cursor st))") auto
  then have "prefix (page_data pg) (drop n chain)"
    using assms(1,2) by (auto simp: tail_sync_def serves_def)
  moreover obtain res st1 where r: "run_page app (in_ios i) (page_data pg) st = (res, st1)"
    by (cases "run_page app (in_ios i) (page_data pg) st")
  ultimately obtain n' where n': "n \<le> n'" "tail_sync as_op chain b s0 n' st1"
    "\<forall>i. n \<le> i \<longrightarrow> i < n' \<longrightarrow> good (chain ! i)"
    using run_page_sync [OF assms(1)] by blast
  have "\<exists>k. st' = st1\<lparr>failCount := k\<rparr>"
    using assms(3) pg r by (cases res)
      (auto simp: poll_turn_def poll_error_def Let_def split: if_splits intro: exI [of _ "failCount st1"])
  with n' show ?thesis by auto
qed

lemma poll_loop_sync:
  assumes "tail_sync as_op chain b s0 n st" "\<forall>i \<in> set is. serves chain (in_query i)"
  shows "\<exists>n' \<ge> n. tail_sync as_op chain b s0 n' (poll_loop app pollMs is st)
    \<and> (\<forall>i. n \<le> i \<longrightarrow> i < n' \<longrightarrow> good (chain ! i))"
  using assms
proof (induction "is" arbitrary: st n)
  case (Cons i "is")
  obtain act st1 where t: "poll_turn app pollMs i st = (act, st1)" by (cases "poll_turn app pollMs i st")
  obtain n1 where n1: "n \<le> n1" "tail_sync as_op chain b s0 n1 st1"
    "\<forall>i. n \<le> i \<longrightarrow> i < n1 \<longrightarrow> good (chain ! i)"
    using poll_turn_sync [OF Cons.prems(1) _ t] Cons.prems(2) by auto
  show ?case
  proof (cases "act = Return")
    case True
    with t n1 show ?thesis by auto
  next
    case False
    then have "poll_loop app pollMs (i # is) st = poll_loop app pollMs is st1"
      using t by (cases act) auto
    moreover obtain n2 where "n1 \<le> n2" "tail_sync as_op chain b s0 n2 (poll_loop app pollMs is st1)"
      "\<forall>i. n1 \<le> i \<longrightarrow> i < n2 \<longrightarrow> good (chain ! i)"
      using Cons.IH [OF n1(2)] Cons.prems(2) by auto
    ultimately show ?thesis using n1 by (intro exI [of _ n2]) (auto simp: not_less [symmetric])
  qed
qed auto

lemma tail_sync_start:
  "cur_value (ps_cursor st) = cursor_at chain b \<Longrightarrow> b \<le> length chain \<Longrightarrow>
   tail_sync as_op chain b (ps_snapshot st) b st"
  by (simp add: tail_sync_def apply_ops_def)

end

section \<open>The two pollers\<close>

definition oracle_good :: "RawOracleSviUpdated sui_event \<Rightarrow> bool" where
  "oracle_good evt \<longleftrightarrow>
     returns (BigInt (magnitude (raw_rho (evt_parsedJson evt))))
     \<and> returns (BigInt (magnitude (raw_m (evt_parsedJson evt))))
     \<and> returns (BigInt (payloadTs (raw_timestamp_ms (evt_parsedJson evt)) (evt_timestampMs evt)))"

definition oracle_op :: "RawOracleSviUpdated sui_event \<Rightarrow> event_io \<Rightarrow> snap_op" where
  "oracle_op evt io =
     (let parsed = evt_parsedJson evt; ts = payloadTs (raw_timestamp_ms parsed) (evt_timestampMs evt)
      in OracleOp
           \<lparr>po_oracle_id = raw_oracle_id parsed, po_a = raw_a parsed, po_b = raw_b parsed,
            po_rho_signed = projr (decodeI64 (raw_rho parsed)),
            po_m_signed = projr (decodeI64 (raw_m parsed)), po_sigma = raw_sigma parsed,
            po_timestamp_ms = ts\<rparr>
           (projr (BigInt ts)) (io_nowApply io) (io_nowRing io))"

definition vault_good :: "json_record sui_event \<Rightarrow> bool" where
  "vault_good evt \<longleftrightarrow> returns (BigInt (payloadTs None (evt_timestampMs evt)))"

definition vault_op :: "json_record sui_event \<Rightarrow> event_io \<Rightarrow> snap_op" where
  "vault_op evt io =
     VaultOp (eventNameFromType (evt_type evt)) (evt_parsedJson evt)
       (projr (BigInt (payloadTs None (evt_timestampMs evt)))) (io_nowRing io)"

interpretation oracle_poll: event_sink apply_oracle oracle_op oracle_good
proof unfold_locales
  fix e io s
  show "oracle_good e \<Longrightarrow> apply_oracle e io s = Inr (snap_step (oracle_op e io) s)"
    by (auto simp: oracle_good_def apply_oracle_def oracle_op_def decodeI64_def returns_iff Let_def)
  show "\<not> oracle_good e \<Longrightarrow> \<exists>err. apply_oracle e io s = Inl err"
    by (cases "BigInt (magnitude (raw_rho (evt_parsedJson e)))";
        cases "BigInt (magnitude (raw_m (evt_parsedJson e)))")
      (auto simp: oracle_good_def apply_oracle_def decodeI64_def returns_def Let_def split: sum.splits)
qed

interpretation vault_poll: event_sink apply_vault vault_op vault_good
proof unfold_locales
  fix e io s
  show "vault_good e \<Longrightarrow> apply_vault e io s = Inr (snap_step (vault_op e io) s)"
    by (auto simp: vault_good_def apply_vault_def vault_op_def returns_iff Let_def)
  show "\<not> vault_good e \<Longrightarrow> \<exists>err. apply_vault e io s = Inl err"
    by (auto simp: vault_good_def apply_vault_def returns_def Let_def split: sum.splits)
qed

text \<open>C14. The oracle poller applies every event exactly once and in chain order while the process
  lives: for an RPC that answers with the events after the cursor, and whatever aborts, RPC failures
  and failed cursor writes occur, the snapshot is the start snapshot with the events between the start
  position and the cursor applied, none skipped and none repeated.\<close>

theorem pollOracleSVI_exactly_once:
  assumes "\<forall>i \<in> set turns. serves chain (in_query i)"
    and "cur_value (ps_cursor st) = cursor_at chain b" "b \<le> length chain"
  shows "\<exists>n. b \<le> n \<and> n \<le> length chain
    \<and> cur_value (ps_cursor (pollOracleSVI pollMs turns st)) = cursor_at chain n
    \<and> (\<exists>ios. length ios = n - b
         \<and> ps_snapshot (pollOracleSVI pollMs turns st)
            = apply_ops (map2 oracle_op (take (n - b) (drop b chain)) ios) (ps_snapshot st))"
  using oracle_poll.poll_loop_sync [OF oracle_poll.tail_sync_start [OF assms(2,3)] assms(1)]
  unfolding pollOracleSVI_def tail_sync_def by blast

text \<open>The same for the vault pollers, and what a bad event does: an event whose time stamp does not
  parse is never passed. The cursor stays at or before it in every later turn, so the events behind it
  are not applied either; nothing is skipped.\<close>

theorem pollVaultEvents_exactly_once:
  assumes "\<forall>i \<in> set turns. serves chain (in_query i)"
    and "cur_value (ps_cursor st) = cursor_at chain b" "b \<le> length chain"
  shows "\<exists>n. b \<le> n \<and> n \<le> length chain
    \<and> cur_value (ps_cursor (pollVaultEvents pollMs turns st)) = cursor_at chain n
    \<and> (\<forall>j. b \<le> j \<longrightarrow> j < length chain \<longrightarrow> \<not> vault_good (chain ! j) \<longrightarrow> n \<le> j)
    \<and> (\<exists>ios. length ios = n - b
         \<and> ps_snapshot (pollVaultEvents pollMs turns st)
            = apply_ops (map2 vault_op (take (n - b) (drop b chain)) ios) (ps_snapshot st))"
proof -
  obtain n where n: "b \<le> n"
    "tail_sync vault_op chain b (ps_snapshot st) n (poll_loop apply_vault pollMs turns st)"
    "\<forall>i. b \<le> i \<longrightarrow> i < n \<longrightarrow> vault_good (chain ! i)"
    using vault_poll.poll_loop_sync [OF vault_poll.tail_sync_start [OF assms(2,3)] assms(1)] by blast
  have "\<forall>j. b \<le> j \<longrightarrow> j < length chain \<longrightarrow> \<not> vault_good (chain ! j) \<longrightarrow> n \<le> j"
    using n(3) by (meson not_le)
  with n(1,2) show ?thesis unfolding pollVaultEvents_def tail_sync_def by blast
qed

text \<open>C23. Progress and durability of a turn of the oracle poller: when the RPC answers with events that
  decode, the process is not aborted and the file operations work, the whole page is applied: the new
  snapshot is the old one with every event of the page applied once, in the order of the page, and every
  subscriber is told of each; the cursor stands at the last event both in memory and on disk, the
  failure count is reset, and the loop sleeps exactly when there is no further page.\<close>

theorem pollOracleSVI_turn_progress:
  assumes "\<not> in_aborted i" "in_query i (cur_value (ps_cursor st)) = Inr pg" "page_data pg \<noteq> []"
    and "\<forall>e \<in> set (page_data pg). oracle_good e"
    and "\<forall>k. \<not> io_aborted (in_ios i k) \<and> mkdir_ok (io_set (in_ios i k))
          \<and> write_ok (io_set (in_ios i k)) \<and> rename_ok (io_set (in_ios i k))"
  shows "\<exists>st'. poll_turn apply_oracle pollMs i st = ((if hasNextPage pg then Again else Sleep pollMs), st')
    \<and> failCount st' = 0
    \<and> ps_snapshot st' = apply_ops (page_ops oracle_op (in_ios i) (page_data pg)) (ps_snapshot st)
    \<and> ps_sent st' = ps_sent st @ ops_sent (page_ops oracle_op (in_ios i) (page_data pg)) (ps_snapshot st)
    \<and> cur_value (ps_cursor st') = Some (evt_id (last (page_data pg)))
    \<and> ps_disk st' (filePath (ps_cursor st)) = Some (JsonText (evt_id (last (page_data pg))))"
proof -
  obtain st1 where "run_page apply_oracle (in_ios i) (page_data pg) st = (PageDone, st1)"
    "ps_snapshot st1 = apply_ops (page_ops oracle_op (in_ios i) (page_data pg)) (ps_snapshot st)"
    "ps_sent st1 = ps_sent st @ ops_sent (page_ops oracle_op (in_ios i) (page_data pg)) (ps_snapshot st)"
    "cur_value (ps_cursor st1) = Some (evt_id (last (page_data pg)))"
    "ps_disk st1 (filePath (ps_cursor st)) = Some (JsonText (evt_id (last (page_data pg))))"
    using oracle_poll.run_page_done [OF assms(4,5)] assms(3) by blast
  then show ?thesis using assms(1,2) by (simp add: poll_turn_def)
qed

section \<open>Concrete runs\<close>

definition demo_id :: EventCursor where
  "demo_id = \<lparr>txDigest = ''tx1'', eventSeq = ''0''\<rparr>"

definition demo_oracle_evt :: "RawOracleSviUpdated sui_event" where
  "demo_oracle_evt =
     \<lparr>evt_id = demo_id, evt_type = ''0x1::oracle::OracleSVIUpdated'',
      evt_parsedJson = \<lparr>raw_oracle_id = ''0xo'', raw_a = ''1'', raw_b = ''2'',
        raw_rho = \<lparr>magnitude = ''3'', is_negative = True\<rparr>,
        raw_m = \<lparr>magnitude = ''4'', is_negative = False\<rparr>, raw_sigma = ''5'',
        raw_timestamp_ms = None\<rparr>,
      evt_timestampMs = Some ''1700000000000''\<rparr>"

definition demo_vault_evt :: "json_record sui_event" where
  "demo_vault_evt = \<lparr>evt_id = demo_id, evt_type = ''0x1::supply::Supplied'', evt_parsedJson = [],
     evt_timestampMs = Some ''12x''\<rparr>"

definition demo_io :: event_io where
  "demo_io = \<lparr>io_aborted = False, io_nowApply = 0, io_nowRing = 0, io_set = all_ok\<rparr>"

definition demo_turn :: "'j sui_event \<Rightarrow> 'j poll_input" where
  "demo_turn e = \<lparr>in_aborted = False,
     in_query = (\<lambda>c. Inr \<lparr>page_data = (if c = None then [e] else []), hasNextPage = False\<rparr>),
     in_ios = (\<lambda>_. demo_io), in_abortedCatch = False\<rparr>"

definition demo_state :: PollState where
  "demo_state = \<lparr>ps_cursor = new_Cursor ''c'' None, ps_disk = Map.empty, ps_snapshot = new_Snapshot,
     ps_sent = [], failCount = 3\<rparr>"

lemma demo_turn_serves: "serves [e] (in_query (demo_turn e))"
  by (auto simp: serves_def demo_turn_def cursor_at_def)

lemma demo_oracle_good: "oracle_good demo_oracle_evt"
  by (simp add: oracle_good_def demo_oracle_evt_def payloadTs_def BigInt_def trim_def is_space_def
      digits_value_def char_digit_def)

lemma demo_vault_bad: "\<not> vault_good demo_vault_evt"
  by (simp add: vault_good_def demo_vault_evt_def payloadTs_def BigInt_def trim_def is_space_def
      digits_value_def char_digit_def)

theorem pollOracleSVI_exactly_once_witness:
  "\<exists>n \<le> 1. cur_value (ps_cursor (pollOracleSVI 2000 [demo_turn demo_oracle_evt] demo_state))
     = cursor_at [demo_oracle_evt] n"
proof -
  have "cur_value (ps_cursor demo_state) = cursor_at [demo_oracle_evt] 0"
    by (simp add: demo_state_def new_Cursor_def cursor_at_def)
  with pollOracleSVI_exactly_once [of "[demo_turn demo_oracle_evt]" "[demo_oracle_evt]" demo_state 0 2000]
    demo_turn_serves show ?thesis by auto
qed

theorem pollVaultEvents_exactly_once_witness:
  "cur_value (ps_cursor (pollVaultEvents 2000 [demo_turn demo_vault_evt, demo_turn demo_vault_evt] demo_state))
     = None"
proof -
  have "cur_value (ps_cursor demo_state) = cursor_at [demo_vault_evt] 0"
    by (simp add: demo_state_def new_Cursor_def cursor_at_def)
  then obtain n where "cur_value (ps_cursor (pollVaultEvents 2000 [demo_turn demo_vault_evt, demo_turn demo_vault_evt]
      demo_state)) = cursor_at [demo_vault_evt] n"
    "\<forall>j. 0 \<le> j \<longrightarrow> j < 1 \<longrightarrow> \<not> vault_good ([demo_vault_evt] ! j) \<longrightarrow> n \<le> j"
    using pollVaultEvents_exactly_once [of "[demo_turn demo_vault_evt, demo_turn demo_vault_evt]"
        "[demo_vault_evt]" demo_state 0 2000] demo_turn_serves by auto
  with demo_vault_bad show ?thesis by (simp add: cursor_at_def)
qed

theorem pollOracleSVI_turn_progress_witness:
  "\<exists>st'. poll_turn apply_oracle 2000 (demo_turn demo_oracle_evt) demo_state = (Sleep 2000, st')
    \<and> failCount st' = 0 \<and> ps_snapshot st' = fst (snap_step (oracle_op demo_oracle_evt demo_io) new_Snapshot)
    \<and> cur_value (ps_cursor st') = Some demo_id \<and> ps_disk st' ''c'' = Some (JsonText demo_id)"
proof -
  have q: "in_query (demo_turn demo_oracle_evt) (cur_value (ps_cursor demo_state))
      = Inr \<lparr>page_data = [demo_oracle_evt], hasNextPage = False\<rparr>"
    by (simp add: demo_turn_def demo_state_def new_Cursor_def)
  have i: "\<not> in_aborted (demo_turn demo_oracle_evt)" "in_ios (demo_turn demo_oracle_evt) = (\<lambda>_. demo_io)"
    "\<not> io_aborted demo_io" "io_set demo_io = all_ok" "ps_snapshot demo_state = new_Snapshot"
    "filePath (ps_cursor demo_state) = ''c''" "evt_id demo_oracle_evt = demo_id"
    by (simp_all add: demo_turn_def demo_io_def demo_state_def new_Cursor_def demo_oracle_evt_def)
  show ?thesis using pollOracleSVI_turn_progress [OF i(1) q, of 2000] demo_oracle_good
    by (simp add: i all_ok_def apply_ops_def) blast
qed

end
