(* ===== verification/WsServer.thy ===== *)
theory WsServer
  imports Pollers
begin

text \<open>
  \<open>indexer/src/wsServer.ts\<close>: the fan-out of the store to WebSocket clients, the heartbeat, the health
  route and the cooperative stop. A socket is its ready state and the frames handed to it, in order.
  The theory proves that what a client has received is always a snapshot frame followed by exactly the
  events applied since, so that ring and events together are a gap-free end of the history.
\<close>

section \<open>The source\<close>

datatype ready_state = OPEN | CLOSING | CLOSED

datatype WsMessage =
    SnapshotMsg FullSnapshot
  | EventMsg string json_record
  | HeartbeatMsg string

type_synonym sockets = "nat \<rightharpoonup> ready_state \<times> WsMessage list"

record Server =
  srv_snapshot :: Snapshot
  srv_sockets :: sockets
  srv_clients :: "nat list"
  heartbeat_on :: bool
  listening :: bool
  stopped :: bool

definition send :: "nat \<Rightarrow> WsMessage \<Rightarrow> sockets \<Rightarrow> sockets" where
  "send ws msg sk =
     (case sk ws of
        Some (OPEN, fr) \<Rightarrow> sk(ws \<mapsto> (OPEN, fr @ [msg]))
      | _ \<Rightarrow> sk)"

definition ws_close :: "nat \<Rightarrow> sockets \<Rightarrow> sockets" where
  "ws_close ws sk =
     (case sk ws of
        Some (OPEN, fr) \<Rightarrow> sk(ws \<mapsto> (CLOSING, fr))
      | _ \<Rightarrow> sk)"

record HealthResponse =
  http_code :: nat
  health_status :: string
  health_cursor :: "EventCursor option"
  health_clients :: nat
  uptime_ms :: int

text \<open>The HTTP handler: \<open>None\<close> is the 404 answer. \<open>cursors.oracle?.value ?? null\<close> is the cursor of the
  oracle stream.\<close>

definition http_request ::
  "string \<Rightarrow> string \<Rightarrow> EventCursor Cursor option \<Rightarrow> int \<Rightarrow> int \<Rightarrow> Server \<Rightarrow> HealthResponse option" where
  "http_request method url oracleCursor now startedAt srv =
     (if method = ''GET'' \<and> url = ''/healthz''
      then Some \<lparr>http_code = 200, health_status = ''ok'',
                 health_cursor = Option.bind oracleCursor cur_value,
                 health_clients = length (srv_clients srv), uptime_ms = now - startedAt\<rparr>
      else None)"

text \<open>The \<open>connection\<close> handler for a new socket.\<close>

definition on_connection :: "nat \<Rightarrow> int \<Rightarrow> Server \<Rightarrow> Server" where
  "on_connection ws now srv =
     (let sk = (srv_sockets srv)(ws \<mapsto> (OPEN, []));
          sk' = send ws (SnapshotMsg (fullSnapshot now (srv_snapshot srv))) sk
      in srv\<lparr>srv_sockets := sk', srv_clients := set_add ws (srv_clients srv),
             srv_snapshot := onEvent ws (srv_snapshot srv)\<rparr>)"

text \<open>The \<open>close\<close> event: the library drops the client and the handler unsubscribes.\<close>

definition socket_closed :: "nat \<Rightarrow> sockets \<Rightarrow> sockets" where
  "socket_closed ws sk = (case sk ws of Some (_, fr) \<Rightarrow> sk(ws \<mapsto> (CLOSED, fr)) | None \<Rightarrow> sk)"

definition on_close :: "nat \<Rightarrow> Server \<Rightarrow> Server" where
  "on_close ws srv =
     srv\<lparr>srv_sockets := socket_closed ws (srv_sockets srv),
         srv_clients := set_delete ws (srv_clients srv),
         srv_snapshot := unsubscribe ws (srv_snapshot srv)\<rparr>"

definition on_error :: "nat \<Rightarrow> Server \<Rightarrow> Server" where
  "on_error ws srv = srv\<lparr>srv_sockets := ws_close ws (srv_sockets srv)\<rparr>"

text \<open>The per-client subscriber \<open>evt => send(ws, { type: 'event', ... })\<close>, called by \<open>emit\<close>.\<close>

definition deliver :: "(nat \<times> RingEvent) list \<Rightarrow> sockets \<Rightarrow> sockets" where
  "deliver ds sk = fold (\<lambda>(ws, e). send ws (EventMsg (ev_name e) (ev_data e))) ds sk"

definition on_store :: "snap_op \<Rightarrow> Server \<Rightarrow> Server" where
  "on_store op srv =
     (case snap_step op (srv_snapshot srv) of
        (s, ds) \<Rightarrow> srv\<lparr>srv_snapshot := s, srv_sockets := deliver ds (srv_sockets srv)\<rparr>)"

definition heartbeat :: "int \<Rightarrow> Server \<Rightarrow> Server" where
  "heartbeat now srv =
     (if heartbeat_on srv
      then srv\<lparr>srv_sockets := fold (\<lambda>ws. send ws (HeartbeatMsg (int_toString now))) (srv_clients srv) (srv_sockets srv)\<rparr>
      else srv)"

definition stop :: "Server \<Rightarrow> Server" where
  "stop srv =
     (if stopped srv then srv
      else srv\<lparr>stopped := True, heartbeat_on := False,
              srv_sockets := fold ws_close (srv_clients srv) (srv_sockets srv), listening := False\<rparr>)"

definition startWsServer :: "Snapshot \<Rightarrow> Server" where
  "startWsServer snapshot =
     \<lparr>srv_snapshot = snapshot, srv_sockets = Map.empty, srv_clients = [], heartbeat_on = True,
      listening = True, stopped = False\<rparr>"

section \<open>Runs of the server\<close>

text \<open>The server takes a connection only while it listens, on a socket that did not exist before; the
  store is changed only by events and by the vault slot, never by foreign subscriptions.\<close>

fun store_op :: "snap_op \<Rightarrow> bool" where
  "store_op (SubscribeOp _) = False"
| "store_op (UnsubscribeOp _) = False"
| "store_op _ = True"

inductive ws_step :: "Server \<Rightarrow> snap_op list \<Rightarrow> Server \<Rightarrow> bool" where
  connect: "listening srv \<Longrightarrow> srv_sockets srv ws = None \<Longrightarrow> ws_step srv [] (on_connection ws now srv)"
| close: "ws_step srv [] (on_close ws srv)"
| error: "ws_step srv [] (on_error ws srv)"
| store: "store_op op \<Longrightarrow> ws_step srv [op] (on_store op srv)"
| beat: "ws_step srv [] (heartbeat now srv)"
| stopping: "ws_step srv [] (stop srv)"

inductive_cases ws_stepE: "ws_step srv ops srv'"

text \<open>Reachable states with the store operations performed so far.\<close>

inductive ws_reach :: "snap_op list \<Rightarrow> Server \<Rightarrow> bool" where
  init: "ws_reach [] (startWsServer new_Snapshot)"
| step: "ws_reach ops srv \<Longrightarrow> ws_step srv new srv' \<Longrightarrow> ws_reach (ops @ new) srv'"

section \<open>What a client has received\<close>

definition event_pair :: "RingEvent \<Rightarrow> string \<times> json_record" where
  "event_pair e = (ev_name e, ev_data e)"

fun event_frames :: "WsMessage list \<Rightarrow> (string \<times> json_record) list" where
  "event_frames [] = []"
| "event_frames (EventMsg n d # fr) = (n, d) # event_frames fr"
| "event_frames (_ # fr) = event_frames fr"

lemma event_frames_append [simp]: "event_frames (xs @ ys) = event_frames xs @ event_frames ys"
  by (induction xs rule: event_frames.induct) auto

text \<open>\<open>client_view h fr\<close>: the frames are a snapshot, taken at a moment that splits the history \<open>h\<close>, then
  the events after that moment; heartbeats may be interspersed, no second snapshot is.\<close>

definition is_snapshot :: "WsMessage \<Rightarrow> bool" where
  "is_snapshot m = (case m of SnapshotMsg _ \<Rightarrow> True | _ \<Rightarrow> False)"

definition client_view :: "RingEvent list \<Rightarrow> WsMessage list \<Rightarrow> bool" where
  "client_view h fr \<longleftrightarrow>
     (\<exists>fs rest h1 h2. fr = SnapshotMsg fs # rest \<and> h = h1 @ h2 \<and> suffix (fs_ring_buffer fs) h1
        \<and> length (fs_ring_buffer fs) \<le> RING_MAX_COUNT
        \<and> event_frames rest = map event_pair h2 \<and> (\<forall>m \<in> set rest. \<not> is_snapshot m))"

lemma client_view_event:
  "client_view h fr \<Longrightarrow> client_view (h @ [e]) (fr @ [EventMsg (ev_name e) (ev_data e)])"
  unfolding client_view_def
proof (elim exE conjE)
  fix fs rest h1 h2
  assume "fr = SnapshotMsg fs # rest" "h = h1 @ h2" "suffix (fs_ring_buffer fs) h1"
    "length (fs_ring_buffer fs) \<le> RING_MAX_COUNT" "event_frames rest = map event_pair h2" "\<forall>m \<in> set rest. \<not> is_snapshot m"
  then show "\<exists>fs' rest' h1' h2'. fr @ [EventMsg (ev_name e) (ev_data e)] = SnapshotMsg fs' # rest'
      \<and> h @ [e] = h1' @ h2' \<and> suffix (fs_ring_buffer fs') h1'
      \<and> length (fs_ring_buffer fs') \<le> RING_MAX_COUNT \<and> event_frames rest' = map event_pair h2'
      \<and> (\<forall>m \<in> set rest'. \<not> is_snapshot m)"
    by (intro exI [of _ fs] exI [of _ "rest @ [EventMsg (ev_name e) (ev_data e)]"] exI [of _ h1] exI [of _ "h2 @ [e]"])
      (auto simp: event_pair_def is_snapshot_def)
qed

lemma client_view_heartbeat: "client_view h fr \<Longrightarrow> client_view h (fr @ [HeartbeatMsg t])"
  unfolding client_view_def
proof (elim exE conjE)
  fix fs rest h1 h2
  assume "fr = SnapshotMsg fs # rest" "h = h1 @ h2" "suffix (fs_ring_buffer fs) h1"
    "length (fs_ring_buffer fs) \<le> RING_MAX_COUNT" "event_frames rest = map event_pair h2" "\<forall>m \<in> set rest. \<not> is_snapshot m"
  then show "\<exists>fs' rest' h1' h2'. fr @ [HeartbeatMsg t] = SnapshotMsg fs' # rest'
      \<and> h = h1' @ h2' \<and> suffix (fs_ring_buffer fs') h1'
      \<and> length (fs_ring_buffer fs') \<le> RING_MAX_COUNT \<and> event_frames rest' = map event_pair h2'
      \<and> (\<forall>m \<in> set rest'. \<not> is_snapshot m)"
    by (intro exI [of _ fs] exI [of _ "rest @ [HeartbeatMsg t]"] exI [of _ h1] exI [of _ h2])
      (auto simp: is_snapshot_def)
qed

lemma client_view_connect:
  "suffix (fs_ring_buffer fs) h \<Longrightarrow> length (fs_ring_buffer fs) \<le> RING_MAX_COUNT \<Longrightarrow>
   client_view h [SnapshotMsg fs]"
  unfolding client_view_def by (auto intro!: exI [of _ "[]"])

text \<open>The invariant of a run.\<close>

definition ws_inv :: "snap_op list \<Rightarrow> Server \<Rightarrow> bool" where
  "ws_inv ops srv \<longleftrightarrow>
     suffix (ring (srv_snapshot srv)) (history ops)
     \<and> length (ring (srv_snapshot srv)) \<le> RING_MAX_COUNT
     \<and> distinct (subscribers (srv_snapshot srv)) \<and> distinct (srv_clients srv)
     \<and> (\<forall>ws fr. srv_sockets srv ws = Some (OPEN, fr) \<longrightarrow>
           ws \<in> set (subscribers (srv_snapshot srv)) \<and> ws \<in> set (srv_clients srv)
           \<and> client_view (history ops) fr)
     \<and> (stopped srv \<longrightarrow> \<not> listening srv \<and> \<not> heartbeat_on srv \<and> (\<forall>ws fr. srv_sockets srv ws \<noteq> Some (OPEN, fr)))
     \<and> (\<forall>ws st fr. srv_sockets srv ws = Some (st, fr) \<longrightarrow>
           (\<exists>h. prefix h (history ops) \<and> client_view h fr))"

lemma ws_inv_past:
  "ws_inv ops srv \<Longrightarrow> srv_sockets srv ws = Some (st, fr) \<Longrightarrow> \<exists>h. prefix h (history ops) \<and> client_view h fr"
  unfolding ws_inv_def by blast

lemma ws_inv_open:
  "ws_inv ops srv \<Longrightarrow> srv_sockets srv ws = Some (OPEN, fr) \<Longrightarrow>
   ws \<in> set (subscribers (srv_snapshot srv)) \<and> ws \<in> set (srv_clients srv)
   \<and> client_view (history ops) fr"
  unfolding ws_inv_def by blast

lemma ws_inv_stopped:
  "ws_inv ops srv \<Longrightarrow> stopped srv \<Longrightarrow>
   \<not> listening srv \<and> \<not> heartbeat_on srv \<and> srv_sockets srv ws \<noteq> Some (OPEN, fr)"
  unfolding ws_inv_def by blast

lemma fold_send:
  assumes "distinct xs"
  shows "fold (\<lambda>ws. send ws m) xs sk ws =
    (case sk ws of
       Some (OPEN, fr) \<Rightarrow> Some (OPEN, fr @ (if ws \<in> set xs then [m] else []))
     | r \<Rightarrow> r)"
  using assms
proof (induction xs arbitrary: sk)
  case (Cons x xs)
  then show ?case
    by (auto simp: send_def split: option.splits prod.splits ready_state.splits)
qed (auto split: option.splits prod.splits ready_state.splits)

lemma fold_ws_close:
  "fold ws_close xs sk ws =
    (case sk ws of
       Some (OPEN, fr) \<Rightarrow> Some (if ws \<in> set xs then CLOSING else OPEN, fr)
     | r \<Rightarrow> r)"
proof (induction xs arbitrary: sk)
  case (Cons x xs)
  then show ?case
    by (auto simp: ws_close_def split: option.splits prod.splits ready_state.splits)
qed (auto split: option.splits prod.splits ready_state.splits)

lemma deliver_emit:
  "deliver (emit e s) sk = fold (\<lambda>ws. send ws (EventMsg (ev_name e) (ev_data e))) (subscribers s) sk"
  unfolding deliver_def emit_def by (simp add: fold_map comp_def)

lemma history_snoc [simp]: "history (ops @ [op]) = history ops @ op_events op"
  by (simp add: history_def)

text \<open>A store operation either emits its one event to the current subscribers or changes only the
  vault slot.\<close>

lemma store_op_cases:
  assumes "store_op op"
  obtains e s' where "op_events op = [e]" "snap_step op s = (s', emit e s')"
      "subscribers s' = subscribers s" "\<And>h. suffix (ring s) h \<Longrightarrow> suffix (ring s') (h @ [e])"
      "length (ring s') \<le> RING_MAX_COUNT"
  | v where "op_events op = []" "snap_step op s = (s\<lparr>vault := v\<rparr>, [])"
proof (cases op)
  case (OracleOp p ts n1 n2)
  then show ?thesis using that(1) [of "oracle_event (surface_of p ts n1)"]
    by (simp add: applyOracleEvent_def Let_def suffix_push evict_length del: suffix_snoc)
next
  case (VaultOp name d ts n2)
  then show ?thesis using that(1) [of "\<lparr>ev_name = name, ev_ts_ms = int_toString ts, ev_data = d\<rparr>"]
    by (simp add: applyVaultEvent_def Let_def suffix_push evict_length del: suffix_snoc)
next
  case (SetVaultOp v)
  then show ?thesis using that(2) [of v] by (simp add: setVaultState_def)
qed (use assms in auto)

lemma ws_inv_broadcast:
  assumes "ws_inv ops srv" "op_events op = [e]" "subscribers s' = subscribers (srv_snapshot srv)"
    and "suffix (ring s') (history ops @ [e])" "length (ring s') \<le> RING_MAX_COUNT"
  shows "ws_inv (ops @ [op]) (srv\<lparr>srv_snapshot := s', srv_sockets := deliver (emit e s') (srv_sockets srv)\<rparr>)"
proof -
  let ?m = "EventMsg (ev_name e) (ev_data e)"
  have d: "distinct (subscribers s')" using assms(1,3) by (simp add: ws_inv_def)
  have sk: "deliver (emit e s') (srv_sockets srv) ws =
      (case srv_sockets srv ws of
         Some (OPEN, fr) \<Rightarrow> Some (OPEN, fr @ (if ws \<in> set (subscribers s') then [?m] else []))
       | r \<Rightarrow> r)" for ws
    unfolding deliver_emit by (rule fold_send [OF d])
  have was: "\<exists>fr'. srv_sockets srv ws = Some (OPEN, fr')"
    if "deliver (emit e s') (srv_sockets srv) ws = Some (OPEN, fr)" for ws fr
    using that by (auto simp: sk split: option.splits prod.splits ready_state.splits)
  have op: "ws \<in> set (subscribers s') \<and> ws \<in> set (srv_clients srv) \<and> client_view (history ops @ [e]) fr"
    if "deliver (emit e s') (srv_sockets srv) ws = Some (OPEN, fr)" for ws fr
  proof -
    from was [OF that] obtain fr' where fr': "srv_sockets srv ws = Some (OPEN, fr')" by blast
    with ws_inv_open [OF assms(1) fr'] that client_view_event assms(3) show ?thesis by (auto simp: sk)
  qed
  have st: "stopped srv \<longrightarrow> \<not> listening srv \<and> \<not> heartbeat_on srv
      \<and> (\<forall>ws fr. deliver (emit e s') (srv_sockets srv) ws \<noteq> Some (OPEN, fr))"
    using ws_inv_stopped [OF assms(1)] was by blast
  have old: "\<exists>h. prefix h (history ops @ [e]) \<and> client_view h fr"
    if "deliver (emit e s') (srv_sockets srv) ws = Some (st, fr)" for ws st fr
  proof (cases "st = OPEN")
    case True
    with op that show ?thesis by blast
  next
    case False
    with that have "srv_sockets srv ws = Some (st, fr)"
      by (auto simp: sk split: option.splits prod.splits ready_state.splits)
    from ws_inv_past [OF assms(1) this] show ?thesis by (metis prefix_snoc)
  qed
  show ?thesis using assms op old st unfolding ws_inv_def by (simp del: suffix_snoc prefix_snoc)
qed

lemma ws_inv_store:
  assumes "ws_inv ops srv" "store_op op"
  shows "ws_inv (ops @ [op]) (on_store op srv)"
proof (rule store_op_cases [OF assms(2), of "srv_snapshot srv"])
  fix e s'
  assume "op_events op = [e]" "snap_step op (srv_snapshot srv) = (s', emit e s')"
    "subscribers s' = subscribers (srv_snapshot srv)"
    "\<And>h. suffix (ring (srv_snapshot srv)) h \<Longrightarrow> suffix (ring s') (h @ [e])"
    "length (ring s') \<le> RING_MAX_COUNT"
  then show ?thesis using assms(1) ws_inv_broadcast [of ops srv op e s']
    by (simp add: on_store_def ws_inv_def del: suffix_snoc)
next
  fix v
  assume "op_events op = []" "snap_step op (srv_snapshot srv) = ((srv_snapshot srv)\<lparr>vault := v\<rparr>, [])"
  then show ?thesis using assms(1) by (simp add: on_store_def ws_inv_def deliver_def)
qed

lemma ws_inv_heartbeat:
  assumes "ws_inv ops srv"
  shows "ws_inv ops (heartbeat now srv)"
proof -
  have d: "distinct (srv_clients srv)" using assms by (simp add: ws_inv_def)
  let ?m = "HeartbeatMsg (int_toString now)"
  let ?sk = "fold (\<lambda>ws. send ws ?m) (srv_clients srv) (srv_sockets srv)"
  have was: "\<exists>fr'. srv_sockets srv ws = Some (OPEN, fr')" if "?sk ws = Some (OPEN, fr)" for ws fr
    using that by (auto simp: fold_send [OF d] split: option.splits prod.splits ready_state.splits)
  have op: "ws \<in> set (subscribers (srv_snapshot srv)) \<and> ws \<in> set (srv_clients srv) \<and> client_view (history ops) fr"
    if "?sk ws = Some (OPEN, fr)" for ws fr
    using that ws_inv_open [OF assms, of ws] client_view_heartbeat
    by (auto simp: fold_send [OF d] split: option.splits prod.splits ready_state.splits)
  have "\<exists>h. prefix h (history ops) \<and> client_view h fr" if "?sk ws = Some (st, fr)" for ws st fr
  proof (cases "st = OPEN")
    case True
    with op that show ?thesis by blast
  next
    case False
    with that have "srv_sockets srv ws = Some (st, fr)"
      by (auto simp: fold_send [OF d] split: option.splits prod.splits ready_state.splits)
    from ws_inv_past [OF assms this] show ?thesis .
  qed
  moreover have "stopped srv \<longrightarrow> \<not> listening srv \<and> \<not> heartbeat_on srv \<and> (\<forall>ws fr. ?sk ws \<noteq> Some (OPEN, fr))"
    using ws_inv_stopped [OF assms] was by blast
  ultimately show ?thesis using op assms unfolding ws_inv_def heartbeat_def by auto
qed

lemma ws_inv_stop: "ws_inv ops srv \<Longrightarrow> ws_inv ops (stop srv)"
  unfolding ws_inv_def stop_def
  by (auto simp: fold_ws_close split: option.splits prod.splits ready_state.splits if_splits)

lemma ws_inv_error: "ws_inv ops srv \<Longrightarrow> ws_inv ops (on_error ws srv)"
  unfolding ws_inv_def on_error_def ws_close_def
  by (auto split: option.splits prod.splits ready_state.splits if_splits)

lemma ws_inv_close: "ws_inv ops srv \<Longrightarrow> ws_inv ops (on_close ws srv)"
  unfolding ws_inv_def on_close_def socket_closed_def unsubscribe_def
  by (auto split: option.splits prod.splits ready_state.splits if_splits)

lemma ws_inv_connection:
  assumes "ws_inv ops srv" "srv_sockets srv ws = None" "listening srv"
  shows "ws_inv ops (on_connection ws now srv)"
proof -
  have "client_view (history ops) [SnapshotMsg (fullSnapshot now (srv_snapshot srv))]"
    using assms(1) by (intro client_view_connect) (simp_all add: ws_inv_def fullSnapshot_def)
  then show ?thesis
    using assms unfolding ws_inv_def on_connection_def onEvent_def send_def Let_def
    by (auto split: if_splits)
qed

lemma ws_reach_inv: "ws_reach ops srv \<Longrightarrow> ws_inv ops srv"
proof (induction rule: ws_reach.induct)
  case init
  show ?case by (simp add: ws_inv_def startWsServer_def new_Snapshot_def history_def)
next
  case (step ops srv new srv')
  from step.hyps(2) step.IH show ?case
    by (cases rule: ws_step.cases)
      (auto intro: ws_inv_connection ws_inv_close ws_inv_error ws_inv_store ws_inv_heartbeat ws_inv_stop)
qed

lemma client_replay:
  assumes "ws_reach ops srv" "srv_sockets srv ws = Some (state, frames)"
  shows "\<exists>fs rest h. frames = SnapshotMsg fs # rest \<and> (\<forall>m \<in> set rest. \<not> is_snapshot m)
    \<and> prefix h (history ops) \<and> (state = OPEN \<longrightarrow> h = history ops)
    \<and> length (fs_ring_buffer fs) \<le> RING_MAX_COUNT
    \<and> suffix (map event_pair (fs_ring_buffer fs) @ event_frames rest) (map event_pair h)"
proof -
  note inv = ws_reach_inv [OF assms(1)]
  obtain h where h: "prefix h (history ops)" "client_view h frames" "state = OPEN \<longrightarrow> h = history ops"
    using ws_inv_past [OF inv assms(2)] ws_inv_open [OF inv] assms(2)
    by (metis prefix_order.refl)
  then obtain fs rest h1 h2 where v: "frames = SnapshotMsg fs # rest" "h = h1 @ h2"
    "suffix (fs_ring_buffer fs) h1" "length (fs_ring_buffer fs) \<le> RING_MAX_COUNT" "event_frames rest = map event_pair h2"
    "\<forall>m \<in> set rest. \<not> is_snapshot m"
    unfolding client_view_def by blast
  from v(3) obtain z where "h1 = z @ fs_ring_buffer fs" by (auto simp: suffix_def)
  then have "suffix (map event_pair (fs_ring_buffer fs) @ event_frames rest) (map event_pair h)"
    using v by (simp add: suffix_def)
  with h v show ?thesis by blast
qed

text \<open>C4. Replay without a gap: in every reachable state of the server, the first frame of a client is a
  snapshot and there is no other; its ring followed by the event frames the client has received is an
  end of the history of applied events. For an open client it is an end of the whole history up to
  now, for a closing or closed one of an earlier part of it.\<close>

theorem client_replay_gap_free:
  assumes "ws_reach ops srv" "srv_sockets srv ws = Some (state, frames)"
  shows "\<exists>fs rest h. frames = SnapshotMsg fs # rest \<and> (\<forall>m \<in> set rest. \<not> is_snapshot m)
    \<and> prefix h (history ops) \<and> (state = OPEN \<longrightarrow> h = history ops)
    \<and> length (fs_ring_buffer fs) \<le> RING_MAX_COUNT
    \<and> suffix (map event_pair (fs_ring_buffer fs) @ event_frames rest) (map event_pair h)"
  using client_replay [OF assms] .

text \<open>The cooperative stop is final: afterwards no client is open, the server does not listen, the
  heartbeat and later events send nothing, and stopping again changes nothing.\<close>

theorem stop_is_final:
  assumes "ws_reach ops srv"
  shows "(\<forall>ws frames. srv_sockets (stop srv) ws \<noteq> Some (OPEN, frames))
    \<and> \<not> listening (stop srv) \<and> heartbeat now (stop srv) = stop srv \<and> stop (stop srv) = stop srv
    \<and> (store_op op \<longrightarrow> srv_sockets (on_store op (stop srv)) = srv_sockets (stop srv))"
proof -
  have inv: "ws_inv ops (stop srv)" by (rule ws_inv_stop [OF ws_reach_inv [OF assms]])
  have st: "stopped (stop srv)" by (simp add: stop_def)
  note q = ws_inv_stopped [OF inv st]
  have quiet: "fold (\<lambda>ws. send ws m) xs (srv_sockets (stop srv)) = srv_sockets (stop srv)" for m xs
    using q by (induction xs) (auto simp: send_def split: option.splits prod.splits ready_state.splits)
  have "srv_sockets (on_store op (stop srv)) = srv_sockets (stop srv)" if "store_op op"
    by (rule store_op_cases [OF that, of "srv_snapshot (stop srv)"])
      (auto simp: on_store_def deliver_emit quiet, simp add: deliver_def)
  with q st show ?thesis by (auto simp: heartbeat_def) (simp add: stop_def)
qed

section \<open>A concrete run\<close>

definition demo_server :: Server where
  "demo_server = on_store (VaultOp ''Supplied'' [] 5 5) (on_connection 1 0 (startWsServer new_Snapshot))"

lemma demo_server_reach: "ws_reach [VaultOp ''Supplied'' [] 5 5] demo_server"
proof -
  have "ws_reach ([] @ []) (on_connection 1 0 (startWsServer new_Snapshot))"
    by (rule ws_reach.step [OF ws_reach.init]) (rule ws_step.connect, simp_all add: startWsServer_def)
  then have "ws_reach (([] @ []) @ [VaultOp ''Supplied'' [] 5 5]) demo_server"
    unfolding demo_server_def by (rule ws_reach.step) (rule ws_step.store, simp)
  then show ?thesis by simp
qed

lemma demo_server_frames:
  "srv_sockets demo_server 1 =
     Some (OPEN, [SnapshotMsg (fullSnapshot 0 new_Snapshot), EventMsg ''Supplied'' []])"
  by (simp add: demo_server_def on_store_def applyVaultEvent_def Let_def on_connection_def
      startWsServer_def onEvent_def send_def deliver_emit new_Snapshot_def set_add_def)

theorem client_replay_gap_free_witness:
  "\<exists>fs rest. [SnapshotMsg (fullSnapshot 0 new_Snapshot), EventMsg ''Supplied'' []] = SnapshotMsg fs # rest
    \<and> suffix (map event_pair (fs_ring_buffer fs) @ event_frames rest)
         (map event_pair (history [VaultOp ''Supplied'' [] 5 5]))"
  using client_replay_gap_free [OF demo_server_reach demo_server_frames] by auto

theorem stop_is_final_witness:
  "srv_sockets (stop demo_server) 1 \<noteq> Some (OPEN, []) \<and> stop (stop demo_server) = stop demo_server"
  using stop_is_final [OF demo_server_reach] by blast

end
