(* ===== verification/Relay.thy ===== *)
theory Relay
  imports WsServer
begin

text \<open>
  \<open>indexer/src/relay.ts\<close>: the boot sequence. The model lists the effects of \<open>main\<close> in order; what is
  proved is that the server is bound before anything polls, that an undeployed package is served
  without polling, and that a deployed one starts one loop per stream, each on its own cursor file.
\<close>

datatype stream = oracle_stream | supply_stream | redeem_stream | rebalance_stream | vault_stream

fun stream_name :: "stream \<Rightarrow> string" where
  "stream_name oracle_stream = ''oracle''"
| "stream_name supply_stream = ''supply''"
| "stream_name redeem_stream = ''redeem''"
| "stream_name rebalance_stream = ''rebalance''"
| "stream_name vault_stream = ''vault''"

definition dataPath :: "(string \<Rightarrow> string) \<Rightarrow> string \<Rightarrow> string" where
  "dataPath resolve file = resolve (''data/'' @ file)"

definition all_streams :: "stream list" where
  "all_streams = [oracle_stream, supply_stream, redeem_stream, rebalance_stream, vault_stream]"

definition cursor_file :: "(string \<Rightarrow> string) \<Rightarrow> stream \<Rightarrow> string" where
  "cursor_file resolve st = dataPath resolve (''cursor_'' @ stream_name st @ ''.json'')"

text \<open>The package a loop queries: the oracle loop the Predict package, the vault loops the vault package.\<close>

datatype relay_effect =
    StartServer
  | WarnNotDeployed string string
  | WaitForShutdown
  | WarnNoOracleId
  | StartPoll stream string string

definition stream_package :: "DeployJson \<Rightarrow> stream \<Rightarrow> string" where
  "stream_package d st = (if st = oracle_stream then predict_package_id d else package_id d)"

text \<open>\<open>read\<close> gives the outcome of reading a cursor file; a load that throws ends \<open>main\<close> before the server
  starts. \<open>env_oracle\<close> is the environment variable \<open>ORACLE_SVI_ID\<close>; an empty string counts as missing.\<close>

definition load_cursors ::
  "(string \<Rightarrow> string) \<Rightarrow> (string \<Rightarrow> EventCursor read_outcome) \<Rightarrow> (stream \<times> EventCursor Cursor) list res" where
  "load_cursors resolve read =
     foldr (\<lambda>st acc.
        case cursor_load (read (cursor_file resolve st)) (new_Cursor (cursor_file resolve st) None) of
          (c, Inl e) \<Rightarrow> Inl e
        | (c, Inr _) \<Rightarrow> bindE acc (\<lambda>cs. Inr ((st, c) # cs))) all_streams (Inr [])"

definition relay_main ::
  "(string \<Rightarrow> string) \<Rightarrow> DeployJson res \<Rightarrow> (string \<Rightarrow> EventCursor read_outcome) \<Rightarrow> string option
   \<Rightarrow> relay_effect list res" where
  "relay_main resolve deployFile read env_oracle =
     bindE deployFile (\<lambda>deploy.
     bindE (load_cursors resolve read) (\<lambda>cursors.
     Inr (StartServer #
       (if \<not> isDeployed deploy
        then [WarnNotDeployed (status deploy) (package_id deploy), WaitForShutdown]
        else (case (case oracle_svi_id deploy of Some i \<Rightarrow> Some i | None \<Rightarrow> env_oracle) of
                Some i \<Rightarrow> (if i = [] then [WarnNoOracleId] else [])
              | None \<Rightarrow> [WarnNoOracleId])
             @ map (\<lambda>(st, c). StartPoll st (stream_package deploy st) (filePath c)) cursors))))"

lemma cursor_load_path:
  "cursor_load r (new_Cursor p ini) = (c, v) \<Longrightarrow> filePath c = p"
  by (auto simp: cursor_load_def new_Cursor_def Let_def split: read_outcome.splits file_content.splits)

lemma load_cursors_streams:
  assumes "load_cursors resolve read = Inr cs"
  shows "map fst cs = all_streams" "\<forall>(st, c) \<in> set cs. filePath c = cursor_file resolve st"
proof -
  have "foldr (\<lambda>st acc.
        case cursor_load (read (cursor_file resolve st)) (new_Cursor (cursor_file resolve st) None) of
          (c, Inl e) \<Rightarrow> Inl e
        | (c, Inr _) \<Rightarrow> bindE acc (\<lambda>cs. Inr ((st, c) # cs))) sts (Inr []) = Inr cs \<Longrightarrow>
      map fst cs = sts \<and> (\<forall>(st, c) \<in> set cs. filePath c = cursor_file resolve st)" for sts cs
    by (induction sts arbitrary: cs)
      (auto simp: bindE_eq_Inr dest: cursor_load_path split: prod.splits sum.splits)
  with assms show "map fst cs = all_streams" "\<forall>(st, c) \<in> set cs. filePath c = cursor_file resolve st"
    unfolding load_cursors_def by blast+
qed

lemma stream_name_inject: "stream_name a = stream_name b \<longleftrightarrow> a = b"
  by (cases a; cases b) auto

definition polls_of :: "relay_effect list \<Rightarrow> (stream \<times> string \<times> string) list" where
  "polls_of fx = concat (map (\<lambda>e. case e of StartPoll st p f \<Rightarrow> [(st, p, f)] | _ \<Rightarrow> []) fx)"

lemma polls_of_simps [simp]:
  "polls_of [] = []" "polls_of (StartServer # fx) = polls_of fx"
  "polls_of (WarnNotDeployed a b # fx) = polls_of fx" "polls_of (WaitForShutdown # fx) = polls_of fx"
  "polls_of (WarnNoOracleId # fx) = polls_of fx" "polls_of (xs @ ys) = polls_of xs @ polls_of ys"
  "polls_of (map (\<lambda>x. StartPoll (f x) (g x) (h x)) cs) = map (\<lambda>x. (f x, g x, h x)) cs"
  by (simp_all add: polls_of_def) (induction cs; auto)

text \<open>The cursor file names, relative to the data directory; \<open>resolve\<close> keeps them apart.\<close>

definition cursor_names :: "string set" where
  "cursor_names = (\<lambda>st. ''data/'' @ ''cursor_'' @ stream_name st @ ''.json'') ` set all_streams"

lemma cursor_files_distinct:
  assumes "inj_on resolve cursor_names"
  shows "distinct (map (cursor_file resolve) all_streams)"
proof -
  have "inj_on (cursor_file resolve) (set all_streams)"
  proof (rule inj_onI)
    fix x y
    assume "x \<in> set all_streams" "y \<in> set all_streams" "cursor_file resolve x = cursor_file resolve y"
    then have "''data/'' @ ''cursor_'' @ stream_name x @ ''.json'' = ''data/'' @ ''cursor_'' @ stream_name y @ ''.json''"
      using assms unfolding cursor_file_def dataPath_def cursor_names_def by (meson image_eqI inj_onD)
    then show "x = y" by (simp add: stream_name_inject)
  qed
  moreover have "distinct all_streams" by (simp add: all_streams_def)
  ultimately show ?thesis by (simp add: distinct_map)
qed

text \<open>Boot of the relay: the server is bound first in every run that gets past the files. Without a
  deployment nothing polls. With one, exactly the five streams are polled in order, the oracle stream on
  the Predict package and the others on the vault package, each with a cursor file of its own.\<close>

theorem relay_boot:
  assumes "inj_on resolve cursor_names" "relay_main resolve (Inr deploy) read env_oracle = Inr fx"
  shows "hd fx = StartServer
    \<and> (\<not> isDeployed deploy \<longrightarrow> polls_of fx = [])
    \<and> (isDeployed deploy \<longrightarrow>
         map (\<lambda>(st, p, f). (st, p)) (polls_of fx) = map (\<lambda>st. (st, stream_package deploy st)) all_streams
         \<and> map (\<lambda>(st, p, f). f) (polls_of fx) = map (cursor_file resolve) all_streams)
    \<and> distinct (map (cursor_file resolve) all_streams)"
proof -
  obtain cs where cs: "load_cursors resolve read = Inr cs"
    using assms(2) by (auto simp: relay_main_def bindE_eq_Inr)
  note l = load_cursors_streams [OF cs]
  have "map (\<lambda>(st, c). (st, stream_package deploy st)) cs = map (\<lambda>st. (st, stream_package deploy st)) (map fst cs)"
    by (simp add: case_prod_unfold)
  then have a: "map (\<lambda>(st, c). (st, stream_package deploy st)) cs = map (\<lambda>st. (st, stream_package deploy st)) all_streams"
    unfolding l(1) .
  have "map (\<lambda>(st, c). filePath c) cs = map (cursor_file resolve) (map fst cs)"
    using l(2) by (auto simp: case_prod_unfold)
  then have b: "map (\<lambda>(st, c). filePath c) cs = map (cursor_file resolve) all_streams"
    unfolding l(1) .
  have d: "distinct (map (cursor_file resolve) all_streams)"
    by (rule cursor_files_distinct [OF assms(1)])
  show ?thesis
    using assms(2) cs a b d
    by (auto simp: relay_main_def case_prod_unfold comp_def split: option.splits if_splits)
qed

definition demo_deploy :: DeployJson where
  "demo_deploy =
     \<lparr>network = ''testnet'', status = ''deployed'', deployed_at_iso = '''', deploy_tx_digest = '''',
      deployer = '''', package_id = ''0xv'', vault_id = '''', vault_initial_shared_version = 0,
      admin_cap_id = '''', predict_manager_id = '''', predict_manager_initial_shared_version = 0,
      predict_package_id = ''0xp'', predict_registry_id = '''', predict_top_level_id = '''',
      dusdc_type_tag = '''', oracle_svi_id = None\<rparr>"

theorem relay_boot_witness:
  "\<exists>fx. relay_main (\<lambda>x. x) (Inr demo_deploy) (\<lambda>_. ReadENOENT) None = Inr fx
     \<and> hd fx = StartServer \<and> length (polls_of fx) = 5"
proof -
  have "\<exists>fx. relay_main (\<lambda>x. x) (Inr demo_deploy) (\<lambda>_. ReadENOENT) None = Inr fx"
    by (simp add: relay_main_def load_cursors_def all_streams_def cursor_load_def Let_def)
  then obtain fx where fx: "relay_main (\<lambda>x. x) (Inr demo_deploy) (\<lambda>_. ReadENOENT) None = Inr fx" ..
  have "isDeployed demo_deploy" by (simp add: isDeployed_def demo_deploy_def)
  with relay_boot [OF _ fx] have "hd fx = StartServer"
    "map (\<lambda>(st, p, f). f) (polls_of fx) = map (cursor_file (\<lambda>x. x)) all_streams" by auto
  then have "hd fx = StartServer" "length (polls_of fx) = length all_streams" by (simp, metis length_map)
  with fx show ?thesis by (simp add: all_streams_def)
qed

end
