(* ===== verification/DashboardSocket.thy ===== *)
theory DashboardSocket
  imports Relay
begin

text \<open>
  \<open>dashboard/src/lib/wsClient.ts\<close> and \<open>dashboard/src/hooks/useWebSocket.ts\<close>: the reconnecting socket of
  the browser and the hook that keeps the last snapshot and the connection status. The callbacks of the
  socket, the timers, the clock and the random jitter are inputs. The last section composes the hook
  with the relay's server: what the dashboard shows is an end of the relay's history.
\<close>

section \<open>The reconnecting client\<close>

text \<open>Handlers are identifiers; \<open>cl_timer\<close> is the delay of the pending reconnect; \<open>cl_opened\<close> counts the
  sockets constructed so far.\<close>

record WsClient =
  cl_ws :: "nat option"
  attempts :: nat
  cl_timer :: "int option"
  handlers :: "nat list"
  statusHandlers :: "nat list"
  disposed :: bool
  cl_opened :: nat

datatype WsConnectionStatus = conn_open | conn_closed

definition reconnect_delay :: "nat \<Rightarrow> int \<Rightarrow> int" where
  "reconnect_delay k jitter = min (1000 * 2 ^ k) 30000 + jitter"

definition scheduleReconnect :: "int \<Rightarrow> WsClient \<Rightarrow> WsClient" where
  "scheduleReconnect jitter c =
     (if disposed c then c
      else c\<lparr>cl_timer := Some (reconnect_delay (attempts c) jitter), attempts := attempts c + 1\<rparr>)"

text \<open>\<open>ctor_ok\<close>: whether \<open>new WebSocket(url)\<close> returned.\<close>

definition connect :: "bool \<Rightarrow> int \<Rightarrow> WsClient \<Rightarrow> WsClient" where
  "connect ctor_ok jitter c =
     (if disposed c then c
      else if \<not> ctor_ok then scheduleReconnect jitter c
      else c\<lparr>cl_ws := Some (cl_opened c), cl_opened := cl_opened c + 1\<rparr>)"

definition new_WsClient :: "bool \<Rightarrow> bool \<Rightarrow> int \<Rightarrow> WsClient" where
  "new_WsClient autoConnect ctor_ok jitter =
     (let c = \<lparr>cl_ws = None, attempts = 0, cl_timer = None, handlers = [], statusHandlers = [],
               disposed = False, cl_opened = 0\<rparr>
      in if autoConnect then connect ctor_ok jitter c else c)"

definition client_on :: "nat \<Rightarrow> WsClient \<Rightarrow> WsClient" where
  "client_on h c = c\<lparr>handlers := set_add h (handlers c)\<rparr>"

definition client_off :: "nat \<Rightarrow> WsClient \<Rightarrow> WsClient" where
  "client_off h c = c\<lparr>handlers := set_delete h (handlers c)\<rparr>"

definition onStatus :: "nat \<Rightarrow> WsClient \<Rightarrow> WsClient" where
  "onStatus h c = c\<lparr>statusHandlers := set_add h (statusHandlers c)\<rparr>"

definition offStatus :: "nat \<Rightarrow> WsClient \<Rightarrow> WsClient" where
  "offStatus h c = c\<lparr>statusHandlers := set_delete h (statusHandlers c)\<rparr>"

definition emitStatus :: "WsConnectionStatus \<Rightarrow> WsClient \<Rightarrow> (nat \<times> WsConnectionStatus) list" where
  "emitStatus s c = map (\<lambda>h. (h, s)) (statusHandlers c)"

definition ws_onopen :: "WsClient \<Rightarrow> WsClient \<times> (nat \<times> WsConnectionStatus) list" where
  "ws_onopen c = (let c' = c\<lparr>attempts := 0\<rparr> in (c', emitStatus conn_open c'))"

text \<open>A frame that does not parse is dropped.\<close>

definition ws_onmessage :: "WsMessage option \<Rightarrow> WsClient \<Rightarrow> (nat \<times> WsMessage) list" where
  "ws_onmessage frame c = (case frame of None \<Rightarrow> [] | Some m \<Rightarrow> map (\<lambda>h. (h, m)) (handlers c))"

definition ws_onclose :: "int \<Rightarrow> WsClient \<Rightarrow> WsClient \<times> (nat \<times> WsConnectionStatus) list" where
  "ws_onclose jitter c = (scheduleReconnect jitter c, emitStatus conn_closed c)"

definition timer_fires :: "bool \<Rightarrow> int \<Rightarrow> WsClient \<Rightarrow> WsClient" where
  "timer_fires ctor_ok jitter c =
     (if cl_timer c = None then c else connect ctor_ok jitter (c\<lparr>cl_timer := None\<rparr>))"

definition dispose :: "WsClient \<Rightarrow> WsClient" where
  "dispose c = c\<lparr>disposed := True, cl_timer := None, handlers := [], statusHandlers := []\<rparr>"

text \<open>Reconnect delays: the delay of the k-th attempt lies between one and thirty seconds plus the
  jitter of under half a second, it never decreases with the attempt for equal jitter, and it is capped
  from the fifth attempt on. A successful opening starts again from one second.\<close>

theorem reconnect_delay_bounds:
  assumes "0 \<le> jitter" "jitter < 500"
  shows "1000 \<le> reconnect_delay k jitter \<and> reconnect_delay k jitter < 30500
    \<and> reconnect_delay k jitter \<le> reconnect_delay (k + 1) jitter
    \<and> reconnect_delay (k + 5) jitter = 30000 + jitter
    \<and> cl_timer (scheduleReconnect jitter (fst (ws_onopen (c\<lparr>disposed := False\<rparr>)))) = Some (1000 + jitter)"
proof -
  define x y z :: int where "x = 2 ^ k" and "y = 2 ^ (k + 1)" and "z = 2 ^ (k + 5)"
  have "1 \<le> x" "x \<le> y" by (simp_all add: x_def y_def)
  moreover have "32 \<le> z" using one_le_power [of "2::int" k] by (simp add: z_def power_add)
  moreover have "reconnect_delay k jitter = min (1000 * x) 30000 + jitter"
    "reconnect_delay (k + 1) jitter = min (1000 * y) 30000 + jitter"
    "reconnect_delay (k + 5) jitter = min (1000 * z) 30000 + jitter"
    by (simp_all add: reconnect_delay_def x_def y_def z_def)
  moreover have "cl_timer (scheduleReconnect jitter (fst (ws_onopen (c\<lparr>disposed := False\<rparr>)))) = Some (1000 + jitter)"
    by (simp add: scheduleReconnect_def ws_onopen_def Let_def reconnect_delay_def)
  ultimately show ?thesis using assms by auto
qed

theorem reconnect_delay_bounds_witness:
  "reconnect_delay 2 250 < 30500 \<and> reconnect_delay 7 250 = 30250"
  using reconnect_delay_bounds [of 250 2 undefined] by simp

text \<open>Everything that can still happen to a client: callbacks of any socket, the timer, and calls of the
  unsubscribe closures.\<close>

datatype client_event =
    EvOpen | EvMessage "WsMessage option" | EvClose int | EvTimer bool int | EvOff nat | EvOffStatus nat | EvDispose

fun client_step :: "client_event \<Rightarrow> WsClient \<Rightarrow> WsClient \<times> nat list" where
  "client_step EvOpen c = (let (c', ns) = ws_onopen c in (c', map fst ns))"
| "client_step (EvMessage m) c = (c, map fst (ws_onmessage m c))"
| "client_step (EvClose j) c = (let (c', ns) = ws_onclose j c in (c', map fst ns))"
| "client_step (EvTimer ok j) c = (timer_fires ok j c, [])"
| "client_step (EvOff h) c = (client_off h c, [])"
| "client_step (EvOffStatus h) c = (offStatus h c, [])"
| "client_step EvDispose c = (dispose c, [])"

fun client_run :: "client_event list \<Rightarrow> WsClient \<Rightarrow> WsClient \<times> nat list" where
  "client_run [] c = (c, [])"
| "client_run (e # es) c =
     (let (c1, n1) = client_step e c; (c2, n2) = client_run es c1 in (c2, n1 @ n2))"

definition quiet :: "WsClient \<Rightarrow> bool" where
  "quiet c \<longleftrightarrow> disposed c \<and> cl_timer c = None \<and> handlers c = [] \<and> statusHandlers c = []"

lemma quiet_step:
  "quiet c \<Longrightarrow> quiet (fst (client_step e c)) \<and> cl_opened (fst (client_step e c)) = cl_opened c
    \<and> snd (client_step e c) = []"
  by (cases e) (auto simp: quiet_def ws_onopen_def ws_onmessage_def ws_onclose_def timer_fires_def
      client_off_def offStatus_def dispose_def scheduleReconnect_def emitStatus_def set_delete_def Let_def
      split: option.splits)

lemma quiet_run:
  "quiet c \<Longrightarrow> quiet (fst (client_run es c)) \<and> cl_opened (fst (client_run es c)) = cl_opened c
    \<and> snd (client_run es c) = []"
proof (induction es arbitrary: c)
  case (Cons e es)
  then show ?case using quiet_step [OF Cons.prems, of e] Cons.IH [of "fst (client_step e c)"]
    by (auto simp: case_prod_unfold Let_def)
qed simp

text \<open>C27. Disposal is final: after \<open>dispose\<close>, whatever callbacks of old sockets and timers still fire, no
  reconnect is scheduled, no socket is constructed and no handler is called.\<close>

theorem dispose_is_final:
  "cl_timer (fst (client_run es (dispose c))) = None
   \<and> cl_opened (fst (client_run es (dispose c))) = cl_opened c
   \<and> snd (client_run es (dispose c)) = []"
proof -
  have "quiet (dispose c)" "cl_opened (dispose c) = cl_opened c" by (simp_all add: quiet_def dispose_def)
  with quiet_run [of "dispose c" es] show ?thesis by (simp add: quiet_def)
qed

section \<open>The hook\<close>

definition HEARTBEAT_RECONNECT_THRESHOLD_MS :: int where "HEARTBEAT_RECONNECT_THRESHOLD_MS = 30000"
definition HEARTBEAT_DOWN_THRESHOLD_MS :: int where "HEARTBEAT_DOWN_THRESHOLD_MS = 60000"
definition CLIENT_RING_CAP :: nat where "CLIENT_RING_CAP = 100"

datatype WsState = connecting | live | reconnecting | down

record UseWs =
  ws_state :: WsState
  ws_snapshot :: "FullSnapshot option"
  eventCount :: nat
  lastHeartbeatMs :: int
  isConnected :: bool

definition init_UseWs :: "int \<Rightarrow> UseWs" where
  "init_UseWs now = \<lparr>ws_state = connecting, ws_snapshot = None, eventCount = 0, lastHeartbeatMs = now,
     isConnected = False\<rparr>"

text \<open>\<open>while (next.length > CLIENT_RING_CAP) next.shift()\<close>.\<close>

fun cap_ring :: "RingEvent list \<Rightarrow> RingEvent list" where
  "cap_ring [] = []"
| "cap_ring (e # es) = (if length (e # es) > CLIENT_RING_CAP then cap_ring es else e # es)"

definition applyEvent :: "int \<Rightarrow> FullSnapshot \<Rightarrow> string \<Rightarrow> json_record \<Rightarrow> FullSnapshot" where
  "applyEvent now prev name data =
     prev\<lparr>fs_ring_buffer :=
       cap_ring (fs_ring_buffer prev @ [\<lparr>ev_name = name, ev_ts_ms = int_toString now, ev_data = data\<rparr>])\<rparr>"

fun on_message :: "int \<Rightarrow> WsMessage \<Rightarrow> UseWs \<Rightarrow> UseWs" where
  "on_message now (SnapshotMsg d) u = u\<lparr>ws_snapshot := Some d, lastHeartbeatMs := now, ws_state := live\<rparr>"
| "on_message now (EventMsg n d) u =
     u\<lparr>ws_snapshot := map_option (\<lambda>prev. applyEvent now prev n d) (ws_snapshot u),
       eventCount := eventCount u + 1, lastHeartbeatMs := now\<rparr>"
| "on_message now (HeartbeatMsg t) u = u\<lparr>lastHeartbeatMs := now\<rparr>"

fun on_status :: "WsConnectionStatus \<Rightarrow> UseWs \<Rightarrow> UseWs" where
  "on_status conn_open u = u\<lparr>isConnected := True\<rparr>"
| "on_status conn_closed u =
     u\<lparr>isConnected := False, ws_state := (if ws_state u = down then down else reconnecting)\<rparr>"

definition on_tick :: "int \<Rightarrow> UseWs \<Rightarrow> UseWs" where
  "on_tick now u =
     (let age = now - lastHeartbeatMs u in
      if \<not> isConnected u
      then u\<lparr>ws_state := (if age \<ge> HEARTBEAT_DOWN_THRESHOLD_MS then down else reconnecting)\<rparr>
      else if age \<ge> HEARTBEAT_DOWN_THRESHOLD_MS then u\<lparr>ws_state := down\<rparr>
      else if age \<ge> HEARTBEAT_RECONNECT_THRESHOLD_MS then u\<lparr>ws_state := reconnecting\<rparr>
      else if ws_snapshot u \<noteq> None then u\<lparr>ws_state := live\<rparr>
      else u)"

text \<open>Steps of the hook: a message can only arrive on an open socket.\<close>

inductive hook_step :: "UseWs \<Rightarrow> UseWs \<Rightarrow> bool" where
  message: "isConnected u \<Longrightarrow> hook_step u (on_message now m u)"
| status: "hook_step u (on_status s u)"
| tick: "hook_step u (on_tick now u)"

inductive_cases hook_stepE: "hook_step u u'"

lemmas threshold_defs = HEARTBEAT_DOWN_THRESHOLD_MS_def HEARTBEAT_RECONNECT_THRESHOLD_MS_def









text \<open>Before the first socket opens, the first tick already reports \<open>reconnecting\<close>: the status
  \<open>connecting\<close> of the mounted hook does not survive one second of waiting.\<close>

theorem connecting_is_lost:
  assumes "0 \<le> d" "d < 60000"
  shows "ws_state (init_UseWs t0) = connecting \<and> ws_state (on_tick (t0 + d) (init_UseWs t0)) = reconnecting"
  using assms by (simp add: init_UseWs_def on_tick_def threshold_defs)

theorem connecting_is_lost_witness:
  "ws_state (on_tick (7 + 1000) (init_UseWs 7)) = reconnecting"
  using connecting_is_lost [of 1000 7] by simp

section \<open>The dashboard and the relay together\<close>

text \<open>The hook fed with the frames of one connection, each at its own arrival time.\<close>

definition feed :: "(int \<times> WsMessage) list \<Rightarrow> UseWs \<Rightarrow> UseWs" where
  "feed fr u = fold (\<lambda>(now, m). on_message now m) fr u"

lemma cap_ring_drop: "cap_ring r = drop (length r - CLIENT_RING_CAP) r"
  by (induction r) (auto simp: Suc_diff_le)

definition last_n :: "nat \<Rightarrow> 'a list \<Rightarrow> 'a list" where
  "last_n n xs = drop (length xs - n) xs"

lemma last_n_snoc: "0 < n \<Longrightarrow> last_n n (last_n n xs @ [x]) = last_n n (xs @ [x])"
  unfolding last_n_def
  by (cases "length xs < n") (auto simp: not_less Suc_diff_le drop_Suc tl_drop [symmetric]
      simp flip: drop_Suc)

lemma feed_events:
  assumes "ws_snapshot u = Some s" "\<forall>m \<in> snd ` set fr. \<not> is_snapshot m"
    and "length (fs_ring_buffer s) \<le> CLIENT_RING_CAP"
  shows "\<exists>s'. ws_snapshot (feed fr u) = Some s' \<and> fs_oracles s' = fs_oracles s \<and> fs_vault s' = fs_vault s
    \<and> map event_pair (fs_ring_buffer s')
      = last_n CLIENT_RING_CAP (map event_pair (fs_ring_buffer s) @ event_frames (map snd fr))"
  using assms(2)
proof (induction fr rule: rev_induct)
  case Nil
  then show ?case using assms(1,3) by (simp add: feed_def last_n_def)
next
  case (snoc x fr)
  obtain now m where x: "x = (now, m)" by (cases x)
  from snoc obtain s1 where s1: "ws_snapshot (feed fr u) = Some s1" "fs_oracles s1 = fs_oracles s"
    "fs_vault s1 = fs_vault s"
    "map event_pair (fs_ring_buffer s1)
      = last_n CLIENT_RING_CAP (map event_pair (fs_ring_buffer s) @ event_frames (map snd fr))" by auto
  have f: "feed (fr @ [x]) u = on_message now m (feed fr u)" by (simp add: feed_def x)
  show ?case
  proof (cases m)
    case (SnapshotMsg d)
    with snoc.prems x show ?thesis by (simp add: is_snapshot_def)
  next
    case (HeartbeatMsg t)
    with s1 f show ?thesis by (simp add: x)
  next
    case (EventMsg n d)
    have "map event_pair (fs_ring_buffer (applyEvent now s1 n d))
        = last_n CLIENT_RING_CAP (map event_pair (fs_ring_buffer s1) @ [(n, d)])"
      by (simp add: applyEvent_def cap_ring_drop last_n_def drop_map event_pair_def
          CLIENT_RING_CAP_def)
    also have "\<dots> = last_n CLIENT_RING_CAP
        ((map event_pair (fs_ring_buffer s) @ event_frames (map snd fr)) @ [(n, d)])"
      unfolding s1(4) by (rule last_n_snoc) (simp add: CLIENT_RING_CAP_def)
    finally show ?thesis using s1 f EventMsg by (simp add: x) (simp add: applyEvent_def)
  qed
qed

lemma last_n_suffix: "suffix (last_n n xs) xs"
  by (simp add: last_n_def suffix_drop)

text \<open>C29. The dashboard shows an end of the relay's history: a mounted hook fed with every frame an open
  connection has received, at any arrival times, holds a snapshot whose ring, as names and payloads, is
  the last hundred of the replayed and live events, and these are the most recent events the relay has
  applied, in order and without a gap.\<close>

theorem dashboard_ring_is_history_tail:
  assumes "ws_reach ops srv" "srv_sockets srv ws = Some (OPEN, frames)" "map snd arrivals = frames"
  shows "\<exists>s fs rest. ws_snapshot (feed arrivals (init_UseWs t0)) = Some s
    \<and> frames = SnapshotMsg fs # rest
    \<and> map event_pair (fs_ring_buffer s)
       = last_n CLIENT_RING_CAP (map event_pair (fs_ring_buffer fs) @ event_frames rest)
    \<and> suffix (map event_pair (fs_ring_buffer s)) (map event_pair (history ops))"
proof -
  obtain fs rest h where r: "frames = SnapshotMsg fs # rest" "\<forall>m \<in> set rest. \<not> is_snapshot m"
    "h = history ops" "length (fs_ring_buffer fs) \<le> RING_MAX_COUNT"
    "suffix (map event_pair (fs_ring_buffer fs) @ event_frames rest) (map event_pair h)"
    using client_replay [OF assms(1,2)] by blast
  obtain now arr where a: "arrivals = (now, SnapshotMsg fs) # arr" "map snd arr = rest"
    using assms(3) r(1) by (cases arrivals) auto
  define u where "u = on_message now (SnapshotMsg fs) (init_UseWs t0)"
  have f: "feed arrivals (init_UseWs t0) = feed arr u" by (simp add: feed_def a u_def)
  have "\<forall>m \<in> snd ` set arr. \<not> is_snapshot m" using r(2) a(2) by (metis set_map)
  moreover have "length (fs_ring_buffer fs) \<le> CLIENT_RING_CAP"
    using r(4) by (simp add: CLIENT_RING_CAP_def RING_MAX_COUNT_def)
  ultimately obtain s where s: "ws_snapshot (feed arr u) = Some s"
    "map event_pair (fs_ring_buffer s)
      = last_n CLIENT_RING_CAP (map event_pair (fs_ring_buffer fs) @ event_frames rest)"
    using feed_events [of u fs arr] a(2) by (auto simp: u_def)
  have "suffix (map event_pair (fs_ring_buffer s)) (map event_pair (history ops))"
    unfolding s(2) using r(3,5) last_n_suffix suffix_order.trans by blast
  with s f r(1) show ?thesis by auto
qed

theorem dashboard_ring_is_history_tail_witness:
  "\<exists>s. ws_snapshot (feed [(10, SnapshotMsg (fullSnapshot 0 new_Snapshot)), (20, EventMsg ''Supplied'' [])]
          (init_UseWs 0)) = Some s
    \<and> suffix (map event_pair (fs_ring_buffer s)) (map event_pair (history [VaultOp ''Supplied'' [] 5 5]))"
  using dashboard_ring_is_history_tail [OF demo_server_reach demo_server_frames,
      of "[(10, SnapshotMsg (fullSnapshot 0 new_Snapshot)), (20, EventMsg ''Supplied'' [])]" 0]
  by auto

text \<open>Live oracle updates do not reach the surface: between two snapshot frames the hook changes only
  the ring, so the surfaces (and the vault slot) it shows stay those of the connect, although the relay
  has broadcast newer ones as events.\<close>

theorem surface_frozen_between_snapshots:
  assumes "ws_snapshot u = Some s" "\<forall>m \<in> snd ` set arrivals. \<not> is_snapshot m"
    and "length (fs_ring_buffer s) \<le> CLIENT_RING_CAP"
  shows "\<exists>s'. ws_snapshot (feed arrivals u) = Some s' \<and> fs_oracles s' = fs_oracles s \<and> fs_vault s' = fs_vault s"
  using feed_events [OF assms] by blast

theorem surface_frozen_between_snapshots_witness:
  "\<exists>s'. ws_snapshot (feed [(20, EventMsg ''OracleSVIUpdated'' [(''oracle_id'', JStr ''0xo'')])]
     ((init_UseWs 0)\<lparr>ws_snapshot := Some (fullSnapshot 0 new_Snapshot)\<rparr>)) = Some s' \<and> fs_oracles s' = []"
  using surface_frozen_between_snapshots [of "(init_UseWs 0)\<lparr>ws_snapshot := Some (fullSnapshot 0 new_Snapshot)\<rparr>"
      "fullSnapshot 0 new_Snapshot" "[(20, EventMsg ''OracleSVIUpdated'' [(''oracle_id'', JStr ''0xo'')])]"]
  by (auto simp: fullSnapshot_def new_Snapshot_def map_values_def is_snapshot_def)

end
