(* ===== verification/WhatIf.thy ===== *)
theory WhatIf
  imports Svi JsData
begin

text \<open>
  \<open>dashboard/src/lib/whatIf.ts\<close>: parallel shocks of the variance level and of the forward, and the
  profit of a hedge under them. The theory proves that a shock keeps the parameters in the domain of
  the pricer, that no shock means no profit, and that the profit never exceeds the notional.
\<close>

definition shockSviParallel :: "SVIParams \<Rightarrow> js_number \<Rightarrow> SVIParams res" where
  "shockSviParallel svi thetaShockBps =
     (if thetaShockBps = Num 0 then Inr svi
      else bindE (BigInt_of_number thetaShockBps) (\<lambda>bps.
           let delta = (svi_a svi * bps) sdiv 10000; a = svi_a svi + delta
           in Inr (svi\<lparr>svi_a := (if a < 0 then 0 else a)\<rparr>)))"

definition shockedForward :: "int \<Rightarrow> js_number \<Rightarrow> int res" where
  "shockedForward forward spotShockBps =
     (if spotShockBps = Num 0 then Inr forward
      else bindE (BigInt_of_number spotShockBps) (\<lambda>bps.
           let delta = (forward * bps) sdiv 10000; out = forward + delta
           in Inr (if out < 1 then 1 else out)))"

record ShockedQuote =
  hedgeKey :: string
  baselinePrice :: int
  shockedPrice :: int
  baselineNotional :: int
  pnlQuote :: int

definition shockedPnL ::
  "string \<Rightarrow> SVIParams \<Rightarrow> int \<Rightarrow> int \<Rightarrow> int \<Rightarrow> js_number \<Rightarrow> js_number \<Rightarrow> ShockedQuote res" where
  "shockedPnL key svi forward strike notionalQuote thetaShockBps spotShockBps =
     bindE (shockSviParallel svi thetaShockBps) (\<lambda>shockedSvi.
     bindE (shockedForward forward spotShockBps) (\<lambda>shockedFwd.
     bindE (binaryPrice svi forward strike) (\<lambda>baseline.
     bindE (binaryPrice shockedSvi shockedFwd strike) (\<lambda>shocked.
     Inr \<lparr>hedgeKey = key, baselinePrice = baseline, shockedPrice = shocked,
          baselineNotional = notionalQuote,
          pnlQuote = ((shocked - baseline) * notionalQuote) sdiv NAV_SCALE STRATEGY_CONSTANTS\<rparr>))))"

section \<open>The shocks\<close>

lemma shockSviParallel_frame:
  assumes "shockSviParallel svi t = Inr s" "0 \<le> svi_a svi"
  shows "0 \<le> svi_a s" "svi_b s = svi_b svi" "svi_rho s = svi_rho svi" "svi_m s = svi_m svi"
    "svi_sigma s = svi_sigma svi"
  using assms by (cases "t = Num 0"; force simp: shockSviParallel_def Let_def bindE_eq_Inr)+

lemma BigInt_of_number_int [simp]: "BigInt_of_number (Num (rat_of_int i)) = Inr i"
  by (simp add: BigInt_of_number_def)

text \<open>A shock of the variance level by an integer number of basis points: the level is scaled with
  truncation toward zero, it grows with the shock, it never becomes negative, a loss of all or more
  empties it, and the shape parameters are untouched.\<close>

theorem shockSviParallel_level:
  assumes "0 \<le> svi_a svi"
  shows "\<exists>s. shockSviParallel svi (Num (rat_of_int bps)) = Inr s
    \<and> svi_a s = max 0 (svi_a svi + (svi_a svi * bps) sdiv 10000)
    \<and> s = svi\<lparr>svi_a := svi_a s\<rparr>
    \<and> (0 \<le> bps \<longrightarrow> svi_a svi \<le> svi_a s) \<and> (bps \<le> 0 \<longrightarrow> svi_a s \<le> svi_a svi)
    \<and> (bps \<le> - 10000 \<longrightarrow> svi_a s = 0)"
proof -
  define a' where "a' = max 0 (svi_a svi + (svi_a svi * bps) sdiv 10000)"
  have s: "shockSviParallel svi (Num (rat_of_int bps)) = Inr (svi\<lparr>svi_a := a'\<rparr>)"
    using assms by (cases "bps = 0") (auto simp: shockSviParallel_def a'_def Let_def)
  have up: "svi_a svi \<le> a'" if "0 \<le> bps"
    using that assms sdiv_nonneg_result [of "svi_a svi * bps" 10000] by (simp add: a'_def)
  have down: "a' \<le> svi_a svi" if "bps \<le> 0"
    using that assms sdiv_mono [of "svi_a svi * bps" 0 10000] by (simp add: a'_def mult_nonneg_nonpos)
  have zero: "a' = 0" if "bps \<le> - 10000"
  proof -
    have "svi_a svi * bps \<le> svi_a svi * (- 10000)" using that assms by (intro mult_left_mono)
    then have "(svi_a svi * bps) sdiv 10000 \<le> (svi_a svi * (- 10000)) sdiv 10000" by (rule sdiv_mono) simp
    also have "\<dots> = - svi_a svi" using assms sdiv_minus_left [of "svi_a svi * 10000" 10000]
      by (simp add: sdiv_nonneg)
    finally show ?thesis by (simp add: a'_def)
  qed
  show ?thesis
    using s up down zero by (intro exI [of _ "svi\<lparr>svi_a := a'\<rparr>"]) (simp add: a'_def)
qed

theorem shockSviParallel_level_witness:
  "\<exists>s. shockSviParallel golden_A01 (Num (rat_of_int (- 2500))) = Inr s \<and> svi_a s = 30000000"
proof -
  have "(- 100000000000) sdiv (10000 :: int) = - 10000000"
    using sdiv_minus_left [of 100000000000 10000] by (simp add: sdiv_nonneg)
  with shockSviParallel_level [of golden_A01 "- 2500"] show ?thesis by (auto simp: golden_A01_def)
qed

section \<open>Profit\<close>

text \<open>A price is returned only for validated parameters and a positive forward and strike.\<close>

lemma binaryPrice_prob:
  assumes "binaryPrice svi forward strike = Inr p" "0 \<le> svi_a svi" "0 \<le> svi_b svi"
  shows "0 \<le> p \<and> p \<le> F"
proof -
  have "p \<in> range normalCdf"
    using assms(1) by (auto simp: binaryPrice_def bindE_eq_Inr Let_def split: if_splits)
  then show ?thesis using normalCdf_range by auto
qed

text \<open>The profit of a shocked hedge: both prices are probabilities, the profit is bounded by the
  notional in absolute value, and without any shock the two prices agree and the profit is zero.\<close>

theorem shockedPnL_bounds:
  assumes "0 \<le> svi_a svi" "0 \<le> svi_b svi" "0 \<le> notional"
    and "shockedPnL key svi forward strike notional theta spot = Inr q"
  shows "0 \<le> baselinePrice q \<and> baselinePrice q \<le> FLOAT_SCALING
    \<and> 0 \<le> shockedPrice q \<and> shockedPrice q \<le> FLOAT_SCALING
    \<and> \<bar>pnlQuote q\<bar> \<le> notional
    \<and> (theta = Num 0 \<and> spot = Num 0 \<longrightarrow> shockedPrice q = baselinePrice q \<and> pnlQuote q = 0)"
proof -
  obtain s f where s: "shockSviParallel svi theta = Inr s" and f: "shockedForward forward spot = Inr f"
    and b: "binaryPrice svi forward strike = Inr (baselinePrice q)"
    and c: "binaryPrice s f strike = Inr (shockedPrice q)"
    and pnl: "pnlQuote q = ((shockedPrice q - baselinePrice q) * notional) sdiv F"
    using assms(4) by (auto simp: shockedPnL_def bindE_eq_Inr STRATEGY_CONSTANTS_def FLOAT_SCALING_def)
  have pb: "0 \<le> baselinePrice q \<and> baselinePrice q \<le> F" by (rule binaryPrice_prob [OF b assms(1,2)])
  have pc: "0 \<le> shockedPrice q \<and> shockedPrice q \<le> F"
    using binaryPrice_prob [OF c] shockSviParallel_frame [OF s assms(1)] assms(2) by simp
  have "\<bar>shockedPrice q - baselinePrice q\<bar> \<le> F" using pb pc by linarith
  then have "\<bar>(shockedPrice q - baselinePrice q) * notional\<bar> \<le> F * notional"
    using assms(3) by (simp add: abs_mult mult_right_mono)
  then have "\<bar>pnlQuote q\<bar> \<le> notional" unfolding pnl by (simp add: abs_sdiv div_leI)
  moreover have "shockedPrice q = baselinePrice q \<and> pnlQuote q = 0" if "theta = Num 0 \<and> spot = Num 0"
  proof -
    have "s = svi" "f = forward" using that s f by (simp_all add: shockSviParallel_def shockedForward_def)
    with b c have "shockedPrice q = baselinePrice q" by simp
    then show ?thesis by (simp add: pnl)
  qed
  ultimately show ?thesis using pb pc by blast
qed

theorem shockedPnL_bounds_witness:
  "\<exists>q. shockedPnL ''h1'' golden_A01 50000000000 51000000000 1000000 (Num 0) (Num 0) = Inr q
    \<and> \<bar>pnlQuote q\<bar> \<le> 1000000 \<and> shockedPrice q = baselinePrice q \<and> pnlQuote q = 0"
proof -
  obtain p where p: "binaryPrice golden_A01 50000000000 51000000000 = Inr p"
    using binaryPrice_returns [OF golden_A01_ok, of 50000000000 51000000000] by (auto simp: golden_A01_def)
  then obtain q where q: "shockedPnL ''h1'' golden_A01 50000000000 51000000000 1000000 (Num 0) (Num 0) = Inr q"
    by (simp add: shockedPnL_def shockSviParallel_def shockedForward_def)
  with shockedPnL_bounds [OF _ _ _ q] show ?thesis by (auto simp: golden_A01_def)
qed

end
