(* ===== verification/DashboardHooks.thy ===== *)
theory DashboardHooks
  imports DashboardSocket WhatIf
begin

text \<open>
  The hooks of \<open>dashboard/src/hooks\<close> that derive what the panels show from the snapshot: staleness, the
  vault view, the token bucket, the selected surface, the open hedges and the wallet's positions.
  Payload fields have the types the source casts them to: a field that is not a string counts as
  absent. Display strings built from floating-point numbers are left out.
\<close>

section \<open>Staleness\<close>

datatype Staleness = fresh | warning | stale

definition useStaleness :: "int \<Rightarrow> int option \<Rightarrow> Staleness" where
  "useStaleness now lastUpdatedMs =
     (case lastUpdatedMs of
        None \<Rightarrow> stale
      | Some t \<Rightarrow> (let delta = now - t in
          if delta < 30000 then fresh else if delta < 60000 then warning else stale))"

section \<open>The vault view\<close>

record VaultView =
  vv_vault :: VaultState
  navPerShareScaled :: int
  utilizationBps :: int
  vv_lastUpdatedMs :: "int option"

definition useVaultState :: "FullSnapshot option \<Rightarrow> VaultView option res" where
  "useVaultState snapshot =
     (case Option.bind snapshot fs_vault of
        None \<Rightarrow> Inr None
      | Some v \<Rightarrow>
          bindE (BigInt (vs_total_assets v)) (\<lambda>totalAssets.
          bindE (BigInt (vs_total_shares v)) (\<lambda>totalShares.
          bindE (BigInt (vs_balance v)) (\<lambda>balance.
          Inr (Some \<lparr>vv_vault = v,
             navPerShareScaled = (if totalShares = 0 then NAV_SCALE STRATEGY_CONSTANTS
                                  else (totalAssets * NAV_SCALE STRATEGY_CONSTANTS) sdiv totalShares),
             utilizationBps = (if totalAssets = 0 then 0
                               else ((totalAssets - balance) * 10000) sdiv totalAssets),
             vv_lastUpdatedMs = Number_of_string (vs_last_updated_ms v)\<rparr>)))))"

section \<open>The token bucket\<close>

record BucketView =
  availableMicro :: int
  capacityMicro :: int
  refillRatePerMs :: int
  utilizationPct :: int

definition applyLazyRefill :: "int \<Rightarrow> int \<Rightarrow> int \<Rightarrow> int \<Rightarrow> int \<Rightarrow> int" where
  "applyLazyRefill available capacity refillRate lastUpdated now =
     (if capacity = 0 then 0
      else let elapsed = (if now > lastUpdated then now - lastUpdated else 0);
               newAvail = available + elapsed * refillRate
           in if newAvail < capacity then newAvail else capacity)"

text \<open>\<open>BigInt(String(x))\<close> of a JSON value. A number prints as its digits when it is an integer below \<open>10^21\<close> and
  otherwise as text that is no integer literal; an array prints its elements, separated by commas.\<close>

fun BigInt_String :: "json \<Rightarrow> int res" where
  "BigInt_String (JStr s) = BigInt s"
| "BigInt_String (JNum x) = (if of_int \<lfloor>x\<rfloor> = x \<and> \<bar>x\<bar> < 10 ^ 21 then Inr \<lfloor>x\<rfloor> else Inl SyntaxError)"
| "BigInt_String (JArr []) = Inr 0"
| "BigInt_String (JArr [x]) = (if x = JNull then Inr 0 else BigInt_String x)"
| "BigInt_String _ = Inl SyntaxError"

definition limiter_field :: "json option \<Rightarrow> string \<Rightarrow> int res" where
  "limiter_field rl k = BigInt_String (the (nullish (json_prop rl k) (Some (JStr ''0''))))"

definition bucket_view :: "json option \<Rightarrow> int \<Rightarrow> BucketView res" where
  "bucket_view rl now =
     bindE (limiter_field rl ''available'') (\<lambda>available.
     bindE (limiter_field rl ''capacity'') (\<lambda>capacity.
     bindE (limiter_field rl ''refill_rate_per_ms'') (\<lambda>refillRate.
     bindE (limiter_field rl ''last_updated_ms'') (\<lambda>lastUpdated.
     let avail = applyLazyRefill available capacity refillRate lastUpdated now
     in Inr \<lparr>availableMicro = avail, capacityMicro = capacity, refillRatePerMs = refillRate,
             utilizationPct = (if capacity = 0 then 0 else to_double ((avail * 100) sdiv capacity))\<rparr>))))"

text \<open>The query function. A reply of the node is the content of the object it returned, or an exception;
  after the first read every exception means that the bucket is not initialised.\<close>

record ObjectContent =
  oc_dataType :: string
  oc_fields :: "json option"

definition content_fields :: "ObjectContent option \<Rightarrow> json option" where
  "content_fields c =
     (case c of
        None \<Rightarrow> None
      | Some o' \<Rightarrow> (if oc_dataType o' \<noteq> ''moveObject'' then None else nullish (oc_fields o') (Some (JObj []))))"

definition bucket_query ::
  "string option \<Rightarrow> ObjectContent option res \<Rightarrow> ObjectContent option res \<Rightarrow> int \<Rightarrow> BucketView option res" where
  "bucket_query account vaultObj dyn now =
     (if account = None then Inr None
      else bindE vaultObj (\<lambda>content.
        case content_fields content of
          None \<Rightarrow> Inr None
        | Some fs \<Rightarrow>
            (let rateLimiters = nullish (json_prop (Some fs) ''rate_limiters'') (json_prop (Some fs) ''rate_limiters_table'');
                 parentId = json_prop (json_prop (json_prop rateLimiters ''fields'') ''id'') ''id''
             in if \<not> js_truthy parentId then Inr None
                else case dyn of
                    Inl _ \<Rightarrow> Inr None
                  | Inr dynContent \<Rightarrow>
                      (case content_fields dynContent of
                         None \<Rightarrow> Inr None
                       | Some dynFields \<Rightarrow>
                           (let rl = nullish (json_prop (json_prop (Some dynFields) ''value'') ''fields'') (Some dynFields)
                            in case bucket_view rl now of Inl _ \<Rightarrow> Inr None | Inr v \<Rightarrow> Inr (Some v))))))"

section \<open>The selected surface\<close>

record SurfaceView =
  sv_raw :: SurfaceSnapshot
  sv_svi :: SVIParams
  sv_lastUpdatedMs :: "int option"

text \<open>An empty \<open>oracleId\<close> selects the first oracle, like an absent one.\<close>

definition useSurfaceSnapshot :: "FullSnapshot option \<Rightarrow> string option \<Rightarrow> SurfaceView option res" where
  "useSurfaceSnapshot snapshot oracleId =
     (case snapshot of
        None \<Rightarrow> Inr None
      | Some s \<Rightarrow>
          (if fs_oracles s = [] then Inr None
           else case (case oracleId of
                        Some i \<Rightarrow> (if i = [] then Some (hd (fs_oracles s))
                                  else find (\<lambda>x. ss_oracle_id x = i) (fs_oracles s))
                      | None \<Rightarrow> Some (hd (fs_oracles s))) of
             None \<Rightarrow> Inr None
           | Some x \<Rightarrow>
               bindE (BigInt (ss_a x)) (\<lambda>a. bindE (BigInt (ss_b x)) (\<lambda>b.
               bindE (BigInt (ss_rho_signed x)) (\<lambda>rho. bindE (BigInt (ss_m_signed x)) (\<lambda>m.
               bindE (BigInt (ss_sigma x)) (\<lambda>sigma.
               Inr (Some \<lparr>sv_raw = x,
                  sv_svi = \<lparr>svi_a = a, svi_b = b, svi_rho = rho, svi_m = m, svi_sigma = sigma\<rparr>,
                  sv_lastUpdatedMs = Number_of_string (ss_last_updated_ms x)\<rparr>))))))))"

subsection \<open>From the chain to the pricer\<close>

lemma find_values:
  assumes "map_wf m" "\<And>k v. map_get m k = Some v \<Longrightarrow> f v = k"
  shows "find (\<lambda>v. f v = k) (map_values m) = map_get m k"
proof (cases "map_get m k")
  case None
  have "f v \<noteq> k" if "v \<in> set (map_values m)" for v
    using that assms None js_Map.set_vals [OF assms(1), of v] by fastforce
  then show ?thesis using None by (simp add: find_None_iff)
next
  case (Some v)
  then have v: "v \<in> set (map_values m)" "f v = k"
    using assms js_Map.set_vals [OF assms(1), of v] by auto
  then obtain w where w: "find (\<lambda>v. f v = k) (map_values m) = Some w"
    by (cases "find (\<lambda>v. f v = k) (map_values m)") (auto simp: find_None_iff)
  then have "w \<in> set (map_values m)" "f w = k" by (auto simp: find_Some_iff)
  then obtain j where "map_get m j = Some w" using js_Map.set_vals [OF assms(1), of w] by blast
  with assms(2) \<open>f w = k\<close> Some w show ?thesis by auto
qed

lemma oracle_slot_find:
  "find (\<lambda>x. ss_oracle_id x = i) (fs_oracles (fullSnapshot now (snap_run ops)))
     = map_get (oracles (snap_run ops)) i"
proof -
  have o: "oracles (snap_run ops) = fold (\<lambda>x. map_set (ss_oracle_id x) x) (surfaces ops) []"
    using snap_run_rel [of ops] by (simp add: snap_rel_def)
  have "ss_oracle_id v = k" if "map_get (oracles (snap_run ops)) k = Some v" for k v
    using that js_Map.get_fold_put [of ss_oracle_id "\<lambda>x. x" "surfaces ops" "[]" k]
    unfolding o by (auto simp: map_get_def find_Some_iff split: option.splits)
  moreover have "map_wf (oracles (snap_run ops))"
    unfolding o by (rule js_Map.wf_fold_put) (simp add: map_wf_def)
  ultimately show ?thesis by (simp add: fullSnapshot_def find_values)
qed

text \<open>What a dashboard reads after its snapshot depends on the surfaces of that snapshot alone.\<close>

lemma surface_of_oracles:
  "fs_oracles s' = fs_oracles s \<Longrightarrow> useSurfaceSnapshot (Some s') i = useSurfaceSnapshot (Some s) i"
  by (simp only: useSurfaceSnapshot_def option.case)

lemma surface_frozen:
  assumes "ws_snapshot u = Some s" "\<forall>m \<in> snd ` set arrivals. \<not> is_snapshot m" "length (fs_ring_buffer s) \<le> CLIENT_RING_CAP"
  shows "useSurfaceSnapshot (ws_snapshot (feed arrivals u)) i = useSurfaceSnapshot (Some s) i"
  using feed_events [OF assms] surface_of_oracles by metis

lemma served_surface:
  assumes "raw_oracle_id (evt_parsedJson evt) = oid" "oid \<noteq> []"
    and "raw_a (evt_parsedJson evt) = int_toString a" "raw_b (evt_parsedJson evt) = int_toString b"
    and "raw_sigma (evt_parsedJson evt) = int_toString sigma"
    and "raw_rho (evt_parsedJson evt) = \<lparr>magnitude = int_toString r, is_negative = rn\<rparr>"
    and "raw_m (evt_parsedJson evt) = \<lparr>magnitude = int_toString m, is_negative = mn\<rparr>"
    and "payloadTs (raw_timestamp_ms (evt_parsedJson evt)) (evt_timestampMs evt) = int_toString ts"
  shows "\<exists>s sent v. apply_oracle evt io (snap_run ops) = Inr (s, sent)
    \<and> useSurfaceSnapshot (Some (fullSnapshot now s)) (Some oid) = Inr (Some v)
    \<and> sv_svi v = \<lparr>svi_a = a, svi_b = b, svi_rho = (if rn then - r else r),
                    svi_m = (if mn then - m else m), svi_sigma = sigma\<rparr>"
proof -
  define op where "op = oracle_op evt io"
  have good: "oracle_good evt" using assms by (simp add: oracle_good_def BigInt_toString)
  have ap: "apply_oracle evt io (snap_run ops) = Inr (snap_step op (snap_run ops))"
    unfolding op_def by (rule oracle_poll.app_good [OF good])
  define s where "s = snap_run (ops @ [op])"
  have s: "fst (snap_step op (snap_run ops)) = s" by (simp add: s_def snap_run_def)
  define x where "x = hd (op_surfaces op)"
  have x: "op_surfaces op = [x]" "ss_oracle_id x = oid" "ss_a x = int_toString a" "ss_b x = int_toString b"
    "ss_sigma x = int_toString sigma" "ss_rho_signed x = int_toString (if rn then - r else r)"
    "ss_m_signed x = int_toString (if mn then - m else m)"
    using assms by (simp_all add: op_def oracle_op_def x_def surface_of_def decodeI64_def BigInt_toString Let_def)
  have "map_get (oracles s) oid = Some x"
    using snap_run_rel [of "ops @ [op]"] x(1,2)
    by (simp add: snap_rel_def s_def surfaces_def)
  then have f: "find (\<lambda>y. ss_oracle_id y = oid) (fs_oracles (fullSnapshot now s)) = Some x"
    unfolding s_def oracle_slot_find .
  then have "fs_oracles (fullSnapshot now s) \<noteq> []" by auto
  then obtain v where v: "useSurfaceSnapshot (Some (fullSnapshot now s)) (Some oid) = Inr (Some v)"
    "sv_svi v = \<lparr>svi_a = a, svi_b = b, svi_rho = (if rn then - r else r),
        svi_m = (if mn then - m else m), svi_sigma = sigma\<rparr>"
    using f assms(2) x by (simp add: useSurfaceSnapshot_def BigInt_toString)
  have "apply_oracle evt io (snap_run ops) = Inr (s, snd (snap_step op (snap_run ops)))"
    using ap s by (metis prod.collapse)
  with v show ?thesis by blast
qed

text \<open>C30. The wire round trip of a surface: after the relay has applied an oracle event, the parameters that
  a dashboard hands to its pricer for that oracle are the integers of the event, with the signs of the
  two signed fields restored and no loss of precision, from the snapshot it is sent after the event
  until its next snapshot, whatever events and heartbeats arrive between. A dashboard whose snapshot is older does
  not get them: the frame of the event leaves its parameters as they were in its own snapshot, until it connects again.\<close>

theorem surface_wire_roundtrip:
  assumes "raw_oracle_id (evt_parsedJson evt) = oid" "oid \<noteq> []"
    and "raw_a (evt_parsedJson evt) = int_toString a" "raw_b (evt_parsedJson evt) = int_toString b"
    and "raw_sigma (evt_parsedJson evt) = int_toString sigma"
    and "raw_rho (evt_parsedJson evt) = \<lparr>magnitude = int_toString r, is_negative = rn\<rparr>"
    and "raw_m (evt_parsedJson evt) = \<lparr>magnitude = int_toString m, is_negative = mn\<rparr>"
    and "payloadTs (raw_timestamp_ms (evt_parsedJson evt)) (evt_timestampMs evt) = int_toString ts"
    and "\<forall>msg \<in> snd ` set arrivals. \<not> is_snapshot msg"
  shows "\<exists>s sent. apply_oracle evt io (snap_run ops) = Inr (s, sent)
    \<and> (\<forall>u t. \<exists>v. useSurfaceSnapshot (ws_snapshot (feed arrivals (on_message t (SnapshotMsg (fullSnapshot now s)) u))) (Some oid) = Inr (Some v)
         \<and> sv_svi v = \<lparr>svi_a = a, svi_b = b, svi_rho = (if rn then - r else r),
                         svi_m = (if mn then - m else m), svi_sigma = sigma\<rparr>)
    \<and> (\<forall>u t old ops'. old = fullSnapshot t (snap_run ops') \<and> ws_snapshot u = Some old \<longrightarrow>
         useSurfaceSnapshot (ws_snapshot (feed arrivals u)) (Some oid) = useSurfaceSnapshot (Some old) (Some oid))"
proof -
  obtain s sent v where s: "apply_oracle evt io (snap_run ops) = Inr (s, sent)"
    "useSurfaceSnapshot (Some (fullSnapshot now s)) (Some oid) = Inr (Some v)"
    "sv_svi v = \<lparr>svi_a = a, svi_b = b, svi_rho = (if rn then - r else r), svi_m = (if mn then - m else m), svi_sigma = sigma\<rparr>"
    using served_surface [OF assms(1-8)] by blast
  have small: "length (fs_ring_buffer (fullSnapshot t (snap_run ops'))) \<le> CLIENT_RING_CAP" for t ops'
    using snap_run_rel [of ops'] by (simp add: fullSnapshot_def snap_rel_def CLIENT_RING_CAP_def RING_MAX_COUNT_def)
  have "s = snap_run (ops @ [oracle_op evt io])"
    using oracle_poll.app_Inr [OF s(1)] by (simp add: snap_run_def) (metis fst_conv)
  then have new: "useSurfaceSnapshot (ws_snapshot (feed arrivals (on_message t (SnapshotMsg (fullSnapshot now s)) u))) (Some oid) = Inr (Some v)" for u t
    using surface_frozen [OF _ assms(9), of _ "fullSnapshot now s"] small s(2) by simp
  have old: "useSurfaceSnapshot (ws_snapshot (feed arrivals u)) (Some oid) = useSurfaceSnapshot (Some old) (Some oid)"
    if "old = fullSnapshot t (snap_run ops')" "ws_snapshot u = Some old" for u t old ops'
    using surface_frozen [OF that(2) assms(9)] small that(1) by simp
  show ?thesis using s(1,3) new old by blast
qed

definition wire_evt :: "RawOracleSviUpdated sui_event" where
  "wire_evt =
     \<lparr>evt_id = demo_id, evt_type = ''0x1::oracle::OracleSVIUpdated'',
      evt_parsedJson = \<lparr>raw_oracle_id = ''0xo'', raw_a = int_toString 40000000, raw_b = int_toString 2,
        raw_rho = \<lparr>magnitude = int_toString 3, is_negative = True\<rparr>,
        raw_m = \<lparr>magnitude = int_toString 4, is_negative = False\<rparr>, raw_sigma = int_toString 5,
        raw_timestamp_ms = None\<rparr>,
      evt_timestampMs = Some (int_toString 17)\<rparr>"

theorem surface_wire_roundtrip_witness:
  "\<exists>s sent. apply_oracle wire_evt demo_io (snap_run []) = Inr (s, sent)
    \<and> (\<forall>u. \<exists>v. useSurfaceSnapshot (ws_snapshot (feed [(7, EventMsg ''Supplied'' [])] (on_message 5 (SnapshotMsg (fullSnapshot 0 s)) u))) (Some ''0xo'') = Inr (Some v)
         \<and> sv_svi v = \<lparr>svi_a = 40000000, svi_b = 2, svi_rho = - 3, svi_m = 4, svi_sigma = 5\<rparr>)"
proof -
  have "\<forall>msg \<in> snd ` set [(7 :: int, EventMsg ''Supplied'' [])]. \<not> is_snapshot msg" by (simp add: is_snapshot_def)
  from surface_wire_roundtrip [of wire_evt "''0xo''" 40000000 2 5 3 True 4 False 17, OF _ _ _ _ _ _ _ _ this, of demo_io "[]" 0]
  show ?thesis by (auto simp: wire_evt_def payloadTs_def)
qed

section \<open>Bounds of the views\<close>

lemma lazy_refill_min:
  "0 \<le> v \<Longrightarrow> v \<le> capacity \<Longrightarrow> t \<le> t' \<Longrightarrow> 0 \<le> rate \<Longrightarrow>
   applyLazyRefill v capacity rate t t' = min (v + (t' - t) * rate) capacity"
  using mult_nonneg_nonneg [of "t' - t" rate] by (cases "t = t'") (auto simp: applyLazyRefill_def Let_def)

text \<open>The token bucket: for a limiter whose fields are not negative and whose stock is at most its
  capacity, the refilled stock lies between the stored stock and the capacity, is full after long
  enough, and is shown as a percentage between 0 and 100; refilling in two steps is refilling once.\<close>

theorem lazy_refill_bounds:
  assumes "0 \<le> available" "available \<le> capacity" "0 \<le> rate" "t0 \<le> t1" "t1 \<le> t2"
  shows "available \<le> applyLazyRefill available capacity rate t0 t1
    \<and> applyLazyRefill available capacity rate t0 t1 \<le> capacity
    \<and> (capacity > 0 \<longrightarrow> (applyLazyRefill available capacity rate t0 t1 * 100) sdiv capacity \<in> {0..100})
    \<and> (capacity - available \<le> (t1 - t0) * rate \<longrightarrow> applyLazyRefill available capacity rate t0 t1 = capacity)
    \<and> applyLazyRefill (applyLazyRefill available capacity rate t0 t1) capacity rate t1 t2
       = applyLazyRefill available capacity rate t0 t2"
proof -
  define d1 d2 where "d1 = (t1 - t0) * rate" and "d2 = (t2 - t1) * rate"
  have d: "0 \<le> d1" "0 \<le> d2" using assms by (simp_all add: d1_def d2_def)
  have d12: "(t2 - t0) * rate = d1 + d2" by (simp add: d1_def d2_def algebra_simps)
  have r1: "applyLazyRefill v capacity rate t0 t1 = min (v + d1) capacity" if "0 \<le> v" "v \<le> capacity" for v
    using that assms lazy_refill_min [of v capacity t0 t1 rate] by (simp add: d1_def)
  have r2: "applyLazyRefill v capacity rate t1 t2 = min (v + d2) capacity" if "0 \<le> v" "v \<le> capacity" for v
    using that assms lazy_refill_min [of v capacity t1 t2 rate] by (simp add: d2_def)
  have r3: "applyLazyRefill available capacity rate t0 t2 = min (available + (d1 + d2)) capacity"
    using assms lazy_refill_min [of available capacity t0 t2 rate] by (simp add: d12)
  define v where "v = min (available + d1) capacity"
  have v: "applyLazyRefill available capacity rate t0 t1 = v" "available \<le> v" "v \<le> capacity"
    using r1 assms d by (auto simp: v_def)
  have pct: "(v * 100) sdiv capacity \<in> {0..100}" if "capacity > 0"
    using v assms that by (auto simp: sdiv_nonneg pos_imp_zdiv_nonneg_iff intro!: div_leI)
  have "applyLazyRefill v capacity rate t1 t2 = applyLazyRefill available capacity rate t0 t2"
    using r2 [of v] r3 v assms d by (auto simp: v_def min_def)
  with v pct show ?thesis unfolding d1_def [symmetric] by (auto simp: v_def)
qed

theorem lazy_refill_bounds_witness:
  "applyLazyRefill (applyLazyRefill 10 100 2 0 5) 100 2 5 9 = applyLazyRefill 10 100 2 0 9
   \<and> applyLazyRefill 10 100 2 0 5 \<le> 100"
  using lazy_refill_bounds [of 10 100 2 0 5 9] by simp

end
