(* ===== verification/DashboardBook.thy ===== *)
theory DashboardBook
  imports DashboardHooks
begin

text \<open>
  \<open>dashboard/src/hooks/useExposure.ts\<close> and \<open>dashboard/src/hooks/usePositions.ts\<close>: the book of open hedges
  and the wallet's positions, both derived from the events of the ring. \<open>Number\<close> of a time stamp is an
  optional integer whose \<open>None\<close> is \<open>NaN\<close>, with which every comparison fails.
\<close>

definition ends_with :: "string \<Rightarrow> string \<Rightarrow> bool" where
  "ends_with s suf \<longleftrightarrow> drop (length s - length suf) s = suf"

fun num_le :: "int option \<Rightarrow> int option \<Rightarrow> bool" where
  "num_le (Some a) (Some b) = (a \<le> b)"
| "num_le _ _ = False"

fun num_less :: "int option \<Rightarrow> int option \<Rightarrow> bool" where
  "num_less (Some a) (Some b) = (a < b)"
| "num_less _ _ = False"

text \<open>\<open>a ?? b ?? ...\<close> on string fields.\<close>

fun first_str :: "json option list \<Rightarrow> string \<Rightarrow> string" where
  "first_str [] dflt = dflt"
| "first_str (j # js) dflt = (case jstr j of Some s \<Rightarrow> s | None \<Rightarrow> first_str js dflt)"

section \<open>Open hedges\<close>

record RawMarketKey =
  mk_oracle_id :: "string option"
  mk_strike :: "string option"
  mk_expiry_ms :: "string option"
  mk_is_down :: bool

fun raw_key :: "json option \<Rightarrow> RawMarketKey option" where
  "raw_key (Some (JObj r)) =
     Some \<lparr>mk_oracle_id = jstr (jget r ''oracle_id''), mk_strike = jstr (jget r ''strike''),
           mk_expiry_ms = jstr (jget r ''expiry_ms''),
           mk_is_down = (jget r ''is_down'' = Some (JBool True))\<rparr>"
| "raw_key _ = None"

definition or_else :: "string option \<Rightarrow> string \<Rightarrow> string" where
  "or_else x d = (case x of Some s \<Rightarrow> s | None \<Rightarrow> d)"

definition direction_of :: "RawMarketKey \<Rightarrow> string" where
  "direction_of mk = (if mk_is_down mk then ''down'' else ''up'')"

definition makeMarketKey :: "RawMarketKey option \<Rightarrow> string" where
  "makeMarketKey k =
     (case k of
        None \<Rightarrow> []
      | Some mk \<Rightarrow> or_else (mk_oracle_id mk) [] @ ''|'' @ or_else (mk_strike mk) ''0'' @ ''|''
                 @ or_else (mk_expiry_ms mk) ''0'' @ ''|'' @ direction_of mk)"

record Hedge =
  h_marketKey :: string
  h_oracleId :: string
  h_strike :: int
  h_expiryMs :: "int option"
  h_direction :: string
  h_notionalQuote :: int
  h_premiumQuote :: int

definition hedgeFromMint :: "RingEvent \<Rightarrow> Hedge option res" where
  "hedgeFromMint e =
     (let d = ev_data e in
      case raw_key (jget d ''market_key'') of
        None \<Rightarrow> Inr None
      | Some mk \<Rightarrow>
          bindE (BigInt (or_else (mk_strike mk) (first_str [jget d ''strike''] ''0''))) (\<lambda>strike.
          bindE (BigInt (first_str [jget d ''cost_basis_quote''] ''0'')) (\<lambda>notional.
          Inr (Some \<lparr>h_marketKey = makeMarketKey (Some mk), h_oracleId = or_else (mk_oracle_id mk) [],
             h_strike = strike,
             h_expiryMs = Number_of_string (or_else (mk_expiry_ms mk) (first_str [jget d ''expiry_ms''] ''0'')),
             h_direction = direction_of mk, h_notionalQuote = notional, h_premiumQuote = 0\<rparr>))))"

definition hedgeFromRolledNew :: "RingEvent \<Rightarrow> Hedge option res" where
  "hedgeFromRolledNew e =
     (case raw_key (jget (ev_data e) ''new_key'') of
        None \<Rightarrow> Inr None
      | Some mk \<Rightarrow>
          bindE (BigInt (or_else (mk_strike mk) ''0'')) (\<lambda>strike.
          Inr (Some \<lparr>h_marketKey = makeMarketKey (Some mk), h_oracleId = or_else (mk_oracle_id mk) [],
             h_strike = strike, h_expiryMs = Number_of_string (or_else (mk_expiry_ms mk) ''0''),
             h_direction = direction_of mk, h_notionalQuote = 0, h_premiumQuote = 0\<rparr>)))"

record book =
  bk_open :: "(string, Hedge) js_Map"
  bk_byOracle :: "(string, string) js_Map"

definition book_add :: "Hedge option \<Rightarrow> book \<Rightarrow> book" where
  "book_add ho b =
     (case ho of
        None \<Rightarrow> b
      | Some h \<Rightarrow> b\<lparr>bk_open := map_set (h_marketKey h) h (bk_open b),
                    bk_byOracle := map_set (h_oracleId h) (h_marketKey h) (bk_byOracle b)\<rparr>)"

text \<open>The body of the loop over the ring.\<close>

definition book_event :: "RingEvent \<Rightarrow> book \<Rightarrow> book res" where
  "book_event e b =
     (if ends_with (ev_name e) ''HedgeMinted''
      then bindE (hedgeFromMint e) (\<lambda>h. Inr (book_add h b))
      else if ends_with (ev_name e) ''HedgeRolled''
      then let old = raw_key (jget (ev_data e) ''old_key'');
               oldKey = makeMarketKey old;
               b1 = (if oldKey \<noteq> []
                     then let b0 = b\<lparr>bk_open := map_delete oldKey (bk_open b)\<rparr>
                          in case Option.bind old mk_oracle_id of
                               Some oid \<Rightarrow> (if oid \<noteq> [] then b0\<lparr>bk_byOracle := map_delete oid (bk_byOracle b0)\<rparr> else b0)
                             | None \<Rightarrow> b0
                     else b)
           in bindE (hedgeFromRolledNew e) (\<lambda>h. Inr (book_add h b1))
      else if ends_with (ev_name e) ''HedgeUnwound''
      then let oracleId = first_str [jget (ev_data e) ''oracle_id''] []
           in Inr (case map_get (bk_byOracle b) oracleId of
                     Some k \<Rightarrow> (if k \<noteq> []
                               then b\<lparr>bk_open := map_delete k (bk_open b),
                                      bk_byOracle := map_delete oracleId (bk_byOracle b)\<rparr>
                               else b)
                   | None \<Rightarrow> b)
      else Inr b)"

fun book_run :: "RingEvent list \<Rightarrow> book \<Rightarrow> book res" where
  "book_run [] b = Inr b"
| "book_run (e # es) b = bindE (book_event e b) (book_run es)"

definition empty_book :: book where
  "empty_book = \<lparr>bk_open = [], bk_byOracle = []\<rparr>"

definition expiry_key :: "Hedge \<Rightarrow> int" where
  "expiry_key h = (case h_expiryMs h of Some t \<Rightarrow> t | None \<Rightarrow> 0)"

definition useExposure :: "int \<Rightarrow> FullSnapshot option \<Rightarrow> Hedge list res" where
  "useExposure now snapshot =
     (case snapshot of
        None \<Rightarrow> Inr []
      | Some s \<Rightarrow>
          bindE (book_run (fs_ring_buffer s) empty_book) (\<lambda>b.
          Inr (sort_key expiry_key
                 (filter (\<lambda>h. num_le (Some now) (h_expiryMs h)) (map_values (bk_open b))))))"

text \<open>The hedge an event opens.\<close>

definition opens :: "RingEvent \<Rightarrow> Hedge \<Rightarrow> bool" where
  "opens e h \<longleftrightarrow>
     (ends_with (ev_name e) ''HedgeMinted'' \<and> hedgeFromMint e = Inr (Some h))
     \<or> (ends_with (ev_name e) ''HedgeRolled'' \<and> hedgeFromRolledNew e = Inr (Some h))"

text \<open>The invariant of the loop: the map is keyed by the hedges' own keys and holds only hedges that an
  event of the part already read has opened.\<close>

definition book_inv :: "RingEvent set \<Rightarrow> book \<Rightarrow> bool" where
  "book_inv es b \<longleftrightarrow> map_wf (bk_open b)
     \<and> (\<forall>k h. map_get (bk_open b) k = Some h \<longrightarrow> h_marketKey h = k \<and> (\<exists>e \<in> es. opens e h))"

lemma book_inv_mono: "book_inv es b \<Longrightarrow> es \<subseteq> es' \<Longrightarrow> book_inv es' b"
  unfolding book_inv_def by blast

lemma book_inv_delete: "book_inv es b \<Longrightarrow> book_inv es (b\<lparr>bk_open := map_delete k (bk_open b)\<rparr>)"
  unfolding book_inv_def by (auto simp: js_Map.wf_del js_Map.get_del split: if_splits)

lemma book_inv_byOracle [simp]: "book_inv es (b\<lparr>bk_byOracle := m\<rparr>) = book_inv es b"
  by (simp add: book_inv_def)

lemma book_inv_add:
  "book_inv es b \<Longrightarrow> (\<And>h. ho = Some h \<Longrightarrow> \<exists>e \<in> es. opens e h) \<Longrightarrow> book_inv es (book_add ho b)"
  unfolding book_add_def book_inv_def
  by (auto simp: js_Map.wf_put js_Map.get_put split: option.splits if_splits)

lemma book_event_inv:
  assumes "book_inv es b" "book_event e b = Inr b'"
  shows "book_inv (insert e es) b'"
proof -
  have b: "book_inv (insert e es) b" using assms(1) by (rule book_inv_mono) auto
  consider (mint) "ends_with (ev_name e) ''HedgeMinted''"
    | (roll) "\<not> ends_with (ev_name e) ''HedgeMinted''" "ends_with (ev_name e) ''HedgeRolled''"
    | (rest) "\<not> ends_with (ev_name e) ''HedgeMinted''" "\<not> ends_with (ev_name e) ''HedgeRolled''" by blast
  then show ?thesis
  proof cases
    case mint
    then obtain h where "hedgeFromMint e = Inr h" "b' = book_add h b"
      using assms(2) by (auto simp: book_event_def bindE_eq_Inr)
    with mint b show ?thesis by (auto simp: opens_def intro!: book_inv_add)
  next
    case roll
    define old where "old = raw_key (jget (ev_data e) ''old_key'')"
    define b1 where "b1 = (if makeMarketKey old \<noteq> []
        then let b0 = b\<lparr>bk_open := map_delete (makeMarketKey old) (bk_open b)\<rparr>
             in case Option.bind old mk_oracle_id of
                  Some oid \<Rightarrow> (if oid \<noteq> [] then b0\<lparr>bk_byOracle := map_delete oid (bk_byOracle b0)\<rparr> else b0)
                | None \<Rightarrow> b0
        else b)"
    have b1: "book_inv (insert e es) b1"
      using b book_inv_delete [OF b] by (auto simp: b1_def Let_def split: option.splits)
    obtain h where "hedgeFromRolledNew e = Inr h" "b' = book_add h b1"
      using assms(2) roll by (auto simp: book_event_def bindE_eq_Inr b1_def old_def Let_def)
    with roll b1 show ?thesis by (auto simp: opens_def intro!: book_inv_add)
  next
    case rest
    then show ?thesis
      using assms(2) b book_inv_delete [OF b]
      by (auto simp: book_event_def Let_def split: if_splits option.splits)
  qed
qed

lemma book_run_inv:
  "book_inv es b \<Longrightarrow> book_run evs b = Inr b' \<Longrightarrow> book_inv (es \<union> set evs) b'"
proof (induction evs arbitrary: es b)
  case (Cons e evs)
  then obtain b1 where b1: "book_event e b = Inr b1" "book_run evs b1 = Inr b'"
    by (auto simp: bindE_eq_Inr)
  from Cons.IH [OF book_event_inv [OF Cons.prems(1) b1(1)] b1(2)] show ?case by simp
qed simp

text \<open>C31. The open-hedge table: when the hook returns, the hedges are ordered by expiry, none is expired,
  no market is listed twice, and every one was opened by a mint or a roll in the ring.\<close>

theorem exposure_book:
  assumes "useExposure now (Some s) = Inr hs"
  shows "sorted (map expiry_key hs) \<and> (\<forall>h \<in> set hs. now \<le> expiry_key h) \<and> distinct (map h_marketKey hs)
    \<and> (\<forall>h \<in> set hs. \<exists>e \<in> set (fs_ring_buffer s). opens e h)"
proof -
  obtain b where b: "book_run (fs_ring_buffer s) empty_book = Inr b"
    and hs: "hs = sort_key expiry_key (filter (\<lambda>h. num_le (Some now) (h_expiryMs h)) (map_values (bk_open b)))"
    using assms by (auto simp: useExposure_def bindE_eq_Inr)
  have "book_inv {} empty_book" by (simp add: book_inv_def empty_book_def map_wf_def map_get_def)
  then have inv: "book_inv (set (fs_ring_buffer s)) b" using book_run_inv [OF _ b] by fastforce
  have keys: "map h_marketKey (map_values (bk_open b)) = map fst (bk_open b)"
  proof -
    have "h_marketKey (snd p) = fst p" if "p \<in> set (bk_open b)" for p
      using that inv unfolding book_inv_def map_wf_def map_get_def
      by (metis eq_fst_iff map_of_is_SomeI snd_conv)
    then show ?thesis by (simp add: map_values_def)
  qed
  have mem: "h \<in> set hs \<Longrightarrow> h \<in> set (map_values (bk_open b)) \<and> num_le (Some now) (h_expiryMs h)" for h
    by (auto simp: hs)
  have "distinct (map h_marketKey (filter (\<lambda>h. num_le (Some now) (h_expiryMs h)) (map_values (bk_open b))))"
    by (rule distinct_map_filter) (use inv keys in \<open>simp add: book_inv_def map_wf_def\<close>)
  then have "distinct (map h_marketKey hs)"
    unfolding hs distinct_map by simp
  moreover have "now \<le> expiry_key h" if "h \<in> set hs" for h
    using mem [OF that] by (cases "h_expiryMs h") (auto simp: expiry_key_def)
  moreover have "\<exists>e \<in> set (fs_ring_buffer s). opens e h" if "h \<in> set hs" for h
  proof -
    have "map_wf (bk_open b)" using inv by (simp add: book_inv_def)
    from js_Map.set_vals [OF this, of h] mem [OF that] obtain k where "map_get (bk_open b) k = Some h" by blast
    then show ?thesis using inv unfolding book_inv_def by blast
  qed
  moreover have "sorted (map expiry_key hs)" unfolding hs by (rule sorted_sort_key)
  ultimately show ?thesis by blast
qed

definition demo_key :: "string \<Rightarrow> json" where
  "demo_key strike = JObj [(''oracle_id'', JStr ''0xo''), (''strike'', JStr strike),
     (''expiry_ms'', JStr ''2000''), (''is_down'', JBool True)]"

definition demo_mint :: "string \<Rightarrow> RingEvent" where
  "demo_mint strike = \<lparr>ev_name = ''HedgeMinted'', ev_ts_ms = ''1000'',
     ev_data = [(''market_key'', demo_key strike), (''cost_basis_quote'', JStr ''7'')]\<rparr>"

definition demo_unwind :: RingEvent where
  "demo_unwind = \<lparr>ev_name = ''HedgeUnwound'', ev_ts_ms = ''1500'',
     ev_data = [(''oracle_id'', JStr ''0xo''), (''payout_quote'', JStr ''0'')]\<rparr>"

definition demo_ring :: "RingEvent list \<Rightarrow> FullSnapshot" where
  "demo_ring r = \<lparr>fs_oracles = [], fs_vault = None, fs_ring_buffer = r, fs_served_at_ms = ''0''\<rparr>"

definition demo_hedge :: "string \<Rightarrow> int \<Rightarrow> Hedge" where
  "demo_hedge strike k =
     \<lparr>h_marketKey = ''0xo|'' @ strike @ ''|2000|down'', h_oracleId = ''0xo'', h_strike = k,
      h_expiryMs = Some 2000, h_direction = ''down'', h_notionalQuote = 7, h_premiumQuote = 0\<rparr>"

lemmas literal_defs = BigInt_def trim_def is_space_def digits_value_def char_digit_def

lemma demo_number: "Number_of_string ''2000'' = Some 2000"
  by (simp add: Number_of_string_def literal_defs to_double_exact)

lemma demo_mint_hedge:
  "hedgeFromMint (demo_mint ''5'') = Inr (Some (demo_hedge ''5'' 5))"
  "hedgeFromMint (demo_mint ''6'') = Inr (Some (demo_hedge ''6'' 6))"
  by (simp_all add: hedgeFromMint_def demo_mint_def demo_key_def demo_hedge_def jget_def makeMarketKey_def
      or_else_def direction_of_def demo_number Let_def) (simp_all add: literal_defs)

lemma demo_events:
  "book_event (demo_mint ''5'') b = Inr (book_add (Some (demo_hedge ''5'' 5)) b)"
  "book_event (demo_mint ''6'') b = Inr (book_add (Some (demo_hedge ''6'' 6)) b)"
  by (simp_all add: book_event_def demo_mint_hedge) (simp_all add: demo_mint_def ends_with_def)

theorem exposure_book_witness:
  "\<exists>hs. useExposure 1800 (Some (demo_ring [demo_mint ''5''])) = Inr hs \<and> hs \<noteq> []
    \<and> sorted (map expiry_key hs) \<and> (\<forall>h \<in> set hs. 1800 \<le> expiry_key h)"
proof -
  have "useExposure 1800 (Some (demo_ring [demo_mint ''5''])) = Inr [demo_hedge ''5'' 5]"
    by (simp add: useExposure_def demo_ring_def demo_events book_add_def empty_book_def map_values_def)
      (simp add: demo_hedge_def)
  with exposure_book [OF this] show ?thesis by blast
qed

text \<open>Two hedges on one oracle: the index from oracle to market remembers only the later one, so after
  both have been unwound the earlier one is still listed as open.\<close>

theorem unwound_hedge_stays_open:
  "\<exists>h. useExposure 1800 (Some (demo_ring [demo_mint ''5'', demo_mint ''6'', demo_unwind, demo_unwind])) = Inr [h]
     \<and> opens (demo_mint ''5'') h"
proof -
  have un: "book_event demo_unwind b = Inr (case map_get (bk_byOracle b) ''0xo'' of
      Some k \<Rightarrow> (if k \<noteq> [] then b\<lparr>bk_open := map_delete k (bk_open b),
                 bk_byOracle := map_delete ''0xo'' (bk_byOracle b)\<rparr> else b) | None \<Rightarrow> b)" for b
    by (simp add: book_event_def demo_unwind_def ends_with_def jget_def Let_def)
  define h5 h6 k5 k6 x where "h5 = demo_hedge ''5'' 5" and "h6 = demo_hedge ''6'' 6"
    and "k5 = h_marketKey h5" and "k6 = h_marketKey h6" and "x = ''0xo''"
  have k: "k5 \<noteq> k6" "k6 \<noteq> []" "h_oracleId h5 = x" "h_oracleId h6 = x" "h_expiryMs h5 = Some 2000"
    by (simp_all add: h5_def h6_def k5_def k6_def x_def demo_hedge_def)
  have two: "book_add (Some h6) (book_add (Some h5) empty_book)
      = \<lparr>bk_open = [(k5, h5), (k6, h6)], bk_byOracle = [(x, k6)]\<rparr>"
    using k by (simp add: book_add_def empty_book_def k5_def [symmetric] k6_def [symmetric])
  have "book_run [demo_mint ''5'', demo_mint ''6'', demo_unwind, demo_unwind] empty_book
      = Inr \<lparr>bk_open = [(k5, h5)], bk_byOracle = []\<rparr>"
    using k by (simp add: demo_events un h5_def [symmetric] h6_def [symmetric] x_def [symmetric] two
        map_get_def map_delete_def)
  then have "useExposure 1800 (Some (demo_ring [demo_mint ''5'', demo_mint ''6'', demo_unwind, demo_unwind]))
      = Inr [demo_hedge ''5'' 5]"
    using k by (simp only: useExposure_def demo_ring_def option.case FullSnapshot.simps bindE_simps)
      (simp add: map_values_def h5_def [symmetric])
  moreover have "opens (demo_mint ''5'') (demo_hedge ''5'' 5)"
    unfolding opens_def demo_mint_hedge by (simp add: demo_mint_def ends_with_def)
  ultimately show ?thesis by blast
qed

section \<open>Positions\<close>

record Position =
  eventTs :: "int option"
  depositQuote :: int
  sharesMinted :: int
  hedgeCost :: "int option"
  hedgePayoff :: "int option"
  plpYield :: "int option"
  netQuote :: "int option"

abbreviation ts_of :: "RingEvent \<Rightarrow> int option" where
  "ts_of e \<equiv> Number_of_string (ev_ts_ms e)"

definition findMatchingMint :: "RingEvent list \<Rightarrow> int option \<Rightarrow> RingEvent option" where
  "findMatchingMint r suppliedAt =
     find (\<lambda>e. ends_with (ev_name e) ''HedgeMinted'' \<and> num_le suppliedAt (ts_of e)
             \<and> num_le (ts_of e) (map_option (\<lambda>t. t + 60000) suppliedAt)) r"

text \<open>\<open>if (Number(e.ts_ms) < at) continue\<close> keeps an event whose time stamp is not a number.\<close>

definition findMatchingUnwind :: "RingEvent list \<Rightarrow> json_record \<Rightarrow> int option \<Rightarrow> RingEvent option" where
  "findMatchingUnwind r mintData mintedAt =
     (let mk = (case jget mintData ''market_key'' of Some (JObj o') \<Rightarrow> o' | _ \<Rightarrow> []);
          oracleId = first_str [jget mk ''oracle_id'', jget mintData ''oracle_id''] []
      in find (\<lambda>e. ends_with (ev_name e) ''HedgeUnwound'' \<and> \<not> num_less (ts_of e) mintedAt
                 \<and> first_str [jget (ev_data e) ''oracle_id''] [] = oracleId) r)"

definition findMatchingRedemption :: "RingEvent list \<Rightarrow> string \<Rightarrow> int option \<Rightarrow> RingEvent option" where
  "findMatchingRedemption r supplier suppliedAt =
     find (\<lambda>e. ends_with (ev_name e) ''RedeemFulfilled'' \<and> \<not> num_less (ts_of e) suppliedAt
             \<and> first_str [jget (ev_data e) ''user'', jget (ev_data e) ''supplier''] [] = supplier) r"

text \<open>\<open>e ? BigInt(f(e)) : null\<close>.\<close>

definition bigint_of :: "RingEvent option \<Rightarrow> (RingEvent \<Rightarrow> string) \<Rightarrow> int option res" where
  "bigint_of ev f = (case ev of None \<Rightarrow> Inr None | Some e \<Rightarrow> bindE (BigInt (f e)) (\<lambda>v. Inr (Some v)))"

definition yield_of :: "RingEvent option \<Rightarrow> int \<Rightarrow> int \<Rightarrow> int option res" where
  "yield_of redemption deposit shares =
     (case redemption of
        None \<Rightarrow> Inr None
      | Some e \<Rightarrow>
          (let r = ev_data e in
           bindE (BigInt (first_str [jget r ''quote_paid'', jget r ''quote_out''] ''0'')) (\<lambda>quotePaid.
           bindE (BigInt (first_str [jget r ''shares_burned'', jget r ''shares_redeemed'', jget r ''shares'']
                    (int_toString shares))) (\<lambda>sharesBurned.
           let proRata = (if shares = 0 then 0 else (deposit * sharesBurned) sdiv shares)
           in Inr (Some (quotePaid - proRata))))))"

definition net_of :: "int option \<Rightarrow> int option \<Rightarrow> int option \<Rightarrow> int option" where
  "net_of y payoff cost =
     (case (y, payoff) of
        (Some y', Some p) \<Rightarrow> Some (y' + p - (case cost of None \<Rightarrow> 0 | Some c \<Rightarrow> c))
      | _ \<Rightarrow> None)"

definition own_supply :: "string \<Rightarrow> RingEvent \<Rightarrow> bool" where
  "own_supply account e \<longleftrightarrow> ends_with (ev_name e) ''Supplied''
     \<and> first_str [jget (ev_data e) ''depositor'', jget (ev_data e) ''supplier''] [] = account"

definition position_of :: "RingEvent list \<Rightarrow> string \<Rightarrow> RingEvent \<Rightarrow> Position res" where
  "position_of r account e =
     bindE (BigInt (first_str [jget (ev_data e) ''deposit_quote''] ''0'')) (\<lambda>deposit.
     bindE (BigInt (first_str [jget (ev_data e) ''shares_minted''] ''0'')) (\<lambda>shares.
     let mint = findMatchingMint r (ts_of e) in
     bindE (bigint_of mint (\<lambda>m. first_str [jget (ev_data m) ''cost_basis_quote''] ''0'')) (\<lambda>cost.
     let unwind = (case mint of None \<Rightarrow> None | Some m \<Rightarrow> findMatchingUnwind r (ev_data m) (ts_of m)) in
     bindE (bigint_of unwind (\<lambda>u. first_str [jget (ev_data u) ''payout_quote''] ''0'')) (\<lambda>payoff.
     bindE (yield_of (findMatchingRedemption r account (ts_of e)) deposit shares) (\<lambda>y.
     Inr \<lparr>eventTs = ts_of e, depositQuote = deposit, sharesMinted = shares, hedgeCost = cost,
          hedgePayoff = payoff, plpYield = y, netQuote = net_of y payoff cost\<rparr>)))))"

fun positions_run :: "RingEvent list \<Rightarrow> string \<Rightarrow> RingEvent list \<Rightarrow> Position list res" where
  "positions_run r account [] = Inr []"
| "positions_run r account (e # es) =
     (if own_supply account e
      then bindE (position_of r account e) (\<lambda>p. bindE (positions_run r account es) (\<lambda>ps. Inr (p # ps)))
      else positions_run r account es)"

definition usePositions :: "FullSnapshot option \<Rightarrow> string option \<Rightarrow> Position list res" where
  "usePositions snapshot account =
     (case (snapshot, account) of
        (Some s, Some a) \<Rightarrow> positions_run (fs_ring_buffer s) a (fs_ring_buffer s)
      | _ \<Rightarrow> Inr [])"

lemma positions_run_map:
  "positions_run r account es = Inr ps \<Longrightarrow>
   list_all2 (\<lambda>e p. position_of r account e = Inr p) (filter (own_supply account) es) ps"
  by (induction es arbitrary: ps) (auto simp: bindE_eq_Inr)

lemma bigint_of_None: "bigint_of ev f = Inr v \<Longrightarrow> v = None \<longleftrightarrow> ev = None"
  by (auto simp: bigint_of_def bindE_eq_Inr split: option.splits)

lemma yield_of_None: "yield_of ev d n = Inr v \<Longrightarrow> v = None \<longleftrightarrow> ev = None"
  by (auto simp: yield_of_def bindE_eq_Inr Let_def split: option.splits)

lemma position_ofE:
  assumes "position_of r account e = Inr p"
  obtains mint unwind deposit shares where
    "bigint_of mint (\<lambda>m. first_str [jget (ev_data m) ''cost_basis_quote''] ''0'') = Inr (hedgeCost p)"
    "bigint_of unwind (\<lambda>u. first_str [jget (ev_data u) ''payout_quote''] ''0'') = Inr (hedgePayoff p)"
    "unwind \<noteq> None \<longrightarrow> mint \<noteq> None"
    "yield_of (findMatchingRedemption r account (ts_of e)) deposit shares = Inr (plpYield p)"
    "netQuote p = net_of (plpYield p) (hedgePayoff p) (hedgeCost p)" "eventTs p = ts_of e"
proof -
  define mint where "mint = findMatchingMint r (ts_of e)"
  define unwind where "unwind = (case mint of None \<Rightarrow> None | Some m \<Rightarrow> findMatchingUnwind r (ev_data m) (ts_of m))"
  have "unwind \<noteq> None \<longrightarrow> mint \<noteq> None" by (simp add: unwind_def split: option.splits)
  with assms show thesis
    unfolding position_of_def Let_def mint_def [symmetric] unwind_def [symmetric]
    by (simp only: bindE_eq_Inr sum.inject, elim exE conjE) (rule that, auto)
qed

lemma position_legs:
  assumes "position_of r account e = Inr p"
  shows "netQuote p = net_of (plpYield p) (hedgePayoff p) (hedgeCost p)"
    "hedgePayoff p \<noteq> None \<longrightarrow> hedgeCost p \<noteq> None"
    "plpYield p = None \<longleftrightarrow> findMatchingRedemption r account (ts_of e) = None"
    "eventTs p = ts_of e"
proof -
  show "netQuote p = net_of (plpYield p) (hedgePayoff p) (hedgeCost p)" "eventTs p = ts_of e"
    by (rule position_ofE [OF assms], assumption)+
  show "hedgePayoff p \<noteq> None \<longrightarrow> hedgeCost p \<noteq> None"
    by (rule position_ofE [OF assms]) (metis bigint_of_None)
  show "plpYield p = None \<longleftrightarrow> findMatchingRedemption r account (ts_of e) = None"
    by (rule position_ofE [OF assms]) (rule yield_of_None)
qed

text \<open>Unknown is not zero: when the hook returns there is exactly one position per supply event of the
  wallet, in ring order; the net result is shown exactly when both legs are realised, and then it is
  yield plus payoff minus the cost of the hedge; a payoff never appears without its cost; and the
  yield is unknown exactly as long as no redemption was seen.\<close>

theorem positions_net_quote:
  assumes "usePositions (Some s) (Some account) = Inr ps"
  shows "length ps = length (filter (own_supply account) (fs_ring_buffer s))
    \<and> (\<forall>p \<in> set ps.
         (netQuote p = None \<longleftrightarrow> plpYield p = None \<or> hedgePayoff p = None)
         \<and> (\<forall>y q c. plpYield p = Some y \<longrightarrow> hedgePayoff p = Some q \<longrightarrow> hedgeCost p = Some c \<longrightarrow>
               netQuote p = Some (y + q - c))
         \<and> (hedgePayoff p \<noteq> None \<longrightarrow> hedgeCost p \<noteq> None)
         \<and> (plpYield p = None \<longleftrightarrow>
               findMatchingRedemption (fs_ring_buffer s) account (eventTs p) = None))"
proof -
  have l: "list_all2 (\<lambda>e p. position_of (fs_ring_buffer s) account e = Inr p)
      (filter (own_supply account) (fs_ring_buffer s)) ps"
    using assms by (intro positions_run_map) (simp add: usePositions_def)
  have each: "\<exists>e. position_of (fs_ring_buffer s) account e = Inr p" if "p \<in> set ps" for p
  proof -
    from that obtain i where "i < length ps" "p = ps ! i" by (auto simp: in_set_conv_nth)
    with list_all2_nthD2 [OF l, of i] show ?thesis by blast
  qed
  have "(netQuote p = None \<longleftrightarrow> plpYield p = None \<or> hedgePayoff p = None)
         \<and> (\<forall>y q c. plpYield p = Some y \<longrightarrow> hedgePayoff p = Some q \<longrightarrow> hedgeCost p = Some c \<longrightarrow>
               netQuote p = Some (y + q - c))
         \<and> (hedgePayoff p \<noteq> None \<longrightarrow> hedgeCost p \<noteq> None)
         \<and> (plpYield p = None \<longleftrightarrow>
               findMatchingRedemption (fs_ring_buffer s) account (eventTs p) = None)"
    if "p \<in> set ps" for p
  proof -
    from each [OF that] obtain e where e: "position_of (fs_ring_buffer s) account e = Inr p" by blast
    note q = position_legs [OF e]
    show ?thesis unfolding q(1,4) using q(2,3) by (auto simp: net_of_def split: option.splits)
  qed
  with list_all2_lengthD [OF l] show ?thesis by auto
qed

definition demo_supply :: RingEvent where
  "demo_supply = \<lparr>ev_name = ''Supplied'', ev_ts_ms = ''2000'',
     ev_data = [(''depositor'', JStr ''0xme''), (''deposit_quote'', JStr ''100''), (''shares_minted'', JStr ''50'')]\<rparr>"

theorem positions_net_quote_witness:
  "\<exists>p. usePositions (Some (demo_ring [demo_supply])) (Some ''0xme'') = Inr [p] \<and> netQuote p = None"
proof -
  obtain p where p: "usePositions (Some (demo_ring [demo_supply])) (Some ''0xme'') = Inr [p]" "plpYield p = None"
    by (simp add: usePositions_def demo_ring_def own_supply_def position_of_def findMatchingMint_def
        findMatchingRedemption_def bigint_of_def yield_of_def demo_supply_def ends_with_def jget_def)
      (simp add: literal_defs)
  with positions_net_quote [OF p(1)] show ?thesis by auto
qed

end
