(* ===== verification/JsDouble.thy ===== *)
theory JsDouble
  imports JsData
begin

text \<open>
  IEEE double arithmetic as far as the program uses it: rounding of an exact rational to the
  nearest double (ties to even, gradual underflow, overflow to infinity), the product of two numbers,
  \<open>Math.round\<close>, \<open>Math.abs\<close>, and the conversion \<open>Number(x)\<close> of a JSON value. The main facts bound the
  relative error of one rounding and show when a scaled product is recovered exactly.
\<close>

section \<open>Rounding\<close>

definition round_even :: "rat \<Rightarrow> int" where
  "round_even x =
     (let f = \<lfloor>x\<rfloor>; d = x - of_int f in if d > 1 / 2 \<or> (d = 1 / 2 \<and> odd f) then f + 1 else f)"

text \<open>The exponent of the last mantissa bit of a positive number: 53 bits, not below \<open>2^-1074\<close>.\<close>

definition raw_exp :: "rat \<Rightarrow> int" where
  "raw_exp x =
     (let (a, b) = quotient_of x; e = bitlen a - bitlen b - 53
      in if x < 2 powi (e + 53) then e else e + 1)"

definition ulp_exp :: "rat \<Rightarrow> int" where
  "ulp_exp x = max (- 1074) (raw_exp x)"

definition round_double :: "rat \<Rightarrow> rat" where
  "round_double x =
     (if x = 0 then 0
      else let p = 2 powi ulp_exp \<bar>x\<bar> in sgn x * (of_int (round_even (\<bar>x\<bar> / p)) * p))"

definition to_js :: "rat \<Rightarrow> js_number" where
  "to_js x = (let y = round_double x in if \<bar>y\<bar> \<ge> 2 ^ 1024 then Infinity (x < 0) else Num y)"

text \<open>The product with a positive finite constant, \<open>Math.round\<close>, \<open>Math.abs\<close> and \<open>x < 0\<close>.\<close>

fun js_times :: "js_number \<Rightarrow> rat \<Rightarrow> js_number" where
  "js_times (Num x) c = to_js (x * c)"
| "js_times (Infinity s) c = Infinity s"
| "js_times NaN c = NaN"

fun Math_round :: "js_number \<Rightarrow> js_number" where
  "Math_round (Num x) = Num (of_int \<lfloor>x + 1 / 2\<rfloor>)"
| "Math_round (Infinity s) = Infinity s"
| "Math_round NaN = NaN"

fun Math_abs :: "js_number \<Rightarrow> js_number" where
  "Math_abs (Num x) = Num \<bar>x\<bar>"
| "Math_abs (Infinity s) = Infinity False"
| "Math_abs NaN = NaN"

fun js_negative :: "js_number \<Rightarrow> bool" where
  "js_negative (Num x) \<longleftrightarrow> x < 0"
| "js_negative (Infinity s) \<longleftrightarrow> s"
| "js_negative NaN \<longleftrightarrow> False"

section \<open>Number of a JSON value\<close>

text \<open>\<open>StringToNumber\<close>: white space is trimmed, the empty string is zero, a decimal literal has a sign, a
  fraction and an exponent, and the prefixes \<open>0x\<close>, \<open>0o\<close>, \<open>0b\<close> select another base.\<close>

definition digit_run :: "string \<Rightarrow> string \<times> string" where
  "digit_run s = (let p = (\<lambda>c. 48 \<le> (of_char c :: nat) \<and> (of_char c :: nat) \<le> 57) in (takeWhile p s, dropWhile p s))"

definition digits_nat :: "string \<Rightarrow> nat" where
  "digits_nat s = (case parse_digits 10 0 s of None \<Rightarrow> 0 | Some n \<Rightarrow> n)"

definition signed_rest :: "string \<Rightarrow> bool \<times> string" where
  "signed_rest s =
     (case s of [] \<Rightarrow> (False, [])
      | c # cs \<Rightarrow> if c = CHR ''-'' then (True, cs) else if c = CHR ''+'' then (False, cs) else (False, s))"

definition exponent_part :: "string \<Rightarrow> int option" where
  "exponent_part s =
     (case s of [] \<Rightarrow> Some 0
      | c # cs \<Rightarrow>
          if c \<in> {CHR ''e'', CHR ''E''}
          then let (n, r) = signed_rest cs; (d, t) = digit_run r
               in if d = [] \<or> t \<noteq> [] then None else Some (if n then - int (digits_nat d) else int (digits_nat d))
          else None)"

definition decimal_literal :: "string \<Rightarrow> js_number" where
  "decimal_literal s =
     (let (i, r) = digit_run s;
          (f, t) = (case r of c # cs \<Rightarrow> if c = CHR ''.'' then digit_run cs else ([], r) | [] \<Rightarrow> ([], []))
      in if i = [] \<and> f = [] then NaN
         else case exponent_part t of
             None \<Rightarrow> NaN
           | Some e \<Rightarrow> Num (of_nat (digits_nat (i @ f)) * 10 powi (e - int (length f))))"

definition StringToNumber :: "string \<Rightarrow> js_number" where
  "StringToNumber s0 =
     (let s = trim s0; (n, r) = signed_rest s in
      if s = [] then Num 0
      else if r = ''Infinity'' then Infinity n
      else if length s > 2 \<and> s ! 0 = CHR ''0'' \<and> s ! 1 \<in> {CHR ''x'', CHR ''X'', CHR ''o'', CHR ''O'', CHR ''b'', CHR ''B''}
      then (case parse_literal s of Inl _ \<Rightarrow> NaN | Inr i \<Rightarrow> to_js (of_int i))
      else case decimal_literal r of
          Num x \<Rightarrow> to_js (if n then - x else x)
        | y \<Rightarrow> y)"

text \<open>\<open>Number(x)\<close>; \<open>None\<close> is \<open>undefined\<close>. An array is converted through its text: no element is the empty
  text, one element is its own text, and more elements have a comma in it. The numbers of a parsed
  value are already doubles.\<close>

fun Number_of_json :: "json \<Rightarrow> js_number" where
  "Number_of_json JNull = Num 0"
| "Number_of_json (JBool b) = Num (if b then 1 else 0)"
| "Number_of_json (JNum x) = Num x"
| "Number_of_json (JStr s) = StringToNumber s"
| "Number_of_json (JArr []) = Num 0"
| "Number_of_json (JArr [x]) = (case x of JBool _ \<Rightarrow> NaN | _ \<Rightarrow> Number_of_json x)"
| "Number_of_json (JArr (x # y # zs)) = NaN"
| "Number_of_json (JObj _) = NaN"

definition js_Number :: "json option \<Rightarrow> js_number" where
  "js_Number v = (case v of None \<Rightarrow> NaN | Some j \<Rightarrow> Number_of_json j)"

text \<open>\<open>parseInt(s, 10)\<close>: leading white space, a sign and the longest run of digits; \<open>None\<close> is \<open>NaN\<close>.\<close>

definition parseInt10 :: "string \<Rightarrow> int option" where
  "parseInt10 s =
     (let (n, r) = signed_rest (dropWhile is_space s); (d, t) = digit_run r
      in if d = [] then None else Some (to_double (if n then - int (digits_nat d) else int (digits_nat d))))"

section \<open>Error of a rounding\<close>

lemma round_even_error: "\<bar>of_int (round_even x) - x\<bar> \<le> 1 / 2"
proof -
  define f where "f = \<lfloor>x\<rfloor>"
  have "of_int f \<le> x" "x < of_int f + 1" unfolding f_def by linarith+
  then show ?thesis unfolding round_even_def Let_def f_def [symmetric] by (cases "odd f") auto
qed

text \<open>The chosen exponent places the number in its binade.\<close>

lemma bitlen_powi:
  fixes a :: int
  assumes "0 < a"
  shows "2 powi (bitlen a - 1) \<le> (of_int a :: rat)" "(of_int a :: rat) < 2 powi bitlen a"
proof -
  have b: "2 ^ nat (bitlen a - 1) \<le> a" "a < 2 ^ nat (bitlen a)"
    using bitlen_bounds [OF assms] by auto
  have n: "0 \<le> bitlen a - 1" "0 \<le> bitlen a" using bitlen_nonneg [of a] assms bitlen_eq_zero_iff [of a]
    by linarith+
  have "(2 ^ nat (bitlen a - 1) :: rat) = of_int (2 ^ nat (bitlen a - 1))" by simp
  also have "\<dots> \<le> of_int a" using b(1) by (simp only: of_int_le_iff)
  finally show "2 powi (bitlen a - 1) \<le> (of_int a :: rat)" using n by (simp add: power_int_def)
  have "(of_int a :: rat) < of_int (2 ^ nat (bitlen a))" using b(2) by (simp only: of_int_less_iff)
  then show "(of_int a :: rat) < 2 powi bitlen a" using n by (simp add: power_int_def)
qed

lemma raw_exp_binade:
  assumes "0 < x"
  shows "2 powi (raw_exp x + 52) \<le> x" "x < 2 powi (raw_exp x + 53)"
proof -
  obtain a b where q: "quotient_of x = (a, b)" by fastforce
  have x: "x = of_int a / of_int b" and b: "0 < b"
    using q quotient_of_div quotient_of_denom_pos by blast+
  have a: "0 < a" using assms x b by (simp add: zero_less_divide_iff)
  define d where "d = bitlen a - bitlen b"
  note ba = bitlen_powi [OF a] and bb = bitlen_powi [OF b]
  have bpos: "(0 :: rat) < of_int b" using b by simp
  have "2 powi (d - 1) * of_int b \<le> (2 :: rat) powi (d - 1) * 2 powi bitlen b" using bb(2) by simp
  also have "\<dots> = (2 :: rat) powi (bitlen a - 1)" unfolding d_def by (simp add: power_int_add [symmetric])
  also have "\<dots> \<le> of_int a" by (rule ba(1))
  finally have lo: "2 powi (d - 1) \<le> x" unfolding x using bpos by (simp add: pos_le_divide_eq)
  have "of_int a < (2 :: rat) powi bitlen a" by (rule ba(2))
  also have "\<dots> = 2 powi (d + 1) * 2 powi (bitlen b - 1)" unfolding d_def by (simp add: power_int_add [symmetric])
  also have "\<dots> \<le> 2 powi (d + 1) * of_int b" using bb(1) by simp
  finally have hi: "x < 2 powi (d + 1)" unfolding x using bpos by (simp add: pos_divide_less_eq)
  have e: "raw_exp x = (if x < 2 powi d then d - 53 else d - 52)"
    by (simp add: raw_exp_def q d_def)
  show "2 powi (raw_exp x + 52) \<le> x" "x < 2 powi (raw_exp x + 53)"
    using lo hi unfolding e by (auto simp: add.commute)
qed

lemma ulp_exp_normal:
  assumes "2 powi (- 1022) \<le> x"
  shows "ulp_exp x = raw_exp x"
proof (rule ccontr)
  assume "ulp_exp x \<noteq> raw_exp x"
  then have "raw_exp x + 53 \<le> - 1022" by (simp add: ulp_exp_def max_def split: if_splits)
  then have "(2 :: rat) powi (raw_exp x + 53) \<le> 2 powi (- 1022)" by (rule power_int_increasing) simp
  moreover have "0 < x" using assms zero_less_power_int [of "2 :: rat" "- 1022"] by linarith
  ultimately show False using raw_exp_binade(2) [of x] assms by linarith
qed

text \<open>One rounding in the normal range changes a number by at most one part in \<open>2^53\<close>.\<close>

lemma round_double_error:
  assumes "2 powi (- 1022) \<le> \<bar>x\<bar>"
  shows "\<bar>round_double x - x\<bar> \<le> \<bar>x\<bar> / 2 ^ 53"
proof -
  have x: "0 < \<bar>x\<bar>" using assms zero_less_power_int [of "2 :: rat" "- 1022"] by linarith
  define p where "p = (2 :: rat) powi raw_exp \<bar>x\<bar>"
  define r where "r = (of_int (round_even (\<bar>x\<bar> / p)) :: rat)"
  have p: "0 < p" unfolding p_def by simp
  have "\<bar>r - \<bar>x\<bar> / p\<bar> * p \<le> 1 / 2 * p"
    using round_even_error p unfolding r_def by (intro mult_right_mono) auto
  also have "\<bar>r - \<bar>x\<bar> / p\<bar> * p = \<bar>(r - \<bar>x\<bar> / p) * p\<bar>" using p by (simp add: abs_mult)
  also have "(r - \<bar>x\<bar> / p) * p = r * p - \<bar>x\<bar>" using p by (simp add: left_diff_distrib)
  finally have e: "\<bar>r * p - \<bar>x\<bar>\<bar> \<le> 1 / 2 * p" .
  have "p * 2 ^ 52 = 2 powi (raw_exp \<bar>x\<bar> + 52)"
    unfolding p_def by (simp add: power_int_add)
  also have "\<dots> \<le> \<bar>x\<bar>" using raw_exp_binade(1) [OF x] .
  finally have u: "1 / 2 * p \<le> \<bar>x\<bar> / 2 ^ 53" by simp
  have "round_double x = sgn x * (r * p)"
    using x by (simp add: round_double_def ulp_exp_normal [OF assms] p_def r_def Let_def)
  moreover have "x = sgn x * \<bar>x\<bar>" by (simp add: sgn_mult_abs)
  ultimately have "round_double x - x = sgn x * (r * p - \<bar>x\<bar>)" by (simp add: right_diff_distrib)
  then have "\<bar>round_double x - x\<bar> = \<bar>r * p - \<bar>x\<bar>\<bar>" using x by (simp add: abs_mult abs_sgn_eq)
  with e u show ?thesis by linarith
qed

lemma round_double_minus: "round_double (- x) = - round_double x"
  by (simp add: round_double_def Let_def sgn_minus)

text \<open>A decimal with nine places survives the conversion to a double and the scaling by \<open>10^9\<close>.\<close>

lemma tiny_normal: "(2 :: rat) powi (- 1022) \<le> 1 / 10 ^ 9"
proof -
  have "(2 :: rat) powi (- 1022) \<le> 2 powi (- 30)" by (rule power_int_increasing) simp_all
  also have "\<dots> \<le> 1 / 10 ^ 9" by (simp add: power_int_def power_divide)
  finally show ?thesis .
qed

lemma round_quotient:
  assumes "k \<noteq> 0" "0 < D" "D \<le> 10 ^ 9"
  shows "\<bar>round_double (of_int k / D) * D - of_int k\<bar> \<le> \<bar>of_int k\<bar> / 2 ^ 53"
proof -
  define K :: rat where "K = of_int k"
  define v where "v = round_double (K / D)"
  have "of_int 1 \<le> (of_int \<bar>k\<bar> :: rat)" using assms(1) unfolding of_int_le_iff by linarith
  then have k1: "1 \<le> \<bar>K\<bar>" unfolding K_def by simp
  have "1 / 10 ^ 9 \<le> 1 / D" using assms(2,3) by (intro divide_left_mono) auto
  also have "\<dots> \<le> \<bar>K\<bar> / D" using k1 assms(2) by (intro divide_right_mono) auto
  finally have "2 powi (- 1022) \<le> \<bar>K / D\<bar>" using tiny_normal assms(2) by simp
  from round_double_error [OF this] have "\<bar>v - K / D\<bar> * D \<le> \<bar>K / D\<bar> / 2 ^ 53 * D"
    unfolding v_def using assms(2) by (intro mult_right_mono) auto
  also have "\<dots> = \<bar>K\<bar> / 2 ^ 53" using assms(2) by simp
  finally have "\<bar>v - K / D\<bar> * D \<le> \<bar>K\<bar> / 2 ^ 53" .
  moreover have "v * D - K = (v - K / D) * D" using assms(2) by (simp add: left_diff_distrib)
  then have "\<bar>v * D - K\<bar> = \<bar>v - K / D\<bar> * D" using assms(2) by (simp add: abs_mult)
  ultimately show ?thesis by (simp add: v_def K_def)
qed

lemma scaled_product:
  assumes "k \<noteq> 0" "\<bar>k\<bar> < 2 ^ 51"
  shows "\<bar>round_double (round_double (of_int k / 10 ^ 9) * 10 ^ 9) - of_int k\<bar> < 1 / 2"
proof -
  define K :: rat where "K = of_int k"
  define v where "v = round_double (K / 10 ^ 9)"
  have "1 \<le> \<bar>k\<bar>" "\<bar>k\<bar> \<le> 2 ^ 51 - 1" using assms by simp_all
  then have "of_int 1 \<le> (of_int \<bar>k\<bar> :: rat)" "of_int \<bar>k\<bar> \<le> (of_int (2 ^ 51 - 1) :: rat)"
    by (simp_all only: of_int_le_iff)
  then have k1: "1 \<le> \<bar>K\<bar>" and k2: "\<bar>K\<bar> \<le> 2 ^ 51 - 1" unfolding K_def by simp_all
  have e1: "\<bar>v * 10 ^ 9 - K\<bar> \<le> \<bar>K\<bar> / 2 ^ 53"
    using round_quotient [OF assms(1), of "10 ^ 9"] unfolding v_def K_def by simp
  have "\<bar>K\<bar> / 2 ^ 53 \<le> 1 / 4" using k2 by simp
  with e1 have b: "1 / 2 \<le> \<bar>v * 10 ^ 9\<bar>" "\<bar>v * 10 ^ 9\<bar> \<le> \<bar>K\<bar> + 1 / 4" using k1 by linarith+
  have "(1 :: rat) / 10 ^ 9 \<le> 1 / 2" by simp
  with tiny_normal b(1) have "2 powi (- 1022) \<le> \<bar>v * 10 ^ 9\<bar>" by (meson order_trans)
  note e2 = round_double_error [OF this]
  have "\<bar>v * 10 ^ 9\<bar> / 2 ^ 53 \<le> (\<bar>K\<bar> + 1 / 4) / 2 ^ 53" using b(2) by (rule divide_right_mono) simp
  moreover have "\<bar>K\<bar> / 2 ^ 53 + (\<bar>K\<bar> + 1 / 4) / 2 ^ 53 = (2 * \<bar>K\<bar> + 1 / 4) / 2 ^ 53" by (simp add: add_divide_distrib)
  moreover have "(2 * \<bar>K\<bar> + 1 / 4) / 2 ^ 53 < 1 / 2" using k2 by (subst pos_divide_less_eq) simp_all
  ultimately show ?thesis using e1 e2 unfolding v_def [symmetric] K_def [symmetric] by linarith
qed

end
