(* ===== verification/JsArith.thy ===== *)
theory JsArith
  imports JsDouble
begin

text \<open>
  The arithmetic of the language's numbers: each operation is the exact one on rationals followed by one
  rounding to a double, with infinities and \<open>NaN\<close>. There is one zero; a zero divisor counts as positive, which
  is the only kind the program divides by. \<open>x ** 2\<close> is the product. \<open>Math.sqrt\<close> is the correctly rounded root.
\<close>

section \<open>Operations\<close>

fun js_add :: "js_number \<Rightarrow> js_number \<Rightarrow> js_number" where
  "js_add NaN _ = NaN"
| "js_add _ NaN = NaN"
| "js_add (Num x) (Num y) = to_js (x + y)"
| "js_add (Infinity s) (Infinity t) = (if s = t then Infinity s else NaN)"
| "js_add (Infinity s) (Num _) = Infinity s"
| "js_add (Num _) (Infinity s) = Infinity s"

fun js_minus :: "js_number \<Rightarrow> js_number" where
  "js_minus (Num x) = Num (- x)"
| "js_minus (Infinity s) = Infinity (\<not> s)"
| "js_minus NaN = NaN"

definition js_sub :: "js_number \<Rightarrow> js_number \<Rightarrow> js_number" where
  "js_sub x y = js_add x (js_minus y)"

fun js_mul :: "js_number \<Rightarrow> js_number \<Rightarrow> js_number" where
  "js_mul NaN _ = NaN"
| "js_mul _ NaN = NaN"
| "js_mul (Num x) (Num y) = to_js (x * y)"
| "js_mul (Infinity s) (Infinity t) = Infinity (s \<noteq> t)"
| "js_mul (Infinity s) (Num y) = (if y = 0 then NaN else Infinity (s \<noteq> (y < 0)))"
| "js_mul (Num x) (Infinity s) = (if x = 0 then NaN else Infinity (s \<noteq> (x < 0)))"

fun js_div :: "js_number \<Rightarrow> js_number \<Rightarrow> js_number" where
  "js_div NaN _ = NaN"
| "js_div _ NaN = NaN"
| "js_div (Num x) (Num y) =
     (if y \<noteq> 0 then to_js (x / y) else if x = 0 then NaN else Infinity (x < 0))"
| "js_div (Infinity s) (Infinity t) = NaN"
| "js_div (Infinity s) (Num y) = Infinity (s \<noteq> (y < 0))"
| "js_div (Num x) (Infinity s) = Num 0"

text \<open>The integer square root, two bits at a time.\<close>

fun bit_sqrt :: "nat \<Rightarrow> nat" where
  "bit_sqrt n =
     (if n = 0 then 0
      else let r = 2 * bit_sqrt (n div 4) in if (r + 1) * (r + 1) \<le> n then r + 1 else r)"

declare bit_sqrt.simps [simp del]

definition round_sqrt :: "rat \<Rightarrow> rat" where
  "round_sqrt x =
     (let e = (raw_exp x + 52) div 2 - 52;
          y = x * 2 powi (- 2 * e);
          n = bit_sqrt (nat \<lfloor>y\<rfloor>);
          h = (of_nat n + 1 / 2) * (of_nat n + 1 / 2)
      in of_nat (if y > h \<or> (y = h \<and> odd n) then n + 1 else n) * 2 powi e)"

fun Math_sqrt :: "js_number \<Rightarrow> js_number" where
  "Math_sqrt (Num x) = (if x < 0 then NaN else if x = 0 then Num 0 else Num (round_sqrt x))"
| "Math_sqrt (Infinity s) = (if s then NaN else Infinity False)"
| "Math_sqrt NaN = NaN"

fun js_less :: "js_number \<Rightarrow> js_number \<Rightarrow> bool" where
  "js_less (Num x) (Num y) = (x < y)"
| "js_less (Num x) (Infinity s) = (\<not> s)"
| "js_less (Infinity s) (Num y) = s"
| "js_less (Infinity s) (Infinity t) = (s \<and> \<not> t)"
| "js_less _ _ = False"

definition js_le :: "js_number \<Rightarrow> js_number \<Rightarrow> bool" where
  "js_le x y \<longleftrightarrow> x \<noteq> NaN \<and> (js_less x y \<or> x = y)"

definition js_eq :: "js_number \<Rightarrow> js_number \<Rightarrow> bool" where
  "js_eq x y \<longleftrightarrow> x \<noteq> NaN \<and> x = y"

definition Math_min :: "js_number \<Rightarrow> js_number \<Rightarrow> js_number" where
  "Math_min x y = (if x = NaN \<or> y = NaN then NaN else if js_less y x then y else x)"

definition Math_max :: "js_number \<Rightarrow> js_number \<Rightarrow> js_number" where
  "Math_max x y = (if x = NaN \<or> y = NaN then NaN else if js_less x y then y else x)"

text \<open>\<open>Number(i)\<close> of a \<open>bigint\<close>.\<close>

definition Number_of_int :: "int \<Rightarrow> js_number" where
  "Number_of_int i = to_js (of_int i)"

definition js_int :: "int \<Rightarrow> js_number" where
  "js_int i = Num (of_int i)"

section \<open>The square root\<close>

lemma bit_sqrt_correct: "bit_sqrt n * bit_sqrt n \<le> n \<and> n < (bit_sqrt n + 1) * (bit_sqrt n + 1)"
proof (induction n rule: bit_sqrt.induct)
  case (1 n)
  show ?case
  proof (cases "n = 0")
    case True
    then show ?thesis by (simp add: bit_sqrt.simps [of 0])
  next
    case False
    define q where "q = bit_sqrt (n div 4)"
    from 1 False have q: "q * q \<le> n div 4" "n div 4 < (q + 1) * (q + 1)" by (simp_all add: q_def)
    then have lo: "4 * (q * q) \<le> n" by linarith
    have "n div 4 + 1 \<le> (q + 1) * (q + 1)" using q(2) by simp
    then have "n < 4 * ((q + 1) * (q + 1))" by linarith
    then have hi: "n < (2 * q + 2) * (2 * q + 2)" by (simp add: algebra_simps)
    have b: "bit_sqrt n = (if (2 * q + 1) * (2 * q + 1) \<le> n then 2 * q + 1 else 2 * q)"
      using False by (subst bit_sqrt.simps) (simp add: q_def Let_def)
    show ?thesis using lo hi unfolding b by (simp add: algebra_simps)
  qed
qed

text \<open>The rounded root is within half a unit in the last place of the real one.\<close>

lemma round_sqrt_bounds:
  assumes "0 < x" "p = 2 powi ((raw_exp x + 52) div 2 - 52)"
  shows "(round_sqrt x + p / 2) * (round_sqrt x + p / 2) \<ge> x"
    "round_sqrt x = 0 \<or> (round_sqrt x - p / 2) * (round_sqrt x - p / 2) \<le> x"
proof -
  define e where "e = (raw_exp x + 52) div 2 - 52"
  have p: "p = 2 powi e" "0 < p" using assms(2) by (simp_all add: e_def)
  define y where "y = x * 2 powi (- 2 * e)"
  have "(2 :: rat) powi (- 2 * e) * (p * p) = 2 powi (- 2 * e + (e + e))"
    unfolding p(1) by (simp add: power_int_add [symmetric])
  then have y: "x = y * (p * p)" unfolding y_def by simp
  have y0: "0 < y" using assms(1) unfolding y_def by simp
  define n where "n = bit_sqrt (nat \<lfloor>y\<rfloor>)"
  define N :: rat where "N = of_nat n"
  have "n * n \<le> nat \<lfloor>y\<rfloor>" "nat \<lfloor>y\<rfloor> < (n + 1) * (n + 1)" using bit_sqrt_correct unfolding n_def by blast+
  then have "int (n * n) \<le> \<lfloor>y\<rfloor>" "\<lfloor>y\<rfloor> < int ((n + 1) * (n + 1))" using y0 by linarith+
  then have "of_int (int (n * n)) \<le> y" "y < of_int (int ((n + 1) * (n + 1)))"
    by (simp_all only: le_floor_iff floor_less_iff)
  then have n: "N * N \<le> y" "y < (N + 1) * (N + 1)" unfolding N_def by (simp_all add: algebra_simps)
  define m where "m = (if y > (N + 1 / 2) * (N + 1 / 2) \<or> (y = (N + 1 / 2) * (N + 1 / 2) \<and> odd n) then N + 1 else N)"
  have r: "round_sqrt x = m * p"
    unfolding round_sqrt_def Let_def e_def [symmetric] y_def [symmetric] n_def [symmetric] N_def [symmetric] m_def p(1)
    by (simp add: N_def)
  have N0: "0 \<le> N" unfolding N_def by simp
  have N1: "N = 0 \<or> 1 \<le> N" unfolding N_def by (cases n) auto
  have hi: "y \<le> (m + 1 / 2) * (m + 1 / 2)"
    using n N0 unfolding m_def by (auto simp: algebra_simps)
  have lo: "m = 0 \<or> (m - 1 / 2) * (m - 1 / 2) \<le> y"
    using n N0 N1 unfolding m_def by (auto simp: algebra_simps)
  have "y * (p * p) \<le> (m + 1 / 2) * (m + 1 / 2) * (p * p)" using hi p(2) by (intro mult_right_mono) auto
  then have "y * (p * p) \<le> (m * p + p / 2) * (m * p + p / 2)" by (simp add: algebra_simps)
  then show "(round_sqrt x + p / 2) * (round_sqrt x + p / 2) \<ge> x" unfolding r y [symmetric] .
  show "round_sqrt x = 0 \<or> (round_sqrt x - p / 2) * (round_sqrt x - p / 2) \<le> x"
    using lo
  proof
    assume "(m - 1 / 2) * (m - 1 / 2) \<le> y"
    then have "(m - 1 / 2) * (m - 1 / 2) * (p * p) \<le> y * (p * p)" using p(2) by (intro mult_right_mono) auto
    then have "(m * p - p / 2) * (m * p - p / 2) \<le> y * (p * p)" by (simp add: algebra_simps)
    then show ?thesis unfolding r y [symmetric] by blast
  qed (simp add: r)
qed

section \<open>Signs\<close>

text \<open>Not negative, or not a number: what sums of squares and their roots always are.\<close>

fun js_nonneg :: "js_number \<Rightarrow> bool" where
  "js_nonneg (Num x) \<longleftrightarrow> 0 \<le> x"
| "js_nonneg (Infinity s) \<longleftrightarrow> \<not> s"
| "js_nonneg NaN \<longleftrightarrow> True"

lemma round_even_nonneg: "0 \<le> x \<Longrightarrow> 0 \<le> round_even x"
  by (simp add: round_even_def Let_def)

lemma to_js_nonneg: "0 \<le> x \<Longrightarrow> js_nonneg (to_js x)"
proof -
  assume x: "0 \<le> x"
  have "0 \<le> round_double x"
    using x by (auto simp: round_double_def Let_def intro!: mult_nonneg_nonneg round_even_nonneg)
  with x show ?thesis by (simp add: to_js_def Let_def)
qed

lemma js_add_nonneg: "js_nonneg x \<Longrightarrow> js_nonneg y \<Longrightarrow> js_nonneg (js_add x y)"
  by (cases x; cases y) (auto intro: to_js_nonneg)

lemma js_mul_nonneg: "js_nonneg x \<Longrightarrow> js_nonneg y \<Longrightarrow> js_nonneg (js_mul x y)"
  by (cases x; cases y) (auto intro: to_js_nonneg)

lemma js_square_nonneg: "js_nonneg (js_mul x x)"
  by (cases x) (auto intro: to_js_nonneg)

lemma js_div_nonneg: "js_nonneg x \<Longrightarrow> js_nonneg y \<Longrightarrow> js_nonneg (js_div x y)"
  by (cases x; cases y) (auto intro: to_js_nonneg)

lemma Math_sqrt_nonneg: "js_nonneg (Math_sqrt x)"
  by (cases x) (auto simp: round_sqrt_def Let_def)

lemma js_fold_nonneg:
  "(\<And>v. v \<in> set vs \<Longrightarrow> js_nonneg (f v)) \<Longrightarrow> js_nonneg acc \<Longrightarrow> js_nonneg (foldl (\<lambda>acc v. js_add acc (f v)) acc vs)"
  by (induction vs arbitrary: acc) (auto intro: js_add_nonneg)

section \<open>Rounding and integers\<close>

lemma round_even_mono_int: "of_int n \<le> x \<Longrightarrow> n \<le> round_even x" "x \<le> of_int n \<Longrightarrow> round_even x \<le> n"
proof -
  show "n \<le> round_even x" if "of_int n \<le> x"
  proof -
    have "n \<le> \<lfloor>x\<rfloor>" using that by (simp add: le_floor_iff)
    then show ?thesis by (simp add: round_even_def Let_def)
  qed
  show "round_even x \<le> n" if "x \<le> of_int n"
  proof (cases "\<lfloor>x\<rfloor> = n")
    case True
    with that have "x = of_int n" by (metis of_int_floor_le order_antisym)
    then show ?thesis by (simp add: round_even_def Let_def)
  next
    case False
    with that have "\<lfloor>x\<rfloor> < n" by (metis floor_mono floor_of_int order_le_imp_less_or_eq)
    then show ?thesis by (simp add: round_even_def Let_def)
  qed
qed

lemma ulp_exp_fraction:
  assumes "0 < x" "x < 2 ^ 53"
  shows "ulp_exp x \<le> 0"
proof (rule ccontr)
  assume "\<not> ulp_exp x \<le> 0"
  then have "(53 :: int) \<le> raw_exp x + 52" by (simp add: ulp_exp_def max_def split: if_splits)
  then have "(2 :: rat) powi 53 \<le> 2 powi (raw_exp x + 52)" by (rule power_int_increasing) simp
  with raw_exp_binade(1) [OF assms(1)] assms(2) show False by simp
qed

text \<open>A rounding never crosses an integer of at most 53 bits, so it is exact on them.\<close>

lemma round_double_pos_int:
  assumes "0 < x" "x < 2 ^ 53"
  shows "of_int c \<le> x \<Longrightarrow> of_int c \<le> round_double x" "x \<le> of_int c \<Longrightarrow> round_double x \<le> of_int c"
proof -
  define k where "k = nat (- ulp_exp x)"
  define p :: rat where "p = 2 powi ulp_exp x"
  have p: "p = 1 / 2 ^ k"
    using ulp_exp_fraction [OF assms] by (simp add: p_def k_def power_int_def power_divide)
  have n: "of_int c / p = of_int (c * 2 ^ k)" by (simp add: p)
  have r: "round_double x = of_int (round_even (x / p)) * p"
    using assms(1) by (simp add: round_double_def p_def Let_def)
  have c: "of_int c = of_int (c * 2 ^ k) * p" by (simp add: p)
  have p0: "0 \<le> p" by (simp add: p)
  show "of_int c \<le> round_double x" if "of_int c \<le> x"
  proof -
    have "of_int (c * 2 ^ k) \<le> x / p" unfolding n [symmetric] using that p0 by (rule divide_right_mono)
    from round_even_mono_int(1) [OF this] show ?thesis
      unfolding r c using p0 by (intro mult_right_mono) (simp only: of_int_le_iff)
  qed
  show "round_double x \<le> of_int c" if "x \<le> of_int c"
  proof -
    have "x / p \<le> of_int (c * 2 ^ k)" unfolding n [symmetric] using that p0 by (rule divide_right_mono)
    from round_even_mono_int(2) [OF this] show ?thesis
      unfolding r c using p0 by (intro mult_right_mono) (simp only: of_int_le_iff)
  qed
qed

lemma round_double_int_bounds:
  assumes "\<bar>x\<bar> < 2 ^ 53"
  shows "of_int c \<le> x \<Longrightarrow> of_int c \<le> round_double x" "x \<le> of_int c \<Longrightarrow> round_double x \<le> of_int c"
proof -
  have "(of_int c \<le> x \<longrightarrow> of_int c \<le> round_double x) \<and> (x \<le> of_int c \<longrightarrow> round_double x \<le> of_int c)"
  proof (cases x "0 :: rat" rule: linorder_cases)
    case less
    with assms have x: "0 < - x" "- x < 2 ^ 53" by simp_all
    show ?thesis
      using round_double_pos_int [OF x, of "- c"] by (auto simp: round_double_minus)
  next
    case equal
    then show ?thesis by (simp add: round_double_def)
  next
    case greater
    with assms have x: "0 < x" "x < 2 ^ 53" by simp_all
    show ?thesis using round_double_pos_int [OF x, of c] by simp
  qed
  then show "of_int c \<le> x \<Longrightarrow> of_int c \<le> round_double x" "x \<le> of_int c \<Longrightarrow> round_double x \<le> of_int c"
    by blast+
qed

lemma to_js_bounded:
  assumes "of_int a \<le> x" "x \<le> of_int b" "\<bar>a\<bar> < 2 ^ 53" "\<bar>b\<bar> < 2 ^ 53"
  shows "to_js x = Num (round_double x)" "of_int a \<le> round_double x" "round_double x \<le> of_int b"
proof -
  have "\<bar>of_int a\<bar> < (2 ^ 53 :: rat)" "\<bar>of_int b\<bar> < (2 ^ 53 :: rat)"
    using assms(3,4) of_int_less_iff [of "\<bar>a\<bar>" "2 ^ 53", where ?'a = rat]
      of_int_less_iff [of "\<bar>b\<bar>" "2 ^ 53", where ?'a = rat] by simp_all
  with assms(1,2) have x: "\<bar>x\<bar> < 2 ^ 53" and ab: "- (2 ^ 53) < (of_int a :: rat)" "of_int b < (2 ^ 53 :: rat)"
    by linarith+
  show lo: "of_int a \<le> round_double x" and hi: "round_double x \<le> of_int b"
    using round_double_int_bounds [OF x] assms(1,2) by blast+
  have "\<bar>round_double x\<bar> < 2 ^ 53" using lo hi ab by linarith
  moreover have "(2 ^ 53 :: rat) < 2 ^ 1024" by (rule power_strict_increasing) simp_all
  ultimately have "\<not> 2 ^ 1024 \<le> \<bar>round_double x\<bar>" by linarith
  then show "to_js x = Num (round_double x)" by (simp add: to_js_def Let_def)
qed

lemma to_js_of_int: "\<bar>i\<bar> < 2 ^ 53 \<Longrightarrow> to_js (of_int i) = Num (of_int i)"
  using to_js_bounded [of i "of_int i" i] by (simp add: order_antisym)

lemma to_js_numeral:
  assumes "(numeral n :: int) < 2 ^ 53"
  shows "to_js (numeral n) = Num (numeral n)" "to_js (- numeral n) = Num (- numeral n)"
  using assms to_js_of_int [of "numeral n"] to_js_of_int [of "- numeral n"] by simp_all

lemma to_js_0 [simp]: "to_js 0 = Num 0"
  by (simp add: to_js_def round_double_def)

end
