(* ===== verification/DashboardSigma.thy ===== *)
theory DashboardSigma
  imports DashboardHooks JsArith
begin

text \<open>
  \<open>dashboard/src/hooks/useSigmaEstimates.ts\<close> with its constants of \<open>dashboard_constants.ts\<close>: the volatility of
  the level parameter over the events of the ring, in floating-point numbers, with a fixed value while there
  are too few observations. The theory proves when the estimate is live and which values it can take.
\<close>

definition BOOTSTRAP_SIGMA_THETA_PCT :: js_number where
  "BOOTSTRAP_SIGMA_THETA_PCT = js_int 20"

definition BOOTSTRAP_SIGMA_SPOT_PCT :: js_number where
  "BOOTSTRAP_SIGMA_SPOT_PCT = js_int 20"

definition BOOTSTRAP_MIN_OBSERVATIONS :: nat where
  "BOOTSTRAP_MIN_OBSERVATIONS = 7"

definition SIGMA_ROLLING_WINDOW_MS :: int where
  "SIGMA_ROLLING_WINDOW_MS = 30 * 24 * 60 * 60 * 1000"

definition SIGMA_THETA_PCT_CAP :: js_number where
  "SIGMA_THETA_PCT_CAP = js_int 50"

record SigmaEstimates =
  sigmaThetaPct :: js_number
  sigmaSpotPct :: js_number
  isBootstrap :: bool
  isThetaBootstrap :: bool
  observationCount :: nat

definition ends_with :: "string \<Rightarrow> string \<Rightarrow> bool" where
  "ends_with suf s \<longleftrightarrow> starts_with (rev suf) (rev s)"

definition in_window :: "int \<Rightarrow> RingEvent \<Rightarrow> bool" where
  "in_window cutoff e \<longleftrightarrow>
     ends_with ''OracleSVIUpdated'' (ev_name e) \<and> js_le (js_int cutoff) (StringToNumber (ev_ts_ms e))"

text \<open>\<open>typeof raw === 'string' ? Number(raw) : Number(raw ?? 0)\<close>, divided by the scale.\<close>

definition a_value :: "RingEvent \<Rightarrow> js_number" where
  "a_value e =
     js_div (js_Number (nullish (jget (ev_data e) ''a'') (Some (JNum 0)))) (js_int 1000000000)"

definition bootstrap_estimates :: "nat \<Rightarrow> SigmaEstimates" where
  "bootstrap_estimates n =
     \<lparr>sigmaThetaPct = BOOTSTRAP_SIGMA_THETA_PCT, sigmaSpotPct = BOOTSTRAP_SIGMA_SPOT_PCT, isBootstrap = True,
      isThetaBootstrap = True, observationCount = n\<rparr>"

definition mean_of :: "js_number list \<Rightarrow> js_number" where
  "mean_of vs = js_div (foldl js_add (js_int 0) vs) (js_int (int (length vs)))"

definition variance_of :: "js_number list \<Rightarrow> js_number" where
  "variance_of vs =
     (let mean = mean_of vs in
      js_div (foldl (\<lambda>acc v. js_add acc (js_mul (js_sub v mean) (js_sub v mean))) (js_int 0) vs)
        (Math_max (js_int 1) (js_int (int (length vs) - 1))))"

definition theta_pct :: "js_number list \<Rightarrow> js_number" where
  "theta_pct aValues =
     (let mean = mean_of aValues; stdev = Math_sqrt (variance_of aValues) in
      if js_eq mean (js_int 0) then BOOTSTRAP_SIGMA_THETA_PCT
      else Math_min SIGMA_THETA_PCT_CAP (js_mul (js_div stdev mean) (js_int 100)))"

definition useSigmaEstimates :: "int \<Rightarrow> FullSnapshot option \<Rightarrow> SigmaEstimates" where
  "useSigmaEstimates now snapshot =
     (case snapshot of
        None \<Rightarrow> bootstrap_estimates 0
      | Some s \<Rightarrow>
          (let cutoff = now - SIGMA_ROLLING_WINDOW_MS;
               oracleEvents = filter (in_window cutoff) (fs_ring_buffer s)
           in if length oracleEvents < BOOTSTRAP_MIN_OBSERVATIONS then bootstrap_estimates (length oracleEvents)
              else \<lparr>sigmaThetaPct = theta_pct (map a_value oracleEvents), sigmaSpotPct = BOOTSTRAP_SIGMA_SPOT_PCT,
                    isBootstrap = True, isThetaBootstrap = False, observationCount = length oracleEvents\<rparr>))"

section \<open>Values of the estimate\<close>

lemma variance_nonneg: "js_nonneg (variance_of vs)"
  unfolding variance_of_def Let_def
  by (intro js_div_nonneg js_fold_nonneg js_square_nonneg) (auto simp: js_int_def Math_max_def)

lemma mean_nonneg:
  assumes "\<And>v. v \<in> set vs \<Longrightarrow> js_nonneg v"
  shows "js_nonneg (mean_of vs)"
  unfolding mean_of_def
  by (intro js_div_nonneg js_fold_nonneg [where f = "\<lambda>v. v"]) (use assms in \<open>auto simp: js_int_def\<close>)

lemma theta_pct_range:
  assumes "\<And>v. v \<in> set vs \<Longrightarrow> js_nonneg v"
  shows "theta_pct vs = NaN \<or> (\<exists>x. theta_pct vs = Num x \<and> 0 \<le> x \<and> x \<le> 50)"
proof (cases "js_eq (mean_of vs) (js_int 0)")
  case True
  then show ?thesis by (simp add: theta_pct_def BOOTSTRAP_SIGMA_THETA_PCT_def js_int_def)
next
  case False
  define q where "q = js_mul (js_div (Math_sqrt (variance_of vs)) (mean_of vs)) (js_int 100)"
  have "js_nonneg q" unfolding q_def
    by (intro js_mul_nonneg js_div_nonneg Math_sqrt_nonneg mean_nonneg) (simp_all add: js_int_def assms)
  moreover have "theta_pct vs = Math_min (Num 50) q"
    using False by (simp add: theta_pct_def q_def SIGMA_THETA_PCT_CAP_def js_int_def)
  ultimately show ?thesis by (cases q) (auto simp: Math_min_def)
qed

text \<open>The volatility estimate is live exactly from the seventh oracle event of the window on, is never
  negative and never above fifty percent when the observed levels are not negative (or is not a number, when
  they overflow), always reports the fixed spot value and says so.\<close>

theorem sigma_estimates:
  assumes evs_def: "evs = filter (in_window (now - SIGMA_ROLLING_WINDOW_MS)) (fs_ring_buffer s)"
    and "\<forall>e\<in>set evs. js_nonneg (a_value e)"
  shows "let r = useSigmaEstimates now (Some s) in
    observationCount r = length evs \<and> isThetaBootstrap r = (length evs < 7) \<and> isBootstrap r
    \<and> sigmaSpotPct r = Num 20
    \<and> (sigmaThetaPct r = NaN \<or> (\<exists>x. sigmaThetaPct r = Num x \<and> 0 \<le> x \<and> x \<le> 50))"
proof (cases "length evs < 7")
  case True
  then show ?thesis
    by (simp add: useSigmaEstimates_def evs_def [symmetric] bootstrap_estimates_def BOOTSTRAP_MIN_OBSERVATIONS_def
        BOOTSTRAP_SIGMA_SPOT_PCT_def BOOTSTRAP_SIGMA_THETA_PCT_def js_int_def Let_def)
next
  case False
  have "theta_pct (map a_value evs) = NaN \<or> (\<exists>x. theta_pct (map a_value evs) = Num x \<and> 0 \<le> x \<and> x \<le> 50)"
    using assms by (intro theta_pct_range) auto
  with False show ?thesis
    by (simp add: useSigmaEstimates_def evs_def [symmetric] BOOTSTRAP_MIN_OBSERVATIONS_def
        BOOTSTRAP_SIGMA_SPOT_PCT_def js_int_def Let_def)
qed

definition demo_oracle_event :: RingEvent where
  "demo_oracle_event = \<lparr>ev_name = ''OracleSVIUpdated'', ev_ts_ms = ''5'', ev_data = [(''a'', JNum 40000000)]\<rparr>"

theorem sigma_estimates_witness:
  "let r = useSigmaEstimates 7 (Some \<lparr>fs_oracles = [], fs_vault = None,
       fs_ring_buffer = replicate 7 demo_oracle_event, fs_served_at_ms = ''0''\<rparr>)
   in observationCount r = 7 \<and> \<not> isThetaBootstrap r
     \<and> (sigmaThetaPct r = NaN \<or> (\<exists>x. sigmaThetaPct r = Num x \<and> 0 \<le> x \<and> x \<le> 50))"
proof -
  let ?s = "\<lparr>fs_oracles = [], fs_vault = None, fs_ring_buffer = replicate 7 demo_oracle_event, fs_served_at_ms = ''0''\<rparr>"
  have d: "decimal_literal ''5'' = Num 5"
    by (simp add: decimal_literal_def digit_run_def exponent_part_def digits_nat_def char_digit_def)
  have "js_nonneg (to_js 5)" by (rule to_js_nonneg) simp
  then have "js_less (Num (- 2591999993)) (to_js 5)" by (cases "to_js 5") (auto simp: to_js_def Let_def split: if_splits)
  then have "in_window (7 - SIGMA_ROLLING_WINDOW_MS) demo_oracle_event"
    by (simp add: in_window_def demo_oracle_event_def ends_with_def starts_with_def js_le_def js_int_def
        SIGMA_ROLLING_WINDOW_MS_def StringToNumber_def trim_def is_space_def signed_rest_def d Let_def)
  then have e: "replicate 7 demo_oracle_event = filter (in_window (7 - SIGMA_ROLLING_WINDOW_MS)) (fs_ring_buffer ?s)"
    by (simp add: filter_id_conv)
  have "js_nonneg (a_value demo_oracle_event)"
    by (simp add: a_value_def demo_oracle_event_def jget_def nullish_def js_Number_def js_int_def to_js_nonneg)
  then have "\<forall>e\<in>set (replicate 7 demo_oracle_event). js_nonneg (a_value e)" by simp
  from sigma_estimates [OF e this] show ?thesis by (simp add: Let_def)
qed

end
