(* ===== verification/ArbChecker.thy ===== *)
theory ArbChecker
  imports Svi JsArith
begin

text \<open>
  \<open>dashboard/src/lib/arb_checker.ts\<close>: the sampled check that a volatility surface has no butterfly arbitrage.
  The curve \<open>g\<close> is evaluated with the language's floating-point numbers on 200 strikes, rounded to the
  fixed-point scale, and every strike is probed with the exact evaluator. The theory proves what the verdict
  means on the values that are shown, and which exception can escape.
\<close>

section \<open>The curve\<close>

definition F_NUM :: js_number where
  "F_NUM = js_int 1000000000"

definition scaled :: "int \<Rightarrow> js_number" where
  "scaled i = js_div (Number_of_int i) F_NUM"

definition radius :: "SVIParams \<Rightarrow> js_number \<Rightarrow> js_number" where
  "radius svi k =
     (let t = js_sub k (scaled (svi_m svi)); sigma = scaled (svi_sigma svi)
      in Math_sqrt (js_add (js_mul t t) (js_mul sigma sigma)))"

definition wFloat :: "SVIParams \<Rightarrow> js_number \<Rightarrow> js_number" where
  "wFloat svi kFloat =
     (let a = scaled (svi_a svi); b = scaled (svi_b svi); rho = scaled (svi_rho svi);
          t = js_sub kFloat (scaled (svi_m svi)); r = radius svi kFloat
      in js_add a (js_mul b (js_add (js_mul rho t) r)))"

definition wPrimeFloat :: "SVIParams \<Rightarrow> js_number \<Rightarrow> js_number" where
  "wPrimeFloat svi kFloat =
     (let b = scaled (svi_b svi); rho = scaled (svi_rho svi);
          t = js_sub kFloat (scaled (svi_m svi)); r = radius svi kFloat
      in if js_eq r (js_int 0) then js_int 0 else js_mul b (js_add rho (js_div t r)))"

definition wDoublePrimeFloat :: "SVIParams \<Rightarrow> js_number \<Rightarrow> js_number" where
  "wDoublePrimeFloat svi kFloat =
     (let b = scaled (svi_b svi); sigma = scaled (svi_sigma svi); r = radius svi kFloat
      in if js_eq r (js_int 0) then js_int 0
         else js_div (js_mul (js_mul b sigma) sigma) (js_mul (js_mul r r) r))"

definition gOfKFloat :: "SVIParams \<Rightarrow> js_number \<Rightarrow> js_number" where
  "gOfKFloat svi kFloat =
     (let w = wFloat svi kFloat in
      if js_le w (js_int 0) then js_int (- 1)
      else let wp = wPrimeFloat svi kFloat;
               wpp = wDoublePrimeFloat svi kFloat;
               d = js_sub (js_int 1) (js_div (js_mul kFloat wp) (js_mul (js_int 2) w));
               term1 = js_mul d d;
               term2 = js_mul (js_div (js_mul wp wp) (js_int 4)) (js_add (js_div (js_int 1) w) (Num (1 / 4)));
               term3 = js_div wpp (js_int 2)
           in js_add (js_sub term1 term2) term3)"

section \<open>The check\<close>

record ArbResult =
  paramsValid :: bool
  minGk :: int
  calendarPass :: bool
  gK :: "int list"

definition degenerate_result :: ArbResult where
  "degenerate_result =
     \<lparr>paramsValid = False, minGk = - FLOAT_SCALING, calendarPass = True,
      gK = replicate (nat (SVI_GRID_POINTS_FOR_ARB_CHECK STRATEGY_CONSTANTS)) (- FLOAT_SCALING)\<rparr>"

definition to_units :: "js_number \<Rightarrow> int res" where
  "to_units x = BigInt_of_number (Math_round (js_mul x F_NUM))"

definition grid_point :: "js_number \<Rightarrow> nat \<Rightarrow> js_number" where
  "grid_point kMax i =
     js_add (js_minus kMax)
       (js_div (js_mul (js_mul (js_int 2) kMax) (js_int (int i)))
         (js_int (SVI_GRID_POINTS_FOR_ARB_CHECK STRATEGY_CONSTANTS - 1)))"

text \<open>One pass of the loop: the conversion of the strike is outside the \<open>try\<close> and its exception escapes.\<close>

definition sample_point :: "SVIParams \<Rightarrow> js_number \<Rightarrow> nat \<Rightarrow> bool \<times> js_number list \<Rightarrow> (bool \<times> js_number list) res" where
  "sample_point svi kMax i = (\<lambda>(canonicalEvaluatorOk, gs).
     let kFloat = grid_point kMax i; gs' = gs @ [gOfKFloat svi kFloat] in
     if canonicalEvaluatorOk
     then bindE (to_units kFloat) (\<lambda>kInt. Inr (returns (totalVariance svi kInt), gs'))
     else Inr (False, gs'))"

fun sample_loop :: "SVIParams \<Rightarrow> js_number \<Rightarrow> nat list \<Rightarrow> bool \<times> js_number list \<Rightarrow> (bool \<times> js_number list) res" where
  "sample_loop svi kMax [] st = Inr st"
| "sample_loop svi kMax (i # is) st = bindE (sample_point svi kMax i st) (sample_loop svi kMax is)"

fun units_list :: "js_number list \<Rightarrow> int list res" where
  "units_list [] = Inr []"
| "units_list (g # gs) = bindE (to_units g) (\<lambda>v. bindE (units_list gs) (\<lambda>vs. Inr (v # vs)))"

definition minG :: "int list \<Rightarrow> int" where
  "minG gs = fold (\<lambda>g m. if g < m then g else m) gs (hd gs)"

definition arb_kMax :: "SVIParams \<Rightarrow> js_number option" where
  "arb_kMax svi =
     (let thetaTAtmInt = svi_a svi + (svi_b svi * svi_sigma svi) sdiv FLOAT_SCALING in
      if thetaTAtmInt \<le> 0 then None
      else let k = js_mul (js_int (SVI_STRIKE_RANGE_SIGMA STRATEGY_CONSTANTS)) (Math_sqrt (scaled thetaTAtmInt))
           in if js_less (js_int 0) k then Some k else None)"

definition checkArb :: "SVIParams \<Rightarrow> ArbResult res" where
  "checkArb svi =
     (case arb_kMax svi of
        None \<Rightarrow> Inr degenerate_result
      | Some kMax \<Rightarrow>
          bindE (sample_loop svi kMax [0..<nat (SVI_GRID_POINTS_FOR_ARB_CHECK STRATEGY_CONSTANTS)] (True, []))
            (\<lambda>(canonicalEvaluatorOk, gKFloats).
          bindE (units_list gKFloats) (\<lambda>gs.
          let m = minG gs in
          Inr \<lparr>paramsValid = (m \<ge> 0 \<and> canonicalEvaluatorOk), minGk = m, calendarPass = True, gK = gs\<rparr>)))"

section \<open>What the verdict means\<close>

lemma to_units_error: "to_units x = Inl e \<Longrightarrow> e = RangeError"
  by (auto simp: to_units_def BigInt_of_number_def split: js_number.splits if_splits)

text \<open>The strikes at which the exact evaluator accepts, in the units it is called with.\<close>

definition probe_ok :: "SVIParams \<Rightarrow> js_number \<Rightarrow> nat \<Rightarrow> bool" where
  "probe_ok svi kMax i = (case to_units (grid_point kMax i) of Inl _ \<Rightarrow> False | Inr k \<Rightarrow> returns (totalVariance svi k))"

lemma sample_point_result:
  assumes "sample_point svi kMax i (ok, gs) = Inr st"
  shows "st = (ok \<and> probe_ok svi kMax i, gs @ [gOfKFloat svi (grid_point kMax i)])"
  using assms by (auto simp: sample_point_def Let_def bindE_eq_Inr probe_ok_def split: if_splits)

lemma sample_loop_result:
  "sample_loop svi kMax is (ok, gs) = Inr st \<Longrightarrow>
     st = (ok \<and> list_all (probe_ok svi kMax) is, gs @ map (\<lambda>i. gOfKFloat svi (grid_point kMax i)) is)"
proof (induction "is" arbitrary: ok gs)
  case (Cons i "is")
  then obtain st1 where st1: "sample_point svi kMax i (ok, gs) = Inr st1" "sample_loop svi kMax is st1 = Inr st"
    by (auto simp: bindE_eq_Inr)
  then have "sample_loop svi kMax is (ok \<and> probe_ok svi kMax i, gs @ [gOfKFloat svi (grid_point kMax i)]) = Inr st"
    using sample_point_result by blast
  from Cons.IH [OF this] show ?case by auto
qed simp

lemma sample_loop_error: "sample_loop svi kMax is st = Inl e \<Longrightarrow> e = RangeError"
  by (induction "is" arbitrary: st)
    (auto simp: sample_point_def Let_def bindE_eq_Inl dest: to_units_error split: prod.splits if_splits)

lemma units_list_length: "units_list gs = Inr vs \<Longrightarrow> length vs = length gs"
  by (induction gs arbitrary: vs) (auto simp: bindE_eq_Inr)

lemma units_list_nth: "units_list gs = Inr vs \<Longrightarrow> i < length gs \<Longrightarrow> to_units (gs ! i) = Inr (vs ! i)"
  by (induction gs arbitrary: vs i) (auto simp: bindE_eq_Inr nth_Cons split: nat.splits)

lemma units_list_error: "units_list gs = Inl e \<Longrightarrow> e = RangeError"
  by (induction gs) (auto simp: bindE_eq_Inl dest: to_units_error)

lemma minG_Min: "gs \<noteq> [] \<Longrightarrow> minG gs = Min (set gs)"
proof -
  have "fold (\<lambda>g m. if g < m then g else m) gs m = Min (insert m (set gs))" for m :: int and gs
  proof (induction gs arbitrary: m)
    case (Cons g gs)
    have "fold (\<lambda>g m. if g < m then g else m) (g # gs) m = Min (insert (min g m) (set gs))"
      using Cons by (simp add: min_def)
    also have "\<dots> = Min (insert m (insert g (set gs)))"
      by (cases "gs = []") (simp_all add: min.assoc min.left_commute min.commute)
    finally show ?case by simp
  qed simp
  then show "gs \<noteq> [] \<Longrightarrow> minG gs = Min (set gs)" by (simp add: minG_def insert_absorb)
qed

text \<open>The arbitrage verdict: the check either fails with a \<open>RangeError\<close> (a sample that is not finite) or
  returns 200 values, their minimum, and a verdict that is positive exactly when no value is negative and the
  exact evaluator returns at every sampled strike. Each value is the rounded curve at its strike.\<close>

theorem checkArb_verdict:
  "case checkArb svi of
     Inl e \<Rightarrow> e = RangeError
   | Inr r \<Rightarrow> length (gK r) = 200 \<and> minGk r = Min (set (gK r)) \<and> calendarPass r \<and>
       (case arb_kMax svi of
          None \<Rightarrow> \<not> paramsValid r \<and> gK r = replicate 200 (- FLOAT_SCALING)
        | Some kMax \<Rightarrow>
            (paramsValid r = (list_all (\<lambda>g. 0 \<le> g) (gK r) \<and> list_all (probe_ok svi kMax) [0..<200]))
            \<and> map Inr (gK r) = map (\<lambda>i. to_units (gOfKFloat svi (grid_point kMax i))) [0..<200])"
proof (cases "arb_kMax svi")
  case None
  then show ?thesis
    by (simp add: checkArb_def degenerate_result_def STRATEGY_CONSTANTS_def)
next
  case (Some kMax)
  have n: "nat (SVI_GRID_POINTS_FOR_ARB_CHECK STRATEGY_CONSTANTS) = 200" by (simp add: STRATEGY_CONSTANTS_def)
  show ?thesis
  proof (cases "checkArb svi")
    case (Inl e)
    then have "e = RangeError"
      unfolding checkArb_def Some
      by (auto simp: bindE_eq_Inl Let_def dest: sample_loop_error units_list_error split: prod.splits)
    with Inl show ?thesis by simp
  next
    case (Inr r)
    then obtain ok gf gs where l: "sample_loop svi kMax [0..<200] (True, []) = Inr (ok, gf)" "units_list gf = Inr gs"
      and r: "r = \<lparr>paramsValid = (minG gs \<ge> 0 \<and> ok), minGk = minG gs, calendarPass = True, gK = gs\<rparr>"
      unfolding checkArb_def Some n by (auto simp: bindE_eq_Inr Let_def)
    from sample_loop_result [OF l(1)] have st: "ok = list_all (probe_ok svi kMax) [0..<200]"
      "gf = map (\<lambda>i. gOfKFloat svi (grid_point kMax i)) [0..<200]" by simp_all
    have len: "length gs = 200" using units_list_length [OF l(2)] by (simp add: st)
    then have ne: "gs \<noteq> []" by auto
    have "map Inr gs = map (\<lambda>i. to_units (gOfKFloat svi (grid_point kMax i))) [0..<200]"
      using units_list_nth [OF l(2)] len by (intro nth_equalityI) (auto simp: st)
    moreover have "0 \<le> minG gs \<longleftrightarrow> list_all (\<lambda>g. 0 \<le> g) gs"
      using ne by (simp add: minG_Min list_all_iff)
    ultimately show ?thesis using Inr Some len ne by (simp add: r st minG_Min)
  qed
qed

end
