(* ===== verification/DashboardFormat.thy ===== *)
theory DashboardFormat
  imports Svi JsArith
begin

text \<open>
  \<open>dashboard/src/lib/format.ts\<close> and the amount parser of \<open>DepositWithdrawPanel.tsx\<close>: how an integer amount
  becomes the text a user reads, and how the text a user types becomes an integer amount. \<open>NAV_FMT\<close> is
  \<open>Intl.NumberFormat('en-US')\<close> with two to six fraction digits and grouping: the exact value of the double
  is rounded to six places, half away from zero. The theory proves that a displayed amount, typed back
  without its grouping commas, is the amount.
\<close>

section \<open>Number format\<close>

fun group_rev :: "string \<Rightarrow> string" where
  "group_rev (a # b # c # d # r) = a # b # c # CHR '','' # group_rev (d # r)"
| "group_rev s = s"

definition group_digits :: "string \<Rightarrow> string" where
  "group_digits s = rev (group_rev (rev s))"

definition padEnd :: "nat \<Rightarrow> string \<Rightarrow> string" where
  "padEnd n s = s @ replicate (n - length s) CHR ''0''"

text \<open>Trailing zeros go while more than two fraction digits are left.\<close>

definition min_two :: "string \<Rightarrow> string" where
  "min_two s = take 2 s @ rev (dropWhile (\<lambda>c. c = CHR ''0'') (rev (drop 2 s)))"

definition format_micro :: "nat \<Rightarrow> string" where
  "format_micro n =
     group_digits (nat_toString (n div 10 ^ 6)) @ ''.'' @ min_two (padStart 6 (nat_toString (n mod 10 ^ 6)))"

text \<open>The sign of infinity is outside Latin-1 and is written out.\<close>

fun NAV_FMT :: "js_number \<Rightarrow> string" where
  "NAV_FMT (Num r) = (if r < 0 then ''-'' else '''') @ format_micro (nat \<lfloor>\<bar>r\<bar> * 10 ^ 6 + 1 / 2\<rfloor>)"
| "NAV_FMT (Infinity s) = (if s then ''-'' else '''') @ ''Infinity''"
| "NAV_FMT NaN = ''NaN''"

section \<open>The module\<close>

definition DUSDC_DIVISOR :: int where
  "DUSDC_DIVISOR = 1000000"

definition bigintToDisplay :: "int \<Rightarrow> int \<Rightarrow> (js_number \<Rightarrow> string) \<Rightarrow> string" where
  "bigintToDisplay value divisor fmt =
     (let negative = value < 0;
          abs' = (if negative then - value else value);
          whole = abs' sdiv divisor;
          frac = abs' smod divisor;
          fracDigits = length (int_toString divisor) - 1;
          fracPadded = padStart fracDigits (int_toString frac);
          scaled = StringToNumber (int_toString whole @ ''.'' @ fracPadded)
      in fmt (if negative then js_minus scaled else scaled))"

definition formatDusdc :: "int \<Rightarrow> string" where
  "formatDusdc quoteMicro = bigintToDisplay quoteMicro DUSDC_DIVISOR NAV_FMT"

definition formatNav :: "int \<Rightarrow> string" where
  "formatNav navScaled = bigintToDisplay navScaled (NAV_SCALE STRATEGY_CONSTANTS) NAV_FMT"

definition formatShares :: "int \<Rightarrow> string" where
  "formatShares shares = NAV_FMT (to_js (of_int shares))"

text \<open>\<open>toFixed(2)\<close> below \<open>10^21\<close>: the nearest number of hundredths, the larger one of two. The basis points are an integer below
  \<open>2^53\<close>, which prints as its digits.\<close>

fun toFixed2 :: "js_number \<Rightarrow> string" where
  "toFixed2 NaN = ''NaN''"
| "toFixed2 (Infinity s) = (if s then ''-Infinity'' else ''Infinity'')"
| "toFixed2 (Num x) =
     (let n = nat \<lfloor>\<bar>x\<bar> * 100 + 1 / 2\<rfloor>
      in (if x < 0 then ''-'' else []) @ nat_toString (n div 100) @ ''.'' @ padStart 2 (nat_toString (n mod 100)))"

definition formatBps :: "int \<Rightarrow> string" where
  "formatBps bps = (let n = js_int bps in int_toString bps @ '' bps ('' @ toFixed2 (js_div n (js_int 100)) @ ''%)'')"

text \<open>The text of a digest: whole, or a prefix and a suffix around an ellipsis.\<close>

datatype shown_digest = Whole string | Cut string string

definition truncateDigest :: "string \<Rightarrow> shown_digest" where
  "truncateDigest digest =
     (if length digest \<le> 14 then Whole digest
      else Cut (if starts_with ''0x'' digest then take 6 digest else ''0x'' @ take 4 digest)
               (drop (length digest - 4) digest))"

section \<open>The amount a user types\<close>

definition DUSDC_DECIMALS :: nat where
  "DUSDC_DECIMALS = 6"

text \<open>The pattern \<open>^\d*\.?\d*$\<close>.\<close>

definition decimal_pattern :: "string \<Rightarrow> bool" where
  "decimal_pattern s =
     (case dropWhile is_digit s of [] \<Rightarrow> True | c # cs \<Rightarrow> c = CHR ''.'' \<and> list_all is_digit cs)"

definition or_zero :: "string \<Rightarrow> string" where
  "or_zero s = (if s = [] then ''0'' else s)"

definition parseDusdcInput :: "string \<Rightarrow> int option" where
  "parseDusdcInput value =
     (if value = [] \<or> \<not> decimal_pattern (trim value) then None
      else let parts = split_string ''.'' (trim value);
               whole = hd parts;
               frac = (case tl parts of [] \<Rightarrow> [] | f # _ \<Rightarrow> f);
               fracPadded = take DUSDC_DECIMALS (padEnd DUSDC_DECIMALS frac)
           in case bindE (BigInt (or_zero whole)) (\<lambda>w. bindE (BigInt (or_zero fracPadded)) (\<lambda>f.
                     Inr (w * 10 ^ DUSDC_DECIMALS + f))) of
                Inl _ \<Rightarrow> None
              | Inr n \<Rightarrow> Some n)"

section \<open>Digit strings\<close>

lemma is_digit_iff: "is_digit c \<longleftrightarrow> (\<exists>d<10. c = digit_char d)"
proof
  assume "is_digit c"
  then have r: "48 \<le> (of_char c :: nat)" "(of_char c :: nat) \<le> 57" by (auto simp: is_digit_def)
  then have l: "(of_char c :: nat) - 48 < 10" by linarith
  with r have "c = digit_char (of_char c - 48)" by (simp add: digit_char_def)
  moreover note l
  ultimately show "\<exists>d<10. c = digit_char d" by blast
qed (auto simp: is_digit_def digit_char_def of_char_of)

lemma digit_run_eq: "digit_run s = (takeWhile is_digit s, dropWhile is_digit s)"
  by (simp add: digit_run_def is_digit_def [abs_def] Let_def)

lemma list_all_digit_iff: "list_all is_digit s \<longleftrightarrow> (\<forall>c\<in>set s. is_digit c)"
  by (simp add: list_all_iff)

lemma digits_nat_toString [simp]: "list_all is_digit (nat_toString n)"
  using nat_toString_chars by (fastforce simp: list_all_iff is_digit_iff)

lemma parse_digits_of_digits:
  "list_all is_digit s \<Longrightarrow> parse_digits 10 acc s = Some (acc * 10 ^ length s + digits_nat s)"
proof (induction s arbitrary: acc)
  case (Cons c s)
  then obtain d where d: "d < 10" "c = digit_char d" by (auto simp: is_digit_iff)
  from Cons have ih: "\<And>acc. parse_digits 10 acc s = Some (acc * 10 ^ length s + digits_nat s)" by simp
  have "digits_nat (c # s) = d * 10 ^ length s + digits_nat s"
    unfolding digits_nat_def [of "c # s"] by (simp add: d char_digit_digit_char ih)
  then show ?case by (simp add: d char_digit_digit_char ih distrib_right)
qed (simp add: digits_nat_def)

lemma digits_nat_append:
  assumes "list_all is_digit xs" "list_all is_digit ys"
  shows "digits_nat (xs @ ys) = digits_nat xs * 10 ^ length ys + digits_nat ys"
  using assms by (simp add: digits_nat_def [of "xs @ ys"] parse_digits_append parse_digits_of_digits)

lemma digits_nat_of_toString [simp]: "digits_nat (nat_toString n) = n"
  by (simp add: digits_nat_def parse_nat_toString)

lemma digit_zero [simp]: "is_digit CHR ''0''"
  by (simp add: is_digit_def)

lemma digits_nat_zeros [simp]: "digits_nat (replicate n CHR ''0'') = 0"
proof -
  have "parse_digits 10 0 (replicate n CHR ''0'') = Some 0"
    by (induction n) (simp_all add: char_digit_def)
  then show ?thesis by (simp add: digits_nat_def)
qed

lemma list_all_zeros [simp]: "list_all is_digit (replicate n CHR ''0'')"
  by (simp add: list_all_length)

lemma digits_pad [simp]:
  "list_all is_digit (padStart n s) \<longleftrightarrow> list_all is_digit s"
  "list_all is_digit s \<Longrightarrow> digits_nat (padStart n s) = digits_nat s"
  by (simp_all add: padStart_def digits_nat_append)

lemma length_padStart: "length (padStart n s) = max n (length s)"
  by (simp add: padStart_def)

lemma digits_nat_lt: "list_all is_digit s \<Longrightarrow> digits_nat s < 10 ^ length s"
proof (induction s rule: rev_induct)
  case (snoc c s)
  then obtain d where d: "d < 10" "c = digit_char d" by (auto simp: is_digit_iff)
  have "digits_nat [c] = d" using d by (simp add: digits_nat_def char_digit_digit_char)
  moreover have "list_all is_digit [c]" using snoc.prems by simp
  moreover have "list_all is_digit s" using snoc.prems by simp
  ultimately show ?case using d snoc.IH by (simp add: digits_nat_append)
qed (simp add: digits_nat_def)

section \<open>Numbers from text\<close>

lemma digit_plain: "is_digit c \<Longrightarrow> \<not> is_space c \<and> c \<notin> special_chars \<and> c \<noteq> CHR ''.'' \<and> c \<noteq> CHR '',''"
proof -
  assume d: "is_digit c"
  then have "c \<noteq> CHR ''.''" "c \<noteq> CHR '',''" by (auto simp: is_digit_def)
  with d show ?thesis by (auto simp: is_digit_iff digit_char_not_space digit_char_not_special)
qed

lemma trim_decimal:
  "list_all is_digit w \<Longrightarrow> list_all is_digit f \<Longrightarrow> trim (w @ CHR ''.'' # f) = w @ CHR ''.'' # f"
proof (rule trim_id)
  assume "list_all is_digit w" "list_all is_digit f"
  then show "\<not> is_space c" if "c \<in> set (w @ CHR ''.'' # f)" for c
    using that by (cases "c = CHR ''.''") (auto simp: list_all_iff digit_plain, simp add: is_space_def)
qed

lemma StringToNumber_decimal:
  assumes w: "list_all is_digit w" "w \<noteq> []" and f: "list_all is_digit f"
  shows "StringToNumber (w @ CHR ''.'' # f) = to_js (of_nat (digits_nat (w @ f)) / 10 ^ length f)"
proof -
  let ?s = "w @ CHR ''.'' # f"
  obtain c cs where c: "w = c # cs" using w(2) by (cases w) auto
  have dc: "is_digit c" using w(1) c by simp
  note pc = digit_plain [OF dc]
  have sr: "signed_rest ?s = (False, ?s)" using pc by (simp add: signed_rest_def c special_chars_def)
  have inf: "?s \<noteq> ''Infinity''" using dc by (auto simp: c is_digit_def)
  have "?s ! 1 = CHR ''.'' \<or> is_digit (?s ! 1)" using w(1) by (cases cs) (auto simp: c)
  then have "?s ! 1 \<notin> special_chars" using digit_plain by (auto simp: special_chars_def)
  then have pre: "?s ! 1 \<notin> {CHR ''x'', CHR ''X'', CHR ''o'', CHR ''O'', CHR ''b'', CHR ''B''}"
    by (simp add: special_chars_def)
  have tw: "takeWhile is_digit ?s = w" "dropWhile is_digit ?s = CHR ''.'' # f"
    using w(1) digit_plain by (auto simp: list_all_iff takeWhile_append dropWhile_append)
  have tf: "takeWhile is_digit f = f" "dropWhile is_digit f = []"
    using f by (auto simp: list_all_iff)
  have dl: "decimal_literal ?s = Num (of_nat (digits_nat (w @ f)) * 10 powi (- int (length f)))"
    unfolding decimal_literal_def digit_run_eq tw
    by (simp add: digit_run_eq tf w(2) exponent_part_def)
  have "(10 :: rat) powi (- int (length f)) = 1 / 10 ^ length f"
    by (simp add: power_int_minus inverse_eq_divide)
  with dl have dl: "decimal_literal ?s = Num (of_nat (digits_nat (w @ f)) / 10 ^ length f)" by simp
  show ?thesis
    unfolding StringToNumber_def trim_decimal [OF w(1) f] Let_def sr using pre inf by (simp add: dl)
qed

text \<open>The integer split of \<open>bigintToDisplay\<close> loses nothing: the text denotes the quotient exactly, so the only
  rounding is the one to a double.\<close>

lemma display_text:
  assumes "0 \<le> v" "divisor = 10 ^ d" "length (int_toString divisor) - 1 = d" "0 < d"
  shows "StringToNumber (int_toString (v sdiv divisor) @ ''.'' @
           padStart (length (int_toString divisor) - 1) (int_toString (v smod divisor)))
         = to_js (of_int v / of_int divisor)"
proof -
  define w f where "w = nat (v div divisor)" and "f = nat (v mod divisor)"
  have pos: "0 < divisor" using assms by simp
  have wf: "v = int w * divisor + int f" "int f < divisor"
    using assms(1) pos unfolding w_def f_def by (simp_all add: pos_imp_zdiv_nonneg_iff)
  have t: "int_toString (v sdiv divisor) = nat_toString w" "int_toString (v smod divisor) = nat_toString f"
    using assms(1) pos unfolding w_def f_def
    by (simp_all add: js_arith int_toString_def pos_imp_zdiv_nonneg_iff not_less)
  have "f < 10 ^ d" using wf(2) assms(2) by (metis of_nat_less_iff of_nat_numeral of_nat_power)
  then have l: "length (padStart d (nat_toString f)) = d"
    using nat_toString_length [OF assms(4)] by (simp add: length_padStart)
  have "digits_nat (nat_toString w @ padStart d (nat_toString f)) = w * 10 ^ d + f"
    by (simp add: digits_nat_append l)
  then have "StringToNumber (nat_toString w @ CHR ''.'' # padStart d (nat_toString f))
      = to_js (of_nat (w * 10 ^ d + f) / 10 ^ d)"
    using nat_toString_digits [of w] by (simp add: StringToNumber_decimal l)
  moreover have "(of_nat (w * 10 ^ d + f) :: rat) = of_int v"
    using wf(1) assms(2) by simp
  ultimately have "StringToNumber (nat_toString w @ ''.'' @ padStart d (nat_toString f))
      = to_js (of_int v / of_int divisor)" by (simp add: assms(2))
  then show ?thesis unfolding t assms(3) .
qed

lemma length_divisor: "length (int_toString 1000000) = 7" "length (int_toString 1000000000) = 10"
  by (simp_all add: int_toString_def nat_toString.simps)

lemma bigintToDisplay_nonneg:
  assumes "0 \<le> v" "divisor \<in> {1000000, 1000000000}"
  shows "bigintToDisplay v divisor fmt = fmt (to_js (of_int v / of_int divisor))"
proof -
  obtain d where d: "divisor = 10 ^ d" "length (int_toString divisor) - 1 = d" "0 < d"
  proof (cases "divisor = 1000000")
    case True
    then show ?thesis using that [of 6] by (simp add: length_divisor)
  next
    case False
    then show ?thesis using that [of 9] assms(2) by (simp add: length_divisor)
  qed
  show ?thesis using assms(1) display_text [OF assms(1) d] by (simp add: bigintToDisplay_def Let_def not_less)
qed

lemma bigintToDisplay_negative:
  assumes "v < 0"
  shows "bigintToDisplay v divisor fmt = bigintToDisplay (- v) divisor (\<lambda>x. fmt (js_minus x))"
  using assms by (simp add: bigintToDisplay_def Let_def)

lemma to_js_quotient:
  assumes "0 < k" "k < 2 ^ 52" "1 \<le> D" "D \<le> 10 ^ 9"
  obtains r where "to_js (of_int k / D) = Num r" "0 < r" "\<bar>r * D - of_int k\<bar> < 1 / 2"
proof -
  define r where "r = round_double (of_int k / D)"
  have "1 \<le> k" "k \<le> 2 ^ 52 - 1" using assms(1,2) by simp_all
  then have "(of_int 1 :: rat) \<le> of_int k" "of_int k \<le> (of_int (2 ^ 52 - 1) :: rat)"
    by (simp_all only: of_int_le_iff)
  then have k: "1 \<le> (of_int k :: rat)" "(of_int k :: rat) \<le> 2 ^ 52 - 1" by simp_all
  have "\<bar>r * D - of_int k\<bar> \<le> of_int k / 2 ^ 53"
    using round_quotient [of k D] assms k(1) unfolding r_def by simp
  moreover have "of_int k / 2 ^ 53 < (1 / 2 :: rat)" using k(2) by simp
  ultimately have e: "\<bar>r * D - of_int k\<bar> < 1 / 2" by linarith
  moreover have "(2 :: rat) ^ 52 \<le> 2 ^ 53" by simp
  ultimately have "0 < r * D" "r * D < 2 ^ 53" using k by linarith+
  then have pos: "0 < r" using assms(3) by (simp add: zero_less_mult_iff)
  then have "r * 1 \<le> r * D" using assms(3) by (intro mult_left_mono) auto
  with \<open>r * D < 2 ^ 53\<close> have "r < 2 ^ 53" by simp
  also have "(2 :: rat) ^ 53 \<le> 2 ^ 1024" by (rule power_increasing) simp_all
  finally have "r < 2 ^ 1024" .
  with pos have "to_js (of_int k / D) = Num r" by (simp add: to_js_def r_def [symmetric] Let_def)
  with pos e show ?thesis using that by blast
qed

lemma floor_half:
  assumes "\<bar>x - of_int k\<bar> < (1 / 2 :: rat)"
  shows "\<lfloor>x + 1 / 2\<rfloor> = k"
  using assms unfolding floor_eq_iff by linarith

text \<open>Below \<open>2^52\<close> micro-units an amount is displayed exactly, with its sign.\<close>

lemma formatDusdc_exact:
  assumes "\<bar>v\<bar> < 2 ^ 52"
  shows "formatDusdc v = (if v < 0 then ''-'' else '''') @ format_micro (nat \<bar>v\<bar>)"
proof (cases "v = 0")
  case True
  have "to_js 0 = Num 0" by (simp add: to_js_def round_double_def)
  then show ?thesis by (simp add: True formatDusdc_def bigintToDisplay_nonneg DUSDC_DIVISOR_def)
next
  case False
  with assms have "0 < \<bar>v\<bar>" by simp
  then obtain r where r: "to_js (of_int \<bar>v\<bar> / 10 ^ 6) = Num r" "0 < r" "\<bar>r * 10 ^ 6 - of_int \<bar>v\<bar>\<bar> < 1 / 2"
    by (rule to_js_quotient [OF _ assms, of "10 ^ 6"]) simp_all
  have f: "\<lfloor>r * 10 ^ 6 + 1 / 2\<rfloor> = \<bar>v\<bar>" using r(3) by (rule floor_half)
  have d: "bigintToDisplay \<bar>v\<bar> 1000000 fmt = fmt (Num r)" for fmt
    using r(1) bigintToDisplay_nonneg [of "\<bar>v\<bar>" "10 ^ 6"] by simp
  have "formatDusdc v = NAV_FMT (if v < 0 then js_minus (Num r) else Num r)"
  proof (cases "v < 0")
    case True
    then show ?thesis using d
      by (simp add: formatDusdc_def DUSDC_DIVISOR_def bigintToDisplay_negative del: js_minus.simps NAV_FMT.simps)
  next
    case False
    then show ?thesis using d
      by (simp add: formatDusdc_def DUSDC_DIVISOR_def del: js_minus.simps NAV_FMT.simps)
  qed
  then show ?thesis using r(2) f by simp
qed

text \<open>The percentage of a rate is exact as well: the division rounds, the two decimals undo it.\<close>

lemma formatBps_exact:
  assumes "0 < bps" "bps < 2 ^ 52"
  shows "formatBps bps = int_toString bps @ '' bps ('' @ nat_toString (nat bps div 100) @ ''.''
    @ padStart 2 (nat_toString (nat bps mod 100)) @ ''%)''"
proof -
  obtain r where r: "to_js (of_int bps / 100) = Num r" "0 < r" "\<bar>r * 100 - of_int bps\<bar> < 1 / 2"
    by (rule to_js_quotient [OF assms, of 100]) simp_all
  have "\<lfloor>r * 100 + 1 / 2\<rfloor> = bps" using r(3) by (rule floor_half)
  with r(1,2) show ?thesis by (simp add: formatBps_def js_int_def Let_def)
qed

section \<open>Text and amounts\<close>

lemma split_decimal:
  assumes "list_all is_digit w" "list_all is_digit f"
  shows "split_string ''.'' (w @ CHR ''.'' # f) = [w, f]"
proof -
  have nf: "split_from ''.'' acc f = [rev acc @ f]" for acc
    using assms(2) digit_plain by (intro split_from_no_sep) (auto simp: list_all_iff)
  have "split_from ''.'' acc (w @ CHR ''.'' # f) = [rev acc @ w, f]" for acc
    using assms(1)
  proof (induction w arbitrary: acc)
    case Nil
    show ?case by (subst split_from.simps) (simp add: starts_with_def nf)
  next
    case (Cons c w)
    then have "c \<noteq> CHR ''.''" using digit_plain by auto
    with Cons show ?case by (subst split_from.simps) (simp add: starts_with_def)
  qed
  then show ?thesis by (simp add: split_string_def)
qed

lemma BigInt_digits:
  assumes "list_all is_digit s"
  shows "BigInt (or_zero s) = Inr (int (digits_nat s))"
proof -
  let ?t = "or_zero s"
  have t: "list_all is_digit ?t" "?t \<noteq> []" "digits_nat ?t = digits_nat s"
    using assms digits_nat_zeros [of 1] by (auto simp: or_zero_def digits_nat_def)
  have "trim ?t = ?t" using t(1) digit_plain by (intro trim_id) (auto simp: list_all_iff)
  moreover have "parse_literal ?t = digits_value 10 ?t"
    using t by (intro parse_literal_decimal) (auto simp: list_all_iff is_digit_iff)
  ultimately show ?thesis using t by (simp add: BigInt_def digits_value_def parse_digits_of_digits)
qed

lemma BigInt_literal: "list_all is_digit s \<Longrightarrow> s \<noteq> [] \<Longrightarrow> BigInt s = Inr (int (digits_nat s))"
  using BigInt_digits [of s] by (simp add: or_zero_def)

lemma decimal_pattern_iff:
  "decimal_pattern s \<longleftrightarrow>
     list_all is_digit s \<or> (\<exists>w f. s = w @ CHR ''.'' # f \<and> list_all is_digit w \<and> list_all is_digit f)"
proof
  assume p: "decimal_pattern s"
  have tw: "list_all is_digit (takeWhile is_digit s)" by (auto simp: list_all_iff dest: set_takeWhileD)
  show "list_all is_digit s \<or> (\<exists>w f. s = w @ CHR ''.'' # f \<and> list_all is_digit w \<and> list_all is_digit f)"
  proof (cases "dropWhile is_digit s")
    case Nil
    then show ?thesis by (simp add: list_all_iff)
  next
    case (Cons c cs)
    with p have "c = CHR ''.''" "list_all is_digit cs" by (simp_all add: decimal_pattern_def)
    with Cons tw show ?thesis by (metis takeWhile_dropWhile_id)
  qed
next
  assume "list_all is_digit s \<or> (\<exists>w f. s = w @ CHR ''.'' # f \<and> list_all is_digit w \<and> list_all is_digit f)"
  then show "decimal_pattern s"
  proof
    assume "list_all is_digit s"
    then have "dropWhile is_digit s = []" by (simp add: list_all_iff)
    then show ?thesis unfolding decimal_pattern_def by (simp only: list.case)
  next
    assume "\<exists>w f. s = w @ CHR ''.'' # f \<and> list_all is_digit w \<and> list_all is_digit f"
    then obtain w f where s: "s = w @ CHR ''.'' # f" "list_all is_digit w" "list_all is_digit f" by blast
    then have "dropWhile is_digit s = CHR ''.'' # f"
      using digit_plain by (auto simp: list_all_iff dropWhile_append)
    with s show ?thesis by (simp add: decimal_pattern_def)
  qed
qed

lemma digits_padEnd:
  "list_all is_digit f \<Longrightarrow> list_all is_digit (take n (padEnd n f))"
  by (auto simp: padEnd_def list_all_iff dest: in_set_takeD)

lemma parse_point:
  assumes "list_all is_digit w" "list_all is_digit f"
  shows "parseDusdcInput (w @ CHR ''.'' # f)
     = Some (int (digits_nat w * 10 ^ 6 + digits_nat (take 6 (padEnd 6 f))))"
proof -
  have "decimal_pattern (w @ CHR ''.'' # f)" using assms decimal_pattern_iff by blast
  then show ?thesis
    by (simp add: parseDusdcInput_def trim_decimal assms split_decimal Let_def BigInt_digits
        digits_padEnd DUSDC_DECIMALS_def)
qed

text \<open>The integer part keeps its digits under grouping, the fraction under the removal of trailing zeros.\<close>

lemma ungroup: "CHR '','' \<notin> set s \<Longrightarrow> filter (\<lambda>c. c \<noteq> CHR '','') (group_digits s) = s"
proof -
  have "filter (\<lambda>c. c \<noteq> CHR '','') (group_rev t) = t" if "CHR '','' \<notin> set t" for t
    using that by (induction t rule: group_rev.induct) (auto simp: filter_id_conv)
  moreover assume "CHR '','' \<notin> set s"
  ultimately have "filter (\<lambda>c. c \<noteq> CHR '','') (group_rev (rev s)) = rev s" by simp
  then show ?thesis by (simp add: group_digits_def rev_filter [symmetric])
qed

lemma no_comma: "list_all is_digit s \<Longrightarrow> CHR '','' \<notin> set s"
  using digit_plain by (auto simp: list_all_iff)

lemma min_two_pad:
  assumes "length s = 6"
  shows "take 6 (padEnd 6 (min_two s)) = s"
proof -
  define z where "z = (\<lambda>c. c = CHR ''0'')"
  define a k where "a = rev (dropWhile z (rev (drop 2 s)))" and "k = length (takeWhile z (rev (drop 2 s)))"
  have "takeWhile z (rev (drop 2 s)) = replicate k CHR ''0''"
    unfolding k_def by (rule replicate_length_same [symmetric]) (auto simp: z_def dest: set_takeWhileD)
  then have "drop 2 s = a @ replicate k CHR ''0''"
    unfolding a_def by (metis rev_append rev_replicate rev_rev_ident takeWhile_dropWhile_id)
  then have s: "s = take 2 s @ a @ replicate k CHR ''0''" by (metis append_take_drop_id)
  then have "length s = length (take 2 s) + length a + k" by (metis length_append length_replicate add.assoc)
  then have l: "6 - (2 + length a) = k" using assms by simp
  have m: "min_two s = take 2 s @ a" by (simp add: min_two_def a_def z_def)
  have "padEnd 6 (min_two s) = take 2 s @ a @ replicate k CHR ''0''"
    using assms l by (simp add: padEnd_def m)
  then show ?thesis using s assms by simp
qed

lemma parse_format_micro:
  "parseDusdcInput (filter (\<lambda>c. c \<noteq> CHR '','') (format_micro n)) = Some (int n)"
proof -
  let ?w = "nat_toString (n div 10 ^ 6)" and ?p = "padStart 6 (nat_toString (n mod 10 ^ 6))"
  have "length (nat_toString (n mod 10 ^ 6)) \<le> 6" by (rule nat_toString_length) simp_all
  then have p: "length ?p = 6" "list_all is_digit ?p" "digits_nat ?p = n mod 10 ^ 6"
    by (simp_all add: length_padStart)
  have mt: "list_all is_digit (min_two ?p)"
    using p(2) by (auto simp: min_two_def list_all_iff dest!: in_set_takeD in_set_dropD set_dropWhileD)
  have "filter (\<lambda>c. c \<noteq> CHR '','') (min_two ?p) = min_two ?p"
    using no_comma [OF mt] by (auto simp: filter_id_conv)
  moreover have "filter (\<lambda>c. c \<noteq> CHR '','') (group_digits ?w) = ?w"
    by (rule ungroup) (rule no_comma, simp)
  ultimately have "filter (\<lambda>c. c \<noteq> CHR '','') (format_micro n) = ?w @ CHR ''.'' # min_two ?p"
    unfolding format_micro_def filter_append by simp
  then show ?thesis
    using mt p by (simp add: parse_point min_two_pad)
qed

text \<open>The value of typed text: the decimal number cut, not rounded, to six places; nothing else parses.\<close>

lemma parse_floor:
  assumes "list_all is_digit w" "list_all is_digit f"
  shows "parseDusdcInput (w @ CHR ''.'' # f)
     = Some \<lfloor>(of_nat (digits_nat (w @ f)) / 10 ^ length f) * (10 ^ 6 :: rat)\<rfloor>"
proof -
  define g where "g = take 6 (padEnd 6 f)"
  have val: "(of_nat (digits_nat (w @ f)) / 10 ^ length f) * (10 ^ 6 :: rat)
      = of_int (int (digits_nat w * 10 ^ 6)) + of_nat (digits_nat f) * 10 ^ 6 / 10 ^ length f"
    by (simp add: digits_nat_append assms add_divide_distrib distrib_right)
  have "\<lfloor>of_nat (digits_nat f) * (10 ^ 6 :: rat) / 10 ^ length f\<rfloor> = int (digits_nat g)"
  proof (cases "length f \<le> 6")
    case True
    then have g: "g = f @ replicate (6 - length f) CHR ''0''" by (simp add: g_def padEnd_def)
    have "digits_nat g = digits_nat f * 10 ^ (6 - length f)"
      using assms(2) by (simp add: g digits_nat_append)
    moreover have "(10 ^ 6 :: rat) / 10 ^ length f = 10 ^ (6 - length f)"
      using True by (simp add: power_diff)
    ultimately have "of_nat (digits_nat f) * (10 ^ 6 :: rat) / 10 ^ length f = of_int (int (digits_nat g))"
      by (simp only: times_divide_eq_right [symmetric]) simp
    then show ?thesis by (simp only: floor_of_int)
  next
    case False
    define h where "h = drop 6 f"
    have f: "f = g @ h" "length g = 6" using False by (simp_all add: g_def h_def padEnd_def)
    have d: "list_all is_digit g" "list_all is_digit h" using assms(2) f(1) by simp_all
    have "of_nat (digits_nat f) * (10 ^ 6 :: rat) / 10 ^ length f
        = of_nat (digits_nat g) + of_nat (digits_nat h) / 10 ^ length h"
      using f(2) by (simp add: f(1) digits_nat_append d power_add add_divide_distrib distrib_right)
    moreover have "of_nat (digits_nat h) < (10 ^ length h :: rat)"
      using digits_nat_lt [OF d(2)] by (metis of_nat_less_iff of_nat_numeral of_nat_power)
    ultimately show ?thesis by (simp add: floor_eq_iff)
  qed
  then show ?thesis unfolding val parse_point [OF assms] g_def [symmetric] int_add_floor [symmetric]
    by simp
qed

text \<open>C26. A displayed amount is the amount: for up to \<open>2^52\<close> micro-units the text of \<open>formatDusdc\<close>, with its
  grouping commas taken out, is read by the amount field as exactly the integer that was displayed.\<close>

theorem displayed_amount_roundtrip:
  assumes "0 \<le> v" "v < 2 ^ 52"
  shows "parseDusdcInput (filter (\<lambda>c. c \<noteq> CHR '','') (formatDusdc v)) = Some v"
  using assms formatDusdc_exact [of v] parse_format_micro [of "nat v"] by simp

theorem displayed_amount_roundtrip_witness:
  "parseDusdcInput (filter (\<lambda>c. c \<noteq> CHR '','') (formatDusdc 1234567500001)) = Some 1234567500001"
  by (rule displayed_amount_roundtrip) simp_all

lemma parse_total:
  assumes "s \<noteq> []" "decimal_pattern (trim s)"
  shows "\<exists>n\<ge>0. parseDusdcInput s = Some n"
  using assms(2) unfolding decimal_pattern_iff
proof
  assume d: "list_all is_digit (trim s)"
  then have "split_string ''.'' (trim s) = [trim s]"
    using digit_plain split_from_no_sep [of "trim s" "''.''" "[]"]
    by (fastforce simp: split_string_def list_all_iff)
  with assms d show ?thesis
    by (simp add: parseDusdcInput_def Let_def BigInt_digits padEnd_def DUSDC_DECIMALS_def)
next
  assume "\<exists>w f. trim s = w @ CHR ''.'' # f \<and> list_all is_digit w \<and> list_all is_digit f"
  then obtain w f where wf: "trim s = w @ CHR ''.'' # f" "list_all is_digit w" "list_all is_digit f"
    by blast
  have "parseDusdcInput s = parseDusdcInput (w @ CHR ''.'' # f)"
    using assms wf by (simp add: parseDusdcInput_def trim_decimal)
  then show ?thesis by (simp add: parse_point [OF wf(2,3)])
qed

lemma parse_None_iff: "parseDusdcInput s = None \<longleftrightarrow> s = [] \<or> \<not> decimal_pattern (trim s)"
  using parse_total [of s] by (auto simp: parseDusdcInput_def)

lemma amount_nonneg: "parseDusdcInput s = Some n \<Longrightarrow> 0 \<le> n"
  using parse_total [of s] parse_None_iff [of s] by auto

text \<open>The amount field: text parses exactly when it is non-empty and, trimmed, digits with at most one
  point; the value is never negative; and a decimal number is cut to six places, so no more is deposited
  than was typed.\<close>

theorem typed_amount:
  "(parseDusdcInput s = None \<longleftrightarrow> s = [] \<or> \<not> decimal_pattern (trim s))
   \<and> (\<forall>n. parseDusdcInput s = Some n \<longrightarrow> 0 \<le> n)
   \<and> (\<forall>w f. s = w @ CHR ''.'' # f \<and> list_all is_digit w \<and> list_all is_digit f \<longrightarrow>
        parseDusdcInput s = Some \<lfloor>(of_nat (digits_nat (w @ f)) / 10 ^ length f) * (10 ^ 6 :: rat)\<rfloor>)"
  by (auto simp: parse_None_iff amount_nonneg parse_floor)

theorem typed_amount_witness:
  "parseDusdcInput ''12.3456789'' = Some 12345678 \<and> parseDusdcInput ''1e3'' = None"
proof -
  have t: "digits_nat (''12'' @ ''3456789'') = 123456789" by (simp add: digits_nat_def char_digit_def)
  have "parseDusdcInput ''12.3456789'' = Some \<lfloor>(of_nat (digits_nat (''12'' @ ''3456789'')) / 10 ^ length ''3456789'') * (10 ^ 6 :: rat)\<rfloor>"
    by (rule typed_amount [of "''12.3456789''", THEN conjunct2, THEN conjunct2, rule_format]) (simp add: is_digit_def)
  moreover have "parseDusdcInput ''1e3'' = None"
    using typed_amount [of "''1e3''"] by (simp add: decimal_pattern_def is_digit_def trim_def is_space_def)
  ultimately show ?thesis unfolding t by (simp add: floor_eq_iff)
qed

end
