(* ===== verification/WhatIfPanel.thy ===== *)
theory WhatIfPanel
  imports WhatIf DashboardBook DashboardSigma DashboardFormat
begin

text \<open>
  \<open>dashboard/src/components/panels/WhatIfSimulator.tsx\<close>: seven shock buttons, a preview mode with a synthetic
  hedge, and the figures computed from the open hedges, the surface and the volatility estimate. The
  render is a function of the component's state and properties; a click is a step. The labels of the buttons are
  display text and are left out, a step is its multiple of sigma.
\<close>

section \<open>The component\<close>

definition FALLBACK_FORWARD_PRICE_DUSDC :: int where
  "FALLBACK_FORWARD_PRICE_DUSDC = 100000 * 1000000000"

definition FALLBACK_FORWARD_USD :: js_number where
  "FALLBACK_FORWARD_USD = Number_of_int (FALLBACK_FORWARD_PRICE_DUSDC sdiv 1000000000)"

definition PREVIEW_SVI :: SVIParams where
  "PREVIEW_SVI = \<lparr>svi_a = 1500000000, svi_b = 200000000, svi_rho = - 300000000, svi_m = 100000000,
     svi_sigma = 400000000\<rparr>"

definition PREVIEW_SURFACE :: SurfaceView where
  "PREVIEW_SURFACE =
     \<lparr>sv_raw = \<lparr>ss_oracle_id = ''preview-synthetic'', ss_a = ''1500000000'', ss_b = ''200000000'',
        ss_rho_signed = ''-300000000'', ss_m_signed = ''100000000'', ss_sigma = ''400000000'',
        ss_timestamp_ms = ''0'', ss_last_updated_ms = ''0''\<rparr>,
      sv_svi = PREVIEW_SVI, sv_lastUpdatedMs = Some 0\<rparr>"

definition buildPreviewHedge :: "int \<Rightarrow> Hedge" where
  "buildPreviewHedge now =
     \<lparr>h_marketKey = ''preview-synthetic|100000000000000|preview|down'', h_oracleId = ''preview-synthetic'',
      h_strike = 100000 * 1000000000, h_expiryMs = Some (now + 30 * 24 * 60 * 60 * 1000), h_direction = ''down'',
      h_notionalQuote = 50000 * 1000000, h_premiumQuote = 0\<rparr>"

definition SHOCK_STEPS :: "int list" where
  "SHOCK_STEPS = [- 5, - 3, - 2, 0, 2, 3, 5]"

text \<open>The state of the component: the active button, the preview switch and the hedge built on mount.\<close>

record whatif_state =
  activeShock :: nat
  previewMode :: bool
  previewHedge :: Hedge

definition whatif_mount :: "int \<Rightarrow> whatif_state" where
  "whatif_mount now = \<lparr>activeShock = 3, previewMode = False, previewHedge = buildPreviewHedge now\<rparr>"

datatype whatif_click = ClickShock nat | ClickPreview | ClickExit

definition click :: "whatif_click \<Rightarrow> whatif_state \<Rightarrow> whatif_state" where
  "click c st =
     (case c of
        ClickShock i \<Rightarrow> st\<lparr>activeShock := i\<rparr>
      | ClickPreview \<Rightarrow> st\<lparr>previewMode := True\<rparr>
      | ClickExit \<Rightarrow> st\<lparr>previewMode := False, activeShock := 3\<rparr>)"

record whatif_props =
  wp_hedges :: "Hedge list"
  wp_surface :: "SurfaceView option"
  wp_sigma :: SigmaEstimates
  wp_forwardPrice :: "int option"

text \<open>\<open>SHOCK_STEPS[i].sigmaMult\<close>: reading the property of an absent entry throws.\<close>

definition sigmaMult_at :: "nat \<Rightarrow> int res" where
  "sigmaMult_at i = (if i < length SHOCK_STEPS then Inr (SHOCK_STEPS ! i) else Inl TypeError)"

definition clampedSpotPct :: "int \<Rightarrow> js_number \<Rightarrow> js_number" where
  "clampedSpotPct mult spot =
     Math_max (js_int (- 95)) (Math_min (js_int 500) (js_mul (js_int mult) spot))"

definition spotShockBps :: "int \<Rightarrow> js_number \<Rightarrow> js_number" where
  "spotShockBps mult spot = Math_round (js_mul (clampedSpotPct mult spot) (js_int 100))"

definition effectiveHedges :: "whatif_state \<Rightarrow> whatif_props \<Rightarrow> Hedge list" where
  "effectiveHedges st p = (if previewMode st then [previewHedge st] else wp_hedges p)"

definition effectiveSurface :: "whatif_state \<Rightarrow> whatif_props \<Rightarrow> SurfaceView option" where
  "effectiveSurface st p = (if previewMode st then Some PREVIEW_SURFACE else wp_surface p)"

definition effective_forward :: "whatif_props \<Rightarrow> int" where
  "effective_forward p = (case wp_forwardPrice p of Some f \<Rightarrow> f | None \<Rightarrow> FALLBACK_FORWARD_PRICE_DUSDC)"

text \<open>One row of the table; an error of the pricer becomes a row of zeros.\<close>

definition quote_row :: "SVIParams \<Rightarrow> int \<Rightarrow> js_number \<Rightarrow> Hedge \<Rightarrow> ShockedQuote" where
  "quote_row svi fwd bps h =
     (case shockedPnL (h_marketKey h) svi fwd (h_strike h) (h_notionalQuote h) (Num 0) bps of
        Inr q \<Rightarrow> q
      | Inl _ \<Rightarrow> \<lparr>hedgeKey = h_marketKey h, baselinePrice = 0, shockedPrice = 0,
                 baselineNotional = h_notionalQuote h, pnlQuote = 0\<rparr>)"

definition quote_rows :: "SurfaceView option \<Rightarrow> Hedge list \<Rightarrow> int \<Rightarrow> js_number \<Rightarrow> ShockedQuote list" where
  "quote_rows surface hedges fwd bps =
     (case surface of
        None \<Rightarrow> []
      | Some s \<Rightarrow> (if hedges = [] then [] else map (quote_row (sv_svi s) fwd bps) hedges))"

definition totalPnl :: "ShockedQuote list \<Rightarrow> int" where
  "totalPnl qs = foldl (\<lambda>acc q. acc + pnlQuote q) 0 qs"

definition totalNotional :: "Hedge list \<Rightarrow> int" where
  "totalNotional hs = foldl (\<lambda>acc h. acc + h_notionalQuote h) 0 hs"

definition hedgePayoffPct :: "int \<Rightarrow> int \<Rightarrow> js_number" where
  "hedgePayoffPct pnl notional =
     (if notional > 0 then js_div (Number_of_int ((pnl * 10000) sdiv notional)) (js_int 100) else js_int 0)"

record whatif_figures =
  wf_spotPct :: js_number
  wf_shockedForwardUsd :: js_number
  wf_quotes :: "ShockedQuote list"
  wf_payoff_text :: string
  wf_totalPnl :: int
  wf_totalNotional :: int
  wf_legs :: nat
  wf_hedgePayoffPct :: js_number
  wf_unhedgedLossPct :: js_number
  wf_hedgedLossPct :: js_number
  wf_barUnhedged :: js_number
  wf_barHedged :: js_number
  wf_protected :: bool

definition hedgedLossPct :: "int \<Rightarrow> js_number \<Rightarrow> js_number \<Rightarrow> js_number" where
  "hedgedLossPct mult unhedged payoff =
     (if mult < 0 then Math_max unhedged (js_sub (js_minus payoff) (to_js (31 / 10))) else js_int 0)"

definition bar_width :: "js_number \<Rightarrow> js_number" where
  "bar_width pct = Math_min (js_int 100) (Math_abs pct)"

definition figures :: "int \<Rightarrow> js_number \<Rightarrow> ShockedQuote list \<Rightarrow> Hedge list \<Rightarrow> whatif_figures" where
  "figures mult spotPct qs hs =
     (let pnl = totalPnl qs; notional = totalNotional hs; payoff = hedgePayoffPct pnl notional;
          unhedged = Math_min (js_int 0) spotPct; hedged = hedgedLossPct mult unhedged payoff
      in \<lparr>wf_spotPct = spotPct,
          wf_shockedForwardUsd = js_mul FALLBACK_FORWARD_USD (js_add (js_int 1) (js_div spotPct (js_int 100))),
          wf_quotes = qs, wf_payoff_text = formatDusdc (if pnl > 0 then pnl else 0), wf_totalPnl = pnl,
          wf_totalNotional = notional, wf_legs = length hs, wf_hedgePayoffPct = payoff,
          wf_unhedgedLossPct = unhedged, wf_hedgedLossPct = hedged, wf_barUnhedged = bar_width unhedged,
          wf_barHedged = bar_width hedged, wf_protected = (pnl \<ge> 0)\<rparr>)"

text \<open>The render: \<open>None\<close> is the empty state, without hedges and outside of the preview.\<close>

definition WhatIfSimulator :: "whatif_state \<Rightarrow> whatif_props \<Rightarrow> whatif_figures option res" where
  "WhatIfSimulator st p =
     bindE (sigmaMult_at (activeShock st)) (\<lambda>mult.
     let spot = sigmaSpotPct (wp_sigma p);
         qs = quote_rows (effectiveSurface st p) (effectiveHedges st p) (effective_forward p) (spotShockBps mult spot)
     in Inr (if wp_hedges p = [] \<and> \<not> previewMode st then None
             else Some (figures mult (clampedSpotPct mult spot) qs (effectiveHedges st p))))"

text \<open>The states the buttons can reach.\<close>

inductive whatif_reach :: "whatif_state \<Rightarrow> bool" where
  mount: "whatif_reach (whatif_mount now)"
| shock: "whatif_reach st \<Longrightarrow> i < length SHOCK_STEPS \<Longrightarrow> whatif_reach (click (ClickShock i) st)"
| preview: "whatif_reach st \<Longrightarrow> whatif_reach (click ClickPreview st)"
| exit: "whatif_reach st \<Longrightarrow> whatif_reach (click ClickExit st)"

section \<open>The shock\<close>

lemma to_js_not_NaN [simp]: "to_js x \<noteq> NaN"
  by (simp add: to_js_def Let_def)

text \<open>Whatever finite volatility is given, the spot move is clamped and the shock is a whole number of basis points.\<close>

lemma clampedSpotPct_range: "\<exists>c. clampedSpotPct mult (Num x) = Num c \<and> - 95 \<le> c \<and> c \<le> 500"
proof -
  obtain y where y: "js_mul (js_int mult) (Num x) = y" "y \<noteq> NaN"
    by (cases "js_mul (js_int mult) (Num x)") (auto simp: js_int_def)
  then show ?thesis
    by (cases y) (auto simp: clampedSpotPct_def Math_min_def Math_max_def js_int_def)
qed

lemma spotShockBps_range:
  "\<exists>b. spotShockBps mult (Num x) = Num (of_int b) \<and> - 9500 \<le> b \<and> b \<le> 50000"
proof -
  obtain c where c: "clampedSpotPct mult (Num x) = Num c" "- 95 \<le> c" "c \<le> 500"
    using clampedSpotPct_range by blast
  have "of_int (- 9500) \<le> c * 100" "c * 100 \<le> of_int 50000" using c(2,3) by simp_all
  note r = to_js_bounded [OF this]
  have "spotShockBps mult (Num x) = Num (of_int \<lfloor>round_double (c * 100) + 1 / 2\<rfloor>)"
    using r(1) by (simp add: spotShockBps_def c(1) js_int_def)
  moreover have "- 9500 \<le> round_double (c * 100)" "round_double (c * 100) \<le> 50000"
    using r(2,3) by simp_all
  then have "- 9500 \<le> \<lfloor>round_double (c * 100) + 1 / 2\<rfloor>" "\<lfloor>round_double (c * 100) + 1 / 2\<rfloor> \<le> 50000"
    by linarith+
  ultimately show ?thesis by blast
qed

lemma spotShockBps_flat: "clampedSpotPct 0 (Num x) = Num 0" "spotShockBps 0 (Num x) = Num 0"
proof -
  have "\<lfloor>1 / 2 :: rat\<rfloor> = 0" by (simp add: floor_eq_iff)
  then show "clampedSpotPct 0 (Num x) = Num 0" "spotShockBps 0 (Num x) = Num 0"
    by (simp_all add: spotShockBps_def clampedSpotPct_def Math_min_def Math_max_def js_int_def)
qed

lemma shockedForward_in_domain:
  assumes "0 < fwd" "- 9500 \<le> b" "b \<le> 50000"
  shows "\<exists>f. shockedForward fwd (Num (of_int b)) = Inr f \<and> 1 \<le> f \<and> f \<le> 6 * fwd"
proof -
  have "(fwd * b) sdiv 10000 \<le> (fwd * 50000) sdiv 10000"
    using assms by (intro sdiv_mono mult_left_mono) auto
  also have "\<dots> = 5 * fwd" using assms(1) by (simp add: sdiv_nonneg)
  finally show ?thesis using assms(1) by (simp add: shockedForward_def Let_def)
qed

section \<open>The figures\<close>

lemma totalPnl_sum: "totalPnl qs = sum_list (map pnlQuote qs)"
proof -
  have "foldl (\<lambda>acc q. acc + pnlQuote q) a qs = a + sum_list (map pnlQuote qs)" for a
    by (induction qs arbitrary: a) simp_all
  then show ?thesis by (simp add: totalPnl_def)
qed

lemma totalNotional_sum: "totalNotional hs = sum_list (map h_notionalQuote hs)"
proof -
  have "foldl (\<lambda>acc h. acc + h_notionalQuote h) a hs = a + sum_list (map h_notionalQuote hs)" for a
    by (induction hs arbitrary: a) simp_all
  then show ?thesis by (simp add: totalNotional_def)
qed

lemma quote_row_bounds:
  assumes "0 \<le> svi_a svi" "0 \<le> svi_b svi" "0 \<le> h_notionalQuote h"
  shows "\<bar>pnlQuote (quote_row svi fwd bps h)\<bar> \<le> h_notionalQuote h"
    and "bps = Num 0 \<Longrightarrow> pnlQuote (quote_row svi fwd bps h) = 0"
  using shockedPnL_bounds [OF assms, where key = "h_marketKey h" and forward = fwd and strike = "h_strike h"
      and theta = "Num 0" and spot = bps] assms(3)
  by (auto simp: quote_row_def split: sum.splits)

lemma quote_rows_total:
  assumes "\<forall>s. surface = Some s \<longrightarrow> 0 \<le> svi_a (sv_svi s) \<and> 0 \<le> svi_b (sv_svi s)"
    and "\<forall>h\<in>set hs. 0 \<le> h_notionalQuote h"
  shows "\<bar>totalPnl (quote_rows surface hs fwd bps)\<bar> \<le> totalNotional hs"
    and "bps = Num 0 \<Longrightarrow> totalPnl (quote_rows surface hs fwd bps) = 0"
proof -
  have n: "0 \<le> totalNotional hs" using assms(2) unfolding totalNotional_sum
    by (intro sum_list_nonneg) auto
  have row: "\<bar>totalPnl (map (quote_row (sv_svi s) fwd bps) hs)\<bar> \<le> totalNotional hs
      \<and> (bps = Num 0 \<longrightarrow> totalPnl (map (quote_row (sv_svi s) fwd bps) hs) = 0)" if "surface = Some s" for s
  proof -
    have ab: "0 \<le> svi_a (sv_svi s)" "0 \<le> svi_b (sv_svi s)" using assms(1) that by simp_all
    show ?thesis using assms(2)
    proof (induction hs)
      case (Cons h hs)
      with quote_row_bounds [OF ab, where h = h and fwd = fwd and bps = bps] show ?case
        by (auto simp: totalPnl_sum totalNotional_sum)
    qed (simp add: totalPnl_sum totalNotional_sum)
  qed
  show "\<bar>totalPnl (quote_rows surface hs fwd bps)\<bar> \<le> totalNotional hs"
    using n row by (auto simp: quote_rows_def totalPnl_sum split: option.splits)
  show "totalPnl (quote_rows surface hs fwd bps) = 0" if "bps = Num 0"
    using that row by (auto simp: quote_rows_def totalPnl_sum split: option.splits)
qed

lemma hedgePayoffPct_range:
  assumes "\<bar>pnl\<bar> \<le> notional"
  shows "\<exists>y. hedgePayoffPct pnl notional = Num y \<and> \<bar>y\<bar> \<le> 100 \<and> (pnl = 0 \<longrightarrow> y = 0)"
proof (cases "notional > 0")
  case True
  define k where "k = (pnl * 10000) sdiv notional"
  have "\<bar>pnl * 10000\<bar> \<le> notional * 10000" using assms by (simp add: abs_mult)
  then have "\<bar>k\<bar> \<le> 10000" using True unfolding k_def by (simp add: abs_sdiv div_leI)
  then have k: "- 10000 \<le> k" "k \<le> 10000" by linarith+
  then have n: "Number_of_int k = Num (of_int k)" unfolding Number_of_int_def by (intro to_js_of_int) simp
  have "of_int (- 10000) \<le> (of_int k :: rat)" "(of_int k :: rat) \<le> of_int 10000"
    using k by (simp_all only: of_int_le_iff)
  then have "of_int (- 100) \<le> (of_int k / 100 :: rat)" "(of_int k / 100 :: rat) \<le> of_int 100" by simp_all
  note r = to_js_bounded [OF this]
  have "hedgePayoffPct pnl notional = Num (round_double (of_int k / 100))"
    using True n r(1) by (simp add: hedgePayoffPct_def k_def [symmetric] js_int_def)
  moreover have "\<bar>round_double (of_int k / 100)\<bar> \<le> 100" using r(2,3) by simp
  moreover have "pnl = 0 \<longrightarrow> round_double (of_int k / 100) = 0" by (simp add: k_def round_double_def)
  ultimately show ?thesis by blast
qed (simp add: hedgePayoffPct_def js_int_def)

lemma bar_width_range: "pct = Num x \<Longrightarrow> \<exists>y. bar_width pct = Num y \<and> 0 \<le> y \<and> y \<le> 100"
  by (auto simp: bar_width_def Math_min_def js_int_def)

lemma hedgedLossPct_finite:
  assumes "- 95 \<le> u" "u \<le> 0" "\<bar>y\<bar> \<le> 100"
  shows "\<exists>z. hedgedLossPct mult (Num u) (Num y) = Num z \<and> u \<le> z \<and> z \<le> 97"
proof -
  have "of_int 3 \<le> (31 / 10 :: rat)" "(31 / 10 :: rat) \<le> of_int 4" by simp_all
  note t = to_js_bounded [OF this]
  then have t': "to_js (31 / 10) = Num (round_double (31 / 10))" "3 \<le> round_double (31 / 10)"
    "round_double (31 / 10) \<le> 4" by simp_all
  have "of_int (- 104) \<le> - y + - round_double (31 / 10)" "- y + - round_double (31 / 10) \<le> of_int 97"
    using assms(3) t'(2,3) by simp_all
  note r = to_js_bounded [OF this]
  then show ?thesis using assms(1,2) t'(1)
    by (auto simp: hedgedLossPct_def js_sub_def js_int_def Math_max_def)
qed


section \<open>The panel\<close>

lemma whatif_reach_active: "whatif_reach st \<Longrightarrow> activeShock st < 7"
  by (induction rule: whatif_reach.induct) (auto simp: whatif_mount_def click_def SHOCK_STEPS_def)

lemma whatif_reach_preview: "whatif_reach st \<Longrightarrow> 0 \<le> h_notionalQuote (previewHedge st)"
  by (induction rule: whatif_reach.induct) (auto simp: whatif_mount_def buildPreviewHedge_def click_def)

text \<open>What the panel shows under a shock.\<close>

definition figures_sound :: "whatif_figures \<Rightarrow> bool" where
  "figures_sound f \<longleftrightarrow>
     (\<exists>c. wf_spotPct f = Num c \<and> - 95 \<le> c \<and> c \<le> 500)
     \<and> \<bar>wf_totalPnl f\<bar> \<le> wf_totalNotional f
     \<and> (\<exists>y. wf_hedgePayoffPct f = Num y \<and> \<bar>y\<bar> \<le> 100)
     \<and> (\<exists>u z. wf_unhedgedLossPct f = Num u \<and> wf_hedgedLossPct f = Num z \<and> u \<le> 0 \<and> u \<le> z)
     \<and> (\<exists>y. wf_barUnhedged f = Num y \<and> 0 \<le> y \<and> y \<le> 100)
     \<and> (\<exists>y. wf_barHedged f = Num y \<and> 0 \<le> y \<and> y \<le> 100)"

lemma figures_sound:
  assumes "c' = clampedSpotPct mult (Num x)" "\<bar>totalPnl qs\<bar> \<le> totalNotional hs"
  shows "figures_sound (figures mult c' qs hs)"
proof -
  obtain c where c: "c' = Num c" "- 95 \<le> c" "c \<le> 500" using clampedSpotPct_range assms(1) by blast
  obtain y where y: "hedgePayoffPct (totalPnl qs) (totalNotional hs) = Num y" "\<bar>y\<bar> \<le> 100"
    using hedgePayoffPct_range [OF assms(2)] by blast
  obtain u where u: "Math_min (js_int 0) (Num c) = Num u" "- 95 \<le> u" "u \<le> 0"
    using c by (cases "c < 0") (auto simp: Math_min_def js_int_def)
  obtain z where z: "hedgedLossPct mult (Num u) (Num y) = Num z" "u \<le> z"
    using hedgedLossPct_finite [OF u(2,3) y(2)] by blast
  show ?thesis using assms(2) c y u z bar_width_range [of "Num u" u] bar_width_range [of "Num z" z]
    by (simp add: figures_sound_def figures_def Let_def)
qed

text \<open>C19. The what-if panel: from every state its buttons reach, with any finite volatility, it renders without an
  error; it is empty exactly without hedges outside the preview; otherwise every hedge is one leg, the spot move
  stays within its clamp, the profit within the notional, the payoff within one hundred percent, the loss with
  hedge is never below the one without, both bars fit the track, and the flat button shows no profit.\<close>

theorem whatif_panel_sound:
  assumes "whatif_reach st" "sigmaSpotPct (wp_sigma p) = Num x"
    and "\<forall>h\<in>set (wp_hedges p). 0 \<le> h_notionalQuote h"
    and "\<forall>s. wp_surface p = Some s \<longrightarrow> 0 \<le> svi_a (sv_svi s) \<and> 0 \<le> svi_b (sv_svi s)"
  shows "if wp_hedges p = [] \<and> \<not> previewMode st then WhatIfSimulator st p = Inr None
    else \<exists>f. WhatIfSimulator st p = Inr (Some f) \<and> figures_sound f
      \<and> wf_legs f = (if previewMode st then 1 else length (wp_hedges p))
      \<and> (activeShock st = 3 \<longrightarrow> wf_totalPnl f = 0 \<and> wf_spotPct f = Num 0 \<and> wf_hedgedLossPct f = Num 0)"
proof -
  define mult where "mult = SHOCK_STEPS ! activeShock st"
  have m: "sigmaMult_at (activeShock st) = Inr mult"
    using whatif_reach_active [OF assms(1)] by (simp add: sigmaMult_at_def SHOCK_STEPS_def mult_def)
  define qs where "qs = quote_rows (effectiveSurface st p) (effectiveHedges st p) (effective_forward p)
    (spotShockBps mult (Num x))"
  have r: "WhatIfSimulator st p = Inr (if wp_hedges p = [] \<and> \<not> previewMode st then None
      else Some (figures mult (clampedSpotPct mult (Num x)) qs (effectiveHedges st p)))"
    by (simp add: WhatIfSimulator_def m assms(2) qs_def Let_def)
  have s: "\<forall>s. effectiveSurface st p = Some s \<longrightarrow> 0 \<le> svi_a (sv_svi s) \<and> 0 \<le> svi_b (sv_svi s)"
    using assms(4) by (simp add: effectiveSurface_def PREVIEW_SURFACE_def PREVIEW_SVI_def)
  have h: "\<forall>h\<in>set (effectiveHedges st p). 0 \<le> h_notionalQuote h"
    using assms(3) whatif_reach_preview [OF assms(1)] by (simp add: effectiveHedges_def)
  note tot = quote_rows_total [OF s h, where fwd = "effective_forward p" and bps = "spotShockBps mult (Num x)",
      folded qs_def]
  have flat: "mult = 0" if "activeShock st = 3" using that by (simp add: mult_def SHOCK_STEPS_def)
  then have "totalPnl qs = 0" if "activeShock st = 3" using that tot(2) spotShockBps_flat by simp
  then show ?thesis using r figures_sound [OF refl tot(1)] flat spotShockBps_flat
    by (auto simp: figures_def Let_def effectiveHedges_def hedgedLossPct_def js_int_def)
qed


definition demo_props :: whatif_props where
  "demo_props = \<lparr>wp_hedges = [buildPreviewHedge 0], wp_surface = Some PREVIEW_SURFACE,
     wp_sigma = useSigmaEstimates 0 None, wp_forwardPrice = Some 120000000000000\<rparr>"

theorem whatif_panel_sound_witness:
  "\<exists>f. WhatIfSimulator (click (ClickShock 1) (whatif_mount 0)) demo_props = Inr (Some f) \<and> figures_sound f
     \<and> wf_legs f = 1"
proof -
  have "whatif_reach (click (ClickShock 1) (whatif_mount 0))"
    by (intro whatif_reach.intros) (simp add: SHOCK_STEPS_def)
  moreover have "sigmaSpotPct (wp_sigma demo_props) = Num 20"
    by (simp add: demo_props_def useSigmaEstimates_def bootstrap_estimates_def BOOTSTRAP_SIGMA_SPOT_PCT_def js_int_def)
  ultimately show ?thesis
    using whatif_panel_sound [of "click (ClickShock 1) (whatif_mount 0)" demo_props 20]
    by (simp add: demo_props_def buildPreviewHedge_def PREVIEW_SURFACE_def PREVIEW_SVI_def click_def whatif_mount_def)
qed

section \<open>What the preview shows in a crash\<close>

lemma preview_prices:
  "binaryPrice PREVIEW_SVI 100000000000000 100000000000000 = Inr 264291346"
  "binaryPrice PREVIEW_SVI 5000000000000 100000000000000 = Inl EKOutOfRange"
  "binaryPrice PREVIEW_SVI 40000000000000 100000000000000 = Inr 87552240"
  by code_simp+

lemma bootstrap_shock:
  "clampedSpotPct (- 5) (Num 20) = Num (- 95)" "spotShockBps (- 5) (Num 20) = Num (of_int (- 9500))"
  "clampedSpotPct (- 3) (Num 20) = Num (- 60)" "spotShockBps (- 3) (Num 20) = Num (of_int (- 6000))"
proof -
  have f: "\<lfloor>- 9500 + 1 / 2 :: rat\<rfloor> = - 9500" "\<lfloor>- 6000 + 1 / 2 :: rat\<rfloor> = - 6000"
    by (simp_all add: floor_eq_iff)
  show c5: "clampedSpotPct (- 5) (Num 20) = Num (- 95)" and c3: "clampedSpotPct (- 3) (Num 20) = Num (- 60)"
    by (simp_all add: clampedSpotPct_def Math_min_def Math_max_def js_int_def to_js_numeral)
  show "spotShockBps (- 5) (Num 20) = Num (of_int (- 9500))" "spotShockBps (- 3) (Num 20) = Num (of_int (- 6000))"
    unfolding spotShockBps_def c5 c3 by (simp_all add: js_int_def to_js_numeral f [simplified])
qed

lemma preview_shocked_pnl:
  "shockedPnL key PREVIEW_SVI 100000000000000 100000000000000 50000000000 (Num 0) (Num (of_int (- 9500)))
     = Inl EKOutOfRange"
  "\<exists>q. shockedPnL key PREVIEW_SVI 100000000000000 100000000000000 50000000000 (Num 0) (Num (of_int (- 6000)))
     = Inr q \<and> pnlQuote q = - 8836955300"
proof -
  have d: "- 950000000000000000 sdiv 10000 = (- 95000000000000 :: int)"
    "- 600000000000000000 sdiv 10000 = (- 60000000000000 :: int)"
    "- 8836955300000000000 sdiv 1000000000 = (- 8836955300 :: int)" by code_simp+
  have "shockedForward 100000000000000 (Num (of_int (- 9500))) = Inr 5000000000000"
    "shockedForward 100000000000000 (Num (of_int (- 6000))) = Inr 40000000000000"
    by (simp_all add: shockedForward_def BigInt_of_number_def Let_def d)
  then show "shockedPnL key PREVIEW_SVI 100000000000000 100000000000000 50000000000 (Num 0) (Num (of_int (- 9500)))
     = Inl EKOutOfRange"
    "\<exists>q. shockedPnL key PREVIEW_SVI 100000000000000 100000000000000 50000000000 (Num 0) (Num (of_int (- 6000)))
     = Inr q \<and> pnlQuote q = - 8836955300"
    by (simp_all add: shockedPnL_def shockSviParallel_def preview_prices STRATEGY_CONSTANTS_def d)
qed

lemmas preview_render =
  WhatIfSimulator_def sigmaMult_at_def SHOCK_STEPS_def click_def whatif_mount_def buildPreviewHedge_def
  effectiveHedges_def effectiveSurface_def effective_forward_def PREVIEW_SURFACE_def bootstrap_shock
  FALLBACK_FORWARD_PRICE_DUSDC_def quote_rows_def quote_row_def figures_def totalPnl_def Math_min_def js_int_def Let_def

text \<open>The clamp of ninety-five percent does not keep the strongest shock inside the domain of the pricer: at the
  bootstrap volatility the at-the-money put of the preview is out of range there and is shown as a row of
  zeros, so the worst crash reads \<open>protected\<close> with no profit. One button further, where the pricer answers, the put is
  priced as a call and loses value in a fall of sixty percent.\<close>

theorem preview_crash_figures:
  assumes "sigmaSpotPct (wp_sigma p) = Num 20" "wp_forwardPrice p = None"
    and "st = click ClickPreview (whatif_mount now)"
  shows "h_direction (previewHedge st) = ''down''
    \<and> (\<exists>f. WhatIfSimulator (click (ClickShock 0) st) p = Inr (Some f)
        \<and> wf_totalPnl f = 0 \<and> wf_protected f \<and> wf_unhedgedLossPct f = Num (- 95))
    \<and> (\<exists>f. WhatIfSimulator (click (ClickShock 1) st) p = Inr (Some f)
        \<and> wf_totalPnl f = - 8836955300 \<and> \<not> wf_protected f \<and> wf_unhedgedLossPct f = Num (- 60))"
proof -
  have "h_direction (previewHedge st) = ''down''"
    by (simp add: assms(3) click_def whatif_mount_def buildPreviewHedge_def)
  moreover have "\<exists>f. WhatIfSimulator (click (ClickShock 0) st) p = Inr (Some f)
      \<and> wf_totalPnl f = 0 \<and> wf_protected f \<and> wf_unhedgedLossPct f = Num (- 95)"
    unfolding assms(3)
    by (simp add: preview_render assms(1,2) preview_shocked_pnl(1) [simplified])
  moreover obtain q where q: "shockedPnL ''preview-synthetic|100000000000000|preview|down'' PREVIEW_SVI
      100000000000000 100000000000000 50000000000 (Num 0) (Num (of_int (- 6000))) = Inr q" "pnlQuote q = - 8836955300"
    using preview_shocked_pnl(2) by blast
  then have "\<exists>f. WhatIfSimulator (click (ClickShock 1) st) p = Inr (Some f)
      \<and> wf_totalPnl f = - 8836955300 \<and> \<not> wf_protected f \<and> wf_unhedgedLossPct f = Num (- 60)"
    unfolding assms(3)
    by (simp add: preview_render assms(1,2))
  ultimately show ?thesis by blast
qed

end
