(* ===== verification/OracleExpiry.thy ===== *)
theory OracleExpiry
  imports JsData
begin

text \<open>
  \<open>scripts/deepbookv3/scripts/services/oracle-feed/expiry.ts\<close>: the expiry calendar of the oracle feed.
  Times are milliseconds since the epoch; the UTC fields of a \<open>Date\<close> are floor divisions, and day zero
  is a Thursday. The theory proves that the calendar functions return the next instant of a tier's
  schedule and that the classification of an expiry inverts them.
\<close>

datatype Tier = T15m | T1h | T1d | T1w

definition MS_MIN :: int where "MS_MIN = 60000"
definition MS_HOUR :: int where "MS_HOUR = 60 * MS_MIN"
definition MS_DAY :: int where "MS_DAY = 24 * MS_HOUR"

section \<open>UTC fields\<close>

definition utc_midnight :: "int \<Rightarrow> int" where "utc_midnight t = (t div MS_DAY) * MS_DAY"
definition getUTCDay :: "int \<Rightarrow> int" where "getUTCDay t = (t div MS_DAY + 4) mod 7"
definition getUTCHours :: "int \<Rightarrow> int" where "getUTCHours t = (t div MS_HOUR) mod 24"
definition getUTCMinutes :: "int \<Rightarrow> int" where "getUTCMinutes t = (t div MS_MIN) mod 60"
definition getUTCSeconds :: "int \<Rightarrow> int" where "getUTCSeconds t = (t div 1000) mod 60"
definition getUTCMilliseconds :: "int \<Rightarrow> int" where "getUTCMilliseconds t = t mod 1000"

section \<open>The source\<close>

definition next15m :: "int \<Rightarrow> int" where
  "next15m now = (let quarter = 15 * MS_MIN in (now div quarter) * quarter + quarter)"

definition next1h :: "int \<Rightarrow> int" where
  "next1h now = (now div MS_HOUR) * MS_HOUR + MS_HOUR"

definition next1d :: "int \<Rightarrow> int" where
  "next1d now =
     (let midnight = utc_midnight now; todayAt8 = midnight + 8 * MS_HOUR in
      if todayAt8 > now then todayAt8 else midnight + MS_DAY + 8 * MS_HOUR)"

text \<open>\<open>x || 7\<close> replaces zero by seven.\<close>

definition next1w :: "int \<Rightarrow> int" where
  "next1w now =
     (let dow = getUTCDay now; midnight = utc_midnight now; todayAt8 = midnight + 8 * MS_HOUR in
      if dow = 5 \<and> todayAt8 > now then todayAt8
      else let r = (5 - dow + 7) smod 7; daysUntilFriday = (if r = 0 then 7 else r)
           in midnight + daysUntilFriday * MS_DAY + 8 * MS_HOUR)"

fun nextOf :: "Tier \<Rightarrow> int \<Rightarrow> int" where
  "nextOf T15m t = next15m t"
| "nextOf T1h t = next1h t"
| "nextOf T1d t = next1d t"
| "nextOf T1w t = next1w t"

fun tier_step :: "Tier \<Rightarrow> int" where
  "tier_step T15m = 15 * MS_MIN"
| "tier_step T1h = MS_HOUR"
| "tier_step T1d = MS_DAY"
| "tier_step T1w = 7 * MS_DAY"

definition expectedExpiriesForTier :: "Tier \<Rightarrow> int \<Rightarrow> nat \<Rightarrow> int \<Rightarrow> int list" where
  "expectedExpiriesForTier tier now count minLookaheadMs =
     (let first = nextOf tier (now + minLookaheadMs); dt = tier_step tier
      in map (\<lambda>i. first + int i * dt) [0..<count])"

definition expectedExpirySet :: "Tier list \<Rightarrow> nat \<Rightarrow> int \<Rightarrow> int \<Rightarrow> (Tier, int list) js_Map" where
  "expectedExpirySet tiers count minLookaheadMs now =
     fold (\<lambda>t. map_set t (expectedExpiriesForTier t now count minLookaheadMs)) tiers []"

definition inferTier :: "int \<Rightarrow> Tier list \<Rightarrow> Tier option" where
  "inferTier expiryMs enabled =
     (if getUTCSeconds expiryMs \<noteq> 0 \<or> getUTCMilliseconds expiryMs \<noteq> 0 then None
      else if T1w \<in> set enabled \<and> getUTCDay expiryMs = 5 \<and> getUTCHours expiryMs = 8 \<and> getUTCMinutes expiryMs = 0
      then Some T1w
      else if T1d \<in> set enabled \<and> getUTCHours expiryMs = 8 \<and> getUTCMinutes expiryMs = 0 then Some T1d
      else if T1h \<in> set enabled \<and> getUTCMinutes expiryMs = 0 then Some T1h
      else if T15m \<in> set enabled \<and> getUTCMinutes expiryMs smod 15 = 0 then Some T15m
      else None)"

lemmas ms_defs = MS_DAY_def MS_HOUR_def MS_MIN_def

lemma tier_steps:
  "tier_step T15m = 900000" "tier_step T1h = 3600000" "tier_step T1d = 86400000" "tier_step T1w = 604800000"
  by (simp_all add: ms_defs)

lemma tier_step_inj: "tier_step a = tier_step b \<longleftrightarrow> a = b"
  by (cases a; cases b; simp only: tier_steps; simp)

section \<open>Coarseness\<close>

text \<open>Tiers are ordered by their step, the order in which the classification tries them from the top.\<close>

instantiation Tier :: linorder
begin

definition less_eq_Tier :: "Tier \<Rightarrow> Tier \<Rightarrow> bool" where "less_eq_Tier a b \<longleftrightarrow> tier_step a \<le> tier_step b"
definition less_Tier :: "Tier \<Rightarrow> Tier \<Rightarrow> bool" where "less_Tier a b \<longleftrightarrow> tier_step a < tier_step b"

instance
  by standard (auto simp: less_eq_Tier_def less_Tier_def tier_step_inj)

end

lemma tier_order:
  "T15m \<le> a" "a \<le> T1w" "a \<le> T15m \<longleftrightarrow> a = T15m" "T1w \<le> a \<longleftrightarrow> a = T1w"
  "T1h \<le> T1d" "\<not> T1d \<le> T1h"
  by (cases a; simp only: less_eq_Tier_def tier_steps; simp)+

section \<open>Schedules\<close>

text \<open>The instants of a tier: a phase modulo its step. Fridays at eight are one day and eight hours
  after the start of the epoch's week, which begins on a Thursday.\<close>

fun phase :: "Tier \<Rightarrow> int" where
  "phase T15m = 0"
| "phase T1h = 0"
| "phase T1d = 8 * MS_HOUR"
| "phase T1w = MS_DAY + 8 * MS_HOUR"

definition on_schedule :: "Tier \<Rightarrow> int \<Rightarrow> bool" where
  "on_schedule tier t \<longleftrightarrow> t mod tier_step tier = phase tier"

text \<open>An instant by week, day of the epoch's week and time of day.\<close>

lemma week_split:
  obtains w i r :: int where "t = (7 * w + i) * 86400000 + r" "0 \<le> i" "i < 7" "0 \<le> r" "r < 86400000"
proof -
  have "t = (7 * (t div 86400000 div 7) + (t div 86400000) mod 7) * 86400000 + t mod 86400000" by simp
  moreover have "0 \<le> (t div 86400000) mod 7" "(t div 86400000) mod 7 < 7" "0 \<le> t mod 86400000" "t mod 86400000 < 86400000"
    by simp_all
  ultimately show thesis using that by blast
qed

lemma next1w_split:
  assumes "t = (7 * w + i) * 86400000 + r" "0 \<le> i" "i < 7" "0 \<le> r" "r < 86400000"
  shows "next1w t = (if i < 1 \<or> (i = 1 \<and> r < 28800000) then (7 * w + 1) * 86400000 + 28800000
    else (7 * w + 8) * 86400000 + 28800000)"
proof -
  have q: "t div MS_DAY = 7 * w + i"
    using assms by (simp add: ms_defs)
  have "7 * w + i + 4 = (i + 4) + 7 * w" by simp
  then have d: "getUTCDay t = (i + 4) mod 7" unfolding getUTCDay_def q by (simp only: mod_mult_self2)
  have cases: "i = 0 \<or> i = 1 \<or> i = 2 \<or> i = 3 \<or> i = 4 \<or> i = 5 \<or> i = 6" using assms by arith
  show ?thesis
    unfolding next1w_def utc_midnight_def q d using cases assms
    by (auto simp: ms_defs Let_def smod_nonneg)
qed

lemma nextOf_bounds:
  "t < nextOf tier t \<and> nextOf tier t \<le> t + tier_step tier \<and> on_schedule tier (nextOf tier t)"
proof (cases tier)
  case T15m
  then show ?thesis by (simp add: next15m_def on_schedule_def ms_defs) presburger
next
  case T1h
  then show ?thesis by (simp add: next1h_def on_schedule_def ms_defs) presburger
next
  case T1d
  then show ?thesis
    by (simp add: next1d_def on_schedule_def utc_midnight_def ms_defs Let_def) presburger
next
  case T1w
  obtain w i r where t: "t = (7 * w + i) * 86400000 + r" "0 \<le> i" "i < 7" "0 \<le> r" "r < 86400000"
    by (rule week_split)
  have m: "((7 * v + 1) * 86400000 + 28800000) mod 604800000 = (115200000 :: int)" for v :: int
  proof -
    have "(7 * v + 1) * 86400000 + 28800000 = 115200000 + 604800000 * v" by simp
    then show ?thesis by (simp only: mod_mult_self2) simp
  qed
  have "next1w t mod 604800000 = 115200000"
    using m [of w] m [of "w + 1"] by (simp only: next1w_split [OF t]) (simp add: distrib_left)
  moreover have "t < next1w t \<and> next1w t \<le> t + 604800000"
  proof (cases "i < 1 \<or> (i = 1 \<and> r < 28800000)")
    case True
    then have "next1w t = (7 * w + 1) * 86400000 + 28800000" by (simp only: next1w_split [OF t] if_True)
    with True t(2-) show ?thesis unfolding t(1) by auto
  next
    case False
    then have "next1w t = (7 * w + 8) * 86400000 + 28800000" by (simp only: next1w_split [OF t] if_False)
    with False t(2-) show ?thesis unfolding t(1) by auto
  qed
  ultimately show ?thesis using T1w by (simp add: on_schedule_def ms_defs)
qed

lemma tier_step_pos: "0 < tier_step tier"
  by (cases tier) (simp_all add: ms_defs)

lemma on_schedule_gap:
  assumes "on_schedule tier a" "on_schedule tier b" "a < b"
  shows "a + tier_step tier \<le> b"
proof -
  have "tier_step tier dvd b - a"
    using assms(1,2) by (metis on_schedule_def mod_eq_dvd_iff)
  then show ?thesis using assms(3) zdvd_imp_le [of "tier_step tier" "b - a"] by simp
qed

lemma on_schedule_add: "on_schedule tier a \<Longrightarrow> on_schedule tier (a + k * tier_step tier)"
  by (simp add: on_schedule_def)

lemma on_schedule_after:
  assumes "on_schedule tier x" "t < x"
  shows "\<exists>k. x = nextOf tier t + int k * tier_step tier"
proof -
  note n = nextOf_bounds [of t tier]
  have "nextOf tier t \<le> x"
    using on_schedule_gap [OF assms(1), of "nextOf tier t"] n assms(2) by force
  moreover have "tier_step tier dvd x - nextOf tier t"
    using assms(1) n by (metis on_schedule_def mod_eq_dvd_iff)
  then obtain k where k: "x - nextOf tier t = tier_step tier * k" by (auto simp: dvd_def)
  ultimately have "0 \<le> tier_step tier * k" by linarith
  then have "0 \<le> k" using tier_step_pos [of tier] by (simp add: zero_le_mult_iff)
  then have "x = nextOf tier t + int (nat k) * tier_step tier" using k by (simp add: mult.commute)
  then show ?thesis ..
qed

lemma expected_on_schedule:
  "x \<in> set (expectedExpiriesForTier tier now count floor_ms) \<Longrightarrow> on_schedule tier x"
  using nextOf_bounds on_schedule_add by (auto simp: expectedExpiriesForTier_def Let_def)

text \<open>C16. The expiry calendar: the instants requested for a tier are exactly the first \<open>count\<close> instants of its
  schedule (quarters, hours, eight o'clock UTC, Fridays at eight UTC) after the look-ahead floor, in
  increasing order, with none left out in between.\<close>

theorem expected_expiries_are_schedule:
  "length (expectedExpiriesForTier tier now count floor_ms) = count
   \<and> sorted_wrt (<) (expectedExpiriesForTier tier now count floor_ms)
   \<and> (\<forall>x. x \<in> set (expectedExpiriesForTier tier now count floor_ms) \<longleftrightarrow>
         on_schedule tier x \<and> now + floor_ms < x \<and> x < nextOf tier (now + floor_ms) + int count * tier_step tier)"
proof -
  define f where "f = nextOf tier (now + floor_ms)"
  define xs where "xs = expectedExpiriesForTier tier now count floor_ms"
  have xs: "xs = map (\<lambda>i. f + int i * tier_step tier) [0..<count]"
    by (simp add: xs_def expectedExpiriesForTier_def f_def Let_def)
  note n = nextOf_bounds [of "now + floor_ms" tier, folded f_def] and p = tier_step_pos [of tier]
  have "sorted_wrt (<) xs" using p by (simp add: xs sorted_wrt_iff_nth_less)
  moreover have "x \<in> set xs \<longleftrightarrow> on_schedule tier x \<and> now + floor_ms < x \<and> x < f + int count * tier_step tier" for x
  proof
    assume "x \<in> set xs"
    then obtain i where i: "i < count" "x = f + int i * tier_step tier" by (auto simp: xs)
    have "0 \<le> int i * tier_step tier" "int i * tier_step tier < int count * tier_step tier"
      using p i(1) by simp_all
    then have "now + floor_ms < x" "x < f + int count * tier_step tier" using n i(2) by linarith+
    moreover have "on_schedule tier x" unfolding i(2) using n on_schedule_add by blast
    ultimately show "on_schedule tier x \<and> now + floor_ms < x \<and> x < f + int count * tier_step tier" by blast
  next
    assume x: "on_schedule tier x \<and> now + floor_ms < x \<and> x < f + int count * tier_step tier"
    then obtain k where k: "x = f + int k * tier_step tier" using on_schedule_after f_def by blast
    with x p have "k < count" by simp
    with k show "x \<in> set xs" by (auto simp: xs)
  qed
  ultimately show ?thesis unfolding xs_def [symmetric] f_def [symmetric] by (simp add: xs)
qed

section \<open>Classification\<close>

lemma div_mod_zero:
  fixes x a b :: int
  assumes "0 < a" "0 < b"
  shows "x mod a = 0 \<and> (x div a) mod b = 0 \<longleftrightarrow> x mod (a * b) = 0"
proof -
  have "x mod (a * b) = a * (x div a mod b) + x mod a" using assms by (simp add: zmod_zmult2_eq)
  moreover have "0 \<le> x mod a" "0 \<le> a * (x div a mod b)" using assms by simp_all
  ultimately show ?thesis using assms by (auto simp: add_nonneg_eq_0_iff)
qed

lemma utc_whole_minute: "getUTCSeconds x = 0 \<and> getUTCMilliseconds x = 0 \<longleftrightarrow> x mod 60000 = 0"
  using div_mod_zero [of 1000 60 x] by (auto simp: getUTCSeconds_def getUTCMilliseconds_def)

lemma utc_fields:
  assumes "x = 60000 * y"
  shows "getUTCMinutes x = y mod 60" "getUTCHours x = y div 60 mod 24" "getUTCDay x = (y div 1440 + 4) mod 7"
proof -
  have "x div 3600000 = x div 60000 div 60" "x div 86400000 = x div 60000 div 1440" by (simp_all add: div_mult2_eq [symmetric])
  then show "getUTCMinutes x = y mod 60" "getUTCHours x = y div 60 mod 24" "getUTCDay x = (y div 1440 + 4) mod 7"
    using assms by (simp_all add: getUTCMinutes_def getUTCHours_def getUTCDay_def ms_defs)
qed

lemma on_schedule_minutes:
  assumes "x = 60000 * y"
  shows "on_schedule T15m x \<longleftrightarrow> y mod 15 = 0" "on_schedule T1h x \<longleftrightarrow> y mod 60 = 0"
    "on_schedule T1d x \<longleftrightarrow> y mod 1440 = 480" "on_schedule T1w x \<longleftrightarrow> y mod 10080 = 1920"
proof -
  have m: "(60000 * y) mod (60000 * m) = 60000 * c \<longleftrightarrow> y mod m = c" for m c :: int
    by (simp only: mult_mod_right [symmetric]) simp
  have s: "tier_step T15m = 60000 * 15" "tier_step T1h = 60000 * 60" "tier_step T1d = 60000 * 1440"
    "tier_step T1w = 60000 * 10080" "phase T15m = 60000 * 0" "phase T1h = 60000 * 0" "phase T1d = 60000 * 480"
    "phase T1w = 60000 * 1920" by (simp_all add: ms_defs)
  show "on_schedule T15m x \<longleftrightarrow> y mod 15 = 0" "on_schedule T1h x \<longleftrightarrow> y mod 60 = 0"
    "on_schedule T1d x \<longleftrightarrow> y mod 1440 = 480" "on_schedule T1w x \<longleftrightarrow> y mod 10080 = 1920"
    unfolding on_schedule_def assms s m by (rule refl)+
qed

lemma on_schedule_whole_minute: "on_schedule tier x \<Longrightarrow> x mod 60000 = 0"
proof -
  assume a: "on_schedule tier x"
  have d: "(60000 :: int) dvd tier_step tier" "(60000 :: int) dvd phase tier"
    by (cases tier; simp add: ms_defs)+
  have "x mod 60000 = (x mod tier_step tier) mod 60000" using d(1) by (simp add: mod_mod_cancel)
  also have "\<dots> = 0" using a d(2) by (simp add: on_schedule_def)
  finally show ?thesis .
qed

lemma digit_pair:
  fixes a h m k c :: int
  assumes "a = k * h + m" "0 \<le> m" "m < k" "0 \<le> c" "c < k"
  shows "h = e \<and> m = c \<longleftrightarrow> a = k * e + c"
proof
  assume "a = k * e + c"
  then have e: "k * h + m = k * e + c" using assms(1) by simp
  have "(k * h + m) div k = h" "(k * e + c) div k = e" using assms by simp_all
  with e show "h = e \<and> m = c" by simp
qed (use assms in simp)

lemma minute_conditions:
  fixes y :: int
  shows "y div 60 mod 24 = 8 \<and> y mod 60 = 0 \<longleftrightarrow> y mod 1440 = 480"
    "(y div 1440 + 4) mod 7 = 5 \<and> y mod 1440 = 480 \<longleftrightarrow> y mod 10080 = 1920"
    "(y mod 60) mod 15 = 0 \<longleftrightarrow> y mod 15 = 0"
proof -
  have "y mod 1440 = 60 * (y div 60 mod 24) + y mod 60" using zmod_zmult2_eq [of 24 y 60] by simp
  from digit_pair [OF this, of 0 8] show "y div 60 mod 24 = 8 \<and> y mod 60 = 0 \<longleftrightarrow> y mod 1440 = 480" by simp
  have "y mod 10080 = 1440 * (y div 1440 mod 7) + y mod 1440" using zmod_zmult2_eq [of 7 y 1440] by simp
  from digit_pair [OF this, of 480 1]
  have "y div 1440 mod 7 = 1 \<and> y mod 1440 = 480 \<longleftrightarrow> y mod 10080 = 1920" by simp
  moreover have "(z + 4) mod 7 = 5 \<longleftrightarrow> z mod 7 = 1" for z :: int by presburger
  ultimately show "(y div 1440 + 4) mod 7 = 5 \<and> y mod 1440 = 480 \<longleftrightarrow> y mod 10080 = 1920" by blast
  show "(y mod 60) mod 15 = 0 \<longleftrightarrow> y mod 15 = 0" by (simp add: mod_mod_cancel)
qed

text \<open>The classification decides membership in the schedules, coarsest first.\<close>

lemma inferTier_schedules:
  "inferTier x enabled =
     (if T1w \<in> set enabled \<and> on_schedule T1w x then Some T1w
      else if T1d \<in> set enabled \<and> on_schedule T1d x then Some T1d
      else if T1h \<in> set enabled \<and> on_schedule T1h x then Some T1h
      else if T15m \<in> set enabled \<and> on_schedule T15m x then Some T15m else None)"
proof (cases "x mod 60000 = 0")
  case False
  then have "\<not> on_schedule tier x" for tier using on_schedule_whole_minute by blast
  moreover have "inferTier x enabled = None"
    using False utc_whole_minute [of x] by (auto simp: inferTier_def)
  ultimately show ?thesis by simp
next
  case True
  then obtain y where y: "x = 60000 * y" by (auto simp: mod_eq_0_iff_dvd dvd_def)
  have s: "\<not> (getUTCSeconds x \<noteq> 0 \<or> getUTCMilliseconds x \<noteq> 0)" using iffD2 [OF utc_whole_minute True] by simp
  have q: "(y mod 60) smod 15 = (y mod 60) mod 15" by (simp add: smod_nonneg)
  show ?thesis
    unfolding inferTier_def if_not_P [OF s] utc_fields [OF y] on_schedule_minutes [OF y] q minute_conditions
    by (rule refl)
qed

lemma inferTier_sound:
  "inferTier x enabled = Some c \<Longrightarrow> c \<in> set enabled \<and> on_schedule c x"
  unfolding inferTier_schedules by (auto split: if_splits)

lemma inferTier_coarsest:
  assumes "c \<in> set enabled" "on_schedule c x"
  shows "\<exists>d. inferTier x enabled = Some d \<and> c \<le> d"
  using assms unfolding inferTier_schedules
  by (cases c rule: Tier.exhaust) (simp_all add: tier_order)

text \<open>Classification inverts the calendar: an expiry of an enabled tier's calendar is given a tier, an
  enabled one whose schedule contains the expiry and that is at least as coarse; when no coarser tier
  shares the instant it is the tier itself. An instant on no enabled schedule is given none.\<close>

theorem inferTier_inverts_calendar:
  "(tier \<in> set enabled \<and> x \<in> set (expectedExpiriesForTier tier now count floor_ms) \<longrightarrow>
      (\<exists>tier'. inferTier x enabled = Some tier' \<and> tier' \<in> set enabled \<and> on_schedule tier' x
        \<and> tier \<le> tier'
        \<and> ((\<forall>c \<in> set enabled. tier < c \<longrightarrow> \<not> on_schedule c x) \<longrightarrow> tier' = tier)))
   \<and> ((\<forall>c \<in> set enabled. \<not> on_schedule c x) \<longrightarrow> inferTier x enabled = None)"
proof (intro conjI impI)
  assume a: "tier \<in> set enabled \<and> x \<in> set (expectedExpiriesForTier tier now count floor_ms)"
  then have "on_schedule tier x" using expected_on_schedule by blast
  with a obtain d where d: "inferTier x enabled = Some d" "tier \<le> d"
    using inferTier_coarsest by blast
  note i = inferTier_sound [OF d(1)]
  have "d = tier" if "\<forall>c \<in> set enabled. tier < c \<longrightarrow> \<not> on_schedule c x"
    using that i d(2) by (auto simp: le_less)
  with d i show "\<exists>tier'. inferTier x enabled = Some tier' \<and> tier' \<in> set enabled \<and> on_schedule tier' x
        \<and> tier \<le> tier'
        \<and> ((\<forall>c \<in> set enabled. tier < c \<longrightarrow> \<not> on_schedule c x) \<longrightarrow> tier' = tier)" by blast
next
  assume "\<forall>c \<in> set enabled. \<not> on_schedule c x"
  then show "inferTier x enabled = None" using inferTier_sound by (cases "inferTier x enabled") blast+
qed

theorem inferTier_inverts_calendar_witness:
  "7200000 \<in> set (expectedExpiriesForTier T1h 0 3 0) \<and> inferTier 7200000 [T15m, T1h] = Some T1h
   \<and> inferTier 7200001 [T15m, T1h] = None"
proof (intro conjI)
  show m: "7200000 \<in> set (expectedExpiriesForTier T1h 0 3 0)" by code_simp
  have "\<not> on_schedule T15m 7200001" "\<not> on_schedule T1h 7200001" "\<not> T1h < T15m" by code_simp+
  with m inferTier_inverts_calendar [of T1h "[T15m, T1h]" 7200000 0 3 0]
    inferTier_inverts_calendar [of T1h "[T15m, T1h]" 7200001 0 3 0]
  show "inferTier 7200000 [T15m, T1h] = Some T1h" "inferTier 7200001 [T15m, T1h] = None" by auto
qed

end
