(* ===== verification/EventStream.thy ===== *)
theory EventStream
  imports DashboardBook DashboardFormat OracleExpiry "HOL-Library.Multiset"
begin

text \<open>
  \<open>dashboard/src/components/panels/EventStreamPanel.tsx\<close>: the list of recent events and the highlight of the
  newest row. The rows are a function of the ring; the highlight is a state machine over the renders and the
  timer. A time stamp that is no number is \<open>None\<close>; the order of such rows is left open by the language, the
  model sorts them as zero and the theorems about the order exclude them.
\<close>

section \<open>The rows\<close>

definition MAX_ROWS :: nat where
  "MAX_ROWS = 14"

record DisplayEvent =
  de_key :: string
  de_tsMs :: "int option"
  de_time :: string
  de_label :: string
  de_description :: string
  de_accent :: bool

text \<open>A time beyond the range of a \<open>Date\<close> has the fields \<open>NaN\<close>.\<close>

definition formatClock :: "int option \<Rightarrow> string" where
  "formatClock tsMs =
     (case tsMs of
        None \<Rightarrow> ''--:--:--''
      | Some t \<Rightarrow>
          (if t \<le> 0 then ''--:--:--''
           else if t > 8640000000000000 then ''NaN:NaN:NaN''
           else padStart 2 (int_toString (getUTCHours t)) @ '':'' @ padStart 2 (int_toString (getUTCMinutes t)) @ '':''
                @ padStart 2 (int_toString (getUTCSeconds t))))"

definition toLowerCase :: "string \<Rightarrow> string" where
  "toLowerCase s = map lower_char s"

definition eventLabel :: "string \<Rightarrow> string" where
  "eventLabel name =
     (let n = toLowerCase name in
      if str_includes ''svi'' n \<or> str_includes ''oracle'' n then ''SVI''
      else if str_includes ''rebalanc'' n then ''rebalance''
      else if str_includes ''mint'' n then ''mint''
      else if str_includes ''roll'' n then ''roll''
      else if str_includes ''supply'' n \<or> str_includes ''supplied'' n then ''supply''
      else if str_includes ''redeem'' n \<or> str_includes ''withdraw'' n then ''withdraw''
      else if name = [] then ''event'' else name)"

definition isAccentEvent :: "string \<Rightarrow> bool" where
  "isAccentEvent label \<longleftrightarrow> label = ''rebalance'' \<or> label = ''mint''"

text \<open>The first of the keys that holds a non-empty string.\<close>

fun described :: "json_record \<Rightarrow> string list \<Rightarrow> string option" where
  "described data [] = None"
| "described data (k # ks) =
     (case jstr (jget data k) of
        Some v \<Rightarrow> (if v \<noteq> [] then Some v else described data ks)
      | None \<Rightarrow> described data ks)"

definition eventDescription :: "RingEvent \<Rightarrow> string \<Rightarrow> string" where
  "eventDescription ev label =
     (case described (ev_data ev) [''description'', ''detail'', ''message'', ''summary''] of
        Some v \<Rightarrow> v
      | None \<Rightarrow>
          (if label = ''SVI''
           then case jstr (nullish (jget (ev_data ev) ''oracle_id'') (jget (ev_data ev) ''oracle'')) of
                  Some oracle \<Rightarrow> (if oracle \<noteq> [] then ''OracleSVIUpdated '' @ [CHR 0xB7] @ '' '' @ oracle
                                 else ''OracleSVIUpdated '' @ [CHR 0xB7] @ '' '' @ ev_name ev)
                | None \<Rightarrow> ''OracleSVIUpdated '' @ [CHR 0xB7] @ '' '' @ ev_name ev
           else ev_name ev))"

definition row_key :: "RingEvent \<Rightarrow> nat \<Rightarrow> string" where
  "row_key ev idx = ev_ts_ms ev @ ''-'' @ ev_name ev @ ''-'' @ nat_toString idx"

definition display_row :: "RingEvent \<Rightarrow> nat \<Rightarrow> DisplayEvent" where
  "display_row ev idx =
     (let label = eventLabel (ev_name ev); tsMs = ts_of ev
      in \<lparr>de_key = row_key ev idx, de_tsMs = tsMs, de_time = formatClock tsMs, de_label = label,
          de_description = eventDescription ev label, de_accent = isAccentEvent label\<rparr>)"

definition age_key :: "RingEvent \<Rightarrow> int" where
  "age_key e = (case ts_of e of Some t \<Rightarrow> - t | None \<Rightarrow> 0)"

definition stream_shown :: "RingEvent list \<Rightarrow> RingEvent list" where
  "stream_shown events = take MAX_ROWS (sort_key age_key events)"

definition stream_rows :: "RingEvent list \<Rightarrow> DisplayEvent list" where
  "stream_rows events = (let evs = stream_shown events in map2 display_row evs [0..<length evs])"

section \<open>The highlight\<close>

text \<open>\<open>sp_timer\<close> says that the timer of the last run of the effect is pending.\<close>

record stream_state =
  sp_events :: "RingEvent list"
  sp_flashKey :: "string option"
  sp_prevNewest :: "int option option"
  sp_timer :: bool

definition newestTsMs :: "RingEvent list \<Rightarrow> int option option" where
  "newestTsMs events = (case stream_rows events of [] \<Rightarrow> None | r # _ \<Rightarrow> Some (de_tsMs r))"

text \<open>A new array of events renders; React runs the cleanup of the previous effect, which clears its timer,
  and then the effect.\<close>

definition stream_update :: "RingEvent list \<Rightarrow> stream_state \<Rightarrow> stream_state" where
  "stream_update events st =
     (let st0 = st\<lparr>sp_events := events, sp_timer := False\<rparr> in
      case newestTsMs events of
        None \<Rightarrow> st0
      | Some newest \<Rightarrow>
          (if (case sp_prevNewest st of Some prev \<Rightarrow> num_less prev newest | None \<Rightarrow> False)
           then st0\<lparr>sp_flashKey := Some (de_key (hd (stream_rows events))), sp_timer := True, sp_prevNewest := Some newest\<rparr>
           else st0\<lparr>sp_prevNewest := Some newest\<rparr>))"

definition flash_timeout :: "stream_state \<Rightarrow> stream_state" where
  "flash_timeout st = st\<lparr>sp_flashKey := None, sp_timer := False\<rparr>"

definition stream_mount :: stream_state where
  "stream_mount = \<lparr>sp_events = [], sp_flashKey = None, sp_prevNewest = None, sp_timer = False\<rparr>"

definition row_highlighted :: "stream_state \<Rightarrow> DisplayEvent \<Rightarrow> bool" where
  "row_highlighted st row \<longleftrightarrow> sp_flashKey st = Some (de_key row)"

inductive stream_reach :: "stream_state \<Rightarrow> bool" where
  mounted: "stream_reach stream_mount"
| updated: "stream_reach st \<Longrightarrow> stream_reach (stream_update events st)"
| timed_out: "stream_reach st \<Longrightarrow> sp_timer st \<Longrightarrow> stream_reach (flash_timeout st)"

section \<open>Facts about the rows\<close>

lemma stream_rows_nth:
  assumes "i < length (stream_shown events)"
  shows "stream_rows events ! i = display_row (stream_shown events ! i) i"
  using assms by (simp add: stream_rows_def Let_def)

lemma length_stream_rows: "length (stream_rows events) = min 14 (length events)"
  by (simp add: stream_rows_def stream_shown_def MAX_ROWS_def Let_def min.commute)

lemma digits_no_dash: "CHR ''-'' \<notin> set (nat_toString n)"
proof
  assume "CHR ''-'' \<in> set (nat_toString n)"
  then obtain d where "d < 10" "CHR ''-'' = digit_char d" using nat_toString_chars by blast
  then have "char_digit CHR ''-'' = Some d" using char_digit_digit_char [of d] by simp
  then show False by (simp add: char_digit_def)
qed

text \<open>The index behind the last dash of a key is the row's: React keys never collide.\<close>

lemma row_key_index:
  assumes "row_key a i = row_key b j"
  shows "i = j"
proof -
  have t: "takeWhile (\<lambda>c. c \<noteq> CHR ''-'') (rev (row_key e n)) = rev (nat_toString n)" for e n
  proof -
    have "\<forall>c\<in>set (rev (nat_toString n)). c \<noteq> CHR ''-''" using digits_no_dash by auto
    then show ?thesis by (simp add: row_key_def takeWhile_append2 del: set_rev)
  qed
  have "nat_toString i = nat_toString j" using t [of a i] t [of b j] assms by simp
  then show ?thesis by (metis option.inject parse_nat_toString)
qed

lemma stream_keys_distinct: "distinct (map de_key (stream_rows events))"
proof -
  have "inj_on (\<lambda>i. de_key (stream_rows events ! i)) {..<length (stream_rows events)}"
    by (rule inj_onI) (auto simp: stream_rows_def Let_def display_row_def dest: row_key_index)
  then show ?thesis by (simp add: distinct_conv_nth inj_on_def) blast
qed

lemma shown_ts: "map de_tsMs (stream_rows events) = map (\<lambda>e. ts_of e) (stream_shown events)"
  by (rule nth_equalityI) (simp_all add: stream_rows_def Let_def display_row_def)

text \<open>The list shows the newest events, newest first: the rows are an excerpt of the ring of at most fourteen,
  no event left out is newer than one shown, events of the same time keep the order of the ring, and the keys
  of the rows are distinct.\<close>

theorem stream_rows_newest:
  assumes "\<forall>e\<in>set events. ts_of e \<noteq> None"
  shows "\<exists>rest. mset (stream_shown events @ rest) = mset events
    \<and> (\<forall>s\<in>set (stream_shown events). \<forall>r\<in>set rest. num_le (ts_of r) (ts_of s))
    \<and> sorted_wrt (\<lambda>a b. num_le (de_tsMs b) (de_tsMs a)) (stream_rows events)
    \<and> (\<forall>t. filter (\<lambda>e. ts_of e = Some t) (stream_shown events @ rest) = filter (\<lambda>e. ts_of e = Some t) events)
    \<and> length (stream_rows events) = min 14 (length events)
    \<and> distinct (map de_key (stream_rows events))"
proof -
  define all where "all = sort_key age_key events"
  define rest where "rest = drop MAX_ROWS all"
  have all: "stream_shown events @ rest = all" by (simp add: stream_shown_def rest_def all_def)
  have le: "num_le (ts_of b) (ts_of a)" if "a \<in> set all" "b \<in> set all" "age_key a \<le> age_key b" for a b
    using that assms by (auto simp: all_def age_key_def split: option.splits)
  have "sorted (map age_key all)" by (simp add: all_def)
  then have "sorted_wrt (\<lambda>a b. age_key a \<le> age_key b) all" by (simp only: sorted_map)
  then have srt: "sorted_wrt (\<lambda>a b. num_le (ts_of b) (ts_of a)) (stream_shown events @ rest)"
    unfolding all by (rule sorted_wrt_mono_rel [rotated]) (auto intro: le)
  then have "sorted_wrt (\<lambda>a b. num_le b a) (map de_tsMs (stream_rows events))"
    unfolding shown_ts by (simp add: sorted_wrt_append sorted_wrt_map)
  moreover have "filter (\<lambda>e. ts_of e = Some t) all = filter (\<lambda>e. ts_of e = Some t) events" for t
  proof -
    have "filter (\<lambda>e. ts_of e = Some t) xs = filter (\<lambda>e. age_key e = - t) xs" if "set xs \<subseteq> set events" for xs
      using that assms by (intro filter_cong) (force simp: age_key_def split: option.splits)+
    then show ?thesis by (simp add: all_def sort_key_stable)
  qed
  moreover have "mset (stream_shown events @ rest) = mset events" unfolding all by (simp add: all_def)
  ultimately show ?thesis
    using srt stream_keys_distinct length_stream_rows
    by (intro exI [of _ rest]) (auto simp: sorted_wrt_append sorted_wrt_map all [symmetric])
qed

lemma stream_rows_empty: "stream_rows events = [] \<longleftrightarrow> events = []"
  using length_stream_rows [of events] by (cases events) (auto simp: min_def split: if_splits)

lemma letters:
  "char_of (97 :: nat) = CHR ''a''" "char_of (99 :: nat) = CHR ''c''" "char_of (102 :: nat) = CHR ''f''"
  "char_of (104 :: nat) = CHR ''h''" "char_of (105 :: nat) = CHR ''i''" "char_of (109 :: nat) = CHR ''m''"
  "char_of (111 :: nat) = CHR ''o''" "char_of (112 :: nat) = CHR ''p''" "char_of (114 :: nat) = CHR ''r''"
  "char_of (115 :: nat) = CHR ''s''" "char_of (116 :: nat) = CHR ''t''" "char_of (117 :: nat) = CHR ''u''"
  "char_of (118 :: nat) = CHR ''v''"
  by (simp_all add: char_of_eq_iff)

text \<open>The label of every event the vault and the oracle emit.\<close>

lemma vault_event_labels:
  "eventLabel ''OracleSVIUpdated'' = ''SVI''"
  "eventLabel ''HedgeMinted'' = ''mint''" "eventLabel ''HedgeRolled'' = ''roll''"
  "eventLabel ''Supplied'' = ''supply''"
  "eventLabel ''RedeemRequested'' = ''withdraw''" "eventLabel ''RedeemFulfilled'' = ''withdraw''"
  "eventLabel ''RedeemCanceled'' = ''withdraw''"
  "\<forall>n\<in>{''HedgeUnwound'', ''VaultCreated'', ''Paused'', ''AdminOverride'', ''AdminUnwind''}. eventLabel n = n"
  by (simp_all add: eventLabel_def toLowerCase_def lower_char_def letters str_includes_Nil str_includes_Cons
      starts_with_def Let_def)

text \<open>A parameter change by the administrator is listed, with the accent, as a mint: its name contains the word.\<close>

lemma tune_shown_as_mint: "de_label (display_row ev i) = ''mint'' \<and> de_accent (display_row ev i)"
  if "ev_name ev = ''AdminTune''"
  using that by (simp add: display_row_def isAccentEvent_def eventLabel_def toLowerCase_def lower_char_def letters
      str_includes_Nil str_includes_Cons starts_with_def Let_def)

section \<open>Facts about the highlight\<close>

lemma stream_reach_timer:
  "stream_reach st \<Longrightarrow> (sp_timer st \<longrightarrow> sp_flashKey st \<noteq> None) \<and> (sp_prevNewest st = None \<longrightarrow> sp_flashKey st = None)
    \<and> (sp_prevNewest st = None \<longrightarrow> sp_events st = [])"
proof (induction rule: stream_reach.induct)
  case (updated st events)
  then show ?case
    by (auto simp: stream_update_def Let_def newestTsMs_def stream_rows_empty
        split: option.splits list.splits)
qed (auto simp: stream_mount_def flash_timeout_def)

lemma hd_stream_row: "stream_rows events = r # rs \<Longrightarrow> newestTsMs events = Some (de_tsMs r)"
  by (simp add: newestTsMs_def)

text \<open>The highlight: the first events never flash; afterwards an update flashes its top row and arms the
  timer exactly when that row is strictly newer than the newest before; the pending timer clears the flash;
  at most one row is highlighted.\<close>

theorem stream_flash:
  assumes "stream_reach st"
  shows "sp_prevNewest st = None \<longrightarrow> sp_flashKey (stream_update events st) = None"
    and "sp_timer (stream_update events st) \<longleftrightarrow>
      (\<exists>prev newest. sp_prevNewest st = Some prev \<and> newestTsMs events = Some newest \<and> num_less prev newest)"
    and "sp_timer (stream_update events st) \<longrightarrow> row_highlighted (stream_update events st) (hd (stream_rows events))"
    and "sp_timer st \<longrightarrow> sp_flashKey st \<noteq> None \<and> sp_flashKey (flash_timeout st) = None"
    and "i < length (stream_rows (sp_events st)) \<and> j < length (stream_rows (sp_events st))
      \<and> row_highlighted st (stream_rows (sp_events st) ! i) \<and> row_highlighted st (stream_rows (sp_events st) ! j) \<longrightarrow> i = j"
proof -
  note inv = stream_reach_timer [OF assms]
  show "sp_prevNewest st = None \<longrightarrow> sp_flashKey (stream_update events st) = None"
    using inv by (auto simp: stream_update_def Let_def split: option.splits)
  show "sp_timer (stream_update events st) \<longleftrightarrow>
      (\<exists>prev newest. sp_prevNewest st = Some prev \<and> newestTsMs events = Some newest \<and> num_less prev newest)"
    by (auto simp: stream_update_def Let_def split: option.splits)
  show "sp_timer (stream_update events st) \<longrightarrow> row_highlighted (stream_update events st) (hd (stream_rows events))"
    by (auto simp: stream_update_def row_highlighted_def Let_def split: option.splits)
  show "sp_timer st \<longrightarrow> sp_flashKey st \<noteq> None \<and> sp_flashKey (flash_timeout st) = None"
    using inv by (simp add: flash_timeout_def)
  show "i < length (stream_rows (sp_events st)) \<and> j < length (stream_rows (sp_events st))
      \<and> row_highlighted st (stream_rows (sp_events st) ! i) \<and> row_highlighted st (stream_rows (sp_events st) ! j) \<longrightarrow> i = j"
    using nth_eq_iff_index_eq [OF stream_keys_distinct [of "sp_events st"], of i j]
    by (auto simp: row_highlighted_def)
qed

text \<open>An event that arrives while a row is highlighted and is not newer stops the timer without starting one:
  the highlight stays until the next newer event.\<close>

theorem highlight_stuck:
  assumes "sp_flashKey st = Some k" "sp_prevNewest st = Some prev" "newestTsMs events = Some newest"
    "\<not> num_less prev newest"
  shows "sp_flashKey (stream_update events st) = Some k \<and> \<not> sp_timer (stream_update events st)"
  using assms by (simp add: stream_update_def Let_def)

end
