(* ===== verification/SuiTx.thy ===== *)
theory SuiTx
  imports JsDouble
begin

text \<open>
  The programmable transactions that the oracle feed, the dashboard and the scripts build with the SDK's \<open>Transaction\<close>:
  the sender, the gas payment and the list of commands in the order they are added. The result of a
  command is an argument of later ones; a shared object is passed with its initial version. \<open>TypedCall\<close> is a
  call with type arguments.
\<close>

datatype tx_arg =
    ObjArg string
  | U64Arg js_number
  | BoolArg bool
  | StrArg string
  | IdArg string
  | AddrArg string
  | OptAddrArg "string option"
  | OptIdArg "string option"
  | GasArg
  | CoinRefArg string string string
  | SharedRefArg string int bool
  | ResultArg nat
  | NestedArg nat nat

datatype command =
    MoveCall string "tx_arg list"
  | TypedCall string "string list" "tx_arg list"
  | MergeCoins tx_arg "tx_arg list"
  | SplitCoins tx_arg "tx_arg list"
  | TransferObjects "tx_arg list" tx_arg
  | Publish "string list" "string list"

record Transaction =
  tx_sender :: "string option"
  tx_gasPayment :: "(string \<times> string \<times> string) list"
  tx_commands :: "command list"

definition new_Transaction :: Transaction where
  "new_Transaction = \<lparr>tx_sender = None, tx_gasPayment = [], tx_commands = []\<rparr>"

definition add_command :: "command \<Rightarrow> Transaction \<Rightarrow> Transaction" where
  "add_command c tx = tx\<lparr>tx_commands := tx_commands tx @ [c]\<rparr>"

text \<open>The value of \<open>tx.moveCall\<close>: the result of the command that it appends.\<close>

definition next_result :: "Transaction \<Rightarrow> tx_arg" where
  "next_result tx = ResultArg (length (tx_commands tx))"

end
