(* ===== verification/DashboardPtb.thy ===== *)
theory DashboardPtb
  imports SuiTx DeployInfo
begin

text \<open>
  \<open>dashboard/src/lib/ptbBuilders.ts\<close> and \<open>dashboard/src/lib/ptbDeploy.ts\<close>: the four transactions a wallet
  signs. They are compared with the parameter lists of the Move functions they call (\<open>supply.move\<close> and
  \<open>redeem.move\<close>). The encoder \<open>tx.pure.u64\<close> of the SDK is the parameter \<open>u64\<close>, which may refuse a number.
\<close>

section \<open>The deploy gate\<close>

text \<open>The dashboard's own copy of the gate, on the file that is baked into the bundle.\<close>

definition ptb_isDeployed :: "DeployJson \<Rightarrow> bool" where
  "ptb_isDeployed d \<longleftrightarrow> status d = ''deployed'' \<and> package_id d \<noteq> ''PENDING''"

text \<open>Relay and dashboard agree on when the vault is deployed.\<close>

lemma gates_agree: "ptb_isDeployed d = isDeployed d"
  by (simp add: ptb_isDeployed_def isDeployed_def)

section \<open>Builders\<close>

definition vault_ref :: "DeployJson \<Rightarrow> tx_arg" where
  "vault_ref d = SharedRefArg (vault_id d) (vault_initial_shared_version d) True"

definition CLOCK :: tx_arg where
  "CLOCK = ObjArg ''0x6''"

definition buildSupplyTx :: "(js_number \<Rightarrow> tx_arg res) \<Rightarrow> DeployJson \<Rightarrow> string \<Rightarrow> int \<Rightarrow> Transaction res" where
  "buildSupplyTx u64 deploy depositCoinId depositAmountMicro =
     bindE (u64 (Num (of_int depositAmountMicro))) (\<lambda>amount.
     let tx = add_command (SplitCoins (ObjArg depositCoinId) [amount]) new_Transaction;
         deposit = NestedArg 0 0
     in Inr (add_command
          (TypedCall (package_id deploy @ ''::supply::supply'') [dusdc_type_tag deploy]
             [vault_ref deploy,
              ObjArg (predict_top_level_id deploy),
              SharedRefArg (predict_manager_id deploy) (predict_manager_initial_shared_version deploy) True,
              ObjArg (case oracle_svi_id deploy of None \<Rightarrow> [] | Some i \<Rightarrow> i),
              deposit,
              CLOCK]) tx))"

definition buildRedeemRequestTx :: "DeployJson \<Rightarrow> string \<Rightarrow> Transaction" where
  "buildRedeemRequestTx deploy shareCoinId =
     add_command (TypedCall (package_id deploy @ ''::redeem::redeem_request'') [dusdc_type_tag deploy]
       [vault_ref deploy, ObjArg shareCoinId, CLOCK]) new_Transaction"

definition buildRedeemFulfillTx :: "DeployJson \<Rightarrow> Transaction" where
  "buildRedeemFulfillTx deploy =
     add_command (TypedCall (package_id deploy @ ''::redeem::redeem_fulfill'') [dusdc_type_tag deploy]
       [vault_ref deploy, CLOCK]) new_Transaction"

definition buildRedeemCancelTx :: "DeployJson \<Rightarrow> Transaction" where
  "buildRedeemCancelTx deploy =
     add_command (TypedCall (package_id deploy @ ''::redeem::redeem_cancel'') [dusdc_type_tag deploy]
       [vault_ref deploy]) new_Transaction"

section \<open>The Move side\<close>

text \<open>The parameters of the four entry points, without the implicit transaction context.\<close>

datatype move_param = VaultMut | PredictMut | PredictManagerMut | OracleRef | QuoteCoin | ShareCoin | ClockRef

datatype vault_call = Supply | RedeemRequest | RedeemFulfill | RedeemCancel

fun move_name :: "vault_call \<Rightarrow> string" where
  "move_name Supply = ''::supply::supply''"
| "move_name RedeemRequest = ''::redeem::redeem_request''"
| "move_name RedeemFulfill = ''::redeem::redeem_fulfill''"
| "move_name RedeemCancel = ''::redeem::redeem_cancel''"

definition supply_params :: "move_param list" where
  "supply_params = [VaultMut, PredictMut, PredictManagerMut, OracleRef, QuoteCoin, ClockRef]"

definition redeem_request_params :: "move_param list" where
  "redeem_request_params = [VaultMut, ShareCoin, ClockRef]"

definition redeem_fulfill_params :: "move_param list" where
  "redeem_fulfill_params = [VaultMut, ClockRef]"

definition redeem_cancel_params :: "move_param list" where
  "redeem_cancel_params = [VaultMut]"

declare supply_params_def [simp] redeem_request_params_def [simp] redeem_fulfill_params_def [simp] redeem_cancel_params_def [simp]

fun move_params :: "vault_call \<Rightarrow> move_param list" where
  "move_params Supply = supply_params"
| "move_params RedeemRequest = redeem_request_params"
| "move_params RedeemFulfill = redeem_fulfill_params"
| "move_params RedeemCancel = redeem_cancel_params"

text \<open>Which argument is right for a parameter: \<open>quote\<close> and \<open>share\<close> are the coins the caller spends.\<close>

fun arg_of :: "DeployJson \<Rightarrow> tx_arg \<Rightarrow> tx_arg \<Rightarrow> move_param \<Rightarrow> tx_arg" where
  "arg_of d quote share VaultMut = SharedRefArg (vault_id d) (vault_initial_shared_version d) True"
| "arg_of d quote share PredictMut = ObjArg (predict_top_level_id d)"
| "arg_of d quote share PredictManagerMut =
     SharedRefArg (predict_manager_id d) (predict_manager_initial_shared_version d) True"
| "arg_of d quote share OracleRef = ObjArg (case oracle_svi_id d of None \<Rightarrow> [] | Some i \<Rightarrow> i)"
| "arg_of d quote share QuoteCoin = quote"
| "arg_of d quote share ShareCoin = share"
| "arg_of d quote share ClockRef = ObjArg ''0x6''"

definition vault_command :: "DeployJson \<Rightarrow> tx_arg \<Rightarrow> tx_arg \<Rightarrow> vault_call \<Rightarrow> command" where
  "vault_command d quote share c =
     TypedCall (package_id d @ move_name c) [dusdc_type_tag d] (map (arg_of d quote share) (move_params c))"

lemma buildSupplyTx_commands:
  "u64 (Num (of_int a)) = Inr x \<Longrightarrow> buildSupplyTx u64 d coin a = Inr
     \<lparr>tx_sender = None, tx_gasPayment = [],
      tx_commands = [SplitCoins (ObjArg coin) [x], vault_command d (NestedArg 0 0) share Supply]\<rparr>"
  by (simp add: buildSupplyTx_def add_command_def new_Transaction_def vault_command_def vault_ref_def CLOCK_def)

text \<open>C25. The signed transactions call the vault with the parameters its Move functions declare, in their
  order: a supply splits the amount off the chosen coin and spends exactly the split result, a request
  spends the share coin, fulfil takes the clock and cancel does not; an amount that the encoder refuses builds
  nothing.\<close>

theorem builders_match_move:
  "(\<forall>x. u64 (Num (of_int amount)) = Inr x \<longrightarrow>
      (\<exists>tx. buildSupplyTx u64 d coin amount = Inr tx
        \<and> tx_commands tx = [SplitCoins (ObjArg coin) [x], vault_command d (NestedArg 0 0) (ObjArg shares) Supply]))
   \<and> (\<forall>e. u64 (Num (of_int amount)) = Inl e \<longrightarrow> buildSupplyTx u64 d coin amount = Inl e)
   \<and> tx_commands (buildRedeemRequestTx d shares) = [vault_command d (ObjArg coin) (ObjArg shares) RedeemRequest]
   \<and> tx_commands (buildRedeemFulfillTx d) = [vault_command d (ObjArg coin) (ObjArg shares) RedeemFulfill]
   \<and> tx_commands (buildRedeemCancelTx d) = [vault_command d (ObjArg coin) (ObjArg shares) RedeemCancel]"
proof -
  have "\<exists>tx. buildSupplyTx u64 d coin amount = Inr tx
      \<and> tx_commands tx = [SplitCoins (ObjArg coin) [x], vault_command d (NestedArg 0 0) (ObjArg shares) Supply]"
    if "u64 (Num (of_int amount)) = Inr x" for x
    using buildSupplyTx_commands [of u64 amount x d coin "ObjArg shares", OF that] by simp
  moreover have "buildSupplyTx u64 d coin amount = Inl e" if "u64 (Num (of_int amount)) = Inl e" for e
    using that by (simp add: buildSupplyTx_def)
  ultimately show ?thesis
    by (simp add: buildRedeemRequestTx_def buildRedeemFulfillTx_def buildRedeemCancelTx_def
        add_command_def new_Transaction_def vault_command_def vault_ref_def CLOCK_def)
qed

definition ptb_demo_deploy :: DeployJson where
  "ptb_demo_deploy = \<lparr>network = ''testnet'', status = ''deployed'', deployed_at_iso = [], deploy_tx_digest = [],
     deployer = [], package_id = ''0xp'', vault_id = ''0xv'', vault_initial_shared_version = 7,
     admin_cap_id = [], predict_manager_id = ''0xm'', predict_manager_initial_shared_version = 9,
     predict_package_id = [], predict_registry_id = [], predict_top_level_id = ''0xt'',
     dusdc_type_tag = ''0xd::dusdc::DUSDC'', oracle_svi_id = Some ''0xo''\<rparr>"

definition ptb_demo_u64 :: "js_number \<Rightarrow> tx_arg res" where
  "ptb_demo_u64 x = (case x of Num r \<Rightarrow> if 0 \<le> r \<and> r < 2 ^ 64 then Inr (U64Arg x) else Inl RangeError | _ \<Rightarrow> Inl RangeError)"

theorem builders_match_move_witness:
  "(\<exists>tx. buildSupplyTx ptb_demo_u64 ptb_demo_deploy ''0xc'' 5000000 = Inr tx
      \<and> tx_commands tx = [SplitCoins (ObjArg ''0xc'') [U64Arg (Num 5000000)],
          vault_command ptb_demo_deploy (NestedArg 0 0) (ObjArg ''0xs'') Supply])
   \<and> tx_commands (buildRedeemCancelTx ptb_demo_deploy) =
       [vault_command ptb_demo_deploy (ObjArg ''0xc'') (ObjArg ''0xs'') RedeemCancel]"
  using builders_match_move [of ptb_demo_u64 5000000 ptb_demo_deploy "''0xc''" "''0xs''"] by (simp add: ptb_demo_u64_def)

end
