(* ===== verification/JsDate.thy ===== *)
theory JsDate
  imports OracleExpiry
begin

text \<open>
  The text form of a \<open>Date\<close>: the civil date of a day number by the arithmetic of eras, checked against the
  definition of the language (\<open>DayFromYear\<close> and the lengths of the months), and \<open>toISOString\<close>.
\<close>

section \<open>Civil dates\<close>

text \<open>Eras of 400 years, in years that start in March.\<close>

definition civil_of_days :: "int \<Rightarrow> int \<times> int \<times> int" where
  "civil_of_days d =
     (let z = d + 719468; era = z div 146097; doe = z mod 146097;
          yoe = (doe - doe div 1460 + doe div 36524 - doe div 146096) div 365;
          doy = doe - (365 * yoe + yoe div 4 - yoe div 100);
          mp = (5 * doy + 2) div 153; day = doy - (153 * mp + 2) div 5 + 1;
          month = (if mp < 10 then mp + 3 else mp - 9); year = yoe + era * 400 + (if month \<le> 2 then 1 else 0)
      in (year, month, day))"

text \<open>The day numbers of the language.\<close>

definition DayFromYear :: "int \<Rightarrow> int" where
  "DayFromYear y = 365 * (y - 1970) + (y - 1969) div 4 - (y - 1901) div 100 + (y - 1601) div 400"

definition leap :: "int \<Rightarrow> bool" where
  "leap y \<longleftrightarrow> y mod 4 = 0 \<and> (y mod 100 \<noteq> 0 \<or> y mod 400 = 0)"

definition month_lengths :: "int \<Rightarrow> int list" where
  "month_lengths y = [31, if leap y then 29 else 28, 31, 30, 31, 30, 31, 31, 30, 31, 30, 31]"

definition day_number :: "int \<Rightarrow> int \<Rightarrow> int \<Rightarrow> int" where
  "day_number y m d = DayFromYear y + sum_list (take (nat (m - 1)) (month_lengths y)) + (d - 1)"

section \<open>Text\<close>

definition pad :: "nat \<Rightarrow> int \<Rightarrow> string" where
  "pad w n = padStart w (int_toString n)"

text \<open>Years outside 0 to 9999 are written with a sign and six digits.\<close>

definition iso_year :: "int \<Rightarrow> string" where
  "iso_year y = (if 0 \<le> y \<and> y \<le> 9999 then pad 4 y else (if y < 0 then ''-'' else ''+'') @ pad 6 \<bar>y\<bar>)"

definition toISOString :: "int \<Rightarrow> string res" where
  "toISOString t =
     (if \<bar>t\<bar> > 8640000000000000 then Inl RangeError
      else let (y, m, d) = civil_of_days (t div MS_DAY)
        in Inr (iso_year y @ ''-'' @ pad 2 m @ ''-'' @ pad 2 d @ ''T'' @ pad 2 (getUTCHours t) @ '':'' @ pad 2 (getUTCMinutes t)
             @ '':'' @ pad 2 (getUTCSeconds t) @ ''.'' @ pad 3 (getUTCMilliseconds t) @ ''Z''))"

text \<open>The full form with milliseconds and the zone \<open>Z\<close>, as \<open>toISOString\<close> writes it for the years 0 to 9999; a field out of
  bounds makes it invalid. The other forms that \<open>Date.parse\<close> accepts are the argument \<open>other\<close>.\<close>

definition field :: "nat \<Rightarrow> nat \<Rightarrow> string \<Rightarrow> int option" where
  "field i w s = map_option int (parse_digits 10 0 (take w (drop i s)))"

definition iso_shape :: "string \<Rightarrow> bool" where
  "iso_shape s \<longleftrightarrow> length s = 24 \<and> map ((!) s) [4, 7, 10, 13, 16, 19, 23] = ''--T::.Z''"

definition iso_time :: "int \<Rightarrow> int \<Rightarrow> int \<Rightarrow> int \<Rightarrow> int \<Rightarrow> int \<Rightarrow> int \<Rightarrow> int option" where
  "iso_time y mo d h mi sec ms =
     (if 1 \<le> mo \<and> mo \<le> 12 \<and> 1 \<le> d \<and> d \<le> 31 \<and> (h < 24 \<and> mi < 60 \<and> sec < 60 \<or> h = 24 \<and> mi = 0 \<and> sec = 0 \<and> ms = 0)
      then Some (day_number y mo d * MS_DAY + h * MS_HOUR + mi * MS_MIN + sec * 1000 + ms) else None)"

definition Date_parse :: "(string \<Rightarrow> int option) \<Rightarrow> string \<Rightarrow> int option" where
  "Date_parse other s =
     (if iso_shape s
      then (case (field 0 4 s, field 5 2 s, field 8 2 s, field 11 2 s, field 14 2 s, field 17 2 s, field 20 3 s) of
              (Some y, Some mo, Some d, Some h, Some mi, Some sec, Some ms) \<Rightarrow> iso_time y mo d h mi sec ms
            | _ \<Rightarrow> None)
      else other s)"

section \<open>Correctness\<close>

lemma div_unique_int: "(b::int) * q \<le> a \<Longrightarrow> a < b * q + b \<Longrightarrow> a div b = q"
  by (rule int_div_pos_eq [of a b q "a - b * q"]) auto

lemma year_of_era:
  fixes doe :: int
  assumes "0 \<le> doe" "doe < 146097" and y: "y = (doe - doe div 1460 + doe div 36524 - doe div 146096) div 365"
  shows "0 \<le> doe - (365 * y + y div 4 - y div 100)" "doe - (365 * y + y div 4 - y div 100) \<le> 365" "0 \<le> y" "y < 400"
proof -
  define c where "c = doe div 146096"
  define b where "b = doe div 36524 - c"
  define r where "r = doe - 36524 * b"
  define q where "q = r div 1461"
  define t where "t = r mod 1461"
  have c: "0 \<le> c" "c \<le> 1" "146096 * c \<le> doe" "doe < 146096 * c + 146096"
    using assms by (auto simp: c_def intro: order.trans [OF zdiv_mono1]) 
  have bc: "36524 * (b + c) \<le> doe" "doe < 36524 * (b + c) + 36524" by (auto simp: b_def)
  have c01: "c = 0 \<or> c = 1" using c by linarith
  then have b: "0 \<le> b" "b \<le> 3" using bc c assms(2) by auto
  have cb: "c = 0 \<or> (c = 1 \<and> b = 3)" using c01 b bc c by auto
  then have r: "0 \<le> r" "r \<le> 36524" using bc c assms(2) by (auto simp: r_def)
  have qt: "r = 1461 * q + t" "0 \<le> t" "t \<le> 1460" by (auto simp: q_def t_def)
  have q: "0 \<le> q" "q \<le> 24" using qt r by linarith+
  define e :: int where "e = (if 24 * b + q + t \<ge> 1460 then 1 else 0)"
  have d: "doe div 1460 = 25 * b + q + e"
    using b q qt by (intro div_unique_int) (auto simp: e_def r_def algebra_simps)
  define j where "j = (t - e) div 365"
  have j: "0 \<le> j" "j \<le> 3" "365 * j \<le> t" "t \<le> 365 * j + 365"
    using b q qt by (auto simp: j_def e_def)
  have y': "y = 100 * b + 4 * q + j"
  proof -
    have "doe - doe div 1460 + doe div 36524 - doe div 146096 = 365 * (100 * b + 4 * q) + (t - e)"
      using qt by (simp add: d r_def b_def c_def algebra_simps)
    then show ?thesis by (simp add: y j_def algebra_simps)
  qed
  have "y div 4 = 25 * b + q" "y div 100 = b" using j q by (auto simp: y' intro!: div_unique_int)
  then show "0 \<le> doe - (365 * y + y div 4 - y div 100)" "doe - (365 * y + y div 4 - y div 100) \<le> 365" "0 \<le> y" "y < 400"
    using j q b qt by (auto simp: y' r_def)
qed

lemma month_of_year:
  fixes doy :: int
  assumes "0 \<le> doy" "doy \<le> 365" "mp = (5 * doy + 2) div 153"
  shows "0 \<le> mp" "mp \<le> 11" "0 \<le> doy - (153 * mp + 2) div 5" "doy - (153 * mp + 2) div 5 \<le> 30"
proof -
  show mp: "0 \<le> mp" "mp \<le> 11" using assms by auto
  have "153 * mp \<le> 5 * doy + 2" "5 * doy + 2 < 153 * mp + 153" using assms by auto
  then show "0 \<le> doy - (153 * mp + 2) div 5" "doy - (153 * mp + 2) div 5 \<le> 30" by auto
qed

lemma before_march:
  assumes "y = yoe + 400 * era" "0 \<le> yoe" "yoe < 400"
  shows "DayFromYear (y + 1) = 365 * yoe + yoe div 4 - yoe div 100 + 146097 * era - 719468 + 306"
proof -
  have "(y - 1968) div 4 = yoe div 4 + 100 * era - 492" "(y - 1900) div 100 = yoe div 100 + 4 * era - 19"
    "(y - 1600) div 400 = era - 4" using assms by auto
  then show ?thesis using assms(1) by (simp add: DayFromYear_def algebra_simps)
qed

lemma int_div_succ:
  fixes a k :: int
  assumes "0 < k"
  shows "(a + 1) div k = a div k + (if (a + 1) mod k = 0 then 1 else 0)"
proof (cases "a mod k + 1 = k")
  case True
  have "a + 1 = k * (a div k) + (a mod k + 1)" by simp
  with True have e: "a + 1 = k * (a div k + 1)" by (simp only: distrib_left mult_1_right)
  have "(a + 1) div k = a div k + 1" "(a + 1) mod k = 0"
    by (subst e, use assms in simp)+
  then show ?thesis by simp
next
  case False
  with assms pos_mod_bound [OF assms, of a] pos_mod_sign [OF assms, of a] have "0 \<le> a mod k + 1" "a mod k + 1 < k" by linarith+
  moreover have "a + 1 = k * (a div k) + (a mod k + 1)" by simp
  ultimately have "(a + 1) div k = a div k" "(a + 1) mod k = a mod k + 1"
    by (blast intro: int_div_pos_eq int_mod_pos_eq)+
  then show ?thesis using pos_mod_sign [OF assms, of a] by simp
qed

lemma leap_count:
  "(if y mod 4 = 0 then 1 else 0) - (if y mod 100 = 0 then 1 else 0) + (if y mod 400 = 0 then 1 else 0)
     = (if leap y then 1 else (0::int))"
proof -
  have "100 dvd y" if "400 dvd y" using that by (rule dvd_trans [rotated]) simp
  moreover have "4 dvd y" if "100 dvd y" using that by (rule dvd_trans [rotated]) simp
  moreover have "(if p then 1 else 0) - (if q then 1 else 0) + (if r then 1 else 0) = (if p \<and> (\<not> q \<or> r) then 1 else (0::int))"
    if "r \<Longrightarrow> q" "q \<Longrightarrow> p" for p q r using that by (cases p; cases q; cases r) simp_all
  ultimately show ?thesis unfolding leap_def mod_eq_0_iff_dvd by blast
qed

lemma DayFromYear_next: "DayFromYear (y + 1) = DayFromYear y + 365 + (if leap y then 1 else 0)"
proof -
  have m: "(y - 1968) mod 4 = y mod 4" "(y - 1900) mod 100 = y mod 100" "(y - 1600) mod 400 = y mod 400"
    by (simp_all add: mod_eq_dvd_iff)
  have a: "(y - 1968) div 4 = (y - 1969) div 4 + (if y mod 4 = 0 then 1 else 0)"
    using int_div_succ [of 4 "y - 1969"] unfolding m(1) [symmetric] by simp
  have b: "(y - 1900) div 100 = (y - 1901) div 100 + (if y mod 100 = 0 then 1 else 0)"
    using int_div_succ [of 100 "y - 1901"] unfolding m(2) [symmetric] by simp
  have c: "(y - 1600) div 400 = (y - 1601) div 400 + (if y mod 400 = 0 then 1 else 0)"
    using int_div_succ [of 400 "y - 1601"] unfolding m(3) [symmetric] by simp
  have r: "k + 365 + (A + a) - (B + b) + (C + c) = k + A - B + C + 365 + l" if "a - b + c = l" for k A B C a b c l :: int
    using that by simp
  have "DayFromYear (y + 1) = 365 * (y - 1970) + 365 + (y - 1968) div 4 - (y - 1900) div 100 + (y - 1600) div 400"
    by (simp add: DayFromYear_def algebra_simps)
  also have "\<dots> = DayFromYear y + 365 + (if leap y then 1 else 0)"
    unfolding a b c DayFromYear_def by (rule r [OF leap_count])
  finally show ?thesis .
qed

lemma month_lengths_sum:
  assumes "0 \<le> mp" "mp \<le> 11"
  shows "mp < 10 \<Longrightarrow> sum_list (take (nat (mp + 2)) (month_lengths y)) = 59 + (if leap y then 1 else 0) + (153 * mp + 2) div 5"
    and "mp \<ge> 10 \<Longrightarrow> sum_list (take (nat (mp - 10)) (month_lengths y)) = (153 * mp + 2) div 5 - 306"
proof -
  have "mp \<in> {0..11}" using assms by simp
  also have "{0..11} = {0,1,2,3,4,5,6,7,8,9,10,11::int}" by (simp add: simp_from_to)
  finally show "mp < 10 \<Longrightarrow> sum_list (take (nat (mp + 2)) (month_lengths y)) = 59 + (if leap y then 1 else 0) + (153 * mp + 2) div 5"
    "mp \<ge> 10 \<Longrightarrow> sum_list (take (nat (mp - 10)) (month_lengths y)) = (153 * mp + 2) div 5 - 306"
    by (auto simp: month_lengths_def)
qed

text \<open>The day of the computed date is the day it was computed from.\<close>

theorem civil_correct:
  assumes "civil_of_days n = (y, m, d)"
  shows "day_number y m d = n" "1 \<le> m" "m \<le> 12" "1 \<le> d" "d \<le> 31"
proof -
  define era where "era = (n + 719468) div 146097"
  define doe where "doe = (n + 719468) mod 146097"
  define yoe where "yoe = (doe - doe div 1460 + doe div 36524 - doe div 146096) div 365"
  define doy where "doy = doe - (365 * yoe + yoe div 4 - yoe div 100)"
  define mp where "mp = (5 * doy + 2) div 153"
  have n: "n + 719468 = 146097 * era + doe" by (simp add: era_def doe_def)
  have doe: "0 \<le> doe" "doe < 146097" by (simp_all add: doe_def)
  note yd = year_of_era [OF doe yoe_def, folded doy_def]
  note mb = month_of_year [OF yd(1,2) mp_def]
  have c: "civil_of_days n = (yoe + era * 400 + (if (if mp < 10 then mp + 3 else mp - 9) \<le> 2 then 1 else 0),
      if mp < 10 then mp + 3 else mp - 9, doy - (153 * mp + 2) div 5 + 1)"
    by (simp only: civil_of_days_def Let_def era_def doe_def yoe_def doy_def mp_def)
  show "1 \<le> m" "m \<le> 12" "1 \<le> d" "d \<le> 31" using assms mb unfolding c by (auto split: if_splits)
  note B = before_march [OF refl yd(3,4), of era]
  show "day_number y m d = n"
  proof (cases "mp < 10")
    case True
    then have ymd: "y = yoe + era * 400" "m = mp + 3" "d = doy - (153 * mp + 2) div 5 + 1"
      using assms mb(1) unfolding c by auto
    have "day_number y m d = DayFromYear y + 59 + (if leap y then 1 else 0) + doy"
      using month_lengths_sum(1) [OF mb(1,2) True, of y] by (simp add: day_number_def ymd(2,3) add.commute)
    moreover have "DayFromYear y = DayFromYear (y + 1) - 365 - (if leap y then 1 else 0)" by (simp add: DayFromYear_next)
    ultimately show ?thesis using B n by (simp add: ymd(1) doy_def algebra_simps)
  next
    case False
    then have ymd: "y = yoe + era * 400 + 1" "m = mp - 9" "d = doy - (153 * mp + 2) div 5 + 1"
      using assms mb(2) unfolding c by auto
    have "day_number y m d = DayFromYear y + doy - 306"
      using month_lengths_sum(2) [OF mb(1,2), of y] False by (simp add: day_number_def ymd(2,3))
    then show ?thesis using B n by (simp add: ymd(1) doy_def algebra_simps)
  qed
qed

section \<open>Round trip\<close>

lemma parse_zeros: "parse_digits 10 0 (replicate k (CHR ''0'') @ s) = parse_digits 10 0 s"
  by (induction k) (simp_all add: char_digit_def)

lemma pad_field:
  assumes "0 \<le> n" "n < 10 ^ w" "0 < w"
  shows "length (pad w n) = w" "parse_digits 10 0 (pad w n) = Some (nat n)"
proof -
  have "nat n < 10 ^ w" using assms by (simp add: nat_less_iff)
  with assms nat_toString_length [of w "nat n"]
  show "length (pad w n) = w" "parse_digits 10 0 (pad w n) = Some (nat n)"
    by (simp_all add: pad_def int_toString_def padStart_def parse_zeros parse_nat_toString)
qed

lemma indicator_nonneg: "0 \<le> (if c then 1 else 0 :: int)"
  by simp

lemma year_range:
  assumes "civil_of_days n = (y, m, d)" "0 \<le> n" "n < 2932897"
  shows "0 \<le> y \<and> y \<le> 9999"
proof
  have "0 \<le> (n + 719468) div 146097" using assms(2) by simp
  moreover have "0 \<le> (doe - doe div 1460 + doe div 36524 - doe div 146096) div 365" if "doe = (n + 719468) mod 146097" for doe
    using year_of_era(3) [of doe, OF _ _ refl] that by simp
  moreover have "\<exists>a k. y = a + (n + 719468) div 146097 * 400 + k \<and> 0 \<le> k
      \<and> a = (let doe = (n + 719468) mod 146097 in (doe - doe div 1460 + doe div 36524 - doe div 146096) div 365)"
    unfolding arg_cong [OF assms(1), of fst, unfolded fst_conv, symmetric] civil_of_days_def Let_def fst_conv
    by (intro exI conjI, rule refl, rule indicator_nonneg, rule refl)
  ultimately show "0 \<le> y" unfolding Let_def by (elim exE conjE) (simp only: add_nonneg_nonneg mult_nonneg_nonneg zero_le_numeral)
  have mono: "DayFromYear a \<le> DayFromYear (a + int k)" for a k
  proof (induction k)
    case (Suc k)
    then show ?case using DayFromYear_next [of "a + int k"] by (simp add: algebra_simps split: if_splits)
  qed simp
  show "y \<le> 9999"
  proof (rule ccontr)
    assume "\<not> y \<le> 9999"
    then have "DayFromYear 10000 \<le> DayFromYear y" using mono [of 10000 "nat (y - 10000)"] by simp
    moreover have "0 \<le> sum_list (take (nat (m - 1)) (month_lengths y))"
      by (rule sum_list_nonneg) (auto simp: month_lengths_def dest!: in_set_takeD split: if_splits)
    ultimately have "DayFromYear 10000 \<le> n" using civil_correct [OF assms(1)] by (simp add: day_number_def)
    then show False using assms(3) by (simp add: DayFromYear_def)
  qed
qed

lemma time_fields:
  "day * MS_DAY + getUTCHours t * MS_HOUR + getUTCMinutes t * MS_MIN + getUTCSeconds t * 1000 + getUTCMilliseconds t = t"
  if "day = t div MS_DAY"
proof -
  have sum: "d * 86400000 + hh * 3600000 + mi * 60000 + sec * 1000 + ms = x"
    if "x = 1000 * s + ms" "s = 60 * m + sec" "m = 60 * h + mi" "h = 24 * d + hh" for x s m h d hh mi sec ms :: int
    using that by simp
  have b: "x = n * (x div n) + x mod n" for x n :: int by simp
  have ms: "MS_DAY = 86400000" "MS_HOUR = 3600000" "MS_MIN = 60000" by (simp_all add: ms_defs)
  have d: "t div 60000 = t div 1000 div 60" "t div 3600000 = t div 1000 div 60 div 60" "t div 86400000 = t div 1000 div 60 div 60 div 24"
    by (simp_all add: zdiv_zmult2_eq [symmetric])
  show ?thesis
    unfolding that ms getUTCHours_def getUTCMinutes_def getUTCSeconds_def getUTCMilliseconds_def d by (rule sum [OF b b b b])
qed

text \<open>What \<open>toISOString\<close> writes for the years up to 9999 is read back as the same time.\<close>

theorem iso_roundtrip:
  assumes "0 \<le> t" "t < 2932897 * MS_DAY" "toISOString t = Inr s"
  shows "Date_parse other s = Some t"
proof -
  obtain y m d where c: "civil_of_days (t div MS_DAY) = (y, m, d)" by (metis prod_cases3)
  have n: "0 \<le> t div MS_DAY" "t div MS_DAY < 2932897" using assms(1,2) by (simp_all add: ms_defs)
  have y: "0 \<le> y" "y < 10 ^ 4" using year_range [OF c n] by auto
  note cc = civil_correct [OF c]
  have md: "0 \<le> m" "m < 10 ^ 2" "0 \<le> d" "d < 10 ^ 2" using cc by auto
  have tf: "0 \<le> getUTCHours t" "getUTCHours t < 24" "0 \<le> getUTCMinutes t" "getUTCMinutes t < 60"
    "0 \<le> getUTCSeconds t" "getUTCSeconds t < 60" "0 \<le> getUTCMilliseconds t" "getUTCMilliseconds t < 1000"
    by (simp_all add: getUTCHours_def getUTCMinutes_def getUTCSeconds_def getUTCMilliseconds_def)
  have tf': "getUTCHours t < 10 ^ 2" "getUTCMinutes t < 10 ^ 2" "getUTCSeconds t < 10 ^ 2" "getUTCMilliseconds t < 10 ^ 3" using tf by auto
  note P = pad_field [OF y zero_less_numeral] pad_field [OF md(1,2) zero_less_numeral] pad_field [OF md(3,4) zero_less_numeral]
    pad_field [OF tf(1) tf'(1) zero_less_numeral] pad_field [OF tf(3) tf'(2) zero_less_numeral]
    pad_field [OF tf(5) tf'(3) zero_less_numeral] pad_field [OF tf(7) tf'(4) zero_less_numeral]
  have s: "s = pad 4 y @ ''-'' @ pad 2 m @ ''-'' @ pad 2 d @ ''T'' @ pad 2 (getUTCHours t) @ '':'' @ pad 2 (getUTCMinutes t)
      @ '':'' @ pad 2 (getUTCSeconds t) @ ''.'' @ pad 3 (getUTCMilliseconds t) @ ''Z''"
    using assms(3) y by (simp add: toISOString_def c iso_year_def split: if_splits)
  have "iso_shape s" by (simp add: s iso_shape_def P nth_append)
  moreover have "field 0 4 s = Some y" "field 5 2 s = Some m" "field 8 2 s = Some d" "field 11 2 s = Some (getUTCHours t)"
    "field 14 2 s = Some (getUTCMinutes t)" "field 17 2 s = Some (getUTCSeconds t)" "field 20 3 s = Some (getUTCMilliseconds t)"
    using y md tf by (simp_all add: s field_def P)
  moreover have "iso_time y m d (getUTCHours t) (getUTCMinutes t) (getUTCSeconds t) (getUTCMilliseconds t) = Some t"
    using cc tf time_fields [OF refl, of t] by (simp add: iso_time_def)
  ultimately show ?thesis by (simp add: Date_parse_def)
qed

end
