(* ===== verification/DashboardPanels.thy ===== *)
theory DashboardPanels
  imports ArbChecker DashboardBook DashboardFormat DashboardPtb JsDate
begin

text \<open>
  What the panels of the dashboard compute before they render: the grid of \<open>SurfacePanel.tsx\<close> and its chips, the
  verdict of \<open>ArbCheckerPanel.tsx\<close>, the figures of \<open>VaultPanel.tsx\<close>, \<open>ExposurePanel.tsx\<close> and \<open>BucketGauge.tsx\<close>, and the
  four states of \<open>PositionViewer.tsx\<close>. The clock is an argument. Number formats of the locale, colours and
  markup are left out.
\<close>

section \<open>The surface\<close>

definition K_GRID :: nat where "K_GRID = 50"
definition K_MIN :: js_number where "K_MIN = js_int (- 2)"
definition K_MAX :: js_number where "K_MAX = js_int 2"
definition FLOAT_SCALING_NUM :: js_number where "FLOAT_SCALING_NUM = js_int 1000000000"

definition DEFAULT_TENORS_YEARS :: "js_number list" where
  "DEFAULT_TENORS_YEARS = [js_div (js_int 7) (js_int 365), js_div (js_int 14) (js_int 365), js_div (js_int 30) (js_int 365)]"

definition k_at :: "nat \<Rightarrow> js_number" where
  "k_at i = js_add K_MIN (js_div (js_mul (js_sub K_MAX K_MIN) (js_int (int i))) (js_int (int K_GRID - 1)))"

fun Math_trunc :: "js_number \<Rightarrow> js_number" where
  "Math_trunc (Num x) = Num (of_int (if x < 0 then \<lceil>x\<rceil> else \<lfloor>x\<rfloor>))"
| "Math_trunc (Infinity s) = Infinity s"
| "Math_trunc NaN = NaN"

text \<open>The strike as a \<open>bigint\<close>; this conversion is outside the \<open>try\<close>.\<close>

definition k_big :: "nat \<Rightarrow> int res" where
  "k_big i = BigInt_of_number (Math_trunc (js_mul (k_at i) FLOAT_SCALING_NUM))"

definition surface_cell :: "SVIParams \<Rightarrow> nat \<Rightarrow> js_number res" where
  "surface_cell svi i =
     bindE (k_big i) (\<lambda>kBig.
       case totalVariance svi kBig of
         Inr w \<Rightarrow> Inr (js_div (Number_of_int w) FLOAT_SCALING_NUM)
       | Inl _ \<Rightarrow> Inr NaN)"

fun map_res :: "('a \<Rightarrow> 'b res) \<Rightarrow> 'a list \<Rightarrow> 'b list res" where
  "map_res f [] = Inr []"
| "map_res f (x # xs) = bindE (f x) (\<lambda>y. bindE (map_res f xs) (\<lambda>ys. Inr (y # ys)))"

record Grid =
  grid_x :: "js_number list"
  grid_y :: "js_number list"
  grid_z :: "js_number list list"

definition surface_grid :: "SurfaceView option \<Rightarrow> js_number list \<Rightarrow> Grid option res" where
  "surface_grid surface tenors =
     (case surface of
        None \<Rightarrow> Inr None
      | Some s \<Rightarrow>
          bindE (map_res (\<lambda>_. map_res (surface_cell (sv_svi s)) [0..<K_GRID]) tenors) (\<lambda>z.
          Inr (Some \<lparr>grid_x = map k_at [0..<K_GRID], grid_y = tenors, grid_z = z\<rparr>)))"

text \<open>The chips of the surface and the age in seconds.\<close>

definition surface_arb :: "SurfaceView option \<Rightarrow> ArbResult option res" where
  "surface_arb surface = (case surface of None \<Rightarrow> Inr None | Some s \<Rightarrow> bindE (checkArb (sv_svi s)) (\<lambda>a. Inr (Some a)))"

definition butterflyOk :: "ArbResult option \<Rightarrow> bool" where
  "butterflyOk arb = (case arb of None \<Rightarrow> False | Some a \<Rightarrow> paramsValid a \<and> minGk a \<ge> 0)"

definition calendarOk :: "ArbResult option \<Rightarrow> bool" where
  "calendarOk arb = (case arb of None \<Rightarrow> False | Some a \<Rightarrow> calendarPass a)"

definition agoSec :: "int \<Rightarrow> SurfaceView option \<Rightarrow> js_number option" where
  "agoSec now surface =
     map_option (\<lambda>s.
       case sv_lastUpdatedMs s of
         None \<Rightarrow> NaN
       | Some t \<Rightarrow> Math_max (js_int 0) (Math_round (js_div (js_int (now - t)) (js_int 1000)))) surface"

section \<open>The arbitrage verdict\<close>

datatype ArbStatus = green | red | arb_stale

definition STALE_THRESHOLD_MS :: int where
  "STALE_THRESHOLD_MS = 5 * 60 * 1000"

text \<open>An age that is no number never exceeds the threshold.\<close>

definition arb_isStale :: "int \<Rightarrow> SurfaceView option \<Rightarrow> bool" where
  "arb_isStale now surface =
     (case surface of
        None \<Rightarrow> False
      | Some s \<Rightarrow> (case sv_lastUpdatedMs s of None \<Rightarrow> False | Some t \<Rightarrow> now - t > STALE_THRESHOLD_MS))"

definition arb_status :: "int \<Rightarrow> SurfaceView option \<Rightarrow> ArbResult option \<Rightarrow> ArbStatus" where
  "arb_status now surface arb =
     (if arb_isStale now surface then arb_stale
      else case arb of
          None \<Rightarrow> red
        | Some a \<Rightarrow> (if \<not> paramsValid a \<or> minGk a < 0 \<or> \<not> calendarPass a then red else green))"

definition chartData :: "ArbResult option \<Rightarrow> (int \<times> js_number) list" where
  "chartData arb =
     (case arb of
        None \<Rightarrow> []
      | Some a \<Rightarrow> map (\<lambda>(i, g). (int i - 100, js_div (Number_of_int g) (js_int 1000000000))) (enumerate 0 (gK a)))"

text \<open>The collapsible curve: \<open>user_open\<close> is the state the user set.\<close>

definition arb_expanded :: "ArbStatus \<Rightarrow> bool \<Rightarrow> bool" where
  "arb_expanded st user_open \<longleftrightarrow> st = red \<or> user_open"

section \<open>Vault, exposure and bucket\<close>

record VaultStats =
  vt_navDusdc :: js_number
  vt_utilizationPct :: js_number
  vt_navPerShare :: js_number
  vt_paused :: bool

definition vaultStats :: "VaultView option \<Rightarrow> VaultStats option" where
  "vaultStats view =
     map_option (\<lambda>v.
       \<lparr>vt_navDusdc = js_div (StringToNumber (vs_total_assets (vv_vault v))) (js_int 1000000),
        vt_utilizationPct = js_div (Number_of_int (utilizationBps v)) (js_int 100),
        vt_navPerShare = js_div (Number_of_int (navPerShareScaled v)) (js_int 1000000000),
        vt_paused = vs_paused (vv_vault v)\<rparr>) view"

definition exposure_total :: "Hedge list \<Rightarrow> int" where
  "exposure_total hedges = foldl (\<lambda>acc h. acc + h_notionalQuote h) 0 hedges"

definition exposure_pct :: "Hedge list \<Rightarrow> int" where
  "exposure_pct hedges = (if hedges \<noteq> [] \<and> exposure_total hedges > 0 then 100 else 0)"

datatype BucketPanel = BucketDisconnected | BucketPending | BucketShown bool int string string

text \<open>\<open>BucketShown\<close> holds whether the bar is healthy, its width, and the two amounts of the footer.\<close>

definition BucketGauge :: "string option \<Rightarrow> BucketView option \<Rightarrow> BucketPanel" where
  "BucketGauge account view =
     (case account of
        None \<Rightarrow> BucketDisconnected
      | Some _ \<Rightarrow>
          (case view of
             None \<Rightarrow> BucketPending
           | Some v \<Rightarrow> BucketShown (utilizationPct v \<ge> 30) (max 0 (min 100 (utilizationPct v)))
               (formatDusdc (availableMicro v)) (formatDusdc (capacityMicro v))))"

section \<open>Positions\<close>

datatype Cell = Dash string | Amount string string

definition NullableCell :: "int option \<Rightarrow> string \<Rightarrow> bool \<Rightarrow> Cell" where
  "NullableCell v tooltip signed =
     (case v of
        None \<Rightarrow> Dash tooltip
      | Some x \<Rightarrow> Amount (if signed then (if x \<ge> 0 then ''pos'' else ''neg'') else []) (formatDusdc x))"

definition TOOLTIP_PLP_YIELD :: string where
  "TOOLTIP_PLP_YIELD = ''PLP yield realized at redemption. Awaiting your first Redeemed event.''"

definition TOOLTIP_HEDGE_PAYOFF :: string where
  "TOOLTIP_HEDGE_PAYOFF = ''Hedge has not been unwound yet (still open or rolled).''"

definition TOOLTIP_NET :: string where
  "TOOLTIP_NET = ''Net PnL awaits both PLP yield realization and at least one hedge unwind.''"

fun replace_first :: "char \<Rightarrow> char \<Rightarrow> string \<Rightarrow> string" where
  "replace_first a b [] = []"
| "replace_first a b (c # cs) = (if c = a then b # cs else c # replace_first a b cs)"

text \<open>The day and minute of a deposit; \<open>None\<close> is the dash. A time beyond the range of a \<open>Date\<close> is an error of the
  render.\<close>

definition fmtOpenDate :: "int option \<Rightarrow> string option res" where
  "fmtOpenDate ms =
     (case ms of
        None \<Rightarrow> Inr None
      | Some t \<Rightarrow>
          (if t \<le> 0 then Inr None
           else bindE (toISOString t) (\<lambda>iso. Inr (Some (replace_first CHR ''T'' CHR '' '' (take 16 iso))))))"

record PositionRow =
  pr_opened :: "string option"
  pr_deposit :: string
  pr_shares :: string
  pr_plpYield :: Cell
  pr_hedgeCost :: Cell
  pr_hedgePayoff :: Cell
  pr_net :: Cell

definition position_row :: "Position \<Rightarrow> PositionRow res" where
  "position_row p =
     bindE (fmtOpenDate (eventTs p)) (\<lambda>opened.
     Inr \<lparr>pr_opened = opened, pr_deposit = formatDusdc (depositQuote p), pr_shares = formatShares (sharesMinted p),
      pr_plpYield = NullableCell (plpYield p) TOOLTIP_PLP_YIELD True,
      pr_hedgeCost = (case hedgeCost p of None \<Rightarrow> Dash [] | Some c \<Rightarrow> Amount ''neg'' (formatDusdc c)),
      pr_hedgePayoff = NullableCell (hedgePayoff p) TOOLTIP_HEDGE_PAYOFF True,
      pr_net = NullableCell (netQuote p) TOOLTIP_NET True\<rparr>)"

datatype PositionPanel = PosDisconnected | PosNotDeployed | PosEmpty | PosTable "PositionRow list"

definition PositionViewer :: "string option \<Rightarrow> bool \<Rightarrow> Position list \<Rightarrow> PositionPanel res" where
  "PositionViewer account deployed positions =
     (if account = None then Inr PosDisconnected
      else if \<not> deployed then Inr PosNotDeployed
      else if positions = [] then Inr PosEmpty
      else bindE (map_res position_row positions) (\<lambda>rows. Inr (PosTable rows)))"

section \<open>The grid is total\<close>

lemma to_js_Num_in:
  assumes "of_int a \<le> x" "x \<le> of_int b" "\<bar>a\<bar> < 2 ^ 53" "\<bar>b\<bar> < 2 ^ 53"
  shows "\<exists>y. to_js x = Num y \<and> of_int a \<le> y \<and> y \<le> of_int b"
  using to_js_bounded [OF assms] by blast

lemma k_at_range:
  assumes "i < 50"
  shows "\<exists>k. k_at i = Num k \<and> - 2 \<le> k \<and> k \<le> 2"
proof -
  have s: "js_sub K_MAX K_MIN = Num 4"
    by (simp add: js_sub_def K_MAX_def K_MIN_def js_int_def to_js_numeral)
  have "to_js (4 * of_nat i) = Num (of_int (4 * int i))" using assms to_js_of_int [of "4 * int i"] by simp
  then have m: "js_mul (Num 4) (js_int (int i)) = Num (4 * of_nat i)" by (simp add: js_int_def)
  have n: "js_int (int K_GRID - 1) = Num 49" by (simp add: js_int_def K_GRID_def)
  have "i \<le> 49" using assms by simp
  then have "(of_nat i :: rat) \<le> 49" using of_nat_le_iff [of i 49, where ?'a = rat] by simp
  then have "of_int 0 \<le> (4 * of_nat i / 49 :: rat)" "(4 * of_nat i / 49 :: rat) \<le> of_int 4" by simp_all
  from to_js_Num_in [OF this] obtain q where q: "to_js (4 * of_nat i / 49) = Num q" "0 \<le> q" "q \<le> 4" by auto
  have "of_int (- 2) \<le> - 2 + q" "- 2 + q \<le> of_int 2" using q by simp_all
  from to_js_Num_in [OF this] obtain k where k: "to_js (- 2 + q) = Num k" "- 2 \<le> k" "k \<le> 2" by auto
  have "k_at i = js_add K_MIN (to_js (4 * of_nat i / 49))" unfolding k_at_def s m n by simp
  then show ?thesis using k q by (simp add: K_MIN_def js_int_def)
qed

lemma k_big_range:
  assumes "i < 50"
  shows "\<exists>k. k_big i = Inr k \<and> \<bar>k\<bar> \<le> 2000000000"
proof -
  obtain k where k: "k_at i = Num k" "- 2 \<le> k" "k \<le> 2" using k_at_range [OF assms] by blast
  have "of_int (- 2000000000) \<le> k * 1000000000" "k * 1000000000 \<le> of_int 2000000000" using k by simp_all
  from to_js_Num_in [OF this] obtain y where y: "to_js (k * 1000000000) = Num y" "- 2000000000 \<le> y" "y \<le> 2000000000" by auto
  define j where "j = (if y < 0 then \<lceil>y\<rceil> else \<lfloor>y\<rfloor>)"
  have "- 2000000000 \<le> j" "j \<le> 2000000000" using y(2,3) unfolding j_def by (auto simp: le_ceiling_iff ceiling_le_iff floor_le_iff le_floor_iff)
  moreover have "k_big i = Inr j"
    using y(1) by (simp add: k_big_def k(1) FLOAT_SCALING_NUM_def js_int_def j_def BigInt_of_number_def)
  ultimately show ?thesis by auto
qed

lemma map_res_total: "(\<And>x. x \<in> set xs \<Longrightarrow> \<exists>y. f x = Inr y \<and> P x y) \<Longrightarrow> \<exists>ys. map_res f xs = Inr ys \<and> list_all2 P xs ys"
proof (induction xs)
  case (Cons x xs)
  then obtain y ys where "f x = Inr y" "P x y" "map_res f xs = Inr ys" "list_all2 P xs ys" by fastforce
  then show ?case by simp
qed simp

text \<open>The surface is always drawn: for every surface and every list of tenors the grid is built without an
  exception, one row per tenor and fifty columns; a cell is the total variance at a strike of at most two in
  absolute value, or a gap exactly where the evaluator refuses that strike.\<close>

theorem surface_grid_total:
  "\<exists>g. surface_grid (Some s) tenors = Inr (Some g) \<and> length (grid_x g) = 50 \<and> length (grid_z g) = length tenors
    \<and> (\<forall>row\<in>set (grid_z g). list_all2 (\<lambda>i c. \<exists>k. k_big i = Inr k \<and> \<bar>k\<bar> \<le> 2000000000 \<and>
          c = (case totalVariance (sv_svi s) k of Inr w \<Rightarrow> js_div (Number_of_int w) (Num 1000000000) | Inl _ \<Rightarrow> NaN)) [0..<50] row)"
proof -
  define P where "P = (\<lambda>i c. \<exists>k. k_big i = Inr k \<and> \<bar>k\<bar> \<le> 2000000000 \<and>
    c = (case totalVariance (sv_svi s) k of Inr w \<Rightarrow> js_div (Number_of_int w) (Num 1000000000) | Inl _ \<Rightarrow> NaN))"
  have "\<exists>y. surface_cell (sv_svi s) i = Inr y \<and> P i y" if i: "i \<in> set [0..<50]" for i
  proof -
    obtain k where "k_big i = Inr k" "\<bar>k\<bar> \<le> 2000000000" using k_big_range [of i] i by auto
    then show ?thesis
      by (cases "totalVariance (sv_svi s) k") (auto simp: surface_cell_def P_def FLOAT_SCALING_NUM_def js_int_def)
  qed
  then obtain row where row: "map_res (surface_cell (sv_svi s)) [0..<50] = Inr row" "list_all2 P [0..<50] row"
    using map_res_total [of "[0..<50]" "surface_cell (sv_svi s)" P] by blast
  have z: "map_res (\<lambda>_. map_res (surface_cell (sv_svi s)) [0..<50]) ts = Inr (map (\<lambda>_. row) ts)" for ts :: "js_number list"
    by (induction ts) (simp_all add: row(1))
  show ?thesis unfolding P_def [symmetric]
    by (auto simp: surface_grid_def K_GRID_def z row(2))
qed

section \<open>The panels agree\<close>

text \<open>Green in the arbitrage panel is exactly a surface of at most five minutes (or of unknown age) whose two
  chips in the surface panel are both ok; the curve is always open on red; the chart has one point per sample.\<close>

theorem arb_panels_agree:
  assumes "surface_arb surface = Inr arb"
  shows "arb_status now surface arb = green \<longleftrightarrow> \<not> arb_isStale now surface \<and> butterflyOk arb \<and> calendarOk arb"
    and "arb_status now surface arb = red \<longrightarrow> arb_expanded (arb_status now surface arb) user_open"
    and "length (chartData arb) = (case surface of None \<Rightarrow> 0 | Some _ \<Rightarrow> 200)"
proof -
  show "arb_status now surface arb = green \<longleftrightarrow> \<not> arb_isStale now surface \<and> butterflyOk arb \<and> calendarOk arb"
    by (auto simp: arb_status_def butterflyOk_def calendarOk_def split: option.splits)
  show "arb_status now surface arb = red \<longrightarrow> arb_expanded (arb_status now surface arb) user_open"
    by (simp add: arb_expanded_def)
  show "length (chartData arb) = (case surface of None \<Rightarrow> 0 | Some _ \<Rightarrow> 200)"
  proof (cases surface)
    case (Some s)
    with assms obtain a where a: "checkArb (sv_svi s) = Inr a" "arb = Some a" by (auto simp: surface_arb_def bindE_eq_Inr)
    with checkArb_verdict [of "sv_svi s"] show ?thesis by (simp add: Some chartData_def)
  qed (use assms in \<open>simp add: surface_arb_def chartData_def\<close>)
qed

text \<open>The distinction of unknown and zero survives: a cell is a dash exactly when the value is unknown.\<close>

lemma cell_dash_iff: "(\<exists>t. NullableCell v tip signed = Dash t) \<longleftrightarrow> v = None"
  by (auto simp: NullableCell_def split: option.splits)

text \<open>The table renders one row per position, unless a deposit carries a time no \<open>Date\<close> can hold.\<close>

lemma position_row_ok:
  assumes "\<forall>t. eventTs p = Some t \<longrightarrow> t \<le> 8640000000000000"
  shows "\<exists>row. position_row p = Inr row \<and> (pr_opened row = None \<longleftrightarrow> (\<forall>t. eventTs p = Some t \<longrightarrow> t \<le> 0))
    \<and> ((\<exists>tip. pr_net row = Dash tip) \<longleftrightarrow> netQuote p = None)"
  using assms by (cases "eventTs p") (auto simp: position_row_def fmtOpenDate_def toISOString_def cell_dash_iff split: prod.splits)

theorem position_table_total:
  assumes "account \<noteq> None" "deployed" "positions \<noteq> []" "\<forall>p\<in>set positions. \<forall>t. eventTs p = Some t \<longrightarrow> t \<le> 8640000000000000"
  shows "\<exists>rows. PositionViewer account deployed positions = Inr (PosTable rows)
    \<and> list_all2 (\<lambda>p row. (\<exists>tip. pr_net row = Dash tip) \<longleftrightarrow> netQuote p = None) positions rows"
proof -
  have "\<exists>row. position_row p = Inr row \<and> ((\<exists>tip. pr_net row = Dash tip) \<longleftrightarrow> netQuote p = None)" if "p \<in> set positions" for p
    using position_row_ok [OF bspec [OF assms(4) that]] by (elim exE conjE) (intro exI conjI)
  from map_res_total [of positions position_row, OF this] obtain rows where "map_res position_row positions = Inr rows"
    "list_all2 (\<lambda>p row. (\<exists>tip. pr_net row = Dash tip) \<longleftrightarrow> netQuote p = None) positions rows" by blast
  then show ?thesis using assms(1-3) by (auto simp: PositionViewer_def)
qed

lemma bucket_bar_range:
  "BucketGauge account view = BucketShown healthy width a c \<Longrightarrow> 0 \<le> width \<and> width \<le> 100 \<and> (healthy \<longrightarrow> 30 \<le> width)"
  by (auto simp: BucketGauge_def split: option.splits)

end
