(* ===== verification/DashboardShell.thy ===== *)
theory DashboardShell
  imports DashboardPanels
begin

text \<open>
  The frame of the dashboard: the view mode, the headline figures and the deposit button of \<open>App.tsx\<close>, the navigation
  of \<open>Rail.tsx\<close>, the overlay of \<open>DashboardLoader.tsx\<close> and the pills of \<open>RelayStatusPill.tsx\<close>, \<open>StalenessPill.tsx\<close> and
  \<open>GlobalStalenessPill.tsx\<close>. A scroll that is deferred by a frame is kept in the state until the frame; which
  sections are on the page depends on the mode alone. The callbacks of the observer are steps.
\<close>

section \<open>Navigation\<close>

datatype Mode = vault_mode | risk_mode

record NavItem =
  ni_label :: string
  ni_section :: string
  ni_mode :: Mode

definition NAV_ITEMS :: "NavItem list" where
  "NAV_ITEMS =
     [\<lparr>ni_label = ''Overview'', ni_section = ''top'', ni_mode = vault_mode\<rparr>,
      \<lparr>ni_label = ''Deposit'', ni_section = ''deposit-withdraw'', ni_mode = vault_mode\<rparr>,
      \<lparr>ni_label = ''Your position'', ni_section = ''position-viewer'', ni_mode = vault_mode\<rparr>,
      \<lparr>ni_label = ''SVI surface'', ni_section = ''hero'', ni_mode = risk_mode\<rparr>,
      \<lparr>ni_label = ''What-if'', ni_section = ''what-if'', ni_mode = risk_mode\<rparr>,
      \<lparr>ni_label = ''Backtest'', ni_section = ''backtest'', ni_mode = risk_mode\<rparr>]"

fun OBSERVED_BY_MODE :: "Mode \<Rightarrow> string list" where
  "OBSERVED_BY_MODE vault_mode = [''deposit-withdraw'', ''position-viewer'']"
| "OBSERVED_BY_MODE risk_mode = [''hero'', ''what-if'', ''backtest'', ''event-stream'']"

text \<open>The sections that the page holds in a mode, in the order of the document.\<close>

fun mounted_sections :: "Mode \<Rightarrow> string list" where
  "mounted_sections vault_mode = [''deposit-withdraw'', ''position-viewer'']"
| "mounted_sections risk_mode = [''hero'', ''bucket'', ''exposure'', ''event-stream'', ''what-if'', ''backtest'']"

text \<open>\<open>sh_reached\<close> records what each performed scroll found: a section, the top, or nothing.\<close>

record shell =
  sh_mode :: Mode
  sh_active :: string
  sh_visible :: "string list"
  sh_frame :: "string list"
  sh_reached :: "string option list"

definition shell_init :: shell where
  "shell_init = \<lparr>sh_mode = vault_mode, sh_active = ''top'', sh_visible = [], sh_frame = [], sh_reached = []\<rparr>"

definition scrollToSection :: "string \<Rightarrow> shell \<Rightarrow> shell" where
  "scrollToSection section s =
     s\<lparr>sh_reached := sh_reached s @
        [if section = ''top'' \<or> section \<in> set (mounted_sections (sh_mode s)) then Some section else None]\<rparr>"

text \<open>A changed mode disconnects the observer and starts a new one with nothing visible.\<close>

definition setMode :: "Mode \<Rightarrow> shell \<Rightarrow> shell" where
  "setMode m s = (if m = sh_mode s then s else s\<lparr>sh_mode := m, sh_visible := []\<rparr>)"

definition nav_click :: "NavItem \<Rightarrow> shell \<Rightarrow> shell" where
  "nav_click item s =
     (if ni_mode item \<noteq> sh_mode s
      then (setMode (ni_mode item) s)\<lparr>sh_frame := sh_frame s @ [ni_section item]\<rparr>
      else scrollToSection (ni_section item) s)"

definition handleDepositClick :: "shell \<Rightarrow> shell" where
  "handleDepositClick s = (setMode vault_mode s)\<lparr>sh_frame := sh_frame s @ [''deposit-withdraw'']\<rparr>"

definition animation_frame :: "shell \<Rightarrow> shell" where
  "animation_frame s = (fold scrollToSection (sh_frame s) s)\<lparr>sh_frame := []\<rparr>"

definition observe_entry :: "string \<times> bool \<Rightarrow> string list \<Rightarrow> string list" where
  "observe_entry e visible = (if snd e then set_add (fst e) visible else set_delete (fst e) visible)"

definition observed :: "(string \<times> bool) list \<Rightarrow> shell \<Rightarrow> shell" where
  "observed entries s =
     (let visible = fold observe_entry entries (sh_visible s)
      in s\<lparr>sh_visible := visible,
            sh_active := (case find (\<lambda>x. x \<in> set visible) (OBSERVED_BY_MODE (sh_mode s)) of Some x \<Rightarrow> x | None \<Rightarrow> ''top'')\<rparr>)"

definition isActive :: "shell \<Rightarrow> NavItem \<Rightarrow> bool" where
  "isActive s item \<longleftrightarrow> ni_mode item = sh_mode s \<and>
     (sh_active s = ni_section item \<or> (ni_section item = ''top'' \<and> sh_active s = ''top''))"

inductive shell_reach :: "shell \<Rightarrow> bool" where
  start: "shell_reach shell_init"
| tab: "shell_reach s \<Longrightarrow> shell_reach (setMode m s)"
| nav: "shell_reach s \<Longrightarrow> item \<in> set NAV_ITEMS \<Longrightarrow> shell_reach (nav_click item s)"
| deposit: "shell_reach s \<Longrightarrow> shell_reach (handleDepositClick s)"
| frame: "shell_reach s \<Longrightarrow> shell_reach (animation_frame s)"
| seen: "shell_reach s \<Longrightarrow> fst ` set entries \<subseteq> set (OBSERVED_BY_MODE (sh_mode s)) \<Longrightarrow> shell_reach (observed entries s)"

section \<open>Headline figures\<close>

definition DUSDC_MICRO :: js_number where "DUSDC_MICRO = js_int 1000000"

definition navDollars :: "VaultView option \<Rightarrow> js_number option" where
  "navDollars view = map_option (\<lambda>v. js_div (StringToNumber (vs_total_assets (vv_vault v))) DUSDC_MICRO) view"

definition utilPct :: "VaultView option \<Rightarrow> js_number option" where
  "utilPct view = map_option (\<lambda>v. js_div (Number_of_int (utilizationBps v)) (js_int 100)) view"

definition hedgeNotional :: "Hedge list \<Rightarrow> js_number" where
  "hedgeNotional hedges = foldl (\<lambda>acc h. js_add acc (js_div (Number_of_int (h_notionalQuote h)) DUSDC_MICRO)) (js_int 0) hedges"

definition hedgeRatioPct :: "VaultView option \<Rightarrow> Hedge list \<Rightarrow> js_number" where
  "hedgeRatioPct view hedges =
     (case navDollars view of
        None \<Rightarrow> js_int 0
      | Some nav \<Rightarrow> (if js_less (js_int 0) nav then js_mul (js_div (hedgeNotional hedges) nav) (js_int 100) else js_int 0))"

definition relay_alert :: "WsState \<Rightarrow> string option" where
  "relay_alert st =
     (if st = down then Some ''Relay disconnected'' else if st = reconnecting then Some ''Reconnecting to relay'' else None)"

section \<open>Pills and overlay\<close>

definition pill_healthy :: "WsState \<Rightarrow> bool" where
  "pill_healthy st \<longleftrightarrow> st = live \<or> st = connecting"

fun pill_text :: "WsState \<Rightarrow> int option \<Rightarrow> string" where
  "pill_text live n = ''LIVE''"
| "pill_text connecting n = ''CONNECTING''"
| "pill_text reconnecting (Some n) = ''RECONNECTING IN '' @ int_toString n @ ''S''"
| "pill_text reconnecting None = ''RECONNECTING''"
| "pill_text down n = ''RELAY DOWN''"

definition staleness_text :: "int \<Rightarrow> int option \<Rightarrow> string" where
  "staleness_text now t = (if useStaleness now t = fresh then ''LIVE'' else ''STALE'')"

text \<open>The stamps that are numbers: of the oracles, then of the vault.\<close>

definition known_stamps :: "FullSnapshot \<Rightarrow> int list" where
  "known_stamps s =
     List.map_filter (\<lambda>o'. Number_of_string (ss_last_updated_ms o')) (fs_oracles s)
     @ (case fs_vault s of None \<Rightarrow> [] | Some v \<Rightarrow> (case Number_of_string (vs_last_updated_ms v) of None \<Rightarrow> [] | Some t \<Rightarrow> [t]))"

definition min_list_option :: "int list \<Rightarrow> int option" where
  "min_list_option xs = (case xs of [] \<Rightarrow> None | x # r \<Rightarrow> Some (fold min r x))"

definition oracle_min :: "FullSnapshot \<Rightarrow> int option" where
  "oracle_min s = min_list_option (List.map_filter (\<lambda>o'. Number_of_string (ss_last_updated_ms o')) (fs_oracles s))"

definition GlobalStalenessPill :: "FullSnapshot option \<Rightarrow> int option" where
  "GlobalStalenessPill snapshot =
     (case snapshot of
        None \<Rightarrow> None
      | Some s \<Rightarrow>
          (let vaultTs = Option.bind (fs_vault s) (\<lambda>v. Number_of_string (vs_last_updated_ms v));
               candidates = (case oracle_min s of None \<Rightarrow> [] | Some t \<Rightarrow> [t]) @ (case vaultTs of None \<Rightarrow> [] | Some t \<Rightarrow> [t])
           in min_list_option candidates))"

definition DRAW_MS :: int where "DRAW_MS = 1200"
definition FADE_MS :: int where "FADE_MS = 600"
definition REDUCED_MOTION_MS :: int where "REDUCED_MOTION_MS = 150"

text \<open>The overlay \<open>t\<close> milliseconds after the mount: absent, or shown, fading or not.\<close>

definition loader_at :: "bool \<Rightarrow> int \<Rightarrow> bool option" where
  "loader_at reduced t =
     (let drawDelay = (if reduced then REDUCED_MOTION_MS else DRAW_MS)
      in if t \<ge> drawDelay + FADE_MS then None else Some (t \<ge> drawDelay))"

text \<open>The variables of the build: the address of the relay must be set, the network defaults.\<close>

record dashboard_env =
  relayWsUrl :: string
  suiNetwork :: string
  predictServerUrl :: "string option"

definition env_required :: "string \<Rightarrow> string option \<Rightarrow> string res" where
  "env_required key value =
     (case value of
        Some (c # cs) \<Rightarrow> Inr (c # cs)
      | _ \<Rightarrow> Inl (Error (key @ '' env var required (set in dashboard/.env or Vercel project Environment Variables)'')))"

definition env :: "string option \<Rightarrow> string option \<Rightarrow> string option \<Rightarrow> dashboard_env res" where
  "env ws_url net server =
     bindE (env_required ''VITE_RELAY_WS_URL'' ws_url) (\<lambda>url.
     Inr \<lparr>relayWsUrl = url, suiNetwork = (case net of None \<Rightarrow> ''testnet'' | Some n \<Rightarrow> n), predictServerUrl = server\<rparr>)"

section \<open>Environment\<close>

text \<open>The dashboard starts exactly with an address of the relay. Nothing checks the network: a variable that is set but
  empty is not replaced by the default.\<close>

lemma env_returns: "returns (env ws_url net server) \<longleftrightarrow> ws_url \<notin> {None, Some []}"
  by (auto simp: env_def env_required_def returns_iff bindE_eq_Inr split: option.splits list.splits)

lemma env_network_unchecked: "env (Some (c # cs)) (Some n) server = Inr e \<Longrightarrow> suiNetwork e = n"
  by (auto simp: env_def env_required_def)

section \<open>Anchors\<close>

lemma nav_sections_mounted:
  "item \<in> set NAV_ITEMS \<Longrightarrow> ni_section item = ''top'' \<or> ni_section item \<in> set (mounted_sections (ni_mode item))"
  by (auto simp: NAV_ITEMS_def)

lemma observed_mounted: "set (OBSERVED_BY_MODE m) \<subseteq> set (mounted_sections m)"
  by (cases m) auto

lemma nav_sections_distinct: "distinct (map ni_section NAV_ITEMS)"
  by (simp add: NAV_ITEMS_def)

lemma fold_scroll:
  "fold scrollToSection xs s =
     s\<lparr>sh_reached := sh_reached s @ map (\<lambda>x. if x = ''top'' \<or> x \<in> set (mounted_sections (sh_mode s)) then Some x else None) xs\<rparr>"
  by (induction xs arbitrary: s) (simp_all add: scrollToSection_def)

text \<open>A click on an entry of the navigation, or on the deposit button, followed by the next frame reaches its section,
  in the mode the section lives in, from whatever mode; at most one entry is highlighted, and the highlighted
  one leads to a section of the page.\<close>

theorem anchors_reached:
  assumes "sh_frame s = []"
  shows "item \<in> set NAV_ITEMS \<Longrightarrow>
      sh_mode (animation_frame (nav_click item s)) = ni_mode item
      \<and> sh_reached (animation_frame (nav_click item s)) = sh_reached s @ [Some (ni_section item)]"
    and "sh_mode (animation_frame (handleDepositClick s)) = vault_mode
      \<and> sh_reached (animation_frame (handleDepositClick s)) = sh_reached s @ [Some ''deposit-withdraw'']"
    and "i < length NAV_ITEMS \<Longrightarrow> j < length NAV_ITEMS \<Longrightarrow> isActive s (NAV_ITEMS ! i) \<Longrightarrow> isActive s (NAV_ITEMS ! j) \<Longrightarrow>
      i = j \<and> (ni_section (NAV_ITEMS ! i) = ''top'' \<or> ni_section (NAV_ITEMS ! i) \<in> set (mounted_sections (sh_mode s)))"
proof -
  show "sh_mode (animation_frame (nav_click item s)) = ni_mode item
      \<and> sh_reached (animation_frame (nav_click item s)) = sh_reached s @ [Some (ni_section item)]" if "item \<in> set NAV_ITEMS"
    using nav_sections_mounted [OF that] assms
    by (simp add: animation_frame_def nav_click_def setMode_def fold_scroll) (auto simp: scrollToSection_def)
  show "sh_mode (animation_frame (handleDepositClick s)) = vault_mode
      \<and> sh_reached (animation_frame (handleDepositClick s)) = sh_reached s @ [Some ''deposit-withdraw'']"
    using assms by (auto simp: animation_frame_def handleDepositClick_def setMode_def scrollToSection_def)
  show "i = j \<and> (ni_section (NAV_ITEMS ! i) = ''top'' \<or> ni_section (NAV_ITEMS ! i) \<in> set (mounted_sections (sh_mode s)))"
    if a: "i < length NAV_ITEMS" "j < length NAV_ITEMS" "isActive s (NAV_ITEMS ! i)" "isActive s (NAV_ITEMS ! j)"
  proof
    have "ni_section (NAV_ITEMS ! i) = ni_section (NAV_ITEMS ! j)" using a(3,4) by (auto simp: isActive_def)
    then show "i = j" using nth_eq_iff_index_eq [OF nav_sections_distinct, of i j] a(1,2) by simp
    show "ni_section (NAV_ITEMS ! i) = ''top'' \<or> ni_section (NAV_ITEMS ! i) \<in> set (mounted_sections (sh_mode s))"
      using nav_sections_mounted [of "NAV_ITEMS ! i"] a(1,3) by (simp add: isActive_def)
  qed
qed

text \<open>What the observer keeps belongs to the current mode.\<close>

lemma observe_entry_set: "set (observe_entry e v) \<subseteq> insert (fst e) (set v)"
  by (auto simp: observe_entry_def)

lemma observe_entries_set: "set (fold observe_entry es v) \<subseteq> fst ` set es \<union> set v"
proof (induction es arbitrary: v)
  case (Cons e es)
  from Cons [of "observe_entry e v"] observe_entry_set [of e v] show ?case by auto
qed simp

lemma shell_reach_visible: "shell_reach s \<Longrightarrow> set (sh_visible s) \<subseteq> set (OBSERVED_BY_MODE (sh_mode s))"
proof (induction rule: shell_reach.induct)
  case (seen s entries)
  have "set (sh_visible (observed entries s)) \<subseteq> fst ` set entries \<union> set (sh_visible s)"
    using observe_entries_set [of entries "sh_visible s"] by (simp add: observed_def Let_def)
  moreover have "sh_mode (observed entries s) = sh_mode s" by (simp add: observed_def Let_def)
  ultimately show ?case using seen by auto
next
  case (frame s)
  then show ?case by (simp add: animation_frame_def fold_scroll)
qed (auto simp: shell_init_def setMode_def nav_click_def handleDepositClick_def scrollToSection_def)

section \<open>The global pill\<close>

lemma fold_min_Min: "fold min xs (x :: int) = Min (set (x # xs))"
proof (induction xs arbitrary: x)
  case (Cons y ys)
  then show ?case by (cases "ys = []") (auto simp: min.commute min.left_commute)
qed simp

lemma min_list_option_Min: "xs \<noteq> [] \<Longrightarrow> min_list_option xs = Some (Min (set xs))"
  by (cases xs) (simp_all add: min_list_option_def fold_min_Min del: fold.simps)

text \<open>The pill of the header is live exactly when something is known and everything known is younger than
  thirty seconds.\<close>

theorem global_pill_live:
  "staleness_text now (GlobalStalenessPill (Some s)) = ''LIVE'' \<longleftrightarrow>
     known_stamps s \<noteq> [] \<and> (\<forall>t\<in>set (known_stamps s). now - t < 30000)"
proof -
  define os where "os = List.map_filter (\<lambda>o'. Number_of_string (ss_last_updated_ms o')) (fs_oracles s)"
  define vt where "vt = Option.bind (fs_vault s) (\<lambda>v. Number_of_string (vs_last_updated_ms v))"
  define vs where "vs = (case vt of None \<Rightarrow> [] | Some t \<Rightarrow> [t])"
  have k: "known_stamps s = os @ vs"
    by (cases "fs_vault s") (simp_all add: known_stamps_def os_def vs_def vt_def)
  have g: "GlobalStalenessPill (Some s) = min_list_option ((case oracle_min s of None \<Rightarrow> [] | Some t \<Rightarrow> [t]) @ vs)"
    by (simp add: GlobalStalenessPill_def vs_def vt_def Let_def)
  have "GlobalStalenessPill (Some s) = (if os @ vs = [] then None else Some (Min (set (os @ vs))))"
  proof (cases "os = []")
    case True
    then have "oracle_min s = None" by (simp add: oracle_min_def os_def [symmetric] min_list_option_def)
    then show ?thesis using True by (cases vt) (simp_all add: g vs_def min_list_option_def)
  next
    case False
    then have "oracle_min s = Some (Min (set os))" by (simp add: oracle_min_def os_def [symmetric] min_list_option_Min)
    then show ?thesis using False
      by (cases vt) (simp_all add: g vs_def min_list_option_def min.commute)
  qed
  moreover have "now - Min A < 30000 \<longleftrightarrow> (\<forall>t\<in>A. now - t < 30000)" if "finite A" "A \<noteq> {}" for A :: "int set"
    using Min_gr_iff [OF that, of "now - 30000"] by (simp add: algebra_simps)
  ultimately show ?thesis unfolding k staleness_text_def
    by (cases "os @ vs = []") (simp_all add: useStaleness_def Let_def del: set_append)
qed

section \<open>Order of the observed sections\<close>

text \<open>With the event stream and the what-if panel both on screen the highlight is the what-if panel, although the
  event stream comes first in the document.\<close>

lemma observed_not_document_order:
  "sh_active (observed [(''event-stream'', True), (''what-if'', True)] (setMode risk_mode shell_init)) = ''what-if''"
  "find (\<lambda>x. x \<in> {''event-stream'', ''what-if''}) (mounted_sections risk_mode) = Some ''event-stream''"
  by (simp_all add: observed_def observe_entry_def setMode_def shell_init_def set_add_def)

end
