(* ===== verification/RateLimiter.thy ===== *)
theory RateLimiter
  imports DashboardHooks "HOL-Library.Word"
begin

text \<open>
  \<open>contracts/sources/helpers/rate_limiter.move\<close>: the on-chain token bucket whose state the dashboard
  displays. Fields are 64-bit words and the intermediate values 128-bit words, as in the source; an
  abort is the left side of a sum. The theory proves that the wide intermediates never overflow, that the
  dashboard's refill formula is the chain's, and that no sequence of operations withdraws more than the
  bucket held plus what it was refilled with.
\<close>

datatype limiter_abort = EExceedsCapacity | EInsufficientWithdrawalBudget | EInvalidConfig

record RateLimiter =
  rl_available :: "64 word"
  rl_last_updated_ms :: "64 word"
  rl_capacity :: "64 word"
  rl_refill_rate_per_ms :: "64 word"
  rl_enabled :: bool

definition elapsed_ms :: "64 word \<Rightarrow> 64 word \<Rightarrow> 64 word" where
  "elapsed_ms last_updated_ms current_time =
     (if current_time > last_updated_ms then current_time - last_updated_ms else 0)"

text \<open>\<open>(available + elapsed * rate).min(capacity)\<close> in 128 bits, cast back to 64.\<close>

definition refilled :: "RateLimiter \<Rightarrow> 64 word \<Rightarrow> 64 word" where
  "refilled self elapsed =
     (let refill_amount = (ucast elapsed :: 128 word) * ucast (rl_refill_rate_per_ms self);
          new_available = ucast (rl_available self) + refill_amount
      in ucast (min new_available (ucast (rl_capacity self))))"

definition available_withdrawal :: "RateLimiter \<Rightarrow> 64 word \<Rightarrow> 64 word" where
  "available_withdrawal self now =
     (if \<not> rl_enabled self then - 1 else refilled self (elapsed_ms (rl_last_updated_ms self) now))"

definition limiter_new :: "64 word \<Rightarrow> RateLimiter" where
  "limiter_new now = \<lparr>rl_available = 0, rl_last_updated_ms = now, rl_capacity = 0,
     rl_refill_rate_per_ms = 0, rl_enabled = False\<rparr>"

definition refill :: "64 word \<Rightarrow> RateLimiter \<Rightarrow> RateLimiter" where
  "refill now self =
     (let elapsed = elapsed_ms (rl_last_updated_ms self) now in
      if elapsed > 0
      then self\<lparr>rl_available := refilled self elapsed, rl_last_updated_ms := now\<rparr> else self)"

definition consume :: "64 word \<Rightarrow> 64 word \<Rightarrow> RateLimiter \<Rightarrow> limiter_abort + RateLimiter" where
  "consume amount now self =
     (if \<not> rl_enabled self \<or> amount = 0 then Inr self
      else let s = refill now self in
        if \<not> amount \<le> rl_capacity s then Inl EExceedsCapacity
        else if \<not> amount \<le> rl_available s then Inl EInsufficientWithdrawalBudget
        else Inr (s\<lparr>rl_available := rl_available s - amount\<rparr>))"

definition record_deposit :: "64 word \<Rightarrow> 64 word \<Rightarrow> RateLimiter \<Rightarrow> RateLimiter" where
  "record_deposit amount now self =
     (if \<not> rl_enabled self then self
      else let s = refill now self;
               new_available = (ucast (rl_available s) :: 128 word) + ucast amount
           in s\<lparr>rl_available := ucast (min new_available (ucast (rl_capacity s)))\<rparr>)"

definition limiter_enable :: "64 word \<Rightarrow> RateLimiter \<Rightarrow> limiter_abort + RateLimiter" where
  "limiter_enable now self =
     (if rl_refill_rate_per_ms self > 0 \<and> rl_refill_rate_per_ms self < rl_capacity self
      then Inr ((refill now self)\<lparr>rl_enabled := True\<rparr>) else Inl EInvalidConfig)"

definition limiter_disable :: "RateLimiter \<Rightarrow> RateLimiter" where
  "limiter_disable self = self\<lparr>rl_enabled := False\<rparr>"

definition update_config :: "64 word \<Rightarrow> 64 word \<Rightarrow> 64 word \<Rightarrow> RateLimiter \<Rightarrow> limiter_abort + RateLimiter" where
  "update_config capacity rate now self =
     (if rate > 0 \<and> rate < capacity
      then let s = (refill now self)\<lparr>rl_capacity := capacity, rl_refill_rate_per_ms := rate\<rparr>
           in Inr (if rl_available s > capacity then s\<lparr>rl_available := capacity\<rparr> else s)
      else Inl EInvalidConfig)"

text \<open>\<open>get_or_init_user_bucket\<close> of \<open>redeem.move\<close>: the bucket a user gets on the first fulfilled redemption.\<close>

definition init_user_bucket :: "64 word \<Rightarrow> 64 word \<Rightarrow> 64 word \<Rightarrow> limiter_abort + RateLimiter" where
  "init_user_bucket capacity rate now =
     (case update_config capacity rate now (limiter_new now) of
        Inl e \<Rightarrow> Inl e
      | Inr b \<Rightarrow> (case limiter_enable now b of
          Inl e \<Rightarrow> Inl e
        | Inr b' \<Rightarrow> Inr (record_deposit capacity now b')))"

section \<open>No overflow\<close>

lemma uint_lt_64: "uint (w :: 64 word) < 2 ^ 64"
  using uint_bounded [of w] by simp

lemma uint_up_cast [simp]: "uint (ucast (w :: 64 word) :: 128 word) = uint w"
  using uint_lt_64 [of w] by (simp add: unsigned_ucast_eq take_bit_int_eq_self)

lemma wide_product: "uint (ucast (a :: 64 word) * ucast (b :: 64 word) :: 128 word) = uint a * uint b"
proof -
  have "uint a * uint b < 2 ^ 64 * 2 ^ 64"
    using uint_lt_64 [of a] uint_lt_64 [of b] by (intro mult_strict_mono) simp_all
  then show ?thesis
    using uint_mult_lem [of "ucast a :: 128 word" "ucast b"] by simp
qed

lemma wide_sum:
  "uint (ucast (c :: 64 word) + ucast (a :: 64 word) * ucast (b :: 64 word) :: 128 word) = uint c + uint a * uint b"
  "uint (ucast (c :: 64 word) + ucast (a :: 64 word) :: 128 word) = uint c + uint a"
proof -
  have "uint a * uint b \<le> (2 ^ 64 - 1) * (2 ^ 64 - 1)"
    using uint_lt_64 [of a] uint_lt_64 [of b] by (intro mult_mono) simp_all
  then have "uint c + uint a * uint b < 2 ^ 128" using uint_lt_64 [of c] by simp
  then show "uint (ucast c + ucast a * ucast b :: 128 word) = uint c + uint a * uint b"
    using uint_add_lem [of "ucast c :: 128 word" "ucast a * ucast b"] by (simp add: wide_product)
  show "uint (ucast c + ucast a :: 128 word) = uint c + uint a"
    using uint_lt_64 [of c] uint_lt_64 [of a] uint_add_lem [of "ucast c :: 128 word" "ucast a"] by simp
qed

lemma uint_min_cast:
  "uint (ucast (min (x :: 128 word) (ucast (c :: 64 word))) :: 64 word) = min (uint x) (uint c)"
proof -
  have "uint (min x (ucast c)) = min (uint x) (uint c)"
    by (simp add: min_def word_le_def)
  moreover have "min (uint x) (uint c) < 2 ^ 64" using uint_lt_64 [of c] by linarith
  ultimately show ?thesis by (simp add: unsigned_ucast_eq take_bit_int_eq_self)
qed

lemma uint_diff_le: "x \<le> c \<Longrightarrow> x - uint (a :: 64 word) \<le> c"
  using uint_nonnegative [of a] by linarith

section \<open>The bucket as integers\<close>

lemma uint_elapsed: "uint (elapsed_ms l t) = (if uint t > uint l then uint t - uint l else 0)"
proof -
  have "uint (t - l) = uint t - uint l" if "l < t"
    using that by (simp add: uint_sub_lem [symmetric] word_less_def)
  then show ?thesis by (simp add: elapsed_ms_def word_less_def)
qed

lemma uint_refilled:
  "uint (refilled s e) = min (uint (rl_available s) + uint e * uint (rl_refill_rate_per_ms s)) (uint (rl_capacity s))"
  unfolding refilled_def Let_def uint_min_cast wide_sum ..

definition rl_inv :: "RateLimiter \<Rightarrow> bool" where
  "rl_inv s \<longleftrightarrow> uint (rl_available s) \<le> uint (rl_capacity s)"

definition rl_elapsed :: "RateLimiter \<Rightarrow> 64 word \<Rightarrow> int" where
  "rl_elapsed s t = uint (elapsed_ms (rl_last_updated_ms s) t)"

lemma refill_fields [simp]:
  "rl_capacity (refill t s) = rl_capacity s"
  "rl_refill_rate_per_ms (refill t s) = rl_refill_rate_per_ms s"
  "rl_enabled (refill t s) = rl_enabled s"
  by (simp_all add: refill_def Let_def)

lemma refill_available:
  assumes "rl_inv s"
  shows "uint (rl_available (refill t s)) =
    min (uint (rl_available s) + rl_elapsed s t * uint (rl_refill_rate_per_ms s)) (uint (rl_capacity s))"
proof (cases "elapsed_ms (rl_last_updated_ms s) t > 0")
  case True
  then show ?thesis by (simp add: refill_def Let_def uint_refilled rl_elapsed_def)
next
  case False
  then have "elapsed_ms (rl_last_updated_ms s) t = 0" by (simp add: word_gt_0)
  with assms show ?thesis by (simp add: refill_def rl_elapsed_def rl_inv_def min_def)
qed

lemma refill_inv: "rl_inv s \<Longrightarrow> rl_inv (refill t s)"
  by (simp add: rl_inv_def [of "refill t s"] refill_available)

text \<open>The clock of a limiter only moves forward: afterwards it stands at the later of the two times.\<close>

lemma refill_clock:
  "uint (rl_last_updated_ms (refill t s)) = max (uint (rl_last_updated_ms s)) (uint t)"
  "rl_elapsed s t = max (uint (rl_last_updated_ms s)) (uint t) - uint (rl_last_updated_ms s)"
proof -
  show e: "rl_elapsed s t = max (uint (rl_last_updated_ms s)) (uint t) - uint (rl_last_updated_ms s)"
    by (simp add: rl_elapsed_def uint_elapsed)
  have "elapsed_ms (rl_last_updated_ms s) t > 0 \<longleftrightarrow> uint t > uint (rl_last_updated_ms s)"
    unfolding word_less_def uint_elapsed by auto
  then show "uint (rl_last_updated_ms (refill t s)) = max (uint (rl_last_updated_ms s)) (uint t)"
    by (simp add: refill_def Let_def max_def)
qed

lemma available_withdrawal_refill:
  assumes "rl_enabled s" "rl_inv s"
  shows "available_withdrawal s t = rl_available (refill t s)"
proof -
  have "uint (available_withdrawal s t) = uint (rl_available (refill t s))"
    using assms by (simp add: available_withdrawal_def uint_refilled refill_available rl_elapsed_def)
  then show ?thesis by (simp only: word_uint_eq_iff)
qed

lemma consume_result:
  assumes "rl_enabled s" "rl_inv s" "consume a t s = Inr s'"
  shows "uint (rl_available s') = uint (rl_available s) \<and> a = 0 \<and> s' = s \<or>
    uint (rl_available s') = uint (rl_available (refill t s)) - uint a \<and> uint a \<le> uint (rl_available (refill t s))
      \<and> rl_last_updated_ms s' = rl_last_updated_ms (refill t s)"
    and "rl_capacity s' = rl_capacity s" "rl_refill_rate_per_ms s' = rl_refill_rate_per_ms s" "rl_enabled s'"
  using assms
  by (auto simp: consume_def Let_def word_le_def uint_sub_lem [symmetric] split: if_splits)

lemma record_deposit_result:
  assumes "rl_enabled s"
  shows "uint (rl_available (record_deposit a t s)) =
      min (uint (rl_available (refill t s)) + uint a) (uint (rl_capacity s))"
    "rl_last_updated_ms (record_deposit a t s) = rl_last_updated_ms (refill t s)"
    "rl_capacity (record_deposit a t s) = rl_capacity s"
    "rl_refill_rate_per_ms (record_deposit a t s) = rl_refill_rate_per_ms s"
    "rl_enabled (record_deposit a t s)"
  using assms by (simp_all add: record_deposit_def Let_def uint_min_cast wide_sum(2))

lemma lazy_refill_chain:
  assumes "rl_enabled s"
  shows "applyLazyRefill (uint (rl_available s)) (uint (rl_capacity s)) (uint (rl_refill_rate_per_ms s))
           (uint (rl_last_updated_ms s)) (uint now) = uint (available_withdrawal s now)"
proof -
  let ?e = "uint (elapsed_ms (rl_last_updated_ms s) now)"
  define x where "x = uint (rl_available s) + ?e * uint (rl_refill_rate_per_ms s)"
  have "0 \<le> x" unfolding x_def by simp
  then show ?thesis using assms
    unfolding applyLazyRefill_def available_withdrawal_def Let_def uint_elapsed [symmetric] x_def [symmetric]
    by (auto simp: uint_refilled x_def [symmetric] min_def)
qed

text \<open>How the node shows a limiter: integers as decimal strings, and the struct below the dynamic field.\<close>

definition limiter_json :: "RateLimiter \<Rightarrow> json" where
  "limiter_json s = JObj
     [(''available'', JStr (int_toString (uint (rl_available s)))),
      (''last_updated_ms'', JStr (int_toString (uint (rl_last_updated_ms s)))),
      (''capacity'', JStr (int_toString (uint (rl_capacity s)))),
      (''refill_rate_per_ms'', JStr (int_toString (uint (rl_refill_rate_per_ms s)))),
      (''enabled'', JBool (rl_enabled s))]"

definition limiter_object :: "RateLimiter \<Rightarrow> ObjectContent option res" where
  "limiter_object s = Inr (Some \<lparr>oc_dataType = ''moveObject'',
     oc_fields = Some (JObj [(''value'', JObj [(''fields'', limiter_json s)])])\<rparr>)"

definition vault_object :: "string \<Rightarrow> ObjectContent option res" where
  "vault_object table = Inr (Some \<lparr>oc_dataType = ''moveObject'',
     oc_fields = Some (JObj [(''rate_limiters'', JObj [(''fields'', JObj [(''id'', JObj [(''id'', JStr table)])])])])\<rparr>)"

lemma limiter_fields:
  "limiter_field (Some (limiter_json s)) ''available'' = Inr (uint (rl_available s))"
  "limiter_field (Some (limiter_json s)) ''capacity'' = Inr (uint (rl_capacity s))"
  "limiter_field (Some (limiter_json s)) ''refill_rate_per_ms'' = Inr (uint (rl_refill_rate_per_ms s))"
  "limiter_field (Some (limiter_json s)) ''last_updated_ms'' = Inr (uint (rl_last_updated_ms s))"
  by (simp_all add: limiter_field_def limiter_json_def jget_def nullish_def BigInt_toString)

text \<open>C12. The budget the dashboard shows is the chain's: when the node serves the vault and the user's
  enabled limiter, the query shows the on-chain \<open>available_withdrawal\<close>, computed there with 128-bit
  intermediates and here with unbounded integers, at every time; without a limiter it shows none.\<close>

theorem bucket_matches_chain:
  assumes "rl_enabled s" "table \<noteq> []"
  shows "(\<exists>pct. bucket_query (Some addr) (vault_object table) (limiter_object s) (uint (now :: 64 word)) =
      Inr (Some \<lparr>availableMicro = uint (available_withdrawal s now), capacityMicro = uint (rl_capacity s),
                 refillRatePerMs = uint (rl_refill_rate_per_ms s), utilizationPct = pct\<rparr>))
    \<and> bucket_query (Some addr) (vault_object table) (Inl e) (uint now) = Inr None
    \<and> bucket_query None (vault_object table) (limiter_object s) (uint now) = Inr None"
proof -
  have "\<exists>pct. bucket_view (Some (limiter_json s)) (uint now) =
      Inr \<lparr>availableMicro = uint (available_withdrawal s now), capacityMicro = uint (rl_capacity s),
           refillRatePerMs = uint (rl_refill_rate_per_ms s), utilizationPct = pct\<rparr>"
    unfolding bucket_view_def limiter_fields bindE_simps Let_def lazy_refill_chain [OF assms(1)] by blast
  then obtain v where v: "bucket_view (Some (limiter_json s)) (uint now) = Inr v"
    "\<exists>pct. v = \<lparr>availableMicro = uint (available_withdrawal s now), capacityMicro = uint (rl_capacity s),
           refillRatePerMs = uint (rl_refill_rate_per_ms s), utilizationPct = pct\<rparr>" by blast
  have "limiter_json s \<noteq> JNull" by (simp add: limiter_json_def)
  with v(1) assms(2) have "bucket_query (Some addr) (vault_object table) (limiter_object s) (uint now) = Inr (Some v)"
    by (simp add: bucket_query_def vault_object_def limiter_object_def content_fields_def nullish_def jget_def Let_def)
  with v(2) assms(2) show ?thesis
    by (auto simp: bucket_query_def vault_object_def content_fields_def nullish_def jget_def)
qed

theorem bucket_matches_chain_witness:
  "\<exists>pct. bucket_query (Some ''0xu'') (vault_object ''0xt'') (limiter_object
     \<lparr>rl_available = 5, rl_last_updated_ms = 1000, rl_capacity = 100, rl_refill_rate_per_ms = 3, rl_enabled = True\<rparr>) 1010
   = Inr (Some \<lparr>availableMicro = uint (available_withdrawal
     \<lparr>rl_available = 5, rl_last_updated_ms = 1000, rl_capacity = 100, rl_refill_rate_per_ms = 3, rl_enabled = True\<rparr> 1010),
     capacityMicro = 100, refillRatePerMs = 3, utilizationPct = pct\<rparr>)"
  using bucket_matches_chain [of
    "\<lparr>rl_available = 5, rl_last_updated_ms = 1000, rl_capacity = 100, rl_refill_rate_per_ms = 3, rl_enabled = True\<rparr>"
    "''0xt''" "''0xu''" 1010 "Error []"]
  by simp

section \<open>Sequences of operations\<close>

datatype limiter_op = OpConsume "64 word" | OpDeposit "64 word"

text \<open>A state with the totals withdrawn and deposited so far; an abort rolls the operation back.\<close>

fun rl_step :: "64 word \<times> limiter_op \<Rightarrow> RateLimiter \<times> int \<times> int \<Rightarrow> RateLimiter \<times> int \<times> int" where
  "rl_step (t, OpConsume a) (s, w, d) = (case consume a t s of Inl _ \<Rightarrow> (s, w, d) | Inr s' \<Rightarrow> (s', w + uint a, d))"
| "rl_step (t, OpDeposit a) (s, w, d) = (record_deposit a t s, w, d + uint a)"

definition rl_budget :: "RateLimiter \<Rightarrow> RateLimiter \<times> int \<times> int \<Rightarrow> bool" where
  "rl_budget s0 = (\<lambda>(s, w, d).
     rl_enabled s \<and> rl_inv s \<and> rl_capacity s = rl_capacity s0 \<and> rl_refill_rate_per_ms s = rl_refill_rate_per_ms s0
     \<and> uint (rl_last_updated_ms s0) \<le> uint (rl_last_updated_ms s)
     \<and> w + uint (rl_available s) \<le> uint (rl_available s0) + d
         + uint (rl_refill_rate_per_ms s0) * (uint (rl_last_updated_ms s) - uint (rl_last_updated_ms s0)))"

lemma refill_budget:
  assumes "rl_budget s0 (s, w, d)"
  shows "rl_budget s0 (refill t s, w, d)"
proof -
  define l m :: int where "l = uint (rl_last_updated_ms s)" and "m = uint (rl_last_updated_ms (refill t s))"
  define r where "r = uint (rl_refill_rate_per_ms s0)"
  from assms have inv: "rl_inv s" and rate: "uint (rl_refill_rate_per_ms s) = r"
    by (auto simp: rl_budget_def r_def)
  have lm: "l \<le> m" "rl_elapsed s t = m - l" unfolding l_def m_def refill_clock by simp_all
  have "uint (rl_available (refill t s)) \<le> uint (rl_available s) + (m - l) * r"
    unfolding refill_available [OF inv] lm(2) rate by simp
  moreover have "(m - l) * r + r * (l - x) = r * (m - x)" for x by (simp add: algebra_simps)
  ultimately show ?thesis
    using assms lm(1) refill_inv [OF inv, of t] unfolding rl_budget_def l_def [symmetric] m_def [symmetric] r_def [symmetric]
    by (auto simp: l_def m_def) (smt (verit))
qed

lemma rl_step_budget:
  assumes "rl_budget s0 st"
  shows "rl_budget s0 (rl_step (t, op) st)"
proof -
  obtain s w d where st: "st = (s, w, d)" by (cases st) auto
  from assms have s: "rl_enabled s" "rl_inv s" by (auto simp: rl_budget_def st)
  note r = refill_budget [OF assms [unfolded st], of t]
  show ?thesis
  proof (cases op)
    case (OpDeposit a)
    note dep = record_deposit_result [OF s(1), of a t]
    have "0 \<le> uint a" by simp
    then show ?thesis using r dep by (auto simp: st OpDeposit rl_budget_def rl_inv_def)
  next
    case (OpConsume a)
    show ?thesis
    proof (cases "consume a t s")
      case (Inr s')
      note c = consume_result [OF s Inr]
      from c(1) show ?thesis
      proof
        assume "uint (rl_available s') = uint (rl_available s) \<and> a = 0 \<and> s' = s"
        then show ?thesis using assms Inr by (simp add: st OpConsume)
      next
        assume "uint (rl_available s') = uint (rl_available (refill t s)) - uint a
          \<and> uint a \<le> uint (rl_available (refill t s)) \<and> rl_last_updated_ms s' = rl_last_updated_ms (refill t s)"
        then show ?thesis using r c(2-4) by (auto simp: st OpConsume Inr rl_budget_def rl_inv_def intro: uint_diff_le)
      qed
    qed (use assms in \<open>simp add: st OpConsume\<close>)
  qed
qed

lemma rl_run_budget: "rl_budget s0 st \<Longrightarrow> rl_budget s0 (fold rl_step ops st)"
proof (induction ops arbitrary: st)
  case (Cons x ops)
  then show ?case using rl_step_budget [of s0 st "fst x" "snd x"] by simp
qed simp

text \<open>C11. The limiter limits: whatever withdrawals and deposits are attempted, at whatever times, all that is
  withdrawn from an enabled limiter is at most what it held, plus the deposits, plus the refill rate times the
  time that has passed; and the stock never exceeds the capacity.\<close>

theorem withdrawals_limited:
  assumes "rl_enabled s0" "uint (rl_available s0) \<le> uint (rl_capacity s0)"
    and "fold rl_step ops (s0, 0, 0) = (s, withdrawn, deposited)"
  shows "withdrawn + uint (rl_available s) \<le> uint (rl_available s0) + deposited
      + uint (rl_refill_rate_per_ms s0) * (uint (rl_last_updated_ms s) - uint (rl_last_updated_ms s0))
    \<and> uint (rl_available s) \<le> uint (rl_capacity s0)"
proof -
  have "rl_budget s0 (s0, 0, 0)" using assms(1,2) by (simp add: rl_budget_def rl_inv_def)
  then have "rl_budget s0 (s, withdrawn, deposited)" using rl_run_budget assms(3) by metis
  then show ?thesis by (auto simp: rl_budget_def rl_inv_def)
qed

theorem withdrawals_limited_witness:
  "\<exists>s w d. fold rl_step [(1010, OpConsume 30), (1010, OpConsume 30), (1020, OpDeposit 7)]
      (\<lparr>rl_available = 5, rl_last_updated_ms = 1000, rl_capacity = 100, rl_refill_rate_per_ms = 3, rl_enabled = True\<rparr>, 0, 0)
        = (s, w, d) \<and> w + uint (rl_available s) \<le> 5 + d + 3 * (uint (rl_last_updated_ms s) - 1000) \<and> uint (rl_available s) \<le> 100"
proof -
  let ?s0 = "\<lparr>rl_available = 5, rl_last_updated_ms = 1000, rl_capacity = 100, rl_refill_rate_per_ms = 3, rl_enabled = True\<rparr>"
  let ?ops = "[(1010, OpConsume 30), (1010, OpConsume 30), (1020, OpDeposit 7)]"
  obtain s w d where r: "fold rl_step ?ops (?s0, 0, 0) = (s, w, d)" by (metis prod_cases3)
  then show ?thesis using withdrawals_limited [OF _ _ r] by auto
qed

text \<open>A withdrawal goes through exactly when the displayed budget covers it.\<close>

lemma consume_iff_budget:
  assumes "rl_enabled s" "rl_inv s" "a \<noteq> 0"
  shows "(\<exists>s'. consume a t s = Inr s') \<longleftrightarrow> uint a \<le> uint (available_withdrawal s t)"
  using assms refill_inv [OF assms(2), of t]
  by (auto simp: consume_def Let_def available_withdrawal_refill word_le_def rl_inv_def)

text \<open>A limiter that is not enabled does not limit, but the dashboard, which does not read the flag, shows
  it as an empty bucket.\<close>

lemma disabled_shown_empty:
  "available_withdrawal (limiter_new t) now = - 1
   \<and> applyLazyRefill (uint (rl_available (limiter_new t))) (uint (rl_capacity (limiter_new t)))
       (uint (rl_refill_rate_per_ms (limiter_new t))) (uint t) (uint now) = 0"
  by (simp add: available_withdrawal_def limiter_new_def applyLazyRefill_def)

text \<open>A new bucket is enabled and full, unless the configuration is refused.\<close>

lemma init_user_bucket_full:
  assumes "0 < rate" "rate < capacity"
  shows "init_user_bucket capacity rate now =
    Inr \<lparr>rl_available = capacity, rl_last_updated_ms = now, rl_capacity = capacity,
      rl_refill_rate_per_ms = rate, rl_enabled = True\<rparr>"
proof -
  have e: "elapsed_ms now now = 0" by (simp add: elapsed_ms_def)
  have "uint (ucast (min (ucast capacity :: 128 word) (ucast capacity)) :: 64 word) = uint capacity"
    unfolding uint_min_cast by simp
  then have c: "ucast (min (ucast capacity :: 128 word) (ucast capacity)) = capacity"
    by (simp only: word_uint_eq_iff)
  show ?thesis
    using assms c
    by (simp add: init_user_bucket_def update_config_def limiter_enable_def record_deposit_def limiter_new_def
        refill_def Let_def e)
qed

end
