(* ===== verification/DepositPanel.thy ===== *)
theory DepositPanel
  imports DashboardPtb DashboardFormat DashboardHooks
begin

text \<open>
  \<open>dashboard/src/components/panels/DepositWithdrawPanel.tsx\<close>: the forms that sign deposits and redemptions.
  A handler maps the state of a form to the new state and the effects it has: notifications, reads of the
  node, transactions handed to the wallet. A handler that awaits is cut at the await. Two step relations
  interleave typing, clicks, replies, account changes and the outcomes of signing. Markup is left out.
\<close>

section \<open>Effects\<close>

datatype toast =
    toast_error string
  | toast_error_desc string string
  | toast_success string string

datatype panel_effect =
    Toast toast
  | GetCoins string string
  | Sign Transaction
  | Throw js_error

text \<open>\<open>/p/i.test(s)\<close> for a word \<open>p\<close> in lower case.\<close>

definition lower_char :: "char \<Rightarrow> char" where
  "lower_char c = (if 65 \<le> (of_char c :: nat) \<and> (of_char c :: nat) \<le> 90 then char_of (of_char c + 32 :: nat) else c)"

fun contains :: "string \<Rightarrow> string \<Rightarrow> bool" where
  "contains p [] = (p = [])"
| "contains p (c # cs) = (starts_with p (c # cs) \<or> contains p cs)"

definition matches_ci :: "string \<Rightarrow> string \<Rightarrow> bool" where
  "matches_ci p s = contains p (map lower_char s)"

text \<open>\<open>coins.data.reduce((acc, c) => acc + BigInt(c.balance), 0n)\<close>; a coin is its identifier and its balance.\<close>

fun sum_balances :: "int \<Rightarrow> (string \<times> string) list \<Rightarrow> int res" where
  "sum_balances acc [] = Inr acc"
| "sum_balances acc ((_, b) # cs) = bindE (BigInt b) (\<lambda>v. sum_balances (acc + v) cs)"

section \<open>Deposit\<close>

record DepositForm =
  amountStr :: string
  dialogOpen :: bool
  coinId :: "string option"

definition new_DepositForm :: DepositForm where
  "new_DepositForm = \<lparr>amountStr = [], dialogOpen = False, coinId = None\<rparr>"

definition df_amount :: "DepositForm \<Rightarrow> int option" where
  "df_amount f = parseDusdcInput (amountStr f)"

definition expectedShares :: "int option \<Rightarrow> VaultView option \<Rightarrow> int res" where
  "expectedShares amount vaultView =
     (case amount of
        None \<Rightarrow> Inr 0
      | Some a \<Rightarrow>
          (if a \<le> 0 then Inr 0
           else case vaultView of
               None \<Rightarrow> Inr a
             | Some v \<Rightarrow>
                 bindE (BigInt (vs_total_assets (vv_vault v))) (\<lambda>ta.
                 bindE (BigInt (vs_total_shares (vv_vault v))) (\<lambda>ts.
                 if ts = 0 then Inr a
                 else if ta + 1 = 0 then Inl RangeError
                 else Inr ((a * ts) sdiv (ta + 1))))))"

text \<open>\<open>onClickDeposit\<close> up to the read of the coins, and its continuation with the amount it captured.\<close>

definition onClickDeposit :: "DeployJson \<Rightarrow> string \<Rightarrow> DepositForm \<Rightarrow> panel_effect list" where
  "onClickDeposit deploy address f =
     (case df_amount f of
        None \<Rightarrow> [Toast (toast_error ''Enter a positive DUSDC amount.'')]
      | Some a \<Rightarrow> (if a \<le> 0 then [Toast (toast_error ''Enter a positive DUSDC amount.'')]
                  else [GetCoins address (dusdc_type_tag deploy)]))"

definition insufficient_text :: "int \<Rightarrow> int \<Rightarrow> string" where
  "insufficient_text tot amount =
     ''Insufficient DUSDC. You have '' @ formatDusdc tot @ ''; this deposit requires '' @ formatDusdc amount @ ''.''"

definition deposit_coins :: "int \<Rightarrow> (string \<times> string) list res \<Rightarrow> DepositForm \<Rightarrow> DepositForm \<times> panel_effect list" where
  "deposit_coins amount reply f =
     (case bindE reply (\<lambda>coins. bindE (sum_balances 0 coins) (\<lambda>tot. Inr (coins, tot))) of
        Inl e \<Rightarrow> (f, [Throw e])
      | Inr (coins, tot) \<Rightarrow>
          (if tot < amount then (f, [Toast (toast_error (insufficient_text tot amount))])
           else case coins of
               [] \<Rightarrow> (f, [Toast (toast_error ''No DUSDC coin objects found in this wallet.'')])
             | c # _ \<Rightarrow> (f\<lparr>coinId := Some (fst c), dialogOpen := True\<rparr>, [])))"

definition onConfirmDeposit :: "(js_number \<Rightarrow> tx_arg res) \<Rightarrow> DeployJson \<Rightarrow> DepositForm \<Rightarrow> panel_effect list" where
  "onConfirmDeposit u64 deploy f =
     (case (df_amount f, coinId f) of
        (Some amount, Some coin) \<Rightarrow>
          (case buildSupplyTx u64 deploy coin amount of Inl e \<Rightarrow> [Throw e] | Inr tx \<Rightarrow> [Sign tx])
      | _ \<Rightarrow> [])"

definition sign_failed :: "string \<Rightarrow> string \<Rightarrow> toast" where
  "sign_failed title msg =
     (if matches_ci ''reject'' msg then toast_error ''Transaction rejected. No funds moved.''
      else toast_error_desc title msg)"

definition deposit_success :: "string \<Rightarrow> DepositForm \<Rightarrow> DepositForm \<times> panel_effect list" where
  "deposit_success digest f =
     (f\<lparr>dialogOpen := False, amountStr := []\<rparr>, [Toast (toast_success ''Deposit succeeded'' digest)])"

definition deposit_error :: "string \<Rightarrow> DepositForm \<Rightarrow> DepositForm \<times> panel_effect list" where
  "deposit_error msg f = (f\<lparr>dialogOpen := False\<rparr>, [Toast (sign_failed ''Deposit failed'' msg)])"

text \<open>When the deposit button can be pressed.\<close>

definition deposit_enabled :: "bool \<Rightarrow> DepositForm \<Rightarrow> bool" where
  "deposit_enabled isPending f \<longleftrightarrow> (case df_amount f of None \<Rightarrow> False | Some a \<Rightarrow> 0 < a) \<and> \<not> isPending"

section \<open>Redemption\<close>

record RedeemForm =
  shareCoinId :: "string option"
  shareBalance :: int
  cancelDialogOpen :: bool
  fulfillDialogOpen :: bool
  requestDialogOpen :: bool

definition new_RedeemForm :: RedeemForm where
  "new_RedeemForm = \<lparr>shareCoinId = None, shareBalance = 0, cancelDialogOpen = False,
     fulfillDialogOpen = False, requestDialogOpen = False\<rparr>"

definition share_type :: "DeployJson \<Rightarrow> string" where
  "share_type deploy = package_id deploy @ ''::share::SHARE''"

text \<open>The answer to the read of the share coins; \<open>cancelled\<close> is the flag of the effect that started it.\<close>

definition share_coins :: "bool \<Rightarrow> (string \<times> string) list res \<Rightarrow> RedeemForm \<Rightarrow> RedeemForm" where
  "share_coins cancelled reply f =
     (if cancelled then f
      else case reply of
          Inl _ \<Rightarrow> f\<lparr>shareCoinId := None, shareBalance := 0\<rparr>
        | Inr [] \<Rightarrow> f\<lparr>shareCoinId := None, shareBalance := 0\<rparr>
        | Inr (c # cs) \<Rightarrow>
            (case sum_balances 0 (c # cs) of
               Inl _ \<Rightarrow> f\<lparr>shareCoinId := None, shareBalance := 0\<rparr>
             | Inr tot \<Rightarrow> f\<lparr>shareCoinId := Some (fst c), shareBalance := tot\<rparr>))"

definition hasShares :: "RedeemForm \<Rightarrow> bool" where
  "hasShares f \<longleftrightarrow> (case shareCoinId f of None \<Rightarrow> False | Some i \<Rightarrow> i \<noteq> [])"

definition no_shares :: panel_effect where
  "no_shares = Toast (toast_error ''No vault shares to redeem. Deposit first.'')"

definition onClickRequest :: "RedeemForm \<Rightarrow> RedeemForm \<times> panel_effect list" where
  "onClickRequest f = (if \<not> hasShares f then (f, [no_shares]) else (f\<lparr>requestDialogOpen := True\<rparr>, []))"

definition onConfirmRequestRedeem :: "DeployJson \<Rightarrow> RedeemForm \<Rightarrow> panel_effect list" where
  "onConfirmRequestRedeem deploy f =
     (if \<not> hasShares f then [no_shares] else [Sign (buildRedeemRequestTx deploy (the (shareCoinId f)))])"

definition onConfirmFulfill :: "DeployJson \<Rightarrow> panel_effect list" where
  "onConfirmFulfill deploy = [Sign (buildRedeemFulfillTx deploy)]"

definition onConfirmCancel :: "DeployJson \<Rightarrow> panel_effect list" where
  "onConfirmCancel deploy = [Sign (buildRedeemCancelTx deploy)]"

definition request_settled :: "string + string \<Rightarrow> RedeemForm \<Rightarrow> RedeemForm \<times> panel_effect list" where
  "request_settled r f =
     (f\<lparr>requestDialogOpen := False\<rparr>,
      [Toast (case r of Inr digest \<Rightarrow> toast_success ''Redemption requested'' digest
              | Inl msg \<Rightarrow> sign_failed ''Redemption request failed'' msg)])"

definition fulfill_settled :: "string + string \<Rightarrow> RedeemForm \<Rightarrow> RedeemForm \<times> panel_effect list" where
  "fulfill_settled r f =
     (f\<lparr>fulfillDialogOpen := False\<rparr>,
      [Toast (case r of Inr digest \<Rightarrow> toast_success ''Redemption fulfilled'' digest
              | Inl msg \<Rightarrow>
                  (if matches_ci ''reject'' msg then toast_error ''Transaction rejected. No funds moved.''
                   else if matches_ci ''cooldown'' msg \<or> matches_ci ''ecooldown'' msg
                   then toast_error ''Cooldown active. Fulfill available in N minutes.''
                   else toast_error_desc ''Fulfill failed'' msg))])"

definition cancel_settled :: "string + string \<Rightarrow> RedeemForm \<Rightarrow> RedeemForm \<times> panel_effect list" where
  "cancel_settled r f =
     (f\<lparr>cancelDialogOpen := False\<rparr>,
      [Toast (case r of Inr digest \<Rightarrow> toast_success ''Redemption canceled'' digest
              | Inl msg \<Rightarrow> sign_failed ''Cancel failed'' msg)])"

section \<open>The panel\<close>

datatype panel_view = ConnectWallet | NotDeployed | DepositAndRedeem

definition DepositWithdrawPanel :: "string option \<Rightarrow> DeployJson \<Rightarrow> panel_view" where
  "DepositWithdrawPanel account deploy =
     (if account = None then ConnectWallet else if \<not> ptb_isDeployed deploy then NotDeployed else DepositAndRedeem)"

section \<open>Deposit: one pass\<close>

lemma deposit_coins_cases:
  assumes "0 < amount"
  obtains (error) e where "deposit_coins amount reply f = (f, [Throw e])"
  | (short) coins tot where "reply = Inr coins" "sum_balances 0 coins = Inr tot" "tot < amount"
      "deposit_coins amount reply f = (f, [Toast (toast_error (insufficient_text tot amount))])"
  | (review) c cs tot where "reply = Inr (c # cs)" "sum_balances 0 (c # cs) = Inr tot" "amount \<le> tot"
      "deposit_coins amount reply f = (f\<lparr>coinId := Some (fst c), dialogOpen := True\<rparr>, [])"
proof (cases "bindE reply (\<lambda>coins. bindE (sum_balances 0 coins) (\<lambda>tot. Inr (coins, tot)))")
  case (Inl e)
  then show ?thesis using error by (simp add: deposit_coins_def)
next
  case (Inr r)
  obtain coins tot where r: "r = (coins, tot)" by (cases r) auto
  from Inr r have c: "reply = Inr coins" "sum_balances 0 coins = Inr tot" by (auto simp: bindE_eq_Inr)
  show ?thesis
  proof (cases "tot < amount")
    case True
    then show ?thesis using short c by (simp add: deposit_coins_def)
  next
    case False
    with assms c have "coins \<noteq> []" by auto
    then show ?thesis using review c False by (cases coins) (auto simp: deposit_coins_def)
  qed
qed

text \<open>C13. A deposit: with a positive amount the reply of the node either throws, or is too small in total and
  only the notice with both amounts is shown, or opens the review with the first coin; the review then signs
  exactly the supply of the typed amount from that coin. Success clears the form, a failure keeps the text,
  and both close the review. Pressing the button without a positive amount reads nothing.\<close>

theorem deposit_flow:
  assumes "df_amount f = Some amount" "0 < amount" "u64 (Num (of_int amount)) = Inr x"
    and "deposit_coins amount reply f = (f', fx)"
  shows "(\<exists>e. f' = f \<and> fx = [Throw e]) \<or>
    (\<exists>coins tot. reply = Inr coins \<and> sum_balances 0 coins = Inr tot \<and>
      (if tot < amount then f' = f \<and> fx = [Toast (toast_error (insufficient_text tot amount))]
       else fx = [] \<and> dialogOpen f' \<and> amountStr f' = amountStr f \<and> coins \<noteq> [] \<and>
         (\<exists>tx. onConfirmDeposit u64 deploy f' = [Sign tx] \<and>
            tx_commands tx = [SplitCoins (ObjArg (fst (hd coins))) [x],
              vault_command deploy (NestedArg 0 0) GasArg Supply]) \<and>
         fst (deposit_success digest f') = new_DepositForm\<lparr>coinId := coinId f'\<rparr> \<and>
         fst (deposit_error msg f') = f'\<lparr>dialogOpen := False\<rparr>))"
proof (rule deposit_coins_cases [OF assms(2), of reply f])
  fix e
  assume "deposit_coins amount reply f = (f, [Throw e])"
  with assms(4) show ?thesis by auto
next
  fix coins tot
  assume "reply = Inr coins" "sum_balances 0 coins = Inr tot" "tot < amount"
    "deposit_coins amount reply f = (f, [Toast (toast_error (insufficient_text tot amount))])"
  with assms(4) show ?thesis by auto
next
  fix c cs tot
  assume r: "reply = Inr (c # cs)" "sum_balances 0 (c # cs) = Inr tot" "amount \<le> tot"
    "deposit_coins amount reply f = (f\<lparr>coinId := Some (fst c), dialogOpen := True\<rparr>, [])"
  with assms(4) have f': "f' = f\<lparr>coinId := Some (fst c), dialogOpen := True\<rparr>" "fx = []" by auto
  have "df_amount f' = Some amount" using assms(1) by (simp add: f' df_amount_def)
  then have "\<exists>tx. onConfirmDeposit u64 deploy f' = [Sign tx] \<and>
      tx_commands tx = [SplitCoins (ObjArg (fst c)) [x],
        vault_command deploy (NestedArg 0 0) GasArg Supply]"
    using assms(3) buildSupplyTx_commands [of u64 amount x deploy "fst c" GasArg]
    by (simp add: onConfirmDeposit_def f')
  then show ?thesis using r f'
    by (auto simp: deposit_success_def deposit_error_def new_DepositForm_def)
qed

theorem deposit_flow_witness:
  "\<exists>tx. onConfirmDeposit (\<lambda>n. Inr (U64Arg n)) ptb_demo_deploy
      (fst (deposit_coins 5000000 (Inr [(''0xc'', ''9000000'')]) \<lparr>amountStr = ''5.000000'', dialogOpen = False, coinId = None\<rparr>)) = [Sign tx]
    \<and> tx_commands tx = [SplitCoins (ObjArg ''0xc'') [U64Arg (Num 5000000)],
        vault_command ptb_demo_deploy (NestedArg 0 0) GasArg Supply]"
proof -
  let ?f = "\<lparr>amountStr = ''5.000000'', dialogOpen = False, coinId = None\<rparr>"
  obtain f' fx where r: "deposit_coins 5000000 (Inr [(''0xc'', ''9000000'')]) ?f = (f', fx)" by fastforce
  have a: "df_amount ?f = Some 5000000"
    using parse_point [of "''5''" "''000000''"]
    by (simp add: df_amount_def is_digit_def digits_nat_def char_digit_def padEnd_def)
  have b: "sum_balances 0 [(''0xc'', ''9000000'')] = Inr 9000000"
    by (simp add: BigInt_literal is_digit_def digits_nat_def char_digit_def)
  have "fx = []" using r b by (simp add: deposit_coins_def)
  with deposit_flow [OF a _ _ r, of "\<lambda>n. Inr (U64Arg n)" "U64Arg (Num 5000000)" ptb_demo_deploy "[]" "[]"] b
  show ?thesis by (auto simp: r)
qed

text \<open>Only the first coin is spent although the check is on the sum: a wallet with two coins of five passes the
  check for eight and signs a split of eight from a coin of five.\<close>

lemma deposit_splits_first_coin:
  "deposit_coins 8000000 (Inr [(''0xa'', ''5000000''), (''0xb'', ''5000000'')])
       \<lparr>amountStr = ''8.000000'', dialogOpen = False, coinId = None\<rparr>
     = (\<lparr>amountStr = ''8.000000'', dialogOpen = True, coinId = Some ''0xa''\<rparr>, [])
   \<and> df_amount \<lparr>amountStr = ''8.000000'', dialogOpen = True, coinId = Some ''0xa''\<rparr> = Some 8000000"
  using parse_point [of "''8''" "''000000''"]
  by (simp add: df_amount_def deposit_coins_def BigInt_literal is_digit_def digits_nat_def char_digit_def padEnd_def)

section \<open>Deposit: interleavings\<close>

text \<open>The form with the amounts of the clicks whose coins have not been answered, the first coins of the answers
  that opened the review, and the effects so far. The user types, clicks, goes back and confirms at any
  moment the buttons allow; \<open>isPending\<close> is the state of the wallet.\<close>

record DepositRun =
  dr_form :: DepositForm
  dr_waiting :: "int list"
  dr_offered :: "string list"
  dr_log :: "panel_effect list"

definition dr_init :: DepositRun where
  "dr_init = \<lparr>dr_form = new_DepositForm, dr_waiting = [], dr_offered = [], dr_log = []\<rparr>"

inductive deposit_step ::
  "(js_number \<Rightarrow> tx_arg res) \<Rightarrow> DeployJson \<Rightarrow> string \<Rightarrow> DepositRun \<Rightarrow> DepositRun \<Rightarrow> bool"
  for u64 deploy address where
  type_amount: "deposit_step u64 deploy address r (r\<lparr>dr_form := (dr_form r)\<lparr>amountStr := s\<rparr>\<rparr>)"
| click: "deposit_enabled isPending (dr_form r) \<Longrightarrow> df_amount (dr_form r) = Some a \<Longrightarrow>
    deposit_step u64 deploy address r
      (r\<lparr>dr_waiting := dr_waiting r @ [a], dr_log := dr_log r @ onClickDeposit deploy address (dr_form r)\<rparr>)"
| answer: "i < length (dr_waiting r) \<Longrightarrow> deposit_coins (dr_waiting r ! i) reply (dr_form r) = (f, fx) \<Longrightarrow>
    deposit_step u64 deploy address r
      (r\<lparr>dr_form := f, dr_waiting := take i (dr_waiting r) @ drop (Suc i) (dr_waiting r),
         dr_offered := dr_offered r @ (case reply of Inr (c # cs) \<Rightarrow> [fst c] | _ \<Rightarrow> []), dr_log := dr_log r @ fx\<rparr>)"
| go_back: "dialogOpen (dr_form r) \<Longrightarrow> deposit_step u64 deploy address r (r\<lparr>dr_form := (dr_form r)\<lparr>dialogOpen := False\<rparr>\<rparr>)"
| confirm: "dialogOpen (dr_form r) \<Longrightarrow>
    deposit_step u64 deploy address r (r\<lparr>dr_log := dr_log r @ onConfirmDeposit u64 deploy (dr_form r)\<rparr>)"
| success: "deposit_success digest (dr_form r) = (f, fx) \<Longrightarrow>
    deposit_step u64 deploy address r (r\<lparr>dr_form := f, dr_log := dr_log r @ fx\<rparr>)"
| failure: "deposit_error msg (dr_form r) = (f, fx) \<Longrightarrow>
    deposit_step u64 deploy address r (r\<lparr>dr_form := f, dr_log := dr_log r @ fx\<rparr>)"

inductive deposit_reach :: "(js_number \<Rightarrow> tx_arg res) \<Rightarrow> DeployJson \<Rightarrow> string \<Rightarrow> DepositRun \<Rightarrow> bool"
  for u64 deploy address where
  init: "deposit_reach u64 deploy address dr_init"
| step: "deposit_reach u64 deploy address r \<Longrightarrow> deposit_step u64 deploy address r r' \<Longrightarrow> deposit_reach u64 deploy address r'"

definition effect_ok :: "(js_number \<Rightarrow> tx_arg res) \<Rightarrow> DeployJson \<Rightarrow> string list \<Rightarrow> panel_effect \<Rightarrow> bool" where
  "effect_ok u64 deploy offered fx =
     (case fx of
        Sign tx \<Rightarrow> (\<exists>coin\<in>set offered. \<exists>a\<ge>0. buildSupplyTx u64 deploy coin a = Inr tx)
      | Toast t \<Rightarrow> t \<noteq> toast_error ''No DUSDC coin objects found in this wallet.''
                   \<and> t \<noteq> toast_error ''Enter a positive DUSDC amount.''
      | _ \<Rightarrow> True)"

definition dr_inv :: "(js_number \<Rightarrow> tx_arg res) \<Rightarrow> DeployJson \<Rightarrow> DepositRun \<Rightarrow> bool" where
  "dr_inv u64 deploy r \<longleftrightarrow>
     (dialogOpen (dr_form r) \<longrightarrow> coinId (dr_form r) \<noteq> None)
     \<and> (\<forall>c. coinId (dr_form r) = Some c \<longrightarrow> c \<in> set (dr_offered r))
     \<and> (\<forall>a\<in>set (dr_waiting r). 0 < a)
     \<and> (\<forall>fx\<in>set (dr_log r). effect_ok u64 deploy (dr_offered r) fx)"

lemma effect_ok_mono: "effect_ok u64 deploy o1 fx \<Longrightarrow> set o1 \<subseteq> set o2 \<Longrightarrow> effect_ok u64 deploy o2 fx"
  by (auto simp: effect_ok_def split: panel_effect.splits)

lemma sign_failed_plain:
  "sign_failed t msg \<noteq> toast_error ''No DUSDC coin objects found in this wallet.''"
  "sign_failed t msg \<noteq> toast_error ''Enter a positive DUSDC amount.''"
  by (simp_all add: sign_failed_def)

lemma insufficient_plain:
  "insufficient_text t a \<noteq> ''No DUSDC coin objects found in this wallet.''"
  "insufficient_text t a \<noteq> ''Enter a positive DUSDC amount.''"
  by (simp_all add: insufficient_text_def)

lemma onConfirmDeposit_ok:
  assumes "\<forall>c. coinId f = Some c \<longrightarrow> c \<in> set offered" "fx \<in> set (onConfirmDeposit u64 deploy f)"
  shows "effect_ok u64 deploy offered fx"
proof -
  obtain a c where ac: "df_amount f = Some a" "coinId f = Some c"
    using assms(2) by (cases "df_amount f"; cases "coinId f") (simp_all add: onConfirmDeposit_def)
  then have "0 \<le> a" using amount_nonneg by (auto simp: df_amount_def)
  with assms ac show ?thesis
    by (cases "buildSupplyTx u64 deploy c a") (auto simp: onConfirmDeposit_def effect_ok_def)
qed

lemma deposit_coins_ok:
  assumes "0 < a" "deposit_coins a reply f = (f', fx)"
    and off: "off' = off @ (case reply of Inr (c # cs) \<Rightarrow> [fst c] | _ \<Rightarrow> [])"
    and f: "dialogOpen f \<longrightarrow> coinId f \<noteq> None" "\<forall>c. coinId f = Some c \<longrightarrow> c \<in> set off"
  shows "(\<forall>e\<in>set fx. effect_ok u64 deploy off' e) \<and> (dialogOpen f' \<longrightarrow> coinId f' \<noteq> None)
    \<and> (\<forall>c. coinId f' = Some c \<longrightarrow> c \<in> set off')"
proof (rule deposit_coins_cases [OF assms(1), of reply f])
  fix c cs tot
  assume "reply = Inr (c # cs)" "deposit_coins a reply f = (f\<lparr>coinId := Some (fst c), dialogOpen := True\<rparr>, [])"
  with assms(2) off show ?thesis by auto
qed (use assms(2) off f in \<open>auto simp: effect_ok_def insufficient_plain\<close>)

lemma deposit_step_inv:
  assumes "deposit_step u64 deploy address r r'" "dr_inv u64 deploy r"
  shows "dr_inv u64 deploy r'"
  using assms
proof (cases rule: deposit_step.cases)
  case (click isPending a)
  then have "0 < a" by (simp add: deposit_enabled_def)
  with click assms(2) show ?thesis by (auto simp: dr_inv_def onClickDeposit_def effect_ok_def)
next
  case (answer i reply f fx)
  let ?a = "dr_waiting r ! i" and ?off = "dr_offered r @ (case reply of Inr (c # cs) \<Rightarrow> [fst c] | _ \<Rightarrow> [])"
  have pos: "0 < ?a" using answer(2) assms(2) by (simp add: dr_inv_def)
  have w: "\<forall>a\<in>set (take i (dr_waiting r) @ drop (Suc i) (dr_waiting r)). 0 < a"
    using assms(2) by (auto simp: dr_inv_def dest: in_set_takeD in_set_dropD)
  have log: "\<forall>e\<in>set (dr_log r). effect_ok u64 deploy ?off e"
    using assms(2) by (auto simp: dr_inv_def intro: effect_ok_mono)
  note ok = deposit_coins_ok [OF pos answer(3) refl, of "dr_offered r" u64 deploy]
  show ?thesis using ok w log answer(1) assms(2) by (auto simp: dr_inv_def)
next
  case confirm
  with assms(2) onConfirmDeposit_ok [of "dr_form r" "dr_offered r" _ u64 deploy] show ?thesis
    by (auto simp: dr_inv_def)
next
  case (success digest f fx)
  with assms(2) show ?thesis by (auto simp: dr_inv_def deposit_success_def effect_ok_def)
next
  case (failure msg f fx)
  with assms(2) show ?thesis by (auto simp: dr_inv_def deposit_error_def effect_ok_def sign_failed_plain)
qed (auto simp: dr_inv_def)

lemma deposit_reach_inv: "deposit_reach u64 deploy address r \<Longrightarrow> dr_inv u64 deploy r"
proof (induction rule: deposit_reach.induct)
  case init
  then show ?case by (simp add: dr_inv_def dr_init_def new_DepositForm_def)
qed (auto intro: deposit_step_inv)

text \<open>Whatever the order of typing, clicks, late replies and wallet outcomes: the review is open only with a
  coin, every signed transaction is a supply of a non-negative amount from a coin that the node reported for
  this wallet, and the notices for an empty amount and an empty wallet are unreachable.\<close>

theorem deposit_signs_offered_coin:
  assumes "deposit_reach u64 deploy address r"
  shows "(dialogOpen (dr_form r) \<longrightarrow> coinId (dr_form r) \<noteq> None)
    \<and> (\<forall>tx. Sign tx \<in> set (dr_log r) \<longrightarrow> (\<exists>coin\<in>set (dr_offered r). \<exists>a\<ge>0. buildSupplyTx u64 deploy coin a = Inr tx))
    \<and> Toast (toast_error ''No DUSDC coin objects found in this wallet.'') \<notin> set (dr_log r)
    \<and> Toast (toast_error ''Enter a positive DUSDC amount.'') \<notin> set (dr_log r)"
  using deposit_reach_inv [OF assms] by (fastforce simp: dr_inv_def effect_ok_def)

theorem deposit_signs_offered_coin_witness:
  "\<exists>r. deposit_reach (\<lambda>n. Inr (U64Arg n)) ptb_demo_deploy ''0xu'' r \<and> dialogOpen (dr_form r) \<and> coinId (dr_form r) \<noteq> None"
proof -
  let ?f = "\<lparr>amountStr = ''5.000000'', dialogOpen = False, coinId = None\<rparr>"
  let ?R = "deposit_reach (\<lambda>n. Inr (U64Arg n)) ptb_demo_deploy ''0xu''"
  let ?r1 = "dr_init\<lparr>dr_form := ?f\<rparr>"
  let ?r2 = "?r1\<lparr>dr_waiting := [5000000], dr_log := [GetCoins ''0xu'' (dusdc_type_tag ptb_demo_deploy)]\<rparr>"
  let ?r3 = "?r2\<lparr>dr_form := ?f\<lparr>coinId := Some ''0xc'', dialogOpen := True\<rparr>, dr_waiting := [], dr_offered := [''0xc'']\<rparr>"
  have a: "df_amount ?f = Some 5000000"
    using parse_point [of "''5''" "''000000''"]
    by (simp add: df_amount_def is_digit_def digits_nat_def char_digit_def padEnd_def)
  have b: "sum_balances 0 [(''0xc'', ''9000000'')] = Inr 9000000"
    by (simp add: BigInt_literal is_digit_def digits_nat_def char_digit_def)
  have "?R ?r1"
    using deposit_reach.step [OF deposit_reach.init deposit_step.type_amount, of _ _ _ "''5.000000''"]
    by (simp add: dr_init_def new_DepositForm_def)
  moreover have "deposit_step (\<lambda>n. Inr (U64Arg n)) ptb_demo_deploy ''0xu'' ?r1 ?r2"
    using deposit_step.click [of False ?r1 5000000 "\<lambda>n. Inr (U64Arg n)" ptb_demo_deploy "''0xu''"] a
    by (simp add: deposit_enabled_def onClickDeposit_def dr_init_def)
  ultimately have "?R ?r2" by (rule deposit_reach.step)
  moreover have "deposit_step (\<lambda>n. Inr (U64Arg n)) ptb_demo_deploy ''0xu'' ?r2 ?r3"
    using deposit_step.answer [of 0 ?r2 "Inr [(''0xc'', ''9000000'')]" "?f\<lparr>coinId := Some ''0xc'', dialogOpen := True\<rparr>" "[]"
        "\<lambda>n. Inr (U64Arg n)" ptb_demo_deploy "''0xu''"] b
    by (simp add: deposit_coins_def dr_init_def)
  ultimately have r3: "?R ?r3" by (rule deposit_reach.step)
  with deposit_signs_offered_coin [OF r3] show ?thesis by (intro exI [of _ ?r3]) simp
qed

section \<open>Redemption: interleavings\<close>

text \<open>The share coins are read anew for each account; \<open>rr_gen\<close> numbers the reads, those below the current one
  are cancelled. \<open>rr_reply\<close> is the reply to the current read once it has come, and the log pairs each effect
  with it.\<close>

type_synonym coins_reply = "(string \<times> string) list res"

record RedeemRun =
  rr_form :: RedeemForm
  rr_gen :: nat
  rr_reading :: "nat list"
  rr_reply :: "coins_reply option"
  rr_log :: "(coins_reply option \<times> panel_effect) list"

definition rr_init :: RedeemRun where
  "rr_init = \<lparr>rr_form = new_RedeemForm, rr_gen = 0, rr_reading = [0], rr_reply = None, rr_log = []\<rparr>"

definition log_effects :: "panel_effect list \<Rightarrow> RedeemRun \<Rightarrow> RedeemRun" where
  "log_effects fx r = r\<lparr>rr_log := rr_log r @ map (Pair (rr_reply r)) fx\<rparr>"

inductive redeem_step :: "DeployJson \<Rightarrow> RedeemRun \<Rightarrow> RedeemRun \<Rightarrow> bool" for deploy where
  new_account: "redeem_step deploy r
    (r\<lparr>rr_gen := Suc (rr_gen r), rr_reading := rr_reading r @ [Suc (rr_gen r)], rr_reply := None\<rparr>)"
| reply: "g \<in> set (rr_reading r) \<Longrightarrow> redeem_step deploy r
    (r\<lparr>rr_form := share_coins (g \<noteq> rr_gen r) x (rr_form r), rr_reading := removeAll g (rr_reading r),
       rr_reply := (if g = rr_gen r then Some x else rr_reply r)\<rparr>)"
| request_click: "onClickRequest (rr_form r) = (f, fx) \<Longrightarrow> redeem_step deploy r (log_effects fx (r\<lparr>rr_form := f\<rparr>))"
| fulfill_click: "redeem_step deploy r (r\<lparr>rr_form := (rr_form r)\<lparr>fulfillDialogOpen := True\<rparr>\<rparr>)"
| cancel_click: "redeem_step deploy r (r\<lparr>rr_form := (rr_form r)\<lparr>cancelDialogOpen := True\<rparr>\<rparr>)"
| close_dialogs: "redeem_step deploy r
    (r\<lparr>rr_form := (rr_form r)\<lparr>requestDialogOpen := a \<and> requestDialogOpen (rr_form r),
       fulfillDialogOpen := b \<and> fulfillDialogOpen (rr_form r), cancelDialogOpen := c \<and> cancelDialogOpen (rr_form r)\<rparr>\<rparr>)"
| request_confirm: "requestDialogOpen (rr_form r) \<Longrightarrow>
    redeem_step deploy r (log_effects (onConfirmRequestRedeem deploy (rr_form r)) r)"
| fulfill_confirm: "fulfillDialogOpen (rr_form r) \<Longrightarrow> redeem_step deploy r (log_effects (onConfirmFulfill deploy) r)"
| cancel_confirm: "cancelDialogOpen (rr_form r) \<Longrightarrow> redeem_step deploy r (log_effects (onConfirmCancel deploy) r)"
| settled: "(f, fx) \<in> {request_settled o' (rr_form r), fulfill_settled o' (rr_form r), cancel_settled o' (rr_form r)} \<Longrightarrow>
    redeem_step deploy r (log_effects fx (r\<lparr>rr_form := f\<rparr>))"

inductive redeem_reach :: "DeployJson \<Rightarrow> RedeemRun \<Rightarrow> bool" for deploy where
  init: "redeem_reach deploy rr_init"
| step: "redeem_reach deploy r \<Longrightarrow> redeem_step deploy r r' \<Longrightarrow> redeem_reach deploy r'"

text \<open>What a reply says about the shares: the first coin and the sum, or nothing.\<close>

definition shares_of :: "coins_reply \<Rightarrow> string option \<times> int" where
  "shares_of x = (let f = share_coins False x new_RedeemForm in (shareCoinId f, shareBalance f))"

lemma share_coins_shares:
  "(shareCoinId (share_coins False x f), shareBalance (share_coins False x f)) = shares_of x"
  by (auto simp: shares_of_def share_coins_def Let_def split: sum.splits list.splits)

definition log_ok :: "DeployJson \<Rightarrow> coins_reply option \<times> panel_effect \<Rightarrow> bool" where
  "log_ok deploy e \<longleftrightarrow>
     (case e of
        (Some x, Sign tx) \<Rightarrow>
          tx \<in> {buildRedeemFulfillTx deploy, buildRedeemCancelTx deploy}
          \<or> (\<exists>coin. fst (shares_of x) = Some coin \<and> tx = buildRedeemRequestTx deploy coin)
      | _ \<Rightarrow> True)"

definition rr_inv :: "DeployJson \<Rightarrow> RedeemRun \<Rightarrow> bool" where
  "rr_inv deploy r \<longleftrightarrow>
     (\<forall>x. rr_reply r = Some x \<longrightarrow>
        (shareCoinId (rr_form r), shareBalance (rr_form r)) = shares_of x \<and> rr_gen r \<notin> set (rr_reading r))
     \<and> (\<forall>g\<in>set (rr_reading r). g \<le> rr_gen r)
     \<and> (\<forall>e\<in>set (rr_log r). log_ok deploy e)"

lemma log_effects_inv:
  assumes "rr_inv deploy r" "\<forall>fx'\<in>set fx. log_ok deploy (rr_reply r, fx')"
  shows "rr_inv deploy (log_effects fx r)"
  using assms by (auto simp: rr_inv_def log_effects_def)

lemma toast_log_ok [simp]: "log_ok deploy (x, Toast t)"
  by (simp add: log_ok_def split: option.splits)

lemma redeem_form_inv:
  assumes "rr_inv deploy r" "shareCoinId f = shareCoinId (rr_form r)" "shareBalance f = shareBalance (rr_form r)"
  shows "rr_inv deploy (r\<lparr>rr_form := f\<rparr>)"
  using assms by (simp add: rr_inv_def)

lemma redeem_step_inv:
  assumes "redeem_step deploy r r'" "rr_inv deploy r"
  shows "rr_inv deploy r'"
  using assms
proof (cases rule: redeem_step.cases)
  case new_account
  with assms(2) show ?thesis by (auto simp: rr_inv_def intro: le_SucI)
next
  case (reply g x)
  with assms(2) share_coins_shares [of x "rr_form r"] show ?thesis
    by (auto simp: rr_inv_def share_coins_def [of True])
next
  case (request_click f fx)
  then show ?thesis using assms(2)
    by (auto simp: onClickRequest_def no_shares_def intro!: log_effects_inv redeem_form_inv split: if_splits)
next
  case request_confirm
  have "\<forall>e\<in>set (onConfirmRequestRedeem deploy (rr_form r)). log_ok deploy (rr_reply r, e)"
    using assms(2)
    by (auto simp: rr_inv_def onConfirmRequestRedeem_def no_shares_def hasShares_def log_ok_def
        split: option.splits) (metis fst_conv)+
  with request_confirm assms(2) show ?thesis by (auto intro: log_effects_inv)
next
  case fulfill_confirm
  with assms(2) show ?thesis
    by (auto simp: onConfirmFulfill_def log_ok_def split: option.splits intro!: log_effects_inv)
next
  case cancel_confirm
  with assms(2) show ?thesis
    by (auto simp: onConfirmCancel_def log_ok_def split: option.splits intro!: log_effects_inv)
next
  case (settled f fx o')
  then show ?thesis using assms(2)
    by (auto simp: request_settled_def fulfill_settled_def cancel_settled_def intro!: log_effects_inv redeem_form_inv)
qed (auto intro!: redeem_form_inv)

text \<open>C24. The redeem form follows the account: once the read for the current account has been answered, the coin
  and the balance are those of that answer, whatever late replies of earlier accounts arrive, and until the
  next account change every signed request spends that coin.\<close>

theorem redeem_form_current:
  assumes "redeem_reach deploy r"
  shows "(\<forall>x. rr_reply r = Some x \<longrightarrow> (shareCoinId (rr_form r), shareBalance (rr_form r)) = shares_of x)
    \<and> (\<forall>x tx. (Some x, Sign tx) \<in> set (rr_log r) \<longrightarrow>
         tx \<in> {buildRedeemFulfillTx deploy, buildRedeemCancelTx deploy}
         \<or> (\<exists>coin. fst (shares_of x) = Some coin \<and> tx = buildRedeemRequestTx deploy coin))"
proof -
  have "rr_inv deploy r" using assms
  proof (induction rule: redeem_reach.induct)
    case init
    then show ?case by (simp add: rr_inv_def rr_init_def)
  qed (auto intro: redeem_step_inv)
  then show ?thesis by (fastforce simp: rr_inv_def log_ok_def)
qed

text \<open>A run in which the first account has a share coin and then the account changes.\<close>

definition rr_old_coin :: RedeemRun where
  "rr_old_coin = rr_init\<lparr>rr_form := share_coins False (Inr [(''0xold'', ''7'')]) new_RedeemForm, rr_reading := [],
     rr_reply := Some (Inr [(''0xold'', ''7'')])\<rparr>"

lemma rr_old_coin_reach: "redeem_reach deploy rr_old_coin"
  using redeem_reach.step [OF redeem_reach.init redeem_step.reply, of 0 deploy "Inr [(''0xold'', ''7'')]"]
  by (simp add: rr_init_def rr_old_coin_def)

lemma one_coin: "share_coins False (Inr [(c, ''7'')]) f = f\<lparr>shareCoinId := Some c, shareBalance := 7\<rparr>"
  by (simp add: share_coins_def BigInt_literal is_digit_def digits_nat_def char_digit_def)

theorem redeem_form_current_witness:
  "redeem_reach ptb_demo_deploy rr_old_coin \<and> shareCoinId (rr_form rr_old_coin) = Some ''0xold''
   \<and> (shareCoinId (rr_form rr_old_coin), shareBalance (rr_form rr_old_coin)) = shares_of (Inr [(''0xold'', ''7'')])"
  using redeem_form_current [OF rr_old_coin_reach] rr_old_coin_reach
  by (simp add: rr_old_coin_def one_coin)

text \<open>Until the read for a new account is answered the form still offers the coin of the previous account.\<close>

lemma stale_share_coin:
  "\<exists>r. redeem_reach deploy r \<and> rr_gen r = 1 \<and> rr_reply r = None
     \<and> onConfirmRequestRedeem deploy (rr_form r) = [Sign (buildRedeemRequestTx deploy ''0xold'')]"
proof -
  let ?r = "rr_old_coin\<lparr>rr_gen := 1, rr_reading := [1], rr_reply := None\<rparr>"
  have "redeem_reach deploy ?r"
    using redeem_reach.step [OF rr_old_coin_reach redeem_step.new_account, of deploy]
    by (simp add: rr_old_coin_def rr_init_def)
  then show ?thesis
    by (intro exI [of _ ?r]) (simp add: rr_old_coin_def one_coin onConfirmRequestRedeem_def hasShares_def)
qed

section \<open>The promised shares\<close>

text \<open>\<open>compute_shares_to_mint\<close> of \<open>supply.move\<close>: virtual shares on top of the total; an overflow aborts.\<close>

definition compute_shares_to_mint :: "int \<Rightarrow> int \<Rightarrow> int \<Rightarrow> int option" where
  "compute_shares_to_mint total_assets total_shares deposit =
     (let numerator = deposit * (total_shares + VIRTUAL_SHARES STRATEGY_CONSTANTS);
          denominator = total_assets + 1;
          shares = numerator div denominator
      in if shares \<le> 2 ^ 64 - 1 then Some shares else None)"

lemma div_sum_bounds:
  fixes x y d :: int
  assumes "0 < d"
  shows "x div d + y div d \<le> (x + y) div d" "(x + y) div d \<le> x div d + y div d + 1"
proof -
  have m: "0 \<le> x mod d" "x mod d < d" "0 \<le> y mod d" "y mod d < d" using assms by simp_all
  have e: "(x + y) div d = x div d + y div d + (x mod d + y mod d) div d" by (rule div_add1_eq)
  have "0 \<le> (x mod d + y mod d) div d" using m assms by (simp add: pos_imp_zdiv_nonneg_iff)
  moreover have "(x mod d + y mod d) div d < 2" using m assms by (intro div_ltI) linarith+
  ultimately show "x div d + y div d \<le> (x + y) div d" "(x + y) div d \<le> x div d + y div d + 1"
    unfolding e by linarith+
qed

text \<open>The promised shares: on a vault with shares the estimate of the deposit form leaves out the virtual
  shares of the contract, so it never promises more than is minted, and it falls short by the deposit's part
  of the virtual shares, up to one share.\<close>

theorem expected_shares_vs_minted:
  assumes "BigInt (vs_total_assets (vv_vault v)) = Inr ta" "BigInt (vs_total_shares (vv_vault v)) = Inr ts"
    and "0 \<le> ta" "0 < ts" "0 < amount" "compute_shares_to_mint ta ts amount = Some minted"
  shows "\<exists>promised. expectedShares (Some amount) (Some v) = Inr promised \<and> promised \<le> minted
    \<and> minted - promised - (amount * VIRTUAL_SHARES STRATEGY_CONSTANTS) div (ta + 1) \<in> {0, 1}"
proof -
  let ?v = "VIRTUAL_SHARES STRATEGY_CONSTANTS"
  have v: "0 \<le> ?v" by (simp add: STRATEGY_CONSTANTS_def)
  have d: "0 < ta + 1" using assms(3) by simp
  have p: "expectedShares (Some amount) (Some v) = Inr ((amount * ts) div (ta + 1))"
    using assms by (simp add: expectedShares_def sdiv_nonneg)
  have m: "minted = (amount * ts + amount * ?v) div (ta + 1)"
    using assms(6) by (simp add: compute_shares_to_mint_def Let_def distrib_left split: if_splits)
  have "0 \<le> (amount * ?v) div (ta + 1)" using d v assms(5) by (simp add: pos_imp_zdiv_nonneg_iff)
  with p div_sum_bounds [OF d, of "amount * ts" "amount * ?v"] show ?thesis unfolding m by auto
qed

definition demo_vault_view :: VaultView where
  "demo_vault_view = \<lparr>vv_vault = \<lparr>vs_vault_id = ''0xv'', vs_balance = ''9000000'',
     vs_total_assets = ''10000000'', vs_total_shares = ''1000000'', vs_paused = False, vs_last_updated_ms = ''17''\<rparr>, navPerShareScaled = 0, utilizationBps = 0, vv_lastUpdatedMs = None\<rparr>"

theorem expected_shares_vs_minted_witness:
  "\<exists>promised. expectedShares (Some 5000000) (Some demo_vault_view) = Inr promised \<and> promised \<le> 999999"
proof -
  have t: "BigInt (vs_total_assets (vv_vault demo_vault_view)) = Inr 10000000"
    "BigInt (vs_total_shares (vv_vault demo_vault_view)) = Inr 1000000"
    by (simp_all add: demo_vault_view_def BigInt_literal is_digit_def digits_nat_def char_digit_def)
  have "compute_shares_to_mint 10000000 1000000 5000000 = Some 999999"
    by (simp add: compute_shares_to_mint_def STRATEGY_CONSTANTS_def)
  then show ?thesis using expected_shares_vs_minted [OF t, of 5000000 999999] by auto
qed

text \<open>Half of what is minted is promised to that depositor, and a vault without shares promises the amount.\<close>

lemma promised_half:
  "expectedShares (Some 5000000) (Some demo_vault_view) = Inr 499999
   \<and> compute_shares_to_mint 10000000 1000000 5000000 = Some 999999
   \<and> expectedShares (Some 5000000) None = Inr 5000000 \<and> compute_shares_to_mint 10000000 0 5000000 = Some 499999"
  by (simp add: expectedShares_def compute_shares_to_mint_def demo_vault_view_def STRATEGY_CONSTANTS_def
      BigInt_literal is_digit_def digits_nat_def char_digit_def sdiv_nonneg)

end
