(* ===== verification/ScriptMonad.thy ===== *)
theory ScriptMonad
  imports Prelude
begin

text \<open>
  A script that talks to a node: the list of its visible effects in order, and how it ends. An exception
  stops the script and keeps the effects made so far. The kind of effect is a parameter, each script
  chooses its own.
\<close>

type_synonym ('e, 'a) run = "'e list \<times> 'a res"

definition bindW :: "('e, 'a) run \<Rightarrow> ('a \<Rightarrow> ('e, 'b) run) \<Rightarrow> ('e, 'b) run" where
  "bindW m f = (case snd m of Inl e \<Rightarrow> (fst m, Inl e) | Inr v \<Rightarrow> (fst m @ fst (f v), snd (f v)))"

definition ret :: "'a \<Rightarrow> ('e, 'a) run" where
  "ret v = ([], Inr v)"

definition emits :: "'e \<Rightarrow> ('e, unit) run" where
  "emits e = ([e], Inr ())"

definition await :: "'a res \<Rightarrow> ('e, 'a) run" where
  "await r = ([], r)"

definition require :: "bool \<Rightarrow> string \<Rightarrow> ('e, unit) run" where
  "require b msg = ([], if b then Inr () else Inl (Error msg))"

lemma bindW_eq_Inr:
  "bindW m f = (fx, Inr v) \<longleftrightarrow> (\<exists>fx1 fx2 u. m = (fx1, Inr u) \<and> f u = (fx2, Inr v) \<and> fx = fx1 @ fx2)"
proof (cases m)
  case (Pair fx1 r)
  then show ?thesis by (cases r) (auto simp: bindW_def, metis prod.collapse)
qed

lemma bindW_simps:
  "bindW (fx, Inl e) f = (fx, Inl e)" "bindW (fx, Inr v) f = (fx @ fst (f v), snd (f v))"
  by (simp_all add: bindW_def)

lemma bindW_assoc: "bindW (bindW m f) g = bindW m (\<lambda>v. bindW (f v) g)"
  by (cases m; cases "snd m"; cases "snd (f (projr (snd m)))") (auto simp: bindW_def)

lemmas script_atoms = bindW_simps ret_def emits_def await_def require_def

lemmas script_Inr = bindW_eq_Inr ret_def emits_def await_def require_def

end
