(* ===== verification/VaultScripts.thy ===== *)
theory VaultScripts
  imports DepositPanel ScriptMonad
begin

text \<open>
  \<open>scripts/testnet-smoke-test.ts\<close>, \<open>scripts/mainnet-smoke-test.ts\<close> and \<open>scripts/e2e-vault-cycle.ts\<close>: the drivers
  that take a deposit through the deployed vault and judge the outcome. A script is the list of its effects in
  order (transactions submitted, checkpoints printed, waits) and how it ends; the replies of the node are
  arguments. The text that \<open>JSON.stringify\<close> appends to an error message is left out.
\<close>

section \<open>Scripts\<close>

datatype script_effect =
    Submit Transaction
  | Checkpoint string
  | Sleep int

type_synonym 'a script = "(script_effect, 'a) run"

section \<open>Replies\<close>

record ExecResult =
  xr_status :: "string option"
  xr_events :: "(string \<times> json option) list"
  xr_digest :: string

text \<open>The three fields of the vault as the node shows them; \<open>BigInt\<close> of their text is taken where they are used.\<close>

record SnapshotJson =
  sj_balance :: json
  sj_total_assets :: json
  sj_total_shares :: json

definition snapshotVault :: "ObjectContent option \<Rightarrow> SnapshotJson" where
  "snapshotVault content =
     (let fs = (case content_fields content of None \<Rightarrow> JObj [] | Some f \<Rightarrow> f);
          get = (\<lambda>k. the (nullish (json_prop (Some fs) k) (Some (JStr ''0''))))
      in \<lparr>sj_balance = get ''balance'', sj_total_assets = get ''total_assets'', sj_total_shares = get ''total_shares_supply''\<rparr>)"

fun find_coin :: "int \<Rightarrow> (string \<times> string) list \<Rightarrow> string option res" where
  "find_coin minBalance [] = Inr None"
| "find_coin minBalance ((i, b) # cs) =
     bindE (BigInt b) (\<lambda>v. if v \<ge> minBalance then Inr (Some i) else find_coin minBalance cs)"

definition findDepositCoin :: "(string \<times> string) list \<Rightarrow> int \<Rightarrow> string res" where
  "findDepositCoin coins minBalance =
     bindE (find_coin minBalance coins) (\<lambda>c.
       case c of None \<Rightarrow> Inl (Error ''No Coin with balance >= minBalance found'') | Some i \<Rightarrow> Inr i)"

definition totalCoinBalance :: "(string \<times> string) list \<Rightarrow> int res" where
  "totalCoinBalance coins = sum_balances 0 coins"

definition navPerShareScaled1e9 :: "SnapshotJson \<Rightarrow> int res" where
  "navPerShareScaled1e9 snap =
     bindE (BigInt_String (sj_total_assets snap)) (\<lambda>ta.
     bindE (BigInt_String (sj_total_shares snap)) (\<lambda>ts.
     Inr (if ts = 0 then 0 else (ta * 1000000000) sdiv ts)))"

text \<open>The field of a found event; a missing or malformed one counts as zero.\<close>

definition parseU64Field :: "json option \<Rightarrow> string \<Rightarrow> int" where
  "parseU64Field parsedJson fieldName =
     (if \<not> js_truthy parsedJson then 0
      else case nullish (json_prop parsedJson fieldName) None of
          None \<Rightarrow> 0
        | Some raw \<Rightarrow> (case BigInt_String raw of Inl _ \<Rightarrow> 0 | Inr v \<Rightarrow> v))"

definition find_event :: "string \<Rightarrow> ExecResult \<Rightarrow> (string \<times> json option) option" where
  "find_event suf r = find (\<lambda>e. starts_with (rev suf) (rev (fst e))) (xr_events r)"

section \<open>The smoke test\<close>

definition SUPPLY_AMOUNT_MICRO :: int where
  "SUPPLY_AMOUNT_MICRO = 50000000"

definition COOLDOWN_WAIT_MS :: int where
  "COOLDOWN_WAIT_MS = REDEMPTION_COOLDOWN_MS STRATEGY_CONSTANTS + 5000"

definition NAV_TOLERANCE_BPS :: int where
  "NAV_TOLERANCE_BPS = 10"

definition PER_DEPOSITOR_SLACK_BPS :: int where
  "PER_DEPOSITOR_SLACK_BPS = 10"

definition ALLOC_BPS :: int where
  "ALLOC_BPS = ALLOCATION_BPS STRATEGY_CONSTANTS"

text \<open>All replies of the node during one run, in the order they are awaited; \<open>sm_fulfill\<close> answers the attempts.\<close>

record SmokeReplies =
  sm_preCoins :: "(string \<times> string) list res"
  sm_preVault :: "ObjectContent option res"
  sm_depositCoins :: "(string \<times> string) list res"
  sm_supply :: "ExecResult res"
  sm_shareCoins :: "(string \<times> string) list res"
  sm_request :: "ExecResult res"
  sm_fulfill :: "nat \<Rightarrow> ExecResult res"
  sm_postCoins :: "(string \<times> string) list res"
  sm_postVault :: "ObjectContent option res"

text \<open>The environment variables; an empty one counts as missing.\<close>

definition env_set :: "string option \<Rightarrow> bool" where
  "env_set v \<longleftrightarrow> (case v of None \<Rightarrow> False | Some s \<Rightarrow> s \<noteq> [])"

definition succeeded :: "ExecResult \<Rightarrow> bool" where
  "succeeded r \<longleftrightarrow> xr_status r = Some ''success''"

definition script_supplyTx :: "(js_number \<Rightarrow> tx_arg res) \<Rightarrow> DeployJson \<Rightarrow> string \<Rightarrow> string \<Rightarrow> int \<Rightarrow> Transaction res" where
  "script_supplyTx u64 deploy oracleSviId depositCoinId amount =
     bindE (u64 (Num (of_int amount))) (\<lambda>a.
     Inr (add_command (TypedCall (package_id deploy @ ''::supply::supply'') [dusdc_type_tag deploy]
            [SharedRefArg (vault_id deploy) (vault_initial_shared_version deploy) True,
             ObjArg (predict_top_level_id deploy),
             SharedRefArg (predict_manager_id deploy) (predict_manager_initial_shared_version deploy) True,
             ObjArg oracleSviId, NestedArg 0 0, ObjArg ''0x6''])
          (add_command (SplitCoins (ObjArg depositCoinId) [a]) new_Transaction)))"

definition smoke_supply ::
  "(js_number \<Rightarrow> tx_arg res) \<Rightarrow> DeployJson \<Rightarrow> string \<Rightarrow> SmokeReplies \<Rightarrow> ExecResult script" where
  "smoke_supply u64 deploy oracleSviId rp =
     bindW (await (sm_depositCoins rp)) (\<lambda>coins.
     bindW (await (findDepositCoin coins SUPPLY_AMOUNT_MICRO)) (\<lambda>coin.
     bindW (await (script_supplyTx u64 deploy oracleSviId coin SUPPLY_AMOUNT_MICRO)) (\<lambda>tx.
     bindW (emits (Submit tx)) (\<lambda>_.
     bindW (await (sm_supply rp)) (\<lambda>r.
     bindW (require (succeeded r) ''supply tx failed'') (\<lambda>_.
     bindW (emits (Checkpoint ''supply tx'')) (\<lambda>_. ret r)))))))"

definition smoke_events :: "ExecResult \<Rightarrow> unit script" where
  "smoke_events r =
     bindW (require (find_event ''::supply::Supplied'' r \<noteq> None) ''Supplied event missing from supply tx'') (\<lambda>_.
     bindW (require (find_event ''::rebalance::HedgeMinted'' r \<noteq> None) ''HedgeMinted event missing from supply tx'') (\<lambda>_.
     emits (Checkpoint ''events Supplied+HedgeMinted'')))"

definition smoke_request :: "DeployJson \<Rightarrow> SmokeReplies \<Rightarrow> unit script" where
  "smoke_request deploy rp =
     bindW (await (sm_shareCoins rp)) (\<lambda>coins.
     bindW (require (coins \<noteq> []) ''No share coin minted after supply'') (\<lambda>_.
     bindW (emits (Submit (buildRedeemRequestTx deploy (fst (hd coins))))) (\<lambda>_.
     bindW (await (sm_request rp)) (\<lambda>r.
     bindW (require (succeeded r) ''redeem_request tx failed'') (\<lambda>_.
     bindW (require (find_event ''::redeem::RedeemRequested'' r \<noteq> None) ''RedeemRequested event missing from redeem_request tx'') (\<lambda>_.
     emits (Checkpoint ''redeem_request'')))))))"

definition smoke_wait :: "unit script" where
  "smoke_wait = bindW (emits (Sleep COOLDOWN_WAIT_MS)) (\<lambda>_. emits (Checkpoint ''cooldown wait''))"

text \<open>Up to three attempts; an attempt fails only when the call throws.\<close>

fun fulfill_attempts :: "Transaction \<Rightarrow> (nat \<Rightarrow> ExecResult res) \<Rightarrow> nat \<Rightarrow> nat \<Rightarrow> ExecResult script" where
  "fulfill_attempts tx reply attempt 0 = ([], Inl (Error ''redeem_fulfill failed after 3 attempts''))"
| "fulfill_attempts tx reply attempt (Suc left) =
     (case reply attempt of
        Inr r \<Rightarrow> ([Submit tx], Inr r)
      | Inl _ \<Rightarrow> bindW ([Submit tx, Sleep 5000], Inr ()) (\<lambda>_. fulfill_attempts tx reply (Suc attempt) left))"

definition received_for_gate :: "json option \<Rightarrow> int \<Rightarrow> int \<Rightarrow> int" where
  "received_for_gate parsedJson pre post =
     (let quotePaid = parseU64Field parsedJson ''quote_paid'';
          receivedQuote = post - (pre - SUPPLY_AMOUNT_MICRO)
      in if quotePaid > 0 then quotePaid else receivedQuote)"

definition smoke_fulfill :: "DeployJson \<Rightarrow> SmokeReplies \<Rightarrow> int \<Rightarrow> int script" where
  "smoke_fulfill deploy rp preSupplyQuoteBalance =
     bindW (fulfill_attempts (buildRedeemFulfillTx deploy) (sm_fulfill rp) 1 3) (\<lambda>r.
     bindW (require (succeeded r) ''redeem_fulfill tx failed'') (\<lambda>_.
     case find_event ''::redeem::RedeemFulfilled'' r of
       None \<Rightarrow> ([], Inl (Error ''RedeemFulfilled event missing from redeem_fulfill tx''))
     | Some e \<Rightarrow>
         bindW (await (sm_postCoins rp)) (\<lambda>coins.
         bindW (await (totalCoinBalance coins)) (\<lambda>post.
         bindW (emits (Checkpoint ''redeem_fulfill'')) (\<lambda>_.
         ret (received_for_gate (snd e) preSupplyQuoteBalance post))))))"

definition min_received :: int where
  "min_received = (SUPPLY_AMOUNT_MICRO * (10000 - ALLOC_BPS - PER_DEPOSITOR_SLACK_BPS)) sdiv 10000"

definition nav_delta_bps :: "int \<Rightarrow> int \<Rightarrow> int" where
  "nav_delta_bps navPre navPost =
     (let numer = (if navPost > navPre then navPost - navPre else navPre - navPost) * 10000
      in if navPre = 0 then 0 else numer sdiv navPre)"

definition smoke_gates :: "SmokeReplies \<Rightarrow> int \<Rightarrow> int \<Rightarrow> unit script" where
  "smoke_gates rp navPre receivedForGate =
     bindW (await (sm_postVault rp)) (\<lambda>content.
     bindW (await (navPerShareScaled1e9 (snapshotVault content))) (\<lambda>navPost.
     bindW (require (\<not> receivedForGate < min_received) ''Gate A FAIL'') (\<lambda>_.
     bindW (require (\<not> nav_delta_bps navPre navPost > NAV_TOLERANCE_BPS) ''Gate B FAIL'') (\<lambda>_.
     emits (Checkpoint ''dual +-10 bps gate'')))))"

definition smoke_cycle ::
  "(js_number \<Rightarrow> tx_arg res) \<Rightarrow> DeployJson \<Rightarrow> string \<Rightarrow> SmokeReplies \<Rightarrow> unit script" where
  "smoke_cycle u64 deploy oracleSviId rp =
     bindW (await (sm_preCoins rp)) (\<lambda>preCoins.
     bindW (await (totalCoinBalance preCoins)) (\<lambda>pre.
     bindW (await (sm_preVault rp)) (\<lambda>content.
     bindW (await (navPerShareScaled1e9 (snapshotVault content))) (\<lambda>navPre.
     bindW (emits (Checkpoint ''pre-deposit snapshot'')) (\<lambda>_.
     bindW (smoke_supply u64 deploy oracleSviId rp) (\<lambda>supplyResult.
     bindW (smoke_events supplyResult) (\<lambda>_.
     bindW (smoke_request deploy rp) (\<lambda>_.
     bindW smoke_wait (\<lambda>_.
     bindW (smoke_fulfill deploy rp pre) (\<lambda>received.
     smoke_gates rp navPre received))))))))))"

definition testnet_main ::
  "(js_number \<Rightarrow> tx_arg res) \<Rightarrow> DeployJson \<Rightarrow> string option \<Rightarrow> string option \<Rightarrow> SmokeReplies \<Rightarrow> unit script" where
  "testnet_main u64 deploy privateKey oracleSviId rp =
     bindW (require (status deploy = ''deployed'') ''TESTNET-DEPLOY.json status'') (\<lambda>_.
     bindW (require (env_set privateKey) ''SUI_PRIVATE_KEY env var required'') (\<lambda>_.
     bindW (require (env_set oracleSviId) ''ORACLE_SVI_ID env var required'') (\<lambda>_.
     smoke_cycle u64 deploy (the oracleSviId) rp)))"

text \<open>On mainnet the network is checked too, and \<open>quote_type_tag\<close> replaces \<open>dusdc_type_tag\<close>.\<close>

definition mainnet_main ::
  "(js_number \<Rightarrow> tx_arg res) \<Rightarrow> DeployJson \<Rightarrow> string \<Rightarrow> string option \<Rightarrow> string option \<Rightarrow> SmokeReplies \<Rightarrow> unit script" where
  "mainnet_main u64 deploy quote_type_tag privateKey oracleSviId rp =
     bindW (require (status deploy = ''deployed'') ''MAINNET-DEPLOY.json status'') (\<lambda>_.
     bindW (require (network deploy = ''mainnet'') ''MAINNET-DEPLOY.json network'') (\<lambda>_.
     bindW (require (env_set privateKey) ''SUI_PRIVATE_KEY env var required'') (\<lambda>_.
     bindW (require (env_set oracleSviId) ''ORACLE_SVI_ID env var required'') (\<lambda>_.
     smoke_cycle u64 (deploy\<lparr>dusdc_type_tag := quote_type_tag\<rparr>) (the oracleSviId) rp))))"

section \<open>What green means\<close>

lemma find_coin_enough:
  "find_coin m cs = Inr (Some i) \<Longrightarrow> \<exists>b v. (i, b) \<in> set cs \<and> BigInt b = Inr v \<and> m \<le> v"
proof (induction cs)
  case (Cons c cs)
  obtain j b where c: "c = (j, b)" by (cases c) auto
  from Cons.prems obtain v where v: "BigInt b = Inr v"
    "(if v \<ge> m then Inr (Some j) else find_coin m cs) = Inr (Some i)" by (auto simp: c bindE_eq_Inr)
  show ?case
  proof (cases "m \<le> v")
    case True
    with v show ?thesis by (auto simp: c)
  next
    case False
    with v Cons.IH show ?thesis by fastforce
  qed
qed simp

lemma findDepositCoin_enough:
  assumes "findDepositCoin cs m = Inr i"
  shows "\<exists>b v. (i, b) \<in> set cs \<and> BigInt b = Inr v \<and> m \<le> v"
  using assms find_coin_enough [of m cs] by (auto simp: findDepositCoin_def bindE_eq_Inr split: option.splits)

lemma fulfill_attempts_Inr:
  "fulfill_attempts tx reply a n = (fx, Inr r) \<Longrightarrow>
     \<exists>k<n. fx = concat (replicate k [Submit tx, Sleep 5000]) @ [Submit tx] \<and> reply (a + k) = Inr r"
proof (induction tx reply a n arbitrary: fx rule: fulfill_attempts.induct)
  case (2 tx reply a left)
  show ?case
  proof (cases "reply a")
    case (Inr r')
    with "2.prems" show ?thesis by (intro exI [of _ 0]) simp
  next
    case (Inl e)
    with "2.prems" obtain fx' where fx': "fulfill_attempts tx reply (Suc a) left = (fx', Inr r)"
      "fx = [Submit tx, Sleep 5000] @ fx'" by (auto simp: bindW_eq_Inr)
    from "2.IH" [OF Inl fx'(1)] obtain k where "k < left"
      "fx' = concat (replicate k [Submit tx, Sleep 5000]) @ [Submit tx]" "reply (Suc a + k) = Inr r" by blast
    with fx'(2) show ?thesis by (intro exI [of _ "Suc k"]) simp
  qed
qed simp

lemma nav_delta_bound:
  assumes "nav_delta_bps navPre navPost \<le> 10" "0 < navPre"
  shows "\<bar>navPost - navPre\<bar> * 10000 < 11 * navPre"
proof -
  have "(\<bar>navPost - navPre\<bar> * 10000) div navPre \<le> 10"
    using assms by (auto simp: nav_delta_bps_def Let_def sdiv_nonneg split: if_splits)
  then have "navPre * ((\<bar>navPost - navPre\<bar> * 10000) div navPre) \<le> navPre * 10" using assms(2) by simp
  with div_upper [OF assms(2), of "\<bar>navPost - navPre\<bar> * 10000"] show ?thesis by linarith
qed

lemma min_received_value: "min_received = 44950000"
  by (simp add: min_received_def SUPPLY_AMOUNT_MICRO_def ALLOC_BPS_def PER_DEPOSITOR_SLACK_BPS_def
      STRATEGY_CONSTANTS_def sdiv_nonneg)

lemma smoke_supply_Inr:
  assumes "smoke_supply u64 d oid rp = (fx, Inr r)"
  shows "\<exists>coins coin tx. sm_depositCoins rp = Inr coins \<and> findDepositCoin coins SUPPLY_AMOUNT_MICRO = Inr coin
    \<and> script_supplyTx u64 d oid coin SUPPLY_AMOUNT_MICRO = Inr tx \<and> fx = [Submit tx, Checkpoint ''supply tx'']
    \<and> sm_supply rp = Inr r \<and> succeeded r"
  using assms by (auto simp: smoke_supply_def script_Inr split: if_splits)

lemma smoke_request_Inr:
  assumes "smoke_request d rp = (fx, Inr u)"
  shows "\<exists>share rest r. sm_shareCoins rp = Inr (share # rest) \<and> sm_request rp = Inr r \<and> succeeded r
    \<and> fx = [Submit (buildRedeemRequestTx d (fst share)), Checkpoint ''redeem_request'']"
  using assms by (auto simp: smoke_request_def script_Inr neq_Nil_conv split: if_splits)

lemma smoke_fulfill_Inr:
  assumes "smoke_fulfill d rp pre = (fx, Inr received)"
  shows "\<exists>k r e coins post. k < 3
    \<and> fx = concat (replicate k [Submit (buildRedeemFulfillTx d), Sleep 5000])
        @ [Submit (buildRedeemFulfillTx d), Checkpoint ''redeem_fulfill'']
    \<and> sm_fulfill rp (1 + k) = Inr r \<and> succeeded r \<and> find_event ''::redeem::RedeemFulfilled'' r = Some e
    \<and> sm_postCoins rp = Inr coins \<and> totalCoinBalance coins = Inr post
    \<and> received = received_for_gate (snd e) pre post"
proof -
  from assms obtain fx1 r e coins post where f:
    "fulfill_attempts (buildRedeemFulfillTx d) (sm_fulfill rp) 1 3 = (fx1, Inr r)" "succeeded r"
    "find_event ''::redeem::RedeemFulfilled'' r = Some e" "sm_postCoins rp = Inr coins" "totalCoinBalance coins = Inr post"
    "received = received_for_gate (snd e) pre post" "fx = fx1 @ [Checkpoint ''redeem_fulfill'']"
    by (auto simp: smoke_fulfill_def script_Inr split: if_splits option.splits)
  from fulfill_attempts_Inr [OF f(1)] obtain k where "k < 3" "sm_fulfill rp (1 + k) = Inr r"
    "fx1 = concat (replicate k [Submit (buildRedeemFulfillTx d), Sleep 5000]) @ [Submit (buildRedeemFulfillTx d)]" by blast
  then show ?thesis using f(2-7)
    by (intro exI [of _ k] exI [of _ r] exI [of _ e] exI [of _ coins] exI [of _ post]) simp
qed

lemma smoke_gates_Inr:
  assumes "smoke_gates rp navPre received = (fx, Inr u)"
  shows "\<exists>content navPost. sm_postVault rp = Inr content \<and> navPerShareScaled1e9 (snapshotVault content) = Inr navPost
    \<and> min_received \<le> received \<and> nav_delta_bps navPre navPost \<le> 10 \<and> fx = [Checkpoint ''dual +-10 bps gate'']"
  using assms by (auto simp: smoke_gates_def script_Inr NAV_TOLERANCE_BPS_def not_less split: if_splits)

lemma smoke_events_Inr:
  "smoke_events r = (fx, Inr u) \<Longrightarrow>
     find_event ''::supply::Supplied'' r \<noteq> None \<and> find_event ''::rebalance::HedgeMinted'' r \<noteq> None
     \<and> fx = [Checkpoint ''events Supplied+HedgeMinted'']"
  by (auto simp: smoke_events_def script_Inr split: if_splits)

text \<open>The effects of a run that reaches its end after \<open>k\<close> failed attempts to fulfil.\<close>

definition green_log :: "DeployJson \<Rightarrow> Transaction \<Rightarrow> string \<Rightarrow> nat \<Rightarrow> script_effect list" where
  "green_log d supplyTx shareCoin k =
     [Checkpoint ''pre-deposit snapshot'', Submit supplyTx, Checkpoint ''supply tx'',
      Checkpoint ''events Supplied+HedgeMinted'', Submit (buildRedeemRequestTx d shareCoin),
      Checkpoint ''redeem_request'', Sleep COOLDOWN_WAIT_MS, Checkpoint ''cooldown wait'']
     @ concat (replicate k [Submit (buildRedeemFulfillTx d), Sleep 5000])
     @ [Submit (buildRedeemFulfillTx d), Checkpoint ''redeem_fulfill'', Checkpoint ''dual +-10 bps gate'']"

lemma smoke_cycle_log:
  assumes "smoke_cycle u64 d oid rp = (fx, Inr ())"
  shows "\<exists>coins coin b v tx share rest k. sm_depositCoins rp = Inr coins \<and> (coin, b) \<in> set coins \<and> BigInt b = Inr v
    \<and> 50000000 \<le> v \<and> script_supplyTx u64 d oid coin 50000000 = Inr tx
    \<and> sm_shareCoins rp = Inr (share # rest) \<and> k < 3 \<and> fx = green_log d tx (fst share) k"
proof -
  from assms obtain pre navPre fx1 r fx2 fx3 fx4 received fx5 where
    s: "smoke_supply u64 d oid rp = (fx1, Inr r)" "smoke_events r = (fx2, Inr ())"
    "smoke_request d rp = (fx3, Inr ())" "smoke_fulfill d rp pre = (fx4, Inr received)"
    "smoke_gates rp navPre received = (fx5, Inr ())"
    and fx: "fx = Checkpoint ''pre-deposit snapshot'' # fx1 @ fx2 @ fx3
      @ [Sleep COOLDOWN_WAIT_MS, Checkpoint ''cooldown wait''] @ fx4 @ fx5"
    by (auto simp: smoke_cycle_def smoke_wait_def script_Inr)
  from smoke_supply_Inr [OF s(1)] obtain coins coin tx where sup: "sm_depositCoins rp = Inr coins"
    "findDepositCoin coins SUPPLY_AMOUNT_MICRO = Inr coin" "script_supplyTx u64 d oid coin SUPPLY_AMOUNT_MICRO = Inr tx"
    "fx1 = [Submit tx, Checkpoint ''supply tx'']" by blast
  from findDepositCoin_enough [OF sup(2)] obtain b v where bv: "(coin, b) \<in> set coins" "BigInt b = Inr v" "50000000 \<le> v"
    by (auto simp: SUPPLY_AMOUNT_MICRO_def)
  from smoke_request_Inr [OF s(3)] obtain share rest where sh: "sm_shareCoins rp = Inr (share # rest)"
    "fx3 = [Submit (buildRedeemRequestTx d (fst share)), Checkpoint ''redeem_request'']" by blast
  from smoke_fulfill_Inr [OF s(4)] obtain k where k: "k < 3"
    "fx4 = concat (replicate k [Submit (buildRedeemFulfillTx d), Sleep 5000])
      @ [Submit (buildRedeemFulfillTx d), Checkpoint ''redeem_fulfill'']" by blast
  have "fx = green_log d tx (fst share) k"
    using smoke_events_Inr [OF s(2)] smoke_gates_Inr [OF s(5)] by (auto simp: fx sup sh k green_log_def)
  with sup bv sh k(1) show ?thesis unfolding SUPPLY_AMOUNT_MICRO_def by blast
qed

text \<open>What the gates have seen: the amount that came back and the value per share before and after.\<close>

lemma smoke_cycle_gates:
  assumes "smoke_cycle u64 d oid rp = (fx, Inr ())"
  shows "\<exists>pc pre k r e pc' post c navPre c' navPost.
    sm_preCoins rp = Inr pc \<and> totalCoinBalance pc = Inr pre \<and> k < 3 \<and> sm_fulfill rp (1 + k) = Inr r
    \<and> find_event ''::redeem::RedeemFulfilled'' r = Some e \<and> sm_postCoins rp = Inr pc' \<and> totalCoinBalance pc' = Inr post
    \<and> 44950000 \<le> received_for_gate (snd e) pre post
    \<and> sm_preVault rp = Inr c \<and> navPerShareScaled1e9 (snapshotVault c) = Inr navPre
    \<and> sm_postVault rp = Inr c' \<and> navPerShareScaled1e9 (snapshotVault c') = Inr navPost
    \<and> nav_delta_bps navPre navPost \<le> 10"
proof -
  from assms obtain pc pre c navPre fx4 received fx5 where
    p: "sm_preCoins rp = Inr pc" "totalCoinBalance pc = Inr pre"
    "sm_preVault rp = Inr c" "navPerShareScaled1e9 (snapshotVault c) = Inr navPre"
    and s: "smoke_fulfill d rp pre = (fx4, Inr received)" "smoke_gates rp navPre received = (fx5, Inr ())"
    by (auto simp: smoke_cycle_def script_Inr)
  from smoke_fulfill_Inr [OF s(1)] smoke_gates_Inr [OF s(2)] p show ?thesis
    unfolding min_received_value by blast
qed

text \<open>A vault whose shares were worth nothing: the value after the cycle is read but not compared with anything.\<close>

lemma worthless_vault_unchecked:
  assumes "smoke_cycle u64 d oid rp = (fx, Inr ())" "sm_preVault rp = Inr c" "navPerShareScaled1e9 (snapshotVault c) = Inr navPre"
    and "navPre \<le> 0" "navPerShareScaled1e9 (snapshotVault c') = Inr v"
  shows "smoke_cycle u64 d oid (rp\<lparr>sm_postVault := Inr c'\<rparr>) = (fx, Inr ())"
proof -
  have "nav_delta_bps navPre w \<le> 0" for w
  proof (cases "navPre = 0")
    case False
    define a where "a = (if w > navPre then w - navPre else navPre - w) * 10000"
    have "a sdiv (- (- navPre)) = - (a sdiv (- navPre))" by (simp add: signed_divide_int_def)
    moreover have "0 \<le> a sdiv (- navPre)" using assms(4) False by (intro sdiv_nonneg_result) (auto simp: a_def)
    ultimately show ?thesis using False by (simp add: nav_delta_bps_def a_def Let_def)
  qed (simp add: nav_delta_bps_def)
  then have "\<not> NAV_TOLERANCE_BPS < nav_delta_bps navPre w" for w
    by (metis NAV_TOLERANCE_BPS_def dual_order.strict_trans2 not_less zero_le_numeral)
  then have gates: "smoke_gates rp navPre w = (f, Inr ()) \<Longrightarrow> smoke_gates (rp\<lparr>sm_postVault := Inr c'\<rparr>) navPre w = (f, Inr ())" for w f
    using smoke_gates_Inr [of rp navPre w f] assms(5) by (auto simp: smoke_gates_def script_atoms)
  obtain pc pre f1 r f2 f3 f4 f5 received f6 where
    p: "sm_preCoins rp = Inr pc" "totalCoinBalance pc = Inr pre" "smoke_supply u64 d oid rp = (f1, Inr r)" "smoke_events r = (f2, Inr ())"
      "smoke_request d rp = (f3, Inr ())" "smoke_wait = (f4, Inr ())" "smoke_fulfill d rp pre = (f5, Inr received)"
      "smoke_gates rp navPre received = (f6, Inr ())" "fx = Checkpoint ''pre-deposit snapshot'' # f1 @ f2 @ f3 @ f4 @ f5 @ f6"
    using assms(1-3) by (auto simp: smoke_cycle_def script_Inr)
  have frame: "smoke_supply u64 d oid (rp\<lparr>sm_postVault := x\<rparr>) = smoke_supply u64 d oid rp"
    "smoke_request d (rp\<lparr>sm_postVault := x\<rparr>) = smoke_request d rp" "smoke_fulfill d (rp\<lparr>sm_postVault := x\<rparr>) pre = smoke_fulfill d rp pre" for x
    by (simp_all add: smoke_supply_def smoke_request_def smoke_fulfill_def cong: option.case_cong)
  show ?thesis using assms(2,3) by (simp add: smoke_cycle_def p frame gates [OF p(8)] script_atoms)
qed

text \<open>C22. A green smoke test: when the run ends without an error, its effects are exactly a supply of fifty units
  from a coin that holds them, a request with the first share coin, the cooldown wait, and the fulfilment in at
  most three attempts, with the seven checkpoints in order; at least 89.9 percent of the deposit came back; and
  when a share was worth something before, its value moved by less than eleven basis points. When it was
  worth nothing, as in a vault without shares, the test does not bound the move: it is green with the same effects
  for every value that the last reading of the vault may give.\<close>

theorem smoke_green:
  assumes "testnet_main u64 d key oid rp = (fx, Inr ())"
  shows "(\<exists>coins coin b v tx share rest k. sm_depositCoins rp = Inr coins \<and> (coin, b) \<in> set coins \<and> BigInt b = Inr v
      \<and> 50000000 \<le> v \<and> script_supplyTx u64 d (the oid) coin 50000000 = Inr tx
      \<and> sm_shareCoins rp = Inr (share # rest) \<and> k < 3 \<and> fx = green_log d tx (fst share) k)
    \<and> (\<exists>pc pre k r e pc' post. sm_preCoins rp = Inr pc \<and> totalCoinBalance pc = Inr pre \<and> k < 3
      \<and> sm_fulfill rp (1 + k) = Inr r \<and> find_event ''::redeem::RedeemFulfilled'' r = Some e
      \<and> sm_postCoins rp = Inr pc' \<and> totalCoinBalance pc' = Inr post
      \<and> 44950000 \<le> received_for_gate (snd e) pre post)
    \<and> (\<exists>c navPre c' navPost. sm_preVault rp = Inr c \<and> navPerShareScaled1e9 (snapshotVault c) = Inr navPre
      \<and> sm_postVault rp = Inr c' \<and> navPerShareScaled1e9 (snapshotVault c') = Inr navPost
      \<and> (0 < navPre \<longrightarrow> \<bar>navPost - navPre\<bar> * 10000 < 11 * navPre)
      \<and> (navPre \<le> 0 \<longrightarrow> (\<forall>c'' v. navPerShareScaled1e9 (snapshotVault c'') = Inr v \<longrightarrow>
            testnet_main u64 d key oid (rp\<lparr>sm_postVault := Inr c''\<rparr>) = (fx, Inr ()))))"
proof -
  from assms have c: "smoke_cycle u64 d (the oid) rp = (fx, Inr ())"
    by (auto simp: testnet_main_def script_Inr split: if_splits)
  have same: "testnet_main u64 d key oid rp' = smoke_cycle u64 d (the oid) rp'" for rp'
    using assms by (auto simp: testnet_main_def script_Inr bindW_simps require_def split: if_splits)
  obtain pc pre k r e pc' post c1 navPre c2 navPost where
    g: "sm_preCoins rp = Inr pc" "totalCoinBalance pc = Inr pre" "k < 3" "sm_fulfill rp (1 + k) = Inr r"
      "find_event ''::redeem::RedeemFulfilled'' r = Some e" "sm_postCoins rp = Inr pc'" "totalCoinBalance pc' = Inr post"
      "44950000 \<le> received_for_gate (snd e) pre post"
    and n: "sm_preVault rp = Inr c1" "navPerShareScaled1e9 (snapshotVault c1) = Inr navPre"
      "sm_postVault rp = Inr c2" "navPerShareScaled1e9 (snapshotVault c2) = Inr navPost" "nav_delta_bps navPre navPost \<le> 10"
    using smoke_cycle_gates [OF c] by blast
  have "testnet_main u64 d key oid (rp\<lparr>sm_postVault := Inr c''\<rparr>) = (fx, Inr ())"
    if "navPre \<le> 0" "navPerShareScaled1e9 (snapshotVault c'') = Inr v" for c'' v
    unfolding same by (rule worthless_vault_unchecked [OF c n(1,2) that])
  then show ?thesis using g n nav_delta_bound [OF n(5)] by (intro conjI smoke_cycle_log [OF c]) blast+
qed

definition demo_vault_content :: "ObjectContent option" where
  "demo_vault_content = Some \<lparr>oc_dataType = ''moveObject'',
     oc_fields = Some (JObj [(''balance'', JNum 5), (''total_assets'', JNum 10000000), (''total_shares_supply'', JNum 1000000)])\<rparr>"

definition demo_exec :: "(string \<times> json option) list \<Rightarrow> ExecResult" where
  "demo_exec evs = \<lparr>xr_status = Some ''success'', xr_events = evs, xr_digest = []\<rparr>"

definition demo_smoke :: SmokeReplies where
  "demo_smoke = \<lparr>sm_preCoins = Inr [], sm_preVault = Inr demo_vault_content, sm_depositCoins = Inr [(''0xc'', ''60000000'')],
     sm_supply = Inr (demo_exec [(''0xp::supply::Supplied'', None), (''0xp::rebalance::HedgeMinted'', None)]),
     sm_shareCoins = Inr [(''0xs'', ''7'')], sm_request = Inr (demo_exec [(''0xp::redeem::RedeemRequested'', None)]),
     sm_fulfill = (\<lambda>i. if i = 1 then Inl TypeError else
        Inr (demo_exec [(''0xp::redeem::RedeemFulfilled'', Some (JObj [(''quote_paid'', JNum 45000000)]))])),
     sm_postCoins = Inr [], sm_postVault = Inr demo_vault_content\<rparr>"

lemma demo_coin: "BigInt ''60000000'' = Inr 60000000"
  by (simp add: BigInt_literal is_digit_def digits_nat_def char_digit_def)

lemma demo_nav: "navPerShareScaled1e9 (snapshotVault demo_vault_content) = Inr 10000000000"
  by (simp add: demo_vault_content_def snapshotVault_def content_fields_def nullish_def jget_def
      navPerShareScaled1e9_def sdiv_nonneg)

lemma demo_smoke_green:
  "snd (testnet_main (\<lambda>n. Inr (U64Arg n)) ptb_demo_deploy (Some ''k'') (Some ''0xo'') demo_smoke) = Inr ()"
  by (simp add: testnet_main_def ptb_demo_deploy_def env_set_def smoke_cycle_def smoke_supply_def smoke_events_def
      smoke_request_def smoke_wait_def smoke_fulfill_def smoke_gates_def demo_smoke_def demo_exec_def bindW_def
      emits_def await_def require_def ret_def totalCoinBalance_def findDepositCoin_def SUPPLY_AMOUNT_MICRO_def
      demo_coin demo_nav script_supplyTx_def succeeded_def find_event_def starts_with_def numeral_3_eq_3
      received_for_gate_def parseU64Field_def nullish_def jget_def min_received_value nav_delta_bps_def NAV_TOLERANCE_BPS_def)

theorem smoke_green_witness:
  "\<exists>fx k share. testnet_main (\<lambda>n. Inr (U64Arg n)) ptb_demo_deploy (Some ''k'') (Some ''0xo'') demo_smoke = (fx, Inr ())
     \<and> k < 3 \<and> sm_shareCoins demo_smoke = Inr [share] \<and> (\<exists>tx. fx = green_log ptb_demo_deploy tx (fst share) k)"
proof -
  obtain fx where r: "testnet_main (\<lambda>n. Inr (U64Arg n)) ptb_demo_deploy (Some ''k'') (Some ''0xo'') demo_smoke = (fx, Inr ())"
    using demo_smoke_green by (metis prod.collapse)
  have "sm_shareCoins demo_smoke = Inr [(''0xs'', ''7'')]" by (simp add: demo_smoke_def)
  with smoke_green [OF r] r show ?thesis by (metis list.inject sum.inject(2))
qed

section \<open>The traced cycle\<close>

text \<open>\<open>e2e-vault-cycle.ts\<close>: the same cycle with a hundred units; every transaction is recorded between two readings
  of the vault, and the record is written to a file only when the whole cycle has succeeded.\<close>

record Action =
  ac_kind :: string
  ac_tx_digest :: string
  ac_ts_ms :: int
  ac_args :: "(string \<times> string) list"
  ac_pre :: SnapshotJson
  ac_post :: SnapshotJson
  ac_events :: "(string \<times> json option) list"

record Trace =
  tr_vault_id :: string
  tr_package_id :: string
  tr_actions :: "Action list"

definition CYCLE_SUPPLY_AMOUNT :: int where
  "CYCLE_SUPPLY_AMOUNT = 100000000"

definition COOLDOWN_MS :: int where
  "COOLDOWN_MS = 60 * 60 * 1000 + 1000"

text \<open>The replies around one transaction: the vault before, the execution, the vault after and the clock.\<close>

record TxReplies =
  tp_pre :: "ObjectContent option res"
  tp_exec :: "ExecResult res"
  tp_post :: "ObjectContent option res"
  tp_now :: int

record CycleReplies =
  cy_depositCoins :: "(string \<times> string) list res"
  cy_supply :: TxReplies
  cy_shareCoins :: "(string \<times> string) list res"
  cy_request :: TxReplies
  cy_fulfill :: TxReplies

definition traced ::
  "string \<Rightarrow> (string \<times> string) list \<Rightarrow> string list \<Rightarrow> Transaction \<Rightarrow> TxReplies \<Rightarrow> Action script" where
  "traced kind args expected tx rp =
     bindW (await (tp_pre rp)) (\<lambda>pre.
     bindW (emits (Submit tx)) (\<lambda>_.
     bindW (await (tp_exec rp)) (\<lambda>r.
     bindW (require (succeeded r) (kind @ '' failed'')) (\<lambda>_.
     bindW (require (list_all (\<lambda>suf. find_event suf r \<noteq> None) expected) ''Expected events'') (\<lambda>_.
     bindW (await (tp_post rp)) (\<lambda>post.
     ret \<lparr>ac_kind = kind, ac_tx_digest = xr_digest r, ac_ts_ms = tp_now rp, ac_args = args,
          ac_pre = snapshotVault pre, ac_post = snapshotVault post, ac_events = xr_events r\<rparr>))))))"

definition e2e_main ::
  "(js_number \<Rightarrow> tx_arg res) \<Rightarrow> DeployJson \<Rightarrow> string \<Rightarrow> string option \<Rightarrow> string option \<Rightarrow> CycleReplies \<Rightarrow> Trace script" where
  "e2e_main u64 deploy signer privateKey oracleSviId rp =
     bindW (require (status deploy = ''deployed'') ''TESTNET-DEPLOY.json status'') (\<lambda>_.
     bindW (require (env_set privateKey) ''SUI_PRIVATE_KEY env var required'') (\<lambda>_.
     bindW (require (env_set oracleSviId) ''ORACLE_SVI_ID env var required'') (\<lambda>_.
     bindW (await (cy_depositCoins rp)) (\<lambda>coins.
     bindW (await (findDepositCoin coins CYCLE_SUPPLY_AMOUNT)) (\<lambda>coin.
     bindW (await (script_supplyTx u64 deploy (the oracleSviId) coin CYCLE_SUPPLY_AMOUNT)) (\<lambda>supplyTx.
     bindW (traced ''supply'' [(''deposit_quote'', int_toString CYCLE_SUPPLY_AMOUNT)]
              [''::supply::Supplied'', ''::rebalance::HedgeMinted''] supplyTx (cy_supply rp)) (\<lambda>a1.
     bindW (await (cy_shareCoins rp)) (\<lambda>shares.
     bindW (require (shares \<noteq> []) ''No share coin minted after supply'') (\<lambda>_.
     bindW (traced ''redeem_request'' [(''user'', signer), (''share_coin_id'', fst (hd shares))] []
              (buildRedeemRequestTx deploy (fst (hd shares))) (cy_request rp)) (\<lambda>a2.
     bindW (emits (Sleep COOLDOWN_MS)) (\<lambda>_.
     bindW (traced ''redeem_fulfill'' [(''user'', signer)] [''::redeem::RedeemFulfilled'']
              (buildRedeemFulfillTx deploy) (cy_fulfill rp)) (\<lambda>a3.
     ret \<lparr>tr_vault_id = vault_id deploy, tr_package_id = package_id deploy, tr_actions = [a1, a2, a3]\<rparr>))))))))))))"

lemma traced_Inr:
  assumes "traced kind args expected tx rp = (fx, Inr a)"
  shows "fx = [Submit tx] \<and> ac_kind a = kind \<and> (\<exists>pre post r. tp_pre rp = Inr pre \<and> tp_post rp = Inr post
    \<and> tp_exec rp = Inr r \<and> succeeded r \<and> ac_pre a = snapshotVault pre \<and> ac_post a = snapshotVault post
    \<and> ac_events a = xr_events r)"
  using assms by (auto simp: traced_def script_Inr split: if_splits)

text \<open>A trace that is written has the three transactions of the cycle in order, each confirmed and between
  its own two readings, and the fulfilment comes after the cooldown.\<close>

theorem e2e_trace_complete:
  assumes "e2e_main u64 d signer key oid rp = (fx, Inr t)"
  shows "map ac_kind (tr_actions t) = [''supply'', ''redeem_request'', ''redeem_fulfill'']
    \<and> (\<exists>supplyTx share. fx = [Submit supplyTx, Submit (buildRedeemRequestTx d share), Sleep 3601000, Submit (buildRedeemFulfillTx d)])
    \<and> list_all2 (\<lambda>a tp. tp_pre tp \<in> Inr ` {c. snapshotVault c = ac_pre a} \<and> tp_post tp \<in> Inr ` {c. snapshotVault c = ac_post a}
        \<and> (\<exists>r. tp_exec tp = Inr r \<and> succeeded r))
        (tr_actions t) [cy_supply rp, cy_request rp, cy_fulfill rp]"
proof -
  from assms obtain supplyTx fx1 a1 share fx2 a2 fx3 a3 where
    s: "traced ''supply'' [(''deposit_quote'', int_toString CYCLE_SUPPLY_AMOUNT)]
          [''::supply::Supplied'', ''::rebalance::HedgeMinted''] supplyTx (cy_supply rp) = (fx1, Inr a1)"
    "traced ''redeem_request'' [(''user'', signer), (''share_coin_id'', share)] []
          (buildRedeemRequestTx d share) (cy_request rp) = (fx2, Inr a2)"
    "traced ''redeem_fulfill'' [(''user'', signer)] [''::redeem::RedeemFulfilled''] (buildRedeemFulfillTx d) (cy_fulfill rp) = (fx3, Inr a3)"
    and t: "tr_actions t = [a1, a2, a3]" and fx: "fx = fx1 @ fx2 @ [Sleep COOLDOWN_MS] @ fx3"
    by (auto simp: e2e_main_def script_Inr split: if_splits)
  note r = traced_Inr [OF s(1)] traced_Inr [OF s(2)] traced_Inr [OF s(3)]
  have "\<exists>supplyTx share. fx = [Submit supplyTx, Submit (buildRedeemRequestTx d share), Sleep 3601000, Submit (buildRedeemFulfillTx d)]"
    using r fx by (auto simp: COOLDOWN_MS_def)
  then show ?thesis using r t by auto
qed

end
