(* ===== verification/TwoProtocolDemo.thy ===== *)
theory TwoProtocolDemo
  imports VaultScripts
begin

text \<open>
  \<open>scripts/two-protocol-ptb-demo.ts\<close>: one transaction that borrows against collateral in a margin account and
  supplies the borrowed coin to the vault. The builder is compared with the parameter lists of
  \<open>margin_manager.move\<close>. Optional fields of the deploy file are options; an empty string and a zero count as absent.
\<close>

section \<open>The deploy file\<close>

record MarginDeploy =
  md_vault :: DeployJson
  margin_pkg :: "string option"
  margin_registry_id :: "string option"
  margin_registry_version :: "int option"
  btc_margin_pool_id :: "string option"
  btc_margin_pool_version :: "int option"
  dusdc_margin_pool_id :: "string option"
  dusdc_margin_pool_version :: "int option"
  btc_oracle_id :: "string option"
  usdc_oracle_id :: "string option"
  deepbook_pool_id :: "string option"
  deepbook_pool_version :: "int option"
  btc_type_tag :: "string option"

definition num_set :: "int option \<Rightarrow> bool" where
  "num_set v \<longleftrightarrow> (case v of None \<Rightarrow> False | Some n \<Rightarrow> n \<noteq> 0)"

definition COLLATERAL_AMOUNT_MICRO :: int where
  "COLLATERAL_AMOUNT_MICRO = 200000000000"

definition BORROW_AMOUNT_MICRO :: int where
  "BORROW_AMOUNT_MICRO = 100000000"

section \<open>The margin account\<close>

text \<open>An object change of the setup transaction: kind, identifier and type.\<close>

type_synonym object_change = "string \<times> string option \<times> string option"

definition isCreatedMarginManager :: "object_change \<Rightarrow> bool" where
  "isCreatedMarginManager = (\<lambda>(kind, objectId, objectType).
     kind = ''created'' \<and> objectId \<noteq> None
     \<and> (case objectType of None \<Rightarrow> False | Some t \<Rightarrow> contains ''::margin_manager::MarginManager<'' t))"

definition setup_tx :: "MarginDeploy \<Rightarrow> Transaction" where
  "setup_tx d = add_command
     (TypedCall (the (margin_pkg d) @ ''::margin_manager::new_margin_manager'')
        [the (btc_type_tag d), dusdc_type_tag (md_vault d)]
        [SharedRefArg (the (margin_registry_id d)) (the (margin_registry_version d)) False]) new_Transaction"

definition setupBalanceManagerWithTradeCap ::
  "string option \<Rightarrow> MarginDeploy \<Rightarrow> (ExecResult \<times> object_change list) res \<Rightarrow> string script" where
  "setupBalanceManagerWithTradeCap envMmId d reply =
     bindW (require (env_set (margin_pkg d) \<and> env_set (margin_registry_id d) \<and> num_set (margin_registry_version d))
              ''setupBalanceManagerWithTradeCap: TESTNET-DEPLOY.json missing Margin fields'') (\<lambda>_.
     if env_set envMmId then ret (the envMmId)
     else
       bindW (require (env_set (btc_type_tag d)) ''setupBalanceManagerWithTradeCap: TESTNET-DEPLOY.json missing btc_type_tag'') (\<lambda>_.
       bindW (emits (Submit (setup_tx d))) (\<lambda>_.
       bindW (await reply) (\<lambda>(r, changes).
       bindW (require (succeeded r) ''setupBalanceManagerWithTradeCap: setup tx failed'') (\<lambda>_.
       case find isCreatedMarginManager changes of
         None \<Rightarrow> await (Inl (Error ''setupBalanceManagerWithTradeCap: no MarginManager object created in setup tx''))
       | Some (_, i, _) \<Rightarrow> ret (the i))))))"

section \<open>The transaction\<close>

definition margin_fields :: "MarginDeploy \<Rightarrow> bool" where
  "margin_fields d \<longleftrightarrow>
     env_set (margin_pkg d) \<and> env_set (margin_registry_id d) \<and> num_set (margin_registry_version d)
     \<and> env_set (btc_margin_pool_id d) \<and> num_set (btc_margin_pool_version d)
     \<and> env_set (dusdc_margin_pool_id d) \<and> num_set (dusdc_margin_pool_version d)
     \<and> env_set (btc_oracle_id d) \<and> env_set (usdc_oracle_id d)
     \<and> env_set (deepbook_pool_id d) \<and> num_set (deepbook_pool_version d) \<and> env_set (btc_type_tag d)"

definition buildPtb ::
  "(js_number \<Rightarrow> tx_arg res) \<Rightarrow> MarginDeploy \<Rightarrow> string \<Rightarrow> string \<Rightarrow> string \<Rightarrow> Transaction res" where
  "buildPtb u64 d marginManagerId collateralCoinId oracleSviId =
     (if \<not> margin_fields d then Inl (Error ''buildPtb: TESTNET-DEPLOY.json missing Margin fields'')
      else
        let v = md_vault d;
            dusdc = dusdc_type_tag v;
            btc = the (btc_type_tag d);
            marginRegistryArg = SharedRefArg (the (margin_registry_id d)) (the (margin_registry_version d)) False;
            btcMarginPoolArg = SharedRefArg (the (btc_margin_pool_id d)) (the (btc_margin_pool_version d)) True;
            dusdcMarginPoolArg = SharedRefArg (the (dusdc_margin_pool_id d)) (the (dusdc_margin_pool_version d)) True;
            btcOracleArg = ObjArg (the (btc_oracle_id d));
            usdcOracleArg = ObjArg (the (usdc_oracle_id d));
            deepbookPoolArg = SharedRefArg (the (deepbook_pool_id d)) (the (deepbook_pool_version d)) True;
            marginManagerArg = ObjArg marginManagerId;
            clockArg = ObjArg ''0x6'';
            pkg = the (margin_pkg d)
        in
          bindE (u64 (Num (of_int COLLATERAL_AMOUNT_MICRO))) (\<lambda>collateral.
          let tx0 = add_command (SplitCoins (ObjArg collateralCoinId) [collateral]) new_Transaction;
              btcCollat = NestedArg 0 0;
              tx1 = add_command (TypedCall (pkg @ ''::margin_manager::deposit'') [btc, dusdc, btc]
                [marginManagerArg, marginRegistryArg, btcOracleArg, usdcOracleArg, btcCollat, clockArg]) tx0
          in bindE (u64 (Num (of_int BORROW_AMOUNT_MICRO))) (\<lambda>borrow.
          let tx2 = add_command (TypedCall (pkg @ ''::margin_manager::borrow_quote'') [btc, dusdc]
                [marginManagerArg, marginRegistryArg, dusdcMarginPoolArg, btcOracleArg, usdcOracleArg,
                 deepbookPoolArg, borrow, clockArg]) tx1;
              borrowedCoin = NestedArg (length (tx_commands tx2)) 0;
              tx3 = add_command (TypedCall (pkg @ ''::margin_manager::withdraw'') [btc, dusdc, dusdc]
                [marginManagerArg, marginRegistryArg, btcMarginPoolArg, dusdcMarginPoolArg, btcOracleArg, usdcOracleArg,
                 deepbookPoolArg, borrow, clockArg]) tx2
          in Inr (add_command (TypedCall (package_id v @ ''::supply::supply'') [dusdc]
                [SharedRefArg (vault_id v) (vault_initial_shared_version v) True,
                 ObjArg (predict_top_level_id v),
                 SharedRefArg (predict_manager_id v) (predict_manager_initial_shared_version v) True,
                 ObjArg oracleSviId, borrowedCoin, clockArg]) tx3))))"

definition extractAndAssertEvents :: "ExecResult \<Rightarrow> ((string \<times> json option) \<times> (string \<times> json option) \<times> (string \<times> json option)) res" where
  "extractAndAssertEvents r =
     (case (find_event ''::margin_manager::LoanBorrowed'' r, find_event ''::supply::Supplied'' r,
            find_event ''::rebalance::HedgeMinted'' r) of
        (Some l, Some s, Some h) \<Rightarrow> Inr (l, s, h)
      | _ \<Rightarrow> Inl (Error ''Atomicity assertion FAILED''))"

section \<open>The trace\<close>

text \<open>The file that is written, with its integers as decimal strings; a missing margin package is left out.\<close>

record DemoTrace =
  dt_path :: string
  dt_vault_id :: string
  dt_package_id :: string
  dt_margin_pkg :: "string option"
  dt_tx_digest :: string
  dt_ts_ms :: string
  dt_collateral_amount :: string
  dt_borrow_amount :: string
  dt_events :: "(string \<times> json option) list"

definition dumpTrace :: "string option \<Rightarrow> MarginDeploy \<Rightarrow> string \<Rightarrow> (string \<times> json option) list \<Rightarrow> int \<Rightarrow> DemoTrace" where
  "dumpTrace traceOutPath d digest events now =
     \<lparr>dt_path = (if env_set traceOutPath then the traceOutPath else ''backtest/traces/cycle-full.json''),
      dt_vault_id = vault_id (md_vault d), dt_package_id = package_id (md_vault d), dt_margin_pkg = margin_pkg d,
      dt_tx_digest = digest, dt_ts_ms = int_toString now,
      dt_collateral_amount = int_toString COLLATERAL_AMOUNT_MICRO, dt_borrow_amount = int_toString BORROW_AMOUNT_MICRO,
      dt_events = events\<rparr>"

section \<open>The driver\<close>

text \<open>A skip ends the process with exit code zero.\<close>

datatype demo_end = Skipped | Completed DemoTrace

record DemoReplies =
  dm_setup :: "(ExecResult \<times> object_change list) res"
  dm_coins :: "(string \<times> string) list res"
  dm_exec :: "ExecResult res"
  dm_now :: int

definition demo_main ::
  "(js_number \<Rightarrow> tx_arg res) \<Rightarrow> MarginDeploy \<Rightarrow> string option \<Rightarrow> string option \<Rightarrow> string option \<Rightarrow> string option \<Rightarrow> DemoReplies \<Rightarrow> demo_end script" where
  "demo_main u64 d privateKey envOracle envMmId envOut rp =
     (if status (md_vault d) \<noteq> ''deployed'' then ret Skipped
      else if \<not> env_set (margin_pkg d) \<or> \<not> env_set (dusdc_margin_pool_id d) then ret Skipped
      else
        bindW (require (env_set privateKey) ''SUI_PRIVATE_KEY env var required'') (\<lambda>_.
        let oracleSviId = (case oracle_svi_id (md_vault d) of None \<Rightarrow> envOracle | Some i \<Rightarrow> Some i) in
        bindW (require (env_set oracleSviId) ''ORACLE_SVI_ID env var (or deploy.oracle_svi_id) required'') (\<lambda>_.
        bindW (setupBalanceManagerWithTradeCap envMmId d (dm_setup rp)) (\<lambda>marginManagerId.
        bindW (require (env_set (btc_type_tag d)) ''btc_type_tag missing from TESTNET-DEPLOY.json'') (\<lambda>_.
        bindW (await (dm_coins rp)) (\<lambda>coins.
        bindW (await (findDepositCoin coins COLLATERAL_AMOUNT_MICRO)) (\<lambda>coin.
        bindW (await (buildPtb u64 d marginManagerId coin (the oracleSviId))) (\<lambda>tx.
        bindW (emits (Submit tx)) (\<lambda>_.
        bindW (await (dm_exec rp)) (\<lambda>r.
        bindW (require (succeeded r) ''PTB failed (atomic rollback fired)'') (\<lambda>_.
        bindW (await (extractAndAssertEvents r)) (\<lambda>_.
        ret (Completed (dumpTrace envOut d (xr_digest r) (xr_events r) (dm_now rp)))))))))))))))"

section \<open>Against the margin module\<close>

datatype margin_param =
  ManagerMut | MarginRegistryRef | BasePool | QuotePool | BaseOracle | QuoteOracle | DeepPool | CoinIn | Amount | MarginClock

datatype margin_call = MDeposit | MBorrowQuote | MWithdraw

fun margin_name :: "margin_call \<Rightarrow> string" where
  "margin_name MDeposit = ''::margin_manager::deposit''"
| "margin_name MBorrowQuote = ''::margin_manager::borrow_quote''"
| "margin_name MWithdraw = ''::margin_manager::withdraw''"

fun margin_params :: "margin_call \<Rightarrow> margin_param list" where
  "margin_params MDeposit = [ManagerMut, MarginRegistryRef, BaseOracle, QuoteOracle, CoinIn, MarginClock]"
| "margin_params MBorrowQuote =
     [ManagerMut, MarginRegistryRef, QuotePool, BaseOracle, QuoteOracle, DeepPool, Amount, MarginClock]"
| "margin_params MWithdraw =
     [ManagerMut, MarginRegistryRef, BasePool, QuotePool, BaseOracle, QuoteOracle, DeepPool, Amount, MarginClock]"

text \<open>The type arguments: base and quote, and for a movement of coins the type of the coin.\<close>

fun margin_types :: "MarginDeploy \<Rightarrow> margin_call \<Rightarrow> string list" where
  "margin_types d MDeposit = [the (btc_type_tag d), dusdc_type_tag (md_vault d), the (btc_type_tag d)]"
| "margin_types d MBorrowQuote = [the (btc_type_tag d), dusdc_type_tag (md_vault d)]"
| "margin_types d MWithdraw = [the (btc_type_tag d), dusdc_type_tag (md_vault d), dusdc_type_tag (md_vault d)]"

fun margin_arg :: "MarginDeploy \<Rightarrow> string \<Rightarrow> tx_arg \<Rightarrow> tx_arg \<Rightarrow> margin_param \<Rightarrow> tx_arg" where
  "margin_arg d mm coin amount ManagerMut = ObjArg mm"
| "margin_arg d mm coin amount MarginRegistryRef = SharedRefArg (the (margin_registry_id d)) (the (margin_registry_version d)) False"
| "margin_arg d mm coin amount BasePool = SharedRefArg (the (btc_margin_pool_id d)) (the (btc_margin_pool_version d)) True"
| "margin_arg d mm coin amount QuotePool = SharedRefArg (the (dusdc_margin_pool_id d)) (the (dusdc_margin_pool_version d)) True"
| "margin_arg d mm coin amount BaseOracle = ObjArg (the (btc_oracle_id d))"
| "margin_arg d mm coin amount QuoteOracle = ObjArg (the (usdc_oracle_id d))"
| "margin_arg d mm coin amount DeepPool = SharedRefArg (the (deepbook_pool_id d)) (the (deepbook_pool_version d)) True"
| "margin_arg d mm coin amount CoinIn = coin"
| "margin_arg d mm coin amount Amount = amount"
| "margin_arg d mm coin amount MarginClock = ObjArg ''0x6''"

definition margin_command :: "MarginDeploy \<Rightarrow> string \<Rightarrow> tx_arg \<Rightarrow> tx_arg \<Rightarrow> margin_call \<Rightarrow> command" where
  "margin_command d mm coin amount c =
     TypedCall (the (margin_pkg d) @ margin_name c) (margin_types d c) (map (margin_arg d mm coin amount) (margin_params c))"

text \<open>The two-protocol transaction: it is built exactly when every margin field is present; then it splits the
  collateral, deposits it, borrows, withdraws the borrowed amount and supplies the very coin that the
  withdrawal returns, each call with the parameters its Move function declares.\<close>

theorem two_protocol_ptb:
  assumes "u64 (Num (of_int COLLATERAL_AMOUNT_MICRO)) = Inr c" "u64 (Num (of_int BORROW_AMOUNT_MICRO)) = Inr b"
  shows "if margin_fields d
    then \<exists>tx. buildPtb u64 d mm coin oid = Inr tx \<and> tx_commands tx =
      [SplitCoins (ObjArg coin) [c],
       margin_command d mm (NestedArg 0 0) b MDeposit,
       margin_command d mm (NestedArg 0 0) b MBorrowQuote,
       margin_command d mm (NestedArg 0 0) b MWithdraw,
       vault_command ((md_vault d)\<lparr>oracle_svi_id := Some oid\<rparr>) (NestedArg 3 0) GasArg Supply]
    else \<exists>e. buildPtb u64 d mm coin oid = Inl e"
  using assms
  by (simp add: buildPtb_def Let_def add_command_def new_Transaction_def margin_command_def vault_command_def numeral_3_eq_3)

definition demo_margin_deploy :: MarginDeploy where
  "demo_margin_deploy = \<lparr>md_vault = ptb_demo_deploy, margin_pkg = Some ''0xmp'', margin_registry_id = Some ''0xmr'',
     margin_registry_version = Some 1, btc_margin_pool_id = Some ''0xbp'', btc_margin_pool_version = Some 2,
     dusdc_margin_pool_id = Some ''0xqp'', dusdc_margin_pool_version = Some 3, btc_oracle_id = Some ''0xbo'',
     usdc_oracle_id = Some ''0xqo'', deepbook_pool_id = Some ''0xdp'', deepbook_pool_version = Some 4,
     btc_type_tag = Some ''0xb::btc::BTC''\<rparr>"

theorem two_protocol_ptb_witness:
  "margin_fields demo_margin_deploy \<and> (\<exists>tx. buildPtb ptb_demo_u64 demo_margin_deploy ''0xmm'' ''0xc'' ''0xo'' = Inr tx
     \<and> length (tx_commands tx) = 5)"
proof -
  have "ptb_demo_u64 (Num (of_int COLLATERAL_AMOUNT_MICRO)) = Inr (U64Arg (Num (of_int COLLATERAL_AMOUNT_MICRO)))"
    "ptb_demo_u64 (Num (of_int BORROW_AMOUNT_MICRO)) = Inr (U64Arg (Num (of_int BORROW_AMOUNT_MICRO)))"
    by (simp_all add: ptb_demo_u64_def COLLATERAL_AMOUNT_MICRO_def BORROW_AMOUNT_MICRO_def)
  note t = two_protocol_ptb [OF this, of demo_margin_deploy "''0xmm''" "''0xc''" "''0xo''"]
  have m: "margin_fields demo_margin_deploy"
    by (simp add: margin_fields_def demo_margin_deploy_def env_set_def num_set_def)
  from t m obtain tx where "buildPtb ptb_demo_u64 demo_margin_deploy ''0xmm'' ''0xc'' ''0xo'' = Inr tx"
    "length (tx_commands tx) = 5" by auto
  with m show ?thesis by blast
qed

text \<open>The margin module emits \<open>LoanBorrowedEvent\<close>; the type of such an event does not end in the name the
  script looks for, so a successful transaction fails the assertion.\<close>

lemma loan_event_suffix:
  "\<not> starts_with (rev ''::margin_manager::LoanBorrowed'') (rev (p @ ''::margin_manager::LoanBorrowedEvent''))"
  by (simp add: starts_with_def)

lemma demo_never_completes:
  assumes "dm_exec rp = Inr r" "find_event ''::margin_manager::LoanBorrowed'' r = None"
  shows "snd (demo_main u64 d key orc mm out rp) \<noteq> Inr (Completed t)"
proof
  assume "snd (demo_main u64 d key orc mm out rp) = Inr (Completed t)"
  then obtain fx where "demo_main u64 d key orc mm out rp = (fx, Inr (Completed t))" by (metis prod.collapse)
  then have "\<exists>r. dm_exec rp = Inr r \<and> (\<exists>x. extractAndAssertEvents r = Inr x)"
    by (auto simp: demo_main_def script_Inr Let_def split: if_splits)
  with assms show False by (auto simp: extractAndAssertEvents_def)
qed

text \<open>A skipped run submits nothing.\<close>

lemma demo_skip_silent: "demo_main u64 d key orc mm out rp = (fx, Inr Skipped) \<Longrightarrow> fx = []"
  by (auto simp: demo_main_def script_Inr Let_def split: if_splits)

end
