(* ===== verification/SimScenario.thy ===== *)
theory SimScenario
  imports JsData
begin

text \<open>
  \<open>scripts/deepbookv3/packages/predict/simulations/src/shared.ts\<close> and \<open>env.ts\<close>: the reader of the scenario file and
  of the settings of the simulation. The text of a file is an argument. The theory proves that the reader
  inverts the format of the file and that every row it returns is one the simulation can execute.
\<close>

section \<open>Rows\<close>

record SviRow =
  sr_a :: int
  sr_b :: int
  sr_rho :: int
  sr_rhoNegative :: bool
  sr_m :: int
  sr_mNegative :: bool
  sr_sigma :: int
  sr_riskFreeRate :: int

datatype ScenarioRow =
    UpdatePrices int int
  | UpdateSvi SviRow
  | Mint int bool int

type_synonym RawScenarioRow = "(string, string) js_Map"

definition SCENARIO_COLUMNS :: "string list" where
  "SCENARIO_COLUMNS = [''action'', ''spot'', ''forward'', ''a'', ''b'', ''rho'', ''rho_negative'', ''m'', ''m_negative'',
     ''sigma'', ''risk_free_rate'', ''strike'', ''is_up'', ''quantity'']"

definition SCENARIO_QUANTITY_SCALE :: int where
  "SCENARIO_QUANTITY_SCALE = 1000"

definition isActionName :: "string \<Rightarrow> bool" where
  "isActionName v \<longleftrightarrow> v = ''update_prices'' \<or> v = ''update_svi'' \<or> v = ''mint''"

definition line_error :: "nat \<Rightarrow> string \<Rightarrow> js_error" where
  "line_error lineNumber msg = Error (''Scenario line '' @ nat_toString lineNumber @ '': '' @ msg)"

definition requireField :: "RawScenarioRow \<Rightarrow> string \<Rightarrow> nat \<Rightarrow> string res" where
  "requireField row field lineNumber =
     (let v = (case map_get row field of Some s \<Rightarrow> s | None \<Rightarrow> [])
      in if v = [] then Inl (line_error lineNumber (''missing '' @ field)) else Inr v)"

text \<open>One or more decimal digits and nothing else.\<close>

definition all_digits :: "string \<Rightarrow> bool" where
  "all_digits s \<longleftrightarrow> s \<noteq> [] \<and> (\<forall>c\<in>set s. 48 \<le> (of_char c :: nat) \<and> (of_char c :: nat) \<le> 57)"

definition parseUnsignedInteger :: "RawScenarioRow \<Rightarrow> string \<Rightarrow> nat \<Rightarrow> int res" where
  "parseUnsignedInteger row field lineNumber =
     bindE (requireField row field lineNumber) (\<lambda>v.
       if \<not> all_digits v
       then Inl (line_error lineNumber (''expected '' @ field @ '' to be an unsigned integer, got '' @ [CHR 0x22] @ v @ [CHR 0x22]))
       else BigInt v)"

definition parseBoolean :: "RawScenarioRow \<Rightarrow> string \<Rightarrow> nat \<Rightarrow> bool res" where
  "parseBoolean row field lineNumber =
     bindE (requireField row field lineNumber) (\<lambda>v.
       if v \<noteq> ''true'' \<and> v \<noteq> ''false''
       then Inl (line_error lineNumber (''expected '' @ field @ '' to be true/false, got '' @ [CHR 0x22] @ v @ [CHR 0x22]))
       else Inr (v = ''true''))"

definition normalizeMintQuantity :: "int \<Rightarrow> nat \<Rightarrow> int res" where
  "normalizeMintQuantity rawQuantity lineNumber =
     (let normalized = rawQuantity sdiv SCENARIO_QUANTITY_SCALE
      in if normalized \<le> 0 then Inl (line_error lineNumber ''normalized mint quantity must be positive'')
         else Inr normalized)"

definition parseRow :: "RawScenarioRow \<Rightarrow> nat \<Rightarrow> ScenarioRow res" where
  "parseRow row n =
     bindE (requireField row ''action'' n) (\<lambda>action.
     if \<not> isActionName action then Inl (line_error n (''unsupported action '' @ [CHR 0x22] @ action @ [CHR 0x22]))
     else if action = ''update_prices'' then
       bindE (parseUnsignedInteger row ''spot'' n) (\<lambda>spot.
       bindE (parseUnsignedInteger row ''forward'' n) (\<lambda>forward.
       Inr (UpdatePrices spot forward)))
     else if action = ''update_svi'' then
       bindE (parseUnsignedInteger row ''a'' n) (\<lambda>a.
       bindE (parseUnsignedInteger row ''b'' n) (\<lambda>b.
       bindE (parseUnsignedInteger row ''rho'' n) (\<lambda>rho.
       bindE (parseBoolean row ''rho_negative'' n) (\<lambda>rhoNegative.
       bindE (parseUnsignedInteger row ''m'' n) (\<lambda>m.
       bindE (parseBoolean row ''m_negative'' n) (\<lambda>mNegative.
       bindE (parseUnsignedInteger row ''sigma'' n) (\<lambda>sigma.
       bindE (parseUnsignedInteger row ''risk_free_rate'' n) (\<lambda>riskFreeRate.
       Inr (UpdateSvi \<lparr>sr_a = a, sr_b = b, sr_rho = rho, sr_rhoNegative = rhoNegative, sr_m = m,
              sr_mNegative = mNegative, sr_sigma = sigma, sr_riskFreeRate = riskFreeRate\<rparr>)))))))))
     else
       bindE (parseUnsignedInteger row ''strike'' n) (\<lambda>strike.
       bindE (parseBoolean row ''is_up'' n) (\<lambda>isUp.
       bindE (parseUnsignedInteger row ''quantity'' n) (\<lambda>raw.
       bindE (normalizeMintQuantity raw n) (\<lambda>quantity.
       Inr (Mint strike isUp quantity))))))"

section \<open>The file\<close>

text \<open>The object of a line: columns without a value get the empty string, surplus values are dropped.\<close>

fun raw_row :: "string list \<Rightarrow> string list \<Rightarrow> RawScenarioRow \<Rightarrow> RawScenarioRow" where
  "raw_row [] values row = row"
| "raw_row (c # cs) [] row = raw_row cs [] (map_set c [] row)"
| "raw_row (c # cs) (v # vs) row = raw_row cs vs (map_set c (trim v) row)"

fun parse_lines :: "string list \<Rightarrow> nat \<Rightarrow> string list \<Rightarrow> ScenarioRow list res" where
  "parse_lines columns n [] = Inr []"
| "parse_lines columns n (l # ls) =
     bindE (parseRow (raw_row columns (split_string '','' l) []) n) (\<lambda>r.
     bindE (parse_lines columns (Suc n) ls) (\<lambda>rs. Inr (r # rs)))"

definition missing_column :: "string list \<Rightarrow> string option" where
  "missing_column columns = find (\<lambda>c. c \<notin> set columns) SCENARIO_COLUMNS"

definition loadScenario :: "string \<Rightarrow> ScenarioRow list res" where
  "loadScenario file =
     (let parts = split_string [CHR 0x0A] (trim (filter (\<lambda>c. c \<noteq> CHR 0x0D) file));
          columns = map trim (split_string '','' (hd parts))
      in case missing_column columns of
           Some c \<Rightarrow> Inl (Error (''Scenario header is missing required column '' @ c))
         | None \<Rightarrow> parse_lines columns 2 (tl parts))"

section \<open>Settings\<close>

type_synonym settings = "(string, string) js_Map"

text \<open>\<open>parts.join(sep)\<close>.\<close>

fun concat_with :: "string \<Rightarrow> string list \<Rightarrow> string" where
  "concat_with sep [] = []"
| "concat_with sep [x] = x"
| "concat_with sep (x # y # xs) = x @ sep @ concat_with sep (y # xs)"

definition env_line :: "string \<Rightarrow> settings \<Rightarrow> settings" where
  "env_line l env =
     (let trimmed = trim l in
      if trimmed = [] \<or> starts_with ''#'' trimmed then env
      else let parts = split_string ''='' l; key = hd parts; rest = tl parts
           in if key \<noteq> [] \<and> rest \<noteq> [] then map_set (trim key) (trim (concat_with ''='' rest)) env else env)"

definition loadEnv :: "string \<Rightarrow> settings" where
  "loadEnv file = fold env_line (split_string [CHR 0x0A] (filter (\<lambda>c. c \<noteq> CHR 0x0D) file)) []"

definition requireEnv :: "settings \<Rightarrow> string \<Rightarrow> string \<Rightarrow> string res" where
  "requireEnv env file name =
     (case map_get env name of
        Some v \<Rightarrow> (if v = [] then Inl (Error (''Missing '' @ name @ '' in '' @ file)) else Inr v)
      | None \<Rightarrow> Inl (Error (''Missing '' @ name @ '' in '' @ file)))"

record SimEnv =
  PACKAGE_ID :: string
  REGISTRY_ID :: string
  ADMIN_CAP_ID :: string
  PLP_TREASURY_CAP_ID :: string
  DUSDC_PACKAGE_ID :: string
  DUSDC_CURRENCY_ID :: string
  TREASURY_CAP_ID :: string
  ACTIVE_ADDRESS :: string
  RPC_URL :: string

definition sim_env :: "settings \<Rightarrow> string \<Rightarrow> SimEnv res" where
  "sim_env env file =
     (let get = requireEnv env file in
      bindE (get ''PACKAGE_ID'') (\<lambda>p. bindE (get ''REGISTRY_ID'') (\<lambda>r. bindE (get ''ADMIN_CAP_ID'') (\<lambda>ac.
      bindE (get ''PLP_TREASURY_CAP_ID'') (\<lambda>plp. bindE (get ''DUSDC_PACKAGE_ID'') (\<lambda>dp.
      bindE (get ''DUSDC_CURRENCY_ID'') (\<lambda>dc. bindE (get ''TREASURY_CAP_ID'') (\<lambda>tc.
      bindE (get ''ACTIVE_ADDRESS'') (\<lambda>aa. bindE (get ''RPC_URL'') (\<lambda>u.
      Inr \<lparr>PACKAGE_ID = p, REGISTRY_ID = r, ADMIN_CAP_ID = ac, PLP_TREASURY_CAP_ID = plp, DUSDC_PACKAGE_ID = dp,
           DUSDC_CURRENCY_ID = dc, TREASURY_CAP_ID = tc, ACTIVE_ADDRESS = aa, RPC_URL = u\<rparr>))))))))))"

text \<open>The search of the key store. \<open>decode\<close> stands for \<open>fromBase64\<close> and \<open>address_of\<close> for the key pair of a secret
  with its address; both may throw.\<close>

fun getSigner ::
  "(string \<Rightarrow> nat list res) \<Rightarrow> (nat list \<Rightarrow> ('k \<times> string) res) \<Rightarrow> string \<Rightarrow> string list \<Rightarrow> 'k res" where
  "getSigner decode address_of active [] = Inl (Error (''Keypair not found for '' @ active))"
| "getSigner decode address_of active (priv # keystore) =
     bindE (decode priv) (\<lambda>raw.
       case raw of
         0 # secret \<Rightarrow>
           bindE (address_of secret) (\<lambda>(pair, addr).
             if addr = active then Inr pair else getSigner decode address_of active keystore)
       | _ \<Rightarrow> getSigner decode address_of active keystore)"

section \<open>What a parsed row is\<close>

definition row_ok :: "ScenarioRow \<Rightarrow> bool" where
  "row_ok r \<longleftrightarrow>
     (case r of
        UpdatePrices spot forward \<Rightarrow> 0 \<le> spot \<and> 0 \<le> forward
      | UpdateSvi s \<Rightarrow> 0 \<le> sr_a s \<and> 0 \<le> sr_b s \<and> 0 \<le> sr_rho s \<and> 0 \<le> sr_m s \<and> 0 \<le> sr_sigma s \<and> 0 \<le> sr_riskFreeRate s
      | Mint strike isUp quantity \<Rightarrow> 0 \<le> strike \<and> 0 < quantity)"

lemma digit_char_code: "d < 10 \<Longrightarrow> (of_char (digit_char d) :: nat) = 48 + d"
  by (simp add: digit_char_def of_char_of)

lemma digit_code_char: "48 \<le> (of_char c :: nat) \<Longrightarrow> (of_char c :: nat) \<le> 57 \<Longrightarrow> \<exists>d<10. c = digit_char d"
proof -
  assume c: "48 \<le> (of_char c :: nat)" "(of_char c :: nat) \<le> 57"
  then have "of_char c - 48 < (10 :: nat)" by linarith
  with c show "\<exists>d<10. c = digit_char d" by (intro exI [of _ "of_char c - 48"]) (simp add: digit_char_def)
qed

lemma digits_parse: "(\<forall>c\<in>set s. \<exists>d<10. c = digit_char d) \<Longrightarrow> \<exists>n. parse_digits 10 acc s = Some n"
  by (induction s arbitrary: acc) (auto simp: char_digit_digit_char)

text \<open>Text of the pattern is always a literal of a non-negative integer.\<close>

lemma BigInt_all_digits:
  assumes "all_digits s"
  shows "\<exists>n. BigInt s = Inr n \<and> 0 \<le> n"
proof -
  have d: "\<exists>d<10. c = digit_char d" if "c \<in> set s" for c
    using that assms digit_code_char by (auto simp: all_digits_def)
  then have "trim s = s" using digit_char_not_space by (intro trim_id) auto
  moreover have "parse_literal s = digits_value 10 s"
    using d assms by (intro parse_literal_decimal) (auto simp: all_digits_def)
  moreover obtain n where "parse_digits 10 0 s = Some n" using d digits_parse by blast
  ultimately show ?thesis using assms by (simp add: BigInt_def digits_value_def all_digits_def)
qed

lemma parseUnsignedInteger_nonneg: "parseUnsignedInteger row f n = Inr v \<Longrightarrow> 0 \<le> v"
  using BigInt_all_digits by (fastforce simp: parseUnsignedInteger_def bindE_eq_Inr split: if_splits)

lemma normalizeMintQuantity_pos: "normalizeMintQuantity q n = Inr v \<Longrightarrow> 0 < v"
  by (auto simp: normalizeMintQuantity_def Let_def split: if_splits)

lemma parseRow_ok: "parseRow row n = Inr r \<Longrightarrow> row_ok r"
  by (auto simp: parseRow_def bindE_eq_Inr row_ok_def
      dest!: parseUnsignedInteger_nonneg normalizeMintQuantity_pos split: if_splits)

lemma parse_lines_ok: "parse_lines cols n ls = Inr rs \<Longrightarrow> length rs = length ls \<and> list_all row_ok rs"
  by (induction cols n ls arbitrary: rs rule: parse_lines.induct) (auto simp: bindE_eq_Inr dest: parseRow_ok)

section \<open>The format of the file\<close>

definition bool_text :: "bool \<Rightarrow> string" where
  "bool_text b = (if b then ''true'' else ''false'')"

fun row_values :: "ScenarioRow \<Rightarrow> string list" where
  "row_values (UpdatePrices spot forward) =
     [''update_prices'', int_toString spot, int_toString forward, [], [], [], [], [], [], [], [], [], [], []]"
| "row_values (UpdateSvi s) =
     [''update_svi'', [], [], int_toString (sr_a s), int_toString (sr_b s), int_toString (sr_rho s),
      bool_text (sr_rhoNegative s), int_toString (sr_m s), bool_text (sr_mNegative s), int_toString (sr_sigma s),
      int_toString (sr_riskFreeRate s), [], [], []]"
| "row_values (Mint strike isUp quantity) =
     [''mint'', [], [], [], [], [], [], [], [], [], [], int_toString strike, bool_text isUp,
      int_toString (quantity * SCENARIO_QUANTITY_SCALE)]"

definition csv_line :: "string list \<Rightarrow> string" where
  "csv_line vs = concat_with '','' vs"

definition csv_file :: "string \<Rightarrow> ScenarioRow list \<Rightarrow> string" where
  "csv_file eol rows = concat (map (\<lambda>vs. csv_line vs @ eol) (SCENARIO_COLUMNS # map row_values rows))"

lemma split_from_concat_with:
  assumes "\<forall>x\<in>set (x # xs). c \<notin> set x"
  shows "split_from [c] acc (concat_with [c] (x # xs)) = (rev acc @ x) # xs"
  using assms
proof (induction xs arbitrary: x acc)
  case Nil
  then show ?case by (auto intro!: split_from_no_sep)
next
  case (Cons y ys)
  have "split_from [c] acc (x @ [c] @ t) = (rev acc @ x) # split_from [c] [] t" if "c \<notin> set x" for x t acc
    using that by (induction x arbitrary: acc) (subst split_from.simps, auto simp: starts_with_def)+
  from this [of x acc "concat_with [c] (y # ys)"] Cons show ?case by simp
qed

lemma split_concat_with:
  assumes "xs \<noteq> []" "\<forall>x\<in>set xs. c \<notin> set x"
  shows "split_string [c] (concat_with [c] xs) = xs"
  using assms split_from_concat_with [of "hd xs" "tl xs" c "[]"] by (simp add: split_string_def)

text \<open>The characters of a value: no separator, no white space.\<close>

definition plain :: "string \<Rightarrow> bool" where
  "plain s \<longleftrightarrow> (\<forall>c\<in>set s. c \<noteq> CHR '','' \<and> \<not> is_space c)"

lemma plain_no_eol: "plain s \<Longrightarrow> CHR 0x0A \<notin> set s \<and> CHR 0x0D \<notin> set s"
proof -
  have "is_space (CHR 0x0A)" "is_space (CHR 0x0D)" by (simp_all add: is_space_def)
  then show "plain s \<Longrightarrow> CHR 0x0A \<notin> set s \<and> CHR 0x0D \<notin> set s" unfolding plain_def by blast
qed

lemma plain_trim: "plain s \<Longrightarrow> trim s = s"
  by (rule trim_id) (auto simp: plain_def)

lemma plain_int [simp]: "0 \<le> i \<Longrightarrow> plain (int_toString i)"
proof -
  assume i: "0 \<le> i"
  have "c \<noteq> CHR '','' \<and> \<not> is_space c" if c: "c \<in> set (nat_toString (nat i))" for c
  proof -
    obtain d where d: "d < 10" "c = digit_char d" using nat_toString_chars [OF c] by blast
    with digit_char_code [OF d(1)] digit_char_not_space [OF d(1)] show ?thesis by auto
  qed
  with i show "plain (int_toString i)" by (simp add: plain_def int_toString_def)
qed

lemma plain_bool [simp]: "plain (bool_text b)" "plain []" "plain ''update_prices''" "plain ''update_svi''" "plain ''mint''"
  by (simp_all add: plain_def bool_text_def is_space_def)

lemma plain_columns: "\<forall>c\<in>set SCENARIO_COLUMNS. plain c"
  by (simp add: SCENARIO_COLUMNS_def plain_def is_space_def)

lemma plain_row_values: "row_ok r \<Longrightarrow> \<forall>v\<in>set (row_values r). plain v"
  by (cases r) (auto simp: row_ok_def SCENARIO_QUANTITY_SCALE_def)

lemma row_values_length: "length (row_values r) = 14" "length SCENARIO_COLUMNS = 14" "distinct SCENARIO_COLUMNS"
  by (cases r; simp) (simp_all add: SCENARIO_COLUMNS_def)

lemma raw_row_zip:
  assumes "distinct (map fst row @ cs)" "length cs = length vs"
  shows "raw_row cs vs row = row @ zip cs (map trim vs)"
  using assms by (induction cs vs row rule: raw_row.induct) (auto simp: map_set_fresh)

lemma raw_row_values:
  assumes "row_ok r"
  shows "raw_row SCENARIO_COLUMNS (row_values r) [] = zip SCENARIO_COLUMNS (row_values r)"
proof -
  have "map trim (row_values r) = row_values r"
    using plain_row_values [OF assms] plain_trim by (intro map_idI) auto
  then show ?thesis using raw_row_zip [of "[]" SCENARIO_COLUMNS "row_values r"] row_values_length by simp
qed

lemma all_digits_int: "0 \<le> i \<Longrightarrow> all_digits (int_toString i)"
  using nat_toString_digits [of "nat i"] nat_toString_chars [of _ "nat i"] digit_char_code
  by (fastforce simp: all_digits_def int_toString_def)

lemma int_toString_nonempty: "int_toString i \<noteq> []"
  using nat_toString_digits by (simp add: int_toString_def)

lemmas field_simps' = requireField_def map_get_def SCENARIO_COLUMNS_def int_toString_nonempty all_digits_int BigInt_toString
  bool_text_def isActionName_def Let_def

lemma parse_row_values: "row_ok r \<Longrightarrow> parseRow (zip SCENARIO_COLUMNS (row_values r)) n = Inr r"
proof (cases r)
  case (UpdatePrices spot forward)
  then show "row_ok r \<Longrightarrow> ?thesis" by (simp add: row_ok_def parseRow_def parseUnsignedInteger_def field_simps')
next
  case (UpdateSvi s)
  then show "row_ok r \<Longrightarrow> ?thesis"
    by (simp add: row_ok_def parseRow_def parseUnsignedInteger_def parseBoolean_def field_simps')
next
  case (Mint strike isUp quantity)
  then show "row_ok r \<Longrightarrow> ?thesis"
    by (simp add: row_ok_def parseRow_def parseUnsignedInteger_def parseBoolean_def normalizeMintQuantity_def
        SCENARIO_QUANTITY_SCALE_def sdiv_nonneg field_simps')
qed

lemma set_concat_with: "set (concat_with sep xs) \<subseteq> (\<Union>x\<in>set xs. set x) \<union> set sep"
  by (induction sep xs rule: concat_with.induct) auto

lemma csv_line_chars:
  assumes "\<forall>v\<in>set vs. plain v" "c \<in> set (csv_line vs)"
  shows "\<not> is_space c"
proof -
  have "c \<in> (\<Union>x\<in>set vs. set x) \<or> c = CHR '',''" using assms(2) set_concat_with [of "'',''" vs]
    by (auto simp: csv_line_def)
  moreover have "\<not> is_space (CHR '','')" by (simp add: is_space_def)
  ultimately show ?thesis using assms(1) by (auto simp: plain_def)
qed

lemma csv_line_split: "vs \<noteq> [] \<Longrightarrow> \<forall>v\<in>set vs. plain v \<Longrightarrow> split_string '','' (csv_line vs) = vs"
  unfolding csv_line_def by (rule split_concat_with) (auto simp: plain_def)

lemma concat_lines: "ls \<noteq> [] \<Longrightarrow> concat (map (\<lambda>l. l @ eol) ls) = concat_with eol ls @ eol"
  by (induction eol ls rule: concat_with.induct) auto

lemma dropWhile_id: "s \<noteq> [] \<Longrightarrow> \<not> P (hd s) \<Longrightarrow> dropWhile P s = s"
  by (cases s) auto

lemma trim_eol:
  assumes "s \<noteq> []" "\<not> is_space (hd s)" "\<not> is_space (last s)" "is_space c"
  shows "trim (s @ [c]) = s"
proof -
  have "dropWhile is_space (s @ [c]) = s @ [c]" using assms(1,2) by (intro dropWhile_id) auto
  moreover have "dropWhile is_space (rev s) = rev s" using assms(1,3) by (intro dropWhile_id) (auto simp: hd_rev)
  ultimately show ?thesis using assms(4) by (simp add: trim_def)
qed

lemma concat_with_ends:
  assumes "ls \<noteq> []" "\<forall>l\<in>set ls. l \<noteq> []"
  shows "concat_with sep ls \<noteq> []" "hd (concat_with sep ls) = hd (hd ls)" "last (concat_with sep ls) = last (last ls)"
  using assms by (induction sep ls rule: concat_with.induct) (auto simp: last_append)

lemma parse_csv_lines:
  assumes "list_all row_ok rows"
  shows "parse_lines SCENARIO_COLUMNS n (map (csv_line \<circ> row_values) rows) = Inr rows"
  using assms
proof (induction rows arbitrary: n)
  case (Cons r rows)
  then have r: "row_ok r" by simp
  have "row_values r \<noteq> []" using row_values_length(1) [of r] by auto
  then have "split_string '','' (csv_line (row_values r)) = row_values r"
    using plain_row_values [OF r] by (rule csv_line_split)
  with Cons r show ?case by (simp add: raw_row_values parse_row_values)
qed simp

text \<open>Lines without white space survive the removal of carriage returns, the trim and the split.\<close>

lemma read_lines:
  assumes "ls \<noteq> []" "\<forall>l\<in>set ls. l \<noteq> [] \<and> (\<forall>c\<in>set l. \<not> is_space c)"
    and "eol = [CHR 0x0A] \<or> eol = [CHR 0x0D, CHR 0x0A]"
  shows "split_string [CHR 0x0A] (trim (filter (\<lambda>c. c \<noteq> CHR 0x0D) (concat (map (\<lambda>l. l @ eol) ls)))) = ls"
proof -
  have sp: "is_space (CHR 0x0A)" "is_space (CHR 0x0D)" by (simp_all add: is_space_def)
  with assms(2) have no: "CHR 0x0A \<notin> set l \<and> CHR 0x0D \<notin> set l" if "l \<in> set ls" for l using that by blast
  have "filter (\<lambda>c. c \<noteq> CHR 0x0D) (concat (map (\<lambda>l. l @ eol) xs)) = concat (map (\<lambda>l. l @ [CHR 0x0A]) xs)"
    if "set xs \<subseteq> set ls" for xs
    using that no assms(3) by (induction xs) (auto simp: filter_id_conv)
  then have f: "filter (\<lambda>c. c \<noteq> CHR 0x0D) (concat (map (\<lambda>l. l @ eol) ls)) = concat_with [CHR 0x0A] ls @ [CHR 0x0A]"
    using concat_lines [OF assms(1), of "[CHR 0x0A]"] by simp
  have "trim (concat_with [CHR 0x0A] ls @ [CHR 0x0A]) = concat_with [CHR 0x0A] ls"
  proof (rule trim_eol)
    have "\<forall>l\<in>set ls. l \<noteq> []" using assms(2) by blast
    note e = concat_with_ends [OF assms(1) this, of "[CHR 0x0A]"]
    show "concat_with [CHR 0x0A] ls \<noteq> []" by (rule e)
    show "\<not> is_space (hd (concat_with [CHR 0x0A] ls))" "\<not> is_space (last (concat_with [CHR 0x0A] ls))"
      unfolding e using assms(1,2) by (metis hd_in_set last_in_set)+
  qed (rule sp)
  moreover have "split_string [CHR 0x0A] (concat_with [CHR 0x0A] ls) = ls"
    using no assms(1) by (intro split_concat_with) auto
  ultimately show ?thesis by (simp add: f)
qed

lemma csv_line_ok:
  assumes "\<forall>v\<in>set vs. plain v" "length vs = 14"
  shows "csv_line vs \<noteq> [] \<and> (\<forall>c\<in>set (csv_line vs). \<not> is_space c)"
proof -
  have "Suc (Suc 0) \<le> length vs" using assms(2) by simp
  then obtain a b t where "vs = a # b # t" by (auto simp: Suc_le_length_iff)
  then have "csv_line vs \<noteq> []" by (simp add: csv_line_def)
  then show ?thesis using csv_line_chars [OF assms(1)] by blast
qed

text \<open>C37. The reader of the scenario inverts its format: a file with the header of the columns and one line
  per row, with either line ending, is read back as exactly those rows.\<close>

theorem scenario_roundtrip:
  assumes "list_all row_ok rows" "eol = [CHR 0x0A] \<or> eol = [CHR 0x0D, CHR 0x0A]"
  shows "loadScenario (csv_file eol rows) = Inr rows"
proof -
  define ls where "ls = map csv_line (SCENARIO_COLUMNS # map row_values rows)"
  have "\<forall>l\<in>set ls. l \<noteq> [] \<and> (\<forall>c\<in>set l. \<not> is_space c)"
    using assms(1) csv_line_ok [OF plain_columns] csv_line_ok [OF plain_row_values] row_values_length
    by (auto simp: ls_def list_all_iff)
  moreover have "csv_file eol rows = concat (map (\<lambda>l. l @ eol) ls)" by (simp add: csv_file_def ls_def comp_def)
  ultimately have "split_string [CHR 0x0A] (trim (filter (\<lambda>c. c \<noteq> CHR 0x0D) (csv_file eol rows))) = ls"
    using assms(2) by (simp only:) (rule read_lines, simp_all add: ls_def)
  moreover have "map trim (split_string '','' (hd ls)) = SCENARIO_COLUMNS"
    using plain_columns csv_line_split [of SCENARIO_COLUMNS] plain_trim row_values_length(2)
    by (simp add: ls_def map_idI SCENARIO_COLUMNS_def)
  moreover have "missing_column SCENARIO_COLUMNS = None" by (simp add: missing_column_def find_None_iff)
  moreover have "tl ls = map (csv_line \<circ> row_values) rows" by (simp add: ls_def)
  ultimately show ?thesis using parse_csv_lines [OF assms(1)] by (simp add: loadScenario_def Let_def)
qed

theorem scenario_roundtrip_witness:
  "loadScenario (csv_file [CHR 0x0D, CHR 0x0A] [UpdatePrices 70000000000000 70010000000000, Mint 71000000000000 False 5])
     = Inr [UpdatePrices 70000000000000 70010000000000, Mint 71000000000000 False 5]"
  by (rule scenario_roundtrip) (simp_all add: row_ok_def)

text \<open>Whatever the file holds, the reader returns rows the simulation can use, one per line, or an exception.\<close>

lemma loadScenario_rows: "loadScenario file = Inr rows \<Longrightarrow> list_all row_ok rows"
  by (auto simp: loadScenario_def Let_def dest: parse_lines_ok split: option.splits)

section \<open>Settings\<close>

text \<open>A later line for the same key wins.\<close>

lemma loadEnv_last:
  assumes "trim l \<noteq> []" "\<not> starts_with ''#'' (trim l)" "split_string ''='' l = k # v # rest" "k \<noteq> []"
  shows "map_get (env_line l env) (trim k) = Some (trim (concat_with ''='' (v # rest)))"
  using assms by (simp add: env_line_def Let_def js_Map.get_put)

text \<open>The signer is the first usable key of the store with the active address.\<close>

lemma getSigner_Inr:
  "getSigner decode address_of active ks = Inr pair \<Longrightarrow>
     \<exists>i secret. i < length ks \<and> decode (ks ! i) = Inr (0 # secret) \<and> address_of secret = Inr (pair, active)"
proof (induction ks)
  case (Cons k ks)
  then obtain raw where raw: "decode k = Inr raw" by (auto simp: bindE_eq_Inr)
  have tl: "\<exists>i secret. i < length (k # ks) \<and> decode ((k # ks) ! i) = Inr (0 # secret) \<and> address_of secret = Inr (pair, active)"
    if "getSigner decode address_of active ks = Inr pair"
    using Cons.IH [OF that] by (metis Suc_less_eq length_Cons nth_Cons_Suc)
  show ?case
  proof (cases "\<exists>secret p. raw = 0 # secret \<and> address_of secret = Inr (p, active)")
    case True
    then obtain secret p where "raw = 0 # secret" "address_of secret = Inr (p, active)" by blast
    with Cons.prems raw show ?thesis by (intro exI [of _ 0] exI [of _ secret]) simp
  next
    case False
    with Cons.prems raw have "getSigner decode address_of active ks = Inr pair"
      by (auto simp: bindE_eq_Inr split: list.splits nat.splits if_splits)
    then show ?thesis by (rule tl)
  qed
qed simp

end
