(* ===== verification/SimRuntime.thy ===== *)
theory SimRuntime
  imports SimScenario SuiTx JsArith ScriptMonad
begin

text \<open>
  \<open>scripts/deepbookv3/packages/predict/simulations/src/runtime.ts\<close>: the transactions of the simulation and the two
  ways to execute them, with their retries. The answers of the node are arguments, numbered by attempt;
  \<open>stringify\<close> is the text that \<open>JSON.stringify\<close> gives for an answer. Of an exception that is not an \<open>Error\<close>
  only the name is known as text.
\<close>

section \<open>Data\<close>

record GasUsage =
  gu_computationCost :: js_number
  gu_storageCost :: js_number
  gu_storageRebate :: js_number
  gu_gasTotal :: js_number

record SimState =
  st_predictId :: string
  st_oracleId :: string
  st_oracleCapId :: string
  st_managerId :: string
  st_expiry :: string

record stats =
  stat_avg :: js_number
  stat_min :: js_number
  stat_max :: js_number

record ActionSummary =
  as_count :: nat
  as_gas :: stats
  as_wallMs :: stats

record ExecutionResult =
  xe_wallMs :: js_number
  xe_gas :: GasUsage

record ResultsFile =
  rf_schema_version :: string
  rf_totalTxs :: nat
  rf_byAction :: "(string \<times> ActionSummary) list"
  rf_mints :: "ExecutionResult list"

text \<open>What the simulation does that can be seen: a transaction is signed and executed with a gas budget, a
  transaction is read back or run dry, a wait, a file is written.\<close>

datatype sim_effect =
    Execute Transaction int
  | ReadBack string
  | DryRun
  | Delay int
  | SaveState SimState
  | SaveResults ResultsFile

definition SIM_CLOCK_ID :: string where "SIM_CLOCK_ID = ''0x6''"
definition COIN_REGISTRY_ID :: string where "COIN_REGISTRY_ID = ''0xc''"

definition DUSDC_TYPE :: "SimEnv \<Rightarrow> string" where
  "DUSDC_TYPE env = DUSDC_PACKAGE_ID env @ ''::dusdc::DUSDC''"

definition target :: "SimEnv \<Rightarrow> string \<Rightarrow> string \<Rightarrow> string" where
  "target env md fn = PACKAGE_ID env @ ''::'' @ md @ ''::'' @ fn"

section \<open>Transactions\<close>

abbreviation big :: "int \<Rightarrow> js_number" where
  "big i \<equiv> Num (of_int i)"

definition finalizeDusdcCurrencyRegistrationTx :: "SimEnv \<Rightarrow> Transaction" where
  "finalizeDusdcCurrencyRegistrationTx env =
     add_command (TypedCall ''0x2::coin_registry::finalize_registration'' [DUSDC_TYPE env]
       [ObjArg COIN_REGISTRY_ID, ObjArg (DUSDC_CURRENCY_ID env)]) new_Transaction"

definition createPredictTx :: "SimEnv \<Rightarrow> string \<Rightarrow> Transaction" where
  "createPredictTx env currencyId =
     add_command (TypedCall (target env ''registry'' ''create_predict'') [DUSDC_TYPE env]
       [ObjArg (REGISTRY_ID env), ObjArg (ADMIN_CAP_ID env), ObjArg currencyId, ObjArg (PLP_TREASURY_CAP_ID env),
        ObjArg SIM_CLOCK_ID]) new_Transaction"

definition createOracleCapTx :: "SimEnv \<Rightarrow> string \<Rightarrow> Transaction" where
  "createOracleCapTx env recipient =
     (let tx = new_Transaction; cap = next_result tx;
          tx = add_command (MoveCall (target env ''registry'' ''create_oracle_cap'') [ObjArg (ADMIN_CAP_ID env)]) tx
      in add_command (TransferObjects [cap] (AddrArg recipient)) tx)"

definition createOracleTx ::
  "(js_number \<Rightarrow> tx_arg res) \<Rightarrow> SimEnv \<Rightarrow> string \<Rightarrow> string \<Rightarrow> string \<Rightarrow> int \<Rightarrow> int \<Rightarrow> int \<Rightarrow> Transaction res" where
  "createOracleTx u64 env predictId oracleCapId underlyingAsset expiry minStrike tickSize =
     bindE (u64 (big expiry)) (\<lambda>e. bindE (u64 (big minStrike)) (\<lambda>k. bindE (u64 (big tickSize)) (\<lambda>t.
     Inr (add_command (MoveCall (target env ''registry'' ''create_oracle'')
       [ObjArg (REGISTRY_ID env), ObjArg predictId, ObjArg (ADMIN_CAP_ID env), ObjArg oracleCapId,
        StrArg underlyingAsset, e, k, t]) new_Transaction))))"

definition registerOracleCapTx :: "SimEnv \<Rightarrow> string \<Rightarrow> string \<Rightarrow> Transaction" where
  "registerOracleCapTx env oracleId oracleCapId =
     add_command (MoveCall (target env ''registry'' ''register_oracle_cap'')
       [ObjArg oracleId, ObjArg (ADMIN_CAP_ID env), ObjArg oracleCapId]) new_Transaction"

definition activateOracleTx :: "SimEnv \<Rightarrow> string \<Rightarrow> string \<Rightarrow> Transaction" where
  "activateOracleTx env oracleId oracleCapId =
     add_command (MoveCall (target env ''oracle'' ''activate'') [ObjArg oracleId, ObjArg oracleCapId, ObjArg SIM_CLOCK_ID])
       new_Transaction"

text \<open>The parts that \<open>refreshOracleAndMintTx\<close> repeats from the single transactions, appended to \<open>tx\<close>.\<close>

definition prices_part ::
  "(js_number \<Rightarrow> tx_arg res) \<Rightarrow> SimEnv \<Rightarrow> string \<Rightarrow> string \<Rightarrow> int \<Rightarrow> int \<Rightarrow> Transaction \<Rightarrow> Transaction res" where
  "prices_part u64 env oracleId oracleCapId spot forward tx =
     bindE (u64 (big spot)) (\<lambda>s. bindE (u64 (big forward)) (\<lambda>f.
     let priceData = next_result tx;
         tx = add_command (MoveCall (target env ''oracle'' ''new_price_data'') [s, f]) tx
     in Inr (add_command (MoveCall (target env ''oracle'' ''update_prices'')
          [ObjArg oracleId, ObjArg oracleCapId, priceData, ObjArg SIM_CLOCK_ID]) tx)))"

definition svi_part ::
  "(js_number \<Rightarrow> tx_arg res) \<Rightarrow> SimEnv \<Rightarrow> string \<Rightarrow> string \<Rightarrow> SviRow \<Rightarrow> Transaction \<Rightarrow> Transaction res" where
  "svi_part u64 env oracleId oracleCapId svi tx =
     bindE (u64 (big (sr_rho svi))) (\<lambda>r.
     let rho = next_result tx;
         tx = add_command (MoveCall (target env ''i64'' ''from_parts'') [r, BoolArg (sr_rhoNegative svi)]) tx
     in bindE (u64 (big (sr_m svi))) (\<lambda>mm.
     let m = next_result tx;
         tx = add_command (MoveCall (target env ''i64'' ''from_parts'') [mm, BoolArg (sr_mNegative svi)]) tx
     in bindE (u64 (big (sr_a svi))) (\<lambda>a. bindE (u64 (big (sr_b svi))) (\<lambda>b. bindE (u64 (big (sr_sigma svi))) (\<lambda>sg.
     let sviParams = next_result tx;
         tx = add_command (MoveCall (target env ''oracle'' ''new_svi_params'') [a, b, rho, m, sg]) tx
     in Inr (add_command (MoveCall (target env ''oracle'' ''update_svi'')
          [ObjArg oracleId, ObjArg oracleCapId, sviParams, ObjArg SIM_CLOCK_ID]) tx))))))"

definition mint_part ::
  "(js_number \<Rightarrow> tx_arg res) \<Rightarrow> SimEnv \<Rightarrow> SimState \<Rightarrow> int \<Rightarrow> int \<Rightarrow> bool \<Rightarrow> int \<Rightarrow> Transaction \<Rightarrow> Transaction res" where
  "mint_part u64 env st expiry strike isUp quantity tx =
     bindE (u64 (big expiry)) (\<lambda>e. bindE (u64 (big strike)) (\<lambda>k.
     let key = next_result tx;
         tx = add_command (MoveCall (target env ''market_key'' ''new'') [IdArg (st_oracleId st), e, k, BoolArg isUp]) tx
     in bindE (u64 (big quantity)) (\<lambda>q.
        Inr (add_command (TypedCall (target env ''predict'' ''mint'') [DUSDC_TYPE env]
          [ObjArg (st_predictId st), ObjArg (st_managerId st), ObjArg (st_oracleId st), key, q, ObjArg SIM_CLOCK_ID]) tx))))"

definition updatePricesTx ::
  "(js_number \<Rightarrow> tx_arg res) \<Rightarrow> SimEnv \<Rightarrow> string \<Rightarrow> string \<Rightarrow> int \<Rightarrow> int \<Rightarrow> Transaction res" where
  "updatePricesTx u64 env oracleId oracleCapId spot forward =
     prices_part u64 env oracleId oracleCapId spot forward new_Transaction"

definition updateSviTx ::
  "(js_number \<Rightarrow> tx_arg res) \<Rightarrow> SimEnv \<Rightarrow> string \<Rightarrow> string \<Rightarrow> SviRow \<Rightarrow> Transaction res" where
  "updateSviTx u64 env oracleId oracleCapId svi = svi_part u64 env oracleId oracleCapId svi new_Transaction"

definition mintTx ::
  "(js_number \<Rightarrow> tx_arg res) \<Rightarrow> SimEnv \<Rightarrow> SimState \<Rightarrow> int \<Rightarrow> int \<Rightarrow> bool \<Rightarrow> int \<Rightarrow> Transaction res" where
  "mintTx u64 env st expiry strike isUp quantity = mint_part u64 env st expiry strike isUp quantity new_Transaction"

definition refreshOracleAndMintTx ::
  "(js_number \<Rightarrow> tx_arg res) \<Rightarrow> SimEnv \<Rightarrow> SimState \<Rightarrow> int \<Rightarrow> int \<Rightarrow> bool \<Rightarrow> int \<Rightarrow> int \<Rightarrow> int \<Rightarrow> SviRow \<Rightarrow> Transaction res" where
  "refreshOracleAndMintTx u64 env st expiry strike isUp quantity spot forward svi =
     bindE (prices_part u64 env (st_oracleId st) (st_oracleCapId st) spot forward new_Transaction) (\<lambda>tx.
     bindE (svi_part u64 env (st_oracleId st) (st_oracleCapId st) svi tx) (\<lambda>tx.
     mint_part u64 env st expiry strike isUp quantity tx))"

definition supplyTx :: "(js_number \<Rightarrow> tx_arg res) \<Rightarrow> SimEnv \<Rightarrow> string \<Rightarrow> string \<Rightarrow> int \<Rightarrow> Transaction res" where
  "supplyTx u64 env address predictId amount =
     bindE (u64 (big amount)) (\<lambda>a.
     Inr (add_command (TransferObjects [NestedArg 1 0] (AddrArg address))
       (add_command (TypedCall (target env ''predict'' ''supply'') [DUSDC_TYPE env]
          [ObjArg predictId, NestedArg 0 0, ObjArg SIM_CLOCK_ID])
       (add_command (TypedCall ''0x2::coin::mint'' [DUSDC_TYPE env] [ObjArg (TREASURY_CAP_ID env), a]) new_Transaction))))"

definition createManagerTx :: "SimEnv \<Rightarrow> Transaction" where
  "createManagerTx env = add_command (MoveCall (target env ''predict'' ''create_manager'') []) new_Transaction"

definition depositToManagerTx :: "(js_number \<Rightarrow> tx_arg res) \<Rightarrow> SimEnv \<Rightarrow> string \<Rightarrow> int \<Rightarrow> Transaction res" where
  "depositToManagerTx u64 env managerId amount =
     bindE (u64 (big amount)) (\<lambda>a.
     Inr (add_command (TypedCall (target env ''predict_manager'' ''deposit'') [DUSDC_TYPE env]
          [ObjArg managerId, NestedArg 0 0])
       (add_command (TypedCall ''0x2::coin::mint'' [DUSDC_TYPE env] [ObjArg (TREASURY_CAP_ID env), a]) new_Transaction)))"

section \<open>Execution\<close>

definition isSuccessStatus :: "json option \<Rightarrow> bool" where
  "isSuccessStatus status \<longleftrightarrow>
     json_prop status ''status'' = Some (JStr ''success'') \<or> json_prop status ''success'' = Some (JBool True)"

definition formatStatusError :: "(json \<Rightarrow> string) \<Rightarrow> json option \<Rightarrow> string \<Rightarrow> string" where
  "formatStatusError stringify status fallback =
     (case nullish (json_prop status ''error'') None of
        None \<Rightarrow> fallback
      | Some (JStr s) \<Rightarrow> s
      | Some (JObj _) \<Rightarrow> ''[object Object]''
      | Some j \<Rightarrow> stringify j)"

definition gasSummaryFromEffects :: "json option \<Rightarrow> GasUsage" where
  "gasSummaryFromEffects effects =
     (let gasUsed = nullish (json_prop effects ''gasUsed'') (Some (JObj []));
          cost = (\<lambda>k. js_Number (nullish (json_prop gasUsed k) (Some (JNum 0))))
      in \<lparr>gu_computationCost = cost ''computationCost'', gu_storageCost = cost ''storageCost'',
          gu_storageRebate = cost ''storageRebate'',
          gu_gasTotal = js_sub (js_add (cost ''computationCost'') (cost ''storageCost'')) (cost ''storageRebate'')\<rparr>)"

fun error_text :: "js_error \<Rightarrow> string" where
  "error_text (Error m) = ''Error: '' @ m"
| "error_text SyntaxError = ''SyntaxError''"
| "error_text RangeError = ''RangeError''"
| "error_text TypeError = ''TypeError''"

text \<open>The reads of a settled transaction: \<open>left\<close> attempts from number \<open>attempt\<close> on, a wait after each failure.\<close>

fun read_attempts :: "string \<Rightarrow> (nat \<Rightarrow> json res) \<Rightarrow> js_error \<Rightarrow> nat \<Rightarrow> nat \<Rightarrow> (sim_effect, json) run" where
  "read_attempts digest reply lastError attempt 0 = ([], Inl lastError)"
| "read_attempts digest reply lastError attempt (Suc left) =
     (case reply attempt of
        Inr j \<Rightarrow> ([ReadBack digest], Inr j)
      | Inl e \<Rightarrow> bindW ([ReadBack digest, Delay 250], Inr ()) (\<lambda>_. read_attempts digest reply e (Suc attempt) left))"

definition getTransactionBlockWithRetry :: "string \<Rightarrow> (nat \<Rightarrow> json res) \<Rightarrow> (sim_effect, json) run" where
  "getTransactionBlockWithRetry digest reply = read_attempts digest reply (Error []) 0 20"

definition status_of :: "json \<Rightarrow> json option" where
  "status_of raw = json_prop (json_prop (Some raw) ''effects'') ''status''"

definition digest_of :: "json \<Rightarrow> string" where
  "digest_of raw = (case jstr (json_prop (Some raw) ''digest'') of Some s \<Rightarrow> s | None \<Rightarrow> ''undefined'')"

text \<open>The answers to one execution: of the signature by attempt, of the reads by attempt and read, of the dry run.\<close>

record exec_replies =
  ex_sign :: "nat \<Rightarrow> json res"
  ex_read :: "nat \<Rightarrow> nat \<Rightarrow> json res"
  ex_dry :: "json res"

definition executeAndWait ::
  "(json \<Rightarrow> string) \<Rightarrow> string \<Rightarrow> Transaction \<Rightarrow> string \<Rightarrow> int \<Rightarrow> exec_replies \<Rightarrow> (sim_effect, json) run" where
  "executeAndWait stringify address tx label gasBudget rp =
     bindW (emits (Execute (tx\<lparr>tx_sender := Some address\<rparr>) gasBudget)) (\<lambda>_.
     case ex_sign rp 0 of
       Inl e \<Rightarrow>
         ([DryRun],
          Inl (Error (label @ '' rpc failure: '' @ error_text e
            @ (case ex_dry rp of
                 Inr d \<Rightarrow> '' dryRun='' @ take 1000 (stringify d)
               | Inl de \<Rightarrow> '' dryRun_error='' @ error_text de))))
     | Inr execution \<Rightarrow>
         bindW (require (isSuccessStatus (status_of execution))
            (label @ '' failed: '' @ formatStatusError stringify (status_of execution) (take 300 (stringify execution)))) (\<lambda>_.
         getTransactionBlockWithRetry (digest_of execution) (ex_read rp 0)))"

definition EXECUTE_MAX_ATTEMPTS :: nat where "EXECUTE_MAX_ATTEMPTS = 5"
definition EXECUTE_RETRY_DELAY_MS :: int where "EXECUTE_RETRY_DELAY_MS = 1000"

definition transient_error :: "js_error \<Rightarrow> bool" where
  "transient_error e \<longleftrightarrow>
     str_includes ''Object ID'' (error_text e) \<or> str_includes ''TransactionExecutionClientError'' (error_text e)"

text \<open>The body of one attempt.\<close>

definition execute_once ::
  "(json \<Rightarrow> string) \<Rightarrow> string \<Rightarrow> Transaction res \<Rightarrow> string \<Rightarrow> exec_replies \<Rightarrow> nat \<Rightarrow> (sim_effect, GasUsage) run" where
  "execute_once stringify address tx label rp attempt =
     bindW (await tx) (\<lambda>tx.
     bindW (emits (Execute (tx\<lparr>tx_sender := Some address\<rparr>) 500000000)) (\<lambda>_.
     bindW (await (ex_sign rp attempt)) (\<lambda>raw.
     bindW (require (isSuccessStatus (status_of raw))
        (label @ '' failed: '' @ formatStatusError stringify (status_of raw) (take 300 (stringify raw)))) (\<lambda>_.
     bindW (getTransactionBlockWithRetry (digest_of raw) (ex_read rp attempt)) (\<lambda>settled.
     ret (gasSummaryFromEffects
       (nullish (json_prop (Some settled) ''effects'') (json_prop (Some raw) ''effects'')))))))) "

fun execute_attempts ::
  "(json \<Rightarrow> string) \<Rightarrow> string \<Rightarrow> Transaction res \<Rightarrow> string \<Rightarrow> exec_replies \<Rightarrow> nat \<Rightarrow> nat \<Rightarrow> (sim_effect, GasUsage) run" where
  "execute_attempts stringify address tx label rp attempt left =
     (let r = execute_once stringify address tx label rp attempt in
      case snd r of
        Inr g \<Rightarrow> r
      | Inl e \<Rightarrow>
          (case left of
             0 \<Rightarrow> r
           | Suc l \<Rightarrow>
               (if transient_error e
                then bindW (fst r @ [Delay (EXECUTE_RETRY_DELAY_MS * (int attempt + 1))], Inr ()) (\<lambda>_.
                     execute_attempts stringify address tx label rp (Suc attempt) l)
                else r)))"

declare execute_attempts.simps [simp del]

definition execute ::
  "(json \<Rightarrow> string) \<Rightarrow> string \<Rightarrow> Transaction res \<Rightarrow> string \<Rightarrow> exec_replies \<Rightarrow> (sim_effect, GasUsage) run" where
  "execute stringify address tx label rp =
     execute_attempts stringify address tx label rp 0 (EXECUTE_MAX_ATTEMPTS - 1)"

section \<open>A combined transaction is its parts\<close>

text \<open>Appending one transaction to another renames the results its commands refer to.\<close>

fun shift_arg :: "nat \<Rightarrow> tx_arg \<Rightarrow> tx_arg" where
  "shift_arg k (ResultArg n) = ResultArg (k + n)"
| "shift_arg k (NestedArg n i) = NestedArg (k + n) i"
| "shift_arg k a = a"

fun shift_command :: "nat \<Rightarrow> command \<Rightarrow> command" where
  "shift_command k (MoveCall t as) = MoveCall t (map (shift_arg k) as)"
| "shift_command k (TypedCall t ts as) = TypedCall t ts (map (shift_arg k) as)"
| "shift_command k (MergeCoins a as) = MergeCoins (shift_arg k a) (map (shift_arg k) as)"
| "shift_command k (SplitCoins a as) = SplitCoins (shift_arg k a) (map (shift_arg k) as)"
| "shift_command k (TransferObjects as a) = TransferObjects (map (shift_arg k) as) (shift_arg k a)"
| "shift_command k (Publish ms ds) = Publish ms ds"

definition append_tx :: "Transaction \<Rightarrow> Transaction \<Rightarrow> Transaction" where
  "append_tx t1 t2 =
     t1\<lparr>tx_commands := tx_commands t1 @ map (shift_command (length (tx_commands t1))) (tx_commands t2)\<rparr>"

text \<open>The encoder of the SDK makes a pure argument, never a reference to a result.\<close>

definition pure_encoder :: "(js_number \<Rightarrow> tx_arg res) \<Rightarrow> bool" where
  "pure_encoder u64 \<longleftrightarrow> (\<forall>x a. u64 x = Inr a \<longrightarrow> (\<forall>k. shift_arg k a = a))"

lemma shift_u64: "pure_encoder u64 \<Longrightarrow> u64 x = Inr a \<Longrightarrow> shift_arg k a = a"
  by (auto simp: pure_encoder_def)

lemmas tx_parts = prices_part_def svi_part_def mint_part_def add_command_def next_result_def append_tx_def new_Transaction_def Let_def

lemma prices_part_append:
  assumes "pure_encoder u64"
  shows "prices_part u64 env oid cid spot forward tx =
    bindE (updatePricesTx u64 env oid cid spot forward) (\<lambda>t. Inr (append_tx tx t))"
proof (cases "u64 (big spot)")
  case (Inr s)
  then show ?thesis
    by (cases "u64 (big forward)") (auto simp: updatePricesTx_def tx_parts shift_u64 [OF assms])
qed (simp add: updatePricesTx_def tx_parts)

lemma svi_part_append:
  assumes "pure_encoder u64"
  shows "svi_part u64 env oid cid svi tx = bindE (updateSviTx u64 env oid cid svi) (\<lambda>t. Inr (append_tx tx t))"
  by (cases "u64 (big (sr_rho svi))"; cases "u64 (big (sr_m svi))"; cases "u64 (big (sr_a svi))"; cases "u64 (big (sr_b svi))";
      cases "u64 (big (sr_sigma svi))") (simp_all add: updateSviTx_def tx_parts shift_u64 [OF assms])

lemma mint_part_append:
  assumes "pure_encoder u64"
  shows "mint_part u64 env st expiry strike isUp quantity tx =
    bindE (mintTx u64 env st expiry strike isUp quantity) (\<lambda>t. Inr (append_tx tx t))"
  by (cases "u64 (big expiry)"; cases "u64 (big strike)"; cases "u64 (big quantity)")
     (simp_all add: mintTx_def tx_parts shift_u64 [OF assms])

lemma append_new: "append_tx new_Transaction t = new_Transaction\<lparr>tx_commands := tx_commands t\<rparr>"
proof -
  have "shift_arg 0 a = a" for a by (cases a) auto
  then have "shift_command 0 c = c" for c by (cases c) (auto simp: map_idI)
  then show ?thesis by (simp add: append_tx_def new_Transaction_def map_idI)
qed

text \<open>The combined transaction is the sequence of the three single ones.\<close>

lemma refresh_is_sequence:
  assumes "pure_encoder u64"
  shows "refreshOracleAndMintTx u64 env st expiry strike isUp quantity spot forward svi =
    bindE (updatePricesTx u64 env (st_oracleId st) (st_oracleCapId st) spot forward) (\<lambda>p.
    bindE (updateSviTx u64 env (st_oracleId st) (st_oracleCapId st) svi) (\<lambda>s.
    bindE (mintTx u64 env st expiry strike isUp quantity) (\<lambda>m.
    Inr (append_tx (append_tx p s) m))))"
  by (simp add: refreshOracleAndMintTx_def svi_part_append [OF assms] mint_part_append [OF assms] bindE_assoc
      updatePricesTx_def [symmetric])

section \<open>Retries are bounded\<close>

lemma read_attempts_bound:
  "length (filter (\<lambda>e. \<exists>d. e = ReadBack d) (fst (read_attempts digest reply e0 a n))) \<le> n"
proof (induction n arbitrary: a e0)
  case (Suc n)
  then show ?case by (auto simp: bindW_simps split: sum.splits)
qed simp

lemma read_attempts_Inr: "snd (read_attempts digest reply e0 a n) = Inr j \<Longrightarrow> \<exists>i. a \<le> i \<and> i < a + n \<and> reply i = Inr j"
proof (induction n arbitrary: a e0)
  case (Suc n)
  show ?case
  proof (cases "reply a")
    case (Inl e)
    with Suc.prems have "snd (read_attempts digest reply e (Suc a) n) = Inr j" by (simp add: bindW_simps)
    from Suc.IH [OF this] obtain i where "Suc a \<le> i" "i < Suc a + n" "reply i = Inr j" by blast
    then show ?thesis by (intro exI [of _ i]) simp
  next
    case (Inr v)
    with Suc.prems show ?thesis by (intro exI [of _ a]) simp
  qed
qed simp

abbreviation executions :: "sim_effect list \<Rightarrow> (Transaction \<times> int) list" where
  "executions fx \<equiv> List.map_filter (\<lambda>e. case e of Execute t b \<Rightarrow> Some (t, b) | _ \<Rightarrow> None) fx"

lemma executions_append: "executions (xs @ ys) = executions xs @ executions ys"
  by (simp add: List.map_filter_def)

lemma execute_attempts_outcome:
  "\<exists>k\<le>left. execute_attempts sf adr tx label rp a left =
     (concat (map (\<lambda>i. fst (execute_once sf adr tx label rp i) @ [Delay (EXECUTE_RETRY_DELAY_MS * (int i + 1))]) [a..<a + k])
        @ fst (execute_once sf adr tx label rp (a + k)), snd (execute_once sf adr tx label rp (a + k)))
    \<and> (\<forall>i\<in>{a..<a + k}. \<exists>e. snd (execute_once sf adr tx label rp i) = Inl e \<and> transient_error e)
    \<and> (\<forall>e. snd (execute_once sf adr tx label rp (a + k)) = Inl e \<longrightarrow> k = left \<or> \<not> transient_error e)"
proof (induction left arbitrary: a)
  case 0
  then show ?case by (subst execute_attempts.simps) (auto simp: Let_def split: sum.splits)
next
  case (Suc n)
  define r where "r = execute_once sf adr tx label rp a"
  show ?case
  proof (cases "\<exists>e. snd r = Inl e \<and> transient_error e")
    case False
    then have "execute_attempts sf adr tx label rp a (Suc n) = r"
      by (subst execute_attempts.simps) (auto simp: Let_def r_def [symmetric] split: sum.splits)
    with False show ?thesis by (intro exI [of _ 0]) (auto simp: r_def)
  next
    case True
    then obtain e where e: "snd r = Inl e" "transient_error e" by blast
    obtain k where k: "k \<le> n" "execute_attempts sf adr tx label rp (Suc a) n =
        (concat (map (\<lambda>i. fst (execute_once sf adr tx label rp i) @ [Delay (EXECUTE_RETRY_DELAY_MS * (int i + 1))]) [Suc a..<Suc a + k])
          @ fst (execute_once sf adr tx label rp (Suc a + k)), snd (execute_once sf adr tx label rp (Suc a + k)))"
      "\<forall>i\<in>{Suc a..<Suc a + k}. \<exists>e. snd (execute_once sf adr tx label rp i) = Inl e \<and> transient_error e"
      "\<forall>e. snd (execute_once sf adr tx label rp (Suc a + k)) = Inl e \<longrightarrow> k = n \<or> \<not> transient_error e"
      using Suc.IH [of "Suc a"] by blast
    have "execute_attempts sf adr tx label rp a (Suc n) =
        bindW (fst r @ [Delay (EXECUTE_RETRY_DELAY_MS * (int a + 1))], Inr ()) (\<lambda>_. execute_attempts sf adr tx label rp (Suc a) n)"
      using e by (subst execute_attempts.simps) (simp add: Let_def r_def [symmetric])
    moreover have "[a..<a + Suc k] = a # [Suc a..<Suc a + k]" by (simp add: upt_rec)
    moreover have "{a..<a + Suc k} = insert a {Suc a..<Suc a + k}" by auto
    ultimately show ?thesis using k e by (intro exI [of _ "Suc k"]) (simp add: bindW_simps r_def)
  qed
qed

lemma execute_last: "\<exists>k fx. execute sf adr tx label rp = (fx, snd (execute_once sf adr tx label rp k))"
  using execute_attempts_outcome [of "EXECUTE_MAX_ATTEMPTS - 1" sf adr tx label rp 0] unfolding execute_def by blast

lemma execute_once_executions:
  "executions (fst (execute_once sf adr (Inr t) label rp i)) = [(t\<lparr>tx_sender := Some adr\<rparr>, 500000000)]"
proof -
  have r: "executions (fst (read_attempts d reply e a n)) = []" for d reply e a n
    by (induction n arbitrary: a e) (auto simp: bindW_simps List.map_filter_simps split: sum.splits)
  show ?thesis
    by (cases "ex_sign rp i")
       (auto simp: execute_once_def await_def emits_def require_def ret_def bindW_def getTransactionBlockWithRetry_def
         List.map_filter_simps executions_append r split: sum.splits)
qed

lemma execute_outcome:
  "\<exists>k<5. execute sf adr (Inr t) label rp =
      (concat (map (\<lambda>i. fst (execute_once sf adr (Inr t) label rp i) @ [Delay (1000 * (int i + 1))]) [0..<k])
        @ fst (execute_once sf adr (Inr t) label rp k), snd (execute_once sf adr (Inr t) label rp k))
    \<and> executions (fst (execute sf adr (Inr t) label rp)) = replicate (Suc k) (t\<lparr>tx_sender := Some adr\<rparr>, 500000000)
    \<and> (\<forall>i. i < k \<longrightarrow> (\<exists>e. snd (execute_once sf adr (Inr t) label rp i) = Inl e \<and> transient_error e))
    \<and> (\<forall>e. snd (execute sf adr (Inr t) label rp) = Inl e \<longrightarrow> k = 4 \<or> \<not> transient_error e)"
proof -
  obtain k where k: "k \<le> 4" "execute sf adr (Inr t) label rp =
      (concat (map (\<lambda>i. fst (execute_once sf adr (Inr t) label rp i) @ [Delay (1000 * (int i + 1))]) [0..<k])
        @ fst (execute_once sf adr (Inr t) label rp k), snd (execute_once sf adr (Inr t) label rp k))"
    "\<forall>i\<in>{0..<k}. \<exists>e. snd (execute_once sf adr (Inr t) label rp i) = Inl e \<and> transient_error e"
    "\<forall>e. snd (execute_once sf adr (Inr t) label rp k) = Inl e \<longrightarrow> k = 4 \<or> \<not> transient_error e"
    using execute_attempts_outcome [of "EXECUTE_MAX_ATTEMPTS - 1" sf adr "Inr t" label rp 0]
    by (auto simp: execute_def EXECUTE_MAX_ATTEMPTS_def EXECUTE_RETRY_DELAY_MS_def)
  have "executions (concat (map (\<lambda>i. fst (execute_once sf adr (Inr t) label rp i) @ [Delay (1000 * (int i + 1))]) xs))
      = replicate (length xs) (t\<lparr>tx_sender := Some adr\<rparr>, 500000000)" for xs :: "nat list"
    by (induction xs) (simp_all add: executions_append execute_once_executions List.map_filter_simps)
  then have "executions (fst (execute sf adr (Inr t) label rp)) = replicate (Suc k) (t\<lparr>tx_sender := Some adr\<rparr>, 500000000)"
    by (simp add: k(2) executions_append execute_once_executions replicate_append_same)
  with k show ?thesis by (intro exI [of _ k]) auto
qed

text \<open>C38. The execution of a simulation step is at most five submissions of the same transaction: every attempt
  before the last ended with a transient error and was followed by the growing wait; the outcome is that of the
  last attempt, and an exception leaves only if it is not transient or the fifth attempt made it.\<close>

theorem execute_bounded:
  "\<exists>k<5. execute sf adr (Inr t) label rp =
      (concat (map (\<lambda>i. fst (execute_once sf adr (Inr t) label rp i) @ [Delay (1000 * (int i + 1))]) [0..<k])
        @ fst (execute_once sf adr (Inr t) label rp k), snd (execute_once sf adr (Inr t) label rp k))
    \<and> executions (fst (execute sf adr (Inr t) label rp)) = replicate (Suc k) (t\<lparr>tx_sender := Some adr\<rparr>, 500000000)
    \<and> (\<forall>i. i < k \<longrightarrow> (\<exists>e. snd (execute_once sf adr (Inr t) label rp i) = Inl e \<and> transient_error e))
    \<and> (\<forall>e. snd (execute sf adr (Inr t) label rp) = Inl e \<longrightarrow> k = 4 \<or> \<not> transient_error e)"
  by (rule execute_outcome)

definition flaky_replies :: exec_replies where
  "flaky_replies =
     \<lparr>ex_sign = (\<lambda>i. if i = 0 then Inl (Error ''Object ID 0x1 Version 7 is not available'')
                   else Inr (JObj [(''digest'', JStr ''d1''), (''effects'', JObj [(''status'', JObj [(''status'', JStr ''success'')])])])),
      ex_read = (\<lambda>i j. Inr (JObj [])), ex_dry = Inr JNull\<rparr>"

theorem execute_bounded_witness:
  "\<exists>k<5. executions (fst (execute (\<lambda>_. []) ''0xa'' (Inr new_Transaction) ''mint'' flaky_replies)) =
     replicate (Suc k) (new_Transaction\<lparr>tx_sender := Some ''0xa''\<rparr>, 500000000)"
  using execute_bounded [of "\<lambda>_. []" "''0xa''" new_Transaction "''mint''" flaky_replies] by blast

end
