(* ===== verification/Simulation.thy ===== *)
theory Simulation
  imports SimRuntime
begin

text \<open>
  \<open>scripts/deepbookv3/packages/predict/simulations/src/sim.ts\<close>: the driver of the simulation. It sets the market up,
  executes the rows of a scenario, a price, a surface and a mint in a row as one transaction, and writes a
  summary. The answers of the node and the measured times are arguments, numbered by execution.
\<close>

section \<open>Arguments and the strike grid\<close>

definition DUSDC_UNIT :: int where "DUSDC_UNIT = 1000000"
definition SIM_FLOAT_SCALING :: int where "SIM_FLOAT_SCALING = 1000000000"
definition ORACLE_MIN_STRIKE :: int where "ORACLE_MIN_STRIKE = 50000 * SIM_FLOAT_SCALING"
definition ORACLE_MAX_STRIKE :: int where "ORACLE_MAX_STRIKE = 150000 * SIM_FLOAT_SCALING"
definition ORACLE_TICK_SIZE :: int where "ORACLE_TICK_SIZE = 1 * SIM_FLOAT_SCALING"

definition EXPIRY_MS :: "int \<Rightarrow> int" where
  "EXPIRY_MS now = now + 7 * 24 * 60 * 60 * 1000"

definition alignStrikeToGrid :: "int \<Rightarrow> int" where
  "alignStrikeToGrid strike =
     (let relative = strike - ORACLE_MIN_STRIKE;
          tickIndex = relative sdiv ORACLE_TICK_SIZE;
          snapped = ORACLE_MIN_STRIKE + tickIndex * ORACLE_TICK_SIZE
      in if snapped < ORACLE_MIN_STRIKE then ORACLE_MIN_STRIKE
         else if snapped > ORACLE_MAX_STRIKE then ORACLE_MAX_STRIKE
         else snapped)"

text \<open>\<open>maxRows\<close> is absent, or the value of \<open>parseInt\<close>, whose inner \<open>None\<close> is \<open>NaN\<close>.\<close>

record SimArgs =
  sa_setupOnly :: bool
  sa_executeOnly :: bool
  sa_maxRows :: "int option option"

fun arg_after :: "string \<Rightarrow> string list \<Rightarrow> string option" where
  "arg_after a [] = None"
| "arg_after a (x # xs) = (if x = a then (case xs of [] \<Rightarrow> None | y # _ \<Rightarrow> Some y) else arg_after a xs)"

definition sim_parseArgs :: "string list \<Rightarrow> SimArgs" where
  "sim_parseArgs argv =
     \<lparr>sa_setupOnly = (''--setup-only'' \<in> set argv), sa_executeOnly = (''--execute-only'' \<in> set argv),
      sa_maxRows = (case arg_after ''--max-rows'' argv of
          None \<Rightarrow> None
        | Some v \<Rightarrow> (if v = [] then None else Some (parseInt10 v)))\<rparr>"

text \<open>\<open>rows.slice(0, n)\<close>: \<open>NaN\<close> counts as zero, a negative bound from the end.\<close>

definition slice_to :: "int option \<Rightarrow> 'a list \<Rightarrow> 'a list" where
  "slice_to n xs =
     (let k = (case n of None \<Rightarrow> 0 | Some i \<Rightarrow> i)
      in if k < 0 then take (nat (int (length xs) + k)) xs else take (nat k) xs)"

section \<open>The summary\<close>

definition stats_of :: "js_number list \<Rightarrow> stats" where
  "stats_of vs =
     \<lparr>stat_avg = js_div (foldl js_add (js_int 0) vs) (js_int (int (length vs))),
      stat_min = foldl Math_min (Infinity False) vs, stat_max = foldl Math_max (Infinity True) vs\<rparr>"

definition summarizeRows :: "ExecutionResult list \<Rightarrow> ActionSummary" where
  "summarizeRows rows =
     \<lparr>as_count = length rows, as_gas = stats_of (map (gu_gasTotal \<circ> xe_gas) rows), as_wallMs = stats_of (map xe_wallMs rows)\<rparr>"

record by_action =
  ba_update_prices :: "ExecutionResult list"
  ba_update_svi :: "ExecutionResult list"
  ba_mint :: "ExecutionResult list"

definition RESULTS_SCHEMA_VERSION :: string where
  "RESULTS_SCHEMA_VERSION = ''results_v2''"

definition buildResultsFile :: "by_action \<Rightarrow> ResultsFile" where
  "buildResultsFile b =
     \<lparr>rf_schema_version = RESULTS_SCHEMA_VERSION,
      rf_totalTxs = length (ba_update_prices b) + length (ba_update_svi b) + length (ba_mint b),
      rf_byAction = concat (map (\<lambda>(name, rows). if rows = [] then [] else [(name, summarizeRows rows)])
        [(''update_prices'', ba_update_prices b), (''update_svi'', ba_update_svi b), (''mint'', ba_mint b)]),
      rf_mints = ba_mint b\<rparr>"

section \<open>The setup\<close>

text \<open>\<open>xs.find(p)\<close> for a test that may throw, and the property of a found value; reading a property of
  \<open>undefined\<close> or \<open>null\<close> throws. An identifier that is no text is refused by the SDK.\<close>

fun find_json :: "(json \<Rightarrow> bool res) \<Rightarrow> json list \<Rightarrow> json option res" where
  "find_json p [] = Inr None"
| "find_json p (x # xs) = bindE (p x) (\<lambda>b. if b then Inr (Some x) else find_json p xs)"

definition text_prop :: "string \<Rightarrow> json option \<Rightarrow> string res" where
  "text_prop k j = (case jstr (json_prop j k) of Some s \<Rightarrow> Inr s | None \<Rightarrow> Inl TypeError)"

definition created_object :: "(string \<Rightarrow> bool) \<Rightarrow> json \<Rightarrow> bool res" where
  "created_object p change =
     (if change = JNull then Inl TypeError
      else if json_prop (Some change) ''type'' \<noteq> Some (JStr ''created'') then Inr False
      else bindE (text_prop ''objectType'' (Some change)) (\<lambda>t. Inr (p t)))"

definition event_named :: "string \<Rightarrow> json \<Rightarrow> bool res" where
  "event_named name event = bindE (text_prop ''type'' (Some event)) (\<lambda>t. Inr (str_includes name t))"

definition find_in :: "string \<Rightarrow> (json \<Rightarrow> bool res) \<Rightarrow> json \<Rightarrow> json option res" where
  "find_in field p result =
     (case json_prop (Some result) field of Some (JArr xs) \<Rightarrow> find_json p xs | _ \<Rightarrow> Inl TypeError)"

definition created_id :: "(string \<Rightarrow> bool) \<Rightarrow> json \<Rightarrow> string res" where
  "created_id p result = bindE (find_in ''objectChanges'' (created_object p) result) (text_prop ''objectId'')"

definition event_field :: "string \<Rightarrow> string \<Rightarrow> json \<Rightarrow> string res" where
  "event_field name field result =
     bindE (find_in ''events'' (event_named name) result) (\<lambda>e. text_prop field (json_prop e ''parsedJson''))"

record sim_context =
  sc_u64 :: "js_number \<Rightarrow> tx_arg res"
  sc_env :: SimEnv
  sc_address :: string
  sc_stringify :: "json \<Rightarrow> string"

definition wait_for ::
  "sim_context \<Rightarrow> (nat \<Rightarrow> exec_replies) \<Rightarrow> nat \<Rightarrow> Transaction res \<Rightarrow> string \<Rightarrow> int \<Rightarrow> (sim_effect, json) run" where
  "wait_for C rp n tx label budget =
     bindW (await tx) (\<lambda>t. executeAndWait (sc_stringify C) (sc_address C) t label budget (rp n))"

definition setupSimulation :: "sim_context \<Rightarrow> int \<Rightarrow> (nat \<Rightarrow> exec_replies) \<Rightarrow> (sim_effect, SimState) run" where
  "setupSimulation C now rp =
     (let env = sc_env C; u64 = sc_u64 C in
      bindW (wait_for C rp 0 (Inr (finalizeDusdcCurrencyRegistrationTx env)) ''finalize_dusdc_currency_registration'' 500000000) (\<lambda>r.
      bindW (await (created_id (\<lambda>t. str_includes ''coin_registry::Currency'' t \<and> str_includes ''dusdc::DUSDC'' t) r)) (\<lambda>currencyId.
      bindW (wait_for C rp 1 (Inr (createPredictTx env currencyId)) ''create_predict'' 500000000) (\<lambda>r.
      bindW (await (event_field ''PredictCreated'' ''predict_id'' r)) (\<lambda>predictId.
      bindW (wait_for C rp 2 (Inr (createOracleCapTx env (sc_address C))) ''create_oracle_cap'' 500000000) (\<lambda>r.
      bindW (await (created_id (str_includes ''OracleSVICap'') r)) (\<lambda>oracleCapId.
      bindW (wait_for C rp 3 (createOracleTx u64 env predictId oracleCapId ''BTC'' (EXPIRY_MS now) ORACLE_MIN_STRIKE ORACLE_TICK_SIZE)
               ''create_oracle'' 50000000000) (\<lambda>r.
      bindW (await (created_id (\<lambda>t. str_includes ''OracleSVI'' t \<and> \<not> str_includes ''Cap'' t) r)) (\<lambda>oracleId.
      bindW (wait_for C rp 4 (Inr (registerOracleCapTx env oracleId oracleCapId)) ''register_oracle_cap'' 500000000) (\<lambda>_.
      bindW (wait_for C rp 5 (Inr (activateOracleTx env oracleId oracleCapId)) ''activate_oracle'' 500000000) (\<lambda>_.
      bindW (wait_for C rp 6 (supplyTx u64 env (sc_address C) predictId (500000 * DUSDC_UNIT)) ''supply'' 500000000) (\<lambda>_.
      bindW (wait_for C rp 7 (Inr (createManagerTx env)) ''create_manager'' 500000000) (\<lambda>r.
      bindW (await (event_field ''ManagerCreated'' ''manager_id'' r)) (\<lambda>managerId.
      bindW (wait_for C rp 8 (depositToManagerTx u64 env managerId (500000 * DUSDC_UNIT)) ''deposit_to_manager'' 500000000) (\<lambda>_.
      let state = \<lparr>st_predictId = predictId, st_oracleId = oracleId, st_oracleCapId = oracleCapId,
                    st_managerId = managerId, st_expiry = int_toString (EXPIRY_MS now)\<rparr>
      in bindW (emits (SaveState state)) (\<lambda>_. ret state)))))))))))))))) "

section \<open>The scenario\<close>

text \<open>The transaction of a single row.\<close>

definition row_tx :: "sim_context \<Rightarrow> SimState \<Rightarrow> int \<Rightarrow> ScenarioRow \<Rightarrow> Transaction res" where
  "row_tx C st expiry row =
     (case row of
        UpdatePrices spot forward \<Rightarrow> updatePricesTx (sc_u64 C) (sc_env C) (st_oracleId st) (st_oracleCapId st) spot forward
      | UpdateSvi s \<Rightarrow> updateSviTx (sc_u64 C) (sc_env C) (st_oracleId st) (st_oracleCapId st) s
      | Mint strike isUp quantity \<Rightarrow> mintTx (sc_u64 C) (sc_env C) st expiry (alignStrikeToGrid strike) isUp quantity)"

fun row_label :: "ScenarioRow \<Rightarrow> string" where
  "row_label (UpdatePrices _ _) = ''update_prices''"
| "row_label (UpdateSvi _) = ''update_svi''"
| "row_label (Mint _ _ _) = ''mint''"

fun push_result :: "ScenarioRow \<Rightarrow> ExecutionResult \<Rightarrow> by_action \<Rightarrow> by_action" where
  "push_result (UpdatePrices _ _) r b = b\<lparr>ba_update_prices := ba_update_prices b @ [r]\<rparr>"
| "push_result (UpdateSvi _) r b = b\<lparr>ba_update_svi := ba_update_svi b @ [r]\<rparr>"
| "push_result (Mint _ _ _) r b = b\<lparr>ba_mint := ba_mint b @ [r]\<rparr>"

definition exec_step ::
  "sim_context \<Rightarrow> (nat \<Rightarrow> exec_replies) \<Rightarrow> (nat \<Rightarrow> js_number) \<Rightarrow> nat \<Rightarrow> Transaction res \<Rightarrow> string \<Rightarrow> (sim_effect, ExecutionResult) run" where
  "exec_step C rp wall n tx label =
     bindW (execute (sc_stringify C) (sc_address C) tx label (rp n)) (\<lambda>gas. ret \<lparr>xe_wallMs = wall n, xe_gas = gas\<rparr>)"

text \<open>The loop: \<open>n\<close> counts the executions.\<close>

fun run_rows ::
  "sim_context \<Rightarrow> SimState \<Rightarrow> int \<Rightarrow> (nat \<Rightarrow> exec_replies) \<Rightarrow> (nat \<Rightarrow> js_number) \<Rightarrow> ScenarioRow list \<Rightarrow> nat \<Rightarrow> by_action
     \<Rightarrow> (sim_effect, by_action) run" where
  "run_rows C st expiry rp wall [] n b = ret b"
| "run_rows C st expiry rp wall (UpdatePrices spot forward # UpdateSvi svi # Mint strike isUp quantity # rest) n b =
     bindW (exec_step C rp wall n
        (refreshOracleAndMintTx (sc_u64 C) (sc_env C) st expiry (alignStrikeToGrid strike) isUp quantity spot forward svi)
        ''refresh_oracle_and_mint'') (\<lambda>r.
     run_rows C st expiry rp wall rest (Suc n) (push_result (Mint strike isUp quantity) r b))"
| "run_rows C st expiry rp wall (row # rest) n b =
     bindW (exec_step C rp wall n (row_tx C st expiry row) (row_label row)) (\<lambda>r.
     run_rows C st expiry rp wall rest (Suc n) (push_result row r b))"

definition executeScenario ::
  "sim_context \<Rightarrow> (nat \<Rightarrow> exec_replies) \<Rightarrow> (nat \<Rightarrow> js_number) \<Rightarrow> ScenarioRow list \<Rightarrow> SimState \<Rightarrow> (sim_effect, unit) run" where
  "executeScenario C rp wall rows st =
     bindW (await (BigInt (st_expiry st))) (\<lambda>expiry.
     bindW (run_rows C st expiry rp wall rows 0 \<lparr>ba_update_prices = [], ba_update_svi = [], ba_mint = []\<rparr>) (\<lambda>b.
     emits (SaveResults (buildResultsFile b))))"

text \<open>\<open>file\<close> is the text of the scenario, \<open>saved\<close> the state that an earlier setup wrote.\<close>

definition sim_main ::
  "sim_context \<Rightarrow> int \<Rightarrow> string list \<Rightarrow> string \<Rightarrow> SimState res \<Rightarrow> (nat \<Rightarrow> exec_replies) \<Rightarrow> (nat \<Rightarrow> exec_replies)
     \<Rightarrow> (nat \<Rightarrow> js_number) \<Rightarrow> (sim_effect, unit) run" where
  "sim_main C now argv file saved setup_rp rp wall =
     (let args = sim_parseArgs argv in
      bindW (await (loadScenario file)) (\<lambda>all.
      let rows = (case sa_maxRows args of None \<Rightarrow> all | Some n \<Rightarrow> slice_to n all) in
      if sa_executeOnly args then bindW (await saved) (executeScenario C rp wall rows)
      else bindW (setupSimulation C now setup_rp) (\<lambda>st.
           if sa_setupOnly args then ret () else executeScenario C rp wall rows st)))"

section \<open>The grid\<close>

lemmas grid_values = ORACLE_MIN_STRIKE_def ORACLE_MAX_STRIKE_def ORACLE_TICK_SIZE_def SIM_FLOAT_SCALING_def

definition on_grid :: "int \<Rightarrow> bool" where
  "on_grid k \<longleftrightarrow> ORACLE_MIN_STRIKE \<le> k \<and> k \<le> ORACLE_MAX_STRIKE \<and> ORACLE_TICK_SIZE dvd (k - ORACLE_MIN_STRIKE)"

text \<open>Every strike is moved to a point of the oracle's grid; a strike inside the range moves down by less than
  one tick, a point of the grid stays, and the order of strikes is kept.\<close>

lemma align_inside:
  assumes "ORACLE_MIN_STRIKE \<le> strike" "strike \<le> ORACLE_MAX_STRIKE"
  shows "alignStrikeToGrid strike = ORACLE_MIN_STRIKE + (strike - ORACLE_MIN_STRIKE) div ORACLE_TICK_SIZE * ORACLE_TICK_SIZE"
proof -
  define d where "d = (strike - ORACLE_MIN_STRIKE) div ORACLE_TICK_SIZE"
  have "0 \<le> d" "d \<le> 100000" using assms by (simp_all add: d_def grid_values)
  moreover have "(strike - ORACLE_MIN_STRIKE) sdiv ORACLE_TICK_SIZE = d"
    using assms unfolding d_def by (intro sdiv_nonneg) (simp_all add: grid_values)
  ultimately show ?thesis
    unfolding alignStrikeToGrid_def Let_def d_def [symmetric] by (simp add: grid_values)
qed

lemma align_below: "strike \<le> ORACLE_MIN_STRIKE \<Longrightarrow> alignStrikeToGrid strike = ORACLE_MIN_STRIKE"
proof -
  assume s: "strike \<le> ORACLE_MIN_STRIKE"
  then have "(strike - ORACLE_MIN_STRIKE) sdiv ORACLE_TICK_SIZE \<le> 0 sdiv ORACLE_TICK_SIZE"
    by (intro sdiv_mono) (simp_all add: grid_values)
  then have "(strike - ORACLE_MIN_STRIKE) sdiv ORACLE_TICK_SIZE \<le> 0" by simp
  then have "(strike - ORACLE_MIN_STRIKE) sdiv ORACLE_TICK_SIZE * ORACLE_TICK_SIZE \<le> 0"
    by (intro mult_nonpos_nonneg) (simp_all add: grid_values)
  then show ?thesis unfolding alignStrikeToGrid_def Let_def by (auto simp: ORACLE_MAX_STRIKE_def ORACLE_MIN_STRIKE_def SIM_FLOAT_SCALING_def)
qed

lemma align_above: "ORACLE_MAX_STRIKE \<le> strike \<Longrightarrow> alignStrikeToGrid strike = ORACLE_MAX_STRIKE"
proof -
  assume s: "ORACLE_MAX_STRIKE \<le> strike"
  then have d: "(strike - ORACLE_MIN_STRIKE) sdiv ORACLE_TICK_SIZE = (strike - ORACLE_MIN_STRIKE) div ORACLE_TICK_SIZE"
    by (intro sdiv_nonneg) (simp_all add: grid_values)
  have "100000 \<le> (strike - ORACLE_MIN_STRIKE) div ORACLE_TICK_SIZE" using s by (simp add: grid_values)
  then show ?thesis unfolding alignStrikeToGrid_def Let_def d by (auto simp: grid_values)
qed

theorem align_on_grid:
  "on_grid (alignStrikeToGrid strike)
    \<and> (on_grid strike \<longrightarrow> alignStrikeToGrid strike = strike)
    \<and> (ORACLE_MIN_STRIKE \<le> strike \<and> strike \<le> ORACLE_MAX_STRIKE \<longrightarrow>
        alignStrikeToGrid strike \<le> strike \<and> strike < alignStrikeToGrid strike + ORACLE_TICK_SIZE)"
proof (cases "ORACLE_MIN_STRIKE \<le> strike \<and> strike \<le> ORACLE_MAX_STRIKE")
  case True
  define d where "d = (strike - ORACLE_MIN_STRIKE) div ORACLE_TICK_SIZE"
  have a: "alignStrikeToGrid strike = ORACLE_MIN_STRIKE + d * ORACLE_TICK_SIZE" using True align_inside d_def by simp
  from True have t: "ORACLE_MIN_STRIKE \<le> strike" "strike \<le> ORACLE_MAX_STRIKE" by simp_all
  have "0 \<le> d" "d \<le> 100000" using t by (simp_all add: d_def grid_values)
  then have "on_grid (alignStrikeToGrid strike)" unfolding a on_grid_def by (simp add: grid_values)
  moreover have "d * ORACLE_TICK_SIZE \<le> strike - ORACLE_MIN_STRIKE"
    "strike - ORACLE_MIN_STRIKE < d * ORACLE_TICK_SIZE + ORACLE_TICK_SIZE" by (simp_all add: d_def grid_values)
  moreover have "d * ORACLE_TICK_SIZE = strike - ORACLE_MIN_STRIKE" if "on_grid strike"
    using that by (simp add: on_grid_def d_def)
  ultimately show ?thesis unfolding a by auto
next
  case False
  then have "alignStrikeToGrid strike = ORACLE_MIN_STRIKE \<or> alignStrikeToGrid strike = ORACLE_MAX_STRIKE"
    using align_below align_above by force
  moreover have "on_grid ORACLE_MIN_STRIKE" "on_grid ORACLE_MAX_STRIKE" by (simp_all add: on_grid_def grid_values)
  ultimately show ?thesis using False by (auto simp: on_grid_def)
qed

section \<open>Batches\<close>

text \<open>A sequence of transactions as one, and the groups of rows that the loop sends together.\<close>

fun seq_tx :: "Transaction res list \<Rightarrow> Transaction res" where
  "seq_tx [] = Inr new_Transaction"
| "seq_tx [t] = t"
| "seq_tx (t1 # t2 # ts) = bindE t1 (\<lambda>a. bindE t2 (\<lambda>b. seq_tx (Inr (append_tx a b) # ts)))"

fun is_batch :: "ScenarioRow list \<Rightarrow> bool" where
  "is_batch [r] = True"
| "is_batch [UpdatePrices _ _, UpdateSvi _, Mint _ _ _] = True"
| "is_batch _ = False"

fun is_mint :: "ScenarioRow \<Rightarrow> bool" where
  "is_mint (Mint _ _ _) = True"
| "is_mint _ = False"

definition sent_as :: "sim_context \<Rightarrow> Transaction \<Rightarrow> (Transaction \<times> int) list \<Rightarrow> bool" where
  "sent_as C t xs \<longleftrightarrow> (\<exists>k<5. xs = replicate (Suc k) (t\<lparr>tx_sender := Some (sc_address C)\<rparr>, 500000000))"

lemma exec_step_sent:
  assumes "exec_step C rp wall n tx label = (fx, Inr r)"
  shows "\<exists>t. tx = Inr t \<and> sent_as C t (executions fx)"
proof -
  obtain g where g: "execute (sc_stringify C) (sc_address C) tx label (rp n) = (fx, Inr g)"
    using assms by (auto simp: exec_step_def script_Inr)
  show ?thesis
  proof (cases tx)
    case (Inr t)
    then obtain k where "k < 5" "executions (fst (fx, Inr g :: GasUsage res)) =
        replicate (Suc k) (t\<lparr>tx_sender := Some (sc_address C)\<rparr>, 500000000)"
      using execute_outcome [of "sc_stringify C" "sc_address C" t label "rp n"] unfolding Inr g [unfolded Inr] by blast
    with Inr show ?thesis by (auto simp: sent_as_def)
  next
    case (Inl e)
    obtain k fx' where "execute (sc_stringify C) (sc_address C) tx label (rp n) =
        (fx', snd (execute_once (sc_stringify C) (sc_address C) tx label (rp n) k))" using execute_last by blast
    then have "snd (execute (sc_stringify C) (sc_address C) tx label (rp n)) = Inl e"
      by (simp add: Inl execute_once_def await_def bindW_simps)
    with g show ?thesis by simp
  qed
qed

lemma refresh_seq:
  assumes "pure_encoder (sc_u64 C)"
  shows "refreshOracleAndMintTx (sc_u64 C) (sc_env C) st expiry (alignStrikeToGrid strike) isUp quantity spot forward svi =
    seq_tx (map (row_tx C st expiry) [UpdatePrices spot forward, UpdateSvi svi, Mint strike isUp quantity])"
  by (simp add: refresh_is_sequence [OF assms] row_tx_def)

text \<open>How a run splits the rows.\<close>

definition splits_rows ::
  "sim_context \<Rightarrow> SimState \<Rightarrow> int \<Rightarrow> ScenarioRow list \<Rightarrow> (Transaction \<times> int) list \<Rightarrow> ScenarioRow list list \<Rightarrow> bool" where
  "splits_rows C st expiry rows sent gs \<longleftrightarrow>
     concat gs = rows \<and> list_all is_batch gs
     \<and> (\<exists>xss. sent = concat xss \<and> list_all2 (\<lambda>g xs. \<exists>t. seq_tx (map (row_tx C st expiry) g) = Inr t \<and> sent_as C t xs) gs xss)"

lemma splits_rows_Cons:
  assumes "is_batch g" "seq_tx (map (row_tx C st expiry) g) = Inr t" "sent_as C t xs" "splits_rows C st expiry rows sent gs"
  shows "splits_rows C st expiry (g @ rows) (xs @ sent) (g # gs)"
proof -
  obtain xss where x: "sent = concat xss"
    "list_all2 (\<lambda>g xs. \<exists>t. seq_tx (map (row_tx C st expiry) g) = Inr t \<and> sent_as C t xs) gs xss"
    using assms(4) by (auto simp: splits_rows_def)
  with assms show ?thesis unfolding splits_rows_def by (intro conjI exI [of _ "xs # xss"]) auto
qed

lemma run_rows_single:
  assumes "\<not> (\<exists>spot forward svi strike isUp quantity more.
      row # rest = UpdatePrices spot forward # UpdateSvi svi # Mint strike isUp quantity # more)"
  shows "run_rows C st expiry rp wall (row # rest) n b =
    bindW (exec_step C rp wall n (row_tx C st expiry row) (row_label row)) (\<lambda>r.
    run_rows C st expiry rp wall rest (Suc n) (push_result row r b))"
proof (cases row)
  case (UpdatePrices spot forward)
  show ?thesis
  proof (cases rest)
    case (Cons r2 rest2)
    show ?thesis
    proof (cases r2)
      case (UpdateSvi svi)
      show ?thesis
      proof (cases rest2)
        case (Cons r3 rest3)
        then show ?thesis using assms \<open>rest = r2 # rest2\<close> UpdateSvi UpdatePrices by (cases r3) auto
      qed (use \<open>rest = r2 # rest2\<close> UpdateSvi UpdatePrices in simp)
    qed (use \<open>rest = r2 # rest2\<close> UpdatePrices in simp_all)
  qed (use UpdatePrices in simp)
qed simp_all

lemma run_rows_step:
  assumes "pure_encoder (sc_u64 C)" "rows \<noteq> []"
  shows "\<exists>g rest label. rows = g @ rest \<and> is_batch g \<and> length (filter is_mint g) = (if is_mint (last g) then 1 else 0)
    \<and> run_rows C st expiry rp wall rows n b =
        bindW (exec_step C rp wall n (seq_tx (map (row_tx C st expiry) g)) label) (\<lambda>r.
        run_rows C st expiry rp wall rest (Suc n) (push_result (last g) r b))"
proof (cases "\<exists>spot forward svi strike isUp quantity more.
    rows = UpdatePrices spot forward # UpdateSvi svi # Mint strike isUp quantity # more")
  case True
  then obtain spot forward svi strike isUp quantity more
    where r: "rows = UpdatePrices spot forward # UpdateSvi svi # Mint strike isUp quantity # more" by blast
  show ?thesis
    by (rule exI [of _ "[UpdatePrices spot forward, UpdateSvi svi, Mint strike isUp quantity]"], rule exI [of _ more],
        rule exI [of _ "''refresh_oracle_and_mint''"])
       (simp only: r append.simps run_rows.simps refresh_seq [OF assms(1)], simp)
next
  case False
  from assms(2) obtain row rest where r: "rows = row # rest" by (cases rows) auto
  from False show ?thesis unfolding r
    by (intro exI [of _ "[row]"] exI [of _ rest] exI [of _ "row_label row"]) (simp add: run_rows_single)
qed

definition tx_total :: "by_action \<Rightarrow> nat" where
  "tx_total b = length (ba_update_prices b) + length (ba_update_svi b) + length (ba_mint b)"

lemma push_result_counts:
  "tx_total (push_result row r b) = Suc (tx_total b)"
  "length (ba_mint (push_result row r b)) = length (ba_mint b) + (if is_mint row then 1 else 0)"
  by (cases row; simp add: tx_total_def)+

lemma run_rows_batches:
  assumes "pure_encoder (sc_u64 C)" "run_rows C st expiry rp wall rows n b = (fx, Inr b')"
  shows "\<exists>gs. splits_rows C st expiry rows (executions fx) gs \<and> tx_total b' = tx_total b + length gs
    \<and> length (ba_mint b') = length (ba_mint b) + length (filter is_mint rows)"
  using assms(2)
proof (induction "length rows" arbitrary: rows n b fx rule: less_induct)
  case less
  show ?case
  proof (cases "rows = []")
    case True
    with less.prems show ?thesis
      by (intro exI [of _ "[]"]) (auto simp: ret_def splits_rows_def List.map_filter_simps)
  next
    case False
    obtain g rest label where g: "rows = g @ rest" "is_batch g"
      "length (filter is_mint g) = (if is_mint (last g) then 1 else 0)"
      "run_rows C st expiry rp wall rows n b =
        bindW (exec_step C rp wall n (seq_tx (map (row_tx C st expiry) g)) label) (\<lambda>r.
        run_rows C st expiry rp wall rest (Suc n) (push_result (last g) r b))"
      using run_rows_step [OF assms(1) False, of st expiry rp wall n b] by (elim exE conjE) (rule that)
    obtain fx1 fx2 r where r: "exec_step C rp wall n (seq_tx (map (row_tx C st expiry) g)) label = (fx1, Inr r)"
      "run_rows C st expiry rp wall rest (Suc n) (push_result (last g) r b) = (fx2, Inr b')" "fx = fx1 @ fx2"
      using less.prems [unfolded g(4) bindW_eq_Inr] by (elim exE conjE) (rule that)
    obtain t where t: "seq_tx (map (row_tx C st expiry) g) = Inr t" "sent_as C t (executions fx1)"
      using exec_step_sent [OF r(1)] by blast
    have "length rest < length rows" using g(1,2) by (cases g) auto
    from less.hyps [OF this r(2)] obtain gs where gs: "splits_rows C st expiry rest (executions fx2) gs"
      "tx_total b' = tx_total (push_result (last g) r b) + length gs"
      "length (ba_mint b') = length (ba_mint (push_result (last g) r b)) + length (filter is_mint rest)" by blast
    have "splits_rows C st expiry rows (executions fx) (g # gs)"
      unfolding g(1) r(3) executions_append by (rule splits_rows_Cons [OF g(2) t gs(1)])
    with gs(2,3) g(1,3) show ?thesis by (intro exI [of _ "g # gs"]) (simp add: push_result_counts)
  qed
qed

text \<open>C36. Batching changes nothing: a finished run has sent, in the order of the rows, one transaction per batch (with
  at most four repetitions), a batch being a single row or a price, a surface and a mint in a row; the
  transaction of a batch is the sequence of the transactions of its rows; the results count every batch once
  and hold one entry for every mint of the scenario.\<close>

theorem scenario_batching:
  assumes "pure_encoder (sc_u64 C)" "BigInt (st_expiry st) = Inr expiry"
    and "executeScenario C rp wall rows st = (fx, Inr ())"
  shows "\<exists>gs res. splits_rows C st expiry rows (executions fx) gs \<and> last fx = SaveResults res
    \<and> rf_totalTxs res = length gs \<and> length (rf_mints res) = length (filter is_mint rows)"
proof -
  obtain fx1 b where b: "run_rows C st expiry rp wall rows 0 \<lparr>ba_update_prices = [], ba_update_svi = [], ba_mint = []\<rparr> = (fx1, Inr b)"
    "fx = fx1 @ [SaveResults (buildResultsFile b)]"
    using assms(2,3) by (auto simp: executeScenario_def script_Inr)
  from run_rows_batches [OF assms(1) b(1)] obtain gs where
    "splits_rows C st expiry rows (executions fx1) gs" "tx_total b = length gs"
    "length (ba_mint b) = length (filter is_mint rows)" by (auto simp: tx_total_def)
  then show ?thesis
    by (intro exI [of _ gs] exI [of _ "buildResultsFile b"])
       (simp add: b(2) executions_append List.map_filter_simps buildResultsFile_def tx_total_def)
qed

definition demo_context :: sim_context where
  "demo_context =
     \<lparr>sc_u64 = (\<lambda>x. Inr (U64Arg x)),
      sc_env = \<lparr>PACKAGE_ID = ''0x1'', REGISTRY_ID = ''0x2'', ADMIN_CAP_ID = ''0x3'', PLP_TREASURY_CAP_ID = ''0x4'',
        DUSDC_PACKAGE_ID = ''0x5'', DUSDC_CURRENCY_ID = ''0x6'', TREASURY_CAP_ID = ''0x7'', ACTIVE_ADDRESS = ''0x8'', RPC_URL = []\<rparr>,
      sc_address = ''0x8'', sc_stringify = (\<lambda>_. [])\<rparr>"

definition demo_replies :: exec_replies where
  "demo_replies =
     \<lparr>ex_sign = (\<lambda>_. Inr (JObj [(''digest'', JStr ''d1''), (''effects'', JObj [(''status'', JObj [(''status'', JStr ''success'')])])])),
      ex_read = (\<lambda>_ _. Inr (JObj [])), ex_dry = Inr JNull\<rparr>"

definition demo_state :: SimState where
  "demo_state = \<lparr>st_predictId = ''0x10'', st_oracleId = ''0x11'', st_oracleCapId = ''0x12'', st_managerId = ''0x13'', st_expiry = ''7''\<rparr>"

definition demo_rows :: "ScenarioRow list" where
  "demo_rows = [UpdatePrices 70000000000000 70010000000000,
     UpdateSvi \<lparr>sr_a = 1, sr_b = 2, sr_rho = 3, sr_rhoNegative = True, sr_m = 4, sr_mNegative = False, sr_sigma = 5, sr_riskFreeRate = 0\<rparr>,
     Mint 71000000000000 False 5, Mint 72000000000000 True 6]"

lemma demo_expiry: "BigInt (st_expiry demo_state) = Inr 7"
  by (simp add: demo_state_def BigInt_def trim_def is_space_def digits_value_def char_digit_def)

lemma demo_execute: "\<exists>fx g. execute (sc_stringify demo_context) (sc_address demo_context) (Inr t) label demo_replies = (fx, Inr g)"
proof -
  have "\<exists>fx g. execute_once sf adr (Inr t) label demo_replies 0 = (fx, Inr g)" for sf adr
    by (simp add: execute_once_def demo_replies_def await_def emits_def require_def ret_def bindW_simps status_of_def
        isSuccessStatus_def jget_def getTransactionBlockWithRetry_def numeral_eq_Suc)
  then obtain fx g where "execute_once (sc_stringify demo_context) (sc_address demo_context) (Inr t) label demo_replies 0 = (fx, Inr g)"
    by blast
  then show ?thesis unfolding execute_def by (subst execute_attempts.simps) simp
qed

lemma demo_rows_tx:
  "\<exists>t. refreshOracleAndMintTx (sc_u64 demo_context) env st e k up q s f v = Inr t"
  "\<exists>t. row_tx demo_context st e r = Inr t"
  by (simp_all add: demo_context_def refreshOracleAndMintTx_def row_tx_def updatePricesTx_def updateSviTx_def mintTx_def
      prices_part_def svi_part_def mint_part_def Let_def split: ScenarioRow.splits)

lemma demo_run: "\<exists>fx. executeScenario demo_context (\<lambda>_. demo_replies) (\<lambda>_. Num 1) demo_rows demo_state = (fx, Inr ())"
proof -
  have step: "\<exists>fx r. exec_step demo_context (\<lambda>_. demo_replies) (\<lambda>_. Num 1) n (Inr t) label = (fx, Inr r)" for n t label
    using demo_execute [of t label] by (auto simp: exec_step_def ret_def bindW_simps)
  have bind: "\<exists>fx b. bindW (exec_step demo_context (\<lambda>_. demo_replies) (\<lambda>_. Num 1) n tx label) f = (fx, Inr b)"
    if t: "\<exists>t. tx = Inr t" and f: "\<And>r. \<exists>fx b. f r = (fx, Inr b)" for n tx label and f :: "ExecutionResult \<Rightarrow> (sim_effect, by_action) run"
  proof -
    obtain fx r where "exec_step demo_context (\<lambda>_. demo_replies) (\<lambda>_. Num 1) n tx label = (fx, Inr r)"
      using t step by blast
    moreover obtain fx' b where "f r = (fx', Inr b)" using f by blast
    ultimately show ?thesis by (simp add: bindW_simps)
  qed
  have "\<exists>fx b. run_rows demo_context demo_state 7 (\<lambda>_. demo_replies) (\<lambda>_. Num 1) demo_rows 0 b0 = (fx, Inr b)" for b0
    unfolding demo_rows_def run_rows.simps by (intro bind demo_rows_tx) (simp add: ret_def)
  then show ?thesis by (force simp: executeScenario_def demo_expiry bindW_eq_Inr await_def emits_def)
qed

theorem scenario_batching_witness:
  "\<exists>fx gs res. splits_rows demo_context demo_state 7 demo_rows (executions fx) gs \<and> last fx = SaveResults res
    \<and> rf_totalTxs res = length gs \<and> length (rf_mints res) = 2"
proof -
  obtain fx where "executeScenario demo_context (\<lambda>_. demo_replies) (\<lambda>_. Num 1) demo_rows demo_state = (fx, Inr ())"
    using demo_run by blast
  moreover have "pure_encoder (sc_u64 demo_context)" by (simp add: pure_encoder_def demo_context_def)
  moreover note demo_expiry
  ultimately show ?thesis using scenario_batching [of demo_context demo_state 7 _ _ demo_rows fx]
    by (fastforce simp: demo_rows_def)
qed

section \<open>The setup\<close>

definition saved_states :: "sim_effect list \<Rightarrow> SimState list" where
  "saved_states fx = List.map_filter (\<lambda>e. case e of SaveState st \<Rightarrow> Some st | _ \<Rightarrow> None) fx"

lemma saved_states_append: "saved_states (xs @ ys) = saved_states xs @ saved_states ys"
  by (simp add: saved_states_def List.map_filter_def)

text \<open>A run that saves exactly the state it returns, and nothing when it fails.\<close>

definition saves_result :: "(sim_effect, SimState) run \<Rightarrow> bool" where
  "saves_result m \<longleftrightarrow> saved_states (fst m) = (case snd m of Inr st \<Rightarrow> [st] | Inl _ \<Rightarrow> [])"

lemma saves_result_bind:
  assumes "saved_states (fst m) = []" "\<And>v. saves_result (f v)"
  shows "saves_result (bindW m f)"
  using assms by (cases "snd m") (auto simp: saves_result_def bindW_def saved_states_append)

lemma read_attempts_effects: "saved_states (fst (read_attempts d reply e a n)) = [] \<and> executions (fst (read_attempts d reply e a n)) = []"
proof (induction n arbitrary: a e)
  case (Suc n)
  then show ?case by (auto simp: bindW_simps saved_states_def List.map_filter_simps split: sum.splits)
qed (simp add: saved_states_def List.map_filter_simps)

lemma wait_for_saves: "saved_states (fst (wait_for C rp n tx label budget)) = []"
proof -
  have "saved_states (fst (executeAndWait sf adr t label budget r)) = []" for sf adr t r
    using read_attempts_effects
    by (cases "ex_sign r 0") (auto simp: executeAndWait_def emits_def require_def bindW_simps getTransactionBlockWithRetry_def
      saved_states_append saved_states_def [of "[_]"] saved_states_def [of "[_, _]"] saved_states_def [of "[]"]
      List.map_filter_simps simp flip: append_Cons)
  then show ?thesis by (cases tx) (simp_all add: wait_for_def await_def bindW_simps saved_states_def List.map_filter_simps)
qed

lemma await_saves: "saved_states (fst (await r)) = []"
  by (simp add: await_def saved_states_def List.map_filter_simps)

lemma saves_final: "saves_result (bindW (emits (SaveState st)) (\<lambda>_. ret st))"
  by (simp add: saves_result_def emits_def ret_def bindW_simps saved_states_def List.map_filter_simps)

text \<open>The state file is written exactly by a setup that succeeds, once, and holds the state it returns.\<close>

theorem setup_saves_result: "saves_result (setupSimulation C now rp)"
  unfolding setupSimulation_def Let_def
  by (rule saves_final saves_result_bind wait_for_saves await_saves)+

end
