(* ===== verification/ConstantsFile.thy ===== *)
theory ConstantsFile
  imports JsData
begin

text \<open>
  \<open>updateConstant\<close> of \<open>utils.ts\<close>: the deployment scripts keep the identifiers of a deployment in the source text of
  \<open>constants.ts\<close> and replace them with a regular expression. The model follows the matcher: the leftmost
  position, the longest run without a closing brace, backtracking over it. The theory relates the
  edit of the text to the update of a list of definitions (locale \<open>text_store\<close>).
\<close>

section \<open>The matcher\<close>

abbreviation quote :: char where "quote \<equiv> CHR 0x22"

definition quoted :: "string \<Rightarrow> string" where
  "quoted v = quote # v @ [quote]"

text \<open>The end of the pattern: the network, blanks and a quoted value. The result is what the group keeps and the
  text behind the value.\<close>

definition field_at :: "string \<Rightarrow> string \<Rightarrow> (string \<times> string) option" where
  "field_at network s =
     (let key = network @ '':''; r = drop (length key) s in
      if starts_with key s
      then (case dropWhile is_space r of
              [] \<Rightarrow> None
            | c # v \<Rightarrow> (if c = quote \<and> quote \<in> set v
                        then Some (key @ takeWhile is_space r, tl (dropWhile (\<lambda>x. x \<noteq> quote) v)) else None))
      else None)"

text \<open>The longest run without a closing brace after which the end of the pattern matches.\<close>

fun longest_run :: "string \<Rightarrow> string \<Rightarrow> (string \<times> string) option" where
  "longest_run network [] = field_at network []"
| "longest_run network (c # cs) =
     (if c = CHR ''}'' then field_at network (c # cs)
      else case longest_run network cs of
          Some (a, b) \<Rightarrow> Some (c # a, b)
        | None \<Rightarrow> field_at network (c # cs))"

definition const_prefix :: "string \<Rightarrow> string" where
  "const_prefix name = ''export const '' @ name @ '' = ''"

definition constant_at :: "string \<Rightarrow> string \<Rightarrow> string \<Rightarrow> (string \<times> string) option" where
  "constant_at name network s =
     (let h = const_prefix name @ ''{'' in
      if starts_with h s then map_option (\<lambda>(a, b). (h @ a, b)) (longest_run network (drop (length h) s)) else None)"

fun first_match :: "string \<Rightarrow> string \<Rightarrow> string \<Rightarrow> (string \<times> string) option" where
  "first_match name network [] = None"
| "first_match name network (c # cs) =
     (case constant_at name network (c # cs) of
        Some m \<Rightarrow> Some m
      | None \<Rightarrow> map_option (\<lambda>(a, b). (c # a, b)) (first_match name network cs))"

text \<open>The message, with its dash as a hyphen.\<close>

definition no_match :: "string \<Rightarrow> string \<Rightarrow> js_error" where
  "no_match name network = Error (''updateConstant: no match for '' @ name @ ''['' @ network
     @ ''] in constants - check that the constant exists and the file format hasn'' @ [CHR 0x27] @ ''t drifted'')"

text \<open>The values are identifiers: they hold none of the patterns that \<open>replace\<close> would expand.\<close>

definition updateConstant :: "string \<Rightarrow> string \<Rightarrow> string \<Rightarrow> string \<Rightarrow> string res" where
  "updateConstant content name network v =
     (case first_match name network content of
        None \<Rightarrow> Inl (no_match name network)
      | Some (a, b) \<Rightarrow> Inr (a @ quoted v @ b))"

section \<open>Files as definitions\<close>

text \<open>A file is a list of braced blocks, each with the text before its brace, and a rest without braces. In a \<open>Const\<close>
  the network is the last field.\<close>

datatype block =
    Plain string string
  | Const string string string string string string

record consts_file =
  cf_blocks :: "block list"
  cf_rest :: string

fun block_head :: "block \<Rightarrow> string" where
  "block_head (Plain h b) = h"
| "block_head (Const gap name before ws v tail) = gap @ const_prefix name"

fun block_body :: "string \<Rightarrow> block \<Rightarrow> string" where
  "block_body network (Plain h b) = b"
| "block_body network (Const gap name before ws v tail) = before @ network @ '':'' @ ws @ quoted v @ tail"

definition block_text :: "string \<Rightarrow> block \<Rightarrow> string" where
  "block_text network b = block_head b @ ''{'' @ block_body network b @ ''}''"

definition file_text :: "string \<Rightarrow> consts_file \<Rightarrow> string" where
  "file_text network f = concat (map (block_text network) (cf_blocks f)) @ cf_rest f"

definition no_brace :: "string \<Rightarrow> bool" where
  "no_brace s \<longleftrightarrow> CHR ''{'' \<notin> set s \<and> CHR ''}'' \<notin> set s"

definition plain_name :: "string \<Rightarrow> bool" where
  "plain_name s \<longleftrightarrow> no_brace s \<and> CHR '' '' \<notin> set s \<and> CHR '':'' \<notin> set s"

text \<open>A value of the file: an identifier of the chain, or nothing.\<close>

definition plain_value :: "string \<Rightarrow> bool" where
  "plain_value v \<longleftrightarrow> no_brace v \<and> quote \<notin> set v \<and> CHR '':'' \<notin> set v"

text \<open>The name that the text before a brace defines, if any.\<close>

definition head_name :: "string \<Rightarrow> string option" where
  "head_name h =
     (let r = rev h; w = drop 3 r; rest = dropWhile (\<lambda>c. c \<noteq> CHR '' '') w
      in if starts_with (rev '' = '') r \<and> starts_with (rev ''export const '') rest
         then Some (rev (takeWhile (\<lambda>c. c \<noteq> CHR '' '') w)) else None)"

fun wf_block :: "block \<Rightarrow> bool" where
  "wf_block (Plain h b) \<longleftrightarrow> no_brace h \<and> no_brace b \<and> head_name h = None"
| "wf_block (Const gap name before ws v tail) \<longleftrightarrow>
     no_brace gap \<and> plain_name name \<and> no_brace before \<and> list_all is_space ws \<and> plain_value v \<and> no_brace tail \<and> CHR '':'' \<notin> set tail"

definition wf_file :: "consts_file \<Rightarrow> bool" where
  "wf_file f \<longleftrightarrow> list_all wf_block (cf_blocks f) \<and> no_brace (cf_rest f)"

fun set_block :: "string \<Rightarrow> string \<Rightarrow> block list \<Rightarrow> block list option" where
  "set_block n v [] = None"
| "set_block n v (Const gap name before ws old tail # bs) =
     (if name = n then Some (Const gap name before ws v tail # bs)
      else map_option (\<lambda>r. Const gap name before ws old tail # r) (set_block n v bs))"
| "set_block n v (Plain h b # bs) = map_option (\<lambda>r. Plain h b # r) (set_block n v bs)"

fun get_block :: "string \<Rightarrow> block list \<Rightarrow> string option" where
  "get_block n [] = None"
| "get_block n (Const gap name before ws v tail # bs) = (if name = n then Some v else get_block n bs)"
| "get_block n (Plain h b # bs) = get_block n bs"

definition set_const :: "string \<Rightarrow> string \<Rightarrow> consts_file \<Rightarrow> consts_file option" where
  "set_const n v f = map_option (\<lambda>bs. f\<lparr>cf_blocks := bs\<rparr>) (set_block n v (cf_blocks f))"

definition get_const :: "string \<Rightarrow> consts_file \<Rightarrow> string option" where
  "get_const n f = get_block n (cf_blocks f)"

section \<open>Where a definition starts\<close>

lemma starts_with_iff: "starts_with p s \<longleftrightarrow> (\<exists>z. s = p @ z)"
  by (auto simp: starts_with_def) (metis append_take_drop_id)

lemma head_name_prefix: "plain_name n \<Longrightarrow> head_name (z @ const_prefix n) = Some n"
proof -
  assume "plain_name n"
  then have "\<forall>c\<in>set (rev n). c \<noteq> CHR '' ''" by (auto simp: plain_name_def)
  then have "takeWhile (\<lambda>c. c \<noteq> CHR '' '') (rev n @ CHR '' '' # x) = rev n"
    "dropWhile (\<lambda>c. c \<noteq> CHR '' '') (rev n @ CHR '' '' # x) = CHR '' '' # x" for x
    by (simp_all add: takeWhile_append2 dropWhile_append2 del: set_rev)
  then show ?thesis by (simp add: head_name_def const_prefix_def Let_def starts_with_def)
qed

lemma const_prefix_chars: "plain_name n \<Longrightarrow> no_brace (const_prefix n)"
  by (simp add: const_prefix_def plain_name_def no_brace_def)

lemma append_brace_eq:
  assumes "u @ c # x = p @ c # q" "c \<notin> set u" "c \<notin> set p"
  shows "u = p" "x = q"
  using assms by (auto simp: append_eq_append_conv2 append_eq_Cons_conv Cons_eq_append_conv)

text \<open>In a block followed by anything, the head of a definition can only end at the brace of the block.\<close>

lemma header_position:
  assumes "no_brace u" "no_brace h" "no_brace b" "i < length (h @ ''{'' @ b @ ''}'')"
    and s: "starts_with (u @ ''{'') (drop i ((h @ ''{'' @ b @ ''}'') @ s))"
  shows "i \<le> length h \<and> drop i h = u"
proof (cases "i \<le> length h")
  case True
  with s obtain z where "u @ CHR ''{'' # z = drop i h @ CHR ''{'' # b @ ''}'' @ s" by (auto simp: starts_with_iff)
  from append_brace_eq(1) [OF this] show ?thesis
    using True assms(1,2) by (auto simp: no_brace_def dest: in_set_dropD)
next
  case False
  define w where "w = drop (i - length h - 1) b"
  have "drop i ((h @ ''{'' @ b @ ''}'') @ s) = w @ CHR ''}'' # s"
    using False assms(4) by (simp add: w_def drop_Cons')
  with s obtain z where z: "w @ CHR ''}'' # s = (u @ ''{'') @ z" by (auto simp: starts_with_iff)
  have "CHR ''}'' \<notin> set w" "CHR ''{'' \<notin> set w" using assms(3) by (auto simp: w_def no_brace_def dest: in_set_dropD)
  with z assms(1) show ?thesis
    by (auto simp: no_brace_def append_eq_append_conv2 append_eq_Cons_conv Cons_eq_append_conv)
qed

lemma constant_at_header: "constant_at n net s \<noteq> None \<Longrightarrow> starts_with (const_prefix n @ ''{'') s"
  by (auto simp: constant_at_def Let_def split: if_splits)

lemma first_match_skip:
  "(\<And>i. i < length p \<Longrightarrow> \<not> starts_with (const_prefix n @ ''{'') (drop i (p @ s)))
    \<Longrightarrow> first_match n net (p @ s) = map_option (\<lambda>(a, b). (p @ a, b)) (first_match n net s)"
proof (induction p)
  case Nil
  show ?case by (cases "first_match n net s") auto
next
  case (Cons c p)
  have "constant_at n net (c # p @ s) = None" using Cons.prems [of 0] constant_at_header [of n net "c # p @ s"] by (cases "constant_at n net (c # p @ s)") auto
  moreover have "first_match n net (p @ s) = map_option (\<lambda>(a, b). (p @ a, b)) (first_match n net s)"
    using Cons.prems [of "Suc i" for i] by (intro Cons.IH) auto
  ultimately show ?case by (cases "first_match n net s") auto
qed

section \<open>The edit of a definition\<close>

lemma field_at_key: "field_at net s \<noteq> None \<Longrightarrow> starts_with (net @ '':'') s"
  by (auto simp: field_at_def Let_def split: if_splits)

text \<open>Behind the key of the last field no other key starts before the brace.\<close>

lemma key_before_brace:
  assumes "CHR ''}'' \<notin> set net" "starts_with (net @ '':'') (y @ CHR ''}'' # r)"
  shows "\<exists>z. y = net @ '':'' @ z"
  using assms by (auto simp: starts_with_iff append_eq_append_conv2 append_eq_Cons_conv Cons_eq_append_conv)

lemma no_later_key:
  assumes "plain_name net" "CHR '':'' \<notin> set z" "net @ '':'' @ z = pre @ y" "pre \<noteq> []"
  shows "\<not> starts_with (net @ '':'') (y @ CHR ''}'' # r)"
proof
  have c: "CHR '':'' \<notin> set net" "CHR ''}'' \<notin> set net" using assms(1) by (auto simp: plain_name_def no_brace_def)
  assume "starts_with (net @ '':'') (y @ CHR ''}'' # r)"
  then obtain z' where "y = net @ '':'' @ z'" using key_before_brace c by blast
  then have e: "net @ CHR '':'' # z = (pre @ net) @ CHR '':'' # z'" using assms(3) by simp
  have none: "filter (\<lambda>x. x = CHR '':'') net = []" "filter (\<lambda>x. x = CHR '':'') z = []"
    using c(1) assms(2) by (auto simp: filter_empty_conv)
  have "length (filter (\<lambda>x. x = CHR '':'') pre) = 0"
    using arg_cong [OF e, of "\<lambda>l. length (filter (\<lambda>x. x = CHR '':'') l)"] none by simp
  then have "CHR '':'' \<notin> set (pre @ net)" using c(1) by (auto simp: filter_empty_conv)
  from append_brace_eq(1) [OF e c(1) this] assms(4) show False by simp
qed

lemma longest_run_none:
  assumes "CHR ''}'' \<notin> set y" "\<And>pre y'. y = pre @ y' \<Longrightarrow> \<not> starts_with (net @ '':'') (y' @ CHR ''}'' # r)"
  shows "longest_run net (y @ CHR ''}'' # r) = None"
  using assms
proof (induction y)
  case Nil
  then show ?case using field_at_key [of net "CHR ''}'' # r"] by (cases "field_at net (CHR ''}'' # r)") auto
next
  case (Cons c y)
  have "longest_run net (y @ CHR ''}'' # r) = None"
    using Cons.prems(1) Cons.prems(2) [of "c # pre" y' for pre y'] by (intro Cons.IH) auto
  moreover have "field_at net ((c # y) @ CHR ''}'' # r) = None"
    using field_at_key [of net "(c # y) @ CHR ''}'' # r"] Cons.prems(2) [of "[]" "c # y"]
    by (cases "field_at net ((c # y) @ CHR ''}'' # r)") auto
  ultimately show ?case using Cons.prems(1) by auto
qed

lemma field_at_value:
  assumes "list_all is_space ws" "quote \<notin> set v"
  shows "field_at net (net @ '':'' @ ws @ quoted v @ x) = Some (net @ '':'' @ ws, x)"
proof -
  have q: "\<not> is_space quote" by (simp add: is_space_def)
  have sp: "\<forall>c\<in>set ws. is_space c" using assms(1) by (simp add: list_all_iff)
  have "dropWhile is_space (ws @ quoted v @ x) = quoted v @ x" "takeWhile is_space (ws @ quoted v @ x) = ws"
    using sp q by (simp_all add: dropWhile_append2 takeWhile_append2 quoted_def)
  moreover have "dropWhile (\<lambda>c. c \<noteq> quote) (v @ quote # x) = quote # x"
    using assms(2) by (subst dropWhile_append2) auto
  ultimately show ?thesis by (simp add: field_at_def Let_def starts_with_def quoted_def)
qed

lemma longest_run_value:
  assumes net: "plain_name net" "net \<noteq> []" and "no_brace before" "list_all is_space ws" "plain_value v" "no_brace tail" "CHR '':'' \<notin> set tail"
  shows "longest_run net (before @ net @ '':'' @ ws @ quoted v @ tail @ CHR ''}'' # r) = Some (before @ net @ '':'' @ ws, tail @ CHR ''}'' # r)"
  using assms(3)
proof (induction before)
  case Nil
  obtain c cs where n: "net = c # cs" using net(2) by (cases net) auto
  define z where "z = ws @ quoted v @ tail"
  have wsc: "CHR '':'' \<notin> set ws" "CHR ''}'' \<notin> set ws" using assms(4) by (auto simp: list_all_iff is_space_def)
  then have z: "CHR '':'' \<notin> set z" "CHR ''}'' \<notin> set z" using assms(5-7) by (auto simp: z_def quoted_def plain_value_def no_brace_def)
  have "longest_run net ((cs @ '':'' @ z) @ CHR ''}'' # r) = None"
  proof (rule longest_run_none)
    show "CHR ''}'' \<notin> set (cs @ '':'' @ z)" using z net(1) by (simp add: n plain_name_def no_brace_def)
    show "\<not> starts_with (net @ '':'') (y' @ CHR ''}'' # r)" if "cs @ '':'' @ z = pre @ y'" for pre y'
      using no_later_key [OF net(1) z(1), of "c # pre" y' r] that by (simp add: n)
  qed
  moreover have "field_at net (net @ '':'' @ ws @ quoted v @ tail @ CHR ''}'' # r) = Some (net @ '':'' @ ws, tail @ CHR ''}'' # r)"
    using assms(4,5) by (intro field_at_value) (auto simp: plain_value_def)
  moreover have "c \<noteq> CHR ''}''" using net(1) by (auto simp: n plain_name_def no_brace_def)
  ultimately show ?case by (simp add: n z_def)
next
  case (Cons b before)
  then show ?case by (auto simp: no_brace_def)
qed

lemma block_no_brace: "wf_block b \<Longrightarrow> plain_name net \<Longrightarrow> no_brace (block_head b) \<and> no_brace (block_body net b)"
  by (cases b) (auto simp: no_brace_def plain_name_def plain_value_def const_prefix_def quoted_def list_all_iff is_space_def)

lemma skip_block:
  assumes "wf_block b" "plain_name net" "plain_name n" "head_name (block_head b) \<noteq> Some n"
  shows "first_match n net (block_text net b @ s) = map_option (\<lambda>(a, r). (block_text net b @ a, r)) (first_match n net s)"
proof (rule first_match_skip)
  fix i assume i: "i < length (block_text net b)"
  show "\<not> starts_with (const_prefix n @ ''{'') (drop i (block_text net b @ s))"
  proof
    assume h: "starts_with (const_prefix n @ ''{'') (drop i (block_text net b @ s))"
    have "drop i (block_head b) = const_prefix n"
      using header_position [of "const_prefix n" "block_head b" "block_body net b" i s]
        const_prefix_chars [OF assms(3)] block_no_brace [OF assms(1,2)] i h unfolding block_text_def by blast
    then have "block_head b = take i (block_head b) @ const_prefix n" by (metis append_take_drop_id)
    then have "head_name (block_head b) = Some n" using head_name_prefix [OF assms(3)] by metis
    with assms(4) show False ..
  qed
qed

lemma match_block:
  assumes "wf_block (Const gap n before ws v tail)" "plain_name net" "net \<noteq> []"
  shows "first_match n net (block_text net (Const gap n before ws v tail) @ s)
    = Some (gap @ const_prefix n @ ''{'' @ before @ net @ '':'' @ ws, tail @ ''}'' @ s)"
proof -
  define b where "b = Const gap n before ws v tail"
  define t where "t = const_prefix n @ ''{'' @ block_body net b @ ''}'' @ s"
  have n: "plain_name n" using assms(1) by simp
  have split: "block_text net b @ s = gap @ t" by (simp add: block_text_def b_def t_def)
  have "\<not> starts_with (const_prefix n @ ''{'') (drop i (gap @ t))" if i: "i < length gap" for i
  proof
    assume a: "starts_with (const_prefix n @ ''{'') (drop i (gap @ t))"
    have nb: "no_brace (block_head b)" "no_brace (block_body net b)"
      using block_no_brace [OF assms(1,2)] unfolding b_def by blast+
    have l: "i < length (block_head b @ ''{'' @ block_body net b @ ''}'')" using i by (simp add: b_def)
    have "starts_with (const_prefix n @ ''{'') (drop i ((block_head b @ ''{'' @ block_body net b @ ''}'') @ s))"
      using a unfolding split [symmetric] block_text_def .
    from header_position [OF const_prefix_chars [OF n] nb l this] have "drop i (block_head b) = const_prefix n" by simp
    then have "length (drop i (block_head b)) = length (const_prefix n)" by simp
    with i show False by (simp add: b_def)
  qed
  then have "first_match n net (gap @ t) = map_option (\<lambda>(a, r). (gap @ a, r)) (first_match n net t)" by (rule first_match_skip)
  moreover have "constant_at n net t = Some (const_prefix n @ ''{'' @ before @ net @ '':'' @ ws, tail @ ''}'' @ s)"
    using longest_run_value [OF assms(2,3), of before ws v tail s] assms(1)
    by (simp add: t_def b_def constant_at_def Let_def starts_with_def)
  moreover have "\<exists>c cs. t = c # cs" by (simp add: t_def const_prefix_def)
  ultimately have "first_match n net (gap @ t) = Some (gap @ const_prefix n @ ''{'' @ before @ net @ '':'' @ ws, tail @ ''}'' @ s)" by auto
  then show ?thesis unfolding split [symmetric] b_def .
qed

lemma no_header_in_rest: "no_brace r \<Longrightarrow> first_match n net r = None"
proof (induction r)
  case (Cons c r)
  have "CHR ''{'' \<in> set (c # r)" if "c # r = (const_prefix n @ ''{'') @ z" for z unfolding that by simp
  with Cons.prems have "\<not> starts_with (const_prefix n @ ''{'') (c # r)" unfolding starts_with_iff no_brace_def by blast
  with constant_at_header [of n net "c # r"] have "constant_at n net (c # r) = None" by (cases "constant_at n net (c # r)") auto
  with Cons show ?case by (simp add: no_brace_def)
qed simp

lemma update_blocks:
  assumes "list_all wf_block bs" "no_brace rest" "plain_name net" "net \<noteq> []" "plain_name n"
  shows "map_option (\<lambda>(a, b). a @ quoted v @ b) (first_match n net (concat (map (block_text net) bs) @ rest))
    = map_option (\<lambda>bs'. concat (map (block_text net) bs') @ rest) (set_block n v bs)"
  using assms(1)
proof (induction bs)
  case Nil
  then show ?case using assms(2) by (simp add: no_header_in_rest)
next
  case (Cons b bs)
  let ?s = "concat (map (block_text net) bs) @ rest"
  have wf: "wf_block b" and ih: "map_option (\<lambda>(a, b). a @ quoted v @ b) (first_match n net ?s)
    = map_option (\<lambda>bs'. concat (map (block_text net) bs') @ rest) (set_block n v bs)" using Cons by simp_all
  have skip: ?case if "head_name (block_head b) \<noteq> Some n" "set_block n v (b # bs) = map_option ((#) b) (set_block n v bs)"
    using skip_block [OF wf assms(3,5) that(1), of ?s] ih that(2)
    by (cases "first_match n net ?s"; cases "set_block n v bs") auto
  show ?case
  proof (cases b)
    case (Plain h t)
    with wf show ?thesis by (intro skip) auto
  next
    case (Const gap m before ws old tail)
    show ?thesis
    proof (cases "m = n")
      case True
      with wf Const have "wf_block (Const gap n before ws old tail)" by simp
      from match_block [OF this assms(3,4), of ?s] show ?thesis by (simp add: Const True block_text_def [of net "Const g k x w y t" for g k x w y t])
    next
      case False
      then show ?thesis using wf Const by (intro skip) (auto simp: head_name_prefix)
    qed
  qed
qed

lemma updateConstant_set:
  assumes "wf_file f" "plain_name net" "net \<noteq> []" "plain_name n"
  shows "updateConstant (file_text net f) n net v =
     (case set_const n v f of None \<Rightarrow> Inl (no_match n net) | Some f' \<Rightarrow> Inr (file_text net f'))"
  using update_blocks [of "cf_blocks f" "cf_rest f" net n v] assms
  by (cases "first_match n net (concat (map (block_text net) (cf_blocks f)) @ cf_rest f)"; cases "set_block n v (cf_blocks f)")
    (auto simp: updateConstant_def file_text_def set_const_def wf_file_def)

text \<open>C39. The edit of the text is the update of the first definition of the name, and fails exactly when the file
  does not define it; the new file reads the new value there and the old one everywhere else.\<close>

theorem updateConstant_refines:
  assumes "wf_file f" "plain_name net" "net \<noteq> []" "plain_name n"
  shows "updateConstant (file_text net f) n net v =
     (case set_const n v f of None \<Rightarrow> Inl (no_match n net) | Some f' \<Rightarrow> Inr (file_text net f'))"
  using assms by (rule updateConstant_set)

lemma set_block_laws:
  assumes "set_block n v bs = Some bs'"
  shows "get_block m bs' = (if m = n then Some v else get_block m bs)"
    and "list_all wf_block bs \<Longrightarrow> plain_value v \<Longrightarrow> list_all wf_block bs'"
  using assms by (induction n v bs arbitrary: bs' rule: set_block.induct) (auto split: if_splits)

text \<open>A definition without its value: what an edit keeps.\<close>

fun blank_block :: "block \<Rightarrow> block" where
  "blank_block (Const gap name before ws v tail) = Const gap name before ws [] tail"
| "blank_block (Plain h b) = Plain h b"

definition same_frame :: "consts_file \<Rightarrow> consts_file \<Rightarrow> bool" where
  "same_frame f f' \<longleftrightarrow> map blank_block (cf_blocks f) = map blank_block (cf_blocks f') \<and> cf_rest f = cf_rest f'"

lemma set_block_frame: "set_block n v bs = Some bs' \<Longrightarrow> map blank_block bs' = map blank_block bs"
  by (induction n v bs arbitrary: bs' rule: set_block.induct) (auto split: if_splits)

lemma set_block_defined: "set_block n v bs = None \<longleftrightarrow> get_block n bs = None"
  by (induction n v bs rule: set_block.induct) auto

section \<open>Sequences of edits\<close>

text \<open>The scripts replace several constants of one text in a row.\<close>

fun updateConstants :: "string \<Rightarrow> string \<Rightarrow> (string \<times> string) list \<Rightarrow> string res" where
  "updateConstants network content [] = Inr content"
| "updateConstants network content ((n, v) # r) =
     bindE (updateConstant content n network v) (\<lambda>c. updateConstants network c r)"

fun put_all :: "(string \<Rightarrow> string \<Rightarrow> 'f \<Rightarrow> 'f option) \<Rightarrow> (string \<times> string) list \<Rightarrow> 'f \<Rightarrow> 'f option" where
  "put_all put [] f = Some f"
| "put_all put ((n, v) # r) f = Option.bind (put n v f) (put_all put r)"

lemma put_all_append: "put_all put (xs @ ys) f = Option.bind (put_all put xs f) (put_all put ys)"
  by (induction put xs f rule: put_all.induct) (auto split: bind_splits)

text \<open>What a script relies on: an edit of the text is the update of a definition, which changes the value of that name
  only, and fails for a name that is not defined.\<close>

locale text_store =
  fixes render :: "'f \<Rightarrow> string"
    and wf :: "'f \<Rightarrow> bool"
    and get :: "string \<Rightarrow> 'f \<Rightarrow> string option"
    and put :: "string \<Rightarrow> string \<Rightarrow> 'f \<Rightarrow> 'f option"
    and err :: "string \<Rightarrow> js_error"
    and edit :: "string \<Rightarrow> string \<Rightarrow> string \<Rightarrow> string res"
    and edits :: "string \<Rightarrow> (string \<times> string) list \<Rightarrow> string res"
    and name_ok :: "string \<Rightarrow> bool"
    and value_ok :: "string \<Rightarrow> bool"
  assumes edit_put: "wf f \<Longrightarrow> name_ok n \<Longrightarrow>
      edit (render f) n v = (case put n v f of None \<Rightarrow> Inl (err n) | Some f' \<Rightarrow> Inr (render f'))"
    and put_undefined: "put n v f = None \<longleftrightarrow> get n f = None"
    and put_wf: "put n v f = Some f' \<Longrightarrow> wf f \<Longrightarrow> value_ok v \<Longrightarrow> wf f'"
    and get_put: "put n v f = Some f' \<Longrightarrow> get m f' = (if m = n then Some v else get m f)"
    and edits_nil: "edits c [] = Inr c"
    and edits_cons: "edits c ((n, v) # r) = bindE (edit c n v) (\<lambda>c'. edits c' r)"
begin

lemma put_all_get: "put_all put kvs f = Some f' \<Longrightarrow> get m f' = (case map_of (rev kvs) m of Some v \<Rightarrow> Some v | None \<Rightarrow> get m f)"
  by (induction kvs arbitrary: f) (auto simp: get_put map_add_def split: bind_splits option.splits)

lemma put_all_defined: "\<forall>n \<in> fst ` set kvs. get n f \<noteq> None \<Longrightarrow> \<exists>f'. put_all put kvs f = Some f'"
proof (induction kvs arbitrary: f)
  case (Cons kv kvs)
  obtain n v where kv: "kv = (n, v)" by (cases kv)
  obtain f1 where f1: "put n v f = Some f1" using Cons.prems put_undefined [of n v f] by (auto simp: kv)
  with Cons.prems have "\<forall>k \<in> fst ` set kvs. get k f1 \<noteq> None" by (auto simp: kv get_put)
  from Cons.IH [OF this] f1 show ?case by (simp add: kv)
qed simp

lemma edits_put_all:
  assumes "wf f" "\<forall>(n, v)\<in>set kvs. name_ok n \<and> value_ok v" "put_all put kvs f = Some f'"
  shows "edits (render f) kvs = Inr (render f') \<and> wf f'"
  using assms
proof (induction kvs arbitrary: f)
  case (Cons kv kvs)
  obtain n v where kv: "kv = (n, v)" by (cases kv)
  obtain f1 where f1: "put n v f = Some f1" "put_all put kvs f1 = Some f'" using Cons.prems(3) by (auto simp: kv split: bind_splits)
  have "wf f1" using put_wf [OF f1(1)] Cons.prems(1,2) by (auto simp: kv)
  with Cons.IH f1 Cons.prems(1,2) show ?case by (auto simp: kv edits_cons edit_put)
qed (simp add: edits_nil)

lemma edits_defined:
  assumes "wf f" "\<forall>(n, v)\<in>set kvs. name_ok n \<and> value_ok v \<and> get n f \<noteq> None"
  shows "\<exists>f'. edits (render f) kvs = Inr (render f') \<and> wf f' \<and> put_all put kvs f = Some f'
    \<and> (\<forall>m. get m f' = (case map_of (rev kvs) m of Some v \<Rightarrow> Some v | None \<Rightarrow> get m f))"
proof -
  obtain f' where f': "put_all put kvs f = Some f'" using put_all_defined [of kvs f] assms(2) by fastforce
  then show ?thesis using edits_put_all [OF assms(1) _ f'] put_all_get [OF f'] assms(2) by blast
qed

lemma edits_undefined:
  assumes "wf f" "\<forall>(n, v)\<in>set kvs. name_ok n \<and> value_ok v" "\<exists>(n, v)\<in>set kvs. get n f = None"
  shows "\<exists>e. edits (render f) kvs = Inl e"
  using assms
proof (induction kvs arbitrary: f)
  case (Cons kv kvs)
  obtain n v where kv: "kv = (n, v)" by (cases kv)
  have ok: "name_ok n" "value_ok v" using Cons.prems(2) by (auto simp: kv)
  show ?case
  proof (cases "put n v f")
    case None
    with Cons.prems(1) ok show ?thesis by (simp add: kv edits_cons edit_put)
  next
    case (Some f1)
    have "get n f \<noteq> None" using Some put_undefined [of n v f] by simp
    obtain k w where kw: "(k, w) \<in> set (kv # kvs)" "get k f = None" using Cons.prems(3) by blast
    with \<open>get n f \<noteq> None\<close> have "(k, w) \<in> set kvs" "k \<noteq> n" by (auto simp: kv)
    with kw(2) have "\<exists>(k, w)\<in>set kvs. get k f1 = None" using get_put [OF Some] by (intro bexI [of _ "(k, w)"]) simp_all
    with Cons.IH [of f1] put_wf [OF Some] Cons.prems(1,2) ok Some show ?thesis by (auto simp: kv edits_cons edit_put)
  qed
qed simp

end

interpretation testnet_file: text_store "file_text ''testnet''" wf_file get_const set_const "\<lambda>n. no_match n ''testnet''"
  "\<lambda>c n v. updateConstant c n ''testnet'' v" "updateConstants ''testnet''" plain_name plain_value
proof
  have t: "plain_name ''testnet''" by (simp add: plain_name_def no_brace_def)
  fix f f' n v m
  show "wf_file f \<Longrightarrow> plain_name n \<Longrightarrow> updateConstant (file_text ''testnet'' f) n ''testnet'' v
      = (case set_const n v f of None \<Rightarrow> Inl (no_match n ''testnet'') | Some f' \<Rightarrow> Inr (file_text ''testnet'' f'))"
    by (rule updateConstant_set) (simp_all add: t)
  show "set_const n v f = None \<longleftrightarrow> get_const n f = None"
    using set_block_defined [of n v "cf_blocks f"] by (simp add: set_const_def get_const_def)
  show "set_const n v f = Some f' \<Longrightarrow> wf_file f \<Longrightarrow> plain_value v \<Longrightarrow> wf_file f'"
    by (auto simp: set_const_def wf_file_def dest: set_block_laws(2))
  show "set_const n v f = Some f' \<Longrightarrow> get_const m f' = (if m = n then Some v else get_const m f)"
    by (auto simp: set_const_def get_const_def dest: set_block_laws(1) [of _ _ _ _ m])
qed simp_all

lemma put_all_frame: "put_all set_const kvs f = Some f' \<Longrightarrow> same_frame f f'"
proof (induction kvs arbitrary: f)
  case (Cons kv kvs)
  obtain n v f1 where f1: "set_const n v f = Some f1" "put_all set_const kvs f1 = Some f'"
    using Cons.prems by (cases kv) (auto split: bind_splits)
  have "same_frame f f1" using f1(1) by (auto simp: set_const_def same_frame_def dest: set_block_frame)
  with Cons.IH [OF f1(2)] show ?case by (simp add: same_frame_def)
qed (simp add: same_frame_def)

section \<open>A file\<close>

definition demo_file :: consts_file where
  "demo_file = \<lparr>cf_blocks =
     [Plain ''// ids'' '' x '', Const '' '' ''a'' '' mainnet: , '' '' '' ''0x1'' '' '', Const ''; '' ''ab'' [] [] [] '', ''], cf_rest = '';''\<rparr>"

definition demo_edited :: consts_file where
  "demo_edited = \<lparr>cf_blocks =
     [Plain ''// ids'' '' x '', Const '' '' ''a'' '' mainnet: , '' '' '' ''0x1'' '' '', Const ''; '' ''ab'' [] [] ''0x2'' '', ''], cf_rest = '';''\<rparr>"

theorem updateConstant_refines_witness:
  "updateConstant (file_text ''testnet'' demo_file) ''ab'' ''testnet'' ''0x2'' = Inr (file_text ''testnet'' demo_edited)
   \<and> updateConstant (file_text ''testnet'' demo_file) ''b'' ''testnet'' ''0x2'' = Inl (no_match ''b'' ''testnet'')"
proof -
  have w: "wf_file demo_file" by code_simp
  have t: "plain_name ''testnet''" "plain_name ''ab''" "plain_name ''b''" by (simp_all add: plain_name_def no_brace_def)
  have "set_const ''ab'' ''0x2'' demo_file = Some demo_edited" "set_const ''b'' ''0x2'' demo_file = None"
    by (simp_all add: set_const_def demo_file_def demo_edited_def)
  then show ?thesis
    using updateConstant_refines [OF w t(1) _ t(2), of "''0x2''"] updateConstant_refines [OF w t(1) _ t(3), of "''0x2''"] by simp
qed

end
