(* ===== verification/DeployTools.thy ===== *)
theory DeployTools
  imports ConstantsFile SuiTx ScriptMonad "HOL-Library.Product_Lexorder"
begin

text \<open>
  The rest of \<open>utils.ts\<close>: the choice of the \<open>sui\<close> binary, the publication of a package, the search for the signer,
  the client settings and the preparation of a transaction for several signers. Processes, the key store,
  key decoding and the answers of the node are arguments.
\<close>

section \<open>The binary\<close>

definition number_at :: "string \<Rightarrow> (int \<times> string) option" where
  "number_at s =
     (let ds = takeWhile is_digit s
      in if ds = [] then None
         else map_option (\<lambda>n. (to_double (int n), dropWhile is_digit s)) (parse_digits 10 0 ds))"

definition dot_number :: "string \<Rightarrow> (int \<times> string) option" where
  "dot_number s = (case s of c # r \<Rightarrow> if c = CHR ''.'' then number_at r else None | [] \<Rightarrow> None)"

type_synonym version = "int \<times> int \<times> int"

definition version_at :: "string \<Rightarrow> version option" where
  "version_at s =
     (let r = drop 3 s in
      if map lower_char (take 3 s) = ''sui'' \<and> r \<noteq> [] \<and> is_space (hd r)
      then Option.bind (number_at (dropWhile is_space r)) (\<lambda>(a, r).
           Option.bind (dot_number r) (\<lambda>(b, r).
           map_option (\<lambda>(c, r). (a, b, c)) (dot_number r)))
      else None)"

fun parseSuiVersion :: "string \<Rightarrow> version option" where
  "parseSuiVersion [] = None"
| "parseSuiVersion (c # cs) = (case version_at (c # cs) of Some v \<Rightarrow> Some v | None \<Rightarrow> parseSuiVersion cs)"

fun compareSuiVersions :: "version \<Rightarrow> version \<Rightarrow> int" where
  "compareSuiVersions (a, b, c) (a', b', c') =
     (if a \<noteq> a' then a - a' else if b \<noteq> b' then b - b' else if c \<noteq> c' then c - c' else 0)"

definition candidate_version :: "(string \<Rightarrow> string option) \<Rightarrow> string \<Rightarrow> version option" where
  "candidate_version getVersion binary =
     (case getVersion binary of
        None \<Rightarrow> None
      | Some raw \<Rightarrow> (if raw = [] then None else parseSuiVersion raw))"

definition better :: "(string \<Rightarrow> string option) \<Rightarrow> string \<Rightarrow> (string \<times> version) option \<Rightarrow> (string \<times> version) option" where
  "better getVersion binary best =
     (case candidate_version getVersion binary of
        None \<Rightarrow> best
      | Some v \<Rightarrow>
          (case best of
             None \<Rightarrow> Some (binary, v)
           | Some (b, w) \<Rightarrow> (if compareSuiVersions v w > 0 then Some (binary, v) else Some (b, w))))"

text \<open>\<open>[...new Set(candidates)]\<close> keeps the first occurrence of each path.\<close>

definition resolveSuiBinary :: "string option \<Rightarrow> string list \<Rightarrow> (string \<Rightarrow> string option) \<Rightarrow> string" where
  "resolveSuiBinary envBinary candidates getVersion =
     (case envBinary of
        Some (c # cs) \<Rightarrow> c # cs
      | _ \<Rightarrow> (case fold (better getVersion) (fold set_add candidates []) None of
               None \<Rightarrow> ''sui''
             | Some (b, v) \<Rightarrow> b))"

section \<open>Publishing\<close>

text \<open>\<open>build\<close> is the output of \<open>sui move build\<close> for a path: the modules and the dependencies.\<close>

definition publishPackage :: "(string \<Rightarrow> (string list \<times> string list) res) \<Rightarrow> string \<Rightarrow> Transaction \<Rightarrow> Transaction res" where
  "publishPackage build path tx =
     bindE (build path) (\<lambda>(ms, deps).
       let cap = next_result tx; tx = add_command (Publish ms deps) tx;
           sender = next_result tx; tx = add_command (MoveCall ''0x2::tx_context::sender'' []) tx
       in Inr (add_command (TransferObjects [cap] sender) tx))"

section \<open>The signer\<close>

datatype keypair = Ed25519 "nat list" | Secp256k1 "nat list" | Secp256r1 "nat list"

record key_tools =
  kt_decode :: "string \<Rightarrow> (string option \<times> nat list) res"
  kt_fromBase64 :: "string \<Rightarrow> nat list res"
  kt_address :: "nat list \<Rightarrow> string res"

definition signer_of_key :: "key_tools \<Rightarrow> string \<Rightarrow> keypair res" where
  "signer_of_key K key =
     bindE (kt_decode K key) (\<lambda>(schema, secret).
       if schema = None \<or> schema = Some ''ED25519'' then Inr (Ed25519 secret)
       else if schema = Some ''Secp256k1'' then Inr (Secp256k1 secret)
       else if schema = Some ''Secp256r1'' then Inr (Secp256r1 secret)
       else Inl (Error (''Keypair scheme not supported: '' @ the schema)))"

text \<open>The scan of the key store: a leading byte of 0 marks an Ed25519 key.\<close>

fun find_key :: "key_tools \<Rightarrow> string \<Rightarrow> string list \<Rightarrow> keypair res" where
  "find_key K sender [] = Inl (Error (''keypair not found for sender: '' @ sender))"
| "find_key K sender (priv # r) =
     bindE (kt_fromBase64 K priv) (\<lambda>raw.
       case raw of
         [] \<Rightarrow> find_key K sender r
       | b # secret \<Rightarrow>
           (if b \<noteq> 0 then find_key K sender r
            else bindE (kt_address K secret) (\<lambda>a. if a = sender then Inr (Ed25519 secret) else find_key K sender r)))"

definition deploy_getSigner :: "key_tools \<Rightarrow> string option \<Rightarrow> string res \<Rightarrow> string list res \<Rightarrow> keypair res" where
  "deploy_getSigner K private_key active keystore =
     (case private_key of
        Some (c # cs) \<Rightarrow> signer_of_key K (c # cs)
      | _ \<Rightarrow> bindE active (\<lambda>sender. bindE keystore (find_key K sender)))"

section \<open>The client\<close>

datatype Network = mainnet | testnet | devnet | localnet

record ClientConfig =
  cc_url :: string
  cc_network :: Network
  cc_mvr :: "string option"

definition getClient :: "(Network \<Rightarrow> string) \<Rightarrow> string option \<Rightarrow> Network \<Rightarrow> ClientConfig" where
  "getClient fullnode rpc_url network =
     \<lparr>cc_url = (case rpc_url of Some (c # cs) \<Rightarrow> c # cs | _ \<Rightarrow> fullnode network), cc_network = network,
      cc_mvr = (case network of
                  mainnet \<Rightarrow> Some ''https://mainnet.mvr.mystenlabs.com''
                | testnet \<Rightarrow> Some ''https://testnet.mvr.mystenlabs.com''
                | _ \<Rightarrow> None)\<rparr>"

section \<open>Transactions for several signers\<close>

record MultisigTx = Transaction +
  mx_gasPrice :: "int option"
  mx_expiration :: "int option"

datatype deploy_effect =
    DryRun MultisigTx
  | WriteFile string string

record multisig_replies =
  mr_systemState :: "(string \<times> string) res"
  mr_gasObject :: "(string \<times> string \<times> string) option res"
  mr_inspectBuild :: "string res"
  mr_dryRun :: "string res"
  mr_build :: "MultisigTx \<Rightarrow> string res"

text \<open>The fetched gas object, as the payment.\<close>

definition setupGasPayment :: "MultisigTx \<Rightarrow> (string \<times> string \<times> string) option res \<Rightarrow> MultisigTx res" where
  "setupGasPayment tx reply =
     bindE reply (\<lambda>obj. case obj of
         None \<Rightarrow> Inl (Error ''Invalid Gas Object supplied.'')
       | Some ref \<Rightarrow> Inr (tx\<lparr>tx_gasPayment := [ref]\<rparr>))"

definition inspectTransaction :: "MultisigTx \<Rightarrow> multisig_replies \<Rightarrow> (deploy_effect, bool) run" where
  "inspectTransaction tx rp =
     bindW (await (mr_inspectBuild rp)) (\<lambda>_.
     bindW (emits (DryRun tx)) (\<lambda>_.
     bindW (await (mr_dryRun rp)) (\<lambda>st. ret (st = ''success''))))"

definition output_location :: "string option \<Rightarrow> string" where
  "output_location node_env = (if node_env = Some ''development'' then ''./tx/tx-data-local.txt'' else ''./tx/tx-data.txt'')"

definition multisig_header :: "string \<Rightarrow> Transaction \<Rightarrow> int \<Rightarrow> int \<Rightarrow> MultisigTx" where
  "multisig_header sender tx referenceGasPrice epoch =
     \<lparr>tx_sender = Some sender, tx_gasPayment = tx_gasPayment tx, tx_commands = tx_commands tx,
      mx_gasPrice = Some (referenceGasPrice * 120 sdiv 100), mx_expiration = Some (epoch + 5)\<rparr>"

text \<open>The last build is not awaited: its failure writes nothing and does not fail the call.\<close>

definition prepareMultisigTx ::
  "Transaction \<Rightarrow> string option \<Rightarrow> string res \<Rightarrow> string option \<Rightarrow> string option \<Rightarrow> multisig_replies \<Rightarrow> (deploy_effect, unit) run" where
  "prepareMultisigTx tx address active gas_object node_env rp =
     bindW (await (case address of Some a \<Rightarrow> Inr a | None \<Rightarrow> active)) (\<lambda>adminAddress.
     bindW (require (gas_object \<noteq> None \<and> gas_object \<noteq> Some []) ''No gas object supplied for a mainnet transaction'') (\<lambda>_.
     bindW (await (mr_systemState rp)) (\<lambda>(epoch, price).
     bindW (await (BigInt price)) (\<lambda>price.
     bindW (await (case Number_of_string epoch of Some e \<Rightarrow> Inr e | None \<Rightarrow> Inl TypeError)) (\<lambda>epoch.
     bindW (await (setupGasPayment (multisig_header adminAddress tx price epoch) (mr_gasObject rp))) (\<lambda>mtx.
     bindW (inspectTransaction mtx rp) (\<lambda>dryRun.
     bindW (require dryRun ''This transaction failed.'') (\<lambda>_.
     (case mr_build rp mtx of
        Inl _ \<Rightarrow> ret ()
      | Inr bytes \<Rightarrow> emits (WriteFile (output_location node_env) bytes)))))))))) "

section \<open>The best version wins\<close>

lemma compare_versions: "compareSuiVersions v w > 0 \<longleftrightarrow> w < v"
  by (cases v; cases w) (auto simp: less_prod_def)

lemma better_fold:
  assumes "case best of None \<Rightarrow> True | Some (b, v) \<Rightarrow> b \<in> S \<and> candidate_version gv b = Some v"
  shows "(fold (better gv) cs best = None \<longleftrightarrow> best = None \<and> (\<forall>c\<in>set cs. candidate_version gv c = None))
    \<and> (\<forall>b v. fold (better gv) cs best = Some (b, v) \<longrightarrow> b \<in> S \<union> set cs \<and> candidate_version gv b = Some v
         \<and> (\<forall>c\<in>set cs. \<forall>w. candidate_version gv c = Some w \<longrightarrow> w \<le> v) \<and> (\<forall>c w. best = Some (c, w) \<longrightarrow> w \<le> v))"
  using assms
proof (induction cs arbitrary: best S)
  case Nil
  then show ?case by (auto split: option.splits)
next
  case (Cons c cs)
  have "case better gv c best of None \<Rightarrow> True | Some (b, v) \<Rightarrow> b \<in> insert c S \<and> candidate_version gv b = Some v"
    using Cons.prems by (auto simp: better_def split: option.splits)
  note ih = Cons.IH [OF this]
  show ?case
  proof (cases "candidate_version gv c")
    case None
    then have "better gv c best = best" by (simp add: better_def)
    with Cons.IH [OF Cons.prems] None show ?thesis by auto
  next
    case (Some v)
    have "\<exists>b' v'. better gv c best = Some (b', v') \<and> v \<le> v' \<and> (\<forall>d w. best = Some (d, w) \<longrightarrow> w \<le> v')"
    proof (cases best)
      case None
      with Some show ?thesis by (simp add: better_def)
    next
      case b: (Some dw)
      obtain d w where dw: "dw = (d, w)" by (cases dw)
      show ?thesis
      proof (cases "w < v")
        case True
        then have "better gv c best = Some (c, v)" by (simp add: better_def Some b dw compare_versions)
        with less_imp_le [OF True] b dw show ?thesis by (intro exI [of _ c] exI [of _ v]) auto
      next
        case False
        then have "better gv c best = Some (d, w)" by (simp add: better_def Some b dw compare_versions)
        with False b dw show ?thesis by (intro exI [of _ d] exI [of _ w]) auto
      qed
    qed
    then obtain b' v' where b: "better gv c best = Some (b', v')" "v \<le> v'" "\<forall>d w. best = Some (d, w) \<longrightarrow> w \<le> v'"
      by (elim exE conjE) (rule that)
    have "d \<in> S \<union> set (c # cs) \<and> candidate_version gv d = Some u \<and> (\<forall>x\<in>set (c # cs). \<forall>w. candidate_version gv x = Some w \<longrightarrow> w \<le> u)
        \<and> (\<forall>x w. best = Some (x, w) \<longrightarrow> w \<le> u)" if r: "fold (better gv) (c # cs) best = Some (d, u)" for d u
    proof -
      have "fold (better gv) cs (better gv c best) = Some (d, u)" using r by simp
      from conjunct2 [OF ih, rule_format, OF this] have h: "d \<in> insert c S \<union> set cs" "candidate_version gv d = Some u"
        "\<forall>x\<in>set cs. \<forall>w. candidate_version gv x = Some w \<longrightarrow> w \<le> u" "v' \<le> u" using b(1) by blast+
      from b(2) h(4) have "v \<le> u" by (rule order.trans)
      moreover have "w \<le> u" if "best = Some (x, w)" for x w using b(3) that h(4) order.trans by metis
      ultimately show ?thesis using h Some by (auto simp del: split_paired_All)
    qed
    moreover have "fold (better gv) (c # cs) best \<noteq> None" using ih by (simp add: b(1))
    ultimately show ?thesis using Some by (auto simp del: split_paired_All)
  qed
qed

lemma set_fold_add: "set (fold set_add cs acc) = set acc \<union> set cs"
  by (induction cs arbitrary: acc) auto

text \<open>Without a setting the scripts use a candidate of the highest version that answers, and the plain command name
  when none does.\<close>

theorem resolve_best:
  "resolveSuiBinary None cs gv = b \<Longrightarrow>
     (b = ''sui'' \<and> (\<forall>c\<in>set cs. candidate_version gv c = None))
     \<or> (\<exists>v. b \<in> set cs \<and> candidate_version gv b = Some v \<and> (\<forall>c\<in>set cs. \<forall>w. candidate_version gv c = Some w \<longrightarrow> w \<le> v))"
  using better_fold [where best = None and S = "{}" and gv = gv and cs = "fold set_add cs []"]
  by (auto simp: resolveSuiBinary_def set_fold_add split: option.splits)

section \<open>Signers\<close>

text \<open>The key that is found signs for the active address.\<close>

lemma find_key_owner: "find_key K sender ks = Inr k \<Longrightarrow> \<exists>s. k = Ed25519 s \<and> kt_address K s = Inr sender"
proof (induction ks)
  case (Cons priv r)
  then obtain raw where raw: "kt_fromBase64 K priv = Inr raw" by (auto simp: bindE_eq_Inr)
  show ?case
  proof (cases raw)
    case (Cons b secret)
    with Cons.prems Cons.IH raw show ?thesis by (auto simp: bindE_eq_Inr split: if_splits)
  qed (use Cons raw in \<open>simp add: bindE_def\<close>)
qed simp

section \<open>Multisig\<close>

definition written_files :: "deploy_effect list \<Rightarrow> (string \<times> string) list" where
  "written_files fx = List.map_filter (\<lambda>e. case e of WriteFile p b \<Rightarrow> Some (p, b) | _ \<Rightarrow> None) fx"

lemma written_bind:
  "w \<in> set (written_files (fst (bindW m f))) \<longleftrightarrow>
     w \<in> set (written_files (fst m)) \<or> (\<exists>u. snd m = Inr u \<and> w \<in> set (written_files (fst (f u))))"
  by (cases "snd m") (auto simp: bindW_def written_files_def List.map_filter_def)

lemma snd_bindW_Inr: "snd (bindW m f) = Inr v \<longleftrightarrow> (\<exists>u. snd m = Inr u \<and> snd (f u) = Inr v)"
  by (cases "snd m") (auto simp: bindW_def)

lemma written_atoms:
  "written_files [] = []"
  "written_files (fst (await x)) = []" "written_files (fst (require b msg)) = []" "written_files (fst (ret v)) = []"
  "written_files (fst (emits e)) = (case e of WriteFile p b \<Rightarrow> [(p, b)] | DryRun t \<Rightarrow> [])"
  by (auto simp: await_def require_def ret_def emits_def written_files_def List.map_filter_def split: deploy_effect.splits)

text \<open>A transaction reaches the file only after a dry run of that transaction succeeded; it carries the commands
  unchanged, a fifth more than the reference gas price and one gas object.\<close>

theorem multisig_checked:
  assumes "prepareMultisigTx tx address active gas_object node_env rp = (fx, r)" "(path, bytes) \<in> set (written_files fx)"
  shows "\<exists>mtx price. r = Inr () \<and> DryRun mtx \<in> set fx \<and> mr_dryRun rp = Inr ''success'' \<and> mr_build rp mtx = Inr bytes
    \<and> tx_commands mtx = tx_commands tx \<and> mx_gasPrice mtx = Some (price * 120 sdiv 100)
    \<and> (\<exists>epoch text. mr_systemState rp = Inr (epoch, text) \<and> BigInt text = Inr price)
    \<and> (\<exists>ref. mr_gasObject rp = Inr (Some ref) \<and> tx_gasPayment mtx = [ref])
    \<and> path = output_location node_env"
proof -
  define go where "go = (\<lambda>mtx. bindW (inspectTransaction mtx rp) (\<lambda>dryRun. bindW (require dryRun ''This transaction failed.'') (\<lambda>_.
      case mr_build rp mtx of Inl _ \<Rightarrow> ret () | Inr bytes \<Rightarrow> emits (WriteFile (output_location node_env) bytes))))"
  have w: "(path, bytes) \<in> set (written_files (fst (prepareMultisigTx tx address active gas_object node_env rp)))"
    using assms by simp
  then obtain a epoch ptext price e ref where in1: "(case address of Some a \<Rightarrow> Inr a | None \<Rightarrow> active) = Inr a"
      "gas_object \<noteq> None" "gas_object \<noteq> Some []" "mr_systemState rp = Inr (epoch, ptext)" "BigInt ptext = Inr price"
      "Number_of_string epoch = Some e" "mr_gasObject rp = Inr (Some ref)"
    and in2: "(path, bytes) \<in> set (written_files (fst (go ((multisig_header a tx price e)\<lparr>tx_gasPayment := [ref]\<rparr>))))"
    unfolding prepareMultisigTx_def go_def [symmetric]
    by (auto simp: written_bind written_atoms go_def [symmetric] await_def require_def setupGasPayment_def bindE_eq_Inr
        split: if_splits option.splits prod.splits)
  define mtx where "mtx = (multisig_header a tx price e)\<lparr>tx_gasPayment := [ref]\<rparr>"
  from in2 have out: "mr_dryRun rp = Inr ''success''" "mr_build rp mtx = Inr bytes" "path = output_location node_env" "\<exists>b. mr_inspectBuild rp = Inr b"
    unfolding mtx_def [symmetric] go_def inspectTransaction_def
    by (auto simp: written_bind written_atoms snd_bindW_Inr await_def require_def ret_def split: if_splits sum.splits)
  have "prepareMultisigTx tx address active gas_object node_env rp = ([DryRun mtx, WriteFile path bytes], Inr ())"
    using in1 out by (auto simp: prepareMultisigTx_def inspectTransaction_def bindW_simps await_def require_def emits_def ret_def
        setupGasPayment_def bindE_def mtx_def [symmetric])
  moreover have "tx_commands mtx = tx_commands tx" "mx_gasPrice mtx = Some (price * 120 sdiv 100)" "tx_gasPayment mtx = [ref]"
    by (simp_all add: mtx_def multisig_header_def)
  ultimately show ?thesis using assms(1) in1 out(1-3) by auto
qed

end
