(* ===== verification/PredictDeploy.thy ===== *)
theory PredictDeploy
  imports DeployTools JsDate "HOL-Library.Multiset"
begin

text \<open>
  The scripts under \<open>transactions/predict\<close> that deploy the prediction market on the test network: publish the
  packages, create the shared objects, mint and supply the test token, create oracles. Each signs
  transactions and records the identifiers it reads from the answer in \<open>constants.ts\<close>, whose text is passed along. The
  imported constants are those at the start of the script. Summaries on the console are left out;
  \<open>process.exit(1)\<close> is an error.
\<close>

section \<open>Answers\<close>

datatype change = Created string string | Published string "string list" | OtherChange

record tx_result =
  tr_status :: "string option"
  tr_changes :: "change list option"
  tr_digest :: string

record OracleEntry =
  oe_oracleId :: string
  oe_iso :: string
  oe_expiryMs :: int
  oe_asset :: string

datatype predict_effect =
    SignAndExecute Transaction
  | WaitFor string
  | WriteConstants string
  | WriteIndexer string
  | WriteOracles "OracleEntry list"
  | ResetDatabase string

type_synonym 'a deploy = "(predict_effect, 'a) run"

definition changes_of :: "tx_result \<Rightarrow> change list" where
  "changes_of r = (case tr_changes r of None \<Rightarrow> [] | Some cs \<Rightarrow> cs)"

text \<open>A loop that assigns at every match keeps the last one, a search keeps the first; nothing found is the empty
  text.\<close>

fun created_matches :: "(string \<Rightarrow> bool) \<Rightarrow> change list \<Rightarrow> string list" where
  "created_matches p [] = []"
| "created_matches p (Created t i # cs) = (if p t then i # created_matches p cs else created_matches p cs)"
| "created_matches p (_ # cs) = created_matches p cs"

definition last_created :: "(string \<Rightarrow> bool) \<Rightarrow> change list \<Rightarrow> string" where
  "last_created p cs = last ([] # created_matches p cs)"

definition first_created :: "(string \<Rightarrow> bool) \<Rightarrow> change list \<Rightarrow> string" where
  "first_created p cs = (case created_matches p cs of [] \<Rightarrow> [] | i # _ \<Rightarrow> i)"

fun last_published :: "string \<Rightarrow> change list \<Rightarrow> string \<Rightarrow> string" where
  "last_published m [] acc = acc"
| "last_published m (Published pkg ms # cs) acc = last_published m cs (if m \<in> set ms then pkg else acc)"
| "last_published m (_ # cs) acc = last_published m cs acc"

definition sign_and_check :: "Transaction \<Rightarrow> tx_result res \<Rightarrow> string \<Rightarrow> tx_result deploy" where
  "sign_and_check tx reply msg =
     bindW (emits (SignAndExecute tx)) (\<lambda>_.
     bindW (await reply) (\<lambda>r.
     bindW (require (tr_status r = Some ''success'') msg) (\<lambda>_. ret r)))"

definition wait_tx :: "tx_result \<Rightarrow> 'a res \<Rightarrow> 'a deploy" where
  "wait_tx r reply = bindW (emits (WaitFor (tr_digest r))) (\<lambda>_. await reply)"

text \<open>The text that is written is the text the next read returns.\<close>

definition write_constants :: "string \<Rightarrow> (string \<times> string) list \<Rightarrow> string deploy" where
  "write_constants content kvs =
     bindW (await (updateConstants ''testnet'' content kvs)) (\<lambda>c.
     bindW (emits (WriteConstants c)) (\<lambda>_. ret c))"

record deploy_constants =
  dc_dusdcPackageID :: string
  dc_dusdcCurrencyID :: string
  dc_dusdcTreasuryCapID :: string
  dc_predictPackageID :: string
  dc_predictRegistryID :: string
  dc_predictAdminCapID :: string
  dc_predictObjectID :: string
  dc_predictOracleCapID :: string
  dc_plpTreasuryCapID :: string

section \<open>The package list of the indexer\<close>

definition is_hex :: "char \<Rightarrow> bool" where
  "is_hex c \<longleftrightarrow> is_digit c \<or> (97 \<le> (of_char c :: nat) \<and> (of_char c :: nat) \<le> 102)"

definition indexer_prefix :: string where
  "indexer_prefix = ''const TESTNET_PREDICT_PACKAGES: &[&str] = &[''"

text \<open>The text behind the list, if the pattern matches here.\<close>

definition indexer_at :: "string \<Rightarrow> string option" where
  "indexer_at s =
     (let r = dropWhile is_space (drop (length indexer_prefix) s);
          h = drop 3 r; t = dropWhile is_hex h;
          u = (case drop 1 t of c # cs \<Rightarrow> if c = CHR '','' then cs else c # cs | [] \<Rightarrow> []);
          e = dropWhile is_space u
      in if starts_with indexer_prefix s \<and> starts_with (quote # ''0x'') r \<and> takeWhile is_hex h \<noteq> []
           \<and> starts_with [quote] t \<and> starts_with ''];'' e
         then Some (drop 2 e) else None)"

definition indexer_list :: "string \<Rightarrow> string" where
  "indexer_list packageId = indexer_prefix @ [CHR 0x0A] @ ''    '' @ quoted packageId @ '','' @ [CHR 0x0A] @ ''];''"

fun replace_indexer :: "string \<Rightarrow> string \<Rightarrow> string" where
  "replace_indexer packageId [] = []"
| "replace_indexer packageId (c # cs) =
     (case indexer_at (c # cs) of
        Some r \<Rightarrow> indexer_list packageId @ r
      | None \<Rightarrow> c # replace_indexer packageId cs)"

definition updateIndexerPackageId :: "string \<Rightarrow> string \<Rightarrow> unit deploy" where
  "updateIndexerPackageId packageId content = emits (WriteIndexer (replace_indexer packageId content))"

section \<open>Publishing the market\<close>

definition PREDICT_PATH :: string where "PREDICT_PATH = ''packages/predict''"

definition plpCapType :: "string \<Rightarrow> string" where
  "plpCapType packageId = ''0x2::coin::TreasuryCap<'' @ packageId @ ''::plp::PLP>''"

record published_ids =
  pi_packageId :: string
  pi_registryId :: string
  pi_adminCapId :: string
  pi_upgradeCapId :: string
  pi_plpTreasuryCapId :: string

definition ids_of :: "change list \<Rightarrow> published_ids" where
  "ids_of cs =
     (let packageId = last_published ''registry'' cs []
      in \<lparr>pi_packageId = packageId,
          pi_registryId = last_created (str_includes ''::registry::Registry'') cs,
          pi_adminCapId = last_created (str_includes ''::registry::AdminCap'') cs,
          pi_upgradeCapId = last_created (str_includes ''UpgradeCap'') cs,
          pi_plpTreasuryCapId = first_created (\<lambda>t. t = plpCapType packageId) cs\<rparr>)"

definition id_constants :: "published_ids \<Rightarrow> (string \<times> string) list" where
  "id_constants ids =
     [(''predictPackageID'', pi_packageId ids), (''predictRegistryID'', pi_registryId ids),
      (''predictAdminCapID'', pi_adminCapId ids), (''predictUpgradeCapID'', pi_upgradeCapId ids),
      (''plpTreasuryCapID'', pi_plpTreasuryCapId ids)]"

definition publishPredict ::
  "(string \<Rightarrow> (string list \<times> string list) res) \<Rightarrow> deploy_constants \<Rightarrow> string \<Rightarrow> tx_result res \<Rightarrow> string res
     \<Rightarrow> (published_ids \<times> string) deploy" where
  "publishPredict build C content reply checkpoint =
     bindW (require (dc_dusdcPackageID C \<noteq> [] \<and> dc_dusdcCurrencyID C \<noteq> [] \<and> dc_dusdcTreasuryCapID C \<noteq> []) ''exit 1'') (\<lambda>_.
     bindW (await (publishPackage build PREDICT_PATH new_Transaction)) (\<lambda>tx.
     bindW (sign_and_check tx reply ''exit 1'') (\<lambda>r.
     bindW (wait_tx r checkpoint) (\<lambda>_.
     let ids = ids_of (changes_of r) in
     bindW (require (pi_plpTreasuryCapId ids \<noteq> []) ''exit 1'') (\<lambda>_.
     bindW (write_constants content (id_constants ids @ [(''predictOracleCapID'', []), (''predictObjectID'', [])])) (\<lambda>c.
     ret (ids, c)))))))"

definition create_predict_tx :: "string \<Rightarrow> string \<Rightarrow> string \<Rightarrow> string \<Rightarrow> string \<Rightarrow> string \<Rightarrow> Transaction" where
  "create_predict_tx dusdc packageId registryId adminCapId currencyId plpTreasuryCapId =
     add_command (TypedCall (packageId @ ''::registry::create_predict'') [dusdc @ ''::dusdc::DUSDC'']
       [ObjArg registryId, ObjArg adminCapId, ObjArg currencyId, ObjArg plpTreasuryCapId, ObjArg ''0x6'']) new_Transaction"

definition initPredict :: "deploy_constants \<Rightarrow> published_ids \<Rightarrow> string \<Rightarrow> tx_result res \<Rightarrow> unit res \<Rightarrow> (string \<times> string) deploy" where
  "initPredict C ids content reply waited =
     bindW (sign_and_check (create_predict_tx (dc_dusdcPackageID C) (pi_packageId ids) (pi_registryId ids) (pi_adminCapId ids)
        (dc_dusdcCurrencyID C) (pi_plpTreasuryCapId ids)) reply ''exit 1'') (\<lambda>r.
     bindW (wait_tx r waited) (\<lambda>_.
     let predictId = first_created (str_includes ''::predict::Predict'') (changes_of r) in
     bindW (require (predictId \<noteq> []) ''exit 1'') (\<lambda>_.
     bindW (write_constants content [(''predictObjectID'', predictId)]) (\<lambda>c. ret (predictId, c)))))"

definition resetDatabase :: "string option \<Rightarrow> unit res \<Rightarrow> unit deploy" where
  "resetDatabase pg_port outcome =
     bindW (emits (ResetDatabase (case pg_port of None \<Rightarrow> ''5433'' | Some p \<Rightarrow> p))) (\<lambda>_.
     bindW (require (outcome = Inr ()) ''exit 1'') (\<lambda>_. ret ()))"

record redeploy_replies =
  rr_publish :: "tx_result res"
  rr_checkpoint :: "string res"
  rr_init :: "tx_result res"
  rr_waited :: "unit res"
  rr_database :: "unit res"

definition redeploy_main ::
  "(string \<Rightarrow> (string list \<times> string list) res) \<Rightarrow> keypair res \<Rightarrow> deploy_constants \<Rightarrow> string \<Rightarrow> string \<Rightarrow> string option
     \<Rightarrow> redeploy_replies \<Rightarrow> (published_ids \<times> string) deploy" where
  "redeploy_main build signer C content indexer pg_port rp =
     bindW (await signer) (\<lambda>_.
     bindW (publishPredict build C content (rr_publish rp) (rr_checkpoint rp)) (\<lambda>(ids, c).
     bindW (initPredict C ids c (rr_init rp) (rr_waited rp)) (\<lambda>(predictId, c).
     bindW (updateIndexerPackageId (pi_packageId ids) indexer) (\<lambda>_.
     bindW (resetDatabase pg_port (rr_database rp)) (\<lambda>_.
     ret (ids, predictId))))))"

section \<open>The single steps\<close>

definition publish_main ::
  "(string \<Rightarrow> (string list \<times> string list) res) \<Rightarrow> keypair res \<Rightarrow> string res \<Rightarrow> string \<Rightarrow> string \<Rightarrow> tx_result res \<Rightarrow> unit deploy" where
  "publish_main build signer active content indexer reply =
     bindW (await signer) (\<lambda>_. bindW (await active) (\<lambda>_.
     bindW (await (publishPackage build PREDICT_PATH new_Transaction)) (\<lambda>tx.
     bindW (sign_and_check tx reply ''exit 1'') (\<lambda>r.
     let ids = ids_of (changes_of r) in
     bindW (require (pi_plpTreasuryCapId ids \<noteq> []) ''exit 1'') (\<lambda>_.
     bindW (write_constants content (id_constants ids)) (\<lambda>_.
     let updated = replace_indexer (pi_packageId ids) indexer in
     bindW (require (updated \<noteq> indexer) ''publish: failed to update TESTNET_PREDICT_PACKAGES'') (\<lambda>_.
     emits (WriteIndexer updated))))))))"

definition DUSDC_PATH :: string where "DUSDC_PATH = ''packages/dusdc''"

definition dusdcPublish_main ::
  "(string \<Rightarrow> (string list \<times> string list) res) \<Rightarrow> keypair res \<Rightarrow> string \<Rightarrow> tx_result res \<Rightarrow> unit res \<Rightarrow> tx_result res
     \<Rightarrow> string deploy" where
  "dusdcPublish_main build signer content reply waited reply2 =
     bindW (await signer) (\<lambda>_.
     bindW (await (publishPackage build DUSDC_PATH new_Transaction)) (\<lambda>tx.
     bindW (sign_and_check tx reply ''exit 1'') (\<lambda>r.
     let pkg = last_published ''dusdc'' (changes_of r) [];
         cap = last_created (str_includes ''TreasuryCap'') (changes_of r);
         currency = last_created (\<lambda>t. str_includes ''::coin_registry::Currency<'' t \<and> str_includes ''::dusdc::DUSDC'' t) (changes_of r)
     in
     bindW (require (pkg \<noteq> [] \<and> cap \<noteq> [] \<and> currency \<noteq> []) ''exit 1'') (\<lambda>_.
     bindW (wait_tx r waited) (\<lambda>_.
     bindW (sign_and_check (add_command (TypedCall ''0x2::coin_registry::finalize_registration'' [pkg @ ''::dusdc::DUSDC'']
        [ObjArg ''0xc'', ObjArg currency]) new_Transaction) reply2 ''exit 1'') (\<lambda>r2.
     let shared = first_created (\<lambda>t. str_includes ''::coin_registry::Currency<'' t \<and> str_includes ''::dusdc::DUSDC>'' t) (changes_of r2) in
     bindW (require (shared \<noteq> []) ''exit 1'') (\<lambda>_.
     write_constants content [(''dusdcPackageID'', pkg), (''dusdcTreasuryCapID'', cap), (''dusdcCurrencyID'', shared)])))))))"

definition init_main :: "keypair res \<Rightarrow> deploy_constants \<Rightarrow> string \<Rightarrow> tx_result res \<Rightarrow> string deploy" where
  "init_main signer C content reply =
     bindW (await signer) (\<lambda>_.
     bindW (sign_and_check (create_predict_tx (dc_dusdcPackageID C) (dc_predictPackageID C) (dc_predictRegistryID C)
        (dc_predictAdminCapID C) (dc_dusdcCurrencyID C) (dc_plpTreasuryCapID C)) reply ''exit 1'') (\<lambda>r.
     write_constants content [(''predictObjectID'', first_created (str_includes ''::predict::Predict'') (changes_of r))]))"

definition createOracleCap_main :: "keypair res \<Rightarrow> string res \<Rightarrow> deploy_constants \<Rightarrow> string \<Rightarrow> tx_result res \<Rightarrow> string deploy" where
  "createOracleCap_main signer active C content reply =
     bindW (await signer) (\<lambda>_. bindW (await active) (\<lambda>address.
     let tx = new_Transaction; cap = next_result tx;
         tx = add_command (MoveCall (dc_predictPackageID C @ ''::registry::create_oracle_cap'') [ObjArg (dc_predictAdminCapID C)]) tx;
         tx = add_command (TransferObjects [cap] (AddrArg address)) tx
     in
     bindW (sign_and_check tx reply ''exit 1'') (\<lambda>r.
     write_constants content [(''predictOracleCapID'', last_created (str_includes ''::oracle::OracleSVICap'') (changes_of r))])))"

text \<open>The environment of the oracle scripts; \<open>u64\<close> encodes an integer.\<close>

definition env_int :: "string option \<Rightarrow> int \<Rightarrow> int res" where
  "env_int v dflt = (case v of None \<Rightarrow> Inr dflt | Some s \<Rightarrow> BigInt s)"

definition create_oracle_tx ::
  "(js_number \<Rightarrow> tx_arg res) \<Rightarrow> deploy_constants \<Rightarrow> string \<Rightarrow> int \<Rightarrow> int \<Rightarrow> int \<Rightarrow> Transaction res" where
  "create_oracle_tx u64 C underlying expiry minStrike tickSize =
     bindE (u64 (Num (of_int expiry))) (\<lambda>e. bindE (u64 (Num (of_int minStrike))) (\<lambda>m. bindE (u64 (Num (of_int tickSize))) (\<lambda>t.
     Inr (add_command (MoveCall (dc_predictPackageID C @ ''::registry::create_oracle'')
       [ObjArg (dc_predictRegistryID C), ObjArg (dc_predictObjectID C), ObjArg (dc_predictAdminCapID C),
        ObjArg (dc_predictOracleCapID C), StrArg underlying, e, m, t]) new_Transaction))))"

record oracle_env =
  oe_underlying :: "string option"
  oe_minStrike :: "string option"
  oe_tickSize :: "string option"
  oe_expiry :: "string option"
  oe_expiries :: "string option"
  oe_numExpiries :: "string option"

definition UNDERLYING_ASSET :: "oracle_env \<Rightarrow> string" where
  "UNDERLYING_ASSET E = (case oe_underlying E of None \<Rightarrow> ''BTC'' | Some u \<Rightarrow> u)"

definition createOracle_main ::
  "(js_number \<Rightarrow> tx_arg res) \<Rightarrow> keypair res \<Rightarrow> oracle_env \<Rightarrow> int \<Rightarrow> deploy_constants \<Rightarrow> string \<Rightarrow> tx_result res \<Rightarrow> string deploy" where
  "createOracle_main u64 signer E now C content reply =
     bindW (await (env_int (oe_minStrike E) 50000000000000)) (\<lambda>minStrike.
     bindW (await (env_int (oe_tickSize E) 1000000000)) (\<lambda>tickSize.
     bindW (await (case oe_expiry E of Some (c # cs) \<Rightarrow> BigInt (c # cs) | _ \<Rightarrow> Inr (now + 30 * 24 * 60 * 60 * 1000))) (\<lambda>expiry.
     bindW (await signer) (\<lambda>_.
     bindW (await (toISOString (to_double expiry))) (\<lambda>_.
     bindW (await (create_oracle_tx u64 C (UNDERLYING_ASSET E) expiry minStrike tickSize)) (\<lambda>tx.
     bindW (sign_and_check tx reply ''exit 1'') (\<lambda>r.
     write_constants content [(''predictOracleID'', first_created (str_includes ''::oracle::OracleSVI'') (changes_of r))])))))))"

definition mint_part_tx :: "(js_number \<Rightarrow> tx_arg res) \<Rightarrow> deploy_constants \<Rightarrow> int \<Rightarrow> Transaction \<Rightarrow> Transaction res" where
  "mint_part_tx u64 C amount tx =
     bindE (u64 (Num (of_int amount))) (\<lambda>a.
     Inr (add_command (TypedCall ''0x2::coin::mint'' [dc_dusdcPackageID C @ ''::dusdc::DUSDC''] [ObjArg (dc_dusdcTreasuryCapID C), a]) tx))"

definition dusdc_amount :: "string option \<Rightarrow> int res" where
  "dusdc_amount amount = bindE (env_int amount 1000000) (\<lambda>a. Inr (a * 1000000))"

definition deposit_main :: "(js_number \<Rightarrow> tx_arg res) \<Rightarrow> keypair res \<Rightarrow> string res \<Rightarrow> string option \<Rightarrow> deploy_constants \<Rightarrow> tx_result res \<Rightarrow> unit deploy" where
  "deposit_main u64 signer active amount C reply =
     bindW (await (dusdc_amount amount)) (\<lambda>a.
     bindW (await signer) (\<lambda>_. bindW (await active) (\<lambda>address.
     bindW (await (mint_part_tx u64 C a new_Transaction)) (\<lambda>tx.
     let coin = ResultArg 0; lpCoin = next_result tx;
         tx = add_command (TypedCall (dc_predictPackageID C @ ''::predict::supply'') [dc_dusdcPackageID C @ ''::dusdc::DUSDC'']
                [ObjArg (dc_predictObjectID C), coin, ObjArg ''0x6'']) tx;
         tx = add_command (TransferObjects [lpCoin] (AddrArg address)) tx
     in bindW (sign_and_check tx reply ''exit 1'') (\<lambda>_. ret ())))))"

definition dusdcMint_main ::
  "(js_number \<Rightarrow> tx_arg res) \<Rightarrow> keypair res \<Rightarrow> string res \<Rightarrow> string option \<Rightarrow> string option \<Rightarrow> deploy_constants \<Rightarrow> tx_result res \<Rightarrow> unit deploy" where
  "dusdcMint_main u64 signer active amount recipient C reply =
     bindW (await (dusdc_amount amount)) (\<lambda>a.
     bindW (await signer) (\<lambda>_. bindW (await active) (\<lambda>address.
     bindW (await (mint_part_tx u64 C a new_Transaction)) (\<lambda>tx.
     let tx = add_command (TransferObjects [ResultArg 0] (AddrArg (case recipient of None \<Rightarrow> address | Some r \<Rightarrow> r))) tx
     in bindW (sign_and_check tx reply ''exit 1'') (\<lambda>_. ret ())))))"

section \<open>Deploying oracles\<close>

text \<open>How often the loop over \<open>NUM_EXPIRIES\<close> runs; an infinite bound runs until the dates leave the range of a \<open>Date\<close>,
  where \<open>toISOString\<close> throws.\<close>

definition NUM_EXPIRIES :: "oracle_env \<Rightarrow> nat" where
  "NUM_EXPIRIES E =
     (case (case oe_numExpiries E of None \<Rightarrow> Num 5 | Some s \<Rightarrow> StringToNumber s) of
        Num r \<Rightarrow> nat \<lceil>r\<rceil> | Infinity negative \<Rightarrow> (if negative then 0 else 14300000) | NaN \<Rightarrow> 0)"

definition first_thursday :: "int \<Rightarrow> int" where
  "first_thursday now =
     (let dow = getUTCDay now; k = (4 - dow + 7) smod 7; daysUntilThursday = (if k = 0 then 7 else k)
      in now div MS_DAY * MS_DAY + 8 * MS_HOUR + daysUntilThursday * MS_DAY)"

fun weekly :: "int \<Rightarrow> nat \<Rightarrow> string list res" where
  "weekly d 0 = Inr []"
| "weekly d (Suc n) = bindE (toISOString d) (\<lambda>expiryIso. bindE (weekly (d + 7 * MS_DAY) n) (\<lambda>r. Inr (expiryIso # r)))"

definition resolveExpiries :: "(string \<Rightarrow> int option) \<Rightarrow> oracle_env \<Rightarrow> int \<Rightarrow> string list res" where
  "resolveExpiries parse E now =
     (let raw = (case oe_expiries E of None \<Rightarrow> [] | Some r \<Rightarrow> r) in
      if trim raw \<noteq> []
      then let list = filter (\<lambda>s. s \<noteq> []) (map trim (split_string '','' raw))
           in if list_ex (\<lambda>expiryIso. parse expiryIso = None) list \<or> list = [] then Inl (Error ''exit 1'') else Inr list
      else weekly (first_thursday now) (NUM_EXPIRIES E))"

text \<open>The loop over the expiries: here the wait comes before the check of the status.\<close>

fun deploy_loop ::
  "(js_number \<Rightarrow> tx_arg res) \<Rightarrow> (string \<Rightarrow> int option) \<Rightarrow> deploy_constants \<Rightarrow> string \<Rightarrow> int \<Rightarrow> int
     \<Rightarrow> (nat \<Rightarrow> tx_result res \<times> unit res) \<Rightarrow> string list \<Rightarrow> nat \<Rightarrow> OracleEntry list deploy" where
  "deploy_loop u64 parse C asset minStrike tickSize rp [] n = ret []"
| "deploy_loop u64 parse C asset minStrike tickSize rp (expiryIso # rest) n =
     bindW (await (case parse expiryIso of None \<Rightarrow> Inl TypeError | Some t \<Rightarrow> Inr t)) (\<lambda>expiryMs.
     bindW (await (create_oracle_tx u64 C asset expiryMs minStrike tickSize)) (\<lambda>tx.
     bindW (emits (SignAndExecute tx)) (\<lambda>_.
     bindW (await (fst (rp n))) (\<lambda>r.
     bindW (wait_tx r (snd (rp n))) (\<lambda>_.
     bindW (require (tr_status r = Some ''success'') ''exit 1'') (\<lambda>_.
     let oracleId = last_created (str_includes ''::oracle::OracleSVI'') (changes_of r) in
     bindW (require (oracleId \<noteq> []) ''exit 1'') (\<lambda>_.
     bindW (deploy_loop u64 parse C asset minStrike tickSize rp rest (Suc n)) (\<lambda>es.
     ret (\<lparr>oe_oracleId = oracleId, oe_iso = expiryIso, oe_expiryMs = expiryMs, oe_asset = asset\<rparr> # es)))))))))"

text \<open>\<open>existing\<close> is the imported list of the network, \<open>later\<close> the clock at the merge.\<close>

definition deployOracles_main ::
  "(js_number \<Rightarrow> tx_arg res) \<Rightarrow> (string \<Rightarrow> int option) \<Rightarrow> keypair res \<Rightarrow> string res \<Rightarrow> oracle_env \<Rightarrow> deploy_constants
     \<Rightarrow> OracleEntry list \<Rightarrow> int \<Rightarrow> int \<Rightarrow> (nat \<Rightarrow> tx_result res \<times> unit res) \<Rightarrow> OracleEntry list deploy" where
  "deployOracles_main u64 parse signer active E C existing now later rp =
     bindW (await (env_int (oe_minStrike E) 50000000000000)) (\<lambda>minStrike.
     bindW (await (env_int (oe_tickSize E) 1000000000)) (\<lambda>tickSize.
     bindW (await signer) (\<lambda>_. bindW (await active) (\<lambda>_.
     bindW (await (resolveExpiries parse E now)) (\<lambda>expiries.
     bindW (deploy_loop u64 parse C (UNDERLYING_ASSET E) minStrike tickSize rp expiries 0) (\<lambda>entries.
     let allOracles = sort_key oe_expiryMs (filter (\<lambda>o'. oe_expiryMs o' > later) existing @ entries) in
     bindW (emits (WriteOracles allOracles)) (\<lambda>_. ret entries)))))))"

section \<open>Thursdays\<close>

lemma first_thursday_facts:
  "getUTCDay (first_thursday now + 7 * int i * MS_DAY) = 4"
  "(first_thursday now + 7 * int i * MS_DAY) mod MS_DAY = 8 * MS_HOUR"
  "now < first_thursday now" "first_thursday now < now + 7 * MS_DAY + 8 * MS_HOUR + 1"
proof -
  define day where "day = now div MS_DAY"
  define k where "k = (let k = (4 - getUTCDay now + 7) smod 7 in if k = 0 then 7 else k)"
  have ms: "MS_DAY = 86400000" "MS_HOUR = 3600000" by (simp_all add: ms_defs)
  have dow: "getUTCDay now = (day + 4) mod 7" by (simp add: getUTCDay_def day_def)
  have r: "(4 - getUTCDay now + 7) smod 7 = (11 - getUTCDay now) mod 7"
    by (subst smod_nonneg) (auto simp: dow ms)
  have k_eq: "k = (if (11 - getUTCDay now) mod 7 = 0 then 7 else (11 - getUTCDay now) mod 7)" by (simp only: k_def Let_def r)
  have w: "getUTCDay now \<in> {0, 1, 2, 3, 4, 5, 6}"
  proof -
    have "getUTCDay now \<in> {0..6}" by (simp add: dow)
    then show ?thesis by (simp add: simp_from_to)
  qed
  have "(day + k + 4) mod 7 = (getUTCDay now + k) mod 7" unfolding dow mod_add_left_eq by (simp add: algebra_simps)
  then have k: "1 \<le> k" "k \<le> 7" "(day + k + 4) mod 7 = 4" using w by (auto simp: k_eq)
  have f: "first_thursday now = day * MS_DAY + 8 * MS_HOUR + k * MS_DAY"
    by (simp add: first_thursday_def Let_def k_def day_def)
  define z where "z = day + k + 7 * int i"
  have d: "first_thursday now + 7 * int i * MS_DAY = 28800000 + 86400000 * z" by (simp add: f z_def ms algebra_simps)
  show "(first_thursday now + 7 * int i * MS_DAY) mod MS_DAY = 8 * MS_HOUR" unfolding d by (simp add: ms)
  have "(28800000 + 86400000 * z) div 86400000 = z" by simp
  moreover have "(z + 4) mod 7 = 4"
    using k(3) mod_mult_self2 [of "day + k + 4" 7 "int i"] by (simp add: z_def algebra_simps)
  ultimately show "getUTCDay (first_thursday now + 7 * int i * MS_DAY) = 4" unfolding d by (simp add: getUTCDay_def ms)
  have "day * 86400000 \<le> now" "now < day * 86400000 + 86400000" by (simp_all add: day_def ms minus_mod_eq_mult_div [symmetric] algebra_simps)
  then show "now < first_thursday now" "first_thursday now < now + 7 * MS_DAY + 8 * MS_HOUR + 1"
    using k(1,2) unfolding f ms by (simp_all add: algebra_simps)
qed

lemma weekly_times:
  assumes "weekly d n = Inr isos"
  shows "length isos = n" "i < n \<Longrightarrow> toISOString (d + 7 * int i * MS_DAY) = Inr (isos ! i)"
  using assms
proof (induction n arbitrary: d isos i)
  case (Suc n)
  { case 1
    with Suc.IH(1) show ?case by (auto simp: bindE_eq_Inr)
  next
    case 2
    then obtain s r where sr: "toISOString d = Inr s" "weekly (d + 7 * MS_DAY) n = Inr r" "isos = s # r"
      by (auto simp: bindE_eq_Inr)
    show ?case
    proof (cases i)
      case (Suc j)
      with 2(1) Suc.IH(2) [OF _ sr(2), of j] show ?thesis by (simp add: sr(3) algebra_simps)
    qed (simp add: sr) }
qed simp_all

text \<open>Without a list of expiries the oracles expire on consecutive Thursdays at 08:00 UTC, all in the future and
  the first within a week of tomorrow morning.\<close>

theorem default_expiries:
  assumes "trim (case oe_expiries E of None \<Rightarrow> [] | Some r \<Rightarrow> r) = []" "resolveExpiries parse E now = Inr isos"
    and "i < length isos"
  shows "\<exists>t. toISOString t = Inr (isos ! i) \<and> t = first_thursday now + 7 * int i * MS_DAY \<and> now < t
    \<and> getUTCDay t = 4 \<and> t mod MS_DAY = 8 * MS_HOUR \<and> length isos = NUM_EXPIRIES E"
proof -
  have w: "weekly (first_thursday now) (NUM_EXPIRIES E) = Inr isos" using assms(1,2) by (simp add: resolveExpiries_def)
  have "0 \<le> 7 * int i * MS_DAY" by (simp add: ms_defs)
  with first_thursday_facts(3) [of now] have "now < first_thursday now + 7 * int i * MS_DAY" by linarith
  with weekly_times [OF w] assms(3) first_thursday_facts(1,2) [of now i] show ?thesis by simp
qed

section \<open>What is recorded\<close>

lemma deploy_loop_entries:
  assumes "deploy_loop u64 parse C asset minStrike tickSize rp isos n = (fx, Inr es)"
  shows "map oe_iso es = isos \<and> (\<forall>e\<in>set es. parse (oe_iso e) = Some (oe_expiryMs e) \<and> oe_oracleId e \<noteq> [] \<and> oe_asset e = asset)"
  using assms
proof (induction isos arbitrary: n fx es)
  case (Cons s isos)
  then obtain t i es' fx' where
    e: "parse s = Some t" "i \<noteq> []" "es = \<lparr>oe_oracleId = i, oe_iso = s, oe_expiryMs = t, oe_asset = asset\<rparr> # es'"
      "deploy_loop u64 parse C asset minStrike tickSize rp isos (Suc n) = (fx', Inr es')"
    by (auto simp: script_Inr wait_tx_def Let_def split: option.splits if_splits)
  with Cons.IH [OF e(4)] show ?case by auto
qed (simp add: ret_def)

text \<open>The written list of oracles is sorted by expiry and holds the entries that had not expired together with the
  new ones, one per requested expiry with its time and the identifier read from the answer.\<close>

theorem deployed_oracles_recorded:
  assumes "deployOracles_main u64 parse signer active E C existing now later rp = (fx, Inr entries)"
  shows "\<exists>written. last fx = WriteOracles written \<and> sorted (map oe_expiryMs written)
    \<and> mset written = mset (filter (\<lambda>o'. oe_expiryMs o' > later) existing) + mset entries
    \<and> resolveExpiries parse E now = Inr (map oe_iso entries)
    \<and> (\<forall>e\<in>set entries. parse (oe_iso e) = Some (oe_expiryMs e) \<and> oe_oracleId e \<noteq> [])"
proof -
  from assms obtain expiries fx1 fx2 m t n where r: "resolveExpiries parse E now = Inr expiries"
    "deploy_loop u64 parse C (UNDERLYING_ASSET E) m t rp expiries n = (fx1, Inr entries)"
    "fx = fx2 @ [WriteOracles (sort_key oe_expiryMs (filter (\<lambda>o'. oe_expiryMs o' > later) existing @ entries))]"
    unfolding deployOracles_main_def Let_def by (auto simp: script_Inr)
  show ?thesis using deploy_loop_entries [OF r(2)] r(1)
    by (intro exI [of _ "sort_key oe_expiryMs (filter (\<lambda>o'. oe_expiryMs o' > later) existing @ entries)"]) (simp add: r(3))
qed

definition constants_written :: "predict_effect list \<Rightarrow> string list" where
  "constants_written fx = List.map_filter (\<lambda>e. case e of WriteConstants c \<Rightarrow> Some c | _ \<Rightarrow> None) fx"

lemma constants_written_simps [simp]:
  "constants_written [] = []" "constants_written (WriteConstants c # fx) = c # constants_written fx"
  "constants_written (SignAndExecute tx # fx) = constants_written fx" "constants_written (WaitFor d # fx) = constants_written fx"
  "constants_written (WriteIndexer t # fx) = constants_written fx" "constants_written (ResetDatabase q # fx) = constants_written fx"
  by (simp_all add: constants_written_def List.map_filter_simps)

text \<open>What the node answers, said of the list of changes alone: the objects whose type passes a test are all this one,
  and there is one; one published package has this module.\<close>

definition only_created :: "(string \<Rightarrow> bool) \<Rightarrow> change list \<Rightarrow> string \<Rightarrow> bool" where
  "only_created p cs i \<longleftrightarrow> (\<exists>t. p t \<and> Created t i \<in> set cs) \<and> (\<forall>t j. Created t j \<in> set cs \<and> p t \<longrightarrow> j = i)"

definition only_published :: "string \<Rightarrow> change list \<Rightarrow> string \<Rightarrow> bool" where
  "only_published m cs pkg \<longleftrightarrow>
     (\<exists>ms. m \<in> set ms \<and> Published pkg ms \<in> set cs) \<and> (\<forall>q ms. Published q ms \<in> set cs \<and> m \<in> set ms \<longrightarrow> q = pkg)"

text \<open>The answer to the publication: the package with the module \<open>registry\<close> is \<open>pkg\<close>, the registry is
  \<open>reg\<close>, and so on.\<close>

definition publish_answer :: "change list \<Rightarrow> string \<Rightarrow> string \<Rightarrow> string \<Rightarrow> string \<Rightarrow> string \<Rightarrow> bool" where
  "publish_answer cs pkg reg adm up plp \<longleftrightarrow>
     only_published ''registry'' cs pkg
     \<and> only_created (str_includes ''::registry::Registry'') cs reg
     \<and> only_created (str_includes ''::registry::AdminCap'') cs adm
     \<and> only_created (str_includes ''UpgradeCap'') cs up
     \<and> only_created (\<lambda>t. t = ''0x2::coin::TreasuryCap<'' @ pkg @ ''::plp::PLP>'') cs plp"

lemma created_matches_set: "i \<in> set (created_matches p cs) \<longleftrightarrow> (\<exists>t. p t \<and> Created t i \<in> set cs)"
  by (induction p cs rule: created_matches.induct) auto

lemma only_created_iff:
  "only_created p cs i \<longleftrightarrow> (case created_matches p cs of [] \<Rightarrow> False | m # ms \<Rightarrow> m = i \<and> list_all (\<lambda>j. j = i) ms)"
proof -
  have "only_created p cs i \<longleftrightarrow> i \<in> set (created_matches p cs) \<and> (\<forall>j\<in>set (created_matches p cs). j = i)"
    unfolding only_created_def created_matches_set Ball_def by blast
  then show ?thesis by (cases "created_matches p cs") (auto simp: list_all_iff)
qed

lemma only_created_matches:
  assumes "only_created p cs i"
  shows "last_created p cs = i" "first_created p cs = i"
proof -
  obtain ms where ms: "created_matches p cs = i # ms" "list_all (\<lambda>j. j = i) ms"
    using assms by (auto simp: only_created_iff split: list.splits)
  then show "first_created p cs = i" by (simp add: first_created_def)
  show "last_created p cs = i" using ms last_in_set [of ms] by (simp add: last_created_def list_all_iff)
qed

lemma last_published_in:
  "last_published m cs acc = acc \<and> (\<forall>q ms. Published q ms \<in> set cs \<longrightarrow> m \<notin> set ms)
   \<or> (\<exists>ms. Published (last_published m cs acc) ms \<in> set cs \<and> m \<in> set ms)"
proof (induction m cs acc rule: last_published.induct)
  case (2 m pkg ms cs acc)
  show ?case
  proof (cases "last_published m (Published pkg ms # cs) acc = acc \<and> m \<notin> set ms \<and> (\<forall>q ns. Published q ns \<in> set cs \<longrightarrow> m \<notin> set ns)")
    case False
    with 2 show ?thesis by (cases "m \<in> set ms") auto
  qed auto
qed auto

lemma only_published_last: "only_published m cs pkg \<Longrightarrow> last_published m cs [] = pkg"
  using last_published_in [of m cs "[]"] by (auto simp: only_published_def)

lemma publish_answer_ids:
  "publish_answer cs pkg reg adm up plp \<Longrightarrow>
   ids_of cs = \<lparr>pi_packageId = pkg, pi_registryId = reg, pi_adminCapId = adm, pi_upgradeCapId = up, pi_plpTreasuryCapId = plp\<rparr>"
  unfolding publish_answer_def by (elim conjE) (simp add: ids_of_def Let_def plpCapType_def only_published_last only_created_matches)

text \<open>The seven constants of a deployment of the market, and the edits that follow its publication.\<close>

definition market_constants :: "string list" where
  "market_constants = [''predictPackageID'', ''predictRegistryID'', ''predictAdminCapID'', ''predictUpgradeCapID'', ''plpTreasuryCapID'',
     ''predictOracleCapID'', ''predictObjectID'']"

abbreviation (input) first_values :: "string \<Rightarrow> string \<Rightarrow> string \<Rightarrow> string \<Rightarrow> string \<Rightarrow> (string \<times> string) list" where
  "first_values pkg reg adm up plp \<equiv>
     [(''predictPackageID'', pkg), (''predictRegistryID'', reg), (''predictAdminCapID'', adm), (''predictUpgradeCapID'', up),
      (''plpTreasuryCapID'', plp), (''predictOracleCapID'', []), (''predictObjectID'', [])]"

lemma plain_empty [simp]: "plain_value []"
  by (simp add: plain_value_def no_brace_def)

lemma market_names: "n \<in> set market_constants \<Longrightarrow> plain_name n"
  by (auto simp: market_constants_def plain_name_def no_brace_def)

lemma redeploy_edits:
  assumes f: "wf_file f" "\<forall>n\<in>set market_constants. get_const n f \<noteq> None"
    and v: "plain_value pkg" "plain_value reg" "plain_value adm" "plain_value up" "plain_value plp" "plain_value predictId"
  obtains f1 f2 where
    "updateConstants ''testnet'' (file_text ''testnet'' f) (first_values pkg reg adm up plp) = Inr (file_text ''testnet'' f1)"
    "put_all set_const (first_values pkg reg adm up plp) f = Some f1"
    "updateConstants ''testnet'' (file_text ''testnet'' f1) [(''predictObjectID'', predictId)] = Inr (file_text ''testnet'' f2)"
    "set_const ''predictObjectID'' predictId f1 = Some f2" "wf_file f2" "same_frame f f2"
    "\<And>m. get_const m f2 = (case map_of (first_values pkg reg adm up plp) m of None \<Rightarrow> get_const m f
       | Some v \<Rightarrow> Some (if m = ''predictObjectID'' then predictId else v))"
proof -
  let ?kvs = "first_values pkg reg adm up plp"
  have "\<forall>(n, v)\<in>set ?kvs. n \<in> set market_constants \<and> plain_value v" using v by (simp add: market_constants_def)
  then have "\<forall>(n, v)\<in>set ?kvs. plain_name n \<and> plain_value v \<and> get_const n f \<noteq> None" using market_names f(2) by blast
  from testnet_file.edits_defined [OF f(1) this] obtain f1 where
    f1: "updateConstants ''testnet'' (file_text ''testnet'' f) ?kvs = Inr (file_text ''testnet'' f1)" "wf_file f1" "put_all set_const ?kvs f = Some f1"
    "\<forall>m. get_const m f1 = (case map_of (rev ?kvs) m of Some v \<Rightarrow> Some v | None \<Rightarrow> get_const m f)" by blast
  let ?o = "[(''predictObjectID'', predictId)]"
  have "get_const ''predictObjectID'' f1 = Some []" by (simp add: f1(4))
  then have "\<forall>(n, v)\<in>set ?o. plain_name n \<and> plain_value v \<and> get_const n f1 \<noteq> None"
    using v(6) by (simp add: market_names market_constants_def)
  from testnet_file.edits_defined [OF f1(2) this] obtain f2 where
    f2: "updateConstants ''testnet'' (file_text ''testnet'' f1) ?o = Inr (file_text ''testnet'' f2)" "wf_file f2" "put_all set_const ?o f1 = Some f2"
    "\<forall>m. get_const m f2 = (case map_of (rev ?o) m of Some v \<Rightarrow> Some v | None \<Rightarrow> get_const m f1)" by blast
  have "same_frame f f2" using put_all_frame [OF f1(3)] put_all_frame [OF f2(3)] by (simp add: same_frame_def)
  moreover have "get_const m f2 = (case map_of ?kvs m of None \<Rightarrow> get_const m f
      | Some v \<Rightarrow> Some (if m = ''predictObjectID'' then predictId else v))" for m by (simp add: f2(4) f1(4))
  moreover have "set_const ''predictObjectID'' predictId f1 = Some f2" using f2(3) by (simp split: bind_splits)
  ultimately show ?thesis using f1(1,3) f2(1,2) by (intro that)
qed

text \<open>C40. When every transaction succeeds, the answer to the publication shows the package \<open>pkg\<close> with its
  registry, administration, upgrade and treasury capabilities, and the answer to the second transaction the market
  \<open>predictId\<close>, a redeployment over a well-formed file that defines the seven constants finishes with these effects in
  order: the publication, the file with the five identifiers each under its own name and the oracle capability and the
  market cleared, the creation of the market from the new registry, its capability, the currency and the treasury
  capability, the file with the market as well, the package in the indexer, and the database. Every other constant
  keeps its value, and everything in the file but these values, the mainnet ones included, is as it was.\<close>

theorem redeploy_records:
  assumes "build PREDICT_PATH = Inr package" "signer = Inr key"
    and "dc_dusdcPackageID C \<noteq> []" "dc_dusdcCurrencyID C \<noteq> []" "dc_dusdcTreasuryCapID C \<noteq> []"
    and "rr_publish rp = Inr r" "tr_status r = Some ''success''" "publish_answer (changes_of r) pkg reg adm up plp"
    and "rr_checkpoint rp = Inr cp" "rr_init rp = Inr r2" "tr_status r2 = Some ''success''"
    and "only_created (str_includes ''::predict::Predict'') (changes_of r2) predictId" "rr_waited rp = Inr ()" "rr_database rp = Inr ()"
    and "plp \<noteq> []" "predictId \<noteq> []" "\<forall>i\<in>{pkg, reg, adm, up, plp, predictId}. plain_value i"
    and "wf_file f" "\<forall>n\<in>set market_constants. get_const n f \<noteq> None"
  shows "\<exists>tx f1 f2. publishPackage build PREDICT_PATH new_Transaction = Inr tx
    \<and> redeploy_main build signer C (file_text ''testnet'' f) indexer pg_port rp =
        ([SignAndExecute tx, WaitFor (tr_digest r), WriteConstants (file_text ''testnet'' f1),
          SignAndExecute (add_command (TypedCall (pkg @ ''::registry::create_predict'') [dc_dusdcPackageID C @ ''::dusdc::DUSDC'']
            [ObjArg reg, ObjArg adm, ObjArg (dc_dusdcCurrencyID C), ObjArg plp, ObjArg ''0x6'']) new_Transaction),
          WaitFor (tr_digest r2), WriteConstants (file_text ''testnet'' f2),
          WriteIndexer (replace_indexer pkg indexer), ResetDatabase (case pg_port of None \<Rightarrow> ''5433'' | Some p \<Rightarrow> p)],
         Inr (\<lparr>pi_packageId = pkg, pi_registryId = reg, pi_adminCapId = adm, pi_upgradeCapId = up, pi_plpTreasuryCapId = plp\<rparr>, predictId))
    \<and> put_all set_const [(''predictPackageID'', pkg), (''predictRegistryID'', reg), (''predictAdminCapID'', adm),
        (''predictUpgradeCapID'', up), (''plpTreasuryCapID'', plp), (''predictOracleCapID'', []), (''predictObjectID'', [])] f = Some f1
    \<and> set_const ''predictObjectID'' predictId f1 = Some f2 \<and> wf_file f2 \<and> same_frame f f2
    \<and> get_const ''predictPackageID'' f2 = Some pkg \<and> get_const ''predictRegistryID'' f2 = Some reg
    \<and> get_const ''predictAdminCapID'' f2 = Some adm \<and> get_const ''predictUpgradeCapID'' f2 = Some up
    \<and> get_const ''plpTreasuryCapID'' f2 = Some plp \<and> get_const ''predictOracleCapID'' f2 = Some []
    \<and> get_const ''predictObjectID'' f2 = Some predictId
    \<and> (\<forall>m. m \<notin> set market_constants \<longrightarrow> get_const m f2 = get_const m f)"
proof -
  obtain f1 f2 where
    e: "updateConstants ''testnet'' (file_text ''testnet'' f) (first_values pkg reg adm up plp) = Inr (file_text ''testnet'' f1)"
    "put_all set_const (first_values pkg reg adm up plp) f = Some f1"
    "updateConstants ''testnet'' (file_text ''testnet'' f1) [(''predictObjectID'', predictId)] = Inr (file_text ''testnet'' f2)"
    "set_const ''predictObjectID'' predictId f1 = Some f2" "wf_file f2" "same_frame f f2"
    and g: "get_const m f2 = (case map_of (first_values pkg reg adm up plp) m of None \<Rightarrow> get_const m f
       | Some v \<Rightarrow> Some (if m = ''predictObjectID'' then predictId else v))" for m
    using redeploy_edits [OF assms(18,19), of pkg reg adm up plp predictId] assms(17) by blast
  obtain tx where tx: "publishPackage build PREDICT_PATH new_Transaction = Inr tx"
    using assms(1) by (cases package) (simp add: publishPackage_def bindE_def Let_def)
  let ?ids = "\<lparr>pi_packageId = pkg, pi_registryId = reg, pi_adminCapId = adm, pi_upgradeCapId = up, pi_plpTreasuryCapId = plp\<rparr>"
  have p: "publishPredict build C (file_text ''testnet'' f) (rr_publish rp) (rr_checkpoint rp)
      = ([SignAndExecute tx, WaitFor (tr_digest r), WriteConstants (file_text ''testnet'' f1)], Inr (?ids, file_text ''testnet'' f1))"
    using assms(3-7,9,15) tx e(1)
    by (simp add: publishPredict_def sign_and_check_def wait_tx_def write_constants_def id_constants_def script_atoms
        publish_answer_ids [OF assms(8)] del: updateConstants.simps)
  have i: "initPredict C ?ids (file_text ''testnet'' f1) (rr_init rp) (rr_waited rp)
      = ([SignAndExecute (create_predict_tx (dc_dusdcPackageID C) pkg reg adm (dc_dusdcCurrencyID C) plp), WaitFor (tr_digest r2),
          WriteConstants (file_text ''testnet'' f2)], Inr (predictId, file_text ''testnet'' f2))"
    using assms(10,11,13,16) e(3)
    by (simp add: initPredict_def sign_and_check_def wait_tx_def write_constants_def script_atoms
        only_created_matches(2) [OF assms(12)] del: updateConstants.simps)
  show ?thesis using tx e(2,4-6)
    by (intro exI [of _ tx] exI [of _ f1] exI [of _ f2] conjI)
      (simp_all add: redeploy_main_def p i assms(2,14) create_predict_tx_def updateIndexerPackageId_def resetDatabase_def script_atoms
        g market_constants_def del: put_all.simps)
qed

definition demo_consts :: consts_file where
  "demo_consts = \<lparr>cf_blocks =
     Plain ''const x = '' '' a ''
     # map (\<lambda>n. Const '' '' n '' mainnet: , '' '' '' ''0x1'' '' '')
       [''dusdcPackageID'', ''predictPackageID'', ''predictRegistryID'', ''predictAdminCapID'', ''predictUpgradeCapID'',
        ''plpTreasuryCapID'', ''predictOracleCapID'', ''predictObjectID''], cf_rest = ''; ''\<rparr>"

definition demo_deploy :: deploy_constants where
  "demo_deploy = \<lparr>dc_dusdcPackageID = ''0xd'', dc_dusdcCurrencyID = ''0xe'', dc_dusdcTreasuryCapID = ''0xf'', dc_predictPackageID = [],
     dc_predictRegistryID = [], dc_predictAdminCapID = [], dc_predictObjectID = [], dc_predictOracleCapID = [], dc_plpTreasuryCapID = []\<rparr>"

definition demo_publish :: tx_result where
  "demo_publish = \<lparr>tr_status = Some ''success'', tr_changes = Some [Published ''0xa'' [''plp'', ''registry''],
        Created ''0xa::registry::Registry'' ''0xb'', Created ''0xa::registry::AdminCap'' ''0xc'', Created ''0x2::package::UpgradeCap'' ''0x5'',
        Created ''0x2::coin::TreasuryCap<0xa::plp::PLP>'' ''0x7''], tr_digest = ''d1''\<rparr>"

definition demo_init :: tx_result where
  "demo_init = \<lparr>tr_status = Some ''success'', tr_changes = Some [OtherChange, Created ''0xa::predict::Predict'' ''0x8''], tr_digest = ''d2''\<rparr>"

definition demo_redeploy :: redeploy_replies where
  "demo_redeploy = \<lparr>rr_publish = Inr demo_publish, rr_checkpoint = Inr ''9'', rr_init = Inr demo_init, rr_waited = Inr (), rr_database = Inr ()\<rparr>"

lemma demo_answers: "publish_answer (changes_of demo_publish) ''0xa'' ''0xb'' ''0xc'' ''0x5'' ''0x7''"
  "only_created (str_includes ''::predict::Predict'') (changes_of demo_init) ''0x8''"
proof -
  have "only_published ''registry'' (changes_of demo_publish) ''0xa''"
    by (auto simp: only_published_def changes_of_def demo_publish_def)
  moreover have "only_created (str_includes ''::registry::Registry'') (changes_of demo_publish) ''0xb''"
    "only_created (str_includes ''::registry::AdminCap'') (changes_of demo_publish) ''0xc''"
    "only_created (str_includes ''UpgradeCap'') (changes_of demo_publish) ''0x5''"
    "only_created (\<lambda>t. t = ''0x2::coin::TreasuryCap<'' @ ''0xa'' @ ''::plp::PLP>'') (changes_of demo_publish) ''0x7''"
    unfolding only_created_iff by code_simp+
  ultimately show "publish_answer (changes_of demo_publish) ''0xa'' ''0xb'' ''0xc'' ''0x5'' ''0x7''" by (simp add: publish_answer_def)
  show "only_created (str_includes ''::predict::Predict'') (changes_of demo_init) ''0x8''"
    unfolding only_created_iff by code_simp
qed

lemma demo_consts_ok: "wf_file demo_consts" "\<forall>n\<in>set market_constants. get_const n demo_consts \<noteq> None"
  by code_simp+

theorem redeploy_records_witness:
  "\<exists>fx f'. redeploy_main (\<lambda>_. Inr ([], [])) (Inr (Ed25519 [])) demo_deploy (file_text ''testnet'' demo_consts) [] None demo_redeploy
      = (fx, Inr (\<lparr>pi_packageId = ''0xa'', pi_registryId = ''0xb'', pi_adminCapId = ''0xc'', pi_upgradeCapId = ''0x5'',
           pi_plpTreasuryCapId = ''0x7''\<rparr>, ''0x8''))
    \<and> last (constants_written fx) = file_text ''testnet'' f' \<and> get_const ''predictObjectID'' f' = Some ''0x8''
    \<and> get_const ''predictRegistryID'' f' = Some ''0xb'' \<and> get_const ''predictAdminCapID'' f' = Some ''0xc''
    \<and> get_const ''predictOracleCapID'' f' = Some [] \<and> get_const ''dusdcPackageID'' f' = Some ''0x1''"
proof -
  have C: "dc_dusdcPackageID demo_deploy \<noteq> []" "dc_dusdcCurrencyID demo_deploy \<noteq> []" "dc_dusdcTreasuryCapID demo_deploy \<noteq> []"
    by (simp_all add: demo_deploy_def)
  have rp: "rr_publish demo_redeploy = Inr demo_publish" "tr_status demo_publish = Some ''success''" "rr_checkpoint demo_redeploy = Inr ''9''"
    "rr_init demo_redeploy = Inr demo_init" "tr_status demo_init = Some ''success''" "rr_waited demo_redeploy = Inr ()" "rr_database demo_redeploy = Inr ()"
    by (simp_all add: demo_redeploy_def demo_publish_def demo_init_def)
  have v: "\<forall>i\<in>{''0xa'', ''0xb'', ''0xc'', ''0x5'', ''0x7'', ''0x8''}. plain_value i" by code_simp
  have d: "get_const ''dusdcPackageID'' demo_consts = Some ''0x1''" "''dusdcPackageID'' \<notin> set market_constants" by code_simp+
  from redeploy_records [OF _ refl C rp(1,2) demo_answers(1) rp(3-5) demo_answers(2) rp(6,7) _ _ v demo_consts_ok,
      of "\<lambda>_. Inr ([], [])" "([], [])" "Ed25519 []" "[]" None] d
  show ?thesis by fastforce
qed

section \<open>The list that is not updated\<close>

text \<open>The text of \<open>lib.rs\<close> around the list, as the formatter leaves it: a line break before the ampersand.\<close>

definition formatted_list :: "string \<Rightarrow> string" where
  "formatted_list packageId = ''const TESTNET_PREDICT_PACKAGES: &[&str] ='' @ [CHR 0x0A] @ ''    &['' @ quoted packageId @ ''];''"

lemma replace_indexer_none: "\<not> str_includes indexer_prefix s \<Longrightarrow> replace_indexer packageId s = s"
proof (induction s)
  case (Cons c s)
  then have "\<not> starts_with indexer_prefix (c # s)" "\<not> str_includes indexer_prefix s" by (simp_all add: str_includes_Cons)
  moreover from this have "indexer_at (c # s) = None" by (simp add: indexer_at_def Let_def)
  ultimately show ?case using Cons.IH by simp
qed simp

text \<open>On a file without the text of the pattern, as the formatted one, \<open>publish.ts\<close> always fails after it has written the
  constants, while \<open>redeploy.ts\<close> reports success and writes the list back unchanged.\<close>

theorem indexer_not_updated:
  "\<not> str_includes indexer_prefix (formatted_list ''0xf5ea'')"
  "\<not> str_includes indexer_prefix indexer \<Longrightarrow> snd (publish_main build signer active content indexer reply) \<noteq> Inr u"
  "\<not> str_includes indexer_prefix indexer \<Longrightarrow> updateIndexerPackageId packageId indexer = ([WriteIndexer indexer], Inr ())"
proof -
  show "\<not> str_includes indexer_prefix (formatted_list ''0xf5ea'')" by code_simp
  assume n: "\<not> str_includes indexer_prefix indexer"
  then show "updateIndexerPackageId packageId indexer = ([WriteIndexer indexer], Inr ())"
    by (simp add: updateIndexerPackageId_def emits_def replace_indexer_none)
  show "snd (publish_main build signer active content indexer reply) \<noteq> Inr u"
    using replace_indexer_none [OF n] by (auto simp: publish_main_def snd_bindW_Inr require_def Let_def split: if_splits)
qed

text \<open>\<open>init.ts\<close> does not check that the answer names the market: it then records an empty identifier.\<close>

lemma init_records_empty:
  assumes "wf_file f" "get_const ''predictObjectID'' f \<noteq> None" "tr_status r = Some ''success''"
    and "first_created (str_includes ''::predict::Predict'') (changes_of r) = []"
  shows "\<exists>f'. snd (init_main (Inr k) C (file_text ''testnet'' f) (Inr r)) = Inr (file_text ''testnet'' f') \<and> get_const ''predictObjectID'' f' = Some []"
proof -
  have "\<forall>(n, v)\<in>set [(''predictObjectID'', [])]. plain_name n \<and> plain_value v \<and> get_const n f \<noteq> None"
    using assms(2) by (simp add: plain_name_def no_brace_def)
  from testnet_file.edits_defined [OF assms(1) this] obtain f' where
    "updateConstants ''testnet'' (file_text ''testnet'' f) [(''predictObjectID'', [])] = Inr (file_text ''testnet'' f')"
    "get_const ''predictObjectID'' f' = Some []" by auto
  then show ?thesis using assms(3,4)
    by (intro exI [of _ f']) (simp add: init_main_def sign_and_check_def write_constants_def script_atoms del: updateConstants.simps)
qed

end
