(* ===== verification/TxShape.thy ===== *)
theory TxShape
  imports SuiTx
begin

text \<open>
  The order of the references inside a transaction: a result is used only after the command that produces it. The
  check is executable and additive, so that builders are shown to keep it one command at a time; a second check says that no
  result of a creating call is left over. Which components a result has and of what type they are is not looked at here;
  that is the business of \<open>MoveCheck\<close>.
\<close>

section \<open>References\<close>

fun arg_refs :: "tx_arg \<Rightarrow> nat list" where
  "arg_refs (ResultArg n) = [n]"
| "arg_refs (NestedArg n i) = [n]"
| "arg_refs _ = []"

fun command_args :: "command \<Rightarrow> tx_arg list" where
  "command_args (MoveCall f as) = as"
| "command_args (TypedCall f ts as) = as"
| "command_args (MergeCoins c cs) = c # cs"
| "command_args (SplitCoins c as) = c # as"
| "command_args (TransferObjects os a) = os @ [a]"
| "command_args (Publish ms ds) = []"

definition command_refs :: "command \<Rightarrow> nat list" where
  "command_refs c = concat (map arg_refs (command_args c))"

text \<open>The arguments that may follow \<open>n\<close> commands.\<close>

definition arg_ok :: "nat \<Rightarrow> tx_arg \<Rightarrow> bool" where
  "arg_ok n a \<longleftrightarrow> list_all (\<lambda>r. r < n) (arg_refs a)"

definition command_ok :: "nat \<Rightarrow> command \<Rightarrow> bool" where
  "command_ok n c \<longleftrightarrow> list_all (arg_ok n) (command_args c)"

fun commands_ok :: "nat \<Rightarrow> command list \<Rightarrow> bool" where
  "commands_ok n [] = True"
| "commands_ok n (c # cs) \<longleftrightarrow> command_ok n c \<and> commands_ok (Suc n) cs"

definition wf_tx :: "Transaction \<Rightarrow> bool" where
  "wf_tx tx \<longleftrightarrow> commands_ok 0 (tx_commands tx)"

named_theorems shape "well-formed arguments, commands and transactions"

lemma arg_ok_simps [simp, shape]:
  "arg_ok n (ObjArg i)" "arg_ok n (U64Arg x)" "arg_ok n (BoolArg b)" "arg_ok n (StrArg s)" "arg_ok n (IdArg i)"
  "arg_ok n (AddrArg a)" "arg_ok n (OptAddrArg oa)" "arg_ok n (OptIdArg oi)" "arg_ok n GasArg" "arg_ok n (CoinRefArg i v d)"
  "arg_ok n (SharedRefArg i iv m)" "arg_ok n (ResultArg r) \<longleftrightarrow> r < n" "arg_ok n (NestedArg r j) \<longleftrightarrow> r < n"
  by (simp_all add: arg_ok_def)

lemma command_ok_simps [simp, shape]:
  "command_ok n (MoveCall f as) \<longleftrightarrow> list_all (arg_ok n) as"
  "command_ok n (TypedCall f ts as) \<longleftrightarrow> list_all (arg_ok n) as"
  "command_ok n (MergeCoins c cs) \<longleftrightarrow> arg_ok n c \<and> list_all (arg_ok n) cs"
  "command_ok n (SplitCoins c as) \<longleftrightarrow> arg_ok n c \<and> list_all (arg_ok n) as"
  "command_ok n (TransferObjects os a) \<longleftrightarrow> list_all (arg_ok n) os \<and> arg_ok n a"
  "command_ok n (Publish ms ds)"
  by (auto simp: command_ok_def)

lemma arg_ok_mono: "arg_ok m a \<Longrightarrow> m \<le> n \<Longrightarrow> arg_ok n a"
  by (cases a) auto

lemma commands_ok_append: "commands_ok n (xs @ ys) \<longleftrightarrow> commands_ok n xs \<and> commands_ok (n + length xs) ys"
  by (induction xs arbitrary: n) auto

text \<open>The check is the statement about positions.\<close>

lemma commands_ok_nth: "commands_ok n cs \<longleftrightarrow> (\<forall>i < length cs. \<forall>r \<in> set (command_refs (cs ! i)). r < n + i)"
proof (induction cs arbitrary: n)
  case (Cons c cs)
  have "command_ok n c \<longleftrightarrow> (\<forall>r \<in> set (command_refs c). r < n)"
    by (auto simp: command_ok_def command_refs_def arg_ok_def list_all_iff)
  then show ?case using Cons.IH [of "Suc n"] by (simp add: All_less_Suc2)
qed simp

lemma wf_tx_refs: "wf_tx tx \<longleftrightarrow> (\<forall>i < length (tx_commands tx). \<forall>r \<in> set (command_refs (tx_commands tx ! i)). r < i)"
  by (simp add: wf_tx_def commands_ok_nth)

lemma wf_new [simp]: "wf_tx new_Transaction"
  by (simp add: wf_tx_def new_Transaction_def)

lemma wf_add: "wf_tx (add_command c tx) \<longleftrightarrow> wf_tx tx \<and> command_ok (length (tx_commands tx)) c"
  by (simp add: wf_tx_def add_command_def commands_ok_append)

lemma commands_add [simp]: "tx_commands (add_command c tx) = tx_commands tx @ [c]"
  by (simp add: add_command_def)

lemma commands_new [simp]: "tx_commands new_Transaction = []"
  by (simp add: new_Transaction_def)

lemma wf_tx_header [simp]:
  "wf_tx (tx\<lparr>tx_sender := s\<rparr>) = wf_tx tx" "wf_tx (tx\<lparr>tx_gasPayment := g\<rparr>) = wf_tx tx"
  by (simp_all add: wf_tx_def)

lemma wf_fold:
  assumes "\<And>x tx. x \<in> set xs \<Longrightarrow> wf_tx tx \<Longrightarrow> wf_tx (f x tx)" "wf_tx tx"
  shows "wf_tx (fold f xs tx)"
  using assms by (induction xs arbitrary: tx) auto

section \<open>Unused results\<close>

text \<open>The positions of the calls of the functions in a list, and those of them whose result no later command takes.\<close>

fun call_target :: "command \<Rightarrow> string option" where
  "call_target (MoveCall f as) = Some f"
| "call_target (TypedCall f ts as) = Some f"
| "call_target _ = None"

definition creations :: "string list \<Rightarrow> command list \<Rightarrow> nat list" where
  "creations fs cs = filter (\<lambda>i. case call_target (cs ! i) of Some f \<Rightarrow> f \<in> set fs | None \<Rightarrow> False) [0..<length cs]"

definition unused_results :: "string list \<Rightarrow> Transaction \<Rightarrow> nat list" where
  "unused_results fs tx =
     (let cs = tx_commands tx in filter (\<lambda>i. i \<notin> set (concat (map command_refs cs))) (creations fs cs))"

end
