(* ===== verification/RegistryScripts.thy ===== *)
theory RegistryScripts
  imports DeployTools TxShape
begin

text \<open>
  The scripts under \<open>scripts/transactions\<close> that maintain the entries of the on-chain package registry: each builds one
  transaction from a few calls of the registry and its metadata package and hands it to \<open>prepareMultisigTx\<close> with the
  account that owns the objects. The calls are shared definitions; a script is its list of calls in order.
  Versions, which the scripts give as decimal text, are numbers. The theory shows that every transaction uses results only after
  the commands that make them and leaves no created object behind.
\<close>

section \<open>Calls\<close>

definition MOVE_REGISTRY :: string where
  "MOVE_REGISTRY = ''0x0e5d473a055b6b7d014af557a13ad9075157fdc19b6d51562a18511afd397727''"

definition MYSTEN_DOMAIN :: string where
  "MYSTEN_DOMAIN = ''0x9dc2cd7decc92ec8a66ba32167fb7ec279b30bc36c3216096035db7d750aa89f''"

definition holdingAddress :: string where
  "holdingAddress = ''0x10a1fc2b9170c6bac858fdafc7d3cb1f4ea659fed748d18eff98d08debf82042''"

definition TESTNET_CHAIN :: string where "TESTNET_CHAIN = ''4c78adac''"

definition set_metadata :: "tx_arg \<Rightarrow> string \<Rightarrow> string \<Rightarrow> Transaction \<Rightarrow> Transaction" where
  "set_metadata cap key v =
     add_command (MoveCall ''@mvr/core::move_registry::set_metadata'' [ObjArg MOVE_REGISTRY, cap, StrArg key, StrArg v])"

definition unset_metadata :: "tx_arg \<Rightarrow> string \<Rightarrow> Transaction \<Rightarrow> Transaction" where
  "unset_metadata cap key =
     add_command (MoveCall ''@mvr/core::move_registry::unset_metadata'' [ObjArg MOVE_REGISTRY, cap, StrArg key])"

definition git_versioning :: "string \<Rightarrow> string \<Rightarrow> string \<Rightarrow> tx_arg \<Rightarrow> nat \<Rightarrow> Transaction \<Rightarrow> Transaction" where
  "git_versioning repository path sha packageInfo version tx =
     (let git = next_result tx;
          tx = add_command (MoveCall ''@mvr/metadata::git::new'' [StrArg repository, StrArg path, StrArg sha]) tx
      in add_command (MoveCall ''@mvr/metadata::package_info::set_git_versioning''
           [packageInfo, U64Arg (Num (of_nat version)), git]) tx)"

definition unset_git_versioning :: "tx_arg \<Rightarrow> nat \<Rightarrow> Transaction \<Rightarrow> Transaction" where
  "unset_git_versioning packageInfo version =
     add_command (MoveCall ''@mvr/metadata::package_info::unset_git_versioning'' [packageInfo, U64Arg (Num (of_nat version))])"

definition default_name :: "tx_arg \<Rightarrow> string \<Rightarrow> Transaction \<Rightarrow> Transaction" where
  "default_name packageInfo name =
     add_command (MoveCall ''@mvr/metadata::package_info::set_metadata'' [packageInfo, StrArg ''default'', StrArg name])"

definition app_info_new :: "string \<Rightarrow> string \<Rightarrow> Transaction \<Rightarrow> Transaction" where
  "app_info_new testnetInfo testnetPackage =
     add_command (MoveCall ''@mvr/core::app_info::new''
       [OptAddrArg (Some testnetInfo), OptAddrArg (Some testnetPackage), OptAddrArg None])"

definition unset_network :: "tx_arg \<Rightarrow> Transaction \<Rightarrow> Transaction" where
  "unset_network cap =
     add_command (MoveCall ''@mvr/core::move_registry::unset_network'' [ObjArg MOVE_REGISTRY, cap, StrArg TESTNET_CHAIN])"

definition set_network :: "tx_arg \<Rightarrow> tx_arg \<Rightarrow> Transaction \<Rightarrow> Transaction" where
  "set_network cap appInfo =
     add_command (MoveCall ''@mvr/core::move_registry::set_network'' [ObjArg MOVE_REGISTRY, cap, StrArg TESTNET_CHAIN, appInfo])"

definition assign_package :: "tx_arg \<Rightarrow> tx_arg \<Rightarrow> Transaction \<Rightarrow> Transaction" where
  "assign_package cap packageInfo =
     add_command (MoveCall ''@mvr/core::move_registry::assign_package'' [ObjArg MOVE_REGISTRY, cap, packageInfo])"

definition register_app :: "string \<Rightarrow> Transaction \<Rightarrow> Transaction" where
  "register_app name =
     add_command (MoveCall ''@mvr/core::move_registry::register'' [ObjArg MOVE_REGISTRY, ObjArg MYSTEN_DOMAIN, StrArg name, ObjArg ''0x6''])"

definition package_info_new :: "string \<Rightarrow> Transaction \<Rightarrow> Transaction" where
  "package_info_new upgradeCap = add_command (MoveCall ''@mvr/metadata::package_info::new'' [ObjArg upgradeCap])"

definition set_display :: "tx_arg \<Rightarrow> string \<Rightarrow> Transaction \<Rightarrow> Transaction" where
  "set_display packageInfo title tx =
     (let display = next_result tx; tx = add_command (MoveCall ''@mvr/metadata::display::default'' [StrArg title]) tx
      in add_command (MoveCall ''@mvr/metadata::package_info::set_display'' [packageInfo, display]) tx)"

definition info_transfer :: "tx_arg \<Rightarrow> string \<Rightarrow> Transaction \<Rightarrow> Transaction" where
  "info_transfer packageInfo address =
     add_command (MoveCall ''@mvr/metadata::package_info::transfer'' [packageInfo, AddrArg address])"

text \<open>The links to the test network: the information object and its registration, at once or after the old one is
  removed.\<close>

definition link_testnet :: "tx_arg \<Rightarrow> string \<Rightarrow> string \<Rightarrow> Transaction \<Rightarrow> Transaction" where
  "link_testnet cap testnetInfo testnetPackage tx =
     set_network cap (next_result tx) (app_info_new testnetInfo testnetPackage tx)"

definition relink_testnet :: "tx_arg \<Rightarrow> string \<Rightarrow> string \<Rightarrow> Transaction \<Rightarrow> Transaction" where
  "relink_testnet cap testnetInfo testnetPackage tx =
     set_network cap (next_result tx) (unset_network cap (app_info_new testnetInfo testnetPackage tx))"

text \<open>The loops over \<open>Object.entries(data)\<close>, in the order of the keys.\<close>

record PackageVersion =
  pv_packageInfo :: string
  pv_sha :: string
  pv_version :: nat
  pv_path :: string

definition set_versions :: "string \<Rightarrow> PackageVersion list \<Rightarrow> Transaction \<Rightarrow> Transaction" where
  "set_versions repository data =
     fold (\<lambda>d. git_versioning repository (pv_path d) (pv_sha d) (ObjArg (pv_packageInfo d)) (pv_version d)) data"

definition reset_versions :: "string \<Rightarrow> PackageVersion list \<Rightarrow> Transaction \<Rightarrow> Transaction" where
  "reset_versions repository data =
     fold (\<lambda>d tx. git_versioning repository (pv_path d) (pv_sha d) (ObjArg (pv_packageInfo d)) (pv_version d)
             (unset_git_versioning (ObjArg (pv_packageInfo d)) (pv_version d) tx)) data"

text \<open>A script: its steps from the empty transaction, and the account it is prepared for.\<close>

definition steps :: "(Transaction \<Rightarrow> Transaction) list \<Rightarrow> Transaction" where
  "steps fs = fold (\<lambda>f. f) fs new_Transaction"

definition script_main :: "Transaction \<times> string \<Rightarrow> string option \<Rightarrow> string option \<Rightarrow> multisig_replies \<Rightarrow> (deploy_effect, unit) run" where
  "script_main sc gas_object node_env rp = prepareMultisigTx (fst sc) (Some (snd sc)) (Inl TypeError) gas_object node_env rp"

section \<open>Scripts\<close>

definition nautilus_setup :: "Transaction \<times> string" where
  "nautilus_setup =
     (let nautilus = ObjArg ''0x8a159edc9ee8d809a980b3eb66510b6a6b608d8a79abb0576916430e4a7389b8'';
          seal = ObjArg ''0x5c05d47053b0b3126dc99ee97264bf0d8b52e5789ca33917b88d83eb63f0e434'';
          sites = ObjArg ''0x31bcfbe17957dae74f7a5dc7439f8e954870646317054ff880084c80d64f2390'';
          packageInfo = ObjArg ''0x427579e9f0f3200cc51a634b33088895879f38783655297f4ed2442351cd53d0''
      in (steps
       [set_metadata nautilus ''icon_url'' ''https://svg-host.vercel.app/mystenlogo.svg'',
        set_metadata seal ''icon_url'' ''https://drive.google.com/file/d/1MwZmWh2GiEzxfw5zIeoNrst3v7fbnuO5/view?usp=sharing'',
        git_versioning ''https://github.com/MystenLabs/nautilus'' ''move/enclave'' ''d919402aadf15e21b3cf31515b3a46d1ca6965e4'' packageInfo 1,
        set_metadata nautilus ''description'' ''Nautilus is a framework for secure and verifiable off chain computation on Sui.'',
        set_metadata nautilus ''documentation_url'' ''https://docs.sui.io/concepts/cryptography/nautilus'',
        set_metadata nautilus ''homepage_url'' ''https://sui.io/nautilus'',
        default_name packageInfo ''@mysten/nautilus'',
        set_metadata seal ''description'' ''Seal is a decentralized secrets management (DSM) service that relies on access control policies defined and validated on Sui.'',
        set_metadata seal ''documentation_url'' ''https://github.com/MystenLabs/seal/blob/main/UsingSeal.md'',
        set_metadata seal ''homepage_url'' ''https://seal.mystenlabs.com'',
        link_testnet seal ''0xfe94e6c85433a1a933760d7111bf7e26dfef12403f7c8f90f2bd7f184715abeb''
          ''0x0f16e84a49dec8425e6900cfdfe3730aaf1e8bc608d9f0500fcfa2c2267abfb4'',
        assign_package nautilus packageInfo,
        unset_metadata sites ''homepage_url'',
        set_metadata sites ''homepage_url'' ''https://wal.app/''], holdingAddress))"

definition suins_repository :: string where
  "suins_repository = ''https://github.com/MystenLabs/suins-contracts''"

definition mvrFix :: "Transaction \<times> string" where
  "mvrFix =
     (steps [reset_versions suins_repository
        [\<lparr>pv_packageInfo = ''0x9accbc6d7c86abf91dcbe247fd44c6eb006d8f1864ff93b90faaeb09114d3b6f'', pv_sha = ''releases/core/4'',
          pv_version = 1, pv_path = ''packages/temp_subdomain_proxy''\<rparr>]], holdingAddress)"

definition allMvrSetup :: "Transaction \<times> string" where
  "allMvrSetup =
     (steps
       [set_versions suins_repository
          [\<lparr>pv_packageInfo = ''0x9470cf5deaf2e22232244da9beeabb7b82d4a9f7b9b0784017af75c7641950ee'', pv_sha = ''releases/subdomains/2'',
            pv_version = 2, pv_path = ''packages/subdomains''\<rparr>,
           \<lparr>pv_packageInfo = ''0x9accbc6d7c86abf91dcbe247fd44c6eb006d8f1864ff93b90faaeb09114d3b6f'', pv_sha = ''releases/temp_subdomain_proxy/2'',
            pv_version = 2, pv_path = ''packages/temp_subdomain_proxy''\<rparr>],
        relink_testnet (ObjArg ''0x969978eba35e57ad66856f137448da065bc27962a1bc4a6dd8b6cc229c899d5a'')
          ''0xfb37e3fc36476472675083ff9990bad760545bd7a6c385da1e87dca58099e09b''
          ''0x5afdc6b0c6c2821cd422f8985aea3c36acc6c76bf35520b3d7f47d1f5dc8bf54''], holdingAddress)"

definition walrusSitesSetup :: "Transaction \<times> string" where
  "walrusSitesSetup =
     (steps
       [reset_versions ''https://github.com/MystenLabs/walrus-sites''
          [\<lparr>pv_packageInfo = ''0x78969731e1f29f996e24261a13dd78c6a0932bc099aa02e27965bbfb1a643d86'',
            pv_sha = ''walrus_sites_v0.1.0_1750151671_main_ci'', pv_version = 1, pv_path = ''move/walrus_site''\<rparr>],
        link_testnet (ObjArg ''0x31bcfbe17957dae74f7a5dc7439f8e954870646317054ff880084c80d64f2390'')
          ''0x97be021af63c8b6c5e668f4d398b3a7457ff4c87cf9c347a1da3618e6a0223e4''
          ''0xf99aee9f21493e1590e7e5a9aea6f343a1f381031a04a732724871fc294be799''], holdingAddress)"

definition setupDenylist :: "Transaction \<times> string" where
  "setupDenylist =
     (steps [set_versions suins_repository
        [\<lparr>pv_packageInfo = ''0x5007c0681ff36e9efcb5d655af758c5eeb4825b39ef4ec2ccacd195f4f65d4f5'', pv_sha = ''releases/core/4'',
          pv_version = 1, pv_path = ''packages/redirect-denylist''\<rparr>]], holdingAddress)"

definition mvrPackageReverseResolution :: "Transaction \<times> string" where
  "mvrPackageReverseResolution =
     (steps [set_versions ''https://github.com/mystenlabs/mvr''
        [\<lparr>pv_packageInfo = ''0x7ffeae2cd612960c7f208c68da064aa462e2fbb23fcf64faf2af9c2f67e7d4ca'', pv_sha = ''releases/metadata/2'',
          pv_version = 2, pv_path = ''packages/package_info''\<rparr>]],
      ''0x9a8859bbe68679bcc6dfd06ede1cce7309d59ef21bb0caf2e4c901320489a466'')"

definition deepbook_repository :: string where
  "deepbook_repository = ''https://github.com/MystenLabs/deepbookv3''"

definition deepbook_admin :: string where
  "deepbook_admin = ''0xd0ec0b201de6b4e7f425918bbd7151c37fc1b06c59b3961a2a00db74f6ea865e''"

definition deepbook_info :: string where
  "deepbook_info = ''0x4874e126c490e495ff7490523841bdba57e2a01ed36db7610f07d417c8b5a988''"

definition linkPackageInfo :: "Transaction \<times> string" where
  "linkPackageInfo =
     (steps [git_versioning deepbook_repository ''packages/deepbook'' ''v3.0.0'' (ObjArg deepbook_info) 3], deepbook_admin)"

definition newDeepbookVersion :: "Transaction \<times> string" where
  "newDeepbookVersion =
     (steps [git_versioning deepbook_repository ''packages/deepbook'' ''v7.0.0'' (ObjArg deepbook_info) 7], deepbook_admin)"

definition marginSetup :: "Transaction \<times> string" where
  "marginSetup =
     (let packageInfo = ''0x11c2e0f7292ea1b84ed894302b96146872fea53a99b933122fb193e48dac1005'' in
      (steps [git_versioning deepbook_repository ''packages/deepbook_margin'' ''margin-v2.0.0'' (ObjArg packageInfo) 2,
              git_versioning deepbook_repository ''packages/deepbook_margin'' ''margin-v3.0.0'' (ObjArg packageInfo) 3], deepbook_admin))"

definition kiosk_owner :: string where
  "kiosk_owner = ''0xcb6a5c15cba57e5033cf3c2b8dc56eafa8a0564a1810f1f2f1341a663b575d54''"

definition kiosk_cap :: string where
  "kiosk_cap = ''0x476cbd1df24cf590d675ddde59de4ec535f8aff9eea22fd83fed57001cfc9426''"

definition mysten_owner :: string where
  "mysten_owner = ''0xa81a2328b7bbf70ab196d6aca400b5b0721dec7615bf272d95e0b0df04517e72''"

definition mvrPrepKioskRegistration :: "Transaction \<times> string" where
  "mvrPrepKioskRegistration =
     (let packageInfo = next_result new_Transaction; cap = ObjArg kiosk_cap; apps = ''https://github.com/MystenLabs/apps'' in
      (steps
       [package_info_new ''0x19aa128f36c3ef97b8a20a0ce8ffc998fbbc03d9f86e5b39c2ef3d3bd49a1ad1'',
        set_display packageInfo ''Kiosk - Metadata'',
        git_versioning apps ''kiosk'' ''e159ab3fc45a6f1ca46025c46c915988023af8b6'' packageInfo 4,
        git_versioning apps ''kiosk'' ''59bf087985bf854575d3d28ad843166711b0bc99'' packageInfo 1,
        git_versioning apps ''kiosk'' ''66ad6dc651d93adfd030bd09015d1fa5e8f5e55e'' packageInfo 3,
        set_metadata cap ''description'' ''Collection of rules and extensions for Kiosk and creator Transfer Policies.'',
        set_metadata cap ''documentation_url'' ''https://docs.sui.io/standards/kiosk'',
        default_name packageInfo ''@mysten/kiosk'',
        link_testnet cap ''0x0b96a1e1dbdfac8c2a27b0172eabd9f4b59ed2200a2c0c349aa903dba3a0bf7e''
          ''0xe308bb3ed5367cd11a9c7f7e7aa95b2f3c9a8f10fa1d2b3cff38240f7898555d'',
        assign_package cap packageInfo,
        info_transfer packageInfo kiosk_owner], kiosk_owner))"

definition paymentSetup :: "Transaction \<times> string" where
  "paymentSetup =
     (let mainnetPackageInfo = ObjArg ''0xa7fe44196e9d3c130643250d8742b6b886c0d297fa2febf11858fe4f3787eb3a'';
          kit = ''https://github.com/MystenLabs/sui-payment-kit''; appCap = next_result new_Transaction
      in (steps
       [register_app ''payment-kit'',
        set_metadata appCap ''description'' ''A robust, open-source payment processing toolkit for the Sui blockchain that provides secure payment verification, receipt management, and duplicate prevention.'',
        set_metadata appCap ''documentation_url'' kit,
        set_metadata appCap ''homepage_url'' kit,
        set_metadata appCap ''icon_url'' ''https://svg-host.vercel.app/mystenlogo.svg'',
        link_testnet appCap ''0x5ddfe36e164a18927ca50bb9f9cf797f2f557462a93f028bdca9f47acf12f69c''
          ''0x7e069abe383e80d32f2aec17b3793da82aabc8c2edf84abbf68dd7b719e71497'',
        assign_package appCap mainnetPackageInfo,
        add_command (TransferObjects [appCap] (AddrArg holdingAddress)),
        info_transfer mainnetPackageInfo holdingAddress], mysten_owner))"

definition mvrPrepKiosk :: "Transaction \<times> string" where
  "mvrPrepKiosk =
     (let appCap = next_result new_Transaction in
      (steps [register_app ''kiosk'', add_command (TransferObjects [appCap] (AddrArg kiosk_owner))], mysten_owner))"

definition mvrPrep :: "Transaction \<times> string" where
  "mvrPrep =
     (let appCap = ObjArg ''0x5c05d47053b0b3126dc99ee97264bf0d8b52e5789ca33917b88d83eb63f0e434'' in
      (steps [unset_metadata appCap ''documentation_url'',
              set_metadata appCap ''documentation_url'' ''https://seal-docs.wal.app/UsingSeal/''], holdingAddress))"

definition transferMvrObjectsKiosk :: "Transaction \<times> string" where
  "transferMvrObjectsKiosk =
     (steps [add_command (TransferObjects [ObjArg kiosk_cap] (AddrArg holdingAddress)),
             info_transfer (ObjArg ''0xa364dd21f5eb43fdd4e502be52f450c09529dfc94dea12412a6d587f17ec7f24'') holdingAddress], kiosk_owner)"

definition packageInfoCreation :: "Transaction \<times> string" where
  "packageInfoCreation =
     (let packageInfo = next_result new_Transaction in
      (steps [package_info_new ''0x1cab3c76c48c023b60db0a56696d197569f006e406fb9627a8a8d1a119b1c23c'',
              set_display packageInfo ''Walrus - Sites Metadata'',
              info_transfer packageInfo holdingAddress],
       ''0x23eb7ccbbb4a21afea8b1256475e255b3cd84083ca79fa1f1a9435ab93d2b71b''))"

definition packageInfoNautilus :: "Transaction \<times> string" where
  "packageInfoNautilus =
     (let packageInfo = next_result new_Transaction in
      (steps [package_info_new ''0xf8083707981031b003db9b0fcd074664efe366ba6926ce5859412495860cf9a9'',
              set_display packageInfo ''Mysten - Nautilus Metadata'',
              info_transfer packageInfo holdingAddress],
       ''0xfa469d15a399f7a000214f4630712c6e6207430499278e1c2e19a63d5dd821e5''))"

definition marginPackageInfo :: "Transaction \<times> string" where
  "marginPackageInfo =
     (let mainnetPackageInfo = next_result new_Transaction in
      (steps [package_info_new ''0xd57c7a41b31c0a1fab5e71d296a75daf2e9e09945df383d4745daa49f06d9c56'',
              info_transfer mainnetPackageInfo deepbook_admin],
       ''0x37f187e1e54e9c9b8c78b6c46a7281f644ebc62e75493623edcaa6d1dfcf64d2''))"

text \<open>The description that the metadata script gives each package of the registry, and its page.\<close>

definition mvr_descriptions :: "(string \<times> string) list" where
  "mvr_descriptions =
     [(''0x673bac45d749730e71c3ad2395c2942f7dd61167308752b564963228b147edc0'',
       ''The foundational component of the Move Registry (MVR). It provides essential on-chain functionality for application registration and resolution in the Sui ecosystem.''),
      (''0xa24ad6dee0fa4b4a59839a78b638e3157638ac9774b6734af0250b372bf10881'',
       ''Enables registering applications using SuiNS Subnames.''),
      (''0x8e5af7f91bcdbcb637eb6774fbb4b23022db864d125f7e74ab17f64646ac73da'',
       ''Defines PackageInfo objects, which contain metadata associated with registered Move packages. These objects track upgrade caps, package addresses, Git versioning metadata, and on-chain display configuration.''),
      (''0x4e9264ba30222c1701457ed3d4745c74fd9d736c6609558aafd46ec734e60d78'',
       ''This package provides an open interface for creating and managing public names. Public names allow anyone to register apps under the namespace. The core use case for this is the global @pkg name supported on MVR.'')]"

definition mvrPackageMetadata :: "Transaction \<times> string" where
  "mvrPackageMetadata =
     (fold (\<lambda>(appCap, description) tx.
         set_metadata (ObjArg appCap) ''documentation_url'' ''https://docs.suins.io/move-registry''
           (set_metadata (ObjArg appCap) ''description'' description tx)) mvr_descriptions new_Transaction,
      ''0x9a8859bbe68679bcc6dfd06ede1cce7309d59ef21bb0caf2e4c901320489a466'')"

section \<open>Shape of the transactions\<close>

text \<open>The calls that return something the script has to put somewhere; the first two return objects.\<close>

definition object_calls :: "string list" where
  "object_calls = [''@mvr/core::move_registry::register'', ''@mvr/metadata::package_info::new'']"

definition creating_calls :: "string list" where
  "creating_calls = object_calls @ [''@mvr/metadata::git::new'', ''@mvr/metadata::display::default'', ''@mvr/core::app_info::new'']"

definition is_handover :: "command \<Rightarrow> bool" where
  "is_handover c \<longleftrightarrow> (case c of TransferObjects _ _ \<Rightarrow> True | _ \<Rightarrow> call_target c = Some ''@mvr/metadata::package_info::transfer'')"

text \<open>The created objects whose last use is not a transfer.\<close>

definition kept_objects :: "Transaction \<Rightarrow> nat list" where
  "kept_objects tx =
     (let cs = tx_commands tx in
      filter (\<lambda>i. case filter (\<lambda>c. i \<in> set (command_refs c)) (rev cs) of [] \<Rightarrow> True | c # _ \<Rightarrow> \<not> is_handover c)
        (creations object_calls cs))"

definition script_sound :: "Transaction \<Rightarrow> bool" where
  "script_sound tx \<longleftrightarrow> wf_tx tx \<and> unused_results creating_calls tx = [] \<and> kept_objects tx = []"

text \<open>The calls keep transactions well-formed, for every argument that is.\<close>

lemma wf_calls [shape]:
  assumes "wf_tx tx"
  shows "arg_ok (length (tx_commands tx)) cap \<Longrightarrow> wf_tx (set_metadata cap k v tx)"
    "arg_ok (length (tx_commands tx)) cap \<Longrightarrow> wf_tx (unset_metadata cap k tx)"
    "arg_ok (length (tx_commands tx)) info \<Longrightarrow> wf_tx (git_versioning r p sh info n tx)"
    "arg_ok (length (tx_commands tx)) info \<Longrightarrow> wf_tx (unset_git_versioning info n tx)"
    "arg_ok (length (tx_commands tx)) cap \<Longrightarrow> wf_tx (link_testnet cap i q tx)"
    "arg_ok (length (tx_commands tx)) cap \<Longrightarrow> wf_tx (relink_testnet cap i q tx)"
    "arg_ok (length (tx_commands tx)) info \<Longrightarrow> wf_tx (set_display info t tx)"
  using assms arg_ok_mono [of "length (tx_commands tx)" _ "Suc (length (tx_commands tx))"]
    arg_ok_mono [of "length (tx_commands tx)" _ "Suc (Suc (length (tx_commands tx)))"]
  by (auto simp: set_metadata_def unset_metadata_def git_versioning_def unset_git_versioning_def link_testnet_def relink_testnet_def
      set_network_def unset_network_def app_info_new_def set_display_def next_result_def wf_add Let_def)

lemma wf_version_loops:
  assumes "wf_tx tx"
  shows "wf_tx (set_versions repo ds tx)" "wf_tx (reset_versions repo ds tx)"
  unfolding set_versions_def reset_versions_def using assms by (auto intro!: wf_fold wf_calls)

definition registry_scripts :: "(Transaction \<times> string) list" where
  "registry_scripts =
     [nautilus_setup, mvrFix, allMvrSetup, walrusSitesSetup, setupDenylist, mvrPackageReverseResolution, linkPackageInfo,
      newDeepbookVersion, marginSetup, mvrPrepKioskRegistration, paymentSetup, mvrPrepKiosk, mvrPrep, transferMvrObjectsKiosk,
      packageInfoCreation, packageInfoNautilus, marginPackageInfo, mvrPackageMetadata]"

lemma registry_scripts_sound: "list_all (\<lambda>sc. script_sound (fst sc)) registry_scripts"
  by code_simp

text \<open>What a script leaves for its signers: a file is written only for a transaction that passed the dry run, with
  exactly the calls of the script.\<close>

lemma script_main_checked:
  assumes "script_main sc gas_object node_env rp = (fx, r)" "(path, bytes) \<in> set (written_files fx)"
  shows "\<exists>mtx. DryRun mtx \<in> set fx \<and> mr_dryRun rp = Inr ''success'' \<and> mr_build rp mtx = Inr bytes \<and> tx_commands mtx = tx_commands (fst sc)"
  using multisig_checked [OF assms(1) [unfolded script_main_def] assms(2)] by blast

end
