(* ===== verification/AdminScripts.thy ===== *)
theory AdminScripts
  imports DeployTools TxShape
begin

text \<open>
  The administration scripts under \<open>scripts/transactions\<close> that call the exchange through its SDK. A script is the list of its
  steps in order: calls of the SDK, which is third-party code and an argument here, transfers, and plain calls; the result
  of an earlier call is named by its position. Numbers are the literals of the scripts. The theory also has the
  scripts that ask the command line tool for an upgrade, and the signers two of the scripts carry with them.
\<close>

section \<open>Calls of the SDK\<close>

record pool_params =
  pp_baseCoinKey :: string
  pp_quoteCoinKey :: string
  pp_tickSize :: rat
  pp_lotSize :: rat
  pp_minSize :: rat

record risk_params =
  rp_minWithdrawRiskRatio :: rat
  rp_minBorrowRiskRatio :: rat
  rp_liquidationRiskRatio :: rat
  rp_targetLiquidationRiskRatio :: rat
  rp_userLiquidationReward :: rat
  rp_poolLiquidationReward :: rat

record margin_pool_params =
  mp_supplyCap :: rat
  mp_maxUtilizationRate :: rat
  mp_referralSpread :: rat
  mp_minBorrow :: rat
  mp_rateLimitCapacity :: rat
  mp_rateLimitRefillRatePerMs :: rat
  mp_rateLimitEnabled :: bool

record price_feed =
  pf_coinKey :: string
  pf_maxConfBps :: nat
  pf_maxEwmaDifferenceBps :: nat

record limit_order =
  lo_poolKey :: string
  lo_balanceManagerKey :: string
  lo_clientOrderId :: string
  lo_price :: rat
  lo_quantity :: rat
  lo_isBid :: bool

text \<open>A call with its arguments; \<open>'a\<close> are the arguments that are values of the transaction.\<close>

datatype 'a sdk_call =
    EnableVersion nat
  | DisableVersion nat
  | UpdateAllowedVersions string
  | CreatePoolAdmin pool_params bool bool
  | UnregisterPoolAdmin string
  | AdjustTickSize string rat
  | AdjustMinLotSize string rat rat
  | AddStableCoin string
  | InitBalanceManagerMap
  | CreatePermissionlessPool pool_params
  | MarginEnableVersion nat
  | MarginDisableVersion nat
  | DisableVersionPauseCap nat string
  | RevokePauseCap string
  | NewPythConfig "price_feed list" nat
  | RemoveConfig
  | AddConfig 'a
  | NewPoolConfig string risk_params
  | RegisterDeepbookPool string 'a
  | EnableDeepbookPool string
  | EnableDeepbookPoolForLoan string string 'a
  | UpdateMarginPoolConfig string 'a margin_pool_params
  | CreateLiquidationVault string
  | LiquidationDeposit string string string rat
  | SupplyToMarginPool string 'a rat
  | MintTradeCap string
  | DepositIntoManager string string rat
  | CoinWithBalance string rat "bool option"
  | BorrowBaseAsset string rat
  | ReturnBaseAsset string rat 'a 'a
  | SwapExactQuoteForBase string rat rat rat "'a option"
  | PlaceLimitOrder limit_order

text \<open>A value that a step uses: the result of the \<open>n\<close>th SDK call or plain call of the script, a component of it, or an input.\<close>

datatype step_arg = Res nat | ResAt nat nat | Inp tx_arg

datatype step =
    Sdk "step_arg sdk_call"
  | Transfer "step_arg list" string
  | Call string "string list" "step_arg list"

text \<open>The options a script creates its client with.\<close>

record coin_entry =
  ce_key :: string
  ce_address :: string
  ce_type :: string
  ce_scalar :: nat

record deepbook_opts =
  do_address :: string
  do_adminCap :: "string option"
  do_marginAdminCap :: "string option"
  do_marginMaintainerCap :: "string option"
  do_coins :: "coin_entry list"
  do_balanceManagers :: "(string \<times> string) list"

definition opts_of :: "string \<Rightarrow> deepbook_opts" where
  "opts_of address = \<lparr>do_address = address, do_adminCap = None, do_marginAdminCap = None, do_marginMaintainerCap = None, do_coins = [],
     do_balanceManagers = []\<rparr>"

text \<open>The SDK appends the commands of a call to a transaction and returns the position of its result.\<close>

type_synonym sdk = "deepbook_opts \<Rightarrow> tx_arg sdk_call \<Rightarrow> Transaction \<Rightarrow> Transaction \<times> nat"

fun resolve :: "nat list \<Rightarrow> step_arg \<Rightarrow> tx_arg" where
  "resolve rs (Res n) = ResultArg (rs ! n)"
| "resolve rs (ResAt n i) = NestedArg (rs ! n) i"
| "resolve rs (Inp a) = a"

fun build_step :: "sdk \<Rightarrow> deepbook_opts \<Rightarrow> step \<Rightarrow> Transaction \<times> nat list \<Rightarrow> Transaction \<times> nat list" where
  "build_step sdk opts (Sdk c) (tx, rs) = (case sdk opts (map_sdk_call (resolve rs) c) tx of (tx', n) \<Rightarrow> (tx', rs @ [n]))"
| "build_step sdk opts (Transfer os a) (tx, rs) = (add_command (TransferObjects (map (resolve rs) os) (AddrArg a)) tx, rs)"
| "build_step sdk opts (Call f ts as) (tx, rs) =
     (add_command (TypedCall f ts (map (resolve rs) as)) tx, rs @ [length (tx_commands tx)])"

definition build_steps :: "sdk \<Rightarrow> deepbook_opts \<Rightarrow> step list \<Rightarrow> Transaction" where
  "build_steps sdk opts ss = fst (fold (build_step sdk opts) ss (new_Transaction, []))"

section \<open>Constants\<close>

definition adminCapOwner :: string where
  "adminCapOwner = ''0xd0ec0b201de6b4e7f425918bbd7151c37fc1b06c59b3961a2a00db74f6ea865e''"
definition upgradeCapID :: string where
  "upgradeCapID = ''0xdadf253cea3b91010e64651b03da6d56166a4f44b43bdd4e185c277658634483''"
definition adminCapID :: string where
  "adminCapID = ''0xada554b8b712556b8509be47ac1bc04db9505c3532049a543721aca0c010a840''"
definition marginAdminCapID :: string where
  "marginAdminCapID = ''0x3ec65d06f0be30905cc1742b903aa497791c702820331db263176b74e74c95c8''"
definition marginMaintainerCapID :: string where
  "marginMaintainerCapID = ''0xf44fb36ebfe03ff7696f8c17723bbc6af3db1e5eff7944aa65d092575851ca72''"
definition suiMarginPoolCapID :: string where
  "suiMarginPoolCapID = ''0x4894832150466e190359716e415f92d6260d4e86c5e29f919fff8b5afa6682cb''"
definition usdcMarginPoolCapID :: string where
  "usdcMarginPoolCapID = ''0x3c6278f0b21ebf51cec6485e312123c1dbad6d89fca9bb7cfe027dad32c275d8''"
definition deepMarginPoolCapID :: string where
  "deepMarginPoolCapID = ''0xa9532986275e3eac41b8c59da91c29d591b017422b96071276e833f7c9ed855f''"
definition usdSuiMarginPoolCapID :: string where
  "usdSuiMarginPoolCapID = ''0x44a74705863f509117c5dfa215b0eef2bae9f5273039f206bec4cf2ba005902d''"
definition liquidationAdminCapID :: string where
  "liquidationAdminCapID = ''0x21521b9ddc1cfc76b6f4c9462957b4d58a998a23eb100ab2821d27d55c60d0a9''"
definition supplierCapID :: string where
  "supplierCapID = ''0xe0e64f2b0037304e29647fd5ef2c5ea758828a8e5aea73bb0bd5f227c1c20204''"

section \<open>Exchange\<close>

text \<open>A script: the options of its client and its steps.\<close>

type_synonym script = "deepbook_opts \<times> step list"

abbreviation admin_opts :: deepbook_opts where
  "admin_opts \<equiv> (opts_of ''0x0'')\<lparr>do_adminCap := Some adminCapID\<rparr>"

abbreviation margin_opts :: deepbook_opts where
  "margin_opts \<equiv> (opts_of adminCapOwner)\<lparr>do_marginAdminCap := Some marginAdminCapID\<rparr>"

definition enableVersion :: script where
  "enableVersion = (admin_opts, Sdk (EnableVersion 6) # map (Sdk \<circ> UpdateAllowedVersions)
     [''DEEP_SUI'', ''SUI_USDC'', ''DEEP_USDC'', ''WUSDT_USDC'', ''WUSDC_USDC'', ''BETH_USDC'', ''NS_USDC'', ''NS_SUI'', ''TYPUS_SUI'',
      ''SUI_AUSD'', ''AUSD_USDC'', ''DRF_SUI'', ''SEND_USDC'', ''WAL_USDC'', ''WAL_SUI'', ''XBTC_USDC'', ''IKA_USDC'', ''ALKIMI_SUI'', ''LZWBTC_USDC''])"

definition disableVersion :: script where
  "disableVersion = (admin_opts, [Sdk (DisableVersion 1)])"

definition createPool :: script where
  "createPool = ((opts_of adminCapOwner)\<lparr>do_adminCap := Some adminCapID\<rparr>,
     [Sdk (CreatePoolAdmin \<lparr>pp_baseCoinKey = ''SUI'', pp_quoteCoinKey = ''USDSUI'', pp_tickSize = 1 / 10000, pp_lotSize = 1 / 10, pp_minSize = 1 / 10\<rparr> False False),
      Sdk (CreatePoolAdmin \<lparr>pp_baseCoinKey = ''USDSUI'', pp_quoteCoinKey = ''USDC'', pp_tickSize = 1 / 1000000, pp_lotSize = 1 / 10, pp_minSize = 1 / 10\<rparr> False True)])"

definition unregisterPoolAndCreate :: script where
  "unregisterPoolAndCreate = (admin_opts,
     [Sdk (UnregisterPoolAdmin ''WUSDC_USDC''), Sdk (UnregisterPoolAdmin ''WUSDT_USDC''),
      Sdk (CreatePoolAdmin \<lparr>pp_baseCoinKey = ''WUSDC'', pp_quoteCoinKey = ''USDC'', pp_tickSize = 1 / 100000, pp_lotSize = 1 / 10, pp_minSize = 1\<rparr> True False),
      Sdk (CreatePoolAdmin \<lparr>pp_baseCoinKey = ''WUSDT'', pp_quoteCoinKey = ''USDC'', pp_tickSize = 1 / 100000, pp_lotSize = 1 / 10, pp_minSize = 1\<rparr> False True)])"

definition updatePoolTickSize :: script where
  "updatePoolTickSize = (admin_opts, [Sdk (AdjustTickSize ''SUI_USDC'' (1 / 10000))])"

definition updatePoolMinLotSize :: script where
  "updatePoolMinLotSize = (admin_opts, [Sdk (AdjustMinLotSize ''DEEP_USDC'' 1 10), Sdk (AdjustMinLotSize ''DEEP_SUI'' 1 10)])"

definition initManagerMap :: script where
  "initManagerMap = (admin_opts, [Sdk InitBalanceManagerMap])"

definition coinMap :: "coin_entry list" where
  "coinMap = map (\<lambda>(key, address, ty). \<lparr>ce_key = key, ce_address = address, ce_type = address @ ty, ce_scalar = 0\<rparr>)
     [(''usdc'', ''0xdba34672e30cb065b1f93e3ab55318768fd6fef66c15942c9f7cb846e2f900e7'', ''::usdc::USDC''),
      (''wormholeUsdc'', ''0x5d4b302506645c37ff133b98c4b50a5ae14841659738d6d733d59d0d217a93bf'', ''::coin::COIN''),
      (''usdt'', ''0x375f70cf2ae4c00bf37117d0c85a2c71545e6ee05c4a5c7d282cd66a4504b068'', ''::usdt::USDT''),
      (''wormholeUsdt'', ''0xc060006111016b8a020ad5b33834984a437aaa7d3c74c18e09a95d48aceab08c'', ''::coin::COIN''),
      (''ausd'', ''0x2053d08c1e2bd02791056171aab0fd12bd7cd7efad2ab8f6b9c8902f14df2ff2'', ''::ausd::AUSD''),
      (''buck'', ''0xce7ff77a83ea0cb6fd39bd8748e2ec89a3f41e8efdc3f4eb123e0ca37b184db2'', ''::buck::BUCK''),
      (''fdusd'', ''0xf16e6b723f242ec745dfd7634ad072c42d5c1d9ac9d62a39c381303eaa57693a'', ''::fdusd::FDUSD''),
      (''musd'', ''0xe44df51c0b21a27ab915fa1fe2ca610cd3eaa6d9666fe5e62b988bf7f0bd8722'', ''::musd::MUSD'')]"

definition addStablecoin :: script where
  "addStablecoin = (admin_opts\<lparr>do_coins := coinMap\<rparr>, map (Sdk \<circ> AddStableCoin)
     [''usdc'', ''wormholeUsdc'', ''usdt'', ''wormholeUsdt'', ''ausd'', ''buck'', ''fdusd'', ''musd''])"

text \<open>A template: the coins are to be filled in, and the transaction is built but not submitted.\<close>

definition createPermissionlessPool :: script where
  "createPermissionlessPool =
     ((opts_of ''0x0'')\<lparr>do_coins := [\<lparr>ce_key = ''COIN_A'', ce_address = [], ce_type = [], ce_scalar = 0\<rparr>,
         \<lparr>ce_key = ''COIN_B'', ce_address = [], ce_type = [], ce_scalar = 0\<rparr>]\<rparr>,
      [Sdk (CreatePermissionlessPool \<lparr>pp_baseCoinKey = ''COIN_A'', pp_quoteCoinKey = ''COIN_B'', pp_tickSize = 1 / 100000, pp_lotSize = 1 / 10, pp_minSize = 1\<rparr>)])"

definition prepBalanceManager :: script where
  "prepBalanceManager =
     ((opts_of adminCapOwner)\<lparr>do_adminCap := Some adminCapID, do_balanceManagers :=
         [(''BALANCE_MANAGER_1'', ''0xedd38a1faf45147923c4b020af940e1e09f0888d311e45267ed2bd05b5f648a8''),
          (''BALANCE_MANAGER_2'', ''0xc915672c93be17e55a35455a24a600fccf81afe1beb81e9ca9e12d5dc49195e7'')]\<rparr>,
      [Sdk (MintTradeCap ''BALANCE_MANAGER_2''),
       Transfer [Res 0] ''0x946a9773c1acfe7a20ac926f948ed4e6d77148b75e00d60f83ac10abae4ea9d7'',
       Sdk (DepositIntoManager ''BALANCE_MANAGER_1'' ''DEEP'' 110000),
       Sdk (DepositIntoManager ''BALANCE_MANAGER_2'' ''DEEP'' 30000),
       Sdk (DepositIntoManager ''BALANCE_MANAGER_2'' ''USDC'' 1000)])"

text \<open>The coins of the script with their types and the units of one coin; the transfer looks its coin up.\<close>

definition transfer_config :: "(string \<times> string \<times> rat) list" where
  "transfer_config =
     [(''SUI'', ''0x0000000000000000000000000000000000000000000000000000000000000002::sui::SUI'', 1000000000),
      (''DEEP'', ''0xdeeb7a4662eec9f2f3def03fb937a663dddaa2e215b8078a284d026b7946c270::deep::DEEP'', 1000000),
      (''USDC'', ''0xdba34672e30cb065b1f93e3ab55318768fd6fef66c15942c9f7cb846e2f900e7::usdc::USDC'', 1000000)]"

definition transferFunds :: script where
  "transferFunds =
     (let (coin_type, scalar) = the (map_of transfer_config ''SUI''); amount = 10000; totalAmount = amount * scalar
      in (opts_of [], [Sdk (CoinWithBalance coin_type totalAmount (Some False)),
           Transfer [Res 0] ''0x126bdaa2ef314de60c8214c82a2248e4cc21875330a5c32977eb303be585cab8'']))"

section \<open>Margin\<close>

definition enableMarginVersion :: script where
  "enableMarginVersion = (margin_opts, [Sdk (MarginEnableVersion 2)])"

definition disableMarginVersion :: script where
  "disableMarginVersion = (margin_opts, [Sdk (MarginDisableVersion 1)])"

definition revokePausecap :: script where
  "revokePausecap = (margin_opts, [Sdk (RevokePauseCap ''0xae721e2ecc551d59f53231b82183b447061847d6364d46fa1db71945645c38cb'')])"

definition updateInterestRates :: script where
  "updateInterestRates =
     (admin_opts\<lparr>do_marginAdminCap := Some marginAdminCapID, do_marginMaintainerCap := Some marginMaintainerCapID\<rparr>,
      [Sdk (UpdateMarginPoolConfig ''DEEP'' (Inp (ObjArg deepMarginPoolCapID))
         \<lparr>mp_supplyCap = 30000000, mp_maxUtilizationRate = 9 / 10, mp_referralSpread = 2 / 10, mp_minBorrow = 1 / 10,
          mp_rateLimitCapacity = 6000000, mp_rateLimitRefillRatePerMs = 277778 / 1000000, mp_rateLimitEnabled = True\<rparr>)])"

definition risk_params_usdsui :: risk_params where
  "risk_params_usdsui =
     \<lparr>rp_minWithdrawRiskRatio = 2, rp_minBorrowRiskRatio = 12499 / 10000, rp_liquidationRiskRatio = 11 / 10,
      rp_targetLiquidationRiskRatio = 125 / 100, rp_userLiquidationReward = 2 / 100, rp_poolLiquidationReward = 3 / 100\<rparr>"

definition pyth_feeds :: "price_feed list" where
  "pyth_feeds = map (\<lambda>(c, conf, ewma). \<lparr>pf_coinKey = c, pf_maxConfBps = conf, pf_maxEwmaDifferenceBps = ewma\<rparr>)
     [(''SUI'', 300, 1500), (''USDC'', 100, 500), (''DEEP'', 500, 3000), (''WAL'', 500, 3000), (''SUIUSDE'', 100, 500),
      (''XBTC'', 200, 1000), (''USDSUI'', 100, 500)]"

definition marginPrep :: script where
  "marginPrep =
     (let maxAgeSeconds = 70 in
      ((opts_of adminCapOwner)\<lparr>do_adminCap := Some adminCapID, do_marginAdminCap := Some marginAdminCapID,
          do_marginMaintainerCap := Some marginMaintainerCapID\<rparr>,
       [Sdk (NewPythConfig pyth_feeds maxAgeSeconds),
        Sdk RemoveConfig,
        Sdk (AddConfig (Res 0)),
        Sdk (NewPoolConfig ''SUI_USDSUI'' risk_params_usdsui),
        Sdk (RegisterDeepbookPool ''SUI_USDSUI'' (Res 3)),
        Sdk (EnableDeepbookPool ''SUI_USDSUI''),
        Sdk (NewPoolConfig ''USDSUI_USDC'' risk_params_usdsui),
        Sdk (RegisterDeepbookPool ''USDSUI_USDC'' (Res 6)),
        Sdk (EnableDeepbookPool ''USDSUI_USDC''),
        Sdk (EnableDeepbookPoolForLoan ''SUI_USDSUI'' ''SUI'' (Inp (ObjArg suiMarginPoolCapID))),
        Sdk (EnableDeepbookPoolForLoan ''SUI_USDSUI'' ''USDSUI'' (Inp (ObjArg usdSuiMarginPoolCapID))),
        Sdk (EnableDeepbookPoolForLoan ''USDSUI_USDC'' ''USDSUI'' (Inp (ObjArg usdSuiMarginPoolCapID))),
        Sdk (EnableDeepbookPoolForLoan ''USDSUI_USDC'' ''USDC'' (Inp (ObjArg usdcMarginPoolCapID)))]))"

definition createLiquidationVault :: script where
  "createLiquidationVault = (opts_of adminCapOwner, [Sdk (CreateLiquidationVault liquidationAdminCapID)])"

definition fundLiquidationVault :: script where
  "fundLiquidationVault = (opts_of adminCapOwner,
     [Sdk (LiquidationDeposit ''0xae8e060630107720560d49e99f352b41a9f1696675021f087b69b57d35d814b6'' liquidationAdminCapID ''USDC'' 50000)])"

definition supplyToMarginPool :: script where
  "supplyToMarginPool = (opts_of adminCapOwner, [Sdk (SupplyToMarginPool ''USDC'' (Inp (ObjArg supplierCapID)) 90000)])"

definition abyss_supply :: "string \<Rightarrow> string \<Rightarrow> string \<Rightarrow> string \<Rightarrow> step_arg \<Rightarrow> string \<Rightarrow> step" where
  "abyss_supply package coin_type vault marginPool coin referral =
     Call (package @ ''::abyss_vault::supply'') [coin_type, package @ ''::abyss_vault::AToken<'' @ coin_type @ ''>'']
       [Inp (ObjArg vault), Inp (ObjArg marginPool),
        Inp (ObjArg ''0xfac1800074e8ed8eb2baf1e631e8199ccce6b0f6bfd50b5143e1ff47c438aecf''),
        Inp (ObjArg ''0x0e40998b359a9ccbab22a98ed21bd4346abf19158bc7980c8291908086b3a742''),
        coin,
        Inp (ObjArg ''0x3d0faab3953525d243275b39cbed465cb310fe2d4dd2c15428b8f7cf5962c2c0''),
        Inp (OptIdArg (Some referral)), Inp (ObjArg ''0x6'')]"

definition fundAbyssVault :: script where
  "fundAbyssVault = (opts_of [],
     [abyss_supply ''0x90a75f641859f4d77a4349d67e518e1dd9ecb4fac079e220fa46b7a7f164e0a5''
        ''0xdba34672e30cb065b1f93e3ab55318768fd6fef66c15942c9f7cb846e2f900e7::usdc::USDC''
        ''0x86cd17116a5c1bc95c25296a901eb5ea91531cb8ba59d01f64ee2018a14d6fa5''
        ''0xba473d9ae278f10af75c50a8fa341e9c6a1c087dc91a3f23e8048baf67d0754f''
        (Inp (ObjArg ''0x392b92d4a872bff969d9ef8d51c3d7a4223fe2b75da29d7befb2aee25c017562''))
        ''0xba436b3f0e57600e9318c2e03c51b940612d8b0d4df18ad9f31c203f95cad122'',
      Transfer [Res 0] adminCapOwner])"

definition fundAbyssVaultUsde :: script where
  "fundAbyssVaultUsde =
     (let coin_type = ''0x41d587e5336f1c86cad50d38a7136db99333bb9bda91cea4ba69115defeb1402::sui_usde::SUI_USDE''; amount = 249990; scalar = 1000000 in
      (opts_of [],
       [Sdk (CoinWithBalance coin_type (amount * scalar) None),
        abyss_supply ''0x89a2379902ee37959c0dd95820ebb474531ef7727fa135d0324e62e8d4e06da5'' coin_type
          ''0x5c76d44cf37a83bbe5c5704b46f8456dbf11c83fd70e21351b651cf0cabd2209''
          ''0xbb990ca04a7743e6c0a25a7fb16f60fc6f6d8bf213624ff03a63f1bb04c3a12f''
          (Res 0) ''0x36902236c237324616edb97d829c103367e4006258f37cac2f9464212fdf1a82'',
        Transfer [Res 1] adminCapOwner]))"

text \<open>The scripts end with the file for the signers of the administration account; the template of a permissionless pool builds its
  transaction only.\<close>

definition admin_main :: "sdk \<Rightarrow> script \<Rightarrow> string option \<Rightarrow> string option \<Rightarrow> multisig_replies \<Rightarrow> (deploy_effect, unit) run" where
  "admin_main sdk sc gas_object node_env rp =
     prepareMultisigTx (build_steps sdk (fst sc) (snd sc)) (Some adminCapOwner) (Inl TypeError) gas_object node_env rp"

section \<open>Market maker\<close>

text \<open>The signer of a market maker is made of its key, which must be of the one supported scheme; a missing scheme
  prints as \<open>undefined\<close>.\<close>

definition getSignerFromPK :: "key_tools \<Rightarrow> string \<Rightarrow> keypair res" where
  "getSignerFromPK K privateKey =
     bindE (kt_decode K privateKey) (\<lambda>(schema, secret).
       if schema = Some ''ED25519'' then Inr (Ed25519 secret)
       else Inl (Error (''Unsupported schema: '' @ (case schema of None \<Rightarrow> ''undefined'' | Some s \<Rightarrow> s))))"

definition flashLoanExample :: "string \<Rightarrow> step list" where
  "flashLoanExample address =
     (let borrowAmount = 1 in
      [Sdk (BorrowBaseAsset ''DEEP_SUI'' borrowAmount),
       Sdk (SwapExactQuoteForBase ''SUI_DBUSDC'' (1 / 2) 1 0 (Some (ResAt 0 0))),
       Transfer [ResAt 1 0, ResAt 1 1, ResAt 1 2] address,
       Sdk (SwapExactQuoteForBase ''DEEP_SUI'' 10 0 0 None),
       Transfer [ResAt 2 1, ResAt 2 2] address,
       Sdk (ReturnBaseAsset ''DEEP_SUI'' borrowAmount (ResAt 2 0) (ResAt 0 1)),
       Transfer [Res 3] address])"

definition placeLimitOrderExample :: "step list" where
  "placeLimitOrderExample =
     [Sdk (PlaceLimitOrder \<lparr>lo_poolKey = ''SUI_DBUSDC'', lo_balanceManagerKey = ''MANAGER_1'', lo_clientOrderId = ''123456789'',
        lo_price = 1, lo_quantity = 1, lo_isBid = True\<rparr>)]"

section \<open>Pause\<close>

text \<open>The pause script has its own copy of the signer, without a default for a key whose scheme the decoder leaves out.\<close>

definition pause_signer_of_key :: "key_tools \<Rightarrow> string \<Rightarrow> keypair res" where
  "pause_signer_of_key K key =
     bindE (kt_decode K key) (\<lambda>(schema, secret).
       if schema = Some ''ED25519'' then Inr (Ed25519 secret)
       else if schema = Some ''Secp256k1'' then Inr (Secp256k1 secret)
       else if schema = Some ''Secp256r1'' then Inr (Secp256r1 secret)
       else Inl (Error ''Keypair not supported.''))"

definition pause_getSigner :: "key_tools \<Rightarrow> string option \<Rightarrow> string res \<Rightarrow> string list res \<Rightarrow> keypair res" where
  "pause_getSigner K private_key active keystore =
     (case private_key of
        Some (c # cs) \<Rightarrow> pause_signer_of_key K (c # cs)
      | _ \<Rightarrow> bindE active (\<lambda>sender. bindE keystore (find_key K sender)))"

text \<open>The address of the client is the active one; the effect is the transaction that is signed and submitted.\<close>

definition pauseCap_main ::
  "sdk \<Rightarrow> key_tools \<Rightarrow> string option \<Rightarrow> string res \<Rightarrow> string list res \<Rightarrow> unit res \<Rightarrow> (keypair \<times> Transaction, unit) run" where
  "pauseCap_main sdk K private_key active keystore reply =
     bindW (await active) (\<lambda>address.
     let tx = build_steps sdk ((opts_of address)\<lparr>do_adminCap := Some []\<rparr>) [Sdk (DisableVersionPauseCap 1 [])] in
     bindW (await (pause_getSigner K private_key active keystore)) (\<lambda>signer.
     bindW (emits (signer, tx)) (\<lambda>_. await reply)))"

section \<open>Upgrades\<close>

text \<open>The command line tool is asked for the bytes of an unsigned upgrade; an error of it or of the write ends the script
  with an exit code.\<close>

datatype upgrade_effect = ExecSync string string | WriteTx string string

definition upgradeCall :: "string \<Rightarrow> string \<Rightarrow> string" where
  "upgradeCall capability gasObjectId =
     ''sui client upgrade '' @ capability @ ''--gas-budget 2000000000 --gas '' @ gasObjectId
       @ '' --gas-price 1000 --serialize-unsigned-transaction''"

definition run_upgrade ::
  "(string \<Rightarrow> string) \<Rightarrow> string \<Rightarrow> string \<Rightarrow> string \<Rightarrow> string option \<Rightarrow> string res \<Rightarrow> unit res \<Rightarrow> (upgrade_effect, unit) run" where
  "run_upgrade extract package capability currentDir gas_object exec write =
     bindW (require (gas_object \<noteq> None \<and> gas_object \<noteq> Some []) ''No gas object supplied for a mainnet transaction'') (\<lambda>_.
     bindW (emits (ExecSync (currentDir @ ''/../packages/'' @ package) (upgradeCall capability (the gas_object)))) (\<lambda>_.
     bindW (await exec) (\<lambda>out.
     bindW (emits (WriteTx (currentDir @ ''/tx/tx-data.txt'') (extract out))) (\<lambda>_. await write))))"

text \<open>The last line of the trimmed output.\<close>

definition last_line :: "string \<Rightarrow> string" where
  "last_line out = (let lines = split_string [CHR 0x0A] (trim out) in trim (lines ! (length lines - 1)))"

definition mainPackageUpgrade :: "string \<Rightarrow> string option \<Rightarrow> string res \<Rightarrow> unit res \<Rightarrow> (upgrade_effect, unit) run" where
  "mainPackageUpgrade = run_upgrade (\<lambda>s. s) ''deepbook'' (''--upgrade-capability '' @ upgradeCapID @ '' '')"

definition marginPackageUpgrade :: "string \<Rightarrow> string option \<Rightarrow> string res \<Rightarrow> unit res \<Rightarrow> (upgrade_effect, unit) run" where
  "marginPackageUpgrade = run_upgrade last_line ''deepbook_margin'' []"

definition vaultPackageUpgrade :: "string \<Rightarrow> string option \<Rightarrow> string res \<Rightarrow> unit res \<Rightarrow> (upgrade_effect, unit) run" where
  "vaultPackageUpgrade = run_upgrade last_line ''margin_liquidation'' []"

section \<open>Scope and shape\<close>

text \<open>A step may use the results of the calls before it.\<close>

fun arg_scoped :: "nat \<Rightarrow> step_arg \<Rightarrow> bool" where
  "arg_scoped k (Res n) \<longleftrightarrow> n < k"
| "arg_scoped k (ResAt n i) \<longleftrightarrow> n < k"
| "arg_scoped k (Inp a) \<longleftrightarrow> arg_refs a = []"

fun sdk_args :: "'a sdk_call \<Rightarrow> 'a list" where
  "sdk_args (AddConfig a) = [a]"
| "sdk_args (RegisterDeepbookPool p a) = [a]"
| "sdk_args (EnableDeepbookPoolForLoan p c a) = [a]"
| "sdk_args (UpdateMarginPoolConfig c a q) = [a]"
| "sdk_args (SupplyToMarginPool c a x) = [a]"
| "sdk_args (ReturnBaseAsset p x a b) = [a, b]"
| "sdk_args (SwapExactQuoteForBase p x y z a) = (case a of None \<Rightarrow> [] | Some b \<Rightarrow> [b])"
| "sdk_args _ = []"

fun scoped :: "nat \<Rightarrow> step list \<Rightarrow> bool" where
  "scoped k [] \<longleftrightarrow> True"
| "scoped k (Sdk c # ss) \<longleftrightarrow> list_all (arg_scoped k) (sdk_args c) \<and> scoped (Suc k) ss"
| "scoped k (Transfer os a # ss) \<longleftrightarrow> list_all (arg_scoped k) os \<and> scoped k ss"
| "scoped k (Call f ts as # ss) \<longleftrightarrow> list_all (arg_scoped k) as \<and> scoped (Suc k) ss"

lemma set_sdk_args: "set_sdk_call c = set (sdk_args c)"
  by (cases c) (auto split: option.splits)

text \<open>What the scripts rely on: a call of the SDK with arguments that are available appends well-formed commands, and its
  result is one of them or an earlier one.\<close>

definition sdk_appends :: "sdk \<Rightarrow> bool" where
  "sdk_appends sdk \<longleftrightarrow>
     (\<forall>opts c tx. wf_tx tx \<and> (\<forall>a \<in> set_sdk_call c. arg_ok (length (tx_commands tx)) a) \<longrightarrow>
        (\<exists>cs n. tx_commands (fst (sdk opts c tx)) = tx_commands tx @ cs \<and> wf_tx (fst (sdk opts c tx))
           \<and> snd (sdk opts c tx) = n \<and> n < length (tx_commands tx @ cs)))"

lemma resolve_ok:
  assumes "arg_scoped (length rs) a" "\<forall>r \<in> set rs. r < n"
  shows "arg_ok n (resolve rs a)"
proof (cases a)
  case (Inp x)
  then show ?thesis using assms by (simp add: arg_ok_def)
qed (use assms in auto)

definition build_inv :: "Transaction \<times> nat list \<Rightarrow> bool" where
  "build_inv s \<longleftrightarrow> wf_tx (fst s) \<and> (\<forall>r \<in> set (snd s). r < length (tx_commands (fst s)))"

lemma build_step_inv:
  assumes "sdk_appends sdk" "build_inv (tx, rs)"
  shows "list_all (arg_scoped (length rs)) (sdk_args c) \<Longrightarrow> build_inv (build_step sdk opts (Sdk c) (tx, rs))"
    "list_all (arg_scoped (length rs)) os \<Longrightarrow> build_inv (build_step sdk opts (Transfer os a) (tx, rs))"
    "list_all (arg_scoped (length rs)) as \<Longrightarrow> build_inv (build_step sdk opts (Call f ts as) (tx, rs))"
proof -
  have r: "arg_ok (length (tx_commands tx)) (resolve rs x)" if "arg_scoped (length rs) x" for x
    using resolve_ok [OF that] assms(2) by (simp add: build_inv_def)
  show "build_inv (build_step sdk opts (Sdk c) (tx, rs))" if "list_all (arg_scoped (length rs)) (sdk_args c)"
  proof -
    let ?c = "map_sdk_call (resolve rs) c"
    have "set_sdk_call ?c = resolve rs ` set (sdk_args c)" by (simp only: sdk_call.set_map set_sdk_args [of c])
    then have "\<forall>a \<in> set_sdk_call ?c. arg_ok (length (tx_commands tx)) a" using that r by (auto simp: list_all_iff)
    then obtain cs where "tx_commands (fst (sdk opts ?c tx)) = tx_commands tx @ cs" "wf_tx (fst (sdk opts ?c tx))"
      "snd (sdk opts ?c tx) < length (tx_commands tx @ cs)"
      using assms unfolding sdk_appends_def build_inv_def by fastforce
    then show ?thesis using assms(2) by (fastforce simp: build_inv_def split: prod.splits)
  qed
  show "list_all (arg_scoped (length rs)) os \<Longrightarrow> build_inv (build_step sdk opts (Transfer os a) (tx, rs))"
    using assms(2) r by (auto simp: build_inv_def wf_add list_all_iff)
  show "list_all (arg_scoped (length rs)) as \<Longrightarrow> build_inv (build_step sdk opts (Call f ts as) (tx, rs))"
    using assms(2) r by (auto simp: build_inv_def wf_add list_all_iff)
qed

lemma build_steps_results:
  "length (snd (build_step sdk opts st (tx, rs))) = (case st of Transfer _ _ \<Rightarrow> length rs | _ \<Rightarrow> Suc (length rs))"
  by (cases st) (auto split: prod.splits)

lemma build_steps_inv:
  "sdk_appends sdk \<Longrightarrow> build_inv s \<Longrightarrow> scoped (length (snd s)) ss \<Longrightarrow> build_inv (fold (build_step sdk opts) ss s)"
proof (induction ss arbitrary: s)
  case (Cons st ss)
  obtain tx rs where s: "s = (tx, rs)" by fastforce
  have "build_inv (build_step sdk opts st s)"
    using Cons.prems build_step_inv [of sdk tx rs] unfolding s by (cases st) auto
  moreover have "scoped (length (snd (build_step sdk opts st s))) ss"
    using Cons.prems(3) build_steps_results [of sdk opts st tx rs] unfolding s by (cases st) auto
  ultimately show ?case using Cons by simp
qed simp

lemma scoped_wf: "sdk_appends sdk \<Longrightarrow> scoped 0 ss \<Longrightarrow> wf_tx (build_steps sdk opts ss)"
  using build_steps_inv [of sdk "(new_Transaction, [])" ss opts] by (simp add: build_steps_def build_inv_def)

definition admin_scripts :: "script list" where
  "admin_scripts =
     [enableVersion, disableVersion, createPool, unregisterPoolAndCreate, updatePoolTickSize, updatePoolMinLotSize, initManagerMap,
      addStablecoin, createPermissionlessPool, prepBalanceManager, transferFunds, enableMarginVersion, disableMarginVersion,
      revokePausecap, updateInterestRates, marginPrep, createLiquidationVault, fundLiquidationVault, supplyToMarginPool,
      fundAbyssVault, fundAbyssVaultUsde]"

lemma admin_scripts_scoped: "list_all (\<lambda>sc. scoped 0 (snd sc)) admin_scripts"
  by code_simp

text \<open>Every administration transaction is well-formed, on any SDK that appends well-formed commands.\<close>

lemma admin_scripts_wf:
  assumes "sdk_appends sdk" "sc \<in> set admin_scripts"
  shows "wf_tx (build_steps sdk (fst sc) (snd sc))"
  using scoped_wf [OF assms(1)] admin_scripts_scoped assms(2) by (auto simp: list_all_iff)

text \<open>The flash loan of the example is returned: the loan is taken by exactly one call, the one that repays it.\<close>

lemma flash_loan_returned:
  "scoped 0 (flashLoanExample a)"
  "filter (\<lambda>st. case st of Sdk c \<Rightarrow> ResAt 0 1 \<in> set (sdk_args c) | Transfer os _ \<Rightarrow> ResAt 0 1 \<in> set os | Call _ _ as \<Rightarrow> ResAt 0 1 \<in> set as) (flashLoanExample a)
     = [Sdk (ReturnBaseAsset ''DEEP_SUI'' 1 (ResAt 2 0) (ResAt 0 1))]"
  by (simp_all add: flashLoanExample_def Let_def)

section \<open>The pause script cannot use a supplied key\<close>

text \<open>With a decoder that leaves the scheme out, as the shared signer notes of current versions, every supplied key is
  refused before anything is submitted, while the shared signer accepts it.\<close>

lemma pause_refuses_key:
  assumes "kt_decode K key = Inr (None, secret)" "key \<noteq> []" "active = Inr address"
  shows "pauseCap_main sdk K (Some key) active keystore reply = ([], Inl (Error ''Keypair not supported.''))"
    "deploy_getSigner K (Some key) active keystore = Inr (Ed25519 secret)"
  using assms by (auto simp: pauseCap_main_def bindW_simps await_def Let_def pause_getSigner_def pause_signer_of_key_def
      deploy_getSigner_def signer_of_key_def bindE_def split: list.splits)

section \<open>What an upgrade writes\<close>

lemma trim_padded:
  assumes "s \<noteq> []" "\<not> is_space (hd s)" "\<not> is_space (last s)" "list_all is_space ws"
  shows "trim (s @ ws) = s"
proof -
  have "dropWhile is_space (s @ ws) = s @ ws" using assms(1,2) by (cases s) auto
  moreover have "dropWhile is_space (rev ws @ rev s) = dropWhile is_space (rev s)"
    using assms(4) by (simp add: dropWhile_append list_all_iff)
  moreover have "dropWhile is_space (rev s) = rev s" using assms(1,3) by (cases "rev s") (auto simp: last_rev hd_rev [symmetric])
  ultimately show ?thesis by (simp add: trim_def)
qed

text \<open>Log lines before the bytes and white space behind them are dropped.\<close>

lemma last_line_bytes:
  assumes "pre \<noteq> []" "\<not> is_space (hd pre)" "\<not> is_space (last pre)" "l \<noteq> []" "list_all (\<lambda>c. \<not> is_space c) l" "list_all is_space ws"
  shows "last_line (pre @ [CHR 0x0A] @ l @ ws) = l"
proof -
  have sp: "is_space (CHR 0x0A)" by (simp add: is_space_def)
  have "trim ((pre @ [CHR 0x0A] @ l) @ ws) = pre @ [CHR 0x0A] @ l"
    using assms by (intro trim_padded) (auto simp: list_all_iff hd_append)
  moreover have "last (split_from [CHR 0x0A] [] (pre @ [CHR 0x0A] @ l)) = l"
    using assms sp by (intro split_last) (auto simp: list_all_iff)
  moreover have "trim l = l" using assms(5) by (intro trim_id) (auto simp: list_all_iff)
  ultimately show ?thesis
    using last_conv_nth [OF split_from_nonempty, of "[CHR 0x0A]" "[]" "pre @ [CHR 0x0A] @ l"]
    by (simp add: last_line_def split_string_def Let_def)
qed

text \<open>A script that finishes has run one command, on its package and with the given gas object, and has written the
  extracted bytes once.\<close>

lemma upgrade_writes:
  assumes "run_upgrade extract package capability dir gas exec write = (fx, Inr ())"
  shows "\<exists>g out. gas = Some g \<and> g \<noteq> [] \<and> exec = Inr out \<and> write = Inr () \<and>
     fx = [ExecSync (dir @ ''/../packages/'' @ package) (upgradeCall capability g), WriteTx (dir @ ''/tx/tx-data.txt'') (extract out)]"
  using assms by (cases gas; cases exec) (auto simp: run_upgrade_def bindW_def require_def emits_def await_def split: if_splits)

end
