(* ===== verification/MarginRegistry.thy ===== *)
theory MarginRegistry
  imports AdminScripts "HOL-Library.Word"
begin

text \<open>
  The part of the on-chain margin registry and margin pools that the administration scripts drive, with the assertions of the Move
  functions in their order as aborts and amounts as 64-bit words; and the run of a script against it. The
  theory shows that the preparation of the margin markets passes every assertion, and what the registered
  configurations satisfy.
\<close>

section \<open>State\<close>

datatype margin_abort =
    EInvalidRiskParam
  | EPoolAlreadyRegistered
  | EPoolNotRegistered
  | EPoolNotEnabled
  | EPoolAlreadyEnabled
  | EPoolAlreadyDisabled
  | EMarginPoolDoesNotExists
  | EPackageVersionDisabled
  | EVersionAlreadyEnabled
  | EVersionNotEnabled
  | EPauseCapNotValid
  | EInvalidMarginPoolCap
  | EDeepbookPoolAlreadyAllowed
  | EDeepbookPoolNotAllowed
  | EInvalidOracleConfig
  | EKeyAlreadyExists
  | EFieldAlreadyExists
  | EFieldDoesNotExist

record RiskRatios =
  min_withdraw_risk_ratio :: "64 word"
  min_borrow_risk_ratio :: "64 word"
  liquidation_risk_ratio :: "64 word"
  target_liquidation_risk_ratio :: "64 word"

record PoolConfig =
  base_margin_pool_id :: string
  quote_margin_pool_id :: string
  risk_ratios :: RiskRatios
  user_liquidation_reward :: "64 word"
  pool_liquidation_reward :: "64 word"
  enabled :: bool

text \<open>The registry with the price configuration attached to it, and of each margin pool the capability and the pools
  that may borrow.\<close>

record MarginRegistry =
  allowed_versions :: "nat list"
  pool_registry :: "string \<rightharpoonup> PoolConfig"
  margin_pools :: "string \<rightharpoonup> string"
  allowed_pause_caps :: "string list"
  pyth_config :: "(price_feed list \<times> nat) option"
  cap_pool :: "string \<rightharpoonup> string"
  allowed_deepbook_pools :: "string \<Rightarrow> string list"

type_synonym 'a move = "margin_abort + 'a"

definition move_bind :: "'a move \<Rightarrow> ('a \<Rightarrow> 'b move) \<Rightarrow> 'b move" where
  "move_bind m f = (case m of Inl e \<Rightarrow> Inl e | Inr v \<Rightarrow> f v)"

definition asserts :: "bool \<Rightarrow> margin_abort \<Rightarrow> unit move" where
  "asserts b e = (if b then Inr () else Inl e)"

lemma move_bind_simps [simp]: "move_bind (Inl e) f = Inl e" "move_bind (Inr v) f = f v"
  by (simp_all add: move_bind_def)

lemma asserts_simps [simp]: "asserts True e = Inr ()" "asserts False e = Inl e"
  by (simp_all add: asserts_def)

lemma move_bind_Inr: "move_bind m f = Inr v \<longleftrightarrow> (\<exists>u. m = Inr u \<and> f u = Inr v)"
  by (cases m) auto

lemma asserts_Inr: "asserts b e = Inr u \<longleftrightarrow> b"
  by (simp add: asserts_def)

definition float_scaling :: "64 word" where "float_scaling = 1000000000"
definition margin_version :: nat where "margin_version = 3"
definition max_conf_bps :: nat where "max_conf_bps = 10000"
definition max_ewma_difference_bps :: nat where "max_ewma_difference_bps = 10000"

section \<open>Functions\<close>

definition load_inner :: "MarginRegistry \<Rightarrow> unit move" where
  "load_inner r = asserts (margin_version \<in> set (allowed_versions r)) EPackageVersionDisabled"

definition get_margin_pool_id :: "MarginRegistry \<Rightarrow> string \<Rightarrow> string move" where
  "get_margin_pool_id r asset =
     move_bind (load_inner r) (\<lambda>_. case margin_pools r asset of None \<Rightarrow> Inl EMarginPoolDoesNotExists | Some i \<Rightarrow> Inr i)"

definition new_pool_config ::
  "MarginRegistry \<Rightarrow> string \<Rightarrow> string \<Rightarrow> 64 word \<Rightarrow> 64 word \<Rightarrow> 64 word \<Rightarrow> 64 word \<Rightarrow> 64 word \<Rightarrow> 64 word \<Rightarrow> PoolConfig move" where
  "new_pool_config r baseAsset quoteAsset minWithdraw minBorrow liquidation targetLiquidation user_reward pool_reward =
     move_bind (asserts (minBorrow < minWithdraw) EInvalidRiskParam) (\<lambda>_.
     move_bind (asserts (liquidation < minBorrow) EInvalidRiskParam) (\<lambda>_.
     move_bind (asserts (liquidation < targetLiquidation) EInvalidRiskParam) (\<lambda>_.
     move_bind (asserts (liquidation \<ge> float_scaling) EInvalidRiskParam) (\<lambda>_.
     move_bind (asserts (user_reward \<le> float_scaling) EInvalidRiskParam) (\<lambda>_.
     move_bind (asserts (pool_reward \<le> float_scaling) EInvalidRiskParam) (\<lambda>_.
     move_bind (asserts (user_reward + pool_reward \<le> float_scaling) EInvalidRiskParam) (\<lambda>_.
     move_bind (asserts (targetLiquidation > float_scaling + user_reward + pool_reward) EInvalidRiskParam) (\<lambda>_.
     move_bind (get_margin_pool_id r baseAsset) (\<lambda>b.
     move_bind (get_margin_pool_id r quoteAsset) (\<lambda>q.
     Inr \<lparr>base_margin_pool_id = b, quote_margin_pool_id = q,
       risk_ratios = \<lparr>min_withdraw_risk_ratio = minWithdraw, min_borrow_risk_ratio = minBorrow, liquidation_risk_ratio = liquidation,
         target_liquidation_risk_ratio = targetLiquidation\<rparr>,
       user_liquidation_reward = user_reward, pool_liquidation_reward = pool_reward, enabled = False\<rparr>))))))))))"

definition register_deepbook_pool :: "string \<Rightarrow> PoolConfig \<Rightarrow> MarginRegistry \<Rightarrow> MarginRegistry move" where
  "register_deepbook_pool pool config r =
     move_bind (load_inner r) (\<lambda>_.
     move_bind (asserts (pool_registry r pool = None) EPoolAlreadyRegistered) (\<lambda>_.
     Inr (r\<lparr>pool_registry := (pool_registry r)(pool \<mapsto> config)\<rparr>)))"

definition set_enabled :: "bool \<Rightarrow> margin_abort \<Rightarrow> string \<Rightarrow> MarginRegistry \<Rightarrow> MarginRegistry move" where
  "set_enabled b already pool r =
     move_bind (load_inner r) (\<lambda>_.
     case pool_registry r pool of
       None \<Rightarrow> Inl EPoolNotRegistered
     | Some config \<Rightarrow>
         move_bind (asserts (enabled config \<noteq> b) already) (\<lambda>_.
         Inr (r\<lparr>pool_registry := (pool_registry r)(pool \<mapsto> config\<lparr>enabled := b\<rparr>)\<rparr>)))"

definition enable_deepbook_pool :: "string \<Rightarrow> MarginRegistry \<Rightarrow> MarginRegistry move" where
  "enable_deepbook_pool = set_enabled True EPoolAlreadyEnabled"

definition disable_deepbook_pool :: "string \<Rightarrow> MarginRegistry \<Rightarrow> MarginRegistry move" where
  "disable_deepbook_pool = set_enabled False EPoolAlreadyDisabled"

definition update_risk_params :: "string \<Rightarrow> PoolConfig \<Rightarrow> MarginRegistry \<Rightarrow> MarginRegistry move" where
  "update_risk_params pool config r =
     move_bind (load_inner r) (\<lambda>_.
     case pool_registry r pool of
       None \<Rightarrow> Inl EPoolNotRegistered
     | Some prev \<Rightarrow>
         (let new = risk_ratios config in
          move_bind (asserts (liquidation_risk_ratio new \<le> liquidation_risk_ratio (risk_ratios prev)) EInvalidRiskParam) (\<lambda>_.
          move_bind (asserts (enabled prev) EPoolNotEnabled) (\<lambda>_.
          move_bind (asserts (min_borrow_risk_ratio new < min_withdraw_risk_ratio new) EInvalidRiskParam) (\<lambda>_.
          move_bind (asserts (liquidation_risk_ratio new < min_borrow_risk_ratio new) EInvalidRiskParam) (\<lambda>_.
          move_bind (asserts (liquidation_risk_ratio new < target_liquidation_risk_ratio new) EInvalidRiskParam) (\<lambda>_.
          move_bind (asserts (liquidation_risk_ratio new \<ge> float_scaling) EInvalidRiskParam) (\<lambda>_.
          Inr (r\<lparr>pool_registry := (pool_registry r)(pool \<mapsto> config)\<rparr>)))))))))"

definition market_enabled :: "string \<Rightarrow> MarginRegistry \<Rightarrow> bool" where
  "market_enabled pool r = (case pool_registry r pool of None \<Rightarrow> False | Some c \<Rightarrow> enabled c)"

text \<open>The coins of a price configuration are the keys of a map: a second entry for a coin aborts.\<close>

definition new_pyth_config :: "price_feed list \<Rightarrow> nat \<Rightarrow> (price_feed list \<times> nat) move" where
  "new_pyth_config feeds max_age_secs =
     move_bind (asserts (list_all (\<lambda>f. pf_maxConfBps f \<le> max_conf_bps \<and> pf_maxEwmaDifferenceBps f \<le> max_ewma_difference_bps) feeds)
       EInvalidOracleConfig) (\<lambda>_.
     move_bind (asserts (distinct (map pf_coinKey feeds)) EKeyAlreadyExists) (\<lambda>_. Inr (feeds, max_age_secs)))"

definition add_config :: "price_feed list \<times> nat \<Rightarrow> MarginRegistry \<Rightarrow> MarginRegistry move" where
  "add_config config r =
     move_bind (load_inner r) (\<lambda>_. move_bind (asserts (pyth_config r = None) EFieldAlreadyExists) (\<lambda>_. Inr (r\<lparr>pyth_config := Some config\<rparr>)))"

definition remove_config :: "MarginRegistry \<Rightarrow> MarginRegistry move" where
  "remove_config r =
     move_bind (load_inner r) (\<lambda>_. move_bind (asserts (pyth_config r \<noteq> None) EFieldDoesNotExist) (\<lambda>_. Inr (r\<lparr>pyth_config := None\<rparr>)))"

definition enable_version :: "nat \<Rightarrow> MarginRegistry \<Rightarrow> MarginRegistry move" where
  "enable_version version r =
     move_bind (asserts (version \<notin> set (allowed_versions r)) EVersionAlreadyEnabled) (\<lambda>_.
     Inr (r\<lparr>allowed_versions := allowed_versions r @ [version]\<rparr>))"

definition disable_version :: "nat \<Rightarrow> MarginRegistry \<Rightarrow> MarginRegistry move" where
  "disable_version version r =
     move_bind (asserts (version \<in> set (allowed_versions r)) EVersionNotEnabled) (\<lambda>_.
     Inr (r\<lparr>allowed_versions := removeAll version (allowed_versions r)\<rparr>))"

definition disable_version_pause_cap :: "nat \<Rightarrow> string \<Rightarrow> MarginRegistry \<Rightarrow> MarginRegistry move" where
  "disable_version_pause_cap version pause_cap r =
     move_bind (asserts (pause_cap \<in> set (allowed_pause_caps r)) EPauseCapNotValid) (\<lambda>_. disable_version version r)"

definition enable_deepbook_pool_for_loan :: "string \<Rightarrow> string \<Rightarrow> string \<Rightarrow> MarginRegistry \<Rightarrow> MarginRegistry move" where
  "enable_deepbook_pool_for_loan margin_pool pool cap r =
     move_bind (load_inner r) (\<lambda>_.
     move_bind (asserts (cap_pool r cap = Some margin_pool) EInvalidMarginPoolCap) (\<lambda>_.
     move_bind (asserts (pool \<notin> set (allowed_deepbook_pools r margin_pool)) EDeepbookPoolAlreadyAllowed) (\<lambda>_.
     Inr (r\<lparr>allowed_deepbook_pools := (allowed_deepbook_pools r)(margin_pool := allowed_deepbook_pools r margin_pool @ [pool])\<rparr>))))"

definition disable_deepbook_pool_for_loan :: "string \<Rightarrow> string \<Rightarrow> string \<Rightarrow> MarginRegistry \<Rightarrow> MarginRegistry move" where
  "disable_deepbook_pool_for_loan margin_pool pool cap r =
     move_bind (load_inner r) (\<lambda>_.
     move_bind (asserts (cap_pool r cap = Some margin_pool) EInvalidMarginPoolCap) (\<lambda>_.
     move_bind (asserts (pool \<in> set (allowed_deepbook_pools r margin_pool)) EDeepbookPoolNotAllowed) (\<lambda>_.
     Inr (r\<lparr>allowed_deepbook_pools := (allowed_deepbook_pools r)(margin_pool := removeAll pool (allowed_deepbook_pools r margin_pool))\<rparr>))))"

section \<open>Running a script\<close>

text \<open>A call of the SDK is a call of the Move function of the same name. What the SDK adds are arguments: \<open>ratio\<close> is its
  conversion of a ratio to a 64-bit number, \<open>assets\<close> its table of the base and the quote coin of a pool key. A value is what a call leaves for later ones. \<open>None\<close>: a call of another module, or a value of
  the wrong kind.\<close>

datatype chain_value = PythValue "price_feed list \<times> nat" | PoolValue PoolConfig | UnitValue

type_synonym chain = "MarginRegistry \<times> chain_value list"

definition changed :: "chain_value list \<Rightarrow> MarginRegistry move \<Rightarrow> chain move option" where
  "changed vs m = Some (move_bind m (\<lambda>r. Inr (r, vs @ [UnitValue])))"

definition yields :: "MarginRegistry \<Rightarrow> chain_value list \<Rightarrow> chain_value move \<Rightarrow> chain move option" where
  "yields r vs m = Some (move_bind m (\<lambda>v. Inr (r, vs @ [v])))"

fun perform :: "(rat \<Rightarrow> 64 word) \<Rightarrow> (string \<Rightarrow> string \<times> string) \<Rightarrow> step_arg sdk_call \<Rightarrow> chain \<Rightarrow> chain move option" where
  "perform ratio assets (NewPythConfig feeds age) (r, vs) = yields r vs (move_bind (new_pyth_config feeds age) (\<lambda>c. Inr (PythValue c)))"
| "perform ratio assets RemoveConfig (r, vs) = changed vs (remove_config r)"
| "perform ratio assets (AddConfig (Res n)) (r, vs) = (case vs ! n of PythValue c \<Rightarrow> changed vs (add_config c r) | _ \<Rightarrow> None)"
| "perform ratio assets (NewPoolConfig pool p) (r, vs) =
     yields r vs (move_bind (new_pool_config r (fst (assets pool)) (snd (assets pool)) (ratio (rp_minWithdrawRiskRatio p))
         (ratio (rp_minBorrowRiskRatio p)) (ratio (rp_liquidationRiskRatio p)) (ratio (rp_targetLiquidationRiskRatio p))
         (ratio (rp_userLiquidationReward p)) (ratio (rp_poolLiquidationReward p))) (\<lambda>c. Inr (PoolValue c)))"
| "perform ratio assets (RegisterDeepbookPool pool (Res n)) (r, vs) =
     (case vs ! n of PoolValue c \<Rightarrow> changed vs (register_deepbook_pool pool c r) | _ \<Rightarrow> None)"
| "perform ratio assets (EnableDeepbookPool pool) (r, vs) = changed vs (enable_deepbook_pool pool r)"
| "perform ratio assets (EnableDeepbookPoolForLoan pool coin (Inp (ObjArg cap))) (r, vs) =
     (case margin_pools r coin of None \<Rightarrow> None | Some m \<Rightarrow> changed vs (enable_deepbook_pool_for_loan m pool cap r))"
| "perform ratio assets (MarginEnableVersion v) (r, vs) = changed vs (enable_version v r)"
| "perform ratio assets (MarginDisableVersion v) (r, vs) = changed vs (disable_version v r)"
| "perform ratio assets (DisableVersionPauseCap v c) (r, vs) = changed vs (disable_version_pause_cap v c r)"
| "perform ratio assets _ _ = None"

fun run_on_chain :: "(rat \<Rightarrow> 64 word) \<Rightarrow> (string \<Rightarrow> string \<times> string) \<Rightarrow> step list \<Rightarrow> chain \<Rightarrow> chain move option" where
  "run_on_chain ratio assets [] s = Some (Inr s)"
| "run_on_chain ratio assets (Sdk c # ss) s =
     (case perform ratio assets c s of None \<Rightarrow> None | Some (Inl e) \<Rightarrow> Some (Inl e) | Some (Inr s') \<Rightarrow> run_on_chain ratio assets ss s')"
| "run_on_chain ratio assets (_ # ss) s = None"

section \<open>Registered configurations\<close>

text \<open>What every configuration that \<open>new_pool_config\<close> returns satisfies, as numbers.\<close>

definition config_sound :: "PoolConfig \<Rightarrow> bool" where
  "config_sound c \<longleftrightarrow>
     (let q = risk_ratios c in
      10 ^ 9 \<le> unat (liquidation_risk_ratio q)
      \<and> unat (liquidation_risk_ratio q) < unat (min_borrow_risk_ratio q)
      \<and> unat (min_borrow_risk_ratio q) < unat (min_withdraw_risk_ratio q)
      \<and> 10 ^ 9 + unat (user_liquidation_reward c) + unat (pool_liquidation_reward c) < unat (target_liquidation_risk_ratio q))"

lemma unat_float_scaling: "unat float_scaling = 10 ^ 9"
  by (simp add: float_scaling_def)

text \<open>Neither sum of the rewards wraps around.\<close>

lemma unat_reward_sums:
  fixes a b :: "64 word"
  assumes "a \<le> float_scaling" "b \<le> float_scaling"
  shows "unat (a + b) = unat a + unat b" "unat (float_scaling + a + b) = 10 ^ 9 + unat a + unat b"
proof -
  have u: "unat a \<le> 10 ^ 9" "unat b \<le> 10 ^ 9" using assms unat_float_scaling by (simp_all add: word_le_nat_alt)
  have s: "unat (x + y) = unat x + unat y" if "unat x + unat y < 2 ^ 64" for x y :: "64 word"
    using that by (simp add: unat_word_ariths(1))
  show "unat (a + b) = unat a + unat b" using u by (intro s) simp
  have "unat (float_scaling + a) = 10 ^ 9 + unat a" using u s [of float_scaling a] by (simp add: unat_float_scaling)
  then show "unat (float_scaling + a + b) = 10 ^ 9 + unat a + unat b" using u s [of "float_scaling + a" b] by simp
qed

lemma new_pool_config_sound:
  assumes "new_pool_config r b q mw mb l t u p = Inr c"
  shows "config_sound c" "\<not> enabled c"
proof -
  from assms have h: "mb < mw" "l < mb" "float_scaling \<le> l" "u \<le> float_scaling" "p \<le> float_scaling" "float_scaling + u + p < t"
    and c: "risk_ratios c = \<lparr>min_withdraw_risk_ratio = mw, min_borrow_risk_ratio = mb, liquidation_risk_ratio = l,
         target_liquidation_risk_ratio = t\<rparr>" "user_liquidation_reward c = u" "pool_liquidation_reward c = p" "\<not> enabled c"
    by (auto simp: new_pool_config_def move_bind_Inr asserts_Inr)
  show "\<not> enabled c" by (rule c(4))
  have "10 ^ 9 + unat u + unat p < unat t" using h(6) unat_reward_sums(2) [OF h(4,5)] by (simp add: word_less_nat_alt)
  then show "config_sound c"
    using h(1-3) unat_float_scaling by (simp add: config_sound_def Let_def c word_less_nat_alt word_le_nat_alt)
qed

text \<open>The operations of the registry, with configurations that only \<open>new_pool_config\<close> makes.\<close>

inductive registry_step :: "MarginRegistry \<Rightarrow> MarginRegistry \<Rightarrow> bool" where
  register: "new_pool_config r' b q mw mb l t u p = Inr c \<Longrightarrow> register_deepbook_pool pool c r = Inr s \<Longrightarrow> registry_step r s"
| enable: "enable_deepbook_pool pool r = Inr s \<Longrightarrow> registry_step r s"
| disable: "disable_deepbook_pool pool r = Inr s \<Longrightarrow> registry_step r s"
| update: "new_pool_config r' b q mw mb l t u p = Inr c \<Longrightarrow> update_risk_params pool c r = Inr s \<Longrightarrow> registry_step r s"
| add: "add_config config r = Inr s \<Longrightarrow> registry_step r s"
| remove: "remove_config r = Inr s \<Longrightarrow> registry_step r s"
| enable_v: "enable_version v r = Inr s \<Longrightarrow> registry_step r s"
| disable_v: "disable_version v r = Inr s \<Longrightarrow> registry_step r s"
| pause_v: "disable_version_pause_cap v cap r = Inr s \<Longrightarrow> registry_step r s"
| loan: "enable_deepbook_pool_for_loan m pool cap r = Inr s \<Longrightarrow> registry_step r s"
| no_loan: "disable_deepbook_pool_for_loan m pool cap r = Inr s \<Longrightarrow> registry_step r s"

definition registry_sound :: "MarginRegistry \<Rightarrow> bool" where
  "registry_sound r \<longleftrightarrow> (\<forall>pool c. pool_registry r pool = Some c \<longrightarrow> config_sound c)"

lemma config_sound_enabled [simp]: "config_sound (c\<lparr>enabled := b\<rparr>) = config_sound c"
  by (simp add: config_sound_def)

lemma registry_update_sound:
  "registry_sound r \<Longrightarrow> config_sound c \<Longrightarrow> registry_sound (r\<lparr>pool_registry := (pool_registry r)(pool \<mapsto> c)\<rparr>)"
  by (auto simp: registry_sound_def)

lemma registry_step_sound:
  assumes "registry_step r s" "registry_sound r"
  shows "registry_sound s"
  using assms(1)
proof cases
  case (register r' b q mw mb l t u p c pool)
  then show ?thesis using new_pool_config_sound(1) [OF register(1)] assms(2)
    by (auto simp: register_deepbook_pool_def move_bind_Inr asserts_Inr intro!: registry_update_sound)
next
  case (update r' b q mw mb l t u p c pool)
  then show ?thesis using new_pool_config_sound(1) [OF update(1)] assms(2)
    by (auto simp: update_risk_params_def Let_def move_bind_Inr asserts_Inr split: option.splits intro!: registry_update_sound)
next
  case (enable pool)
  then show ?thesis using assms(2)
    by (auto simp: enable_deepbook_pool_def set_enabled_def move_bind_Inr asserts_Inr split: option.splits intro!: registry_update_sound)
      (simp add: registry_sound_def)
next
  case (disable pool)
  then show ?thesis using assms(2)
    by (auto simp: disable_deepbook_pool_def set_enabled_def move_bind_Inr asserts_Inr split: option.splits intro!: registry_update_sound)
      (simp add: registry_sound_def)
qed (use assms(2) in \<open>auto simp: registry_sound_def add_config_def remove_config_def enable_version_def disable_version_def
      disable_version_pause_cap_def enable_deepbook_pool_for_loan_def disable_deepbook_pool_for_loan_def move_bind_Inr asserts_Inr\<close>)

text \<open>An update of the risk parameters of an enabled pool leaves it disabled, since the new configuration replaces the
  flag too.\<close>

lemma risk_update_disables:
  assumes "new_pool_config r' b q mw mb l t u p = Inr c" "update_risk_params pool c r = Inr s"
  shows "market_enabled pool r" "\<not> market_enabled pool s"
  using assms(2) new_pool_config_sound(2) [OF assms(1)]
  by (auto simp: update_risk_params_def Let_def move_bind_Inr asserts_Inr market_enabled_def split: option.splits)

section \<open>The preparation of the margin markets\<close>

text \<open>The registry that the script expects: this package version is allowed, the three coins have margin pools, whose
  capabilities the script holds, the price configuration is set, and neither market is known yet.\<close>

definition ready_for_prep :: "MarginRegistry \<Rightarrow> string \<Rightarrow> string \<Rightarrow> string \<Rightarrow> bool" where
  "ready_for_prep r sui usdsui usdc \<longleftrightarrow>
     margin_version \<in> set (allowed_versions r) \<and> pyth_config r \<noteq> None
     \<and> margin_pools r ''SUI'' = Some sui \<and> margin_pools r ''USDSUI'' = Some usdsui \<and> margin_pools r ''USDC'' = Some usdc
     \<and> sui \<noteq> usdsui \<and> usdsui \<noteq> usdc \<and> sui \<noteq> usdc
     \<and> cap_pool r suiMarginPoolCapID = Some sui \<and> cap_pool r usdSuiMarginPoolCapID = Some usdsui \<and> cap_pool r usdcMarginPoolCapID = Some usdc
     \<and> pool_registry r ''SUI_USDSUI'' = None \<and> pool_registry r ''USDSUI_USDC'' = None
     \<and> ''SUI_USDSUI'' \<notin> set (allowed_deepbook_pools r sui) \<and> ''SUI_USDSUI'' \<notin> set (allowed_deepbook_pools r usdsui)
     \<and> ''USDSUI_USDC'' \<notin> set (allowed_deepbook_pools r usdsui) \<and> ''USDSUI_USDC'' \<notin> set (allowed_deepbook_pools r usdc)"

definition prepared_config :: "string \<Rightarrow> string \<Rightarrow> PoolConfig" where
  "prepared_config b q =
     \<lparr>base_margin_pool_id = b, quote_margin_pool_id = q,
      risk_ratios = \<lparr>min_withdraw_risk_ratio = 2000000000, min_borrow_risk_ratio = 1249900000, liquidation_risk_ratio = 1100000000,
        target_liquidation_risk_ratio = 1250000000\<rparr>,
      user_liquidation_reward = 20000000, pool_liquidation_reward = 30000000, enabled = True\<rparr>"

text \<open>What the script relies on: a ratio that is a multiple of \<open>10^-9\<close> is converted exactly.\<close>

definition exact_ratio :: "(rat \<Rightarrow> 64 word) \<Rightarrow> bool" where
  "exact_ratio ratio \<longleftrightarrow> (\<forall>x k. x * 1000000000 = of_int k \<longrightarrow> ratio x = word_of_int k)"

lemma exact_ratioD: "exact_ratio ratio \<Longrightarrow> x * 1000000000 = of_int k \<Longrightarrow> ratio x = word_of_int k"
  by (simp add: exact_ratio_def)

lemma prep_ratios:
  assumes "exact_ratio ratio"
  shows "ratio (rp_minWithdrawRiskRatio risk_params_usdsui) = 2000000000"
    "ratio (rp_minBorrowRiskRatio risk_params_usdsui) = 1249900000"
    "ratio (rp_liquidationRiskRatio risk_params_usdsui) = 1100000000"
    "ratio (rp_targetLiquidationRiskRatio risk_params_usdsui) = 1250000000"
    "ratio (rp_userLiquidationReward risk_params_usdsui) = 20000000"
    "ratio (rp_poolLiquidationReward risk_params_usdsui) = 30000000"
  using exact_ratioD [OF assms, of 2 2000000000] exact_ratioD [OF assms, of "12499 / 10000" 1249900000]
    exact_ratioD [OF assms, of "11 / 10" 1100000000] exact_ratioD [OF assms, of "125 / 100" 1250000000]
    exact_ratioD [OF assms, of "2 / 100" 20000000] exact_ratioD [OF assms, of "3 / 100" 30000000]
  by (simp_all add: risk_params_usdsui_def)

lemma prep_new_config:
  assumes "margin_version \<in> set (allowed_versions r)" "margin_pools r b = Some i" "margin_pools r q = Some j"
  shows "new_pool_config r b q 2000000000 1249900000 1100000000 1250000000 20000000 30000000 = Inr ((prepared_config i j)\<lparr>enabled := False\<rparr>)"
  using assms by (simp add: new_pool_config_def float_scaling_def get_margin_pool_id_def load_inner_def prepared_config_def)

text \<open>The registry after the preparation.\<close>

definition prepared :: "MarginRegistry \<Rightarrow> string \<Rightarrow> string \<Rightarrow> string \<Rightarrow> MarginRegistry" where
  "prepared r sui usdsui usdc =
     r\<lparr>pyth_config := Some (pyth_feeds, 70),
       pool_registry := (pool_registry r)(''SUI_USDSUI'' \<mapsto> prepared_config sui usdsui, ''USDSUI_USDC'' \<mapsto> prepared_config usdsui usdc),
       allowed_deepbook_pools := (allowed_deepbook_pools r)
         (sui := allowed_deepbook_pools r sui @ [''SUI_USDSUI''],
          usdsui := allowed_deepbook_pools r usdsui @ [''SUI_USDSUI'', ''USDSUI_USDC''],
          usdc := allowed_deepbook_pools r usdc @ [''USDSUI_USDC''])\<rparr>"

lemma prep_pyth: "new_pyth_config pyth_feeds 70 = Inr (pyth_feeds, 70)"
  by (simp add: new_pyth_config_def pyth_feeds_def max_conf_bps_def max_ewma_difference_bps_def)

lemma prepared_config_enabled [simp]: "(prepared_config i j)\<lparr>enabled := False, enabled := True\<rparr> = prepared_config i j"
  by (simp add: prepared_config_def)

lemma prepared_config_flag [simp]: "enabled (prepared_config i j)"
  by (simp add: prepared_config_def)

text \<open>C18. The preparation of the margin markets passes every assertion of the registry: on a registry in the expected
  state the script runs to the end without an abort, both new markets are registered with the ratios and
  rewards of the script and enabled, exactly the two margin pools of each market may lend to it, the price configuration is
  the new one with an entry per coin, and nothing else changes. Run a second time it aborts with
  \<open>EPoolAlreadyRegistered\<close>.\<close>

theorem marginPrep_accepted:
  assumes "ready_for_prep r sui usdsui usdc" "exact_ratio ratio"
    and "assets ''SUI_USDSUI'' = (''SUI'', ''USDSUI'')" "assets ''USDSUI_USDC'' = (''USDSUI'', ''USDC'')"
  shows "(\<exists>vs. run_on_chain ratio assets (snd marginPrep) (r, []) = Some (Inr (prepared r sui usdsui usdc, vs)))
    \<and> run_on_chain ratio assets (snd marginPrep) (prepared r sui usdsui usdc, []) = Some (Inl EPoolAlreadyRegistered)"
proof
  note h = assms(1) [unfolded ready_for_prep_def]
  have ne: "sui \<noteq> usdsui" "usdsui \<noteq> sui" "usdsui \<noteq> usdc" "usdc \<noteq> usdsui" "sui \<noteq> usdc" "usdc \<noteq> sui" using h by auto
  note cfg = prep_new_config [of _ "''SUI''" sui "''USDSUI''" usdsui] prep_new_config [of _ "''USDSUI''" usdsui "''USDC''" usdc]
  note fns = yields_def changed_def remove_config_def add_config_def register_deepbook_pool_def enable_deepbook_pool_def set_enabled_def
    enable_deepbook_pool_for_loan_def load_inner_def
  show "\<exists>vs. run_on_chain ratio assets (snd marginPrep) (r, []) = Some (Inr (prepared r sui usdsui usdc, vs))"
    using h assms(3,4)
    by (simp add: ne marginPrep_def Let_def fns prep_pyth prep_ratios [OF assms(2)] cfg nth_append prepared_def fun_upd_twist [of usdsui])
  show "run_on_chain ratio assets (snd marginPrep) (prepared r sui usdsui usdc, []) = Some (Inl EPoolAlreadyRegistered)"
    using h assms(3,4)
    by (simp add: ne marginPrep_def Let_def fns prep_pyth prep_ratios [OF assms(2)] cfg nth_append prepared_def)
qed

definition demo_registry :: MarginRegistry where
  "demo_registry =
     \<lparr>allowed_versions = [2, 3], pool_registry = Map.empty,
      margin_pools = [''SUI'' \<mapsto> ''m1'', ''USDSUI'' \<mapsto> ''m2'', ''USDC'' \<mapsto> ''m3''], allowed_pause_caps = [],
      pyth_config = Some ([], 60),
      cap_pool = [suiMarginPoolCapID \<mapsto> ''m1'', usdSuiMarginPoolCapID \<mapsto> ''m2'', usdcMarginPoolCapID \<mapsto> ''m3''],
      allowed_deepbook_pools = (\<lambda>_. [])\<rparr>"

definition demo_ratio :: "rat \<Rightarrow> 64 word" where
  "demo_ratio x = word_of_int \<lfloor>x * 1000000000\<rfloor>"

definition demo_assets :: "string \<Rightarrow> string \<times> string" where
  "demo_assets k = (if k = ''SUI_USDSUI'' then (''SUI'', ''USDSUI'') else (''USDSUI'', ''USDC''))"

theorem marginPrep_accepted_witness:
  "ready_for_prep demo_registry ''m1'' ''m2'' ''m3'' \<and> exact_ratio demo_ratio
   \<and> (\<exists>r vs. run_on_chain demo_ratio demo_assets (snd marginPrep) (demo_registry, []) = Some (Inr (r, vs))
        \<and> market_enabled ''SUI_USDSUI'' r \<and> market_enabled ''USDSUI_USDC'' r)"
proof -
  have r: "ready_for_prep demo_registry ''m1'' ''m2'' ''m3''" by code_simp
  have x: "exact_ratio demo_ratio" by (simp add: exact_ratio_def demo_ratio_def)
  have a: "demo_assets ''SUI_USDSUI'' = (''SUI'', ''USDSUI'')" "demo_assets ''USDSUI_USDC'' = (''USDSUI'', ''USDC'')"
    by (simp_all add: demo_assets_def)
  show ?thesis using marginPrep_accepted [OF r x a] r x by (auto simp: prepared_def market_enabled_def)
qed

end
