(* ===== verification/MoveCheck.thy ===== *)
theory MoveCheck
  imports SuiTx
begin

text \<open>
  The check that the ledger makes of a transaction before it runs it, for the parts that the builders depend on: every call names
  a function that exists and gets as many arguments as it has parameters, each of the parameter's type; a result is taken
  component by component, from an earlier command that has it; what is passed by value and is not a plain value is gone
  afterwards, and a result that is not a plain value must not be left over; the gas payment consists of coins that no command
  passes by value. Splitting and merging are checked for the coin that pays gas, the only one the oracle feed has.
\<close>

datatype move_type = TU64 | TBool | TString | TAddress | Struct string

datatype passing = ByRef | ByValue

record signature =
  sg_params :: "(passing \<times> move_type) list"
  sg_results :: "move_type list"

text \<open>What a transaction is checked against: the types of the objects, the functions of the packages, the plain
  values (abilities \<open>copy\<close> and \<open>drop\<close>) and what may be transferred (\<open>key\<close> and \<open>store\<close>).\<close>

record ledger =
  lg_object :: "string \<Rightarrow> move_type option"
  lg_function :: "string \<Rightarrow> string list \<Rightarrow> signature option"
  lg_plain :: "move_type \<Rightarrow> bool"
  lg_transferable :: "move_type \<Rightarrow> bool"

definition sui_coin :: move_type where "sui_coin = Struct ''Coin<SUI>''"

text \<open>The results of the commands so far, each component with its type and whether it is gone, and the objects that are gone.\<close>

record check_state =
  ck_results :: "(move_type \<times> bool) list list"
  ck_gone :: "string list"

definition use_object :: "ledger \<Rightarrow> passing \<Rightarrow> move_type \<Rightarrow> string \<Rightarrow> check_state \<Rightarrow> check_state option" where
  "use_object L p t i ck =
     (if lg_object L i = Some t \<and> i \<notin> set (ck_gone ck)
      then Some (if p = ByValue then ck\<lparr>ck_gone := i # ck_gone ck\<rparr> else ck) else None)"

definition use_result :: "ledger \<Rightarrow> passing \<Rightarrow> move_type \<Rightarrow> nat \<Rightarrow> nat \<Rightarrow> check_state \<Rightarrow> check_state option" where
  "use_result L p t n i ck =
     (let rs = ck_results ck in
      if n < length rs \<and> i < length (rs ! n) \<and> rs ! n ! i = (t, False)
      then Some (if p = ByValue \<and> \<not> lg_plain L t then ck\<lparr>ck_results := rs[n := (rs ! n)[i := (t, True)]]\<rparr> else ck) else None)"

definition pure_ok :: "passing \<Rightarrow> bool \<Rightarrow> check_state \<Rightarrow> check_state option" where
  "pure_ok p b ck = (if p = ByValue \<and> b then Some ck else None)"

fun use_arg :: "ledger \<Rightarrow> passing \<times> move_type \<Rightarrow> tx_arg \<Rightarrow> check_state \<Rightarrow> check_state option" where
  "use_arg L (p, t) (ObjArg i) ck = use_object L p t i ck"
| "use_arg L (p, t) (CoinRefArg i v d) ck = use_object L p t i ck"
| "use_arg L (p, t) (SharedRefArg i v m) ck = (if p = ByRef then use_object L p t i ck else None)"
| "use_arg L (p, t) GasArg ck = (if p = ByRef \<and> t = sui_coin then Some ck else None)"
| "use_arg L (p, t) (U64Arg v) ck = pure_ok p (t = TU64) ck"
| "use_arg L (p, t) (BoolArg b) ck = pure_ok p (t = TBool) ck"
| "use_arg L (p, t) (StrArg s) ck = pure_ok p (t = TString) ck"
| "use_arg L (p, t) (AddrArg a) ck = pure_ok p (t = TAddress) ck"
| "use_arg L (p, t) (IdArg i) ck = pure_ok p (t = Struct ''ID'') ck"
| "use_arg L (p, t) (OptAddrArg oa) ck = None"
| "use_arg L (p, t) (OptIdArg oi) ck = None"
| "use_arg L (p, t) (ResultArg n) ck =
     (if n < length (ck_results ck) \<and> length (ck_results ck ! n) = 1 then use_result L p t n 0 ck else None)"
| "use_arg L (p, t) (NestedArg n i) ck = use_result L p t n i ck"

fun use_args :: "ledger \<Rightarrow> (passing \<times> move_type) list \<Rightarrow> tx_arg list \<Rightarrow> check_state \<Rightarrow> check_state option" where
  "use_args L [] [] ck = Some ck"
| "use_args L (p # ps) (a # as) ck = Option.bind (use_arg L p a ck) (use_args L ps as)"
| "use_args L _ _ ck = None"

definition yields :: "move_type list \<Rightarrow> check_state \<Rightarrow> check_state" where
  "yields ts ck = ck\<lparr>ck_results := ck_results ck @ [map (\<lambda>t. (t, False)) ts]\<rparr>"

definition check_call :: "ledger \<Rightarrow> string \<Rightarrow> string list \<Rightarrow> tx_arg list \<Rightarrow> check_state \<Rightarrow> check_state option" where
  "check_call L f ts as ck =
     (case lg_function L f ts of None \<Rightarrow> None
      | Some sg \<Rightarrow> map_option (yields (sg_results sg)) (use_args L (sg_params sg) as ck))"

text \<open>The type of something to transfer.\<close>

fun type_of_arg :: "ledger \<Rightarrow> tx_arg \<Rightarrow> check_state \<Rightarrow> move_type option" where
  "type_of_arg L (ObjArg i) ck = lg_object L i"
| "type_of_arg L (CoinRefArg i v d) ck = lg_object L i"
| "type_of_arg L (ResultArg n) ck =
     (if n < length (ck_results ck) \<and> length (ck_results ck ! n) = 1 then Some (fst (ck_results ck ! n ! 0)) else None)"
| "type_of_arg L (NestedArg n i) ck =
     (if n < length (ck_results ck) \<and> i < length (ck_results ck ! n) then Some (fst (ck_results ck ! n ! i)) else None)"
| "type_of_arg L _ ck = None"

fun transfer_all :: "ledger \<Rightarrow> tx_arg list \<Rightarrow> check_state \<Rightarrow> check_state option" where
  "transfer_all L [] ck = Some ck"
| "transfer_all L (a # as) ck =
     (case type_of_arg L a ck of None \<Rightarrow> None
      | Some t \<Rightarrow> if lg_transferable L t then Option.bind (use_arg L (ByValue, t) a ck) (transfer_all L as) else None)"

fun check_command :: "ledger \<Rightarrow> command \<Rightarrow> check_state \<Rightarrow> check_state option" where
  "check_command L (MoveCall f as) ck = check_call L f [] as ck"
| "check_command L (TypedCall f ts as) ck = check_call L f ts as ck"
| "check_command L (MergeCoins c cs) ck =
     (if cs = [] then None
      else map_option (yields []) (use_args L ((ByRef, sui_coin) # replicate (length cs) (ByValue, sui_coin)) (c # cs) ck))"
| "check_command L (SplitCoins c as) ck =
     (if as = [] then None
      else map_option (yields (replicate (length as) sui_coin))
        (use_args L ((ByRef, sui_coin) # replicate (length as) (ByValue, TU64)) (c # as) ck))"
| "check_command L (TransferObjects os a) ck =
     (if os = [] then None
      else map_option (yields []) (Option.bind (transfer_all L os ck) (use_arg L (ByValue, TAddress) a)))"
| "check_command L (Publish ms ds) ck = Some (yields [Struct ''UpgradeCap''] ck)"

fun check_commands :: "ledger \<Rightarrow> command list \<Rightarrow> check_state \<Rightarrow> check_state option" where
  "check_commands L [] ck = Some ck"
| "check_commands L (c # cs) ck = Option.bind (check_command L c ck) (check_commands L cs)"

text \<open>Nothing but plain values is left over.\<close>

definition settled_results :: "ledger \<Rightarrow> check_state \<Rightarrow> bool" where
  "settled_results L ck \<longleftrightarrow> list_all (list_all (\<lambda>(t, gone). gone \<or> lg_plain L t)) (ck_results ck)"

definition gas_ids :: "Transaction \<Rightarrow> string list" where
  "gas_ids tx = map fst (tx_gasPayment tx)"

definition start_check :: "Transaction \<Rightarrow> check_state" where
  "start_check tx = \<lparr>ck_results = [], ck_gone = gas_ids tx\<rparr>"

definition typed_tx :: "ledger \<Rightarrow> Transaction \<Rightarrow> bool" where
  "typed_tx L tx \<longleftrightarrow>
     distinct (gas_ids tx) \<and> list_all (\<lambda>i. lg_object L i = Some sui_coin) (gas_ids tx)
     \<and> (case check_commands L (tx_commands tx) (start_check tx) of None \<Rightarrow> False | Some ck \<Rightarrow> settled_results L ck)"

section \<open>Building step by step\<close>

lemma check_commands_append: "check_commands L (cs @ ds) ck = Option.bind (check_commands L cs ck) (check_commands L ds)"
  by (induction cs arbitrary: ck) (auto split: bind_splits)

text \<open>A transaction under construction: the state of its check, with nothing left over, and only coins gone.\<close>

definition built_to :: "ledger \<Rightarrow> Transaction \<Rightarrow> check_state \<Rightarrow> bool" where
  "built_to L tx ck \<longleftrightarrow>
     distinct (gas_ids tx) \<and> list_all (\<lambda>i. lg_object L i = Some sui_coin) (gas_ids tx)
     \<and> check_commands L (tx_commands tx) (start_check tx) = Some ck
     \<and> length (ck_results ck) = length (tx_commands tx) \<and> list_all (\<lambda>i. lg_object L i = Some sui_coin) (ck_gone ck)"

definition under_way :: "ledger \<Rightarrow> Transaction \<Rightarrow> bool" where
  "under_way L tx \<longleftrightarrow> (\<exists>ck. built_to L tx ck \<and> settled_results L ck)"

lemma under_way_typed: "under_way L tx \<Longrightarrow> typed_tx L tx"
  by (auto simp: under_way_def built_to_def typed_tx_def)

lemma gas_add_command [simp]: "gas_ids (add_command c tx) = gas_ids tx" "start_check (add_command c tx) = start_check tx"
  by (simp_all add: gas_ids_def start_check_def add_command_def)

lemma built_add:
  assumes "built_to L tx ck" "check_command L c ck = Some ck'"
    and "length (ck_results ck') = Suc (length (ck_results ck))" "list_all (\<lambda>i. lg_object L i = Some sui_coin) (ck_gone ck')"
  shows "built_to L (add_command c tx) ck'"
  using assms by (simp add: built_to_def check_commands_append) (simp add: add_command_def check_commands_append)

lemma under_way_start:
  assumes "tx_commands tx = []" "distinct (gas_ids tx)" "list_all (\<lambda>i. lg_object L i = Some sui_coin) (gas_ids tx)"
  shows "built_to L tx (start_check tx)" "under_way L tx"
proof -
  show b: "built_to L tx (start_check tx)" using assms by (simp add: built_to_def start_check_def)
  then show "under_way L tx" unfolding under_way_def by (intro exI [of _ "start_check tx"]) (simp add: settled_results_def start_check_def)
qed

lemma yields_simps [simp]:
  "ck_results (yields ts ck) = ck_results ck @ [map (\<lambda>t. (t, False)) ts]" "ck_gone (yields ts ck) = ck_gone ck"
  by (simp_all add: yields_def)

lemma settled_yields:
  "settled_results L (yields ts ck) \<longleftrightarrow> settled_results L ck \<and> list_all (lg_plain L) ts"
  by (simp add: settled_results_def list.pred_map comp_def)

text \<open>An object that is no coin is still there, and a reference to it changes nothing.\<close>

lemma use_object_ref:
  assumes "list_all (\<lambda>i. lg_object L i = Some sui_coin) (ck_gone ck)" "lg_object L i = Some t" "t \<noteq> sui_coin"
  shows "use_object L ByRef t i ck = Some ck"
  using assms by (auto simp: use_object_def list_all_iff)

text \<open>A plain single result can be taken any number of times.\<close>

lemma use_plain_result:
  assumes "n < length (ck_results ck)" "ck_results ck ! n = [(t, False)]" "lg_plain L t"
  shows "use_arg L (ByValue, t) (ResultArg n) ck = Some ck"
  using assms by (simp add: use_result_def)

end
