(* ===== verification/OraclePtb.thy ===== *)
theory OraclePtb
  imports SuiTx OracleExpiry
begin

text \<open>
  \<open>oracle-feed/types.ts\<close> and \<open>oracle-feed/ptb-build.ts\<close>: the data of the oracle feed and the
  transactions it builds, as command lists of \<open>SuiTx\<close>. The encoder \<open>tx.pure.u64\<close> of the SDK is the
  parameter \<open>u64\<close>, which may refuse a number.
\<close>

section \<open>Data of the service\<close>

datatype OracleStatus = inactive | active | pending_settlement | settled | compacted

record OracleState =
  os_id :: string
  os_underlying :: string
  os_expiryMs :: int
  os_tier :: Tier
  os_status :: OracleStatus
  os_registeredCapIds :: "string list"

text \<open>Times of feed samples come from \<open>Number(...)\<close> on a frame: \<open>None\<close> is \<open>NaN\<close>.\<close>

type_synonym stamp = "int option"

record PriceSample =
  ps_value :: js_number
  ps_receivedAtMs :: stamp

record PriceCache =
  pc_spot :: "PriceSample option"
  pc_forwards :: "(string, PriceSample) js_Map"

record FeedSVIParams =
  fs_a :: js_number
  fs_b :: js_number
  fs_rho :: js_number
  fs_m :: js_number
  fs_sigma :: js_number

text \<open>Samples are mutable objects that the executor keeps across an await: \<open>sv_obj\<close> is the identity of
  the object in the cache. \<open>lastPushedAtMs\<close> is \<open>null\<close> (\<open>None\<close>) or a number.\<close>

record SVISample =
  sv_obj :: nat
  sv_params :: FeedSVIParams
  sv_receivedAtMs :: stamp
  sv_lastPushedAtMs :: "stamp option"

type_synonym SVICache = "(string, SVISample) js_Map"

record Lane =
  ln_id :: nat
  ln_gasCoinId :: string
  ln_gasCoinVersion :: string
  ln_gasCoinDigest :: string
  ln_capId :: string
  ln_available :: bool

record ServiceState =
  st_oracles :: "(string, OracleState) js_Map"
  st_lanes :: "Lane list"
  st_capIds :: "string list"
  st_priceCache :: PriceCache
  st_sviCache :: SVICache
  st_managerInFlight :: bool
  st_laneHint :: nat
  st_lastPushMs :: int

section \<open>Builders\<close>

definition CLOCK_ID :: string where "CLOCK_ID = ''0x6''"
definition FEED_FLOAT_SCALING :: rat where "FEED_FLOAT_SCALING = 1000000000"

definition scaleToU64 :: "js_number \<Rightarrow> js_number" where
  "scaleToU64 value = Math_round (js_times value FEED_FLOAT_SCALING)"

definition signedToPair :: "js_number \<Rightarrow> js_number \<times> bool" where
  "signedToPair value = (scaleToU64 (Math_abs value), js_negative value)"

definition addUpdatePrices ::
  "(js_number \<Rightarrow> tx_arg res) \<Rightarrow> string \<Rightarrow> string \<Rightarrow> string \<Rightarrow> js_number \<Rightarrow> js_number \<Rightarrow> Transaction \<Rightarrow> Transaction res" where
  "addUpdatePrices u64 packageId oracleId capId spot forward tx =
     bindE (u64 (scaleToU64 spot)) (\<lambda>s. bindE (u64 (scaleToU64 forward)) (\<lambda>f.
       let priceData = next_result tx;
           tx = add_command (MoveCall (packageId @ ''::oracle::new_price_data'') [s, f]) tx
       in Inr (add_command
           (MoveCall (packageId @ ''::oracle::update_prices'') [ObjArg oracleId, ObjArg capId, priceData, ObjArg CLOCK_ID]) tx)))"

definition addUpdateSvi ::
  "(js_number \<Rightarrow> tx_arg res) \<Rightarrow> string \<Rightarrow> string \<Rightarrow> string \<Rightarrow> FeedSVIParams \<Rightarrow> Transaction \<Rightarrow> Transaction res" where
  "addUpdateSvi u64 packageId oracleId capId params tx =
     (let (rhoMag, rhoNeg) = signedToPair (fs_rho params); (mMag, mNeg) = signedToPair (fs_m params) in
      bindE (u64 rhoMag) (\<lambda>r.
        let rhoI64 = next_result tx;
            tx = add_command (MoveCall (packageId @ ''::i64::from_parts'') [r, BoolArg rhoNeg]) tx
        in bindE (u64 mMag) (\<lambda>m.
        let mI64 = next_result tx;
            tx = add_command (MoveCall (packageId @ ''::i64::from_parts'') [m, BoolArg mNeg]) tx
        in bindE (u64 (scaleToU64 (fs_a params))) (\<lambda>a.
           bindE (u64 (scaleToU64 (fs_b params))) (\<lambda>b.
           bindE (u64 (scaleToU64 (fs_sigma params))) (\<lambda>sg.
        let svi = next_result tx;
            tx = add_command (MoveCall (packageId @ ''::oracle::new_svi_params'') [a, b, rhoI64, mI64, sg]) tx
        in Inr (add_command
            (MoveCall (packageId @ ''::oracle::update_svi'') [ObjArg oracleId, ObjArg capId, svi, ObjArg CLOCK_ID]) tx)))))))"

definition addActivate :: "string \<Rightarrow> string \<Rightarrow> string \<Rightarrow> Transaction \<Rightarrow> Transaction" where
  "addActivate packageId oracleId capId =
     add_command (MoveCall (packageId @ ''::oracle::activate'') [ObjArg oracleId, ObjArg capId, ObjArg CLOCK_ID])"

definition addCompact :: "string \<Rightarrow> string \<Rightarrow> string \<Rightarrow> string \<Rightarrow> Transaction \<Rightarrow> Transaction" where
  "addCompact packageId predictId oracleId capId =
     add_command (MoveCall (packageId @ ''::predict::compact_settled_oracle'')
       [ObjArg predictId, ObjArg oracleId, ObjArg capId])"

definition addSettleNudge ::
  "(js_number \<Rightarrow> tx_arg res) \<Rightarrow> string \<Rightarrow> string \<Rightarrow> string \<Rightarrow> js_number \<Rightarrow> js_number \<Rightarrow> Transaction \<Rightarrow> Transaction res" where
  "addSettleNudge = addUpdatePrices"

definition addRegisterCap :: "string \<Rightarrow> string \<Rightarrow> string \<Rightarrow> string \<Rightarrow> Transaction \<Rightarrow> Transaction" where
  "addRegisterCap packageId oracleId adminCapId capIdToRegister =
     add_command (MoveCall (packageId @ ''::registry::register_oracle_cap'')
       [ObjArg oracleId, ObjArg adminCapId, ObjArg capIdToRegister])"

record create_args =
  ca_registryId :: string
  ca_predictId :: string
  ca_adminCapId :: string
  ca_capId :: string
  ca_underlying :: string
  ca_expiryMs :: int
  ca_minStrike :: int
  ca_tickSize :: int

definition addCreateOracle ::
  "(js_number \<Rightarrow> tx_arg res) \<Rightarrow> string \<Rightarrow> create_args \<Rightarrow> Transaction \<Rightarrow> Transaction res" where
  "addCreateOracle u64 packageId args tx =
     bindE (u64 (Num (of_int (ca_expiryMs args)))) (\<lambda>e.
     bindE (u64 (Num (of_int (ca_minStrike args)))) (\<lambda>k.
     bindE (u64 (Num (of_int (ca_tickSize args)))) (\<lambda>t.
       Inr (add_command (MoveCall (packageId @ ''::registry::create_oracle'')
         [ObjArg (ca_registryId args), ObjArg (ca_predictId args), ObjArg (ca_adminCapId args), ObjArg (ca_capId args),
          StrArg (ca_underlying args), e, k, t]) tx))))"

section \<open>Scaling\<close>

lemma round_double_nonneg: "0 \<le> x \<Longrightarrow> 0 \<le> round_double x"
proof -
  assume x: "0 \<le> x"
  have "0 \<le> round_even y" if "0 \<le> y" for y
    using that floor_mono [of 0 y] by (simp add: round_even_def Let_def)
  with x show ?thesis by (simp add: round_double_def Let_def sgn_if)
qed

lemma round_double_abs: "\<bar>round_double x\<bar> = round_double \<bar>x\<bar>"
  using round_double_nonneg [of x] round_double_nonneg [of "- x"] by (cases "0 \<le> x") (simp_all add: round_double_minus)

lemma scaled_value:
  assumes "\<bar>k\<bar> < 2 ^ 51"
  shows "\<bar>round_double (of_int k / 10 ^ 9)\<bar> < 2 ^ 1024"
    "scaleToU64 (Num (round_double (of_int k / 10 ^ 9))) = Num (of_int k)"
proof -
  define v where "v = round_double (of_int k / 10 ^ 9)"
  define w where "w = round_double (v * 10 ^ 9)"
  have big: "(2 :: rat) ^ 52 \<le> 2 ^ 1024" by (rule power_increasing) simp_all
  have "\<bar>w - of_int k\<bar> < 1 / 2"
  proof (cases "k = 0")
    case True
    then show ?thesis by (simp add: w_def v_def round_double_def)
  next
    case False
    then show ?thesis using scaled_product assms unfolding w_def v_def by blast
  qed
  note w = this
  have fl: "\<lfloor>w + 1 / 2\<rfloor> = k" using w by (intro floor_unique) linarith+
  have "of_int \<bar>k\<bar> < (of_int (2 ^ 51) :: rat)" using assms by (simp only: of_int_less_iff)
  then have k: "\<bar>of_int k\<bar> < (2 :: rat) ^ 51" by simp
  with w have "\<bar>w\<bar> < 2 ^ 51 + 1" by linarith
  then have wb: "\<bar>w\<bar> < 2 ^ 1024" using big by simp
  then show "scaleToU64 (Num (round_double (of_int k / 10 ^ 9))) = Num (of_int k)"
    using fl unfolding v_def [symmetric] scaleToU64_def FEED_FLOAT_SCALING_def w_def by (simp add: to_js_def Let_def)
  show "\<bar>round_double (of_int k / 10 ^ 9)\<bar> < 2 ^ 1024"
  proof (cases "k = 0")
    case False
    then have "1 \<le> \<bar>k\<bar>" by simp
    then have "of_int 1 \<le> (of_int \<bar>k\<bar> :: rat)" by (simp only: of_int_le_iff)
    then have "2 powi (- 1022) \<le> \<bar>of_int k / 10 ^ 9 :: rat\<bar>" using tiny_normal by simp
    note e = round_double_error [OF this, folded v_def]
    define q :: rat where "q = of_int k / 10 ^ 9"
    have "\<bar>q\<bar> < 2 ^ 50" using k by (simp add: q_def)
    moreover have "\<bar>q\<bar> / 2 ^ 53 \<le> \<bar>q\<bar>" by simp
    ultimately have "\<bar>v\<bar> < 2 * 2 ^ 50" using e [folded q_def] by linarith
    then have "\<bar>v\<bar> < 2 ^ 51" by simp
    then show ?thesis using big unfolding v_def by simp
  qed (simp add: round_double_def)
qed

lemma scaled_sign:
  assumes "\<bar>k\<bar> < 2 ^ 51"
  shows "round_double (of_int k / 10 ^ 9) < 0 \<longleftrightarrow> k < 0"
proof (cases "k < 0")
  case True
  have "round_double (of_int k / 10 ^ 9) \<noteq> 0"
    using scaled_product [of k] True assms by (force simp: round_double_def abs_if split: if_splits)
  moreover have "round_double (of_int k / 10 ^ 9) \<le> 0"
    using round_double_nonneg [of "- (of_int k / 10 ^ 9)"] True by (simp only: round_double_minus) simp
  ultimately show ?thesis using True by simp
next
  case False
  then show ?thesis using round_double_nonneg [of "of_int k / 10 ^ 9"] by simp
qed

text \<open>C17. Scaling loses nothing of what the feed delivers: a value with nine decimals (the precision the
  subscriber asks for) of magnitude below \<open>2^51\<close> units becomes a finite double, and the two rounding steps
  of the scaling recover its integer of units exactly, unsigned for prices and as magnitude and sign
  for the signed parameters.\<close>

theorem scaleToU64_recovers_units:
  assumes "\<bar>k\<bar> < 2 ^ 51"
  shows "(\<exists>v. to_js (of_int k / 10 ^ 9) = Num v)
    \<and> scaleToU64 (to_js (of_int k / 10 ^ 9)) = Num (of_int k)
    \<and> signedToPair (to_js (of_int k / 10 ^ 9)) = (Num (of_int \<bar>k\<bar>), k < 0)"
proof -
  have j: "to_js (of_int k / 10 ^ 9) = Num (round_double (of_int k / 10 ^ 9))"
    using scaled_value(1) [OF assms] by (simp add: to_js_def Let_def)
  have "\<bar>round_double (of_int k / 10 ^ 9)\<bar> = round_double (of_int \<bar>k\<bar> / 10 ^ 9)"
    by (simp add: round_double_abs)
  then have "scaleToU64 (Math_abs (Num (round_double (of_int k / 10 ^ 9)))) = Num (of_int \<bar>k\<bar>)"
    using scaled_value(2) [of "\<bar>k\<bar>"] assms by simp
  then show ?thesis unfolding j signedToPair_def using scaled_value(2) [OF assms] scaled_sign [OF assms] by simp
qed

theorem scaleToU64_recovers_units_witness:
  "signedToPair (to_js (- 123456789 / 10 ^ 9)) = (Num 123456789, True)"
  using scaleToU64_recovers_units [of "- 123456789"] by simp

end
