(* ===== verification/OracleConfig.thy ===== *)
theory OracleConfig
  imports OraclePtb
begin

text \<open>
  \<open>oracle-feed/config.ts\<close>: the configuration and how it is read from the environment. The environment,
  the table of deployed identifiers and the default node address are arguments. Integers read with
  \<open>parseInt\<close> may be \<open>NaN\<close>, which the bounds do not catch; the theory says when that happens.
\<close>

record Config =
  cf_network :: string
  cf_suiRpcUrl :: string
  cf_suiSignerKey :: string
  cf_predictPackageId :: string
  cf_registryId :: string
  cf_predictId :: string
  cf_adminCapId :: string
  cf_blockscholesApiKey :: string
  cf_blockscholesWsUrl :: string
  cf_tiersEnabled :: "Tier list"
  cf_expiriesPerTier :: nat
  cf_minLookaheadMs :: int
  cf_underlying :: string
  cf_strikeMin :: int
  cf_strikeMax :: int
  cf_tickSize :: int
  cf_laneCount :: nat
  cf_gasPoolFloorSui :: int
  cf_gasLaneMinSui :: rat
  cf_logLevel :: string
  cf_pushTickMs :: int
  cf_managerIntervalMs :: int
  cf_managerGraceMs :: int
  cf_priceCacheStaleMs :: int
  cf_safetyWindowMs :: int
  cf_healthzPort :: int

definition BLOCKSCHOLES_WS_URL :: string where "BLOCKSCHOLES_WS_URL = ''wss://prod-websocket-api.blockscholes.com/''"
definition TIERS_ENABLED :: "Tier list" where "TIERS_ENABLED = [T15m, T1h, T1d, T1w]"
definition EXPIRIES_PER_TIER :: int where "EXPIRIES_PER_TIER = 4"
definition MIN_LOOKAHEAD_MS :: int where "MIN_LOOKAHEAD_MS = 60 * 60 * 1000"
definition UNDERLYING :: string where "UNDERLYING = ''BTC''"
definition STRIKE_MIN_SCALED :: int where "STRIKE_MIN_SCALED = 50000 * 1000000000"
definition STRIKE_MAX_SCALED :: int where "STRIKE_MAX_SCALED = 150000 * 1000000000"
definition TICK_SIZE_SCALED :: int where "TICK_SIZE_SCALED = 1 * 1000000000"
definition LANE_COUNT :: int where "LANE_COUNT = 10"
definition GAS_POOL_FLOOR_SUI :: int where "GAS_POOL_FLOOR_SUI = 20"
definition GAS_LANE_MIN_SUI :: rat where "GAS_LANE_MIN_SUI = 100"
definition PUSH_TICK_MS :: int where "PUSH_TICK_MS = 1000"
definition MANAGER_INTERVAL_MS :: int where "MANAGER_INTERVAL_MS = 5 * 60000"
definition PRICE_CACHE_STALE_MS :: int where "PRICE_CACHE_STALE_MS = 3000"
definition SAFETY_WINDOW_MS :: int where "SAFETY_WINDOW_MS = 5000"
definition HEALTHZ_PORT :: int where "HEALTHZ_PORT = 8080"

type_synonym env = "string \<Rightarrow> string option"

definition required :: "env \<Rightarrow> string \<Rightarrow> string res" where
  "required env key =
     (case env key of None \<Rightarrow> Inl (Error (''Missing required env var: '' @ key))
      | Some v \<Rightarrow> if v = [] then Inl (Error (''Missing required env var: '' @ key)) else Inr v)"

definition tier_of_text :: "string \<Rightarrow> Tier option" where
  "tier_of_text s =
     (if s = ''15m'' then Some T15m else if s = ''1h'' then Some T1h else if s = ''1d'' then Some T1d
      else if s = ''1w'' then Some T1w else None)"

fun check_tiers :: "string list \<Rightarrow> Tier list res" where
  "check_tiers [] = Inr []"
| "check_tiers (p # ps) =
     (case tier_of_text p of None \<Rightarrow> Inl (Error (''Invalid tier in ORACLE_TIERS: '' @ p))
      | Some t \<Rightarrow> bindE (check_tiers ps) (\<lambda>ts. Inr (t # ts)))"

definition parseTiers :: "string \<Rightarrow> Tier list res" where
  "parseTiers raw = check_tiers (filter (\<lambda>s. s \<noteq> []) (map trim (split_string '','' raw)))"

definition parseNumberEnv :: "env \<Rightarrow> string \<Rightarrow> rat \<Rightarrow> rat res" where
  "parseNumberEnv env key defaultValue =
     (case env key of None \<Rightarrow> Inr defaultValue
      | Some raw \<Rightarrow> if raw = [] then Inr defaultValue
          else case StringToNumber raw of Num x \<Rightarrow> Inr x | _ \<Rightarrow> Inl (Error (''Invalid '' @ key @ '': '' @ raw)))"

text \<open>\<open>process.env.K ? Math.max(lo, parseInt(process.env.K, 10)) : dflt\<close>; the maximum with \<open>NaN\<close> is \<open>NaN\<close>.\<close>

definition int_env :: "env \<Rightarrow> string \<Rightarrow> int \<Rightarrow> int \<Rightarrow> stamp" where
  "int_env env key lo dflt =
     (case env key of None \<Rightarrow> Some dflt
      | Some raw \<Rightarrow> if raw = [] then Some dflt else map_option (max lo) (parseInt10 raw))"

record predict_ids =
  pi_package :: string
  pi_registry :: string
  pi_object :: string
  pi_adminCap :: string

definition manager_grace :: "env \<Rightarrow> stamp \<Rightarrow> stamp" where
  "manager_grace env interval =
     (if env ''MANAGER_GRACE_MS'' = None \<or> env ''MANAGER_GRACE_MS'' = Some []
      then map_option (\<lambda>i. max 60000 (2 * i)) interval else int_env env ''MANAGER_GRACE_MS'' 10000 0)"

definition tiers_env :: "env \<Rightarrow> Tier list res" where
  "tiers_env env =
     (case env ''ORACLE_TIERS'' of None \<Rightarrow> Inr TIERS_ENABLED
      | Some raw \<Rightarrow> if raw = [] then Inr TIERS_ENABLED else parseTiers raw)"

text \<open>The returned object. \<open>None\<close>: one of its integers is \<open>NaN\<close>.\<close>

definition config_of ::
  "env \<Rightarrow> string \<Rightarrow> predict_ids \<Rightarrow> string \<Rightarrow> string \<Rightarrow> string \<Rightarrow> Tier list \<Rightarrow> rat \<Rightarrow> Config option" where
  "config_of env network ids url key apiKey tiers gasMin =
     (let interval = int_env env ''MANAGER_INTERVAL_MS'' 1000 MANAGER_INTERVAL_MS in
      case (interval, manager_grace env interval, int_env env ''EXPIRIES_PER_TIER'' 1 EXPIRIES_PER_TIER,
            int_env env ''MIN_LOOKAHEAD_MS'' 0 MIN_LOOKAHEAD_MS, int_env env ''LANE_COUNT'' 1 LANE_COUNT) of
         (Some intervalMs, Some graceMs, Some count, Some look, Some lanes) \<Rightarrow> Some
           \<lparr>cf_network = network, cf_suiRpcUrl = (case env ''RPC_URL'' of None \<Rightarrow> url | Some u \<Rightarrow> u),
            cf_suiSignerKey = key, cf_predictPackageId = pi_package ids, cf_registryId = pi_registry ids,
            cf_predictId = pi_object ids, cf_adminCapId = pi_adminCap ids, cf_blockscholesApiKey = apiKey,
            cf_blockscholesWsUrl = BLOCKSCHOLES_WS_URL, cf_tiersEnabled = tiers, cf_expiriesPerTier = nat count,
            cf_minLookaheadMs = look, cf_underlying = UNDERLYING, cf_strikeMin = STRIKE_MIN_SCALED,
            cf_strikeMax = STRIKE_MAX_SCALED, cf_tickSize = TICK_SIZE_SCALED, cf_laneCount = nat lanes,
            cf_gasPoolFloorSui = GAS_POOL_FLOOR_SUI, cf_gasLaneMinSui = max 0 gasMin,
            cf_logLevel = (case env ''LOG_LEVEL'' of None \<Rightarrow> ''info'' | Some l \<Rightarrow> l),
            cf_pushTickMs = PUSH_TICK_MS, cf_managerIntervalMs = intervalMs, cf_managerGraceMs = graceMs,
            cf_priceCacheStaleMs = PRICE_CACHE_STALE_MS, cf_safetyWindowMs = SAFETY_WINDOW_MS, cf_healthzPort = HEALTHZ_PORT\<rparr>
       | _ \<Rightarrow> None)"

definition loadConfig :: "env \<Rightarrow> (string \<Rightarrow> predict_ids) \<Rightarrow> (string \<Rightarrow> string) \<Rightarrow> Config option res" where
  "loadConfig env constants getJsonRpcFullnodeUrl =
     bindE (required env ''NETWORK'') (\<lambda>network.
     if network \<noteq> ''testnet'' \<and> network \<noteq> ''mainnet'' then Inl (Error (''Invalid NETWORK: '' @ network))
     else let ids = constants network in
     if pi_package ids = [] \<or> pi_registry ids = [] \<or> pi_object ids = [] \<or> pi_adminCap ids = []
     then Inl (Error (''predict package/registry/object/adminCap not set for '' @ network @ '' in constants.ts - run pnpm predict-redeploy first.''))
     else
     bindE (required env ''PRIVATE_KEY'') (\<lambda>key.
     bindE (required env ''BLOCKSCHOLES_API_KEY'') (\<lambda>apiKey.
     bindE (tiers_env env) (\<lambda>tiers.
     bindE (parseNumberEnv env ''GAS_LANE_MIN_SUI'' GAS_LANE_MIN_SUI) (\<lambda>gasMin.
     Inr (config_of env network ids (getJsonRpcFullnodeUrl network) key apiKey tiers gasMin))))))"

section \<open>Loaded configurations\<close>

lemma int_env_bounds: "int_env env key lo dflt = Some v \<Longrightarrow> lo \<le> dflt \<Longrightarrow> lo \<le> v"
  by (auto simp: int_env_def split: option.splits if_splits)

lemma check_tiers_known: "check_tiers ps = Inr ts \<Longrightarrow> map tier_of_text ps = map Some ts"
  by (induction ps arbitrary: ts) (auto simp: bindE_eq_Inr split: option.splits)

lemma config_of_bounds:
  assumes "config_of env network ids url key apiKey tiers gasMin = Some c"
  shows "cf_network c = network" "cf_predictPackageId c = pi_package ids" "cf_suiSignerKey c = key" "cf_tiersEnabled c = tiers"
    "1 \<le> cf_laneCount c" "1 \<le> cf_expiriesPerTier c" "0 \<le> cf_minLookaheadMs c"
    "1000 \<le> cf_managerIntervalMs c" "10000 \<le> cf_managerGraceMs c" "0 \<le> cf_gasLaneMinSui c"
proof -
  obtain i g n l k where v: "int_env env ''MANAGER_INTERVAL_MS'' 1000 MANAGER_INTERVAL_MS = Some i"
    "manager_grace env (Some i) = Some g" "int_env env ''EXPIRIES_PER_TIER'' 1 EXPIRIES_PER_TIER = Some n"
    "int_env env ''MIN_LOOKAHEAD_MS'' 0 MIN_LOOKAHEAD_MS = Some l" "int_env env ''LANE_COUNT'' 1 LANE_COUNT = Some k"
    using assms by (auto simp: config_of_def Let_def split: option.splits)
  have b: "1000 \<le> i" "1 \<le> n" "0 \<le> l" "1 \<le> k"
    using int_env_bounds [OF v(1)] int_env_bounds [OF v(3)] int_env_bounds [OF v(4)] int_env_bounds [OF v(5)]
    by (simp_all add: MANAGER_INTERVAL_MS_def EXPIRIES_PER_TIER_def MIN_LOOKAHEAD_MS_def LANE_COUNT_def)
  have g: "10000 \<le> g" using v(2) by (auto simp: manager_grace_def int_env_def split: if_splits option.splits)
  show "cf_network c = network" "cf_predictPackageId c = pi_package ids" "cf_suiSignerKey c = key" "cf_tiersEnabled c = tiers"
    "1 \<le> cf_laneCount c" "1 \<le> cf_expiriesPerTier c" "0 \<le> cf_minLookaheadMs c"
    "1000 \<le> cf_managerIntervalMs c" "10000 \<le> cf_managerGraceMs c" "0 \<le> cf_gasLaneMinSui c"
    using assms b g by (auto simp: config_of_def Let_def v)
qed

text \<open>What the service relies on: at least one lane and one expiry per tier, no negative floor, a grace of at
  least ten seconds, and identifiers and keys that are present.\<close>

lemma loadConfig_bounds:
  assumes "loadConfig env constants url = Inr (Some c)"
  shows "cf_network c \<in> {''testnet'', ''mainnet''}" "1 \<le> cf_laneCount c" "1 \<le> cf_expiriesPerTier c" "0 \<le> cf_minLookaheadMs c"
    "1000 \<le> cf_managerIntervalMs c" "10000 \<le> cf_managerGraceMs c" "0 \<le> cf_gasLaneMinSui c"
    "cf_predictPackageId c \<noteq> []" "cf_suiSignerKey c \<noteq> []"
proof -
  obtain network key apiKey tiers gasMin where
    p: "network = ''testnet'' \<or> network = ''mainnet''" "pi_package (constants network) \<noteq> []" "required env ''PRIVATE_KEY'' = Inr key"
    and c: "config_of env network (constants network) (url network) key apiKey tiers gasMin = Some c"
    using assms by (clarsimp simp: loadConfig_def Let_def bindE_eq_Inr split: if_split_asm) blast
  note b = config_of_bounds [OF c]
  show "cf_network c \<in> {''testnet'', ''mainnet''}" "1 \<le> cf_laneCount c" "1 \<le> cf_expiriesPerTier c" "0 \<le> cf_minLookaheadMs c"
    "1000 \<le> cf_managerIntervalMs c" "10000 \<le> cf_managerGraceMs c" "0 \<le> cf_gasLaneMinSui c" "cf_predictPackageId c \<noteq> []"
    using b p by auto
  show "cf_suiSignerKey c \<noteq> []" using b(3) p(3) by (auto simp: required_def split: option.splits if_splits)
qed

text \<open>A count that is not a number slips through the lower bound: the loaded configuration has a \<open>NaN\<close>.\<close>

lemma nan_lane_count:
  assumes "env ''LANE_COUNT'' = Some ''ten''"
  shows "config_of env network ids url key apiKey tiers gasMin = None"
proof -
  have "int_env env ''LANE_COUNT'' 1 LANE_COUNT = None"
    using assms by (simp add: int_env_def) code_simp
  then show ?thesis by (simp add: config_of_def Let_def split: option.splits)
qed

end
