(* ===== verification/OracleRegistry.thy ===== *)
theory OracleRegistry
  imports OracleConfig
begin

text \<open>
  \<open>oracle-feed/registry.ts\<close>: which oracles the signer can drive and in which state of their life each is. Replies of the node are arguments: a reply
  that throws is \<open>None\<close>. The theory proves which oracles a discovery returns and with which status.
\<close>

section \<open>Slices\<close>

text \<open>The loop \<open>for (i = 0; i < xs.length; i += n) xs.slice(i, i + n)\<close>.\<close>

function chunks :: "nat \<Rightarrow> 'a list \<Rightarrow> 'a list list" where
  "chunks n xs = (if xs = [] \<or> n = 0 then [] else take n xs # chunks n (drop n xs))"
  by pat_completeness auto
termination by (relation "measure (\<lambda>(n, xs). length xs)") auto

declare chunks.simps [simp del]

lemma concat_chunks: "0 < n \<Longrightarrow> concat (chunks n xs) = xs"
  by (induction n xs rule: chunks.induct) (subst chunks.simps, auto)

lemma chunks_bounds: "c \<in> set (chunks n xs) \<Longrightarrow> c \<noteq> [] \<and> length c \<le> n"
  by (induction n xs rule: chunks.induct) (subst (asm) (2) chunks.simps, auto split: if_splits)

section \<open>The source\<close>

definition classifyStatus :: "bool \<Rightarrow> int \<Rightarrow> stamp option \<Rightarrow> bool \<Rightarrow> int \<Rightarrow> OracleStatus" where
  "classifyStatus is_active expiryMs settlementPriceOpt isCompacted nowMs =
     (if isCompacted then compacted
      else if settlementPriceOpt \<noteq> None then settled
      else if nowMs \<ge> expiryMs then pending_settlement
      else if \<not> is_active then inactive
      else active)"

text \<open>A page of dynamic fields: the key of each field, \<open>None\<close> when it is not a string, and the cursor.\<close>

record field_page =
  fp_names :: "string option list"
  fp_hasNextPage :: bool
  fp_nextCursor :: "string option"

text \<open>The \<open>do\<close> loop over the pages, on the replies in order. The result is \<open>None\<close> while the loop still waits
  for a reply; a reply that throws ends it with the empty set.\<close>

fun compacted_pages :: "field_page option list \<Rightarrow> string list \<Rightarrow> string list option" where
  "compacted_pages [] ids = None"
| "compacted_pages (None # rs) ids = Some []"
| "compacted_pages (Some page # rs) ids =
     (let ids = fold (\<lambda>v acc. case v of None \<Rightarrow> acc | Some value \<Rightarrow> set_add value acc) (fp_names page) ids;
          cursor = (if fp_hasNextPage page then fp_nextCursor page else None)
      in if cursor = None \<or> cursor = Some [] then Some ids else compacted_pages rs ids)"

text \<open>The predict object: its data type and the identifier of the table of settled oracles.\<close>

record predict_content =
  pd_dataType :: string
  pd_settledTableId :: "string option"

definition fetchCompactedOracleIds ::
  "predict_content option option \<Rightarrow> field_page option list \<Rightarrow> string list option" where
  "fetchCompactedOracleIds predict pages =
     (case predict of
        None \<Rightarrow> Some []
      | Some None \<Rightarrow> Some []
      | Some (Some content) \<Rightarrow>
          if pd_dataType content \<noteq> ''moveObject'' then Some []
          else if pd_settledTableId content = None then Some []
          else compacted_pages pages [])"

text \<open>An object reply. \<open>settlement_price\<close> is rendered as a string, or as a vector inside an option.\<close>

datatype settlement_field = SettlementString string | SettlementVec "json list" | SettlementOther

record OracleContent =
  oc_dataType :: string
  oc_authorized_caps :: "string list option"
  oc_settlement_price :: settlement_field
  oc_underlying_asset :: "string option"
  oc_expiry :: "json option"
  oc_active :: "json option"

record OracleObject =
  oo_objectId :: string
  oo_content :: "OracleContent option"

record OracleObjectFields =
  of_oracleId :: string
  of_underlying :: string
  of_expiryMs :: stamp
  of_active :: bool
  of_settlementPriceOpt :: "stamp option"
  of_authorizedCaps :: "string list"

fun truthy :: "json option \<Rightarrow> bool" where
  "truthy None = False"
| "truthy (Some JNull) = False"
| "truthy (Some (JBool b)) = b"
| "truthy (Some (JNum x)) = (x \<noteq> 0)"
| "truthy (Some (JStr s)) = (s \<noteq> [])"
| "truthy (Some (JArr _)) = True"
| "truthy (Some (JObj _)) = True"

text \<open>The integers of the chain are unsigned 64-bit, printed as strings.\<close>

fun stamp_of :: "js_number \<Rightarrow> stamp" where
  "stamp_of (Num x) = (if of_int \<lfloor>x\<rfloor> = x then Some \<lfloor>x\<rfloor> else None)"
| "stamp_of _ = None"

definition parseOracleObject :: "OracleObject option \<Rightarrow> OracleObjectFields option" where
  "parseOracleObject data =
     (case data of None \<Rightarrow> None
      | Some d \<Rightarrow> (case oo_content d of None \<Rightarrow> None
      | Some f \<Rightarrow>
          if oc_dataType f \<noteq> ''moveObject'' then None
          else Some
            \<lparr>of_oracleId = oo_objectId d,
             of_underlying = (case oc_underlying_asset f of None \<Rightarrow> [] | Some u \<Rightarrow> u),
             of_expiryMs = stamp_of (js_Number (oc_expiry f)),
             of_active = truthy (oc_active f),
             of_settlementPriceOpt =
               (case oc_settlement_price f of
                  SettlementString s \<Rightarrow> Some (stamp_of (StringToNumber s))
                | SettlementVec (v # vs) \<Rightarrow> Some (stamp_of (Number_of_json v))
                | _ \<Rightarrow> None),
             of_authorizedCaps = (case oc_authorized_caps f of None \<Rightarrow> [] | Some cs \<Rightarrow> cs)\<rparr>))"

text \<open>\<open>oracleIdsForCap\<close>: the identifiers in the return value of the inspected call; nothing on a failure.\<close>

definition oracleIdsForCap :: "string list option option \<Rightarrow> string list" where
  "oracleIdsForCap reply = (case reply of Some (Some ids) \<Rightarrow> ids | _ \<Rightarrow> [])"

text \<open>The body of the loop over the objects: a date that is not a number is on no schedule.\<close>

definition discovered_entry ::
  "Config \<Rightarrow> string list \<Rightarrow> string list \<Rightarrow> int \<Rightarrow> OracleObject option \<Rightarrow> OracleState option" where
  "discovered_entry config capIds compactedIds nowMs resp =
     (case parseOracleObject resp of None \<Rightarrow> None
      | Some parsed \<Rightarrow> (case of_expiryMs parsed of None \<Rightarrow> None
      | Some expiryMs \<Rightarrow> (case inferTier expiryMs (cf_tiersEnabled config) of None \<Rightarrow> None
      | Some tier \<Rightarrow> Some
          \<lparr>os_id = of_oracleId parsed, os_underlying = of_underlying parsed, os_expiryMs = expiryMs, os_tier = tier,
           os_status = classifyStatus (of_active parsed) expiryMs (of_settlementPriceOpt parsed)
             (of_oracleId parsed \<in> set compactedIds) nowMs,
           os_registeredCapIds = fold set_add (filter (\<lambda>c. c \<in> set capIds) (of_authorizedCaps parsed)) []\<rparr>)))"

definition add_discovered :: "OracleState option \<Rightarrow> (string, OracleState) js_Map \<Rightarrow> (string, OracleState) js_Map" where
  "add_discovered e out = (case e of None \<Rightarrow> out | Some o' \<Rightarrow> map_set (os_id o') o' out)"

text \<open>The batches in order; a batch request that throws rejects the whole discovery.\<close>

fun discover_batches ::
  "Config \<Rightarrow> string list \<Rightarrow> string list \<Rightarrow> int \<Rightarrow> (string list \<Rightarrow> OracleObject option list res)
   \<Rightarrow> string list list \<Rightarrow> (string, OracleState) js_Map \<Rightarrow> (string, OracleState) js_Map res" where
  "discover_batches config capIds compactedIds nowMs multiGetObjects [] out = Inr out"
| "discover_batches config capIds compactedIds nowMs multiGetObjects (b # bs) out =
     bindE (multiGetObjects b) (\<lambda>resps.
       discover_batches config capIds compactedIds nowMs multiGetObjects bs
         (fold (\<lambda>r. add_discovered (discovered_entry config capIds compactedIds nowMs r)) resps out))"

definition discoverOracles ::
  "Config \<Rightarrow> string list \<Rightarrow> int \<Rightarrow> (string \<Rightarrow> string list option option) \<Rightarrow> predict_content option option
   \<Rightarrow> field_page option list \<Rightarrow> (string list \<Rightarrow> OracleObject option list res) \<Rightarrow> (string, OracleState) js_Map res option" where
  "discoverOracles config capIds nowMs devInspect predict pages multiGetObjects =
     (let ids = fold (\<lambda>capId acc. fold set_add (oracleIdsForCap (devInspect capId)) acc) capIds [] in
      case fetchCompactedOracleIds predict pages of
        None \<Rightarrow> None
      | Some compactedIds \<Rightarrow>
          Some (discover_batches config capIds compactedIds nowMs multiGetObjects (chunks 50 ids) []))"

section \<open>What a discovery returns\<close>

definition keyed :: "(string, OracleState) js_Map \<Rightarrow> bool" where
  "keyed m \<longleftrightarrow> map_wf m \<and> (\<forall>e \<in> set m. os_id (snd e) = fst e)"

lemma map_set_entries: "e \<in> set (map_set k v m) \<Longrightarrow> e = (k, v) \<or> e \<in> set m"
  by (induction k v m rule: map_set.induct) (auto split: if_splits)

lemma keyed_Nil [simp]: "keyed []"
  by (simp add: keyed_def map_wf_def)

lemma keyed_set: "keyed m \<Longrightarrow> k = os_id v \<Longrightarrow> keyed (map_set k v m)"
  using map_set_entries by (fastforce simp: keyed_def js_Map.wf_put)

lemma keyed_delete: "keyed m \<Longrightarrow> keyed (map_delete k m)"
  by (auto simp: keyed_def js_Map.wf_del) (auto simp: map_delete_def)

lemma keyed_add_discovered: "keyed m \<Longrightarrow> keyed (add_discovered e m)"
  by (simp add: add_discovered_def keyed_set split: option.splits)

lemma keyed_fold_discovered: "keyed m \<Longrightarrow> keyed (fold (\<lambda>r. add_discovered (f r)) rs m)"
  by (induction rs arbitrary: m) (auto simp: keyed_add_discovered)

lemma keyed_discover_batches:
  "keyed out \<Longrightarrow> discover_batches config capIds cids now mg bs out = Inr m \<Longrightarrow> keyed m"
  by (induction config capIds cids now mg bs out rule: discover_batches.induct)
    (auto simp: bindE_eq_Inr keyed_fold_discovered)

text \<open>Every entry comes from an object, so it has a tier of its schedule and the status of its object.\<close>

lemma discovered_entry_facts:
  assumes "discovered_entry config capIds cids now r = Some v"
  shows "inferTier (os_expiryMs v) (cf_tiersEnabled config) = Some (os_tier v)"
    "os_status v = active \<Longrightarrow> now < os_expiryMs v"
    "os_status v = compacted \<longleftrightarrow> os_id v \<in> set cids"
    "set (os_registeredCapIds v) \<subseteq> set capIds"
proof -
  obtain p e t where "parseOracleObject r = Some p" "of_expiryMs p = Some e" "inferTier e (cf_tiersEnabled config) = Some t"
    and v: "v = \<lparr>os_id = of_oracleId p, os_underlying = of_underlying p, os_expiryMs = e, os_tier = t,
           os_status = classifyStatus (of_active p) e (of_settlementPriceOpt p) (of_oracleId p \<in> set cids) now,
           os_registeredCapIds = fold set_add (filter (\<lambda>c. c \<in> set capIds) (of_authorizedCaps p)) []\<rparr>"
    using assms by (auto simp: discovered_entry_def split: option.splits)
  then show "inferTier (os_expiryMs v) (cf_tiersEnabled config) = Some (os_tier v)"
    "os_status v = active \<Longrightarrow> now < os_expiryMs v" "os_status v = compacted \<longleftrightarrow> os_id v \<in> set cids"
    by (auto simp: classifyStatus_def split: if_splits)
  have "set (fold set_add xs ys) = set xs \<union> set ys" for xs ys :: "string list"
    by (induction xs arbitrary: ys) auto
  then show "set (os_registeredCapIds v) \<subseteq> set capIds" unfolding v by auto
qed

lemma fold_discovered_values:
  "e \<in> set (fold (\<lambda>r. add_discovered (f r)) rs m) \<Longrightarrow> e \<in> set m \<or> (\<exists>r \<in> set rs. f r = Some (snd e))"
proof (induction rs arbitrary: m)
  case (Cons r rs)
  have "e \<in> set m \<or> f r = Some (snd e)" if "e \<in> set (add_discovered (f r) m)"
    using that map_set_entries by (fastforce simp: add_discovered_def split: option.splits)
  with Cons show ?case by fastforce
qed simp

lemma discover_batches_values:
  "discover_batches config capIds cids now mg bs out = Inr m \<Longrightarrow> e \<in> set m \<Longrightarrow>
   e \<in> set out \<or> (\<exists>r. discovered_entry config capIds cids now r = Some (snd e))"
proof (induction config capIds cids now mg bs out rule: discover_batches.induct)
  case (2 config capIds cids now mg b bs out)
  then obtain rs where "discover_batches config capIds cids now mg bs
      (fold (\<lambda>r. add_discovered (discovered_entry config capIds cids now r)) rs out) = Inr m" and "mg b = Inr rs"
    by (auto simp: bindE_eq_Inr)
  with 2 show ?case using fold_discovered_values by fastforce
qed simp

lemma discoverOracles_entries:
  assumes "discoverOracles config capIds now dev predict pages mg = Some (Inr m)"
  obtains cids where "fetchCompactedOracleIds predict pages = Some cids" "keyed m"
    "\<And>e. e \<in> set m \<Longrightarrow> \<exists>r. discovered_entry config capIds cids now r = Some (snd e)"
proof -
  from assms obtain cids bs where c: "fetchCompactedOracleIds predict pages = Some cids"
    and d: "discover_batches config capIds cids now mg bs [] = Inr m"
    by (auto simp: discoverOracles_def Let_def split: option.splits)
  have "keyed m" using keyed_discover_batches [OF keyed_Nil d] .
  moreover have "\<exists>r. discovered_entry config capIds cids now r = Some (snd e)" if "e \<in> set m" for e
    using discover_batches_values [OF d that] by simp
  ultimately show thesis using c that by blast
qed

text \<open>A configuration with the constants of \<open>config.ts\<close> and two lanes, for examples.\<close>

definition demo_config :: Config where
  "demo_config =
     \<lparr>cf_network = ''testnet'', cf_suiRpcUrl = ''url'', cf_suiSignerKey = ''key'', cf_predictPackageId = ''0x1'', cf_registryId = ''0x2'', cf_predictId = ''0x3'', cf_adminCapId = ''0x4'',
      cf_blockscholesApiKey = ''api'', cf_blockscholesWsUrl = BLOCKSCHOLES_WS_URL, cf_tiersEnabled = [T15m, T1h, T1d, T1w], cf_expiriesPerTier = 4, cf_minLookaheadMs = 3600000, cf_underlying = ''BTC'',
      cf_strikeMin = 50000000000000, cf_strikeMax = 150000000000000, cf_tickSize = 1000000000, cf_laneCount = 2,
      cf_gasPoolFloorSui = 20, cf_gasLaneMinSui = 100, cf_logLevel = ''info'', cf_pushTickMs = 1000, cf_managerIntervalMs = 300000,
      cf_managerGraceMs = 600000, cf_priceCacheStaleMs = 3000, cf_safetyWindowMs = 5000, cf_healthzPort = 8080\<rparr>"

end
