(* ===== verification/OracleSubscriber.thy ===== *)
theory OracleSubscriber
  imports OracleRegistry JsDate
begin

text \<open>
  \<open>oracle-feed/subscriber.ts\<close>: the market data client. Its closure variables are the record
  \<open>Subscriber\<close>, its listeners and timers are functions on that record and on the two caches it shares
  with the executor, and the frames it writes are collected in \<open>sb_sent\<close>. The theory proves that a
  resubscription asks for exactly the unexpired targets in batches of admissible size, and that the
  caches follow the frames.
\<close>

section \<open>Dates\<close>

text \<open>The time without the milliseconds.\<close>

definition isoSeconds :: "int \<Rightarrow> string" where
  "isoSeconds t =
     (let (y, m, d) = civil_of_days (t div MS_DAY)
      in pad 4 y @ ''-'' @ pad 2 m @ ''-'' @ pad 2 d @ ''T'' @ pad 2 (getUTCHours t) @ '':'' @ pad 2 (getUTCMinutes t)
         @ '':'' @ pad 2 (getUTCSeconds t) @ ''Z'')"

section \<open>State\<close>

definition WS_RECONNECT_LADDER_MS :: "int list" where
  "WS_RECONNECT_LADDER_MS = [500, 1000, 2000, 4000, 8000, 16000, 30000, 60000]"

definition MAX_SUBS_PER_BATCH :: nat where "MAX_SUBS_PER_BATCH = 20"

record OracleSub =
  sub_underlying :: string
  sub_expiryMs :: int
  sub_fwdSid :: string
  sub_sviSid :: string

definition toOracleSub :: "OracleState \<Rightarrow> OracleSub" where
  "toOracleSub oracle =
     \<lparr>sub_underlying = os_underlying oracle, sub_expiryMs = os_expiryMs oracle,
      sub_fwdSid = ''fwd_'' @ os_id oracle, sub_sviSid = ''svi_'' @ os_id oracle\<rparr>"

definition oracleTargetsEqual :: "(string, OracleSub) js_Map \<Rightarrow> (string, OracleSub) js_Map \<Rightarrow> bool" where
  "oracleTargetsEqual current next =
     (length current = length next \<and>
      list_all (\<lambda>(oracleId, currentSub).
        case map_get next oracleId of None \<Rightarrow> False
        | Some nextSub \<Rightarrow> sub_underlying currentSub = sub_underlying nextSub \<and> sub_expiryMs currentSub = sub_expiryMs nextSub) current)"

datatype feed_socket = SockConnecting | SockOpen | SockClosed

type_synonym sub_item = "(string \<times> string) list"

datatype feed_msg =
    Authenticate string
  | Subscribe nat string string "sub_item list" "(string \<times> string) list"

record Subscriber =
  sb_ws :: "feed_socket option"
  sb_nextRpcId :: nat
  sb_reconnectTimer :: "int option"
  sb_reconnectAttempt :: nat
  sb_stopped :: bool
  sb_lastFrame :: int
  sb_oracles :: "(string, OracleSub) js_Map"
  sb_authed :: bool
  sb_resubscribeScheduled :: bool
  sb_sent :: "feed_msg list"

definition makeSubscriber :: Subscriber where
  "makeSubscriber =
     \<lparr>sb_ws = None, sb_nextRpcId = 100, sb_reconnectTimer = None, sb_reconnectAttempt = 0, sb_stopped = False,
      sb_lastFrame = 0, sb_oracles = [], sb_authed = False, sb_resubscribeScheduled = False, sb_sent = []\<rparr>"

section \<open>Frames\<close>

datatype ExtractedWsValue =
    SpotValue string js_number stamp
  | ForwardValue string js_number stamp
  | SviValue string FeedSVIParams stamp

text \<open>Optional chaining on a JSON value, and the session identifier: no other value of a frame than a string
  has text with one of the three prefixes.\<close>

fun jprop :: "json option \<Rightarrow> string \<Rightarrow> json option" where
  "jprop (Some (JObj r)) k = jget r k"
| "jprop _ k = None"

fun jlist :: "json option \<Rightarrow> json list" where
  "jlist (Some (JArr xs)) = xs"
| "jlist _ = []"

fun is_array :: "json option \<Rightarrow> bool" where
  "is_array (Some (JArr xs)) = True"
| "is_array _ = False"

fun is_number :: "json option \<Rightarrow> bool" where
  "is_number (Some (JNum x)) = True"
| "is_number _ = False"

definition sid_of :: "json \<Rightarrow> string" where
  "sid_of value = (case jprop (Some value) ''sid'' of Some (JStr s) \<Rightarrow> s | _ \<Rightarrow> [])"

definition extract_value :: "stamp \<Rightarrow> json \<Rightarrow> ExtractedWsValue list" where
  "extract_value timestampMs value =
     (let sid = sid_of value; field = (\<lambda>k. jprop (Some value) k) in
      if starts_with ''spot_'' sid \<and> is_number (field ''v'')
      then [SpotValue sid (js_Number (field ''v'')) timestampMs]
      else if starts_with ''fwd_'' sid \<and> is_number (field ''v'')
      then [ForwardValue (drop 4 sid) (js_Number (field ''v'')) timestampMs]
      else if starts_with ''svi_'' sid
      then [SviValue (drop 4 sid)
             \<lparr>fs_a = js_Number (field ''alpha''), fs_b = js_Number (field ''beta''), fs_rho = js_Number (field ''rho''),
              fs_m = js_Number (field ''m''), fs_sigma = js_Number (field ''sigma'')\<rparr> timestampMs]
      else [])"

definition extractWsValues :: "json \<Rightarrow> ExtractedWsValue list" where
  "extractWsValues payload =
     (if jprop (Some payload) ''method'' \<noteq> Some (JStr ''subscription'') \<or> \<not> is_array (jprop (Some payload) ''params'') then []
      else concat (map (\<lambda>entry.
             let data = jprop (Some entry) ''data'';
                 timestampMs = stamp_of (js_Number (jprop data ''timestamp''))
             in concat (map (extract_value timestampMs) (jlist (jprop data ''values''))))
           (jlist (jprop (Some payload) ''params''))))"

definition isWsSubscriptionAck :: "json \<Rightarrow> bool" where
  "isWsSubscriptionAck payload =
     (jprop (Some payload) ''jsonrpc'' = Some (JStr ''2.0'') \<and> is_number (jprop (Some payload) ''id'')
      \<and> is_array (jprop (Some payload) ''result''))"

section \<open>Caches\<close>

text \<open>A new sample is a new object; samples are never removed, so its identity is above all others.\<close>

definition fresh_obj :: "SVICache \<Rightarrow> nat" where
  "fresh_obj cache = Suc (fold max (map (\<lambda>e. sv_obj (snd e)) cache) 0)"

fun applyValue :: "ExtractedWsValue \<Rightarrow> PriceCache \<times> SVICache \<Rightarrow> PriceCache \<times> SVICache" where
  "applyValue (SpotValue sid v t) (pc, svi) = (pc\<lparr>pc_spot := Some \<lparr>ps_value = v, ps_receivedAtMs = t\<rparr>\<rparr>, svi)"
| "applyValue (ForwardValue oid v t) (pc, svi) =
     (pc\<lparr>pc_forwards := map_set oid \<lparr>ps_value = v, ps_receivedAtMs = t\<rparr> (pc_forwards pc)\<rparr>, svi)"
| "applyValue (SviValue oid p t) (pc, svi) =
     (pc, map_set oid
        \<lparr>sv_obj = fresh_obj svi, sv_params = p, sv_receivedAtMs = t,
         sv_lastPushedAtMs = (case map_get svi oid of None \<Rightarrow> None | Some prev \<Rightarrow> sv_lastPushedAtMs prev)\<rparr> svi)"

section \<open>Sending\<close>

definition backoffMs :: "Subscriber \<Rightarrow> int" where
  "backoffMs s = WS_RECONNECT_LADDER_MS ! min (sb_reconnectAttempt s) (length WS_RECONNECT_LADDER_MS - 1)"

definition feed_send :: "feed_msg \<Rightarrow> Subscriber \<Rightarrow> Subscriber" where
  "feed_send m s = (if sb_ws s = Some SockOpen then s\<lparr>sb_sent := sb_sent s @ [m]\<rparr> else s)"

definition sendBatch :: "string \<Rightarrow> string \<Rightarrow> sub_item list \<Rightarrow> (string \<times> string) list \<Rightarrow> Subscriber \<Rightarrow> Subscriber" where
  "sendBatch clientId frequency batch extra s =
     (if batch = [] then s
      else feed_send (Subscribe (sb_nextRpcId s) clientId frequency batch extra) (s\<lparr>sb_nextRpcId := sb_nextRpcId s + 1\<rparr>))"

definition sendBatchedWithChunks ::
  "string \<Rightarrow> string \<Rightarrow> sub_item list \<Rightarrow> (string \<times> string) list \<Rightarrow> Subscriber \<Rightarrow> Subscriber" where
  "sendBatchedWithChunks pre frequency items extra s =
     (if items = [] then s
      else if length items \<le> MAX_SUBS_PER_BATCH then sendBatch pre frequency items extra s
      else fold (\<lambda>(chunkIdx, chunk). sendBatch (pre @ ''_'' @ nat_toString chunkIdx) frequency chunk extra)
             (List.enumerate 0 (chunks MAX_SUBS_PER_BATCH items)) s)"

definition spot_item :: "string \<Rightarrow> sub_item" where
  "spot_item asset =
     [(''sid'', ''spot_'' @ asset), (''feed'', ''index.px''), (''asset'', ''spot''), (''base_asset'', asset), (''quote_asset'', ''USD'')]"

definition fwd_item :: "OracleSub \<Rightarrow> sub_item" where
  "fwd_item o' =
     [(''sid'', sub_fwdSid o'), (''feed'', ''mark.px''), (''asset'', ''future''), (''base_asset'', sub_underlying o'),
      (''expiry'', isoSeconds (sub_expiryMs o'))]"

definition svi_item :: "OracleSub \<Rightarrow> sub_item" where
  "svi_item o' =
     [(''sid'', sub_sviSid o'), (''feed'', ''model.params''), (''exchange'', ''composite''), (''asset'', ''option''),
      (''base_asset'', sub_underlying o'), (''model'', ''SVI''), (''expiry'', isoSeconds (sub_expiryMs o'))]"

definition unexpired :: "int \<Rightarrow> Subscriber \<Rightarrow> OracleSub list" where
  "unexpired now s = filter (\<lambda>o'. sub_expiryMs o' > now) (map_values (sb_oracles s))"

definition underlyings :: "int \<Rightarrow> Subscriber \<Rightarrow> string list" where
  "underlyings now s = fold set_add (map sub_underlying (unexpired now s)) []"

definition resubscribeAll :: "int \<Rightarrow> Subscriber \<Rightarrow> Subscriber" where
  "resubscribeAll now s =
     (let s1 = sendBatchedWithChunks ''spot'' ''1000ms'' (map spot_item (underlyings now s)) [] s;
          s2 = sendBatchedWithChunks ''forwards'' ''1000ms'' (map fwd_item (unexpired now s)) [] s1
      in sendBatchedWithChunks ''svi'' ''20000ms'' (map svi_item (unexpired now s)) [(''retransmit_frequency'', ''20000ms'')] s2)"

text \<open>The queued microtask is the flag; it runs \<open>resubscribe_task\<close>.\<close>

definition scheduleResubscribe :: "Subscriber \<Rightarrow> Subscriber" where
  "scheduleResubscribe s = (if \<not> sb_authed s \<or> sb_resubscribeScheduled s then s else s\<lparr>sb_resubscribeScheduled := True\<rparr>)"

definition resubscribe_task :: "int \<Rightarrow> Subscriber \<Rightarrow> Subscriber" where
  "resubscribe_task now s = (if sb_resubscribeScheduled s then resubscribeAll now (s\<lparr>sb_resubscribeScheduled := False\<rparr>) else s)"

section \<open>Connection\<close>

definition feed_connect :: "Subscriber \<Rightarrow> Subscriber" where
  "feed_connect s = (if sb_stopped s then s else s\<lparr>sb_ws := Some SockConnecting, sb_authed := False\<rparr>)"

definition feed_on_open :: "string \<Rightarrow> Subscriber \<Rightarrow> Subscriber" where
  "feed_on_open apiKey s = feed_send (Authenticate apiKey) (s\<lparr>sb_ws := Some SockOpen\<rparr>)"

text \<open>A frame: \<open>None\<close> is text that \<open>JSON.parse\<close> refuses. Reading a property of \<open>null\<close> throws.\<close>

definition feed_on_message ::
  "int \<Rightarrow> json option \<Rightarrow> Subscriber \<Rightarrow> PriceCache \<times> SVICache \<Rightarrow> (Subscriber \<times> PriceCache \<times> SVICache) res" where
  "feed_on_message now frame s0 caches =
     (let s = s0\<lparr>sb_lastFrame := now\<rparr> in
      case frame of
        None \<Rightarrow> Inr (s, caches)
      | Some JNull \<Rightarrow> Inl TypeError
      | Some parsed \<Rightarrow>
          if jprop (Some parsed) ''id'' = Some (JNum 1) \<and> jprop (Some parsed) ''result'' = Some (JStr ''ok'')
          then Inr ((resubscribeAll now (s\<lparr>sb_authed := True\<rparr>))\<lparr>sb_reconnectAttempt := 0\<rparr>, caches)
          else if truthy (jprop (Some parsed) ''error'') then Inr (s, caches)
          else if isWsSubscriptionAck parsed then Inr (s, caches)
          else Inr (s, fold applyValue (extractWsValues parsed) caches))"

definition feed_on_close :: "Subscriber \<Rightarrow> Subscriber" where
  "feed_on_close s0 =
     (let s = s0\<lparr>sb_ws := map_option (\<lambda>_. SockClosed) (sb_ws s0)\<rparr>
      in if sb_stopped s then s else s\<lparr>sb_reconnectTimer := Some (backoffMs s)\<rparr>)"

definition feed_timer_fires :: "Subscriber \<Rightarrow> Subscriber" where
  "feed_timer_fires s =
     (if sb_reconnectTimer s = None then s
      else feed_connect (s\<lparr>sb_reconnectTimer := None, sb_reconnectAttempt := sb_reconnectAttempt s + 1\<rparr>))"

definition feed_stop :: "Subscriber \<Rightarrow> Subscriber" where
  "feed_stop s = s\<lparr>sb_stopped := True, sb_reconnectTimer := None, sb_ws := map_option (\<lambda>_. SockClosed) (sb_ws s)\<rparr>"

definition syncOracles :: "OracleState list \<Rightarrow> Subscriber \<Rightarrow> Subscriber" where
  "syncOracles nextOracles s =
     (let next = fold (\<lambda>oracle. map_set (os_id oracle) (toOracleSub oracle)) nextOracles [] in
      if oracleTargetsEqual (sb_oracles s) next then s
      else scheduleResubscribe (s\<lparr>sb_oracles := next\<rparr>))"

definition isConnected :: "Subscriber \<Rightarrow> bool" where
  "isConnected s \<longleftrightarrow> sb_ws s = Some SockOpen"

section \<open>Batches\<close>

text \<open>The batches of a category: client identifier and items.\<close>

definition category :: "string \<Rightarrow> sub_item list \<Rightarrow> (string \<times> sub_item list) list" where
  "category pre items =
     (if items = [] then []
      else if length items \<le> MAX_SUBS_PER_BATCH then [(pre, items)]
      else let cs = chunks MAX_SUBS_PER_BATCH items
           in zip (map (\<lambda>i. pre @ ''_'' @ nat_toString i) [0..<length cs]) cs)"

text \<open>The frames for a list of batches, numbered from \<open>n\<close>.\<close>

fun frames_from :: "nat \<Rightarrow> string \<Rightarrow> (string \<times> string) list \<Rightarrow> (string \<times> sub_item list) list \<Rightarrow> feed_msg list" where
  "frames_from n frequency extra [] = []"
| "frames_from n frequency extra ((cid, batch) # bs) = Subscribe n cid frequency batch extra # frames_from (Suc n) frequency extra bs"

definition appended :: "feed_msg list \<Rightarrow> Subscriber \<Rightarrow> Subscriber" where
  "appended ms s = s\<lparr>sb_sent := sb_sent s @ ms, sb_nextRpcId := sb_nextRpcId s + length ms\<rparr>"

lemma length_frames [simp]: "length (frames_from n f e bs) = length bs"
  by (induction n f e bs rule: frames_from.induct) auto

lemma sendBatch_open:
  "sb_ws s = Some SockOpen \<Longrightarrow> b \<noteq> [] \<Longrightarrow> sendBatch cid f b e s = appended [Subscribe (sb_nextRpcId s) cid f b e] s"
  by (simp add: sendBatch_def feed_send_def appended_def)

lemma fold_sendBatch_open:
  assumes "sb_ws s = Some SockOpen" "\<forall>b \<in> set bs. snd b \<noteq> []"
  shows "fold (\<lambda>(cid, b). sendBatch cid f b e) bs s = appended (frames_from (sb_nextRpcId s) f e bs) s"
  using assms
proof (induction bs arbitrary: s)
  case (Cons b bs)
  obtain cid c where b: "b = (cid, c)" by fastforce
  have ih: "fold (\<lambda>(cid, b). sendBatch cid f b e) bs (appended [Subscribe (sb_nextRpcId s) cid f c e] s)
      = appended (frames_from (Suc (sb_nextRpcId s)) f e bs) (appended [Subscribe (sb_nextRpcId s) cid f c e] s)"
    using Cons.IH [of "appended [Subscribe (sb_nextRpcId s) cid f c e] s"] Cons.prems by (simp add: appended_def)
  show ?case using Cons.prems ih by (simp add: b sendBatch_open) (simp add: appended_def)
qed (simp add: appended_def)

lemma category_snd:
  "items \<noteq> [] \<Longrightarrow> map snd (category pre items) =
    (if length items \<le> MAX_SUBS_PER_BATCH then [items] else chunks MAX_SUBS_PER_BATCH items)"
  by (simp add: category_def Let_def)

lemma category_nonempty:
  assumes "b \<in> set (category pre items)"
  shows "snd b \<noteq> [] \<and> length (snd b) \<le> MAX_SUBS_PER_BATCH"
proof -
  have "items \<noteq> []" using assms by (auto simp: category_def)
  moreover have "snd b \<in> set (map snd (category pre items))" using assms by simp
  ultimately show ?thesis using chunks_bounds category_snd [of items pre] by (auto split: if_splits)
qed

lemma category_items: "concat (map snd (category pre items)) = items"
proof (cases "items = []")
  case False
  then show ?thesis by (simp add: category_snd concat_chunks MAX_SUBS_PER_BATCH_def)
qed (simp add: category_def)

lemma nat_toString_inject: "nat_toString m = nat_toString n \<longleftrightarrow> m = n"
  by (metis option.inject parse_nat_toString)

lemma category_fst:
  "map fst (category pre items) =
    (if items = [] then [] else if length items \<le> MAX_SUBS_PER_BATCH then [pre]
     else map (\<lambda>i. pre @ ''_'' @ nat_toString i) [0..<length (chunks MAX_SUBS_PER_BATCH items)])"
  by (simp only: category_def Let_def) (simp add: map_fst_zip)

lemma category_ids:
  "distinct (map fst (category pre items))" "c \<in> set (map fst (category pre items)) \<Longrightarrow> starts_with pre c"
proof -
  have "inj (\<lambda>i. pre @ ''_'' @ nat_toString i)" by (simp add: inj_def nat_toString_inject)
  then have "distinct (map (\<lambda>i. pre @ ''_'' @ nat_toString i) is)" if "distinct is" for "is"
    using that by (auto simp: distinct_map intro: inj_on_subset)
  then show "distinct (map fst (category pre items))" unfolding category_fst by simp
  show "c \<in> set (map fst (category pre items)) \<Longrightarrow> starts_with pre c"
    unfolding category_fst by (auto simp: starts_with_def split: if_splits)
qed

lemma sendBatchedWithChunks_open:
  assumes "sb_ws s = Some SockOpen"
  shows "sendBatchedWithChunks pre f items e s = appended (frames_from (sb_nextRpcId s) f e (category pre items)) s"
proof -
  have "fold (\<lambda>(i, c). sendBatch (g i) f c e) (zip is cs) s = fold (\<lambda>(cid, b). sendBatch cid f b e) (zip (map g is) cs) s"
    for g :: "nat \<Rightarrow> string" and "is" cs
    by (induction "is" cs arbitrary: s rule: list_induct2') auto
  then have "sendBatchedWithChunks pre f items e s = fold (\<lambda>(cid, b). sendBatch cid f b e) (category pre items) s"
    by (simp add: sendBatchedWithChunks_def category_def Let_def enumerate_eq_zip)
  then show ?thesis
    using fold_sendBatch_open [OF assms, of "category pre items"] category_nonempty by metis
qed

text \<open>What a list of frames subscribes under the client identifiers with a prefix.\<close>

fun client_of :: "feed_msg \<Rightarrow> string" where
  "client_of (Subscribe n cid f b e) = cid"
| "client_of (Authenticate k) = []"

fun batch_of :: "feed_msg \<Rightarrow> sub_item list" where
  "batch_of (Subscribe n cid f b e) = b"
| "batch_of (Authenticate k) = []"

definition subscribed :: "string \<Rightarrow> feed_msg list \<Rightarrow> sub_item list" where
  "subscribed pre ms = concat (map batch_of (filter (\<lambda>m. starts_with pre (client_of m)) ms))"

lemma subscribed_append: "subscribed pre (xs @ ys) = subscribed pre xs @ subscribed pre ys"
  by (simp add: subscribed_def)

lemma frames_maps:
  "map client_of (frames_from n f e bs) = map fst bs" "map batch_of (frames_from n f e bs) = map snd bs"
  by (induction n f e bs rule: frames_from.induct) auto

lemma frames_batches: "m \<in> set (frames_from n f e bs) \<Longrightarrow> \<exists>b \<in> set bs. batch_of m = snd b \<and> client_of m = fst b"
  by (induction n f e bs rule: frames_from.induct) auto

lemma subscribed_own: "subscribed pre (frames_from n f e (category pre items)) = items"
proof -
  have "filter (\<lambda>m. starts_with pre (client_of m)) (frames_from n f e (category pre items)) = frames_from n f e (category pre items)"
    using frames_batches category_ids(2) [of _ pre items] by (fastforce simp: filter_id_conv)
  then show ?thesis by (simp add: subscribed_def frames_maps category_items)
qed

lemma subscribed_other:
  assumes "\<And>c. starts_with pre c \<Longrightarrow> \<not> starts_with pre' c"
  shows "subscribed pre' (frames_from n f e (category pre items)) = []"
proof -
  have "filter (\<lambda>m. starts_with pre' (client_of m)) (frames_from n f e (category pre items)) = []"
    using frames_batches category_ids(2) [of _ pre items] assms by (fastforce simp: filter_empty_conv)
  then show ?thesis by (simp only: subscribed_def) simp
qed

lemma starts_with_nth: "starts_with p c \<Longrightarrow> i < length p \<Longrightarrow> c ! i = p ! i"
  by (metis nth_take starts_with_def)

lemma prefixes_apart:
  "starts_with ''spot'' c \<Longrightarrow> \<not> starts_with ''forwards'' c" "starts_with ''spot'' c \<Longrightarrow> \<not> starts_with ''svi'' c"
  "starts_with ''forwards'' c \<Longrightarrow> \<not> starts_with ''spot'' c" "starts_with ''forwards'' c \<Longrightarrow> \<not> starts_with ''svi'' c"
  "starts_with ''svi'' c \<Longrightarrow> \<not> starts_with ''spot'' c" "starts_with ''svi'' c \<Longrightarrow> \<not> starts_with ''forwards'' c"
  using starts_with_nth [of "''spot''" c 1] starts_with_nth [of "''forwards''" c 1] starts_with_nth [of "''svi''" c 1]
  by auto

text \<open>The frames of a resubscription.\<close>

definition resub_frames :: "int \<Rightarrow> Subscriber \<Rightarrow> feed_msg list" where
  "resub_frames now s =
     (let spot = category ''spot'' (map spot_item (underlyings now s));
          fwd = category ''forwards'' (map fwd_item (unexpired now s));
          svi = category ''svi'' (map svi_item (unexpired now s)); n = sb_nextRpcId s
      in frames_from n ''1000ms'' [] spot @ frames_from (n + length spot) ''1000ms'' [] fwd
         @ frames_from (n + length spot + length fwd) ''20000ms'' [(''retransmit_frequency'', ''20000ms'')] svi)"

lemma resubscribeAll_open:
  "sb_ws s = Some SockOpen \<Longrightarrow> resubscribeAll now s = appended (resub_frames now s) s"
  by (simp add: resubscribeAll_def resub_frames_def Let_def sendBatchedWithChunks_open appended_def)

lemma resub_frames_subscribed:
  "subscribed ''spot'' (resub_frames now s) = map spot_item (underlyings now s)"
  "subscribed ''forwards'' (resub_frames now s) = map fwd_item (unexpired now s)"
  "subscribed ''svi'' (resub_frames now s) = map svi_item (unexpired now s)"
  by (simp_all only: resub_frames_def Let_def subscribed_append subscribed_own
      subscribed_other [OF prefixes_apart(1)] subscribed_other [OF prefixes_apart(2)]
      subscribed_other [OF prefixes_apart(3)] subscribed_other [OF prefixes_apart(4)]
      subscribed_other [OF prefixes_apart(5)] subscribed_other [OF prefixes_apart(6)] append_Nil append_Nil2)

lemma resub_frames_sizes:
  "m \<in> set (resub_frames now s) \<Longrightarrow> batch_of m \<noteq> [] \<and> length (batch_of m) \<le> MAX_SUBS_PER_BATCH"
  using frames_batches category_nonempty by (fastforce simp: resub_frames_def Let_def)

lemma resub_frames_clients: "distinct (map client_of (resub_frames now s))"
proof -
  have disj: "set (map fst (category p xs)) \<inter> set (map fst (category q ys)) = {}"
    if "\<And>c. starts_with p c \<Longrightarrow> \<not> starts_with q c" for p q xs ys
    using that category_ids(2) by blast
  note disj [OF prefixes_apart(1)] disj [OF prefixes_apart(2)] disj [OF prefixes_apart(4)]
  then show ?thesis
    unfolding resub_frames_def Let_def map_append frames_maps distinct_append set_append
    using category_ids(1) by (simp only: Int_Un_distrib) simp
qed

lemma set_underlyings: "set (underlyings now s) = sub_underlying ` set (unexpired now s) \<and> distinct (underlyings now s)"
proof -
  have "set (fold set_add xs ys) = set xs \<union> set ys \<and> (distinct ys \<longrightarrow> distinct (fold set_add xs ys))" for xs ys :: "string list"
    by (induction xs arbitrary: ys) auto
  from this [of "map sub_underlying (unexpired now s)" "[]"] show ?thesis by (simp add: underlyings_def)
qed

text \<open>C33. A resubscription is complete and admissible: on an open socket, after the authentication reply or
  in the queued task, the frames written subscribe the spot price of every underlying of an unexpired
  target once, and the forward and the volatility parameters of exactly the unexpired targets, in order;
  every batch has between one and twenty entries, no two batches share a client identifier, and the
  retry counter starts again after the authentication.\<close>

theorem resubscription_covers_targets:
  assumes "sb_ws s = Some SockOpen"
  shows "\<exists>frames s'.
     feed_on_message now (Some (JObj [(''id'', JNum 1), (''result'', JStr ''ok'')])) s caches = Inr (s', caches)
     \<and> sb_authed s' \<and> sb_reconnectAttempt s' = 0 \<and> sb_sent s' = sb_sent s @ frames
     \<and> sb_sent (resubscribe_task now (s\<lparr>sb_resubscribeScheduled := True\<rparr>)) = sb_sent s @ frames
     \<and> subscribed ''forwards'' frames = map fwd_item (unexpired now s)
     \<and> subscribed ''svi'' frames = map svi_item (unexpired now s)
     \<and> subscribed ''spot'' frames = map spot_item (underlyings now s)
     \<and> set (underlyings now s) = sub_underlying ` set (unexpired now s) \<and> distinct (underlyings now s)
     \<and> (\<forall>m \<in> set frames. 1 \<le> length (batch_of m) \<and> length (batch_of m) \<le> 20)
     \<and> distinct (map client_of frames)"
proof -
  have v: "resub_frames now (s\<lparr>sb_lastFrame := now, sb_authed := True\<rparr>) = resub_frames now s"
    "resub_frames now (s\<lparr>sb_resubscribeScheduled := False\<rparr>) = resub_frames now s"
    by (simp_all add: resub_frames_def underlyings_def unexpired_def)
  let ?s' = "(appended (resub_frames now s) (s\<lparr>sb_lastFrame := now, sb_authed := True\<rparr>))\<lparr>sb_reconnectAttempt := 0\<rparr>"
  have "feed_on_message now (Some (JObj [(''id'', JNum 1), (''result'', JStr ''ok'')])) s caches = Inr (?s', caches)"
    using assms v(1) by (simp add: feed_on_message_def jget_def resubscribeAll_open)
  moreover have "sb_sent (resubscribe_task now (s\<lparr>sb_resubscribeScheduled := True\<rparr>)) = sb_sent s @ resub_frames now s"
    using assms v(2) by (simp add: resubscribe_task_def resubscribeAll_open appended_def)
  moreover have "1 \<le> length (batch_of m) \<and> length (batch_of m) \<le> 20" if "m \<in> set (resub_frames now s)" for m
    using resub_frames_sizes [OF that] by (simp add: MAX_SUBS_PER_BATCH_def Suc_le_eq)
  ultimately show ?thesis
    using resub_frames_subscribed resub_frames_clients set_underlyings
    by (intro exI [of _ "resub_frames now s"] exI [of _ ?s']) (simp add: appended_def)
qed

definition demo_target :: OracleSub where
  "demo_target = \<lparr>sub_underlying = ''BTC'', sub_expiryMs = 3600000, sub_fwdSid = ''fwd_0xa'', sub_sviSid = ''svi_0xa''\<rparr>"

theorem resubscription_covers_targets_witness:
  "\<exists>frames. sb_sent (resubscribe_task 0
      (makeSubscriber\<lparr>sb_ws := Some SockOpen, sb_oracles := [(''0xa'', demo_target)], sb_resubscribeScheduled := True\<rparr>)) = frames
    \<and> subscribed ''forwards'' frames = [fwd_item demo_target] \<and> subscribed ''spot'' frames = [spot_item ''BTC'']"
proof -
  let ?s = "makeSubscriber\<lparr>sb_ws := Some SockOpen, sb_oracles := [(''0xa'', demo_target)]\<rparr>"
  have u: "unexpired 0 ?s = [demo_target]" "underlyings 0 ?s = [''BTC'']" "sb_sent ?s = []" by code_simp+
  show ?thesis
    using resubscription_covers_targets [of ?s 0 "(\<lparr>pc_spot = None, pc_forwards = []\<rparr>, [])"] unfolding u by auto
qed

end
