(* ===== verification/OracleBootstrap.thy ===== *)
theory OracleBootstrap
  imports OracleRegistry "HOL-Library.Product_Lexorder" "HOL-Library.List_Lexorder"
begin

text \<open>
  \<open>oracle-feed/bootstrap.ts\<close>: the gas coins and capabilities behind the lanes. Balances are the integers
  of the decimal strings; the paged reads are loops over the replies in order; the outcome of the
  submission is an argument. The theory proves what a refresh leaves in the lanes and that its split
  spends no more than the signer owns.
\<close>

definition SUI_TO_MIST :: int where "SUI_TO_MIST = 1000000000"

record CoinStruct =
  cn_id :: string
  cn_version :: string
  cn_digest :: string
  cn_balance :: int

section \<open>Reads\<close>

record 'a data_page =
  dp_data :: "'a list"
  dp_hasNextPage :: bool
  dp_nextCursor :: "string option"

text \<open>The \<open>do ... while (cursor)\<close> loops: the outer \<open>None\<close> while a reply is missing.\<close>

fun all_pages :: "'a data_page res list \<Rightarrow> 'a list \<Rightarrow> 'a list res option" where
  "all_pages [] acc = None"
| "all_pages (Inl e # rs) acc = Some (Inl e)"
| "all_pages (Inr p # rs) acc =
     (let acc = acc @ dp_data p; cursor = (if dp_hasNextPage p then dp_nextCursor p else None)
      in if cursor = None \<or> cursor = Some [] then Some (Inr acc) else all_pages rs acc)"

definition getAllSuiCoins :: "CoinStruct data_page res list \<Rightarrow> CoinStruct list res option" where
  "getAllSuiCoins pages = all_pages pages []"

text \<open>An owned object may come without data.\<close>

definition getOwnedCaps :: "string option data_page res list \<Rightarrow> string list res option" where
  "getOwnedCaps pages =
     map_option (\<lambda>r. bindE r (\<lambda>os. Inr (concat (map (\<lambda>o'. case o' of Some c \<Rightarrow> if c = [] then [] else [c] | None \<Rightarrow> []) os))))
       (all_pages pages [])"

text \<open>The owner of the admin capability: \<open>None\<close> when it is not an address.\<close>

definition assertSignerOwnsAdminCap :: "string \<Rightarrow> string \<Rightarrow> string option \<Rightarrow> unit res" where
  "assertSignerOwnsAdminCap signerAddress adminCapId addressOwner =
     (if addressOwner \<noteq> Some signerAddress
      then Inl (Error (''oracle-feed signer '' @ signerAddress @ '' must own AdminCap '' @ adminCapId @ '', but current owner is ''
             @ (case addressOwner of None \<Rightarrow> ''non-address owner'' | Some a \<Rightarrow> a)))
      else Inr ())"

section \<open>Coins\<close>

definition coinRef :: "CoinStruct \<Rightarrow> string \<times> string \<times> string" where
  "coinRef coin = (cn_id coin, cn_version coin, cn_digest coin)"

text \<open>Descending balance, then the identifier; identifiers are lower-case hexadecimal of one length.\<close>

definition coin_key :: "CoinStruct \<Rightarrow> int \<times> nat list" where
  "coin_key c = (- cn_balance c, map of_char (cn_id c))"

definition sortCoinsByBalanceDesc :: "CoinStruct list \<Rightarrow> CoinStruct list" where
  "sortCoinsByBalanceDesc coins = sort_key coin_key coins"

definition sumCoinBalances :: "CoinStruct list \<Rightarrow> int" where
  "sumCoinBalances coins = fold (\<lambda>coin s. s + cn_balance coin) coins 0"

definition suiToMist :: "rat \<Rightarrow> int res" where
  "suiToMist sui =
     (if sui \<le> 0 then Inr 0
      else case js_times (Num sui) (of_int SUI_TO_MIST) of Num y \<Rightarrow> Inr \<lfloor>y\<rfloor> | _ \<Rightarrow> Inl RangeError)"

definition minBigInt :: "int \<Rightarrow> int \<Rightarrow> int" where
  "minBigInt a b = (if a < b then a else b)"

text \<open>The merge of all other coins into the gas coin and the split into equal parts.\<close>

definition refresh_tx :: "string \<Rightarrow> nat \<Rightarrow> CoinStruct \<Rightarrow> CoinStruct list \<Rightarrow> int \<Rightarrow> Transaction res" where
  "refresh_tx address laneCount primary others totalMist =
     (let tx = new_Transaction\<lparr>tx_sender := Some address, tx_gasPayment := [coinRef primary]\<rparr>;
          mergeSources = map (\<lambda>c. CoinRefArg (cn_id c) (cn_version c) (cn_digest c)) others;
          tx = (if mergeSources \<noteq> [] then add_command (MergeCoins GasArg mergeSources) tx else tx);
          splitCount = laneCount - 1
      in if splitCount > 0
         then let amountPerLane = totalMist sdiv int laneCount
              in if amountPerLane \<le> 0 then Inl (Error ''cannot refresh gas lanes with zero split amount'')
                 else let k = length (tx_commands tx);
                          tx = add_command (SplitCoins GasArg (replicate splitCount (U64Arg (Num (of_int amountPerLane))))) tx
                      in Inr (add_command (TransferObjects (map (NestedArg k) [0..<splitCount]) (AddrArg address)) tx)
         else Inr tx)"

datatype submit_reply = SubmitThrows js_error | SubmitStatus string bool "js_error option"

fun submit_ok :: "submit_reply \<Rightarrow> unit res" where
  "submit_ok (SubmitThrows e) = Inl e"
| "submit_ok (SubmitStatus status ok waited) =
     (if \<not> ok then Inl (Error (''gas lane refresh failed: '' @ status))
      else case waited of Some e \<Rightarrow> Inl e | None \<Rightarrow> Inr ())"

definition set_lane_coin :: "Lane \<Rightarrow> CoinStruct \<Rightarrow> Lane" where
  "set_lane_coin l c = l\<lparr>ln_gasCoinId := cn_id c, ln_gasCoinVersion := cn_version c, ln_gasCoinDigest := cn_digest c\<rparr>"

definition selectedCoins :: "Config \<Rightarrow> Lane list option \<Rightarrow> CoinStruct list \<Rightarrow> CoinStruct option list" where
  "selectedCoins config lanes coins =
     (case lanes of
        Some ls \<Rightarrow> map (\<lambda>lane. find (\<lambda>coin. cn_id coin = ln_gasCoinId lane) coins) ls
      | None \<Rightarrow> map Some (take (cf_laneCount config) (sortCoinsByBalanceDesc coins)))"

definition needsRefresh :: "Config \<Rightarrow> Lane list option \<Rightarrow> CoinStruct list \<Rightarrow> int \<Rightarrow> bool" where
  "needsRefresh config lanes coins effectiveMinMist =
     (length coins < cf_laneCount config \<or> length (selectedCoins config lanes coins) < cf_laneCount config
      \<or> list_ex (\<lambda>c. case c of None \<Rightarrow> True | Some coin \<Rightarrow> cn_balance coin < effectiveMinMist) (selectedCoins config lanes coins))"

text \<open>The whole function: the coins before, the reply of the submission and the coins after it. The result
  has the lanes, whether a transaction was sent, and the transaction.\<close>

definition refreshGasLanesIfNeeded ::
  "string \<Rightarrow> Config \<Rightarrow> Lane list option \<Rightarrow> CoinStruct list res \<Rightarrow> submit_reply \<Rightarrow> CoinStruct list res
   \<Rightarrow> (Lane list option \<times> Transaction option) res" where
  "refreshGasLanesIfNeeded address config lanes coins0 reply coins1 =
     (if lanes \<noteq> None \<and> length (the lanes) \<noteq> cf_laneCount config
      then Inl (Error (''expected '' @ nat_toString (cf_laneCount config) @ '' gas lanes, found '' @ nat_toString (length (the lanes))))
      else if lanes \<noteq> None \<and> list_ex (\<lambda>l. \<not> ln_available l) (the lanes)
      then Inl (Error ''cannot refresh gas lanes while any lane is active'')
      else bindE coins0 (\<lambda>coins.
        let sortedCoins = sortCoinsByBalanceDesc coins; totalMist = sumCoinBalances coins in
        bindE (suiToMist (cf_gasLaneMinSui config)) (\<lambda>minMist.
        if cf_laneCount config = 0 then Inl RangeError
        else let effectiveMinMist = minBigInt minMist (totalMist sdiv int (cf_laneCount config)) in
        if \<not> needsRefresh config lanes coins effectiveMinMist then Inr (lanes, None)
        else case sortedCoins of
            [] \<Rightarrow> Inl (Error ''cannot refresh gas lanes without a SUI gas coin'')
          | primary # others \<Rightarrow>
              bindE (refresh_tx address (cf_laneCount config) primary others totalMist) (\<lambda>tx.
              bindE (submit_ok reply) (\<lambda>_.
              bindE coins1 (\<lambda>after.
                let refreshed = take (cf_laneCount config) (sortCoinsByBalanceDesc after) in
                if length refreshed < cf_laneCount config
                then Inl (Error (''gas lane refresh produced '' @ nat_toString (length refreshed) @ '' SUI coins, need ''
                       @ nat_toString (cf_laneCount config)))
                else Inr (map_option (\<lambda>ls. map2 set_lane_coin ls refreshed) lanes, Some tx)))))))"

section \<open>Start\<close>

definition createCaps_tx :: "string \<Rightarrow> Config \<Rightarrow> nat \<Rightarrow> Transaction" where
  "createCaps_tx signerAddr config count =
     fold (\<lambda>i tx.
       let cap = next_result tx;
           tx = add_command (MoveCall (cf_predictPackageId config @ ''::registry::create_oracle_cap'') [ObjArg (cf_adminCapId config)]) tx
       in add_command (TransferObjects [cap] (AddrArg signerAddr)) tx) [0..<count] new_Transaction"

record object_change =
  oc_type :: string
  oc_objectType :: string
  oc_objectId :: string

definition createCaps :: "Config \<Rightarrow> object_change list res \<Rightarrow> string list res" where
  "createCaps config changes =
     bindE changes (\<lambda>cs.
       let capType = cf_predictPackageId config @ ''::oracle::OracleSVICap''
       in Inr (map oc_objectId (filter (\<lambda>c. oc_type c = ''created'' \<and> oc_objectType c = capType) cs)))"

text \<open>\<open>caps[i]\<close> beyond the end is \<open>undefined\<close>: \<open>None\<close>.\<close>

definition lane_of_coin :: "string list \<Rightarrow> nat \<Rightarrow> CoinStruct \<Rightarrow> nat \<times> CoinStruct \<times> string option" where
  "lane_of_coin caps i coin = (i, coin, if i < length caps then Some (caps ! i) else None)"

text \<open>The amounts in the message of the underfunding error are left out.\<close>

definition ensureCapsAndCoins ::
  "string \<Rightarrow> Config \<Rightarrow> string option res \<Rightarrow> string list res \<Rightarrow> object_change list res \<Rightarrow> CoinStruct list res
   \<Rightarrow> CoinStruct list res \<Rightarrow> submit_reply \<Rightarrow> CoinStruct list res \<Rightarrow> CoinStruct list res
   \<Rightarrow> (string list \<times> (nat \<times> CoinStruct \<times> string option) list) res" where
  "ensureCapsAndCoins address config owner owned changes coins0 coins1 reply coins2 coins3 =
     bindE owner (\<lambda>own. bindE (assertSignerOwnsAdminCap address (cf_adminCapId config) own) (\<lambda>_.
     bindE owned (\<lambda>caps0.
     bindE (if length caps0 < cf_laneCount config
            then bindE (createCaps config changes) (\<lambda>new. Inr (caps0 @ new)) else Inr caps0) (\<lambda>caps1.
     let caps = take (cf_laneCount config) caps1 in
     bindE coins0 (\<lambda>coins.
     if round_double (of_int (to_double (sumCoinBalances coins)) / of_int SUI_TO_MIST) < of_int (cf_gasPoolFloorSui config)
     then Inl (Error ''Gas pool underfunded'')
     else bindE (refreshGasLanesIfNeeded address config None coins1 reply coins2) (\<lambda>_.
     bindE coins3 (\<lambda>coins.
       let chosen = take (cf_laneCount config) (sortCoinsByBalanceDesc coins)
       in Inr (caps, map2 (lane_of_coin caps) [0..<length chosen] chosen))))))))"

section \<open>Paging\<close>

text \<open>A reply ends a paged read when it throws or names no further page.\<close>

definition page_ends :: "'a data_page res \<Rightarrow> bool" where
  "page_ends r = (case r of Inl _ \<Rightarrow> True | Inr p \<Rightarrow> \<not> dp_hasNextPage p \<or> dp_nextCursor p = None \<or> dp_nextCursor p = Some [])"

lemma all_pages_step:
  "all_pages (r # rs) acc =
    (case r of Inl e \<Rightarrow> Some (Inl e)
     | Inr p \<Rightarrow> if page_ends (Inr p :: 'a data_page res) then Some (Inr (acc @ dp_data p)) else all_pages rs (acc @ dp_data p))"
  for r :: "'a data_page res"
  by (cases r) (auto simp: page_ends_def Let_def)

lemma all_pages_returns: "(\<exists>v. all_pages rs acc = Some v) \<longleftrightarrow> (\<exists>r \<in> set rs. page_ends r)"
proof (induction rs arbitrary: acc)
  case (Cons r rs)
  then show ?case by (cases r) (auto simp: all_pages_step page_ends_def simp del: all_pages.simps)
qed simp

lemma all_pages_value:
  assumes "\<forall>q \<in> set ps. \<not> page_ends (Inr q)" "page_ends (Inr p)"
  shows "all_pages (map Inr ps @ Inr p # rest) acc = Some (Inr (acc @ concat (map dp_data (ps @ [p]))))"
  using assms by (induction ps arbitrary: acc) (simp_all add: all_pages_step del: all_pages.simps)

lemma compacted_pages_returns:
  "(\<exists>v. compacted_pages rs ids = Some v) \<longleftrightarrow>
     (\<exists>r \<in> set rs. r = None \<or> (\<exists>p. r = Some p \<and> (\<not> fp_hasNextPage p \<or> fp_nextCursor p = None \<or> fp_nextCursor p = Some [])))"
proof (induction rs arbitrary: ids)
  case (Cons r rs)
  then show ?case by (cases r) (auto simp: Let_def)
qed simp

text \<open>The paged reads end: each returns exactly when some reply throws or names no further page (so a node
  that always names another page is the only way to hang), the coins returned are those of all pages up
  to the last in order, and the same holds for the table of compacted oracles.\<close>

theorem paged_reads_return:
  "((\<exists>v. getAllSuiCoins rs = Some v) \<longleftrightarrow> (\<exists>r \<in> set rs. page_ends r))
   \<and> ((\<exists>v. getOwnedCaps cs = Some v) \<longleftrightarrow> (\<exists>r \<in> set cs. page_ends r))
   \<and> ((\<forall>q \<in> set ps. \<not> page_ends (Inr q)) \<and> page_ends (Inr p)
       \<longrightarrow> getAllSuiCoins (map Inr ps @ Inr p # rest) = Some (Inr (concat (map dp_data (ps @ [p])))))
   \<and> (pd_dataType content = ''moveObject'' \<and> pd_settledTableId content \<noteq> None \<longrightarrow>
       ((\<exists>v. fetchCompactedOracleIds (Some (Some content)) fs = Some v) \<longleftrightarrow>
        (\<exists>r \<in> set fs. r = None \<or> (\<exists>f. r = Some f \<and> (\<not> fp_hasNextPage f \<or> fp_nextCursor f = None \<or> fp_nextCursor f = Some [])))))"
proof (intro conjI impI, goal_cases)
  case 1
  show ?case unfolding getAllSuiCoins_def by (rule all_pages_returns)
next
  case 2
  show ?case using all_pages_returns [of cs "[]"] by (simp add: getOwnedCaps_def)
next
  case 3
  then show ?case using all_pages_value [of ps p rest "[]"] by (simp add: getAllSuiCoins_def)
next
  case 4
  then have "fetchCompactedOracleIds (Some (Some content)) fs = compacted_pages fs []" by (auto simp: fetchCompactedOracleIds_def)
  then show ?case by (simp only: compacted_pages_returns)
qed

theorem paged_reads_return_witness:
  "getAllSuiCoins [Inr \<lparr>dp_data = [\<lparr>cn_id = ''a'', cn_version = ''1'', cn_digest = ''d'', cn_balance = 5\<rparr>], dp_hasNextPage = True, dp_nextCursor = Some ''n''\<rparr>,
      Inr \<lparr>dp_data = [\<lparr>cn_id = ''b'', cn_version = ''1'', cn_digest = ''d'', cn_balance = 7\<rparr>], dp_hasNextPage = False, dp_nextCursor = None\<rparr>]
   = Some (Inr [\<lparr>cn_id = ''a'', cn_version = ''1'', cn_digest = ''d'', cn_balance = 5\<rparr>, \<lparr>cn_id = ''b'', cn_version = ''1'', cn_digest = ''d'', cn_balance = 7\<rparr>])
   \<and> (\<exists>v. fetchCompactedOracleIds (Some (Some \<lparr>pd_dataType = ''moveObject'', pd_settledTableId = Some ''t''\<rparr>)) [None] = Some v)"
  using paged_reads_return [of "[]" "[]"
      "[\<lparr>dp_data = [\<lparr>cn_id = ''a'', cn_version = ''1'', cn_digest = ''d'', cn_balance = 5\<rparr>], dp_hasNextPage = True, dp_nextCursor = Some ''n''\<rparr>]"
      "\<lparr>dp_data = [\<lparr>cn_id = ''b'', cn_version = ''1'', cn_digest = ''d'', cn_balance = 7\<rparr>], dp_hasNextPage = False, dp_nextCursor = None\<rparr>"
      "[]" "\<lparr>pd_dataType = ''moveObject'', pd_settledTableId = Some ''t''\<rparr>" "[None]"]
  by (simp add: page_ends_def)

section \<open>Refresh\<close>

lemma sumCoinBalances_sum_list: "sumCoinBalances coins = sum_list (map cn_balance coins)"
proof -
  have "fold (\<lambda>coin s. s + cn_balance coin) cs a = a + sum_list (map cn_balance cs)" for cs :: "CoinStruct list" and a :: int
    by (induction cs arbitrary: a) auto
  then show ?thesis by (simp add: sumCoinBalances_def)
qed

text \<open>What the split takes out of the merged coin.\<close>

definition split_total :: "Transaction \<Rightarrow> rat" where
  "split_total tx = sum_list (concat (map (\<lambda>c. case c of SplitCoins g as \<Rightarrow> map (\<lambda>a. case a of U64Arg (Num x) \<Rightarrow> x | _ \<Rightarrow> 0) as | _ \<Rightarrow> []) (tx_commands tx)))"

lemma map_lane_coin:
  assumes "length ls = length cs"
  shows "map ln_gasCoinId (map2 set_lane_coin ls cs) = map cn_id cs" "map ln_capId (map2 set_lane_coin ls cs) = map ln_capId ls"
    "map ln_id (map2 set_lane_coin ls cs) = map ln_id ls" "map ln_available (map2 set_lane_coin ls cs) = map ln_available ls"
  using assms by (induction ls cs rule: list_induct2) (simp_all add: set_lane_coin_def)

lemma refresh_tx_shape:
  assumes "refresh_tx address n primary others mist = Inr tx" "1 \<le> n" "0 \<le> mist"
  shows "tx_gasPayment tx = [coinRef primary]"
    "split_total tx = of_int (int (n - 1) * (mist div int n))"
    "1 < n \<Longrightarrow> 0 < mist div int n"
proof -
  have e: "sum_list (replicate k (x :: rat)) = of_nat k * x" for k x by (simp add: sum_list_replicate)
  have d: "mist sdiv int n = mist div int n" using assms(2,3) by (simp add: sdiv_nonneg)
  show "tx_gasPayment tx = [coinRef primary]"
    using assms(1) by (auto simp: refresh_tx_def Let_def add_command_def split: if_splits)
  show "1 < n \<Longrightarrow> 0 < mist div int n"
    using assms(1) by (auto simp: refresh_tx_def Let_def d split: if_splits)
  show "split_total tx = of_int (int (n - 1) * (mist div int n))"
    using assms(1,2) by (auto simp: refresh_tx_def Let_def add_command_def new_Transaction_def split_total_def d e split: if_splits)
qed

text \<open>Its commands: the other coins are merged, equal parts split off, and each part transferred.\<close>

definition refresh_commands :: "string \<Rightarrow> nat \<Rightarrow> CoinStruct list \<Rightarrow> int \<Rightarrow> command list" where
  "refresh_commands address parts others part =
     (if others = [] then [] else [MergeCoins GasArg (map (\<lambda>c. CoinRefArg (cn_id c) (cn_version c) (cn_digest c)) others)])
     @ (if parts = 0 then []
        else [SplitCoins GasArg (replicate parts (U64Arg (Num (of_int part)))),
              TransferObjects (map (NestedArg (if others = [] then 0 else 1)) [0..<parts]) (AddrArg address)])"

lemma refresh_tx_commands:
  assumes "refresh_tx address n primary others mist = Inr tx" "1 \<le> n" "0 \<le> mist"
  shows "tx_commands tx = refresh_commands address (n - 1) others (mist div int n)"
  using assms by (auto simp: refresh_tx_def refresh_commands_def Let_def add_command_def new_Transaction_def sdiv_nonneg split: if_splits)

lemma equal_split_fits:
  fixes mist :: int
  assumes "1 \<le> n" "0 \<le> mist"
  shows "int (n - 1) * (mist div int n) + mist div int n \<le> mist"
proof -
  have "int (n - 1) * (mist div int n) + mist div int n = int n * (mist div int n)"
    using assms by (simp add: algebra_simps of_nat_diff)
  then show ?thesis using assms by (metis mult_div_mod_eq le_add_same_cancel1 of_nat_0_le_iff pos_mod_sign of_nat_0_less_iff less_le_trans zero_less_one)
qed

lemma refresh_cases:
  assumes "refreshGasLanesIfNeeded address config (Some ls) (Inr coins) reply coins1 = Inr (lanes', sent)"
  obtains minMist where "length ls = cf_laneCount config" "\<forall>l \<in> set ls. ln_available l" "0 < cf_laneCount config"
    "suiToMist (cf_gasLaneMinSui config) = Inr minMist"
    "\<not> needsRefresh config (Some ls) coins (minBigInt minMist (sumCoinBalances coins sdiv int (cf_laneCount config)))"
    "lanes' = Some ls" "sent = None"
  | after tx primary others where "length ls = cf_laneCount config" "\<forall>l \<in> set ls. ln_available l" "0 < cf_laneCount config"
    "coins1 = Inr after" "sortCoinsByBalanceDesc coins = primary # others"
    "refresh_tx address (cf_laneCount config) primary others (sumCoinBalances coins) = Inr tx"
    "cf_laneCount config \<le> length after" "sent = Some tx"
    "lanes' = Some (map2 set_lane_coin ls (take (cf_laneCount config) (sortCoinsByBalanceDesc after)))"
  using assms
  by (auto simp: refreshGasLanesIfNeeded_def Let_def bindE_eq_Inr list_ex_iff sortCoinsByBalanceDesc_def
      split: if_splits list.splits)

lemma noop_funded:
  assumes "\<not> needsRefresh config (Some ls) coins m" "l \<in> set ls"
  shows "\<exists>c \<in> set coins. cn_id c = ln_gasCoinId l \<and> m \<le> cn_balance c"
proof -
  obtain c where "find (\<lambda>coin. cn_id coin = ln_gasCoinId l) coins = Some c" "m \<le> cn_balance c"
    using assms by (fastforce simp: needsRefresh_def selectedCoins_def list_ex_iff split: option.splits)
  then show ?thesis by (auto simp: find_Some_iff)
qed

lemma sorted_coins_distinct:
  "distinct (map cn_id cs) \<Longrightarrow> distinct (map cn_id (take n (sortCoinsByBalanceDesc cs)))"
proof -
  assume "distinct (map cn_id cs)"
  then have "distinct (map cn_id (sortCoinsByBalanceDesc cs))"
    by (simp add: distinct_map sortCoinsByBalanceDesc_def)
  then show ?thesis by (simp add: take_map [symmetric])
qed

text \<open>C34. A gas refresh between pushes: it runs only with the configured number of lanes, all idle, and never
  changes a lane's number, capability or availability. When nothing is sent the lanes are unchanged and
  every lane's own coin holds the effective minimum. Otherwise one transaction pays with the largest
  coin, merges all others into it, splits off one part for every other lane, all equal and positive, which leave at least
  such a part, and transfers each part to the signer; the lanes then carry the largest coins read back, pairwise distinct when the node reports distinct coins.\<close>

theorem gas_refresh_outcomes:
  assumes "refreshGasLanesIfNeeded address config (Some ls) (Inr coins) reply coins1 = Inr (lanes', sent)"
    and "\<forall>c \<in> set coins. 0 \<le> cn_balance c"
  shows "\<exists>ls'. lanes' = Some ls' \<and> length ls = cf_laneCount config \<and> (\<forall>l \<in> set ls. ln_available l)
    \<and> map ln_id ls' = map ln_id ls \<and> map ln_capId ls' = map ln_capId ls \<and> map ln_available ls' = map ln_available ls
    \<and> (case sent of
         None \<Rightarrow> ls' = ls \<and> (\<exists>minMist. suiToMist (cf_gasLaneMinSui config) = Inr minMist \<and>
           (\<forall>l \<in> set ls. \<exists>c \<in> set coins. cn_id c = ln_gasCoinId l
              \<and> min minMist (sum_list (map cn_balance coins) div int (length ls)) \<le> cn_balance c))
       | Some tx \<Rightarrow> (\<exists>after. coins1 = Inr after
           \<and> map ln_gasCoinId ls' = map cn_id (take (length ls) (sortCoinsByBalanceDesc after))
           \<and> (distinct (map cn_id after) \<longrightarrow> distinct (map ln_gasCoinId ls')))
           \<and> (\<exists>p others part. set coins = set (p # others) \<and> length coins = Suc (length others)
              \<and> tx_gasPayment tx = [coinRef p] \<and> (\<forall>c \<in> set coins. cn_balance c \<le> cn_balance p)
              \<and> part = sum_list (map cn_balance coins) div int (length ls) \<and> (1 < length ls \<longrightarrow> 0 < part)
              \<and> tx_commands tx = refresh_commands address (length ls - 1) others part)
           \<and> split_total tx + of_int (sum_list (map cn_balance coins) div int (length ls)) \<le> of_int (sum_list (map cn_balance coins)))"
proof -
  have nn: "0 \<le> sumCoinBalances coins" unfolding sumCoinBalances_sum_list using assms(2) by (intro sum_list_nonneg) auto
  from assms(1) show ?thesis
  proof (cases rule: refresh_cases)
    case (1 minMist)
    have "minBigInt minMist (sumCoinBalances coins sdiv int (cf_laneCount config))
        = min minMist (sum_list (map cn_balance coins) div int (length ls))"
      using nn 1(1,3) by (simp add: minBigInt_def min_def sdiv_nonneg sumCoinBalances_sum_list)
    with 1 show ?thesis using noop_funded [OF 1(5)] by auto
  next
    case (2 after tx primary others)
    let ?cs = "take (cf_laneCount config) (sortCoinsByBalanceDesc after)"
    have len: "length ls = length ?cs" using 2(1,7) by (simp add: sortCoinsByBalanceDesc_def)
    have s: "set coins = set (primary # others)" "sorted (map coin_key (primary # others))"
      using 2(5) by (metis set_sort sortCoinsByBalanceDesc_def, metis sorted_sort_key sortCoinsByBalanceDesc_def)
    have "cn_balance c \<le> cn_balance primary" if "c \<in> set coins" for c
      using that s by (auto simp: coin_key_def less_eq_prod_def)
    moreover have "length coins = Suc (length others)" using 2(5) by (metis length_Cons length_sort sortCoinsByBalanceDesc_def)
    moreover have "tx_commands tx = refresh_commands address (length ls - 1) others (sum_list (map cn_balance coins) div int (length ls))"
      using refresh_tx_commands [OF 2(6)] nn 2(1,3) by (simp add: sumCoinBalances_sum_list)
    moreover have "1 < length ls \<longrightarrow> 0 < sum_list (map cn_balance coins) div int (length ls)"
      using refresh_tx_shape(3) [OF 2(6)] nn 2(1,3) by (simp add: sumCoinBalances_sum_list)
    ultimately have p: "\<exists>p others part. set coins = set (p # others) \<and> length coins = Suc (length others)
        \<and> tx_gasPayment tx = [coinRef p] \<and> (\<forall>c \<in> set coins. cn_balance c \<le> cn_balance p)
        \<and> part = sum_list (map cn_balance coins) div int (length ls) \<and> (1 < length ls \<longrightarrow> 0 < part)
        \<and> tx_commands tx = refresh_commands address (length ls - 1) others part"
      using refresh_tx_shape(1) [OF 2(6)] nn 2(3) s(1)
      by (intro exI [of _ primary] exI [of _ others] exI [of _ "sum_list (map cn_balance coins) div int (length ls)"]) simp
    have "split_total tx + of_int (sumCoinBalances coins div int (length ls)) \<le> of_int (sumCoinBalances coins)"
      using refresh_tx_shape(2) [OF 2(6)] equal_split_fits [of "cf_laneCount config" "sumCoinBalances coins"] nn 2(1,3)
      by (simp only: of_int_add [symmetric] of_int_le_iff Suc_le_eq One_nat_def)
    with p show ?thesis
      using 2 map_lane_coin [OF len] sorted_coins_distinct [of after "cf_laneCount config"]
      by (simp add: sumCoinBalances_sum_list)
  qed
qed

definition demo_coin :: "string \<Rightarrow> int \<Rightarrow> CoinStruct" where
  "demo_coin i b = \<lparr>cn_id = i, cn_version = ''1'', cn_digest = ''d'', cn_balance = b\<rparr>"

definition demo_lane :: "nat \<Rightarrow> string \<Rightarrow> string \<Rightarrow> Lane" where
  "demo_lane i coin cap =
     \<lparr>ln_id = i, ln_gasCoinId = coin, ln_gasCoinVersion = ''1'', ln_gasCoinDigest = ''d'', ln_capId = cap, ln_available = True\<rparr>"

theorem gas_refresh_outcomes_witness:
  "\<exists>ls' tx. refreshGasLanesIfNeeded ''0x9'' (demo_config\<lparr>cf_gasLaneMinSui := 0\<rparr>) (Some [demo_lane 0 ''a'' ''c0'', demo_lane 1 ''b'' ''c1''])
       (Inr [demo_coin ''a'' 10]) (SubmitStatus ''success'' True None) (Inr [demo_coin ''b'' 4, demo_coin ''a'' 5])
     = Inr (Some ls', Some tx) \<and> map ln_gasCoinId ls' = [''a'', ''b''] \<and> map ln_capId ls' = [''c0'', ''c1''] \<and> split_total tx + 5 \<le> 10"
proof -
  let ?ls = "[demo_lane 0 ''a'' ''c0'', demo_lane 1 ''b'' ''c1'']" and ?cs = "[demo_coin ''a'' 10]"
    and ?after = "[demo_coin ''b'' 4, demo_coin ''a'' 5]"
  let ?r = "refreshGasLanesIfNeeded ''0x9'' (demo_config\<lparr>cf_gasLaneMinSui := 0\<rparr>) (Some ?ls) (Inr ?cs) (SubmitStatus ''success'' True None) (Inr ?after)"
  have "case ?r of Inr (_, Some _) \<Rightarrow> True | _ \<Rightarrow> False" by code_simp
  then obtain l tx where r: "?r = Inr (l, Some tx)" by (auto split: sum.splits prod.splits option.splits)
  have "\<forall>c \<in> set ?cs. 0 \<le> cn_balance c" "sum_list (map cn_balance ?cs) div int (length ?ls) = 5" "sum_list (map cn_balance ?cs) = 10"
    "map cn_id (take (length ?ls) (sortCoinsByBalanceDesc ?after)) = [''a'', ''b'']" "map ln_capId ?ls = [''c0'', ''c1'']" by code_simp+
  with gas_refresh_outcomes [OF r] show ?thesis using r by auto
qed

end
