(* ===== verification/OracleExecutor.thy ===== *)
theory OracleExecutor
  imports OracleSubscriber OracleBootstrap JsArith
begin

text \<open>
  \<open>oracle-feed/executor.ts\<close>: the push tick and the manager window. A call that awaits the network is cut
  at the await: the part before it returns the transaction, the part after it takes the outcome. Lanes
  are named by their index. The theory proves which oracles a tick updates, that a pushed sample is not
  pushed again, and what the reconciliation and the steps of the manager leave in the state.
\<close>

section \<open>Lane transactions\<close>

record tx_response =
  rs_digest :: string
  rs_success :: bool
  rs_mutated :: "(string \<times> string \<times> string) list"
  rs_events :: "(string \<times> json_record) list"

text \<open>The outcomes of the awaits of \<open>executeLaneTx\<close>: a thrown error is its text; the refreshed reference may
  lack a version or a digest.\<close>

datatype sign_reply = SignThrows string | SignResp tx_response

record lane_io =
  io_sign :: sign_reply
  io_wait :: "string option"
  io_refresh :: "(string option \<times> string option) option"

definition newLaneTx :: "string \<Rightarrow> Lane \<Rightarrow> Transaction" where
  "newLaneTx address lane =
     new_Transaction\<lparr>tx_sender := Some address, tx_gasPayment := [(ln_gasCoinId lane, ln_gasCoinVersion lane, ln_gasCoinDigest lane)]\<rparr>"

definition isStaleLaneGasRefError :: "string \<Rightarrow> Lane \<Rightarrow> bool" where
  "isStaleLaneGasRefError message lane =
     (str_includes ''Transaction needs to be rebuilt because object'' message \<and> str_includes (ln_gasCoinId lane) message
      \<and> str_includes ''current version:'' message)"

definition refreshLaneGasRef :: "(string option \<times> string option) option \<Rightarrow> Lane \<Rightarrow> Lane res" where
  "refreshLaneGasRef reply lane =
     (case reply of
        Some (Some version, Some digest) \<Rightarrow>
          if version = [] \<or> digest = [] then Inl (Error (''failed to refresh gas coin ref for lane '' @ nat_toString (ln_id lane)))
          else Inr (lane\<lparr>ln_gasCoinVersion := version, ln_gasCoinDigest := digest\<rparr>)
      | _ \<Rightarrow> Inl (Error (''failed to refresh gas coin ref for lane '' @ nat_toString (ln_id lane))))"

text \<open>The \<open>catch\<close> block: the reference is read again on a stale reference; its failure is logged only.\<close>

definition lane_catch :: "string \<Rightarrow> lane_io \<Rightarrow> Lane \<Rightarrow> Lane" where
  "lane_catch message io lane =
     (if isStaleLaneGasRefError message lane
      then case refreshLaneGasRef (io_refresh io) lane of Inl _ \<Rightarrow> lane | Inr l \<Rightarrow> l
      else lane)"

definition adopt_gas_ref :: "tx_response \<Rightarrow> Lane \<Rightarrow> Lane" where
  "adopt_gas_ref resp lane =
     (case find (\<lambda>(i, v, d). i = ln_gasCoinId lane) (rs_mutated resp) of
        None \<Rightarrow> lane
      | Some (i, v, d) \<Rightarrow> lane\<lparr>ln_gasCoinVersion := v, ln_gasCoinDigest := d\<rparr>)"

text \<open>\<open>executeLaneTx\<close>: the first statement takes the lane, \<open>executeLaneTx_end\<close> is the rest with its \<open>finally\<close>.\<close>

definition take_lane :: "nat \<Rightarrow> ServiceState \<Rightarrow> ServiceState" where
  "take_lane i st = st\<lparr>st_lanes := (st_lanes st)[i := (st_lanes st ! i)\<lparr>ln_available := False\<rparr>]\<rparr>"

definition executeLaneTx_end :: "lane_io \<Rightarrow> Lane \<Rightarrow> Lane \<times> tx_response option" where
  "executeLaneTx_end io lane =
     (case io_sign io of
        SignThrows message \<Rightarrow> ((lane_catch message io lane)\<lparr>ln_available := True\<rparr>, None)
      | SignResp resp \<Rightarrow>
          if \<not> rs_success resp then (lane\<lparr>ln_available := True\<rparr>, None)
          else case io_wait io of
              Some message \<Rightarrow> ((lane_catch message io lane)\<lparr>ln_available := True\<rparr>, None)
            | None \<Rightarrow> ((adopt_gas_ref resp lane)\<lparr>ln_available := True\<rparr>, Some resp))"

definition release_lane :: "nat \<Rightarrow> lane_io \<Rightarrow> ServiceState \<Rightarrow> ServiceState \<times> tx_response option" where
  "release_lane i io st =
     (let (lane, resp) = executeLaneTx_end io (st_lanes st ! i) in (st\<lparr>st_lanes := (st_lanes st)[i := lane]\<rparr>, resp))"

definition nextAvailableLane :: "ServiceState \<Rightarrow> (nat \<times> ServiceState) option" where
  "nextAvailableLane st =
     (let n = length (st_lanes st) in
      case find (\<lambda>i. ln_available (st_lanes st ! ((st_laneHint st + i) mod n))) [0..<n] of
        None \<Rightarrow> None
      | Some i \<Rightarrow> let idx = (st_laneHint st + i) mod n in Some (idx, st\<lparr>st_laneHint := (idx + 1) mod n\<rparr>))"

text \<open>A comparison with \<open>NaN\<close> is false.\<close>

definition hasFreshPriceSample :: "PriceSample option \<Rightarrow> int \<Rightarrow> int \<Rightarrow> bool" where
  "hasFreshPriceSample sample now staleAfterMs =
     (case sample of None \<Rightarrow> False
      | Some s \<Rightarrow> (case ps_receivedAtMs s of None \<Rightarrow> False | Some t \<Rightarrow> now - t \<le> staleAfterMs))"

definition is_stale :: "PriceSample \<Rightarrow> int \<Rightarrow> int \<Rightarrow> bool" where
  "is_stale s now staleAfterMs = (case ps_receivedAtMs s of None \<Rightarrow> False | Some t \<Rightarrow> now - t > staleAfterMs)"

section \<open>Push tick\<close>

definition sample_due :: "SVISample \<Rightarrow> bool" where
  "sample_due svi =
     (case sv_lastPushedAtMs svi of None \<Rightarrow> True
      | Some pushed \<Rightarrow> (case (sv_receivedAtMs svi, pushed) of (Some r, Some p) \<Rightarrow> r > p | _ \<Rightarrow> False))"

record tick_acc =
  ta_tx :: Transaction
  ta_sviPushes :: "(string \<times> stamp) list"
  ta_priceUpdates :: nat
  ta_skippedNotActive :: nat
  ta_skippedSafety :: nat
  ta_skippedNoForward :: nat
  ta_skippedStaleForward :: nat

fun foldE :: "('a \<Rightarrow> 'b \<Rightarrow> 'b res) \<Rightarrow> 'a list \<Rightarrow> 'b \<Rightarrow> 'b res" where
  "foldE f [] b = Inr b"
| "foldE f (x # xs) b = bindE (f x b) (foldE f xs)"

definition push_oracle ::
  "(js_number \<Rightarrow> tx_arg res) \<Rightarrow> Config \<Rightarrow> int \<Rightarrow> PriceSample \<Rightarrow> ServiceState \<Rightarrow> Lane \<Rightarrow> OracleState \<Rightarrow> tick_acc \<Rightarrow> tick_acc res" where
  "push_oracle u64 config now spot st lane oracle acc =
     (if os_status oracle \<noteq> active then Inr (acc\<lparr>ta_skippedNotActive := ta_skippedNotActive acc + 1\<rparr>)
      else if now \<ge> os_expiryMs oracle - cf_safetyWindowMs config then Inr (acc\<lparr>ta_skippedSafety := ta_skippedSafety acc + 1\<rparr>)
      else case map_get (pc_forwards (st_priceCache st)) (os_id oracle) of
          None \<Rightarrow> Inr (acc\<lparr>ta_skippedNoForward := ta_skippedNoForward acc + 1\<rparr>)
        | Some fwd \<Rightarrow>
            if is_stale fwd now (cf_priceCacheStaleMs config) then Inr (acc\<lparr>ta_skippedStaleForward := ta_skippedStaleForward acc + 1\<rparr>)
            else bindE (addUpdatePrices u64 (cf_predictPackageId config) (os_id oracle) (ln_capId lane)
                   (ps_value spot) (ps_value fwd) (ta_tx acc)) (\<lambda>tx.
              let acc = acc\<lparr>ta_tx := tx, ta_priceUpdates := ta_priceUpdates acc + 1\<rparr> in
              case map_get (st_sviCache st) (os_id oracle) of
                None \<Rightarrow> Inr acc
              | Some svi \<Rightarrow>
                  if sample_due svi
                  then bindE (addUpdateSvi u64 (cf_predictPackageId config) (os_id oracle) (ln_capId lane) (sv_params svi) tx) (\<lambda>tx.
                    Inr (acc\<lparr>ta_tx := tx, ta_sviPushes := ta_sviPushes acc @ [(os_id oracle, sv_receivedAtMs svi)]\<rparr>))
                  else Inr acc))"

datatype tick_outcome =
    SkippedManager
  | SkippedNoLane "nat list"
  | SkippedNoSpot nat
  | SkippedStaleSpot nat
  | TickThrows js_error
  | SkippedEmpty nat tick_acc
  | Submitting nat Transaction "(string \<times> stamp) list"

text \<open>The tick up to its await, at the time \<open>now\<close>.\<close>

definition pushTick ::
  "(js_number \<Rightarrow> tx_arg res) \<Rightarrow> Config \<Rightarrow> string \<Rightarrow> int \<Rightarrow> ServiceState \<Rightarrow> tick_outcome \<times> ServiceState" where
  "pushTick u64 config address now st =
     (if st_managerInFlight st then (SkippedManager, st)
      else case nextAvailableLane st of
          None \<Rightarrow> (SkippedNoLane (map ln_id (filter (\<lambda>l. \<not> ln_available l) (st_lanes st))), st)
        | Some (i, st1) \<Rightarrow> (let lane = st_lanes st ! i in
            case pc_spot (st_priceCache st) of
              None \<Rightarrow> (SkippedNoSpot (ln_id lane), st1)
            | Some spot \<Rightarrow>
                if \<not> hasFreshPriceSample (Some spot) now (cf_priceCacheStaleMs config) then (SkippedStaleSpot (ln_id lane), st1)
                else case foldE (push_oracle u64 config now spot st lane) (map_values (st_oracles st))
                       \<lparr>ta_tx = newLaneTx address lane, ta_sviPushes = [], ta_priceUpdates = 0, ta_skippedNotActive = 0,
                        ta_skippedSafety = 0, ta_skippedNoForward = 0, ta_skippedStaleForward = 0\<rparr> of
                    Inl e \<Rightarrow> (TickThrows e, st1)
                  | Inr acc \<Rightarrow>
                      if ta_priceUpdates acc = 0 \<and> ta_sviPushes acc = [] then (SkippedEmpty (ln_id lane) acc, st1)
                      else (Submitting i (ta_tx acc) (ta_sviPushes acc), take_lane i st1)))"

definition mark_pushed :: "string \<times> stamp \<Rightarrow> SVICache \<Rightarrow> SVICache" where
  "mark_pushed p cache =
     (case map_get cache (fst p) of None \<Rightarrow> cache | Some sample \<Rightarrow> map_set (fst p) (sample\<lparr>sv_lastPushedAtMs := Some (snd p)\<rparr>) cache)"

text \<open>The tick after its await, at the time \<open>now\<close>.\<close>

definition pushTick_done :: "nat \<Rightarrow> (string \<times> stamp) list \<Rightarrow> lane_io \<Rightarrow> int \<Rightarrow> ServiceState \<Rightarrow> ServiceState" where
  "pushTick_done i sviPushes io now st =
     (let (st1, resp) = release_lane i io st in
      if resp = None then st1
      else st1\<lparr>st_lastPushMs := now, st_sviCache := fold mark_pushed sviPushes (st_sviCache st1)\<rparr>)"

section \<open>Manager window\<close>

definition shouldRunManagerWindowNow :: "ServiceState \<Rightarrow> int \<Rightarrow> int \<Rightarrow> bool" where
  "shouldRunManagerWindowNow st now staleAfterMs =
     list_ex (\<lambda>oracle.
       (os_status oracle = inactive \<and> map_get (st_sviCache st) (os_id oracle) \<noteq> None)
       \<or> (os_status oracle = active \<and> now \<ge> os_expiryMs oracle)
       \<or> (os_status oracle = pending_settlement \<and> hasFreshPriceSample (pc_spot (st_priceCache st)) now staleAfterMs)
       \<or> os_status oracle = settled) (map_values (st_oracles st))"

definition reconcile_entry :: "string \<times> OracleState \<Rightarrow> (string, OracleState) js_Map \<Rightarrow> (string, OracleState) js_Map" where
  "reconcile_entry e m =
     (case map_get m (fst e) of
        Some existing \<Rightarrow>
          map_set (fst e) (existing\<lparr>os_status := os_status (snd e), os_registeredCapIds := os_registeredCapIds (snd e)\<rparr>) m
      | None \<Rightarrow> map_set (fst e) (snd e) m)"

definition reconcileLocalOracles :: "(string, OracleState) js_Map \<Rightarrow> ServiceState \<Rightarrow> ServiceState" where
  "reconcileLocalOracles discovered st =
     (let m1 = fold reconcile_entry discovered (st_oracles st);
          m2 = fold (\<lambda>i m. if map_get discovered i = None then map_delete i m else m) (map fst m1) m1;
          m3 = fold (\<lambda>e m. if os_status (snd e) = compacted then map_delete (fst e) m else m) m2 m2
      in st\<lparr>st_oracles := m3\<rparr>)"

fun wait_polls :: "int \<Rightarrow> (int \<times> bool) list \<Rightarrow> unit res option" where
  "wait_polls deadline [] = None"
| "wait_polls deadline ((now, idle) # polls) =
     (if \<not> now < deadline then Some (Inl (Error ''manager window timed out waiting for lanes to drain''))
      else if idle then Some (Inr ()) else wait_polls deadline polls)"

text \<open>The polling loop, on the readings of the clock and of the lanes in order; \<open>None\<close> while it still sleeps.\<close>

definition waitForAllLanesIdle :: "int \<Rightarrow> int \<Rightarrow> (int \<times> Lane list) list \<Rightarrow> unit res option" where
  "waitForAllLanesIdle start timeoutMs polls =
     wait_polls (start + timeoutMs) (map (\<lambda>(t, lanes). (t, list_all ln_available lanes)) polls)"

subsection \<open>Events\<close>

definition jtext :: "json_record \<Rightarrow> string \<Rightarrow> string" where
  "jtext p k = (case jstr (jget p k) of None \<Rightarrow> [] | Some s \<Rightarrow> s)"

record created_event =
  ce_oracleId :: string
  ce_underlyingAsset :: string
  ce_expiryMs :: stamp

record settled_event =
  se_oracleId :: string
  se_settlementPrice :: js_number
  se_timestampMs :: stamp

definition parseOracleEvents :: "(string \<times> json_record) list \<Rightarrow> string \<Rightarrow> created_event list \<times> settled_event list" where
  "parseOracleEvents events packageId =
     (map (\<lambda>(t, p). \<lparr>ce_oracleId = jtext p ''oracle_id'', ce_underlyingAsset = jtext p ''underlying_asset'',
                     ce_expiryMs = stamp_of (js_Number (jget p ''expiry''))\<rparr>)
        (filter (\<lambda>(t, p). t = packageId @ ''::registry::OracleCreated'') events),
      map (\<lambda>(t, p). \<lparr>se_oracleId = jtext p ''oracle_id'', se_settlementPrice = js_Number (jget p ''settlement_price''),
                     se_timestampMs = stamp_of (js_Number (jget p ''timestamp''))\<rparr>)
        (filter (\<lambda>(t, p). t = packageId @ ''::oracle::OracleSettled'') events))"

subsection \<open>Steps\<close>

text \<open>The window runs against a world: the outcome of its \<open>n\<close>th transaction with the feed values that arrive
  while it waits, and the \<open>n\<close>th reading of the clock. \<open>mg_sent\<close> collects what it submits.\<close>

record mgr_reply =
  mr_io :: lane_io
  mr_frames :: "ExtractedWsValue list"

record World =
  wd_reply :: "nat \<Rightarrow> mgr_reply"
  wd_clock :: "nat \<Rightarrow> int"
  wd_coins :: "CoinStruct list res"
  wd_submit :: submit_reply
  wd_coinsAfter :: "CoinStruct list res"
  wd_discovered :: "int \<Rightarrow> (string, OracleState) js_Map res"
  wd_frames :: "ExtractedWsValue list"

record Mgr =
  mg_st :: ServiceState
  mg_replies :: nat
  mg_clocks :: nat
  mg_sent :: "Transaction list"
  mg_synced :: "OracleState list option"

type_synonym mgr_result = "Mgr \<times> js_error option"

definition apply_frames :: "ExtractedWsValue list \<Rightarrow> ServiceState \<Rightarrow> ServiceState" where
  "apply_frames vs st =
     (let (pc, svi) = fold applyValue vs (st_priceCache st, st_sviCache st) in st\<lparr>st_priceCache := pc, st_sviCache := svi\<rparr>)"

definition mgr_execute :: "World \<Rightarrow> Transaction \<Rightarrow> Mgr \<Rightarrow> Mgr \<times> tx_response option" where
  "mgr_execute w tx g =
     (let r = wd_reply w (mg_replies g);
          (st, resp) = release_lane 0 (mr_io r) (apply_frames (mr_frames r) (take_lane 0 (mg_st g)))
      in (g\<lparr>mg_st := st, mg_replies := mg_replies g + 1, mg_sent := mg_sent g @ [tx]\<rparr>, resp))"

definition set_oracle :: "OracleState \<Rightarrow> Mgr \<Rightarrow> Mgr" where
  "set_oracle o' g = g\<lparr>mg_st := (mg_st g)\<lparr>st_oracles := map_set (os_id o') o' (st_oracles (mg_st g))\<rparr>\<rparr>"

definition lane0 :: "Mgr \<Rightarrow> Lane" where
  "lane0 g = st_lanes (mg_st g) ! 0"

definition createOracleStep ::
  "(js_number \<Rightarrow> tx_arg res) \<Rightarrow> Config \<Rightarrow> string \<Rightarrow> World \<Rightarrow> Tier \<Rightarrow> int \<Rightarrow> Mgr \<Rightarrow> mgr_result" where
  "createOracleStep u64 config address w tier expiryMs g =
     (case addCreateOracle u64 (cf_predictPackageId config)
         \<lparr>ca_registryId = cf_registryId config, ca_predictId = cf_predictId config, ca_adminCapId = cf_adminCapId config,
          ca_capId = ln_capId (lane0 g), ca_underlying = cf_underlying config, ca_expiryMs = expiryMs,
          ca_minStrike = cf_strikeMin config, ca_tickSize = cf_tickSize config\<rparr> (newLaneTx address (lane0 g)) of
        Inl e \<Rightarrow> (g, Some e)
      | Inr tx \<Rightarrow> (let (g, resp) = mgr_execute w tx g in
          case resp of None \<Rightarrow> (g, None)
          | Some r \<Rightarrow>
              (fold (\<lambda>e. set_oracle \<lparr>os_id = ce_oracleId e, os_underlying = ce_underlyingAsset e, os_expiryMs = expiryMs,
                  os_tier = tier, os_status = inactive, os_registeredCapIds = []\<rparr>)
                (filter (\<lambda>e. ce_expiryMs e = Some expiryMs) (fst (parseOracleEvents (rs_events r) (cf_predictPackageId config)))) g, None)))"

text \<open>The captured sample is written after the await only if it is still the object in the cache.\<close>

definition write_pushed :: "string \<Rightarrow> SVISample \<Rightarrow> SVICache \<Rightarrow> SVICache" where
  "write_pushed i svi cache =
     (case map_get cache i of
        Some cur \<Rightarrow> if sv_obj cur = sv_obj svi then map_set i (cur\<lparr>sv_lastPushedAtMs := Some (sv_receivedAtMs svi)\<rparr>) cache else cache
      | None \<Rightarrow> cache)"

definition bootstrapOracleStep ::
  "(js_number \<Rightarrow> tx_arg res) \<Rightarrow> Config \<Rightarrow> string \<Rightarrow> World \<Rightarrow> OracleState \<Rightarrow> Mgr \<Rightarrow> mgr_result" where
  "bootstrapOracleStep u64 config address w oracle g =
     (case map_get (st_sviCache (mg_st g)) (os_id oracle) of None \<Rightarrow> (g, None)
      | Some svi \<Rightarrow>
        (let missing = filter (\<lambda>c. c \<notin> set (os_registeredCapIds oracle)) (map ln_capId (st_lanes (mg_st g)));
             tx = fold (\<lambda>cap. addRegisterCap (cf_predictPackageId config) (os_id oracle) (cf_adminCapId config) cap) missing
                    (newLaneTx address (lane0 g));
             tx = addActivate (cf_predictPackageId config) (os_id oracle) (ln_capId (lane0 g)) tx
         in case addUpdateSvi u64 (cf_predictPackageId config) (os_id oracle) (ln_capId (lane0 g)) (sv_params svi) tx of
              Inl e \<Rightarrow> (g, Some e)
            | Inr tx \<Rightarrow> (let (g, resp) = mgr_execute w tx g in
                case resp of None \<Rightarrow> (g, None)
                | Some r \<Rightarrow>
                   (let g = set_oracle (oracle\<lparr>os_registeredCapIds := fold set_add (map ln_capId (st_lanes (mg_st g))) (os_registeredCapIds oracle),
                              os_status := active\<rparr>) g
                    in (g\<lparr>mg_st := (mg_st g)\<lparr>st_sviCache := write_pushed (os_id oracle) svi (st_sviCache (mg_st g))\<rparr>\<rparr>, None)))))"

definition settleOracleStep ::
  "(js_number \<Rightarrow> tx_arg res) \<Rightarrow> Config \<Rightarrow> string \<Rightarrow> World \<Rightarrow> OracleState \<Rightarrow> Mgr \<Rightarrow> mgr_result" where
  "settleOracleStep u64 config address w oracle g0 =
     (let now = wd_clock w (mg_clocks g0); g = g0\<lparr>mg_clocks := mg_clocks g0 + 1\<rparr>; pc = st_priceCache (mg_st g) in
      case pc_spot pc of None \<Rightarrow> (g, None)
      | Some spot \<Rightarrow>
        if \<not> hasFreshPriceSample (Some spot) now (cf_priceCacheStaleMs config) then (g, None)
        else
          let forwardValue = (case map_get (pc_forwards pc) (os_id oracle) of Some fwd \<Rightarrow> ps_value fwd | None \<Rightarrow> ps_value spot);
              capId = ln_capId (lane0 g); needsRegister = (capId \<notin> set (os_registeredCapIds oracle));
              tx = newLaneTx address (lane0 g);
              tx = (if needsRegister then addRegisterCap (cf_predictPackageId config) (os_id oracle) (cf_adminCapId config) capId tx else tx)
          in case addSettleNudge u64 (cf_predictPackageId config) (os_id oracle) capId (ps_value spot) forwardValue tx of
               Inl e \<Rightarrow> (g, Some e)
             | Inr tx \<Rightarrow> (let (g, resp) = mgr_execute w tx g in
                 case resp of None \<Rightarrow> (g, None)
                 | Some r \<Rightarrow>
                    (let oracle = (if needsRegister then oracle\<lparr>os_registeredCapIds := set_add capId (os_registeredCapIds oracle)\<rparr> else oracle);
                         hit = list_ex (\<lambda>e. se_oracleId e = os_id oracle) (snd (parseOracleEvents (rs_events r) (cf_predictPackageId config)))
                     in (set_oracle (if hit then oracle\<lparr>os_status := settled\<rparr> else oracle) g, None))))"

definition compactOracleStep :: "Config \<Rightarrow> string \<Rightarrow> World \<Rightarrow> OracleState \<Rightarrow> Mgr \<Rightarrow> mgr_result" where
  "compactOracleStep config address w oracle g =
     (let capId = ln_capId (lane0 g); tx = newLaneTx address (lane0 g);
          tx = (if capId \<notin> set (os_registeredCapIds oracle)
                then addRegisterCap (cf_predictPackageId config) (os_id oracle) (cf_adminCapId config) capId tx else tx);
          tx = addCompact (cf_predictPackageId config) (cf_predictId config) (os_id oracle) capId tx;
          (g, resp) = mgr_execute w tx g
      in case resp of None \<Rightarrow> (g, None)
         | Some r \<Rightarrow> (g\<lparr>mg_st := (mg_st g)\<lparr>st_oracles := map_delete (os_id oracle) (st_oracles (mg_st g))\<rparr>\<rparr>, None))"

text \<open>A loop of the window stops at the first exception. The three loops over \<open>[...state.oracles.values()]\<close> see
  the live object of each entry of the copy.\<close>

fun mgr_loop :: "('a \<Rightarrow> Mgr \<Rightarrow> mgr_result) \<Rightarrow> 'a list \<Rightarrow> Mgr \<Rightarrow> mgr_result" where
  "mgr_loop f [] g = (g, None)"
| "mgr_loop f (x # xs) g = (case f x g of (g, Some e) \<Rightarrow> (g, Some e) | (g, None) \<Rightarrow> mgr_loop f xs g)"

definition mgr_then :: "mgr_result \<Rightarrow> (Mgr \<Rightarrow> mgr_result) \<Rightarrow> mgr_result" where
  "mgr_then r f = (case r of (g, Some e) \<Rightarrow> (g, Some e) | (g, None) \<Rightarrow> f g)"

definition for_status :: "(OracleState \<Rightarrow> Mgr \<Rightarrow> bool) \<Rightarrow> (OracleState \<Rightarrow> Mgr \<Rightarrow> mgr_result) \<Rightarrow> Mgr \<Rightarrow> mgr_result" where
  "for_status p step g =
     mgr_loop (\<lambda>i g. case map_get (st_oracles (mg_st g)) i of None \<Rightarrow> (g, None) | Some o' \<Rightarrow> if p o' g then step o' g else (g, None))
       (map fst (st_oracles (mg_st g))) g"

definition create_missing :: "(js_number \<Rightarrow> tx_arg res) \<Rightarrow> Config \<Rightarrow> string \<Rightarrow> World \<Rightarrow> int \<Rightarrow> Mgr \<Rightarrow> mgr_result" where
  "create_missing u64 config address w now =
     mgr_loop (\<lambda>tier. mgr_loop (\<lambda>expiryMs g.
         if list_ex (\<lambda>o'. os_expiryMs o' = expiryMs) (map_values (st_oracles (mg_st g))) then (g, None)
         else createOracleStep u64 config address w tier expiryMs g)
       (expectedExpiriesForTier tier now (cf_expiriesPerTier config) (cf_minLookaheadMs config)))
     (cf_tiersEnabled config)"

text \<open>The window: its first statements, the part after the lanes have drained, and its \<open>finally\<close>.\<close>

definition manager_begin :: "ServiceState \<Rightarrow> ServiceState option" where
  "manager_begin st = (if st_managerInFlight st then None else Some (st\<lparr>st_managerInFlight := True\<rparr>))"

definition manager_work ::
  "(js_number \<Rightarrow> tx_arg res) \<Rightarrow> Config \<Rightarrow> string \<Rightarrow> World \<Rightarrow> ServiceState \<Rightarrow> mgr_result" where
  "manager_work u64 config address w st =
     (let g0 = \<lparr>mg_st = st, mg_replies = 0, mg_clocks = 1, mg_sent = [], mg_synced = None\<rparr> in
      case refreshGasLanesIfNeeded address config (Some (st_lanes st)) (wd_coins w) (wd_submit w) (wd_coinsAfter w) of
        Inl e \<Rightarrow> (g0, Some e)
      | Inr (lanes, tx) \<Rightarrow>
          (let now = wd_clock w 0;
               st1 = apply_frames (wd_frames w) (st\<lparr>st_lanes := (case lanes of Some ls \<Rightarrow> ls | None \<Rightarrow> st_lanes st)\<rparr>);
               g1 = g0\<lparr>mg_st := st1, mg_sent := (case tx of None \<Rightarrow> [] | Some t \<Rightarrow> [t])\<rparr>
           in case wd_discovered w now of
                Inl e \<Rightarrow> (g1, Some e)
              | Inr discovered \<Rightarrow>
                  mgr_then (create_missing u64 config address w now (g1\<lparr>mg_st := reconcileLocalOracles discovered st1\<rparr>)) (\<lambda>g.
                  mgr_then (for_status (\<lambda>o' g. os_status o' = inactive \<and> map_get (st_sviCache (mg_st g)) (os_id o') \<noteq> None)
                      (bootstrapOracleStep u64 config address w) g) (\<lambda>g.
                  mgr_then (for_status (\<lambda>o' g. os_status o' = pending_settlement) (settleOracleStep u64 config address w) g) (\<lambda>g.
                  mgr_then (for_status (\<lambda>o' g. os_status o' = settled) (compactOracleStep config address w) g) (\<lambda>g.
                    (g\<lparr>mg_synced := Some (map_values (st_oracles (mg_st g)))\<rparr>, None)))))))"

definition manager_end :: "ServiceState \<Rightarrow> ServiceState" where
  "manager_end st = st\<lparr>st_managerInFlight := False\<rparr>"

section \<open>What a tick sends\<close>

text \<open>The first object argument of the calls of a function in a transaction.\<close>

fun call_object :: "string \<Rightarrow> command \<Rightarrow> string list" where
  "call_object t (MoveCall t' (ObjArg x # as)) = (if t = t' then [x] else [])"
| "call_object t c = []"

definition calls :: "string \<Rightarrow> Transaction \<Rightarrow> string list" where
  "calls t tx = concat (map (call_object t) (tx_commands tx))"

definition price_calls :: "Config \<Rightarrow> Transaction \<Rightarrow> string list" where
  "price_calls config = calls (cf_predictPackageId config @ ''::oracle::update_prices'')"

definition svi_calls :: "Config \<Rightarrow> Transaction \<Rightarrow> string list" where
  "svi_calls config = calls (cf_predictPackageId config @ ''::oracle::update_svi'')"

text \<open>The oracles that a tick is meant to update, and those with a volatility sample not pushed yet.\<close>

definition eligible :: "Config \<Rightarrow> int \<Rightarrow> ServiceState \<Rightarrow> OracleState \<Rightarrow> bool" where
  "eligible config now st o' \<longleftrightarrow>
     os_status o' = active \<and> now < os_expiryMs o' - cf_safetyWindowMs config
     \<and> (case map_get (pc_forwards (st_priceCache st)) (os_id o') of None \<Rightarrow> False
        | Some fwd \<Rightarrow> \<not> is_stale fwd now (cf_priceCacheStaleMs config))"

definition svi_due :: "ServiceState \<Rightarrow> OracleState \<Rightarrow> bool" where
  "svi_due st o' \<longleftrightarrow> (case map_get (st_sviCache st) (os_id o') of None \<Rightarrow> False | Some svi \<Rightarrow> sample_due svi)"

lemma calls_add [simp]: "calls t (add_command c tx) = calls t tx @ call_object t c"
  by (simp add: calls_def add_command_def)

lemma gas_add [simp]: "tx_gasPayment (add_command c tx) = tx_gasPayment tx" "tx_sender (add_command c tx) = tx_sender tx"
  by (simp_all add: add_command_def)

lemma calls_new [simp]: "calls t (newLaneTx a l) = []"
  by (simp add: calls_def newLaneTx_def new_Transaction_def)

lemma call_object_pure [simp]: "call_object t (MoveCall t' [ResultArg k, x]) = []"
  by simp

text \<open>An encoder of numbers that never yields an object argument.\<close>

definition encoder :: "(js_number \<Rightarrow> tx_arg res) \<Rightarrow> bool" where
  "encoder u64 \<longleftrightarrow> (\<forall>v x. u64 v = Inr x \<longrightarrow> (\<forall>i. x \<noteq> ObjArg i))"

lemma call_object_encoded: "encoder u64 \<Longrightarrow> u64 v = Inr x \<Longrightarrow> call_object t (MoveCall t' (x # xs)) = []"
  by (cases x) (auto simp: encoder_def)

lemma addUpdatePrices_calls:
  assumes "addUpdatePrices u64 (cf_predictPackageId config) i c s f tx = Inr tx'" "encoder u64"
  shows "price_calls config tx' = price_calls config tx @ [i]" "svi_calls config tx' = svi_calls config tx"
    "tx_gasPayment tx' = tx_gasPayment tx"
  using assms
  by (auto simp: addUpdatePrices_def bindE_eq_Inr Let_def price_calls_def svi_calls_def call_object_encoded)

lemma addUpdateSvi_calls:
  assumes "addUpdateSvi u64 (cf_predictPackageId config) i c p tx = Inr tx'" "encoder u64"
  shows "price_calls config tx' = price_calls config tx" "svi_calls config tx' = svi_calls config tx @ [i]"
    "tx_gasPayment tx' = tx_gasPayment tx"
  using assms
  by (auto simp: addUpdateSvi_def bindE_eq_Inr Let_def price_calls_def svi_calls_def call_object_encoded split: prod.splits)

lemma push_oracle_effect:
  assumes "push_oracle u64 config now spot st lane o' acc = Inr acc'" "encoder u64"
  shows "price_calls config (ta_tx acc') = price_calls config (ta_tx acc) @ (if eligible config now st o' then [os_id o'] else [])
    \<and> svi_calls config (ta_tx acc') = svi_calls config (ta_tx acc) @ (if eligible config now st o' \<and> svi_due st o' then [os_id o'] else [])
    \<and> ta_sviPushes acc' = ta_sviPushes acc @ (if eligible config now st o' \<and> svi_due st o'
        then [(os_id o', sv_receivedAtMs (the (map_get (st_sviCache st) (os_id o'))))] else [])
    \<and> ta_priceUpdates acc' = ta_priceUpdates acc + (if eligible config now st o' then 1 else 0)
    \<and> tx_gasPayment (ta_tx acc') = tx_gasPayment (ta_tx acc)"
proof (cases "eligible config now st o'")
  case False
  then show ?thesis
    using assms(1) by (auto simp: push_oracle_def eligible_def split: if_splits option.splits)
next
  case True
  then obtain fwd where f: "os_status o' = active" "\<not> now \<ge> os_expiryMs o' - cf_safetyWindowMs config"
    "map_get (pc_forwards (st_priceCache st)) (os_id o') = Some fwd" "\<not> is_stale fwd now (cf_priceCacheStaleMs config)"
    by (auto simp: eligible_def split: option.splits)
  then obtain tx where tx: "addUpdatePrices u64 (cf_predictPackageId config) (os_id o') (ln_capId lane)
      (ps_value spot) (ps_value fwd) (ta_tx acc) = Inr tx"
    using assms(1) by (auto simp: push_oracle_def bindE_eq_Inr)
  note p = addUpdatePrices_calls [OF tx assms(2)]
  show ?thesis
  proof (cases "svi_due st o'")
    case False
    then have "acc' = acc\<lparr>ta_tx := tx, ta_priceUpdates := ta_priceUpdates acc + 1\<rparr>"
      using assms(1) f tx by (auto simp: push_oracle_def svi_due_def split: option.splits)
    with True False p show ?thesis by simp
  next
    case due: True
    then obtain svi where v: "map_get (st_sviCache st) (os_id o') = Some svi" "sample_due svi"
      by (auto simp: svi_due_def split: option.splits)
    then obtain tx2 where tx2: "addUpdateSvi u64 (cf_predictPackageId config) (os_id o') (ln_capId lane) (sv_params svi) tx = Inr tx2"
      and acc': "acc' = acc\<lparr>ta_priceUpdates := ta_priceUpdates acc + 1, ta_tx := tx2,
        ta_sviPushes := ta_sviPushes acc @ [(os_id o', sv_receivedAtMs svi)]\<rparr>"
      using assms(1) f tx by (simp add: push_oracle_def Let_def bindE_eq_Inr) metis
    show ?thesis using True due v p addUpdateSvi_calls [OF tx2 assms(2)] by (simp add: acc')
  qed
qed

lemma push_fold_effect:
  assumes "foldE (push_oracle u64 config now spot st lane) os acc = Inr acc'" "encoder u64"
  shows "price_calls config (ta_tx acc') = price_calls config (ta_tx acc) @ map os_id (filter (eligible config now st) os)
    \<and> svi_calls config (ta_tx acc') = svi_calls config (ta_tx acc) @ map os_id (filter (\<lambda>o'. eligible config now st o' \<and> svi_due st o') os)
    \<and> ta_sviPushes acc' = ta_sviPushes acc
        @ map (\<lambda>o'. (os_id o', sv_receivedAtMs (the (map_get (st_sviCache st) (os_id o'))))) (filter (\<lambda>o'. eligible config now st o' \<and> svi_due st o') os)
    \<and> ta_priceUpdates acc' = ta_priceUpdates acc + length (filter (eligible config now st) os)
    \<and> tx_gasPayment (ta_tx acc') = tx_gasPayment (ta_tx acc)"
  using assms(1)
proof (induction os arbitrary: acc)
  case (Cons x xs)
  then obtain a where a: "push_oracle u64 config now spot st lane x acc = Inr a"
    and f: "foldE (push_oracle u64 config now spot st lane) xs a = Inr acc'" by (auto simp: bindE_eq_Inr)
  show ?case using push_oracle_effect [OF a assms(2)] Cons.IH [OF f] by auto
qed simp

text \<open>The numbers that a tick has to encode for an oracle: two prices, and five parameters when the volatility
  is due. The encoder may refuse any of them.\<close>

definition accepts :: "(js_number \<Rightarrow> tx_arg res) \<Rightarrow> js_number \<Rightarrow> bool" where
  "accepts u64 v \<longleftrightarrow> (case u64 v of Inl _ \<Rightarrow> False | Inr _ \<Rightarrow> True)"

definition tick_numbers :: "ServiceState \<Rightarrow> OracleState \<Rightarrow> js_number list" where
  "tick_numbers st o' =
     (case pc_spot (st_priceCache st) of None \<Rightarrow> [] | Some spot \<Rightarrow> [scaleToU64 (ps_value spot)])
     @ (case map_get (pc_forwards (st_priceCache st)) (os_id o') of None \<Rightarrow> [] | Some fwd \<Rightarrow> [scaleToU64 (ps_value fwd)])
     @ (if svi_due st o' then (case map_get (st_sviCache st) (os_id o') of None \<Rightarrow> []
          | Some svi \<Rightarrow> map scaleToU64 [Math_abs (fs_rho (sv_params svi)), Math_abs (fs_m (sv_params svi)),
              fs_a (sv_params svi), fs_b (sv_params svi), fs_sigma (sv_params svi)]) else [])"

definition encodable :: "(js_number \<Rightarrow> tx_arg res) \<Rightarrow> ServiceState \<Rightarrow> OracleState \<Rightarrow> bool" where
  "encodable u64 st o' \<longleftrightarrow> list_all (accepts u64) (tick_numbers st o')"

lemma accepts_iff: "accepts u64 v \<longleftrightarrow> (\<exists>x. u64 v = Inr x)"
  by (cases "u64 v") (simp_all add: accepts_def)

lemma addUpdatePrices_accepts:
  "(\<exists>t. addUpdatePrices u64 q i c s f tx = Inr t) \<longleftrightarrow> accepts u64 (scaleToU64 s) \<and> accepts u64 (scaleToU64 f)"
  by (cases "u64 (scaleToU64 s)"; cases "u64 (scaleToU64 f)") (simp_all add: addUpdatePrices_def accepts_def Let_def)

lemma addUpdateSvi_accepts:
  "(\<exists>t. addUpdateSvi u64 q i c p tx = Inr t) \<longleftrightarrow>
     list_all (accepts u64) (map scaleToU64 [Math_abs (fs_rho p), Math_abs (fs_m p), fs_a p, fs_b p, fs_sigma p])"
  by (cases "u64 (scaleToU64 (Math_abs (fs_rho p)))"; cases "u64 (scaleToU64 (Math_abs (fs_m p)))";
      cases "u64 (scaleToU64 (fs_a p))"; cases "u64 (scaleToU64 (fs_b p))"; cases "u64 (scaleToU64 (fs_sigma p))")
    (simp_all add: addUpdateSvi_def signedToPair_def accepts_def Let_def)

lemma push_oracle_accepts:
  assumes "pc_spot (st_priceCache st) = Some spot"
  shows "(\<exists>a. push_oracle u64 config now spot st lane x acc = Inr a) \<longleftrightarrow> (eligible config now st x \<longrightarrow> encodable u64 st x)"
proof (cases "eligible config now st x")
  case False
  then show ?thesis by (auto simp: push_oracle_def eligible_def split: option.splits)
next
  case True
  then obtain fwd where f: "os_status x = active" "\<not> now \<ge> os_expiryMs x - cf_safetyWindowMs config"
    "map_get (pc_forwards (st_priceCache st)) (os_id x) = Some fwd" "\<not> is_stale fwd now (cf_priceCacheStaleMs config)"
    by (auto simp: eligible_def split: option.splits)
  let ?p = "addUpdatePrices u64 (cf_predictPackageId config) (os_id x) (ln_capId lane) (ps_value spot) (ps_value fwd) (ta_tx acc)"
  note pr = addUpdatePrices_accepts [of u64 "cf_predictPackageId config" "os_id x" "ln_capId lane" "ps_value spot" "ps_value fwd" "ta_tx acc"]
  show ?thesis
  proof (cases ?p)
    case (Inl e)
    with pr have "\<not> encodable u64 st x" using f(3) assms by (auto simp: encodable_def tick_numbers_def)
    with Inl f True show ?thesis by (simp add: push_oracle_def)
  next
    case (Inr tx)
    with pr have ok: "accepts u64 (scaleToU64 (ps_value spot))" "accepts u64 (scaleToU64 (ps_value fwd))" by auto
    show ?thesis
    proof (cases "svi_due st x")
      case False
      then have "encodable u64 st x" using ok f(3) assms by (simp add: encodable_def tick_numbers_def)
      with False Inr f True show ?thesis by (auto simp: push_oracle_def svi_due_def split: option.splits)
    next
      case due: True
      then obtain svi where v: "map_get (st_sviCache st) (os_id x) = Some svi" "sample_due svi"
        by (auto simp: svi_due_def split: option.splits)
      have "encodable u64 st x \<longleftrightarrow> list_all (accepts u64) (map scaleToU64 [Math_abs (fs_rho (sv_params svi)), Math_abs (fs_m (sv_params svi)),
              fs_a (sv_params svi), fs_b (sv_params svi), fs_sigma (sv_params svi)])"
        using ok f(3) assms due v(1) by (simp add: encodable_def tick_numbers_def)
      with addUpdateSvi_accepts [of u64 "cf_predictPackageId config" "os_id x" "ln_capId lane" "sv_params svi" tx]
      have "encodable u64 st x \<longleftrightarrow> (\<exists>t. addUpdateSvi u64 (cf_predictPackageId config) (os_id x) (ln_capId lane) (sv_params svi) tx = Inr t)"
        by simp
      with True f Inr v show ?thesis by (auto simp: push_oracle_def Let_def bindE_eq_Inr)
    qed
  qed
qed

lemma push_fold_accepts:
  assumes "pc_spot (st_priceCache st) = Some spot"
  shows "(\<exists>acc'. foldE (push_oracle u64 config now spot st lane) os acc = Inr acc') \<longleftrightarrow>
    (\<forall>o' \<in> set os. eligible config now st o' \<longrightarrow> encodable u64 st o')"
proof (induction os arbitrary: acc)
  case (Cons x xs)
  then show ?case using push_oracle_accepts [OF assms, of u64 config now lane x acc]
    by (cases "push_oracle u64 config now spot st lane x acc") auto
qed simp

lemma nextAvailableLane_some:
  assumes "nextAvailableLane st = Some (i, st1)"
  shows "i < length (st_lanes st)" "ln_available (st_lanes st ! i)" "st1 = st\<lparr>st_laneHint := (i + 1) mod length (st_lanes st)\<rparr>"
proof -
  obtain k where "find (\<lambda>i. ln_available (st_lanes st ! ((st_laneHint st + i) mod length (st_lanes st)))) [0..<length (st_lanes st)] = Some k"
    and i: "i = (st_laneHint st + k) mod length (st_lanes st)" "st1 = st\<lparr>st_laneHint := (i + 1) mod length (st_lanes st)\<rparr>"
    using assms by (auto simp: nextAvailableLane_def Let_def split: option.splits)
  moreover have "k < length (st_lanes st)" using calculation(1) by (auto simp: find_Some_iff)
  then have "0 < length (st_lanes st)" by linarith
  ultimately show "i < length (st_lanes st)" "ln_available (st_lanes st ! i)" "st1 = st\<lparr>st_laneHint := (i + 1) mod length (st_lanes st)\<rparr>"
    by (auto simp: find_Some_iff)
qed

text \<open>The search covers every lane.\<close>

lemma nextAvailableLane_finds:
  assumes "j < length (st_lanes st)" "ln_available (st_lanes st ! j)"
  shows "nextAvailableLane st \<noteq> None"
proof -
  let ?n = "length (st_lanes st)" and ?h = "st_laneHint st"
  define k where "k = (j + (?n - ?h mod ?n)) mod ?n"
  have "k < ?n" unfolding k_def using assms(1) by (intro mod_less_divisor) linarith
  moreover have "(?h + k) mod ?n = j"
  proof -
    have "?h mod ?n < ?n" using assms(1) by (intro mod_less_divisor) linarith
    then have "?h mod ?n + (j + (?n - ?h mod ?n)) = j + ?n" by simp
    then have "(?h + k) mod ?n = (j + ?n) mod ?n" unfolding k_def by (metis mod_add_eq mod_add_left_eq mod_add_right_eq)
    then show ?thesis using assms(1) by simp
  qed
  ultimately have "find (\<lambda>i. ln_available (st_lanes st ! ((?h + i) mod ?n))) [0..<?n] \<noteq> None"
    using assms(2) by (auto simp: find_None_iff)
  then show ?thesis by (auto simp: nextAvailableLane_def Let_def split: option.splits)
qed

lemma pushTick_submits:
  assumes "pushTick u64 config address now st = (Submitting i tx pushes, st')"
  obtains spot acc where "\<not> st_managerInFlight st" "i < length (st_lanes st)" "ln_available (st_lanes st ! i)"
    "pc_spot (st_priceCache st) = Some spot" "hasFreshPriceSample (Some spot) now (cf_priceCacheStaleMs config)"
    "foldE (push_oracle u64 config now spot st (st_lanes st ! i)) (map_values (st_oracles st))
       \<lparr>ta_tx = newLaneTx address (st_lanes st ! i), ta_sviPushes = [], ta_priceUpdates = 0, ta_skippedNotActive = 0,
        ta_skippedSafety = 0, ta_skippedNoForward = 0, ta_skippedStaleForward = 0\<rparr> = Inr acc"
    "ta_priceUpdates acc \<noteq> 0 \<or> ta_sviPushes acc \<noteq> []" "tx = ta_tx acc" "pushes = ta_sviPushes acc"
    "st' = take_lane i (st\<lparr>st_laneHint := (i + 1) mod length (st_lanes st)\<rparr>)"
  using assms nextAvailableLane_some
  by (fastforce simp: pushTick_def Let_def split: if_splits option.splits prod.splits sum.splits)

lemma mark_pushed_fold:
  assumes "\<And>i r svi. (i, r) \<in> set ps \<Longrightarrow> map_get cache i = Some svi \<Longrightarrow> r = sv_receivedAtMs svi"
  shows "map_get (fold mark_pushed ps cache) k =
    map_option (\<lambda>svi. if k \<in> fst ` set ps then svi\<lparr>sv_lastPushedAtMs := Some (sv_receivedAtMs svi)\<rparr> else svi) (map_get cache k)"
  using assms
proof (induction ps arbitrary: cache)
  case (Cons p ps)
  obtain i r where p: "p = (i, r)" by fastforce
  let ?c = "mark_pushed p cache"
  have g: "map_get ?c j = (if j = i then map_option (\<lambda>svi. svi\<lparr>sv_lastPushedAtMs := Some r\<rparr>) (map_get cache i) else map_get cache j)" for j
    by (auto simp: mark_pushed_def p js_Map.get_put split: option.splits)
  have "r' = sv_receivedAtMs svi" if "(j, r') \<in> set ps" "map_get ?c j = Some svi" for j r' svi
    using that Cons.prems [of j r'] g [of j] by (auto split: if_splits)
  from Cons.IH [OF this] Cons.prems [of i r] g [of k] show ?case
    by (cases "map_get cache k") (auto simp: p)
qed (simp add: option.map_ident)

lemma pushed_not_due: "\<not> sample_due (svi\<lparr>sv_lastPushedAtMs := Some (sv_receivedAtMs svi)\<rparr>)"
  by (auto simp: sample_due_def split: option.splits)

lemma after_push_not_due:
  assumes "pushes = map (\<lambda>o'. (os_id o', sv_receivedAtMs (the (map_get (st_sviCache st) (os_id o'))))) (filter (\<lambda>o'. P o' \<and> svi_due st o') os)"
    and "o' \<in> set os" "P o'"
  shows "(case map_get (fold mark_pushed pushes (st_sviCache st)) (os_id o') of None \<Rightarrow> False | Some svi \<Rightarrow> sample_due svi) = False"
proof -
  have m: "map_get (fold mark_pushed pushes (st_sviCache st)) (os_id o') =
    map_option (\<lambda>svi. if os_id o' \<in> fst ` set pushes then svi\<lparr>sv_lastPushedAtMs := Some (sv_receivedAtMs svi)\<rparr> else svi) (map_get (st_sviCache st) (os_id o'))"
    by (rule mark_pushed_fold) (auto simp: assms(1))
  show ?thesis
  proof (cases "svi_due st o'")
    case True
    then have "os_id o' \<in> fst ` set pushes" using assms by (force simp: image_iff)
    then show ?thesis by (simp add: m pushed_not_due split: option.splits)
  next
    case False
    then show ?thesis by (auto simp: m svi_due_def pushed_not_due split: option.splits)
  qed
qed

text \<open>What holds when a tick has something to send, whatever the encoder says of the numbers.\<close>

definition tick_ready :: "Config \<Rightarrow> int \<Rightarrow> ServiceState \<Rightarrow> bool" where
  "tick_ready config now st \<longleftrightarrow>
     \<not> st_managerInFlight st \<and> list_ex ln_available (st_lanes st)
     \<and> hasFreshPriceSample (pc_spot (st_priceCache st)) now (cf_priceCacheStaleMs config)
     \<and> list_ex (eligible config now st) (map_values (st_oracles st))"

lemma pushTick_ready:
  assumes "encoder u64" "tick_ready config now st"
  shows "if \<forall>o' \<in> set (map_values (st_oracles st)). eligible config now st o' \<longrightarrow> encodable u64 st o'
    then \<exists>i tx pushes st'. pushTick u64 config address now st = (Submitting i tx pushes, st')
    else \<exists>e h. pushTick u64 config address now st = (TickThrows e, st\<lparr>st_laneHint := h\<rparr>)"
proof -
  obtain j where "j < length (st_lanes st)" "ln_available (st_lanes st ! j)"
    using assms(2) by (auto simp: tick_ready_def list_ex_iff in_set_conv_nth)
  then obtain i st1 where i: "nextAvailableLane st = Some (i, st1)" using nextAvailableLane_finds by fastforce
  note st1 = nextAvailableLane_some(3) [OF i]
  obtain spot where spot: "pc_spot (st_priceCache st) = Some spot"
    using assms(2) by (auto simp: tick_ready_def hasFreshPriceSample_def split: option.splits)
  have fresh: "hasFreshPriceSample (Some spot) now (cf_priceCacheStaleMs config)" "\<not> st_managerInFlight st"
    using assms(2) spot by (simp_all add: tick_ready_def)
  let ?a = "\<lparr>ta_tx = newLaneTx address (st_lanes st ! i), ta_sviPushes = [], ta_priceUpdates = 0, ta_skippedNotActive = 0,
        ta_skippedSafety = 0, ta_skippedNoForward = 0, ta_skippedStaleForward = 0\<rparr>"
  let ?f = "foldE (push_oracle u64 config now spot st (st_lanes st ! i)) (map_values (st_oracles st)) ?a"
  note ok = push_fold_accepts [OF spot, of u64 config now "st_lanes st ! i" "map_values (st_oracles st)" ?a]
  show ?thesis
  proof (cases ?f)
    case (Inl e)
    then have "\<not> (\<forall>o' \<in> set (map_values (st_oracles st)). eligible config now st o' \<longrightarrow> encodable u64 st o')" using ok by simp
    moreover have "pushTick u64 config address now st = (TickThrows e, st1)" using Inl i spot fresh by (simp add: pushTick_def Let_def)
    ultimately show ?thesis using st1 by (simp only: if_False) blast
  next
    case (Inr acc)
    have "ta_priceUpdates acc \<noteq> 0"
      using push_fold_effect [OF Inr assms(1)] assms(2) by (auto simp: tick_ready_def list_ex_iff filter_empty_conv)
    then have "pushTick u64 config address now st = (Submitting i (ta_tx acc) (ta_sviPushes acc), take_lane i st1)"
      using Inr i spot fresh by (simp add: pushTick_def Let_def)
    moreover have "\<forall>o' \<in> set (map_values (st_oracles st)). eligible config now st o' \<longrightarrow> encodable u64 st o'" using ok Inr by simp
    ultimately show ?thesis by simp
  qed
qed

lemma pushTick_submits_ready:
  assumes "pushTick u64 config address now st = (Submitting i tx pushes, st')" "encoder u64"
  shows "tick_ready config now st"
  using assms(1)
proof (cases rule: pushTick_submits)
  case (1 spot acc)
  have "filter (eligible config now st) (map_values (st_oracles st)) \<noteq> []"
    using push_fold_effect [OF 1(6) assms(2)] 1(7) by (auto simp: filter_empty_conv)
  then show ?thesis using 1 by (auto simp: tick_ready_def list_ex_iff filter_empty_conv)
qed

lemma pushTick_submits_iff:
  assumes "encoder u64"
  shows "(\<exists>i tx pushes st'. pushTick u64 config address now st = (Submitting i tx pushes, st')) \<longleftrightarrow>
    tick_ready config now st \<and> (\<forall>o' \<in> set (map_values (st_oracles st)). eligible config now st o' \<longrightarrow> encodable u64 st o')"
  using pushTick_ready [OF assms, of config now st address] pushTick_submits_ready [OF _ assms, of config address now st]
  by (auto split: if_splits)

text \<open>C3. The push tick: a submitted transaction comes only outside the manager window, on a lane that was
  free and is now taken, with a fresh spot price; it is paid by that lane's coin and updates the prices
  of exactly the eligible oracles (active, outside the safety window, forward not stale), at least one,
  and the volatility of exactly those with a sample not pushed yet. Once it has succeeded none of them is
  due again without a new sample. A tick submits exactly when it is not paused, a lane is free, the spot is fresh, some
  oracle is eligible and the encoder accepts every number of every eligible oracle: its two prices and, when its
  volatility is due, the five parameters. When only the last fails, in one number of one oracle, the tick throws and
  submits nothing for any oracle, and the service is as before but for the lane hint: the refused sample is
  still due at the next tick.\<close>

theorem pushTick_sends_due:
  assumes "encoder u64"
  shows "(\<forall>i tx pushes st'. pushTick u64 config address now st = (Submitting i tx pushes, st') \<longrightarrow>
      \<not> st_managerInFlight st \<and> i < length (st_lanes st) \<and> ln_available (st_lanes st ! i)
      \<and> st_lanes st' = (st_lanes st)[i := (st_lanes st ! i)\<lparr>ln_available := False\<rparr>]
      \<and> hasFreshPriceSample (pc_spot (st_priceCache st)) now (cf_priceCacheStaleMs config)
      \<and> tx_gasPayment tx = tx_gasPayment (newLaneTx address (st_lanes st ! i))
      \<and> price_calls config tx = map os_id (filter (eligible config now st) (map_values (st_oracles st)))
      \<and> price_calls config tx \<noteq> []
      \<and> svi_calls config tx = map os_id (filter (\<lambda>o'. eligible config now st o' \<and> svi_due st o') (map_values (st_oracles st)))
      \<and> (\<forall>io now' o'. snd (release_lane i io st') \<noteq> None \<and> o' \<in> set (map_values (st_oracles st)) \<and> eligible config now st o'
           \<longrightarrow> \<not> svi_due (pushTick_done i pushes io now' st') o'))
   \<and> (\<exists>i tx pushes st'. pushTick u64 config address now st = (Submitting i tx pushes, st')) =
      (\<not> st_managerInFlight st \<and> (\<exists>l \<in> set (st_lanes st). ln_available l)
       \<and> hasFreshPriceSample (pc_spot (st_priceCache st)) now (cf_priceCacheStaleMs config)
       \<and> (\<exists>o' \<in> set (map_values (st_oracles st)). eligible config now st o')
       \<and> (\<forall>o' \<in> set (map_values (st_oracles st)). eligible config now st o' \<longrightarrow>
            (\<forall>v \<in> set (tick_numbers st o'). \<exists>x. u64 v = Inr x)))
   \<and> (\<not> st_managerInFlight st \<and> (\<exists>l \<in> set (st_lanes st). ln_available l)
       \<and> hasFreshPriceSample (pc_spot (st_priceCache st)) now (cf_priceCacheStaleMs config)
       \<and> (\<exists>o' \<in> set (map_values (st_oracles st)). eligible config now st o' \<and>
            (\<exists>v \<in> set (tick_numbers st o'). \<exists>e. u64 v = Inl e))
      \<longrightarrow> (\<exists>e h. pushTick u64 config address now st = (TickThrows e, st\<lparr>st_laneHint := h\<rparr>)))"
proof (intro conjI allI impI, goal_cases)
  case (10 i tx pushes st' io now' o')
  from 10(1) show ?case
  proof (cases rule: pushTick_submits)
    case (1 spot acc)
    have sv: "st_sviCache st' = st_sviCache st" by (simp add: 1(10) take_lane_def)
    from 10(2) have "st_sviCache (pushTick_done i pushes io now' st') = fold mark_pushed pushes (st_sviCache st)"
      by (auto simp: pushTick_done_def release_lane_def sv split: prod.splits)
    moreover have "pushes = map (\<lambda>o'. (os_id o', sv_receivedAtMs (the (map_get (st_sviCache st) (os_id o')))))
        (filter (\<lambda>o'. eligible config now st o' \<and> svi_due st o') (map_values (st_oracles st)))"
      using push_fold_effect [OF 1(6) assms] 1(9) by simp
    ultimately show ?thesis using after_push_not_due 10(2) by (auto simp: svi_due_def)
  qed
next
  case 11
  show ?case unfolding pushTick_submits_iff [OF assms]
    by (auto simp: tick_ready_def encodable_def list_all_iff list_ex_iff accepts_iff)
next
  case 12
  then have "tick_ready config now st" by (auto simp: tick_ready_def list_ex_iff)
  moreover obtain o' v err where v: "o' \<in> set (map_values (st_oracles st))" "eligible config now st o'"
    "v \<in> set (tick_numbers st o')" "u64 v = Inl err" using 12 by blast
  then have "\<not> encodable u64 st o'" by (force simp: encodable_def list_all_iff accepts_def)
  with v have "\<not> (\<forall>o' \<in> set (map_values (st_oracles st)). eligible config now st o' \<longrightarrow> encodable u64 st o')" by blast
  ultimately
  show ?case using pushTick_ready [OF assms, of config now st address] by (simp only: if_False)
qed (erule pushTick_submits; use push_fold_effect [OF _ assms] in \<open>fastforce simp: take_lane_def price_calls_def svi_calls_def filter_empty_conv\<close>)+

definition demo_service :: ServiceState where
  "demo_service =
     \<lparr>st_oracles = [(''0xa'', \<lparr>os_id = ''0xa'', os_underlying = ''BTC'', os_expiryMs = 900000, os_tier = T15m, os_status = active,
         os_registeredCapIds = [''c0'', ''c1'']\<rparr>)],
      st_lanes = [demo_lane 0 ''a'' ''c0'', demo_lane 1 ''b'' ''c1''], st_capIds = [''c0'', ''c1''],
      st_priceCache = \<lparr>pc_spot = Some \<lparr>ps_value = Num 100000, ps_receivedAtMs = Some 1000\<rparr>,
        pc_forwards = [(''0xa'', \<lparr>ps_value = Num 100001, ps_receivedAtMs = Some 1000\<rparr>)]\<rparr>,
      st_sviCache = [], st_managerInFlight = False, st_laneHint = 1, st_lastPushMs = 0\<rparr>"

text \<open>An encoder that refuses what is not a 64-bit integer, and a frame whose volatility lacks a field.\<close>

definition demo_u64 :: "js_number \<Rightarrow> tx_arg res" where
  "demo_u64 v = (case v of
     Num r \<Rightarrow> (if r = of_int \<lfloor>r\<rfloor> \<and> 0 \<le> \<lfloor>r\<rfloor> \<and> \<lfloor>r\<rfloor> < 2 ^ 64 then Inr (U64Arg v) else Inl RangeError)
   | _ \<Rightarrow> Inl RangeError)"

definition demo_svi :: "js_number \<Rightarrow> SVISample" where
  "demo_svi m = \<lparr>sv_obj = 0, sv_params = \<lparr>fs_a = Num 1, fs_b = Num 2, fs_rho = Num (- 1), fs_m = m, fs_sigma = Num 1\<rparr>,
     sv_receivedAtMs = Some 1500, sv_lastPushedAtMs = None\<rparr>"

lemma demo_u64_accepts: "\<bar>k\<bar> < 9000000 \<Longrightarrow> 0 \<le> k \<Longrightarrow> accepts demo_u64 (scaleToU64 (Num (of_int k)))"
proof -
  assume k: "\<bar>k\<bar> < 9000000" "0 \<le> k"
  then have "to_js (of_int (k * 1000000000)) = Num (of_int (k * 1000000000))" by (intro to_js_of_int) simp
  then have "scaleToU64 (Num (of_int k)) = Num (of_int (k * 1000000000))"
    by (simp add: scaleToU64_def FEED_FLOAT_SCALING_def floor_eq_iff)
  then show ?thesis using k by (simp add: accepts_def demo_u64_def del: of_int_mult)
qed

theorem pushTick_sends_due_witness:
  "(\<exists>i tx pushes st'. pushTick demo_u64 demo_config ''0x9'' 2000 (demo_service\<lparr>st_sviCache := [(''0xa'', demo_svi (Num 0))]\<rparr>)
        = (Submitting i tx pushes, st')
     \<and> price_calls demo_config tx = [''0xa''] \<and> svi_calls demo_config tx = [''0xa''])
   \<and> (\<exists>e h. pushTick demo_u64 demo_config ''0x9'' 2000 (demo_service\<lparr>st_sviCache := [(''0xa'', demo_svi NaN)]\<rparr>)
        = (TickThrows e, demo_service\<lparr>st_sviCache := [(''0xa'', demo_svi NaN)], st_laneHint := h\<rparr>))"
proof -
  let ?s = "\<lambda>m. demo_service\<lparr>st_sviCache := [(''0xa'', demo_svi m)]\<rparr>"
  have e: "encoder demo_u64" by (auto simp: encoder_def demo_u64_def split: js_number.splits if_splits)
  note t = pushTick_sends_due [OF e, of demo_config "''0x9''" 2000]
  let ?os = "map_values (st_oracles demo_service)"
  have h: "\<not> st_managerInFlight (?s m)" "list_ex ln_available (st_lanes (?s m))"
    "hasFreshPriceSample (pc_spot (st_priceCache (?s m))) 2000 (cf_priceCacheStaleMs demo_config)" for m
    by code_simp+
  have el: "list_all (eligible demo_config 2000 demo_service) ?os" "map os_id ?os = [''0xa'']" by code_simp+
  then have elig: "\<forall>o' \<in> set ?os. eligible demo_config 2000 (?s m) o'" for m
    unfolding list_all_iff eligible_def by simp
  have os: "?os \<noteq> []" using el(2) by auto
  have due: "\<forall>o' \<in> set ?os. svi_due (?s m) o'" for m
    using el(2) by (auto simp: svi_due_def demo_svi_def sample_due_def map_get_def)
  have os_eq: "map_values (st_oracles (?s m)) = ?os" for m by simp
  have fl: "filter (eligible demo_config 2000 (?s m)) ?os = ?os"
    "filter (\<lambda>o'. eligible demo_config 2000 (?s m) o' \<and> svi_due (?s m) o') ?os = ?os" for m
    using elig due by (simp_all add: filter_id_conv)
  have tn: "tick_numbers (?s m) o' = map scaleToU64 [Num 100000, Num 100001, Num 1, Math_abs m, Num 1, Num 2, Num 1]"
    if "o' \<in> set ?os" for m o'
  proof -
    have "os_id o' = ''0xa''" using that el(2) by auto
    then show ?thesis using due [of m] that by (simp add: tick_numbers_def demo_svi_def map_get_def demo_service_def)
  qed
  have "list_all (accepts demo_u64) (map scaleToU64 [Num 100000, Num 100001, Num 1, Math_abs (Num 0), Num 1, Num 2, Num 1])"
    using demo_u64_accepts [of 100000] demo_u64_accepts [of 100001] demo_u64_accepts [of 0] demo_u64_accepts [of 1] demo_u64_accepts [of 2]
    by simp
  moreover have "\<not> accepts demo_u64 (scaleToU64 NaN)" by (simp add: accepts_def demo_u64_def scaleToU64_def)
  ultimately have ok: "list_all (encodable demo_u64 (?s (Num 0))) ?os" "list_ex (\<lambda>o'. \<not> encodable demo_u64 (?s NaN) o') ?os"
    using os tn unfolding encodable_def list_all_iff list_ex_iff by (auto simp: neq_Nil_conv)
  have s: "\<exists>i tx pushes st'. pushTick demo_u64 demo_config ''0x9'' 2000 (?s (Num 0)) = (Submitting i tx pushes, st')"
    using conjunct1 [OF conjunct2 [OF t [of "?s (Num 0)"]]] h [of "Num 0"] ok(1) elig [of "Num 0"] os
    unfolding list_ex_iff os_eq encodable_def list_all_iff accepts_iff by (metis list.set_sel(1))
  then obtain i tx pushes st' where p: "pushTick demo_u64 demo_config ''0x9'' 2000 (?s (Num 0)) = (Submitting i tx pushes, st')" by blast
  with conjunct1 [OF t [of "?s (Num 0)"]] have "price_calls demo_config tx = [''0xa'']" "svi_calls demo_config tx = [''0xa'']"
    unfolding os_eq fl el(2) by blast+
  moreover have "\<exists>o' \<in> set (map_values (st_oracles (?s NaN))). eligible demo_config 2000 (?s NaN) o' \<and>
      (\<exists>v \<in> set (tick_numbers (?s NaN) o'). \<exists>e. demo_u64 v = Inl e)"
    using ok(2) elig [of NaN] unfolding list_ex_iff os_eq encodable_def list_all_iff accepts_iff by (metis Inr_Inl_False sum.exhaust)
  then have "\<exists>e h. pushTick demo_u64 demo_config ''0x9'' 2000 (?s NaN) = (TickThrows e, (?s NaN)\<lparr>st_laneHint := h\<rparr>)"
    using conjunct2 [OF conjunct2 [OF t [of "?s NaN"]]] h [of NaN] unfolding list_ex_iff by blast
  ultimately show ?thesis using p by blast
qed

section \<open>Reconciliation\<close>

lemma fold_reconcile:
  "map_wf d \<Longrightarrow> map_get (fold reconcile_entry d m) k =
    (case map_get d k of None \<Rightarrow> map_get m k
     | Some new \<Rightarrow> Some (case map_get m k of None \<Rightarrow> new
         | Some ex \<Rightarrow> ex\<lparr>os_status := os_status new, os_registeredCapIds := os_registeredCapIds new\<rparr>))"
proof (induction d arbitrary: m)
  case (Cons e d)
  obtain i v where e: "e = (i, v)" by fastforce
  have wf: "map_wf d" "map_get d i = None" using Cons.prems by (auto simp: e map_wf_def map_get_def map_of_eq_None_iff)
  have "map_get (reconcile_entry e m) k = (if k = i then Some (case map_get m i of None \<Rightarrow> v
      | Some ex \<Rightarrow> ex\<lparr>os_status := os_status v, os_registeredCapIds := os_registeredCapIds v\<rparr>) else map_get m k)" for k
    by (auto simp: reconcile_entry_def e js_Map.get_put split: option.splits)
  then show ?case using Cons.IH [OF wf(1), of "reconcile_entry e m"] wf(2)
    by (auto simp: e map_get_def split: option.splits)
qed (simp add: map_get_def)

lemma fold_delete:
  "map_get (fold (\<lambda>e m. if P e then map_delete (f e) m else m) es m) k =
    (if \<exists>e \<in> set es. P e \<and> f e = k then None else map_get m k)"
  by (induction es arbitrary: m) (auto simp: js_Map.get_del)

lemma keyed_fold_delete:
  "keyed m \<Longrightarrow> keyed (fold (\<lambda>e m. if P e then map_delete (f e) m else m) es m)"
  by (induction es arbitrary: m) (auto simp: keyed_delete)

lemma map_get_in: "map_wf m \<Longrightarrow> (k, v) \<in> set m \<longleftrightarrow> map_get m k = Some v"
  by (simp add: map_wf_def map_get_def)

lemma keyed_get: "keyed m \<Longrightarrow> map_get m k = Some v \<Longrightarrow> os_id v = k"
  by (fastforce simp: keyed_def map_get_def dest: map_of_SomeD)

lemma keyed_reconcile_entry: "keyed m \<Longrightarrow> os_id (snd e) = fst e \<Longrightarrow> keyed (reconcile_entry e m)"
  by (auto simp: reconcile_entry_def keyed_get intro!: keyed_set split: option.splits)

lemma keyed_fold_reconcile: "keyed m \<Longrightarrow> \<forall>e \<in> set d. os_id (snd e) = fst e \<Longrightarrow> keyed (fold reconcile_entry d m)"
  by (induction d arbitrary: m) (auto simp: keyed_reconcile_entry)

lemma reconcile_get:
  assumes "keyed d" "keyed (st_oracles st)"
  shows "keyed (st_oracles (reconcileLocalOracles d st))
    \<and> map_get (st_oracles (reconcileLocalOracles d st)) k =
      (case map_get d k of None \<Rightarrow> None
       | Some new \<Rightarrow> if os_status new = compacted then None
           else Some (case map_get (st_oracles st) k of None \<Rightarrow> new
             | Some ex \<Rightarrow> ex\<lparr>os_status := os_status new, os_registeredCapIds := os_registeredCapIds new\<rparr>))"
proof -
  define m1 where "m1 = fold reconcile_entry d (st_oracles st)"
  define m2 where "m2 = fold (\<lambda>i m. if map_get d i = None then map_delete i m else m) (map fst m1) m1"
  define m3 where "m3 = fold (\<lambda>e m. if os_status (snd e) = compacted then map_delete (fst e) m else m) m2 m2"
  have k1: "keyed m1" unfolding m1_def using assms by (intro keyed_fold_reconcile) (auto simp: keyed_def)
  have k2: "keyed m2" unfolding m2_def using keyed_fold_delete [OF k1, of "\<lambda>i. map_get d i = None" "\<lambda>i. i"] by simp
  have k3: "keyed m3" unfolding m3_def using keyed_fold_delete [OF k2] .
  have g1: "map_get m1 k = (case map_get d k of None \<Rightarrow> map_get (st_oracles st) k
     | Some new \<Rightarrow> Some (case map_get (st_oracles st) k of None \<Rightarrow> new
         | Some ex \<Rightarrow> ex\<lparr>os_status := os_status new, os_registeredCapIds := os_registeredCapIds new\<rparr>))" for k
    unfolding m1_def using fold_reconcile assms(1) by (simp add: keyed_def)
  have "k \<in> set (map fst m1) \<longleftrightarrow> map_get m1 k \<noteq> None" for k
    by (metis map_get_def map_of_eq_None_iff set_map)
  then have "(\<exists>i \<in> set (map fst m1). map_get d i = None \<and> i = k) \<longleftrightarrow> map_get m1 k \<noteq> None \<and> map_get d k = None" for k
    by blast
  then have g2: "map_get m2 k = (if map_get d k = None then None else map_get m1 k)" for k
    unfolding m2_def fold_delete [of "\<lambda>i. map_get d i = None" "\<lambda>i. i" "map fst m1" m1 k] by simp
  have "(\<exists>e \<in> set m2. os_status (snd e) = compacted \<and> fst e = k) \<longleftrightarrow> (\<exists>v. map_get m2 k = Some v \<and> os_status v = compacted)" for k
  proof -
    have "(k, v) \<in> set m2 \<longleftrightarrow> map_get m2 k = Some v" for v using k2 map_get_in [of m2 k v] by (simp add: keyed_def)
    then show ?thesis by (metis fst_conv prod.collapse snd_conv)
  qed
  then have g3: "map_get m3 k = (if \<exists>v. map_get m2 k = Some v \<and> os_status v = compacted then None else map_get m2 k)" for k
    unfolding m3_def fold_delete by simp
  have "st_oracles (reconcileLocalOracles d st) = m3"
    by (simp add: reconcileLocalOracles_def m1_def m2_def m3_def Let_def)
  then show ?thesis using k3 g3 [of k] g2 [of k] g1 [of k] by (auto split: option.splits)
qed

text \<open>C15. Reconciliation makes the local oracles mirror a discovery: afterwards the keys are exactly the
  discovered oracles that are not compacted, an oracle known before keeps its object with the status and
  the registered capabilities of the discovery, a new one is taken as discovered, and every entry is
  stored under its own identifier. In particular a compacted oracle never asks for another window.\<close>

theorem reconcile_mirrors_discovery:
  assumes "discoverOracles config capIds now dev predict pages mg = Some (Inr discovered)"
    and "keyed (st_oracles st)"
  shows "keyed (st_oracles (reconcileLocalOracles discovered st))
    \<and> map_get (st_oracles (reconcileLocalOracles discovered st)) k =
      (case map_get discovered k of None \<Rightarrow> None
       | Some new \<Rightarrow> if os_status new = compacted then None
           else Some (case map_get (st_oracles st) k of None \<Rightarrow> new
             | Some ex \<Rightarrow> ex\<lparr>os_status := os_status new, os_registeredCapIds := os_registeredCapIds new\<rparr>))
    \<and> (\<forall>ids. fetchCompactedOracleIds predict pages = Some ids \<longrightarrow> k \<in> set ids \<longrightarrow>
         map_get (st_oracles (reconcileLocalOracles discovered st)) k = None)"
proof -
  obtain cids where c: "fetchCompactedOracleIds predict pages = Some cids" and k: "keyed discovered"
    and v: "\<And>e. e \<in> set discovered \<Longrightarrow> \<exists>r. discovered_entry config capIds cids now r = Some (snd e)"
    using discoverOracles_entries [OF assms(1)] by blast
  have "os_status new = compacted" if "map_get discovered k = Some new" "k \<in> set cids" for new
  proof -
    have "(k, new) \<in> set discovered" using that(1) k map_get_in [of discovered] by (simp add: keyed_def)
    then obtain r where "discovered_entry config capIds cids now r = Some new" using v by fastforce
    from discovered_entry_facts(3) [OF this] show ?thesis using that keyed_get [OF k that(1)] by simp
  qed
  then have "map_get (st_oracles (reconcileLocalOracles discovered st)) k = None" if "k \<in> set cids"
    using that reconcile_get [OF k assms(2)] by (auto split: option.splits)
  then show ?thesis using c reconcile_get [OF k assms(2)] by auto
qed

definition demo_object :: OracleObject where
  "demo_object =
     \<lparr>oo_objectId = ''0xa'', oo_content = Some
        \<lparr>oc_dataType = ''moveObject'', oc_authorized_caps = Some [''c0''], oc_settlement_price = SettlementOther,
         oc_underlying_asset = Some ''BTC'', oc_expiry = Some (JNum 900000), oc_active = Some (JBool True)\<rparr>\<rparr>"

theorem reconcile_mirrors_discovery_witness:
  "\<exists>d. discoverOracles demo_config [''c0''] 1000 (\<lambda>_. Some (Some [''0xa'']))
       (Some (Some \<lparr>pd_dataType = ''moveObject'', pd_settledTableId = Some ''0xt''\<rparr>))
       [Some \<lparr>fp_names = [Some ''0xa''], fp_hasNextPage = False, fp_nextCursor = None\<rparr>] (\<lambda>_. Inr [Some demo_object]) = Some (Inr d)
     \<and> map_get (st_oracles demo_service) ''0xa'' \<noteq> None
     \<and> map_get (st_oracles (reconcileLocalOracles d demo_service)) ''0xa'' = None"
proof -
  let ?predict = "Some (Some \<lparr>pd_dataType = ''moveObject'', pd_settledTableId = Some ''0xt''\<rparr>)"
    and ?pages = "[Some \<lparr>fp_names = [Some ''0xa''], fp_hasNextPage = False, fp_nextCursor = None\<rparr>]"
  let ?r = "discoverOracles demo_config [''c0''] 1000 (\<lambda>_. Some (Some [''0xa''])) ?predict ?pages (\<lambda>_. Inr [Some demo_object])"
  have "case ?r of Some (Inr _) \<Rightarrow> True | _ \<Rightarrow> False" by code_simp
  then obtain d where d: "?r = Some (Inr d)" by (auto split: option.splits sum.splits)
  have k: "keyed (st_oracles demo_service)" "map_get (st_oracles demo_service) ''0xa'' \<noteq> None" by code_simp+
  have "fetchCompactedOracleIds ?predict ?pages = Some [''0xa'']" by code_simp
  then have "map_get (st_oracles (reconcileLocalOracles d demo_service)) ''0xa'' = None"
    using conjunct2 [OF conjunct2 [OF reconcile_mirrors_discovery [OF d k(1), of "''0xa''"]]] by simp
  then show ?thesis using d k(2) by blast
qed

end
