(* ===== verification/OracleManager.thy ===== *)
theory OracleManager
  imports OracleExecutor
begin

text \<open>
  Invariants of the manager window (\<open>runManagerWindow\<close> in \<open>oracle-feed/executor.ts\<close>). The interface
  \<open>mgr_property\<close> lists the primitive changes that the steps of the window make, and the calls they add to a
  transaction, each for an oracle and a capability the window may name; whatever these keep, the whole window keeps, on
  every path and also when it throws. A property of
  the service state alone, \<open>mgr_invariant\<close>, is an instance of it, which is interpreted for the
  lanes (numbers, capabilities, availability) and for the local oracles (each under its own identifier).
\<close>

locale mgr_property =
  fixes Q :: "Mgr \<Rightarrow> bool" and ok :: "Transaction \<Rightarrow> bool" and E :: "(js_number \<Rightarrow> tx_arg res) \<Rightarrow> bool"
    and config :: Config and oid :: "string \<Rightarrow> bool" and cap :: "string \<Rightarrow> bool" and w :: World
  assumes execute: "Q g \<Longrightarrow> ok tx \<Longrightarrow> Q (fst (mgr_execute w tx g))"
    and set_oracle: "Q g \<Longrightarrow> oid (os_id o') \<Longrightarrow> Q (set_oracle o' g)"
    and delete: "Q g \<Longrightarrow> Q (g\<lparr>mg_st := (mg_st g)\<lparr>st_oracles := map_delete k (st_oracles (mg_st g))\<rparr>\<rparr>)"
    and svi: "Q g \<Longrightarrow> Q (g\<lparr>mg_st := (mg_st g)\<lparr>st_sviCache := c\<rparr>\<rparr>)"
    and clocks: "Q g \<Longrightarrow> Q (g\<lparr>mg_clocks := n\<rparr>)"
    and synced: "Q g \<Longrightarrow> Q (g\<lparr>mg_synced := os\<rparr>)"
    and oid_local: "Q g \<Longrightarrow> map_get (st_oracles (mg_st g)) k = Some o' \<Longrightarrow> oid (os_id o')"
    and oid_created: "Q g \<Longrightarrow> snd (mgr_execute w tx g) = Some r \<Longrightarrow> e \<in> set (fst (parseOracleEvents (rs_events r) (cf_predictPackageId config)))
      \<Longrightarrow> oid (ce_oracleId e)"
    and cap_lane0: "Q g \<Longrightarrow> cap (ln_capId (lane0 g))"
    and cap_lane: "Q g \<Longrightarrow> l \<in> set (st_lanes (mg_st g)) \<Longrightarrow> cap (ln_capId l)"
    and ok_lane: "Q g \<Longrightarrow> ok (newLaneTx address (lane0 g))"
    and ok_register: "ok tx \<Longrightarrow> oid i \<Longrightarrow> cap c' \<Longrightarrow> ok (addRegisterCap (cf_predictPackageId config) i (cf_adminCapId config) c' tx)"
    and ok_activate: "ok tx \<Longrightarrow> oid i \<Longrightarrow> cap c' \<Longrightarrow> ok (addActivate (cf_predictPackageId config) i c' tx)"
    and ok_compact: "ok tx \<Longrightarrow> oid i \<Longrightarrow> cap c' \<Longrightarrow> ok (addCompact (cf_predictPackageId config) (cf_predictId config) i c' tx)"
    and ok_prices: "E u64 \<Longrightarrow> ok tx \<Longrightarrow> oid i \<Longrightarrow> cap c' \<Longrightarrow> addUpdatePrices u64 (cf_predictPackageId config) i c' x y tx = Inr tx' \<Longrightarrow> ok tx'"
    and ok_svi: "E u64 \<Longrightarrow> ok tx \<Longrightarrow> oid i \<Longrightarrow> cap c' \<Longrightarrow> addUpdateSvi u64 (cf_predictPackageId config) i c' ps tx = Inr tx' \<Longrightarrow> ok tx'"
    and ok_create: "E u64 \<Longrightarrow> ok tx \<Longrightarrow> cap c' \<Longrightarrow> addCreateOracle u64 (cf_predictPackageId config)
        \<lparr>ca_registryId = cf_registryId config, ca_predictId = cf_predictId config, ca_adminCapId = cf_adminCapId config,
          ca_capId = c', ca_underlying = ua, ca_expiryMs = t, ca_minStrike = k', ca_tickSize = z\<rparr> tx = Inr tx' \<Longrightarrow> ok tx'"
begin

definition keeps :: "(Mgr \<Rightarrow> mgr_result) \<Rightarrow> bool" where
  "keeps f \<longleftrightarrow> (\<forall>g. Q g \<longrightarrow> Q (fst (f g)))"

lemma keepsI: "(\<And>g. Q g \<Longrightarrow> Q (fst (f g))) \<Longrightarrow> keeps f"
  by (simp add: keeps_def)

lemma keepsD: "keeps f \<Longrightarrow> Q g \<Longrightarrow> f g = (g', e) \<Longrightarrow> Q g'"
  by (metis fst_conv keeps_def)

lemma keeps_loop: "(\<And>x. keeps (f x)) \<Longrightarrow> keeps (mgr_loop f xs)"
proof (rule keepsI)
  fix g :: Mgr assume a: "\<And>x. keeps (f x)" and p: "Q g"
  from p show "Q (fst (mgr_loop f xs g))"
  proof (induction xs arbitrary: g)
    case (Cons x xs)
    then show ?case using keepsD [OF a [of x]] by (auto split: prod.splits option.splits)
  qed simp
qed

lemma keeps_then: "keeps f \<Longrightarrow> keeps h \<Longrightarrow> keeps (\<lambda>g. mgr_then (f g) h)"
  by (auto simp: keeps_def mgr_then_def split: prod.splits option.splits)

lemma fold_set_oracle: "Q g \<Longrightarrow> \<forall>e\<in>set es. oid (os_id (f e)) \<Longrightarrow> Q (fold (\<lambda>e. set_oracle (f e)) es g)"
  by (induction es arbitrary: g) (auto simp: set_oracle)

lemma fold_register:
  "ok tx \<Longrightarrow> oid i \<Longrightarrow> \<forall>c\<in>set caps. cap c \<Longrightarrow> ok (fold (\<lambda>c. addRegisterCap (cf_predictPackageId config) i (cf_adminCapId config) c) caps tx)"
  by (induction caps arbitrary: tx) (auto simp: ok_register)

text \<open>A step submits one transaction and then changes oracles, or stops before it.\<close>

lemma execute_pair: "Q g \<Longrightarrow> ok tx \<Longrightarrow> mgr_execute w tx g = (g', r) \<Longrightarrow> Q g'"
  using execute by (metis fst_conv)

lemma keeps_create:
  assumes "E u64"
  shows "keeps (createOracleStep u64 config address w tier expiryMs)"
proof (rule keepsI)
  fix g :: Mgr assume g: "Q g"
  note tx = ok_create [OF assms ok_lane [OF g] cap_lane0 [OF g]]
  show "Q (fst (createOracleStep u64 config address w tier expiryMs g))"
    using g oid_created [OF g]
    by (auto simp: createOracleStep_def Let_def intro!: fold_set_oracle
      intro: execute_pair [OF g tx] split: sum.splits prod.splits option.splits) (metis snd_conv)+
qed

lemma keeps_bootstrap:
  assumes "E u64" "oid (os_id o')"
  shows "keeps (bootstrapOracleStep u64 config address w o')"
proof (rule keepsI)
  fix g :: Mgr assume g: "Q g"
  have "\<forall>c\<in>set (filter (\<lambda>c. c \<notin> set (os_registeredCapIds o')) (map ln_capId (st_lanes (mg_st g)))). cap c"
    using cap_lane [OF g] by auto
  note tx = ok_svi [OF assms(1) ok_activate [OF fold_register [OF ok_lane [OF g] assms(2) this] assms(2) cap_lane0 [OF g]]
      assms(2) cap_lane0 [OF g]]
  show "Q (fst (bootstrapOracleStep u64 config address w o' g))"
    using g assms(2) by (auto simp: bootstrapOracleStep_def Let_def intro!: svi set_oracle
        intro: execute_pair [OF g tx] split: sum.splits prod.splits option.splits)
qed

lemma keeps_settle:
  assumes "E u64" "oid (os_id o')"
  shows "keeps (settleOracleStep u64 config address w o')"
proof (rule keepsI)
  fix g :: Mgr assume "Q g"
  then have p: "Q (g\<lparr>mg_clocks := Suc (mg_clocks g)\<rparr>)" by (rule clocks)
  have l: "lane0 (g\<lparr>mg_clocks := Suc (mg_clocks g)\<rparr>) = lane0 g" by (simp add: lane0_def)
  note lane = ok_lane [OF p, unfolded l] and c = cap_lane0 [OF p, unfolded l]
  note tx = ok_prices [OF assms(1) lane assms(2) c] ok_prices [OF assms(1) ok_register [OF lane assms(2) c] assms(2) c]
  show "Q (fst (settleOracleStep u64 config address w o' g))"
    using p assms(2) by (auto simp: settleOracleStep_def addSettleNudge_def Let_def l intro!: set_oracle
        intro: execute_pair [OF p tx(1)] execute_pair [OF p tx(2)] split: sum.splits prod.splits option.splits if_splits)
qed

lemma keeps_compact:
  assumes "oid (os_id o')"
  shows "keeps (compactOracleStep config address w o')"
proof (rule keepsI)
  fix g :: Mgr assume g: "Q g"
  note c = cap_lane0 [OF g]
  note tx = ok_compact [OF ok_lane [OF g] assms c] ok_compact [OF ok_register [OF ok_lane [OF g] assms c] assms c]
  show "Q (fst (compactOracleStep config address w o' g))"
    by (auto simp: compactOracleStep_def Let_def intro: execute_pair [OF g tx(1)] execute_pair [OF g tx(2)]
        delete [OF execute_pair [OF g tx(1)]] delete [OF execute_pair [OF g tx(2)]] split: prod.splits option.splits)
qed

lemma keeps_for_status: "(\<And>o'. oid (os_id o') \<Longrightarrow> keeps (step o')) \<Longrightarrow> keeps (for_status p step)"
proof (rule keepsI)
  fix g :: Mgr assume s: "\<And>o'. oid (os_id o') \<Longrightarrow> keeps (step o')" and g: "Q g"
  let ?body = "\<lambda>i g. case map_get (st_oracles (mg_st g)) i of None \<Rightarrow> (g, None) | Some o' \<Rightarrow> if p o' g then step o' g else (g, None)"
  have "keeps (?body i)" for i using s oid_local by (auto simp: keeps_def split: option.splits)
  then have "keeps (mgr_loop ?body xs)" for xs by (rule keeps_loop)
  then show "Q (fst (for_status p step g))" unfolding for_status_def using g by (simp add: keeps_def)
qed

lemma keeps_create_missing:
  assumes "E u64"
  shows "keeps (create_missing u64 config address w now)"
  unfolding create_missing_def
proof (intro keeps_loop keepsI, goal_cases)
  case (1 tier expiryMs g)
  then show ?case using keeps_create [OF assms] by (auto simp: keeps_def)
qed

text \<open>The whole window, from the state after the refresh and the reconciled oracles on.\<close>

lemma keeps_work:
  assumes e: "E u64" and start: "Q \<lparr>mg_st = st, mg_replies = 0, mg_clocks = 1, mg_sent = [], mg_synced = None\<rparr>"
    and refreshed: "\<And>lanes tx. refreshGasLanesIfNeeded address config (Some (st_lanes st)) (wd_coins w) (wd_submit w) (wd_coinsAfter w) = Inr (Some lanes, tx)
      \<Longrightarrow> Q \<lparr>mg_st = apply_frames (wd_frames w) (st\<lparr>st_lanes := lanes\<rparr>), mg_replies = 0, mg_clocks = 1,
            mg_sent = (case tx of None \<Rightarrow> [] | Some t \<Rightarrow> [t]), mg_synced = None\<rparr>"
    and reconciled: "\<And>g d now. Q g \<Longrightarrow> wd_discovered w now = Inr d \<Longrightarrow> Q (g\<lparr>mg_st := reconcileLocalOracles d (mg_st g)\<rparr>)"
  shows "Q (fst (manager_work u64 config address w st))"
proof (cases "refreshGasLanesIfNeeded address config (Some (st_lanes st)) (wd_coins w) (wd_submit w) (wd_coinsAfter w)")
  case (Inl e)
  then show ?thesis using start by (simp add: manager_work_def Let_def)
next
  case (Inr r)
  obtain lanes tx where r: "r = (Some lanes, tx)"
    using Inr by (auto simp: refreshGasLanesIfNeeded_def Let_def bindE_eq_Inr split: if_splits list.splits)
  define g1 where "g1 = \<lparr>mg_st = apply_frames (wd_frames w) (st\<lparr>st_lanes := lanes\<rparr>), mg_replies = 0, mg_clocks = 1,
    mg_sent = (case tx of None \<Rightarrow> [] | Some t \<Rightarrow> [t]), mg_synced = None\<rparr>"
  have p1: "Q g1" unfolding g1_def using refreshed Inr r by simp
  show ?thesis
  proof (cases "wd_discovered w (wd_clock w 0)")
    case (Inl e)
    then show ?thesis using p1 Inr r by (simp add: manager_work_def Let_def g1_def)
  next
    case (Inr d)
    let ?tail = "\<lambda>g. (g\<lparr>mg_synced := Some (map_values (st_oracles (mg_st g)))\<rparr>, None :: js_error option)"
    have t: "keeps ?tail" by (rule keepsI) (simp add: synced)
    have w: "manager_work u64 config address w st =
        mgr_then (create_missing u64 config address w (wd_clock w 0) (g1\<lparr>mg_st := reconcileLocalOracles d (mg_st g1)\<rparr>)) (\<lambda>g.
        mgr_then (for_status (\<lambda>o' g. os_status o' = inactive \<and> map_get (st_sviCache (mg_st g)) (os_id o') \<noteq> None)
          (bootstrapOracleStep u64 config address w) g) (\<lambda>g.
        mgr_then (for_status (\<lambda>o' g. os_status o' = pending_settlement) (settleOracleStep u64 config address w) g) (\<lambda>g.
        mgr_then (for_status (\<lambda>o' g. os_status o' = settled) (compactOracleStep config address w) g) ?tail)))"
      using \<open>refreshGasLanesIfNeeded _ _ _ _ _ _ = _\<close> r Inr
      by (simp add: manager_work_def Let_def g1_def)
    have "Q (g1\<lparr>mg_st := reconcileLocalOracles d (mg_st g1)\<rparr>)" using reconciled [OF p1 Inr] .
    moreover have "keeps (\<lambda>g. mgr_then (create_missing u64 config address w (wd_clock w 0) g) (\<lambda>g.
        mgr_then (for_status (\<lambda>o' g. os_status o' = inactive \<and> map_get (st_sviCache (mg_st g)) (os_id o') \<noteq> None)
          (bootstrapOracleStep u64 config address w) g) (\<lambda>g.
        mgr_then (for_status (\<lambda>o' g. os_status o' = pending_settlement) (settleOracleStep u64 config address w) g) (\<lambda>g.
        mgr_then (for_status (\<lambda>o' g. os_status o' = settled) (compactOracleStep config address w) g) ?tail))))"
      by (intro keeps_then keeps_create_missing keeps_for_status keeps_bootstrap keeps_settle keeps_compact t e)
    ultimately show ?thesis unfolding w keeps_def by blast
  qed
qed

end

text \<open>A property of the service state alone holds whatever the transactions are.\<close>

locale mgr_invariant =
  fixes P :: "ServiceState \<Rightarrow> bool" and config :: Config and w :: World
  assumes execute_st: "P (mg_st g) \<Longrightarrow> P (mg_st (fst (mgr_execute w tx g)))"
    and set_oracle_st: "P (mg_st g) \<Longrightarrow> P (mg_st (set_oracle o' g))"
    and delete_st: "P st \<Longrightarrow> P (st\<lparr>st_oracles := map_delete k (st_oracles st)\<rparr>)"
    and svi_st: "P st \<Longrightarrow> P (st\<lparr>st_sviCache := c\<rparr>)"

sublocale mgr_invariant \<subseteq> mgr_property "\<lambda>g. P (mg_st g)" "\<lambda>_. True" "\<lambda>_. True" config "\<lambda>_. True" "\<lambda>_. True" w
  by unfold_locales (simp_all add: execute_st set_oracle_st delete_st svi_st)

context mgr_invariant
begin

lemma keeps_window:
  assumes "P st"
    and "\<And>lanes tx. refreshGasLanesIfNeeded address config (Some (st_lanes st)) (wd_coins w) (wd_submit w) (wd_coinsAfter w) = Inr (Some lanes, tx)
      \<Longrightarrow> P (apply_frames (wd_frames w) (st\<lparr>st_lanes := lanes\<rparr>))"
    and "\<And>s d now. P s \<Longrightarrow> wd_discovered w now = Inr d \<Longrightarrow> P (reconcileLocalOracles d s)"
  shows "P (mg_st (fst (manager_work u64 config address w st)))"
  using assms by (intro keeps_work) simp_all

end

section \<open>Lanes\<close>

definition lanes_idle :: "string list \<Rightarrow> bool \<Rightarrow> ServiceState \<Rightarrow> bool" where
  "lanes_idle caps fl st \<longleftrightarrow>
     map ln_capId (st_lanes st) = caps \<and> list_all ln_available (st_lanes st) \<and> st_managerInFlight st = fl"

lemma apply_frames_lanes [simp]:
  "st_lanes (apply_frames vs st) = st_lanes st" "st_managerInFlight (apply_frames vs st) = st_managerInFlight st"
  "st_oracles (apply_frames vs st) = st_oracles st"
  by (simp_all add: apply_frames_def split: prod.splits)

lemma executeLaneTx_end_lane:
  "ln_available (fst (executeLaneTx_end io l))" "ln_capId (fst (executeLaneTx_end io l)) = ln_capId l"
  "ln_id (fst (executeLaneTx_end io l)) = ln_id l" "ln_gasCoinId (fst (executeLaneTx_end io l)) = ln_gasCoinId l"
  by (auto simp: executeLaneTx_end_def lane_catch_def refreshLaneGasRef_def adopt_gas_ref_def
      split: sign_reply.splits option.splits sum.splits prod.splits)

lemma release_lane_lanes:
  "st_lanes (fst (release_lane i io st)) = (st_lanes st)[i := fst (executeLaneTx_end io (st_lanes st ! i))]"
  "st_managerInFlight (fst (release_lane i io st)) = st_managerInFlight st"
  "st_oracles (fst (release_lane i io st)) = st_oracles st"
  by (simp_all add: release_lane_def split: prod.splits)

lemma map_update_same: "f y = f (xs ! i) \<Longrightarrow> map f (xs[i := y]) = map f xs"
  by (metis list_update_id map_update)

lemma mgr_execute_st:
  "mg_st (fst (mgr_execute w tx g)) = fst (release_lane 0 (mr_io (wd_reply w (mg_replies g)))
     (apply_frames (mr_frames (wd_reply w (mg_replies g))) (take_lane 0 (mg_st g))))"
  by (simp add: mgr_execute_def Let_def split: prod.splits)

lemma lanes_idle_execute: "lanes_idle caps fl (mg_st g) \<Longrightarrow> lanes_idle caps fl (mg_st (fst (mgr_execute w tx g)))"
proof -
  assume a: "lanes_idle caps fl (mg_st g)"
  let ?ls = "st_lanes (mg_st g)" and ?io = "mr_io (wd_reply w (mg_replies g))"
  define l where "l = fst (executeLaneTx_end ?io (?ls[0 := (?ls ! 0)\<lparr>ln_available := False\<rparr>] ! 0))"
  have ls: "st_lanes (mg_st (fst (mgr_execute w tx g))) = ?ls[0 := l]"
    unfolding mgr_execute_st release_lane_lanes l_def by (simp add: take_lane_def)
  have "?ls = [] \<or> ln_capId l = ln_capId (?ls ! 0)"
    unfolding l_def executeLaneTx_end_lane(2) by (cases ?ls) simp_all
  then have "map ln_capId (?ls[0 := l]) = map ln_capId ?ls" using map_update_same by (metis list_update.simps(1))
  moreover have "ln_available l" unfolding l_def by (rule executeLaneTx_end_lane(1))
  then have "list_all ln_available (?ls[0 := l])"
    using a set_update_subset_insert [of ?ls 0 l] by (auto simp: lanes_idle_def list_all_iff)
  moreover have "st_managerInFlight (mg_st (fst (mgr_execute w tx g))) = st_managerInFlight (mg_st g)"
    unfolding mgr_execute_st release_lane_lanes by (simp add: take_lane_def)
  ultimately show ?thesis using a ls by (simp add: lanes_idle_def)
qed

interpretation mgr_lanes: mgr_invariant "lanes_idle caps fl" config w for caps fl config w
  by unfold_locales (rule lanes_idle_execute, assumption, simp_all add: set_oracle_def lanes_idle_def)

lemma reconcile_lanes [simp]:
  "st_lanes (reconcileLocalOracles d st) = st_lanes st" "st_managerInFlight (reconcileLocalOracles d st) = st_managerInFlight st"
  by (simp_all add: reconcileLocalOracles_def Let_def)

lemma refresh_keeps_lanes:
  assumes "refreshGasLanesIfNeeded address config (Some ls) coins reply after = Inr (Some ls', tx)"
  shows "map ln_capId ls' = map ln_capId ls" "list_all ln_available ls'"
proof -
  obtain cs where c: "coins = Inr cs" using assms by (cases coins) (auto simp: refreshGasLanesIfNeeded_def split: if_splits)
  have "map ln_capId ls' = map ln_capId ls \<and> (\<forall>l \<in> set ls. ln_available l) \<and> map ln_available ls' = map ln_available ls"
    using assms unfolding c
  proof (cases rule: refresh_cases)
    case (2 aft tx' primary others)
    then have "length ls = length (take (cf_laneCount config) (sortCoinsByBalanceDesc aft))"
      by (simp add: sortCoinsByBalanceDesc_def)
    from map_lane_coin [OF this] 2 show ?thesis by simp
  qed simp
  then show "map ln_capId ls' = map ln_capId ls" "list_all ln_available ls'"
    by (auto simp: list_all_iff) (metis image_eqI image_iff list.set_map)
qed

text \<open>The window gives every lane back, keeps the capabilities and never drops the flag itself.\<close>

lemma manager_work_lanes:
  assumes "lanes_idle caps fl st"
  shows "lanes_idle caps fl (mg_st (fst (manager_work u64 config address w st)))"
proof (rule mgr_lanes.keeps_window [OF assms])
  fix lanes tx
  assume "refreshGasLanesIfNeeded address config (Some (st_lanes st)) (wd_coins w) (wd_submit w) (wd_coinsAfter w) = Inr (Some lanes, tx)"
  from refresh_keeps_lanes [OF this] assms
  show "lanes_idle caps fl (apply_frames (wd_frames w) (st\<lparr>st_lanes := lanes\<rparr>))" by (simp add: lanes_idle_def)
qed (simp add: lanes_idle_def)

section \<open>Local oracles\<close>

lemma keyed_execute: "keyed (st_oracles (mg_st g)) \<Longrightarrow> keyed (st_oracles (mg_st (fst (mgr_execute w tx g))))"
  unfolding mgr_execute_st release_lane_lanes by (simp add: take_lane_def)

interpretation mgr_keyed: mgr_invariant "\<lambda>st. keyed (st_oracles st)" config w for config w
  by unfold_locales (auto simp: keyed_execute set_oracle_def keyed_set keyed_delete)

lemma manager_work_keyed:
  assumes "keyed (st_oracles st)" "\<And>now d. wd_discovered w now = Inr d \<Longrightarrow> keyed d"
  shows "keyed (st_oracles (mg_st (fst (manager_work u64 config address w st))))"
  using assms reconcile_get by (intro mgr_keyed.keeps_window) auto

end
