(* ===== verification/OracleService.thy ===== *)
theory OracleService
  imports OracleManager
begin

text \<open>
  \<open>oracle-feed/healthz.ts\<close> and the timers of \<open>oracle-feed/index.ts\<close>: the verdict of the health check, and
  the interleaving of push ticks, their completions, manager windows and feed frames as a step relation.
  The invariant of the reachable states says which transaction owns which lane at any moment.
\<close>

section \<open>Health\<close>

definition BOOT_GRACE_MS :: int where "BOOT_GRACE_MS = 30000"
definition PUSH_FRESH_MS :: int where "PUSH_FRESH_MS = 10000"
definition WS_STALE_MS :: int where "WS_STALE_MS = 60000"

record health_opts =
  ho_now :: int
  ho_bootTs :: int
  ho_wsConnected :: bool
  ho_lastWsFrameAtMs :: int
  ho_lastPushMs :: int
  ho_managerInFlight :: bool
  ho_managerGraceMs :: int

datatype HealthVerdict = HealthOk | WsStale | PushStale

definition evaluateHealth :: "health_opts \<Rightarrow> HealthVerdict" where
  "evaluateHealth opts =
     (let wsOk = ho_wsConnected opts \<or> ho_now opts - ho_lastWsFrameAtMs opts < WS_STALE_MS;
          pushFreshMs = ho_now opts - ho_lastPushMs opts;
          bootGraceOk = (ho_lastPushMs opts = 0 \<and> ho_now opts - ho_bootTs opts < BOOT_GRACE_MS);
          pushFresh = (pushFreshMs < PUSH_FRESH_MS);
          managerGraceOk = (ho_managerInFlight opts \<and> pushFreshMs < ho_managerGraceMs opts);
          pushOk = (bootGraceOk \<or> pushFresh \<or> managerGraceOk)
      in if \<not> wsOk then WsStale else if \<not> pushOk then PushStale else HealthOk)"

definition isHealthy :: "Config \<Rightarrow> int \<Rightarrow> int \<Rightarrow> Subscriber \<Rightarrow> ServiceState \<Rightarrow> HealthVerdict" where
  "isHealthy config bootTs now sub st =
     evaluateHealth \<lparr>ho_now = now, ho_bootTs = bootTs, ho_wsConnected = isConnected sub, ho_lastWsFrameAtMs = sb_lastFrame sub,
       ho_lastPushMs = st_lastPushMs st, ho_managerInFlight = st_managerInFlight st, ho_managerGraceMs = cf_managerGraceMs config\<rparr>"

text \<open>The reply: code, and the fields of the body (\<open>reason\<close> is absent when healthy).\<close>

definition health_request :: "string \<Rightarrow> HealthVerdict \<Rightarrow> bool \<Rightarrow> nat \<times> (string \<times> string) list" where
  "health_request url h managerInFlight =
     (if url \<noteq> ''/healthz'' then (404, [])
      else let paused = (''push_paused_for_manager'', if managerInFlight then ''true'' else ''false'') in
        case h of
          HealthOk \<Rightarrow> (200, [(''status'', ''ok''), paused])
        | WsStale \<Rightarrow> (503, [(''status'', ''degraded''), (''reason'', ''ws_stale''), paused])
        | PushStale \<Rightarrow> (503, [(''status'', ''degraded''), (''reason'', ''push_stale''), paused]))"

text \<open>A stuck window cannot hide: once the last push is older than the grace and than ten seconds and the
  service is past its start, the verdict is never healthy.\<close>

lemma stuck_manager_surfaces:
  assumes "ho_lastPushMs opts \<noteq> 0 \<or> BOOT_GRACE_MS \<le> ho_now opts - ho_bootTs opts"
    and "max (ho_managerGraceMs opts) PUSH_FRESH_MS \<le> ho_now opts - ho_lastPushMs opts"
  shows "evaluateHealth opts \<noteq> HealthOk"
  using assms by (auto simp: evaluateHealth_def Let_def)

section \<open>Interleaving\<close>

text \<open>The pushes that await their outcome, and how far the manager window is. \<open>Working\<close> covers the window
  after the lanes have drained; its transactions and the frames that arrive meanwhile are in the world
  of \<open>manager_work\<close>, and a tick in this phase returns at once because the flag is set.\<close>

datatype mgr_phase = Off | Draining | Working

record Svc =
  sc_st :: ServiceState
  sc_pushes :: "(nat \<times> Transaction \<times> (string \<times> stamp) list) list"
  sc_phase :: mgr_phase

definition new_pushes :: "tick_outcome \<Rightarrow> (nat \<times> Transaction \<times> (string \<times> stamp) list) list" where
  "new_pushes out = (case out of Submitting i tx ps \<Rightarrow> [(i, tx, ps)] | _ \<Rightarrow> [])"

definition svc_init :: "(string, OracleState) js_Map \<Rightarrow> Lane list \<Rightarrow> string list \<Rightarrow> Svc" where
  "svc_init oracles lanes capIds =
     \<lparr>sc_st = \<lparr>st_oracles = oracles, st_lanes = lanes, st_capIds = capIds, st_priceCache = \<lparr>pc_spot = None, pc_forwards = []\<rparr>,
        st_sviCache = [], st_managerInFlight = False, st_laneHint = 0, st_lastPushMs = 0\<rparr>,
      sc_pushes = [], sc_phase = Off\<rparr>"

text \<open>The discovery in the world of a window is a result of \<open>discoverOracles\<close> on some replies. The steps: the push timer (a window is started instead when one is due), the completion of a push,
  the manager timer, the three ends of a window, and a frame of the feed.\<close>

definition discovers :: "Config \<Rightarrow> string list \<Rightarrow> World \<Rightarrow> bool" where
  "discovers config capIds w \<longleftrightarrow>
     (\<forall>now. \<exists>dev predict pages mg. discoverOracles config capIds now dev predict pages mg = Some (wd_discovered w now))"

inductive svc_step :: "(js_number \<Rightarrow> tx_arg res) \<Rightarrow> Config \<Rightarrow> string \<Rightarrow> Svc \<Rightarrow> Svc \<Rightarrow> bool"
  for u64 config address where
  tick: "\<not> shouldRunManagerWindowNow (sc_st s) now (cf_priceCacheStaleMs config) \<Longrightarrow>
    pushTick u64 config address now' (sc_st s) = (out, st') \<Longrightarrow>
    svc_step u64 config address s (s\<lparr>sc_st := st', sc_pushes := sc_pushes s @ new_pushes out\<rparr>)"
| push_done: "sc_pushes s = xs @ (i, tx, ps) # ys \<Longrightarrow>
    svc_step u64 config address s (s\<lparr>sc_st := pushTick_done i ps io now (sc_st s), sc_pushes := xs @ ys\<rparr>)"
| mgr_start: "manager_begin (sc_st s) = Some st' \<Longrightarrow> svc_step u64 config address s (s\<lparr>sc_st := st', sc_phase := Draining\<rparr>)"
| mgr_busy: "manager_begin (sc_st s) = None \<Longrightarrow> svc_step u64 config address s s"
| mgr_drained: "sc_phase s = Draining \<Longrightarrow> list_all ln_available (st_lanes (sc_st s)) \<Longrightarrow>
    svc_step u64 config address s (s\<lparr>sc_phase := Working\<rparr>)"
| mgr_timeout: "sc_phase s = Draining \<Longrightarrow>
    svc_step u64 config address s (s\<lparr>sc_st := manager_end (sc_st s), sc_phase := Off\<rparr>)"
| mgr_finish: "sc_phase s = Working \<Longrightarrow> discovers config (st_capIds (sc_st s)) w \<Longrightarrow> manager_work u64 config address w (sc_st s) = (g, e) \<Longrightarrow>
    svc_step u64 config address s (s\<lparr>sc_st := manager_end (mg_st g), sc_phase := Off\<rparr>)"
| frame: "svc_step u64 config address s (s\<lparr>sc_st := apply_frames vs (sc_st s)\<rparr>)"

definition svc_reachable :: "(js_number \<Rightarrow> tx_arg res) \<Rightarrow> Config \<Rightarrow> string \<Rightarrow> Svc \<Rightarrow> Svc \<Rightarrow> bool" where
  "svc_reachable u64 config address = (svc_step u64 config address)\<^sup>*\<^sup>*"

section \<open>Lane ownership\<close>

definition lane_inv :: "string list \<Rightarrow> Svc \<Rightarrow> bool" where
  "lane_inv caps s \<longleftrightarrow>
     map ln_capId (st_lanes (sc_st s)) = caps
     \<and> distinct (map fst (sc_pushes s))
     \<and> (\<forall>(i, tx, ps) \<in> set (sc_pushes s). i < length (st_lanes (sc_st s))
          \<and> (\<exists>v d. tx_gasPayment tx = [(ln_gasCoinId (st_lanes (sc_st s) ! i), v, d)]))
     \<and> (\<forall>i < length (st_lanes (sc_st s)). ln_available (st_lanes (sc_st s) ! i) \<longleftrightarrow> i \<notin> fst ` set (sc_pushes s))
     \<and> (st_managerInFlight (sc_st s) \<longleftrightarrow> sc_phase s \<noteq> Off)
     \<and> (sc_phase s = Working \<longrightarrow> sc_pushes s = [])"

lemma pushTick_frame:
  assumes "pushTick u64 config address now st = (out, st')" "encoder u64"
  shows "st_managerInFlight st' = st_managerInFlight st"
    "(\<exists>i tx ps. out = Submitting i tx ps \<and> \<not> st_managerInFlight st \<and> i < length (st_lanes st) \<and> ln_available (st_lanes st ! i)
        \<and> st_lanes st' = (st_lanes st)[i := (st_lanes st ! i)\<lparr>ln_available := False\<rparr>]
        \<and> (\<exists>v d. tx_gasPayment tx = [(ln_gasCoinId (st_lanes st ! i), v, d)]))
     \<or> (new_pushes out = [] \<and> st_lanes st' = st_lanes st)"
proof -
  show "st_managerInFlight st' = st_managerInFlight st"
    using assms(1) nextAvailableLane_some(3)
    by (fastforce simp: pushTick_def Let_def take_lane_def split: if_splits option.splits prod.splits sum.splits)
  show "(\<exists>i tx ps. out = Submitting i tx ps \<and> \<not> st_managerInFlight st \<and> i < length (st_lanes st) \<and> ln_available (st_lanes st ! i)
        \<and> st_lanes st' = (st_lanes st)[i := (st_lanes st ! i)\<lparr>ln_available := False\<rparr>]
        \<and> (\<exists>v d. tx_gasPayment tx = [(ln_gasCoinId (st_lanes st ! i), v, d)]))
     \<or> (new_pushes out = [] \<and> st_lanes st' = st_lanes st)"
  proof (cases "\<exists>i tx ps. out = Submitting i tx ps")
    case True
    then obtain i tx ps where out: "out = Submitting i tx ps" by blast
    from assms(1) [unfolded out] show ?thesis
    proof (cases rule: pushTick_submits)
      case (1 spot acc)
      have "tx_gasPayment tx = [(ln_gasCoinId (st_lanes st ! i), ln_gasCoinVersion (st_lanes st ! i), ln_gasCoinDigest (st_lanes st ! i))]"
        using push_fold_effect [OF 1(6) assms(2)] 1(8) by (simp add: newLaneTx_def)
      with 1 out show ?thesis by (simp add: take_lane_def)
    qed
  next
    case False
    then have "new_pushes out = []" by (cases out) (auto simp: new_pushes_def)
    moreover have "st_lanes st' = st_lanes st"
      using assms(1) False nextAvailableLane_some(3)
      by (fastforce simp: pushTick_def Let_def split: if_splits option.splits prod.splits sum.splits)
    ultimately show ?thesis by blast
  qed
qed

lemma pushTick_done_frame:
  "st_lanes (pushTick_done i ps io now st) = (st_lanes st)[i := fst (executeLaneTx_end io (st_lanes st ! i))]"
  "st_managerInFlight (pushTick_done i ps io now st) = st_managerInFlight st"
  using release_lane_lanes [of i io st] by (auto simp: pushTick_done_def Let_def split: prod.splits)

lemma lane_inv_init:
  "list_all ln_available lanes \<Longrightarrow> lane_inv (map ln_capId lanes) (svc_init oracles lanes capIds)"
  by (auto simp: lane_inv_def svc_init_def list_all_length)

lemma lane_inv_tick:
  assumes inv: "lane_inv caps s" and t: "pushTick u64 config address now (sc_st s) = (out, st')" and e: "encoder u64"
  shows "lane_inv caps (s\<lparr>sc_st := st', sc_pushes := sc_pushes s @ new_pushes out\<rparr>)"
  using pushTick_frame(2) [OF t e]
proof
  let ?ls = "st_lanes (sc_st s)"
  assume "\<exists>i tx ps. out = Submitting i tx ps \<and> \<not> st_managerInFlight (sc_st s) \<and> i < length ?ls \<and> ln_available (?ls ! i)
        \<and> st_lanes st' = ?ls[i := (?ls ! i)\<lparr>ln_available := False\<rparr>] \<and> (\<exists>v d. tx_gasPayment tx = [(ln_gasCoinId (?ls ! i), v, d)])"
  then obtain i tx ps where o: "out = Submitting i tx ps" "\<not> st_managerInFlight (sc_st s)" "i < length ?ls" "ln_available (?ls ! i)"
    "st_lanes st' = ?ls[i := (?ls ! i)\<lparr>ln_available := False\<rparr>]" "\<exists>v d. tx_gasPayment tx = [(ln_gasCoinId (?ls ! i), v, d)]" by blast
  have g: "ln_gasCoinId (st_lanes st' ! j) = ln_gasCoinId (?ls ! j)" for j
    using o(3,5) by (cases "j = i") simp_all
  have "i \<notin> fst ` set (sc_pushes s)" using inv o(3,4) by (simp add: lane_inv_def)
  moreover have "map ln_capId (st_lanes st') = map ln_capId ?ls" unfolding o(5) by (rule map_update_same) simp
  moreover have "sc_phase s \<noteq> Working" using inv o(2) by (auto simp: lane_inv_def)
  ultimately show ?thesis
    using inv o(1,3,5,6) pushTick_frame(1) [OF t e] g by (auto simp: lane_inv_def new_pushes_def nth_list_update)
next
  assume "new_pushes out = [] \<and> st_lanes st' = st_lanes (sc_st s)"
  then show ?thesis using inv pushTick_frame(1) [OF t e] by (simp add: lane_inv_def)
qed

lemma lane_inv_done:
  assumes inv: "lane_inv caps s" and p: "sc_pushes s = xs @ (i, tx, ps) # ys"
  shows "lane_inv caps (s\<lparr>sc_st := pushTick_done i ps io now (sc_st s), sc_pushes := xs @ ys\<rparr>)"
proof -
  let ?ls = "st_lanes (sc_st s)" and ?l = "fst (executeLaneTx_end io (st_lanes (sc_st s) ! i))"
  have i: "i < length ?ls" "i \<notin> fst ` set (xs @ ys)" using inv p by (auto simp: lane_inv_def)
  have "map ln_capId (?ls[i := ?l]) = map ln_capId ?ls" by (rule map_update_same) (simp add: executeLaneTx_end_lane)
  moreover have "ln_gasCoinId (?ls[i := ?l] ! j) = ln_gasCoinId (?ls ! j)" for j
    using i(1) by (cases "j = i") (simp_all add: executeLaneTx_end_lane)
  moreover have "ln_available (?ls[i := ?l] ! j) \<longleftrightarrow> j \<notin> fst ` set (xs @ ys)" if "j < length ?ls" for j
    using inv p i that by (cases "j = i") (auto simp: lane_inv_def executeLaneTx_end_lane)
  ultimately show ?thesis
    using inv p unfolding lane_inv_def by (auto simp: pushTick_done_frame)
qed

lemma lane_inv_finish:
  assumes inv: "lane_inv caps s" and ph: "sc_phase s = Working" and w: "manager_work u64 config address w (sc_st s) = (g, e)"
  shows "lane_inv caps (s\<lparr>sc_st := manager_end (mg_st g), sc_phase := Off\<rparr>)"
proof -
  have "sc_pushes s = []" using inv ph by (simp add: lane_inv_def)
  moreover from this have "lanes_idle caps True (sc_st s)" using inv ph by (simp add: lane_inv_def lanes_idle_def list_all_length)
  from manager_work_lanes [OF this, of u64 config address w] have "lanes_idle caps True (mg_st g)" using w by simp
  ultimately show ?thesis by (simp add: lane_inv_def lanes_idle_def manager_end_def list_all_length)
qed

lemma lane_inv_step:
  assumes "svc_step u64 config address s t" "encoder u64" "lane_inv caps s"
  shows "lane_inv caps t"
  using assms(1,3)
proof cases
  case (tick now now' out st')
  then show ?thesis using lane_inv_tick assms(2,3) by blast
next
  case (push_done xs i tx ps ys io now)
  then show ?thesis using lane_inv_done assms(3) by blast
next
  case (mgr_start st')
  then have "st' = (sc_st s)\<lparr>st_managerInFlight := True\<rparr>" "\<not> st_managerInFlight (sc_st s)"
    by (auto simp: manager_begin_def split: if_splits)
  then show ?thesis using mgr_start assms(3) by (simp add: lane_inv_def)
next
  case mgr_drained
  have "sc_pushes s = []"
  proof (rule ccontr)
    assume "sc_pushes s \<noteq> []"
    then obtain i tx ps where p: "(i, tx, ps) \<in> set (sc_pushes s)" by (cases "sc_pushes s") auto
    then have "i < length (st_lanes (sc_st s))" using assms(3) by (auto simp: lane_inv_def)
    moreover have "i \<in> fst ` set (sc_pushes s)" using p by (rule rev_image_eqI) simp
    ultimately show False using mgr_drained(3) assms(3) by (simp add: lane_inv_def list_all_length)
  qed
  then show ?thesis using mgr_drained assms(3) by (simp add: lane_inv_def)
next
  case mgr_timeout
  then show ?thesis using assms(3) by (simp add: lane_inv_def manager_end_def)
next
  case (mgr_finish w g e)
  then show ?thesis using lane_inv_finish assms(3) by blast
next
  case (frame vs)
  then show ?thesis using assms(3) by (simp add: lane_inv_def)
qed simp

lemma lane_inv_reachable:
  "svc_reachable u64 config address s t \<Longrightarrow> encoder u64 \<Longrightarrow> lane_inv caps s \<Longrightarrow> lane_inv caps t"
  unfolding svc_reachable_def by (induction rule: rtranclp_induct) (auto intro: lane_inv_step)

text \<open>Lanes are exclusive wherever the invariant holds with distinct capabilities.\<close>

lemma lane_inv_exclusive:
  assumes inv: "lane_inv caps s" and "distinct caps"
  shows "distinct (map fst (sc_pushes s))"
    "distinct (map (\<lambda>p. ln_capId (st_lanes (sc_st s) ! fst p)) (sc_pushes s))"
    "\<forall>(i, tx, ps) \<in> set (sc_pushes s). \<exists>v d. tx_gasPayment tx = [(ln_gasCoinId (st_lanes (sc_st s) ! i), v, d)]"
    "\<forall>i < length caps. ln_available (st_lanes (sc_st s) ! i) \<longleftrightarrow> i \<notin> fst ` set (sc_pushes s)"
    "sc_phase s = Working \<longrightarrow> sc_pushes s = [] \<and> st_managerInFlight (sc_st s)"
    "map ln_capId (st_lanes (sc_st s)) = caps"
proof -
  let ?ls = "st_lanes (sc_st s)"
  show m: "map ln_capId ?ls = caps" using inv by (simp add: lane_inv_def)
  then have len: "length ?ls = length caps" by auto
  have d: "distinct (map ln_capId ?ls)" using m assms(2) by simp
  have lt: "fst p < length ?ls" if "p \<in> set (sc_pushes s)" for p
    using inv that by (auto simp: lane_inv_def)
  have "i = j" if "ln_capId (?ls ! i) = ln_capId (?ls ! j)" "i < length ?ls" "j < length ?ls" for i j
    using that nth_eq_iff_index_eq [OF d, of i j] by simp
  note same = this
  have "inj_on (\<lambda>i. ln_capId (?ls ! i)) (fst ` set (sc_pushes s))"
  proof (rule inj_onI)
    fix i j assume "i \<in> fst ` set (sc_pushes s)" "j \<in> fst ` set (sc_pushes s)" "ln_capId (?ls ! i) = ln_capId (?ls ! j)"
    then show "i = j" using lt same by blast
  qed
  moreover show "distinct (map fst (sc_pushes s))" using inv by (simp add: lane_inv_def)
  ultimately have "distinct (map (\<lambda>i. ln_capId (?ls ! i)) (map fst (sc_pushes s)))"
    by (simp only: distinct_map set_map simp_thms)
  then show "distinct (map (\<lambda>p. ln_capId (?ls ! fst p)) (sc_pushes s))" by (simp add: comp_def)
  show "\<forall>(i, tx, ps) \<in> set (sc_pushes s). \<exists>v d. tx_gasPayment tx = [(ln_gasCoinId (?ls ! i), v, d)]"
    using inv by (auto simp: lane_inv_def)
  show "sc_phase s = Working \<longrightarrow> sc_pushes s = [] \<and> st_managerInFlight (sc_st s)"
    using inv by (simp add: lane_inv_def)
  show "\<forall>i < length caps. ln_available (?ls ! i) \<longleftrightarrow> i \<notin> fst ` set (sc_pushes s)"
    using inv len by (simp add: lane_inv_def)
qed

text \<open>Lanes are exclusive: from a start with free lanes and distinct capabilities, in every reachable state two
  pushes in flight are on different lanes with different capabilities, each is paid by the coin of its
  own lane, a lane is free exactly when no push in flight holds it, and while the manager window works
  no push is in flight, so its transactions on the first lane are alone.\<close>

theorem lanes_are_exclusive:
  assumes "svc_reachable u64 config address (svc_init oracles lanes capIds) s"
    and "encoder u64" "list_all ln_available lanes" "distinct (map ln_capId lanes)"
  shows "distinct (map fst (sc_pushes s))
    \<and> distinct (map (\<lambda>p. ln_capId (st_lanes (sc_st s) ! fst p)) (sc_pushes s))
    \<and> (\<forall>(i, tx, ps) \<in> set (sc_pushes s). \<exists>v d. tx_gasPayment tx = [(ln_gasCoinId (st_lanes (sc_st s) ! i), v, d)])
    \<and> (\<forall>i < length lanes. ln_available (st_lanes (sc_st s) ! i) \<longleftrightarrow> i \<notin> fst ` set (sc_pushes s))
    \<and> (sc_phase s = Working \<longrightarrow> sc_pushes s = [] \<and> st_managerInFlight (sc_st s))
    \<and> map ln_capId (st_lanes (sc_st s)) = map ln_capId lanes"
proof -
  have "lane_inv (map ln_capId lanes) s"
    using lane_inv_reachable [OF assms(1,2) lane_inv_init [OF assms(3)]] .
  from lane_inv_exclusive [OF this assms(4)] show ?thesis by simp
qed

definition demo_svc :: Svc where
  "demo_svc = svc_init (st_oracles demo_service) (st_lanes demo_service) [''c0'', ''c1'']"

definition demo_fed :: Svc where
  "demo_fed = demo_svc\<lparr>sc_st := apply_frames [SpotValue ''spot_BTC'' (Num 100000) (Some 1000), ForwardValue ''0xa'' (Num 100001) (Some 1000)] (sc_st demo_svc)\<rparr>"

theorem lanes_are_exclusive_witness:
  "\<exists>s. svc_reachable (\<lambda>v. Inr (U64Arg v)) demo_config ''0x9'' demo_svc s \<and> length (sc_pushes s) = 1
     \<and> (\<forall>i < 2. ln_available (st_lanes (sc_st s) ! i) \<longleftrightarrow> i \<notin> fst ` set (sc_pushes s))"
proof -
  let ?u = "\<lambda>v. Inr (U64Arg v) :: tx_arg res"
  have e: "encoder ?u" by (simp add: encoder_def)
  have h: "\<not> st_managerInFlight (sc_st demo_fed)" "list_ex ln_available (st_lanes (sc_st demo_fed))"
    "hasFreshPriceSample (pc_spot (st_priceCache (sc_st demo_fed))) 2000 (cf_priceCacheStaleMs demo_config)"
    "list_ex (eligible demo_config 2000 (sc_st demo_fed)) (map_values (st_oracles (sc_st demo_fed)))"
    "\<not> shouldRunManagerWindowNow (sc_st demo_fed) 2000 (cf_priceCacheStaleMs demo_config)"
    "list_all ln_available (st_lanes demo_service)" "distinct (map ln_capId (st_lanes demo_service))"
    "length (st_lanes demo_service) = 2" "sc_pushes demo_fed = []"
    by code_simp+
  then obtain i tx ps st' where t: "pushTick ?u demo_config ''0x9'' 2000 (sc_st demo_fed) = (Submitting i tx ps, st')"
    using pushTick_submits_iff [OF e, of demo_config "''0x9''" 2000 "sc_st demo_fed"]
    by (auto simp: tick_ready_def encodable_def list_all_iff accepts_def)
  define s where "s = demo_fed\<lparr>sc_st := st', sc_pushes := sc_pushes demo_fed @ new_pushes (Submitting i tx ps)\<rparr>"
  have "svc_step ?u demo_config ''0x9'' demo_svc demo_fed" unfolding demo_fed_def by (rule svc_step.frame)
  moreover have "svc_step ?u demo_config ''0x9'' demo_fed s" unfolding s_def using h(5) t by (rule svc_step.tick)
  ultimately have r: "svc_reachable ?u demo_config ''0x9'' demo_svc s" unfolding svc_reachable_def by simp
  have "length (sc_pushes s) = 1" using h(9) by (simp add: s_def new_pushes_def)
  then show ?thesis using lanes_are_exclusive [OF r [unfolded demo_svc_def] e h(6,7)] r h(8) by auto
qed

section \<open>Well-formed oracles\<close>

lemma pushTick_oracles:
  "pushTick u64 config address now st = (out, st') \<Longrightarrow> st_oracles st' = st_oracles st"
  using nextAvailableLane_some(3)
  by (fastforce simp: pushTick_def Let_def take_lane_def split: if_splits option.splits prod.splits sum.splits)

lemma pushTick_done_oracles: "st_oracles (pushTick_done i ps io now st) = st_oracles st"
  using release_lane_lanes(3) [of i io st] by (auto simp: pushTick_done_def Let_def split: prod.splits)

lemma keyed_step:
  assumes "svc_step u64 config address s t" "keyed (st_oracles (sc_st s))"
  shows "keyed (st_oracles (sc_st t))"
  using assms(1)
proof cases
  case (tick now now' out st')
  then show ?thesis using pushTick_oracles assms(2) by simp
next
  case (push_done xs i tx ps ys io now)
  then show ?thesis using pushTick_done_oracles assms(2) by simp
next
  case (mgr_start st')
  then show ?thesis using assms(2) by (auto simp: manager_begin_def split: if_splits)
next
  case (mgr_finish w g e)
  have "keyed d" if "wd_discovered w now = Inr d" for now d
    using mgr_finish(3) that discoverOracles_entries unfolding discovers_def by metis
  then have "keyed (st_oracles (mg_st (fst (manager_work u64 config address w (sc_st s)))))"
    by (rule manager_work_keyed [OF assms(2)])
  with mgr_finish show ?thesis by (simp add: manager_end_def)
qed (use assms(2) in \<open>simp_all add: manager_end_def\<close>)

lemma keyed_reachable:
  "svc_reachable u64 config address s t \<Longrightarrow> keyed (st_oracles (sc_st s)) \<Longrightarrow> keyed (st_oracles (sc_st t))"
  unfolding svc_reachable_def by (induction rule: rtranclp_induct) (auto intro: keyed_step)

text \<open>The local oracles stay well-formed: started on the result of a discovery, in every reachable state of the
  service each oracle is stored under its own identifier and no identifier occurs twice, whatever
  pushes, windows (also windows that throw half-way) and frames are interleaved.\<close>

theorem local_oracles_well_formed:
  assumes "discoverOracles config capIds now dev predict pages mg = Some (Inr oracles)"
    and "svc_reachable u64 config address (svc_init oracles lanes capIds) s"
  shows "distinct (map os_id (map_values (st_oracles (sc_st s))))
    \<and> (\<forall>k v. map_get (st_oracles (sc_st s)) k = Some v \<longrightarrow> os_id v = k)"
proof -
  have "keyed oracles" using discoverOracles_entries [OF assms(1)] by blast
  then have k: "keyed (st_oracles (sc_st s))" using keyed_reachable [OF assms(2)] by (simp add: svc_init_def)
  then have "map os_id (map_values (st_oracles (sc_st s))) = map fst (st_oracles (sc_st s))"
    by (simp add: map_values_def keyed_def)
  moreover have "os_id v = i" if "map_get (st_oracles (sc_st s)) i = Some v" for i v using keyed_get [OF k that] .
  ultimately show ?thesis using k by (simp add: keyed_def map_wf_def)
qed

theorem local_oracles_well_formed_witness:
  "\<exists>d s. discoverOracles demo_config [''c0''] 1000 (\<lambda>_. Some (Some [''0xa''])) None [] (\<lambda>_. Inr [Some demo_object]) = Some (Inr d)
     \<and> svc_reachable (\<lambda>v. Inr (U64Arg v)) demo_config ''0x9'' (svc_init d (st_lanes demo_service) [''c0'']) s
     \<and> st_managerInFlight (sc_st s) \<and> distinct (map os_id (map_values (st_oracles (sc_st s))))"
proof -
  let ?r = "discoverOracles demo_config [''c0''] 1000 (\<lambda>_. Some (Some [''0xa''])) None [] (\<lambda>_. Inr [Some demo_object])"
  have "case ?r of Some (Inr d) \<Rightarrow> True | _ \<Rightarrow> False" by code_simp
  then obtain d where d: "?r = Some (Inr d)" by (auto split: option.splits sum.splits)
  define i where "i = svc_init d (st_lanes demo_service) [''c0'']"
  obtain st' where st': "manager_begin (sc_st i) = Some st'" "st_managerInFlight st'"
    by (simp add: i_def svc_init_def manager_begin_def)
  then have "svc_step (\<lambda>v. Inr (U64Arg v)) demo_config ''0x9'' i (i\<lparr>sc_st := st', sc_phase := Draining\<rparr>)"
    by (intro svc_step.mgr_start)
  then have r: "svc_reachable (\<lambda>v. Inr (U64Arg v)) demo_config ''0x9'' i (i\<lparr>sc_st := st', sc_phase := Draining\<rparr>)"
    by (simp add: svc_reachable_def)
  from local_oracles_well_formed [OF d r [unfolded i_def]] r st'(2) d show ?thesis unfolding i_def by auto
qed

end
