(* ===== verification/OracleMain.thy ===== *)
theory OracleMain
  imports OracleService JsArith
begin

text \<open>
  \<open>oracle-feed/index.ts\<close> as a process: the start of the service from its environment and the replies of the
  node, its first manager window, the timers, the listeners of the market data socket, the health server,
  the signals and the exits, as a step relation over the life of the process. The theory shows that the
  process refines the service of \<open>OracleService\<close>, so that its invariants hold from the start
  on, and what a shutdown guarantees.
\<close>

section \<open>Summary\<close>

text \<open>The counts by status are a record filled in the order of first occurrence. An age is \<open>null\<close> before the
  first event; the age of the spot price is \<open>NaN\<close> when its frame had no time stamp.\<close>

definition count_status :: "OracleState \<Rightarrow> (OracleStatus, int) js_Map \<Rightarrow> (OracleStatus, int) js_Map" where
  "count_status o' byStatus =
     map_set (os_status o') ((case map_get byStatus (os_status o') of None \<Rightarrow> 0 | Some n \<Rightarrow> n) + 1) byStatus"

record cache_summary =
  cs_totalOracles :: nat
  cs_byStatus :: "(OracleStatus, int) js_Map"
  cs_spotCached :: bool
  cs_spotAgeMs :: "stamp option"
  cs_forwardsCached :: nat
  cs_sviCached :: nat
  cs_wsConnected :: bool
  cs_lastWsFrameAgeMs :: "int option"
  cs_lastPushAgeMs :: "int option"
  cs_managerInFlight :: bool
  cs_lanes :: "(nat \<times> bool) list"
  cs_laneHint :: nat

definition summary :: "int \<Rightarrow> ServiceState \<Rightarrow> Subscriber \<Rightarrow> cache_summary" where
  "summary now st sub =
     \<lparr>cs_totalOracles = length (st_oracles st),
      cs_byStatus = fold count_status (map_values (st_oracles st)) [],
      cs_spotCached = (pc_spot (st_priceCache st) \<noteq> None),
      cs_spotAgeMs = map_option (\<lambda>p. map_option (\<lambda>t. now - t) (ps_receivedAtMs p)) (pc_spot (st_priceCache st)),
      cs_forwardsCached = length (pc_forwards (st_priceCache st)),
      cs_sviCached = length (st_sviCache st),
      cs_wsConnected = isConnected sub,
      cs_lastWsFrameAgeMs = (if sb_lastFrame sub = 0 then None else Some (now - sb_lastFrame sub)),
      cs_lastPushAgeMs = (if st_lastPushMs st = 0 then None else Some (now - st_lastPushMs st)),
      cs_managerInFlight = st_managerInFlight st,
      cs_lanes = map (\<lambda>l. (ln_id l, ln_available l)) (st_lanes st),
      cs_laneHint = st_laneHint st\<rparr>"

section \<open>Process\<close>

text \<open>While \<open>Booting\<close>, main awaits its first manager window: no timer runs, no handler of a signal is
  installed and no port is open. \<open>Serving\<close> carries the start time of the health server.\<close>

datatype life = Booting | Serving int | Stopping | Exited nat | Killed

record Proc =
  pr_svc :: Svc
  pr_sub :: Subscriber
  pr_life :: life

fun alive :: "life \<Rightarrow> bool" where
  "alive (Exited n) = False"
| "alive Killed = False"
| "alive _ = True"

definition serving :: "Proc \<Rightarrow> bool" where
  "serving p = (case pr_life p of Serving _ \<Rightarrow> True | _ \<Rightarrow> False)"

abbreviation pr_state :: "Proc \<Rightarrow> ServiceState" where
  "pr_state p \<equiv> sc_st (pr_svc p)"

text \<open>The synchronous part of a call of \<open>runManagerWindow\<close>.\<close>

definition begin_window :: "Proc \<Rightarrow> Proc" where
  "begin_window p =
     (case manager_begin (pr_state p) of
        None \<Rightarrow> p
      | Some st \<Rightarrow> p\<lparr>pr_svc := (pr_svc p)\<lparr>sc_st := st, sc_phase := Draining\<rparr>\<rparr>)"

text \<open>What follows the end of a window: main goes on after its first one, and rejects when that one threw;
  the later windows are caught and logged.\<close>

fun after_window :: "int \<Rightarrow> bool \<Rightarrow> life \<Rightarrow> life" where
  "after_window now failed Booting = (if failed then Exited 1 else Serving now)"
| "after_window now failed l = l"

text \<open>The handler of \<open>SIGINT\<close> and \<open>SIGTERM\<close>; the exit two seconds later is a step of its own.\<close>

definition shutdown :: "Proc \<Rightarrow> Proc" where
  "shutdown p = p\<lparr>pr_sub := feed_stop (pr_sub p), pr_life := Stopping\<rparr>"

text \<open>The health server answers while it listens.\<close>

definition health_reply :: "Config \<Rightarrow> string \<Rightarrow> int \<Rightarrow> Proc \<Rightarrow> (nat \<times> (string \<times> string) list) option" where
  "health_reply config url now p =
     (case pr_life p of
        Serving bootTs \<Rightarrow> Some (health_request url (isHealthy config bootTs now (pr_sub p) (pr_state p)) (st_managerInFlight (pr_state p)))
      | _ \<Rightarrow> None)"

section \<open>Start\<close>

text \<open>The replies the node gives to the start, in the order they are read.\<close>

record boot_replies =
  br_owner :: "string option res"
  br_owned :: "string list res"
  br_changes :: "object_change list res"
  br_coins0 :: "CoinStruct list res"
  br_coins1 :: "CoinStruct list res"
  br_submit :: submit_reply
  br_coins2 :: "CoinStruct list res"
  br_coins3 :: "CoinStruct list res"
  br_now :: int
  br_devInspect :: "string \<Rightarrow> string list option option"
  br_predict :: "predict_content option option"
  br_pages :: "field_page option list"
  br_multiGet :: "string list \<Rightarrow> OracleObject option list res"

text \<open>A row of \<open>ensureCapsAndCoins\<close> as a lane; \<open>None\<close> when the capability is \<open>undefined\<close>.\<close>

definition lane_of_row :: "nat \<times> CoinStruct \<times> string option \<Rightarrow> Lane option" where
  "lane_of_row row =
     (case row of (i, coin, cap) \<Rightarrow>
        map_option (\<lambda>c. \<lparr>ln_id = i, ln_gasCoinId = cn_id coin, ln_gasCoinVersion = cn_version coin,
          ln_gasCoinDigest = cn_digest coin, ln_capId = c, ln_available = True\<rparr>) cap)"

text \<open>How the start ends: an error makes the process exit with one; \<open>BootWaits\<close> is a paged read whose last
  page has not come; \<open>BootUntyped\<close> is a start in which a number of the configuration is \<open>NaN\<close> or a lane has no
  capability, where the values leave the declared types; otherwise the process in its first window.\<close>

datatype boot_outcome = BootFails js_error | BootWaits | BootUntyped | Booted Proc

definition first_window :: "(string, OracleState) js_Map \<Rightarrow> Lane list \<Rightarrow> string list \<Rightarrow> Proc" where
  "first_window oracles lanes capIds =
     begin_window \<lparr>pr_svc = svc_init oracles lanes capIds,
       pr_sub = feed_connect (syncOracles (map_values oracles) makeSubscriber), pr_life = Booting\<rparr>"

definition boot :: "Config \<Rightarrow> string \<Rightarrow> boot_replies \<Rightarrow> boot_outcome" where
  "boot config address r =
     (case ensureCapsAndCoins address config (br_owner r) (br_owned r) (br_changes r) (br_coins0 r) (br_coins1 r)
         (br_submit r) (br_coins2 r) (br_coins3 r) of
        Inl e \<Rightarrow> BootFails e
      | Inr (capIds, rows) \<Rightarrow>
          (case those (map lane_of_row rows) of
             None \<Rightarrow> BootUntyped
           | Some lanes \<Rightarrow>
               (case discoverOracles config capIds (br_now r) (br_devInspect r) (br_predict r) (br_pages r) (br_multiGet r) of
                  None \<Rightarrow> BootWaits
                | Some (Inl e) \<Rightarrow> BootFails e
                | Some (Inr oracles) \<Rightarrow> Booted (first_window oracles lanes capIds))))"

text \<open>\<open>main\<close>: decoding the key gives the address of the signer or throws.\<close>

definition feed_main ::
  "env \<Rightarrow> (string \<Rightarrow> predict_ids) \<Rightarrow> (string \<Rightarrow> string) \<Rightarrow> (string \<Rightarrow> string res) \<Rightarrow> boot_replies \<Rightarrow> boot_outcome" where
  "feed_main env constants url decodeKey r =
     (case loadConfig env constants url of
        Inl e \<Rightarrow> BootFails e
      | Inr None \<Rightarrow> BootUntyped
      | Inr (Some config) \<Rightarrow>
          (case decodeKey (cf_suiSignerKey config) of
             Inl e \<Rightarrow> BootFails e
           | Inr address \<Rightarrow> boot config address r))"

section \<open>Socket events\<close>

text \<open>The values that a frame writes to the caches.\<close>

definition frame_values :: "json option \<Rightarrow> ExtractedWsValue list" where
  "frame_values frame =
     (case frame of
        None \<Rightarrow> []
      | Some parsed \<Rightarrow>
          if jprop (Some parsed) ''id'' = Some (JNum 1) \<and> jprop (Some parsed) ''result'' = Some (JStr ''ok'')
             \<or> truthy (jprop (Some parsed) ''error'') \<or> isWsSubscriptionAck parsed then []
          else extractWsValues parsed)"

lemma feed_on_message_values:
  assumes "feed_on_message now frame s caches = Inr (s', caches')"
  shows "caches' = fold applyValue (frame_values frame) caches"
proof (cases frame)
  case (Some j)
  then show ?thesis using assms
    by (cases j) (auto simp: feed_on_message_def frame_values_def Let_def split: if_splits)
qed (use assms in \<open>simp add: feed_on_message_def frame_values_def Let_def\<close>)

text \<open>The events of the socket and of the subscriber's own timer and microtask, with the values they deliver. A
  socket that is stopped may still deliver what is under way, and its close event.\<close>

inductive feed_event :: "Config \<Rightarrow> Subscriber \<Rightarrow> ExtractedWsValue list \<Rightarrow> Subscriber \<Rightarrow> bool" for config where
  opened: "sb_ws s = Some SockConnecting \<Longrightarrow> feed_event config s [] (feed_on_open (cf_blockscholesApiKey config) s)"
| message: "sb_ws s \<noteq> None \<Longrightarrow> feed_on_message now frame s caches = Inr (s', caches') \<Longrightarrow>
    feed_event config s (frame_values frame) s'"
| closed: "sb_ws s \<noteq> None \<Longrightarrow> sb_ws s \<noteq> Some SockClosed \<or> sb_stopped s \<Longrightarrow> feed_event config s [] (feed_on_close s)"
| reconnect: "sb_reconnectTimer s \<noteq> None \<Longrightarrow> feed_event config s [] (feed_timer_fires s)"
| resubscribe: "sb_resubscribeScheduled s \<Longrightarrow> feed_event config s [] (resubscribe_task now s)"

inductive feed_events :: "Config \<Rightarrow> Subscriber \<Rightarrow> ExtractedWsValue list \<Rightarrow> Subscriber \<Rightarrow> bool" for config where
  quiet: "feed_events config s [] s"
| event: "feed_event config s vs s' \<Longrightarrow> feed_events config s' ws s'' \<Longrightarrow> feed_events config s (vs @ ws) s''"

text \<open>The values that reach the caches while a window works: during its refresh, and during each transaction.\<close>

definition window_frames :: "Config \<Rightarrow> string \<Rightarrow> World \<Rightarrow> ServiceState \<Rightarrow> Mgr \<Rightarrow> ExtractedWsValue list" where
  "window_frames config address w st g =
     (case refreshGasLanesIfNeeded address config (Some (st_lanes st)) (wd_coins w) (wd_submit w) (wd_coinsAfter w) of
        Inl _ \<Rightarrow> []
      | Inr _ \<Rightarrow> wd_frames w @ concat (map (\<lambda>n. mr_frames (wd_reply w n)) [0..<mg_replies g]))"

definition sync_after :: "Mgr \<Rightarrow> Subscriber \<Rightarrow> Subscriber" where
  "sync_after g sub = (case mg_synced g of None \<Rightarrow> sub | Some os \<Rightarrow> syncOracles os sub)"

section \<open>Steps\<close>

inductive proc_step :: "(js_number \<Rightarrow> tx_arg res) \<Rightarrow> Config \<Rightarrow> string \<Rightarrow> Proc \<Rightarrow> Proc \<Rightarrow> bool"
  for u64 config address where
  push_timer_window: "serving p \<Longrightarrow> shouldRunManagerWindowNow (pr_state p) now (cf_priceCacheStaleMs config) \<Longrightarrow>
    proc_step u64 config address p (begin_window p)"
| push_timer_tick: "serving p \<Longrightarrow> \<not> shouldRunManagerWindowNow (pr_state p) now (cf_priceCacheStaleMs config) \<Longrightarrow>
    pushTick u64 config address now' (pr_state p) = (out, st') \<Longrightarrow>
    proc_step u64 config address p (p\<lparr>pr_svc := (pr_svc p)\<lparr>sc_st := st', sc_pushes := sc_pushes (pr_svc p) @ new_pushes out\<rparr>\<rparr>)"
| manager_timer: "serving p \<Longrightarrow> proc_step u64 config address p (begin_window p)"
| push_settles: "alive (pr_life p) \<Longrightarrow> sc_pushes (pr_svc p) = xs @ (i, tx, ps) # ys \<Longrightarrow>
    proc_step u64 config address p
      (p\<lparr>pr_svc := (pr_svc p)\<lparr>sc_st := pushTick_done i ps io now (pr_state p), sc_pushes := xs @ ys\<rparr>\<rparr>)"
| window_drained: "alive (pr_life p) \<Longrightarrow> sc_phase (pr_svc p) = Draining \<Longrightarrow> list_all ln_available (st_lanes (pr_state p)) \<Longrightarrow>
    proc_step u64 config address p (p\<lparr>pr_svc := (pr_svc p)\<lparr>sc_phase := Working\<rparr>\<rparr>)"
| window_timeout: "alive (pr_life p) \<Longrightarrow> sc_phase (pr_svc p) = Draining \<Longrightarrow>
    proc_step u64 config address p
      (p\<lparr>pr_svc := (pr_svc p)\<lparr>sc_st := manager_end (pr_state p), sc_phase := Off\<rparr>, pr_life := after_window now True (pr_life p)\<rparr>)"
| window_ends: "alive (pr_life p) \<Longrightarrow> sc_phase (pr_svc p) = Working \<Longrightarrow> discovers config (st_capIds (pr_state p)) w \<Longrightarrow>
    manager_work u64 config address w (pr_state p) = (g, e) \<Longrightarrow>
    feed_events config (pr_sub p) (window_frames config address w (pr_state p) g) sub \<Longrightarrow>
    proc_step u64 config address p
      (p\<lparr>pr_svc := (pr_svc p)\<lparr>sc_st := manager_end (mg_st g), sc_phase := Off\<rparr>, pr_sub := sync_after g sub,
         pr_life := after_window now (e \<noteq> None) (pr_life p)\<rparr>)"
| socket: "alive (pr_life p) \<Longrightarrow> feed_event config (pr_sub p) vs sub \<Longrightarrow>
    proc_step u64 config address p (p\<lparr>pr_svc := (pr_svc p)\<lparr>sc_st := apply_frames vs (pr_state p)\<rparr>, pr_sub := sub\<rparr>)"
| uncaught: "alive (pr_life p) \<Longrightarrow> sb_ws (pr_sub p) \<noteq> None \<Longrightarrow> feed_on_message now frame (pr_sub p) caches = Inl e \<Longrightarrow>
    proc_step u64 config address p (p\<lparr>pr_life := Exited 1\<rparr>)"
| signal: "serving p \<or> pr_life p = Stopping \<Longrightarrow> proc_step u64 config address p (shutdown p)"
| early_signal: "pr_life p = Booting \<Longrightarrow> proc_step u64 config address p (p\<lparr>pr_life := Killed\<rparr>)"
| exits: "pr_life p = Stopping \<Longrightarrow> proc_step u64 config address p (p\<lparr>pr_life := Exited 0\<rparr>)"

definition proc_reachable :: "(js_number \<Rightarrow> tx_arg res) \<Rightarrow> Config \<Rightarrow> string \<Rightarrow> Proc \<Rightarrow> Proc \<Rightarrow> bool" where
  "proc_reachable u64 config address = (proc_step u64 config address)\<^sup>*\<^sup>*"

section \<open>Refinement of the service\<close>

lemma begin_window_refines: "(svc_step u64 config address)\<^sup>*\<^sup>* (pr_svc p) (pr_svc (begin_window p))"
  by (auto simp: begin_window_def split: option.splits intro: svc_step.mgr_start)

lemma proc_step_refines:
  assumes "proc_step u64 config address p q"
  shows "(svc_step u64 config address)\<^sup>*\<^sup>* (pr_svc p) (pr_svc q)"
  using assms
proof cases
  case (push_timer_tick now now' out st')
  then show ?thesis by (auto intro: svc_step.tick)
next
  case (push_settles xs i tx ps ys io now)
  then show ?thesis by (auto intro: svc_step.push_done)
next
  case (window_ends w g e sub now)
  then show ?thesis by (auto intro: svc_step.mgr_finish)
qed (auto simp: begin_window_refines shutdown_def intro: svc_step.mgr_drained svc_step.mgr_timeout svc_step.frame)

lemma proc_reachable_refines:
  "proc_reachable u64 config address p q \<Longrightarrow> svc_reachable u64 config address (pr_svc p) (pr_svc q)"
  unfolding proc_reachable_def svc_reachable_def
  by (induction rule: rtranclp_induct) (auto intro: rtranclp_trans proc_step_refines)

section \<open>What a start yields\<close>

lemma those_Some: "those xs = Some ys \<longleftrightarrow> xs = map Some ys"
  by (induction xs arbitrary: ys) (auto split: option.splits)

lemma lane_of_row_Some:
  "lane_of_row row = Some l \<longleftrightarrow>
     (\<exists>i coin c. row = (i, coin, Some c) \<and> l = \<lparr>ln_id = i, ln_gasCoinId = cn_id coin, ln_gasCoinVersion = cn_version coin,
          ln_gasCoinDigest = cn_digest coin, ln_capId = c, ln_available = True\<rparr>)"
  by (auto simp: lane_of_row_def split: prod.splits)

lemma map2_upt: "length xs = n \<Longrightarrow> map2 f [0..<n] xs = map (\<lambda>i. f i (xs ! i)) [0..<n]"
  by (rule nth_equalityI) auto

lemma ensureCapsAndCoins_rows:
  assumes "ensureCapsAndCoins address config owner owned changes coins0 coins1 reply coins2 coins3 = Inr (capIds, rows)"
  obtains caps0 new coins where "owned = Inr caps0" "capIds = take (cf_laneCount config) (caps0 @ new)"
    "cf_laneCount config \<le> length caps0 \<longrightarrow> new = []"
    "length caps0 < cf_laneCount config \<longrightarrow> createCaps config changes = Inr new" "coins3 = Inr coins"
    "rows = map (\<lambda>i. lane_of_coin capIds i (take (cf_laneCount config) (sortCoinsByBalanceDesc coins) ! i))
       [0..<min (cf_laneCount config) (length coins)]"
proof -
  obtain caps0 caps1 coins where c: "owned = Inr caps0"
    "(if length caps0 < cf_laneCount config then bindE (createCaps config changes) (\<lambda>new. Inr (caps0 @ new)) else Inr caps0) = Inr caps1"
    "capIds = take (cf_laneCount config) caps1" "coins3 = Inr coins"
    "rows = map2 (lane_of_coin capIds) [0..<length (take (cf_laneCount config) (sortCoinsByBalanceDesc coins))]
       (take (cf_laneCount config) (sortCoinsByBalanceDesc coins))"
    using assms by (auto simp: ensureCapsAndCoins_def Let_def bindE_eq_Inr split: if_split_asm)
  from c(2) obtain new where n: "caps1 = caps0 @ new" "cf_laneCount config \<le> length caps0 \<longrightarrow> new = []"
    "length caps0 < cf_laneCount config \<longrightarrow> createCaps config changes = Inr new"
    by (auto simp: bindE_eq_Inr split: if_split_asm)
  have "rows = map (\<lambda>i. lane_of_coin capIds i (take (cf_laneCount config) (sortCoinsByBalanceDesc coins) ! i))
       [0..<min (cf_laneCount config) (length coins)]"
    unfolding c(5) by (subst map2_upt) (simp_all add: sortCoinsByBalanceDesc_def min.commute)
  with c n show ?thesis by (intro that) auto
qed

text \<open>The lanes of a start: all free, numbered from zero, at most as many as configured, with the first
  capabilities in order and one coin each.\<close>

lemma boot_lanes:
  assumes "those (map lane_of_row (map (\<lambda>i. lane_of_coin capIds i (cs ! i)) [0..<n])) = Some lanes"
  shows "length lanes = n" "n \<le> length capIds" "map ln_capId lanes = take n capIds" "list_all ln_available lanes"
    "map ln_id lanes = [0..<n]" "n \<le> length cs \<Longrightarrow> map ln_gasCoinId lanes = take n (map cn_id cs)"
proof -
  have e: "map lane_of_row (map (\<lambda>i. lane_of_coin capIds i (cs ! i)) [0..<n]) = map Some lanes" using assms by (simp only: those_Some)
  then show len: "length lanes = n" by (metis length_map length_upt diff_zero)
  have at: "lane_of_row (lane_of_coin capIds i (cs ! i)) = Some (lanes ! i)" if "i < n" for i
    using arg_cong [OF e, of "\<lambda>xs. xs ! i"] that len by simp
  have l: "i < length capIds" "ln_capId (lanes ! i) = capIds ! i" "ln_available (lanes ! i)" "ln_id (lanes ! i) = i"
    "ln_gasCoinId (lanes ! i) = cn_id (cs ! i)" if "i < n" for i
    using at [OF that] by (auto simp: lane_of_row_Some lane_of_coin_def split: if_splits)
  show n: "n \<le> length capIds" using l(1) [of "n - 1"] by (cases n) auto
  show "map ln_capId lanes = take n capIds" using len l(2) n by (auto intro!: nth_equalityI)
  show "list_all ln_available lanes" using len l(3) by (auto simp: list_all_length)
  show "map ln_id lanes = [0..<n]" using len l(4) by (auto intro!: nth_equalityI)
  show "n \<le> length cs \<Longrightarrow> map ln_gasCoinId lanes = take n (map cn_id cs)" using len l(5) by (auto intro!: nth_equalityI)
qed

lemma boot_Booted:
  assumes "boot config address r = Booted p"
  obtains capIds rows lanes oracles where
    "ensureCapsAndCoins address config (br_owner r) (br_owned r) (br_changes r) (br_coins0 r) (br_coins1 r)
       (br_submit r) (br_coins2 r) (br_coins3 r) = Inr (capIds, rows)"
    "those (map lane_of_row rows) = Some lanes"
    "discoverOracles config capIds (br_now r) (br_devInspect r) (br_predict r) (br_pages r) (br_multiGet r) = Some (Inr oracles)"
    "p = first_window oracles lanes capIds"
  using assms by (auto simp: boot_def split: sum.splits option.splits prod.splits)

lemma first_window_svc:
  "svc_reachable u64 config address (svc_init oracles lanes capIds) (pr_svc (first_window oracles lanes capIds))"
proof -
  have "(svc_step u64 config address)\<^sup>*\<^sup>* (pr_svc p) (pr_svc (begin_window p))" for p by (rule begin_window_refines)
  then show ?thesis unfolding svc_reachable_def first_window_def
    by (metis Proc.select_convs(1))
qed

text \<open>The process from its start to any later moment is a run of the service on the lanes of the start.\<close>

lemma process_is_service:
  assumes "boot config address r = Booted p0" "proc_reachable u64 config address p0 p"
  obtains capIds lanes oracles now where
    "svc_reachable u64 config address (svc_init oracles lanes capIds) (pr_svc p)"
    "discoverOracles config capIds now (br_devInspect r) (br_predict r) (br_pages r) (br_multiGet r) = Some (Inr oracles)"
    "list_all ln_available lanes" "map ln_capId lanes = take (length lanes) capIds" "length lanes \<le> length capIds"
    "\<exists>caps0 new. br_owned r = Inr caps0 \<and> capIds = take (cf_laneCount config) (caps0 @ new)
       \<and> (cf_laneCount config \<le> length caps0 \<longrightarrow> new = []) \<and> (length caps0 < cf_laneCount config \<longrightarrow> createCaps config (br_changes r) = Inr new)"
proof -
  from assms(1) obtain capIds rows lanes oracles where b:
    "ensureCapsAndCoins address config (br_owner r) (br_owned r) (br_changes r) (br_coins0 r) (br_coins1 r)
       (br_submit r) (br_coins2 r) (br_coins3 r) = Inr (capIds, rows)"
    "those (map lane_of_row rows) = Some lanes"
    "discoverOracles config capIds (br_now r) (br_devInspect r) (br_predict r) (br_pages r) (br_multiGet r) = Some (Inr oracles)"
    "p0 = first_window oracles lanes capIds" by (rule boot_Booted)
  have run: "svc_reachable u64 config address (svc_init oracles lanes capIds) (pr_svc p)"
    using first_window_svc [of u64 config address oracles lanes capIds] proc_reachable_refines [OF assms(2)]
    unfolding b(4) svc_reachable_def by (rule rtranclp_trans)
  from b(1) obtain caps0 new coins where c: "br_owned r = Inr caps0" "capIds = take (cf_laneCount config) (caps0 @ new)"
    "cf_laneCount config \<le> length caps0 \<longrightarrow> new = []"
    "length caps0 < cf_laneCount config \<longrightarrow> createCaps config (br_changes r) = Inr new"
    "rows = map (\<lambda>i. lane_of_coin capIds i (take (cf_laneCount config) (sortCoinsByBalanceDesc coins) ! i))
       [0..<min (cf_laneCount config) (length coins)]"
    by (rule ensureCapsAndCoins_rows)
  note l = boot_lanes [OF b(2) [unfolded c(5)]]
  show ?thesis using that [OF run b(3) l(4)] l(1,2,3) c by auto
qed

section \<open>Shutdown\<close>

text \<open>A stopped subscriber: its socket is not open and no timer is set.\<close>

definition feed_silent :: "Subscriber \<Rightarrow> bool" where
  "feed_silent s \<longleftrightarrow> sb_stopped s \<and> sb_ws s \<noteq> Some SockOpen \<and> sb_ws s \<noteq> Some SockConnecting \<and> sb_reconnectTimer s = None"

text \<open>What a silent subscriber keeps: it stays silent and writes nothing.\<close>

definition keeps_silence :: "Subscriber \<Rightarrow> Subscriber \<Rightarrow> bool" where
  "keeps_silence s s' \<longleftrightarrow> feed_silent s' \<and> sb_sent s' = sb_sent s"

lemma keeps_silence_refl: "feed_silent s \<Longrightarrow> keeps_silence s s"
  by (simp add: keeps_silence_def)

lemma keeps_silence_trans: "keeps_silence s t \<Longrightarrow> keeps_silence t u \<Longrightarrow> keeps_silence s u"
  by (simp add: keeps_silence_def)

lemma sendBatch_silent: "feed_silent s \<Longrightarrow> keeps_silence s (sendBatch cid f b e s)"
  by (simp add: sendBatch_def feed_send_def keeps_silence_def feed_silent_def)

lemma fold_silent:
  assumes "\<And>x s. feed_silent s \<Longrightarrow> keeps_silence s (f x s)" "feed_silent s"
  shows "keeps_silence s (fold f xs s)"
  using assms(2)
proof (induction xs arbitrary: s)
  case (Cons x xs)
  then have "keeps_silence s (f x s)" by (intro assms(1))
  then show ?case using Cons.IH [of "f x s"] keeps_silence_trans by (simp add: keeps_silence_def)
qed (simp add: keeps_silence_refl)

lemma sendBatchedWithChunks_silent: "feed_silent s \<Longrightarrow> keeps_silence s (sendBatchedWithChunks pre f items e s)"
  unfolding sendBatchedWithChunks_def
  by (auto intro!: keeps_silence_refl sendBatch_silent fold_silent)

lemma resubscribeAll_silent:
  assumes "feed_silent s"
  shows "keeps_silence s (resubscribeAll now s)"
proof -
  let ?s1 = "sendBatchedWithChunks ''spot'' ''1000ms'' (map spot_item (underlyings now s)) [] s"
  let ?s2 = "sendBatchedWithChunks ''forwards'' ''1000ms'' (map fwd_item (unexpired now s)) [] ?s1"
  have 1: "keeps_silence s ?s1" using assms by (rule sendBatchedWithChunks_silent)
  then have 2: "keeps_silence ?s1 ?s2" by (intro sendBatchedWithChunks_silent) (simp add: keeps_silence_def)
  then have "keeps_silence ?s2 (resubscribeAll now s)"
    unfolding resubscribeAll_def Let_def by (intro sendBatchedWithChunks_silent) (simp add: keeps_silence_def)
  with 1 2 show ?thesis by (blast intro: keeps_silence_trans)
qed

lemma feed_event_silent:
  assumes "feed_event config s vs s'" "feed_silent s"
  shows "keeps_silence s s'"
  using assms(1)
proof cases
  case (message now frame caches caches')
  have "keeps_silence s (resubscribeAll now (s\<lparr>sb_lastFrame := now, sb_authed := True\<rparr>))"
    using resubscribeAll_silent [of "s\<lparr>sb_lastFrame := now, sb_authed := True\<rparr>" now] assms(2)
    by (simp add: feed_silent_def keeps_silence_def)
  with message(3) show ?thesis using assms(2)
    by (auto simp: feed_on_message_def Let_def keeps_silence_def feed_silent_def split: option.splits json.splits if_splits)
next
  case (resubscribe now)
  then show ?thesis using resubscribeAll_silent [of "s\<lparr>sb_resubscribeScheduled := False\<rparr>" now] assms(2)
    by (simp add: resubscribe_task_def keeps_silence_def feed_silent_def)
qed (use assms(2) in \<open>auto simp: feed_silent_def keeps_silence_def feed_on_close_def Let_def\<close>)

lemma feed_events_silent: "feed_events config s vs s' \<Longrightarrow> feed_silent s \<Longrightarrow> keeps_silence s s'"
proof (induction rule: feed_events.induct)
  case (event s vs s' ws s'')
  then show ?case using feed_event_silent keeps_silence_trans by (metis keeps_silence_def)
qed (rule keeps_silence_refl)

lemma sync_after_silent: "feed_silent s \<Longrightarrow> keeps_silence s (sync_after g s)"
  by (simp add: sync_after_def syncOracles_def scheduleResubscribe_def Let_def keeps_silence_def feed_silent_def split: option.splits)

lemma feed_stop_silent: "feed_silent (feed_stop s)"
  by (cases "sb_ws s") (simp_all add: feed_stop_def feed_silent_def)

text \<open>The relation between a process that has been stopped and a later state of it.\<close>

definition winds_down :: "Proc \<Rightarrow> Proc \<Rightarrow> bool" where
  "winds_down p q \<longleftrightarrow>
     set (sc_pushes (pr_svc q)) \<subseteq> set (sc_pushes (pr_svc p))
     \<and> (sc_phase (pr_svc p) = Off \<longrightarrow> sc_phase (pr_svc q) = Off)
     \<and> keeps_silence (pr_sub p) (pr_sub q)
     \<and> pr_life q \<in> {Stopping, Exited 0, Exited 1}"

lemma winds_down_trans: "winds_down p q \<Longrightarrow> winds_down q r \<Longrightarrow> winds_down p r"
  unfolding winds_down_def using keeps_silence_trans by blast

lemma winds_down_step:
  assumes "proc_step u64 config address p q" "pr_life p \<in> {Stopping, Exited 0, Exited 1}" "feed_silent (pr_sub p)"
  shows "winds_down p q"
  using assms(1)
proof cases
  case (window_ends w g e sub now)
  have "keeps_silence (pr_sub p) sub" using window_ends(6) assms(3) by (rule feed_events_silent)
  then have "keeps_silence (pr_sub p) (sync_after g sub)"
    using sync_after_silent [of sub g] keeps_silence_trans by (simp add: keeps_silence_def)
  with window_ends show ?thesis using assms(2) by (auto simp: winds_down_def)
next
  case (socket vs sub)
  then show ?thesis using feed_event_silent [OF socket(3) assms(3)] assms(2) by (auto simp: winds_down_def)
next
  case signal
  have "keeps_silence (pr_sub p) (feed_stop (pr_sub p))"
    using feed_stop_silent by (simp add: keeps_silence_def) (simp add: feed_stop_def)
  with signal show ?thesis by (simp add: winds_down_def shutdown_def)
qed (use assms(2,3) in \<open>auto simp: winds_down_def serving_def keeps_silence_refl\<close>)

lemma winds_down_reachable:
  assumes "proc_reachable u64 config address p q" "pr_life p = Stopping" "feed_silent (pr_sub p)"
  shows "winds_down p q"
  using assms(1) unfolding proc_reachable_def
proof (induction rule: rtranclp_induct)
  case base
  then show ?case using assms(2,3) by (simp add: winds_down_def keeps_silence_refl)
next
  case (step q r)
  then have "winds_down q r" by (intro winds_down_step) (auto simp: winds_down_def keeps_silence_def)
  with step.IH show ?case by (rule winds_down_trans)
qed

lemma no_step_when_dead: "\<not> alive (pr_life p) \<Longrightarrow> \<not> proc_step u64 config address p q"
  by (auto simp: proc_step.simps serving_def split: life.splits)

section \<open>Properties of the process\<close>

text \<open>Until the first window has ended no push is in flight.\<close>

definition boot_quiet :: "Proc \<Rightarrow> bool" where
  "boot_quiet p \<longleftrightarrow> (pr_life p = Booting \<longrightarrow> sc_pushes (pr_svc p) = [] \<and> sc_phase (pr_svc p) \<noteq> Off)"

lemma after_window_started: "after_window now failed l \<noteq> Booting"
  by (cases l) auto

lemma begin_window_frame [simp]: "pr_life (begin_window p) = pr_life p" "pr_sub (begin_window p) = pr_sub p"
  by (auto simp: begin_window_def split: option.splits)

lemma boot_quiet_step:
  assumes "proc_step u64 config address p q" "boot_quiet p"
  shows "boot_quiet q"
  using assms by (cases rule: proc_step.cases) (auto simp: boot_quiet_def serving_def shutdown_def after_window_started)

lemma boot_quiet_reachable:
  "proc_reachable u64 config address p q \<Longrightarrow> boot_quiet p \<Longrightarrow> boot_quiet q"
  unfolding proc_reachable_def by (induction rule: rtranclp_induct) (auto intro: boot_quiet_step)

lemma first_window_quiet: "boot_quiet (first_window oracles lanes capIds)"
  by (simp add: boot_quiet_def first_window_def begin_window_def manager_begin_def svc_init_def)

text \<open>C2. Lanes are exclusive in the running service: after a start on capabilities that the node reports once, in
  every state that timers, completions, windows, socket events and signals lead to, two pushes in flight are on
  different lanes with different capabilities of the signer, each is paid by the coin of its own lane, a lane is free exactly when no push in flight holds
  it, no push is in flight while a manager window works or before the first window has ended, and each
  oracle is stored once under its own identifier.\<close>

theorem process_lanes_exclusive:
  assumes "boot config address r = Booted p0" "proc_reachable u64 config address p0 p" "encoder u64"
    and "\<And>caps. br_owned r = Inr caps \<Longrightarrow> distinct caps"
    and "\<And>caps new. br_owned r = Inr caps \<Longrightarrow> createCaps config (br_changes r) = Inr new \<Longrightarrow> distinct (caps @ new)"
  shows "distinct (map fst (sc_pushes (pr_svc p)))
    \<and> distinct (map (\<lambda>q. ln_capId (st_lanes (pr_state p) ! fst q)) (sc_pushes (pr_svc p)))
    \<and> (\<forall>(i, tx, ps) \<in> set (sc_pushes (pr_svc p)). \<exists>v d. tx_gasPayment tx = [(ln_gasCoinId (st_lanes (pr_state p) ! i), v, d)])
    \<and> (\<forall>i < length (st_lanes (pr_state p)). ln_available (st_lanes (pr_state p) ! i) \<longleftrightarrow> i \<notin> fst ` set (sc_pushes (pr_svc p)))
    \<and> (sc_phase (pr_svc p) = Working \<or> pr_life p = Booting \<longrightarrow> sc_pushes (pr_svc p) = [] \<and> st_managerInFlight (pr_state p))
    \<and> length (st_lanes (pr_state p)) \<le> cf_laneCount config
    \<and> keyed (st_oracles (pr_state p))"
proof -
  from assms(1,2) obtain capIds lanes oracles now where s:
    "svc_reachable u64 config address (svc_init oracles lanes capIds) (pr_svc p)"
    "discoverOracles config capIds now (br_devInspect r) (br_predict r) (br_pages r) (br_multiGet r) = Some (Inr oracles)"
    "list_all ln_available lanes" "map ln_capId lanes = take (length lanes) capIds" "length lanes \<le> length capIds"
    "\<exists>caps0 new. br_owned r = Inr caps0 \<and> capIds = take (cf_laneCount config) (caps0 @ new)
       \<and> (cf_laneCount config \<le> length caps0 \<longrightarrow> new = []) \<and> (length caps0 < cf_laneCount config \<longrightarrow> createCaps config (br_changes r) = Inr new)"
    by (rule process_is_service)
  from s(6) obtain caps0 new where n: "capIds = take (cf_laneCount config) (caps0 @ new)" "distinct (caps0 @ new)"
    using assms(4,5) by (metis append_Nil2 linorder_not_le)
  then have c: "distinct capIds" "length capIds \<le> cf_laneCount config" by (simp_all only: distinct_take) simp
  have d: "distinct (map ln_capId lanes)" unfolding s(4) using c(1) by (rule distinct_take)
  have inv: "lane_inv (map ln_capId lanes) (pr_svc p)"
    using lane_inv_reachable [OF s(1) assms(3) lane_inv_init [OF s(3)]] .
  have "keyed oracles" using discoverOracles_entries [OF s(2)] by blast
  then have k: "keyed (st_oracles (pr_state p))" using keyed_reachable [OF s(1)] by (simp add: svc_init_def)
  have "boot_quiet p0" using assms(1) first_window_quiet by (auto elim!: boot_Booted)
  then have q: "boot_quiet p" using boot_quiet_reachable [OF assms(2)] by blast
  show ?thesis using lane_inv_exclusive [OF inv d] inv k q c(2) s(5)
    by (auto simp: lane_inv_def boot_quiet_def dest: map_eq_imp_length_eq)
qed

definition demo_coins :: "CoinStruct list" where
  "demo_coins = [\<lparr>cn_id = ''g0'', cn_version = ''1'', cn_digest = ''d0'', cn_balance = 200000000000\<rparr>,
     \<lparr>cn_id = ''g1'', cn_version = ''1'', cn_digest = ''d1'', cn_balance = 300000000000\<rparr>]"

definition demo_boot :: boot_replies where
  "demo_boot =
     \<lparr>br_owner = Inr (Some ''0x9''), br_owned = Inr [''c0'', ''c1''], br_changes = Inr [], br_coins0 = Inr demo_coins,
      br_coins1 = Inr demo_coins, br_submit = SubmitStatus ''success'' True None, br_coins2 = Inr demo_coins, br_coins3 = Inr demo_coins,
      br_now = 1000, br_devInspect = (\<lambda>_. Some (Some [''0xa''])), br_predict = None, br_pages = [],
      br_multiGet = (\<lambda>_. Inr [Some demo_object])\<rparr>"

lemma demo_funded:
  "sumCoinBalances demo_coins = 500000000000"
  "\<not> round_double (of_int (to_double (sumCoinBalances demo_coins)) / of_int SUI_TO_MIST) < of_int (cf_gasPoolFloorSui demo_config)"
  "suiToMist (cf_gasLaneMinSui demo_config) = Inr 100000000000"
proof -
  show s: "sumCoinBalances demo_coins = 500000000000" by code_simp
  have "round_double 500 = 500" using round_double_int_bounds [of 500 500] by simp
  then show "\<not> round_double (of_int (to_double (sumCoinBalances demo_coins)) / of_int SUI_TO_MIST) < of_int (cf_gasPoolFloorSui demo_config)"
    unfolding s by (simp add: to_double_exact SUI_TO_MIST_def demo_config_def)
  show "suiToMist (cf_gasLaneMinSui demo_config) = Inr 100000000000"
    using to_js_numeral(1) [of "num.Bit0 num.One"] to_js_of_int [of 100000000000]
    by (simp add: suiToMist_def demo_config_def SUI_TO_MIST_def)
qed

lemma demo_no_refresh:
  "refreshGasLanesIfNeeded address demo_config None (Inr demo_coins) reply coins = Inr (None, None)"
proof -
  have "\<not> needsRefresh demo_config None demo_coins (minBigInt 100000000000 (500000000000 sdiv int (cf_laneCount demo_config)))"
    "cf_laneCount demo_config \<noteq> 0"
    by code_simp+
  then show ?thesis by (simp add: refreshGasLanesIfNeeded_def demo_funded Let_def)
qed

text \<open>A node that reports the capabilities \<open>caps\<close> as owned, and none as created.\<close>

lemma demo_caps:
  assumes "r = demo_boot\<lparr>br_owned := Inr caps\<rparr>"
  shows "ensureCapsAndCoins ''0x9'' demo_config (br_owner r) (br_owned r) (br_changes r) (br_coins0 r) (br_coins1 r)
       (br_submit r) (br_coins2 r) (br_coins3 r)
     = Inr (take 2 caps, map2 (lane_of_coin (take 2 caps)) [0, 1] (rev demo_coins))"
proof -
  have "take (cf_laneCount demo_config) (sortCoinsByBalanceDesc demo_coins) = rev demo_coins"
    "[0..<min (length (sortCoinsByBalanceDesc demo_coins)) 2] = [0, Suc 0]" "cf_laneCount demo_config = 2" by code_simp+
  then show ?thesis
    using demo_funded(2) unfolding ensureCapsAndCoins_def assms
    by (simp add: demo_boot_def assertSignerOwnsAdminCap_def createCaps_def demo_no_refresh Let_def)
qed

definition demo_proc :: Proc where
  "demo_proc = first_window
     (case discoverOracles demo_config [''c0'', ''c1''] 1000 (\<lambda>_. Some (Some [''0xa''])) None [] (\<lambda>_. Inr [Some demo_object]) of
        Some (Inr d) \<Rightarrow> d | _ \<Rightarrow> [])
     (map2 (\<lambda>coin (i, c). \<lparr>ln_id = i, ln_gasCoinId = cn_id coin, ln_gasCoinVersion = cn_version coin,
          ln_gasCoinDigest = cn_digest coin, ln_capId = c, ln_available = True\<rparr>) (rev demo_coins) [(0, ''c0''), (1, ''c1'')])
     [''c0'', ''c1'']"

lemma demo_boots: "boot demo_config ''0x9'' demo_boot = Booted demo_proc"
proof -
  have c: "ensureCapsAndCoins ''0x9'' demo_config (br_owner demo_boot) (br_owned demo_boot) (br_changes demo_boot) (br_coins0 demo_boot)
      (br_coins1 demo_boot) (br_submit demo_boot) (br_coins2 demo_boot) (br_coins3 demo_boot)
    = Inr ([''c0'', ''c1''], map2 (lane_of_coin [''c0'', ''c1'']) [0, 1] (rev demo_coins))"
    using demo_caps [of demo_boot "[''c0'', ''c1'']"] by (simp add: demo_boot_def)
  have d: "case discoverOracles demo_config [''c0'', ''c1''] 1000 (\<lambda>_. Some (Some [''0xa''])) None [] (\<lambda>_. Inr [Some demo_object]) of
     Some (Inr d) \<Rightarrow> True | _ \<Rightarrow> False" by code_simp
  show ?thesis unfolding boot_def c
    using d by (auto simp: lane_of_row_def lane_of_coin_def demo_coins_def demo_boot_def demo_proc_def split: option.splits sum.splits)
qed

theorem process_lanes_exclusive_witness:
  "\<exists>p. proc_reachable (\<lambda>v. Inr (U64Arg v)) demo_config ''0x9'' demo_proc p \<and> sc_phase (pr_svc p) = Working
     \<and> length (st_lanes (pr_state p)) = 2 \<and> sc_pushes (pr_svc p) = [] \<and> st_managerInFlight (pr_state p)
     \<and> keyed (st_oracles (pr_state p)) \<and> st_oracles (pr_state p) \<noteq> []"
proof -
  let ?u = "\<lambda>v. Inr (U64Arg v) :: tx_arg res"
  define p where "p = demo_proc\<lparr>pr_svc := (pr_svc demo_proc)\<lparr>sc_phase := Working\<rparr>\<rparr>"
  have e: "encoder ?u" by (simp add: encoder_def)
  have h: "alive (pr_life demo_proc)" "sc_phase (pr_svc demo_proc) = Draining" "list_all ln_available (st_lanes (pr_state demo_proc))"
    "length (st_lanes (pr_state demo_proc)) = 2" "map fst (st_oracles (pr_state demo_proc)) = [''0xa'']"
    by code_simp+
  have r: "proc_reachable ?u demo_config ''0x9'' demo_proc p"
    unfolding proc_reachable_def p_def using h(1,2,3) by (intro r_into_rtranclp proc_step.window_drained)
  have caps: "\<And>caps. br_owned demo_boot = Inr caps \<Longrightarrow> distinct caps"
    "\<And>caps new. br_owned demo_boot = Inr caps \<Longrightarrow> createCaps demo_config (br_changes demo_boot) = Inr new \<Longrightarrow> distinct (caps @ new)"
    by (auto simp: demo_boot_def Let_def createCaps_def bindE_eq_Inr)
  show ?thesis
    using process_lanes_exclusive [OF demo_boots r e caps] r h(4,5) by (intro exI [of _ p]) (auto simp: p_def)
qed

text \<open>C32. A shutdown is final: after the handler of a signal has run, in every later state the pushes in flight are
  among those in flight at the signal and a manager window runs only if one ran then, the subscriber is
  stopped, has no open socket and no pending reconnection and writes nothing more, the health server does
  not answer, and the process is waiting for its exit or has exited; the exit with code zero is always
  possible until then, and an exited process does nothing.\<close>

theorem shutdown_is_final:
  assumes "proc_reachable u64 config address (shutdown p) q"
  shows "set (sc_pushes (pr_svc q)) \<subseteq> set (sc_pushes (pr_svc p))
    \<and> (sc_phase (pr_svc p) = Off \<longrightarrow> sc_phase (pr_svc q) = Off)
    \<and> sb_stopped (pr_sub q) \<and> \<not> isConnected (pr_sub q) \<and> sb_reconnectTimer (pr_sub q) = None \<and> sb_sent (pr_sub q) = sb_sent (pr_sub p)
    \<and> health_reply config url now q = None
    \<and> (pr_life q = Stopping \<and> proc_step u64 config address q (q\<lparr>pr_life := Exited 0\<rparr>)
       \<or> pr_life q \<in> {Exited 0, Exited 1} \<and> (\<forall>q'. \<not> proc_step u64 config address q q'))"
proof -
  have "pr_life (shutdown p) = Stopping" "feed_silent (pr_sub (shutdown p))" by (simp_all add: shutdown_def feed_stop_silent)
  then have w: "winds_down (shutdown p) q" using assms by (intro winds_down_reachable)
  have l: "pr_life q \<in> {Stopping, Exited 0, Exited 1}" using w by (simp add: winds_down_def)
  have "health_reply config url now q = None" using l by (auto simp: health_reply_def)
  moreover have "pr_life q = Stopping \<and> proc_step u64 config address q (q\<lparr>pr_life := Exited 0\<rparr>)
       \<or> pr_life q \<in> {Exited 0, Exited 1} \<and> (\<forall>q'. \<not> proc_step u64 config address q q')"
    using l proc_step.exits no_step_when_dead [of q] by (cases "pr_life q = Stopping") auto
  ultimately show ?thesis
    using w by (simp add: winds_down_def keeps_silence_def feed_silent_def isConnected_def shutdown_def feed_stop_def)
qed

theorem shutdown_is_final_witness:
  "\<exists>q. proc_reachable (\<lambda>v. Inr (U64Arg v)) demo_config ''0x9'' (shutdown demo_proc) q \<and> pr_life q = Exited 0
     \<and> sb_stopped (pr_sub q) \<and> (\<forall>q'. \<not> proc_step (\<lambda>v. Inr (U64Arg v)) demo_config ''0x9'' q q')"
proof -
  let ?u = "\<lambda>v. Inr (U64Arg v) :: tx_arg res" and ?q = "(shutdown demo_proc)\<lparr>pr_life := Exited 0\<rparr>"
  have "proc_step ?u demo_config ''0x9'' (shutdown demo_proc) ?q"
    by (rule proc_step.exits) (simp add: shutdown_def)
  then have r: "proc_reachable ?u demo_config ''0x9'' (shutdown demo_proc) ?q" unfolding proc_reachable_def by (rule r_into_rtranclp)
  from shutdown_is_final [OF r, of "''/healthz''" 0] r show ?thesis by (intro exI [of _ ?q]) simp
qed

section \<open>Starts that fail\<close>

text \<open>A start succeeds, or is still waiting, exactly when its parts do; and when the node reports as many created
  capabilities as are missing, every lane has one.\<close>

lemma boot_typed:
  assumes "br_owned r = Inr caps0"
    and "length caps0 < cf_laneCount config \<Longrightarrow> \<exists>new. createCaps config (br_changes r) = Inr new \<and> cf_laneCount config \<le> length (caps0 @ new)"
  shows "boot config address r \<noteq> BootUntyped"
proof
  assume "boot config address r = BootUntyped"
  then obtain capIds rows where b: "ensureCapsAndCoins address config (br_owner r) (br_owned r) (br_changes r) (br_coins0 r) (br_coins1 r)
       (br_submit r) (br_coins2 r) (br_coins3 r) = Inr (capIds, rows)" "those (map lane_of_row rows) = None"
    by (auto simp: boot_def split: sum.splits option.splits prod.splits)
  from b(1) obtain caps1 new coins where c: "br_owned r = Inr caps1" "capIds = take (cf_laneCount config) (caps1 @ new)"
    "cf_laneCount config \<le> length caps1 \<longrightarrow> new = []"
    "length caps1 < cf_laneCount config \<longrightarrow> createCaps config (br_changes r) = Inr new"
    "rows = map (\<lambda>i. lane_of_coin capIds i (take (cf_laneCount config) (sortCoinsByBalanceDesc coins) ! i))
       [0..<min (cf_laneCount config) (length coins)]"
    by (rule ensureCapsAndCoins_rows)
  have "length capIds = cf_laneCount config" using assms c by (cases "length caps0 < cf_laneCount config") auto
  then have "\<forall>row \<in> set rows. lane_of_row row \<noteq> None" by (auto simp: c(5) lane_of_row_def lane_of_coin_def)
  then have "map lane_of_row rows = map Some (map (the \<circ> lane_of_row) rows)" by (induction rows) auto
  then show False using b(2) those_Some [of "map lane_of_row rows" "map (the \<circ> lane_of_row) rows"] by simp
qed

text \<open>A created capability that the reply does not list leaves a lane without one.\<close>

lemma missing_capability:
  "boot demo_config ''0x9'' (demo_boot\<lparr>br_owned := Inr [''c0'']\<rparr>) = BootUntyped"
  unfolding boot_def demo_caps [OF refl] by (simp add: lane_of_row_def lane_of_coin_def demo_coins_def)

section \<open>The summary counts every oracle once\<close>

lemma sum_count_status:
  "sum_list (map snd (count_status o' m)) = sum_list (map snd m) + 1"
proof -
  have "sum_list (map snd (map_set k ((case map_get m k of None \<Rightarrow> 0 | Some n \<Rightarrow> n) + 1) m)) = sum_list (map snd m) + (1 :: int)" for k :: OracleStatus
    by (induction m) (auto simp: map_get_def split: option.splits)
  then show ?thesis by (simp add: count_status_def)
qed

lemma get_count_status:
  "(case map_get (fold count_status os m) s of None \<Rightarrow> 0 | Some n \<Rightarrow> n)
     = (case map_get m s of None \<Rightarrow> 0 | Some n \<Rightarrow> n) + int (length (filter (\<lambda>o'. os_status o' = s) os))"
  by (induction os arbitrary: m) (auto simp: count_status_def js_Map.get_put split: option.splits)

lemma summary_counts:
  "sum_list (map snd (cs_byStatus (summary now st sub))) = int (cs_totalOracles (summary now st sub))"
  "(case map_get (cs_byStatus (summary now st sub)) s of None \<Rightarrow> 0 | Some n \<Rightarrow> n)
     = int (length (filter (\<lambda>o'. os_status o' = s) (map_values (st_oracles st))))"
proof -
  have "sum_list (map snd (fold count_status os m)) = sum_list (map snd m) + int (length os)" for os and m :: "(OracleStatus, int) js_Map"
    by (induction os arbitrary: m) (simp_all add: sum_count_status)
  then show "sum_list (map snd (cs_byStatus (summary now st sub))) = int (cs_totalOracles (summary now st sub))"
    by (simp add: summary_def map_values_def)
  show "(case map_get (cs_byStatus (summary now st sub)) s of None \<Rightarrow> 0 | Some n \<Rightarrow> n)
     = int (length (filter (\<lambda>o'. os_status o' = s) (map_values (st_oracles st))))"
    by (simp add: summary_def get_count_status) (simp add: map_get_def)
qed

end
