(* ===== verification/FeedTyping.thy ===== *)
theory FeedTyping
  imports MoveCheck OracleMain
begin

text \<open>
  The transactions of the oracle feed against the Move functions they call. The signatures are those of \<open>packages/predict\<close>;
  the types of the objects are an argument. What the configuration, the local state and the replies name is assumed
  to have its type, and the local state keeps that.
\<close>

section \<open>Signatures\<close>

definition sig_activate :: signature where
  "sig_activate = \<lparr>sg_params = [(ByRef, Struct ''OracleSVI''), (ByRef, Struct ''OracleSVICap''), (ByRef, Struct ''Clock'')], sg_results = []\<rparr>"

definition sig_update_prices :: signature where
  "sig_update_prices = \<lparr>sg_params = [(ByRef, Struct ''OracleSVI''), (ByRef, Struct ''OracleSVICap''), (ByValue, Struct ''PriceData''),
     (ByRef, Struct ''Clock'')], sg_results = []\<rparr>"

definition sig_update_svi :: signature where
  "sig_update_svi = \<lparr>sg_params = [(ByRef, Struct ''OracleSVI''), (ByRef, Struct ''OracleSVICap''), (ByValue, Struct ''SVIParams''),
     (ByRef, Struct ''Clock'')], sg_results = []\<rparr>"

definition sig_new_price_data :: signature where
  "sig_new_price_data = \<lparr>sg_params = [(ByValue, TU64), (ByValue, TU64)], sg_results = [Struct ''PriceData'']\<rparr>"

definition sig_new_svi_params :: signature where
  "sig_new_svi_params = \<lparr>sg_params = [(ByValue, TU64), (ByValue, TU64), (ByValue, Struct ''I64''), (ByValue, Struct ''I64''), (ByValue, TU64)],
     sg_results = [Struct ''SVIParams'']\<rparr>"

definition sig_from_parts :: signature where
  "sig_from_parts = \<lparr>sg_params = [(ByValue, TU64), (ByValue, TBool)], sg_results = [Struct ''I64'']\<rparr>"

definition sig_register_oracle_cap :: signature where
  "sig_register_oracle_cap = \<lparr>sg_params = [(ByRef, Struct ''OracleSVI''), (ByRef, Struct ''AdminCap''), (ByRef, Struct ''OracleSVICap'')],
     sg_results = []\<rparr>"

definition sig_create_oracle_cap :: signature where
  "sig_create_oracle_cap = \<lparr>sg_params = [(ByRef, Struct ''AdminCap'')], sg_results = [Struct ''OracleSVICap'']\<rparr>"

definition sig_create_oracle :: signature where
  "sig_create_oracle = \<lparr>sg_params = [(ByRef, Struct ''Registry''), (ByRef, Struct ''Predict''), (ByRef, Struct ''AdminCap''),
     (ByRef, Struct ''OracleSVICap''), (ByValue, TString), (ByValue, TU64), (ByValue, TU64), (ByValue, TU64)], sg_results = [Struct ''ID'']\<rparr>"

definition sig_compact_settled_oracle :: signature where
  "sig_compact_settled_oracle = \<lparr>sg_params = [(ByRef, Struct ''Predict''), (ByRef, Struct ''OracleSVI''), (ByRef, Struct ''OracleSVICap'')],
     sg_results = []\<rparr>"

definition feed_function :: "string \<Rightarrow> string \<Rightarrow> string list \<Rightarrow> signature option" where
  "feed_function p f ts =
     (if ts \<noteq> [] then None
      else map_of
        [(p @ ''::oracle::activate'', sig_activate), (p @ ''::oracle::update_prices'', sig_update_prices),
         (p @ ''::oracle::update_svi'', sig_update_svi), (p @ ''::oracle::new_price_data'', sig_new_price_data),
         (p @ ''::oracle::new_svi_params'', sig_new_svi_params), (p @ ''::i64::from_parts'', sig_from_parts),
         (p @ ''::registry::register_oracle_cap'', sig_register_oracle_cap),
         (p @ ''::registry::create_oracle_cap'', sig_create_oracle_cap), (p @ ''::registry::create_oracle'', sig_create_oracle),
         (p @ ''::predict::compact_settled_oracle'', sig_compact_settled_oracle)] f)"

definition feed_ledger :: "string \<Rightarrow> (string \<Rightarrow> move_type option) \<Rightarrow> ledger" where
  "feed_ledger p G =
     \<lparr>lg_object = G, lg_function = feed_function p,
      lg_plain = (\<lambda>t. t \<in> {TU64, TBool, TString, TAddress, Struct ''ID'', Struct ''I64'', Struct ''PriceData'', Struct ''SVIParams''}),
      lg_transferable = (\<lambda>t. t \<in> {Struct ''OracleSVICap'', sui_coin})\<rparr>"

text \<open>What the configuration, the state and the replies name has its type.\<close>

definition known_config :: "(string \<Rightarrow> move_type option) \<Rightarrow> Config \<Rightarrow> bool" where
  "known_config G config \<longleftrightarrow> G ''0x6'' = Some (Struct ''Clock'') \<and> G (cf_registryId config) = Some (Struct ''Registry'')
     \<and> G (cf_predictId config) = Some (Struct ''Predict'') \<and> G (cf_adminCapId config) = Some (Struct ''AdminCap'')"

definition known_oracle :: "(string \<Rightarrow> move_type option) \<Rightarrow> string \<Rightarrow> bool" where
  "known_oracle G i \<longleftrightarrow> G i = Some (Struct ''OracleSVI'')"

definition known_cap :: "(string \<Rightarrow> move_type option) \<Rightarrow> string \<Rightarrow> bool" where
  "known_cap G i \<longleftrightarrow> G i = Some (Struct ''OracleSVICap'')"

definition known_lane :: "(string \<Rightarrow> move_type option) \<Rightarrow> Lane \<Rightarrow> bool" where
  "known_lane G l \<longleftrightarrow> known_cap G (ln_capId l) \<and> G (ln_gasCoinId l) = Some sui_coin"

definition known_coins :: "(string \<Rightarrow> move_type option) \<Rightarrow> CoinStruct list \<Rightarrow> bool" where
  "known_coins G cs \<longleftrightarrow> distinct (map cn_id cs) \<and> list_all (\<lambda>c. G (cn_id c) = Some sui_coin) cs"

definition known_state :: "(string \<Rightarrow> move_type option) \<Rightarrow> ServiceState \<Rightarrow> bool" where
  "known_state G st \<longleftrightarrow> st_lanes st \<noteq> [] \<and> list_all (known_lane G) (st_lanes st)
     \<and> list_all (\<lambda>o'. known_oracle G (os_id o')) (map_values (st_oracles st))"

definition known_world :: "(string \<Rightarrow> move_type option) \<Rightarrow> Config \<Rightarrow> World \<Rightarrow> bool" where
  "known_world G config w \<longleftrightarrow>
     (\<forall>cs. wd_coins w = Inr cs \<longrightarrow> known_coins G cs) \<and> (\<forall>cs. wd_coinsAfter w = Inr cs \<longrightarrow> known_coins G cs)
     \<and> (\<forall>now d. wd_discovered w now = Inr d \<longrightarrow> list_all (\<lambda>o'. known_oracle G (os_id o')) (map_values d))
     \<and> (\<forall>n r. io_sign (mr_io (wd_reply w n)) = SignResp r \<longrightarrow>
          list_all (\<lambda>e. known_oracle G (ce_oracleId e)) (fst (parseOracleEvents (rs_events r) (cf_predictPackageId config))))"

definition u64_encoder :: "(js_number \<Rightarrow> tx_arg res) \<Rightarrow> bool" where
  "u64_encoder u64 \<longleftrightarrow> (\<forall>v x. u64 v = Inr x \<longrightarrow> (\<exists>n. x = U64Arg n))"

section \<open>Calls\<close>

lemma feed_ledger_simps [simp]:
  "lg_object (feed_ledger p G) = G" "lg_function (feed_ledger p G) = feed_function p"
  "lg_plain (feed_ledger p G) t \<longleftrightarrow> t \<in> {TU64, TBool, TString, TAddress, Struct ''ID'', Struct ''I64'', Struct ''PriceData'', Struct ''SVIParams''}"
  "lg_transferable (feed_ledger p G) t \<longleftrightarrow> t \<in> {Struct ''OracleSVICap'', sui_coin}"
  by (simp_all add: feed_ledger_def)

lemma feed_function_simps:
  "feed_function p (p @ ''::oracle::activate'') [] = Some sig_activate"
  "feed_function p (p @ ''::oracle::update_prices'') [] = Some sig_update_prices"
  "feed_function p (p @ ''::oracle::update_svi'') [] = Some sig_update_svi"
  "feed_function p (p @ ''::oracle::new_price_data'') [] = Some sig_new_price_data"
  "feed_function p (p @ ''::oracle::new_svi_params'') [] = Some sig_new_svi_params"
  "feed_function p (p @ ''::i64::from_parts'') [] = Some sig_from_parts"
  "feed_function p (p @ ''::registry::register_oracle_cap'') [] = Some sig_register_oracle_cap"
  "feed_function p (p @ ''::registry::create_oracle_cap'') [] = Some sig_create_oracle_cap"
  "feed_function p (p @ ''::registry::create_oracle'') [] = Some sig_create_oracle"
  "feed_function p (p @ ''::predict::compact_settled_oracle'') [] = Some sig_compact_settled_oracle"
  by (simp_all add: feed_function_def)

lemmas sigs = sig_activate_def sig_update_prices_def sig_update_svi_def sig_new_price_data_def sig_new_svi_params_def sig_from_parts_def
  sig_register_oracle_cap_def sig_create_oracle_cap_def sig_create_oracle_def sig_compact_settled_oracle_def

text \<open>A call whose arguments leave the state of the check alone.\<close>

lemma built_call:
  assumes "built_to L tx ck" "lg_function L f [] = Some sg" "use_args L (sg_params sg) as ck = Some ck"
  shows "built_to L (add_command (MoveCall f as) tx) (yields (sg_results sg) ck)"
proof -
  have "check_command L (MoveCall f as) ck = Some (yields (sg_results sg) ck)" using assms(2,3) by (simp add: check_call_def)
  from built_add [OF assms(1) this] assms(1) show ?thesis by (simp add: built_to_def)
qed

lemma built_facts:
  assumes "built_to L tx ck"
  shows "next_result tx = ResultArg (length (ck_results ck))" "list_all (\<lambda>i. lg_object L i = Some sui_coin) (ck_gone ck)"
  using assms by (simp_all add: built_to_def next_result_def)

lemma built_ref:
  assumes "built_to (feed_ledger p G) tx ck" "G i = Some t" "t \<noteq> sui_coin"
  shows "use_arg (feed_ledger p G) (ByRef, t) (ObjArg i) ck = Some ck"
  using use_object_ref [of "feed_ledger p G" ck i t] built_facts(2) [OF assms(1)] assms(2,3) by simp

lemma under_call:
  assumes "under_way L tx" "lg_function L f [] = Some sg" "list_all (lg_plain L) (sg_results sg)"
    and "\<And>ck. built_to L tx ck \<Longrightarrow> use_args L (sg_params sg) as ck = Some ck"
  shows "under_way L (add_command (MoveCall f as) tx)"
proof -
  obtain ck where ck: "built_to L tx ck" "settled_results L ck" using assms(1) by (auto simp: under_way_def)
  from built_call [OF ck(1) assms(2) assms(4) [OF ck(1)]] show ?thesis
    unfolding under_way_def by (intro exI [of _ "yields (sg_results sg) ck"]) (simp add: settled_yields ck(2) assms(3))
qed

lemmas known_defs = known_config_def known_oracle_def known_cap_def sui_coin_def CLOCK_ID_def

abbreviation feed :: "(string \<Rightarrow> move_type option) \<Rightarrow> Config \<Rightarrow> ledger" where
  "feed G config \<equiv> feed_ledger (cf_predictPackageId config) G"

lemma under_register:
  assumes "known_config G config" "under_way (feed G config) tx" "known_oracle G i" "known_cap G c"
  shows "under_way (feed G config) (addRegisterCap (cf_predictPackageId config) i (cf_adminCapId config) c tx)"
  unfolding addRegisterCap_def
  using assms by (intro under_call [where sg = sig_register_oracle_cap]) (simp_all add: feed_function_simps sigs built_ref known_defs del: use_arg.simps)

lemma under_activate:
  assumes "known_config G config" "under_way (feed G config) tx" "known_oracle G i" "known_cap G c"
  shows "under_way (feed G config) (addActivate (cf_predictPackageId config) i c tx)"
  unfolding addActivate_def
  using assms by (intro under_call [where sg = sig_activate]) (simp_all add: feed_function_simps sigs built_ref known_defs del: use_arg.simps)

lemma under_compact:
  assumes "known_config G config" "under_way (feed G config) tx" "known_oracle G i" "known_cap G c"
  shows "under_way (feed G config) (addCompact (cf_predictPackageId config) (cf_predictId config) i c tx)"
  unfolding addCompact_def
  using assms by (intro under_call [where sg = sig_compact_settled_oracle]) (simp_all add: feed_function_simps sigs built_ref known_defs del: use_arg.simps)

lemma use_u64: "u64_encoder u64 \<Longrightarrow> u64 v = Inr x \<Longrightarrow> use_arg L (ByValue, TU64) x ck = Some ck"
  unfolding u64_encoder_def by (elim allE impE exE) (assumption, simp add: pure_ok_def)

lemma under_create:
  assumes "known_config G config" "u64_encoder u64" "under_way (feed G config) tx" "known_cap G c"
    and "addCreateOracle u64 (cf_predictPackageId config)
        \<lparr>ca_registryId = cf_registryId config, ca_predictId = cf_predictId config, ca_adminCapId = cf_adminCapId config,
          ca_capId = c, ca_underlying = ua, ca_expiryMs = t, ca_minStrike = k, ca_tickSize = z\<rparr> tx = Inr tx'"
  shows "under_way (feed G config) tx'"
proof -
  obtain e m s where x: "u64 (Num (of_int t)) = Inr e" "u64 (Num (of_int k)) = Inr m" "u64 (Num (of_int z)) = Inr s"
    and tx': "tx' = add_command (MoveCall (cf_predictPackageId config @ ''::registry::create_oracle'')
      [ObjArg (cf_registryId config), ObjArg (cf_predictId config), ObjArg (cf_adminCapId config), ObjArg c, StrArg ua, e, m, s]) tx"
    using assms(5) by (auto simp: addCreateOracle_def bindE_eq_Inr)
  note u = x [THEN use_u64 [OF assms(2)]]
  have str: "use_arg (feed G config) (ByValue, TString) (StrArg ua) ck = Some ck" for ck by (simp add: pure_ok_def)
  show ?thesis unfolding tx' using assms(1,3,4)
    by (intro under_call [where sg = sig_create_oracle]) (simp_all add: feed_function_simps sigs built_ref known_defs u str del: use_arg.simps)
qed

lemma under_prices:
  assumes "known_config G config" "u64_encoder u64" "under_way (feed G config) tx" "known_oracle G i" "known_cap G c"
    and "addUpdatePrices u64 (cf_predictPackageId config) i c spot fwd tx = Inr tx'"
  shows "under_way (feed G config) tx'"
proof -
  let ?L = "feed G config" and ?p = "cf_predictPackageId config"
  obtain ck where ck: "built_to ?L tx ck" "settled_results ?L ck" using assms(3) by (auto simp: under_way_def)
  let ?n = "length (ck_results ck)"
  obtain s f where x: "u64 (scaleToU64 spot) = Inr s" "u64 (scaleToU64 fwd) = Inr f"
    and tx': "tx' = add_command (MoveCall (?p @ ''::oracle::update_prices'') [ObjArg i, ObjArg c, ResultArg ?n, ObjArg CLOCK_ID])
      (add_command (MoveCall (?p @ ''::oracle::new_price_data'') [s, f]) tx)"
    using assms(6) by (auto simp: addUpdatePrices_def bindE_eq_Inr Let_def built_facts(1) [OF ck(1)])
  note u = x [THEN use_u64 [OF assms(2)]]
  let ?ck1 = "yields [Struct ''PriceData''] ck"
  have 1: "built_to ?L (add_command (MoveCall (?p @ ''::oracle::new_price_data'') [s, f]) tx) ?ck1"
    using built_call [OF ck(1), of "?p @ ''::oracle::new_price_data''" sig_new_price_data "[s, f]"] u
    by (simp add: feed_function_simps sigs del: use_arg.simps)
  have r: "use_arg ?L (ByValue, Struct ''PriceData'') (ResultArg ?n) ?ck1 = Some ?ck1" by (rule use_plain_result) simp_all
  have "built_to ?L tx' (yields [] ?ck1)" unfolding tx'
    using built_call [OF 1, of "?p @ ''::oracle::update_prices''" sig_update_prices "[ObjArg i, ObjArg c, ResultArg ?n, ObjArg CLOCK_ID]"] assms(1,4,5)
    by (simp add: feed_function_simps sigs built_ref [OF 1] r known_defs del: use_arg.simps)
  then show ?thesis unfolding under_way_def using ck(2) by (intro exI [of _ "yields [] ?ck1"]) (simp add: settled_yields)
qed

lemma under_svi:
  assumes "known_config G config" "u64_encoder u64" "under_way (feed G config) tx" "known_oracle G i" "known_cap G c"
    and "addUpdateSvi u64 (cf_predictPackageId config) i c ps tx = Inr tx'"
  shows "under_way (feed G config) tx'"
proof -
  let ?L = "feed G config" and ?p = "cf_predictPackageId config"
  obtain ck where ck: "built_to ?L tx ck" "settled_results ?L ck" using assms(3) by (auto simp: under_way_def)
  let ?n = "length (ck_results ck)" and ?i = "?p @ ''::i64::from_parts''"
  have n: "length (tx_commands tx) = ?n" using ck(1) by (simp add: built_to_def)
  obtain rm rn mm mn where sp: "signedToPair (fs_rho ps) = (rm, rn)" "signedToPair (fs_m ps) = (mm, mn)" by fastforce
  obtain r m a b s where x: "u64 rm = Inr r" "u64 mm = Inr m" "u64 (scaleToU64 (fs_a ps)) = Inr a" "u64 (scaleToU64 (fs_b ps)) = Inr b"
      "u64 (scaleToU64 (fs_sigma ps)) = Inr s"
    and tx': "tx' = add_command (MoveCall (?p @ ''::oracle::update_svi'') [ObjArg i, ObjArg c, ResultArg (Suc (Suc ?n)), ObjArg CLOCK_ID])
      (add_command (MoveCall (?p @ ''::oracle::new_svi_params'') [a, b, ResultArg ?n, ResultArg (Suc ?n), s])
      (add_command (MoveCall ?i [m, BoolArg mn]) (add_command (MoveCall ?i [r, BoolArg rn]) tx)))"
    using assms(6) by (auto simp: addUpdateSvi_def bindE_eq_Inr Let_def sp next_result_def add_command_def n)
  note u = x [THEN use_u64 [OF assms(2)]]
  have bool: "use_arg ?L (ByValue, TBool) (BoolArg v) ck = Some ck" for v ck by (simp add: pure_ok_def)
  let ?ck1 = "yields [Struct ''I64''] ck"
  let ?ck2 = "yields [Struct ''I64''] ?ck1"
  let ?ck3 = "yields [Struct ''SVIParams''] ?ck2"
  have 1: "built_to ?L (add_command (MoveCall ?i [r, BoolArg rn]) tx) ?ck1"
    using built_call [OF ck(1), of ?i sig_from_parts "[r, BoolArg rn]"] u bool by (simp add: feed_function_simps sigs del: use_arg.simps)
  have 2: "built_to ?L (add_command (MoveCall ?i [m, BoolArg mn]) (add_command (MoveCall ?i [r, BoolArg rn]) tx)) ?ck2"
    using built_call [OF 1, of ?i sig_from_parts "[m, BoolArg mn]"] u bool by (simp add: feed_function_simps sigs del: use_arg.simps)
  have r2: "use_arg ?L (ByValue, Struct ''I64'') (ResultArg ?n) ?ck2 = Some ?ck2"
    "use_arg ?L (ByValue, Struct ''I64'') (ResultArg (Suc ?n)) ?ck2 = Some ?ck2"
    by (rule use_plain_result; simp add: nth_append)+
  have 3: "built_to ?L (add_command (MoveCall (?p @ ''::oracle::new_svi_params'') [a, b, ResultArg ?n, ResultArg (Suc ?n), s])
      (add_command (MoveCall ?i [m, BoolArg mn]) (add_command (MoveCall ?i [r, BoolArg rn]) tx))) ?ck3"
    using built_call [OF 2, of "?p @ ''::oracle::new_svi_params''" sig_new_svi_params "[a, b, ResultArg ?n, ResultArg (Suc ?n), s]"] u r2
    by (simp add: feed_function_simps sigs del: use_arg.simps)
  have r3: "use_arg ?L (ByValue, Struct ''SVIParams'') (ResultArg (Suc (Suc ?n))) ?ck3 = Some ?ck3"
    by (rule use_plain_result; simp add: nth_append)
  have "built_to ?L tx' (yields [] ?ck3)" unfolding tx'
    using built_call [OF 3, of "?p @ ''::oracle::update_svi''" sig_update_svi "[ObjArg i, ObjArg c, ResultArg (Suc (Suc ?n)), ObjArg CLOCK_ID]"] assms(1,4,5)
    by (simp add: feed_function_simps sigs built_ref [OF 3] r3 known_defs del: use_arg.simps)
  then show ?thesis unfolding under_way_def using ck(2) by (intro exI [of _ "yields [] ?ck3"]) (simp add: settled_yields)
qed

section \<open>Ticks\<close>

lemma under_lane: "known_lane G l \<Longrightarrow> under_way (feed G config) (newLaneTx address l)"
  by (rule under_way_start(2)) (simp_all add: newLaneTx_def new_Transaction_def gas_ids_def known_lane_def)

lemma under_push_oracle:
  assumes "known_config G config" "u64_encoder u64" "known_lane G lane" "known_oracle G (os_id o')"
    and "push_oracle u64 config now spot st lane o' acc = Inr acc'" "under_way (feed G config) (ta_tx acc)"
  shows "under_way (feed G config) (ta_tx acc')"
proof -
  have c: "known_cap G (ln_capId lane)" using assms(3) by (simp add: known_lane_def)
  note pr = under_prices [OF assms(1,2,6,4) c]
  note sv = under_svi [OF assms(1,2) pr assms(4) c]
  show ?thesis using assms(5,6)
    by (cases "map_get (st_sviCache st) (os_id o')")
      (auto simp: push_oracle_def Let_def bindE_eq_Inr split: if_splits option.splits elim: pr sv)
qed

lemma under_push_fold:
  assumes "known_config G config" "u64_encoder u64" "known_lane G lane" "list_all (\<lambda>o'. known_oracle G (os_id o')) os"
    and "foldE (push_oracle u64 config now spot st lane) os acc = Inr acc'" "under_way (feed G config) (ta_tx acc)"
  shows "under_way (feed G config) (ta_tx acc')"
  using assms(4-6)
proof (induction os arbitrary: acc)
  case (Cons x xs)
  then obtain a where "push_oracle u64 config now spot st lane x acc = Inr a" "foldE (push_oracle u64 config now spot st lane) xs a = Inr acc'"
    by (auto simp: bindE_eq_Inr)
  with Cons under_push_oracle [OF assms(1-3)] show ?case by simp blast
qed simp

lemma typed_pushTick:
  assumes "known_config G config" "u64_encoder u64" "known_state G st" "pushTick u64 config address now st = (Submitting i tx ps, st')"
  shows "under_way (feed G config) tx"
  using assms(4)
proof (cases rule: pushTick_submits)
  case (1 spot acc)
  have l: "known_lane G (st_lanes st ! i)" using assms(3) 1(2) by (simp add: known_state_def list_all_length)
  show ?thesis unfolding 1(8)
    by (rule under_push_fold [OF assms(1,2) l _ 1(6)]) (use assms(3) under_lane [OF l] in \<open>simp_all add: known_state_def\<close>)
qed

section \<open>Coins\<close>

lemma merge_coins:
  assumes "list_all (\<lambda>c. G (cn_id c) = Some sui_coin) cs" "distinct (map cn_id cs)" "set (map cn_id cs) \<inter> set (ck_gone ck) = {}"
  shows "\<exists>ck'. use_args (feed_ledger p G) (replicate (length cs) (ByValue, sui_coin)) (map (\<lambda>c. CoinRefArg (cn_id c) (cn_version c) (cn_digest c)) cs) ck = Some ck'
    \<and> ck_results ck' = ck_results ck \<and> set (ck_gone ck') = set (map cn_id cs) \<union> set (ck_gone ck)"
  using assms
proof (induction cs arbitrary: ck)
  case (Cons c cs)
  have "\<exists>ck'. use_args (feed_ledger p G) (replicate (length cs) (ByValue, sui_coin)) (map (\<lambda>c. CoinRefArg (cn_id c) (cn_version c) (cn_digest c)) cs)
      (ck\<lparr>ck_gone := cn_id c # ck_gone ck\<rparr>) = Some ck'
    \<and> ck_results ck' = ck_results ck \<and> set (ck_gone ck') = set (map cn_id cs) \<union> set (cn_id c # ck_gone ck)"
    using Cons.prems Cons.IH [of "ck\<lparr>ck_gone := cn_id c # ck_gone ck\<rparr>"] by (auto simp: image_iff)
  with Cons.prems show ?case by (simp add: use_object_def)
qed simp

lemma split_args: "use_args L (replicate n (ByValue, TU64)) (replicate n (U64Arg v)) ck = Some ck"
  by (induction n) (simp_all add: pure_ok_def)

lemma transfer_components:
  assumes "ck_results ck = rs @ [replicate j (sui_coin, True) @ replicate k (sui_coin, False)]"
  shows "transfer_all (feed_ledger p G) (map (NestedArg (length rs)) [j..<j + k]) ck
    = Some (ck\<lparr>ck_results := rs @ [replicate (j + k) (sui_coin, True)]\<rparr>)"
  using assms
proof (induction k arbitrary: j ck)
  case (Suc k)
  let ?ck = "ck\<lparr>ck_results := rs @ [replicate (Suc j) (sui_coin, True) @ replicate k (sui_coin, False)]\<rparr>"
  have c: "replicate j (sui_coin, True) @ replicate (Suc k) (sui_coin, False) = replicate j (sui_coin, True) @ (sui_coin, False) # replicate k (sui_coin, False)"
    by simp
  note r = Suc.prems [unfolded c]
  have "\<not> lg_plain (feed_ledger p G) sui_coin" by (simp add: sui_coin_def)
  then have "use_arg (feed_ledger p G) (ByValue, sui_coin) (NestedArg (length rs) j) ck = Some ?ck"
    by (simp add: use_result_def r nth_append list_update_append replicate_app_Cons_same)
  moreover have "type_of_arg (feed_ledger p G) (NestedArg (length rs) j) ck = Some sui_coin"
    using Suc.prems by (simp add: nth_append)
  moreover have "[j..<j + Suc k] = j # [Suc j..<Suc j + k]" by (simp add: upt_conv_Cons del: upt_Suc)
  ultimately show ?case using Suc.IH [of ?ck "Suc j"] by (simp del: upt_Suc replicate_Suc)
qed simp

text \<open>The refresh transaction: the other coins are merged into the gas coin, which is not among them, and every component of
  the split is transferred.\<close>

lemma under_refresh_tx:
  assumes "known_coins G (primary # others)" "refresh_tx address n primary others mist = Inr tx"
  shows "under_way (feed G config) tx"
proof -
  let ?L = "feed G config"
  define tx0 where "tx0 = new_Transaction\<lparr>tx_sender := Some address, tx_gasPayment := [coinRef primary]\<rparr>"
  let ?cs = "map (\<lambda>c. CoinRefArg (cn_id c) (cn_version c) (cn_digest c)) others"
  define tx1 where "tx1 = (if ?cs \<noteq> [] then add_command (MergeCoins GasArg ?cs) tx0 else tx0)"
  have g: "gas_ids tx0 = [cn_id primary]" by (simp add: tx0_def gas_ids_def coinRef_def)
  have b0: "built_to ?L tx0 (start_check tx0)"
    by (rule under_way_start(1)) (use g assms(1) in \<open>simp_all add: tx0_def new_Transaction_def known_coins_def\<close>)
  have "\<exists>ck. built_to ?L tx1 ck \<and> settled_results ?L ck"
  proof (cases "others = []")
    case True
    then show ?thesis using b0 by (intro exI [of _ "start_check tx0"]) (simp add: tx1_def settled_results_def start_check_def)
  next
    case False
    obtain ck' where ck': "use_args ?L (replicate (length others) (ByValue, sui_coin)) ?cs (start_check tx0) = Some ck'"
      "ck_results ck' = []" "set (ck_gone ck') = set (map cn_id others) \<union> {cn_id primary}"
      using merge_coins [of G others "start_check tx0" "cf_predictPackageId config"] assms(1) g
      by (auto simp: known_coins_def start_check_def)
    have c: "check_command ?L (MergeCoins GasArg ?cs) (start_check tx0) = Some (yields [] ck')" using False ck'(1) by simp
    have "list_all (\<lambda>i. lg_object ?L i = Some sui_coin) (ck_gone ck')"
      using ck'(3) assms(1) by (auto simp: list_all_iff known_coins_def)
    from built_add [OF b0 c] this ck'(2) have "built_to ?L tx1 (yields [] ck')" using False by (simp add: tx1_def start_check_def)
    then show ?thesis using ck'(2) by (intro exI [of _ "yields [] ck'"]) (simp add: settled_results_def)
  qed
  then obtain ck where ck: "built_to ?L tx1 ck" "settled_results ?L ck" by blast
  show ?thesis
  proof (cases "n - 1 > 0")
    case False
    then have "tx = tx1" using assms(2) by (auto simp: refresh_tx_def Let_def tx1_def tx0_def)
    then show ?thesis using ck by (auto simp: under_way_def)
  next
    case True
    define k m where "k = length (ck_results ck)" and "m = n - 1"
    obtain v where tx: "tx = add_command (TransferObjects (map (NestedArg k) [0..<m]) (AddrArg address))
        (add_command (SplitCoins GasArg (replicate m (U64Arg v))) tx1)"
      using assms(2) True ck(1) by (auto simp: refresh_tx_def Let_def tx1_def tx0_def k_def m_def built_to_def split: if_splits)
    have m: "m > 0" using True by (simp add: m_def)
    let ?ck1 = "yields (replicate m sui_coin) ck"
    have "check_command ?L (SplitCoins GasArg (replicate m (U64Arg v))) ck = Some ?ck1" using m split_args by simp
    from built_add [OF ck(1) this] ck(1) have b1: "built_to ?L (add_command (SplitCoins GasArg (replicate m (U64Arg v))) tx1) ?ck1"
      by (simp add: built_to_def)
    let ?ck2 = "?ck1\<lparr>ck_results := ck_results ck @ [replicate m (sui_coin, True)]\<rparr>"
    have "transfer_all ?L (map (NestedArg k) [0..<m]) ?ck1 = Some ?ck2"
      using transfer_components [of ?ck1 "ck_results ck" 0 m] by (simp add: k_def)
    then have "check_command ?L (TransferObjects (map (NestedArg k) [0..<m]) (AddrArg address)) ?ck1 = Some (yields [] ?ck2)"
      using m by (simp add: pure_ok_def)
    from built_add [OF b1 this] b1 have "built_to ?L tx (yields [] ?ck2)" unfolding tx by (simp add: built_to_def)
    moreover have "settled_results ?L (yields [] ?ck2)" using ck(2) by (simp add: settled_results_def) (simp add: list_all_iff)
    ultimately show ?thesis by (auto simp: under_way_def)
  qed
qed

lemma known_sorted: "known_coins G coins \<Longrightarrow> known_coins G (sortCoinsByBalanceDesc coins)"
  by (simp add: known_coins_def sortCoinsByBalanceDesc_def list_all_iff distinct_map)

lemma typed_refresh:
  assumes "refreshGasLanesIfNeeded address config lanes (Inr coins) reply after = Inr (ls, Some tx)" "known_coins G coins"
  shows "under_way (feed G config) tx"
proof -
  obtain primary others mist where s: "sortCoinsByBalanceDesc coins = primary # others"
    "refresh_tx address (cf_laneCount config) primary others mist = Inr tx"
    using assms(1) by (auto simp: refreshGasLanesIfNeeded_def Let_def bindE_eq_Inr split: if_splits list.splits)
  show ?thesis using under_refresh_tx [OF _ s(2)] known_sorted [OF assms(2)] s(1) by simp
qed

section \<open>Capabilities\<close>

lemma createCaps_Suc:
  "createCaps_tx address config (Suc n) = add_command (TransferObjects [next_result (createCaps_tx address config n)] (AddrArg address))
     (add_command (MoveCall (cf_predictPackageId config @ ''::registry::create_oracle_cap'') [ObjArg (cf_adminCapId config)])
       (createCaps_tx address config n))"
  by (simp add: createCaps_tx_def Let_def)

lemma typed_createCaps:
  assumes "known_config G config"
  shows "under_way (feed G config) (createCaps_tx address config n)"
proof (induction n)
  case 0
  show ?case by (rule under_way_start(2)) (simp_all add: createCaps_tx_def new_Transaction_def gas_ids_def)
next
  case (Suc n)
  let ?L = "feed G config" and ?f = "cf_predictPackageId config @ ''::registry::create_oracle_cap''"
  let ?tx = "createCaps_tx address config n"
  obtain ck where ck: "built_to ?L ?tx ck" "settled_results ?L ck" using Suc by (auto simp: under_way_def)
  let ?k = "length (ck_results ck)" and ?ck1 = "yields [Struct ''OracleSVICap''] ck"
  have e: "createCaps_tx address config (Suc n) = add_command (TransferObjects [ResultArg ?k] (AddrArg address))
      (add_command (MoveCall ?f [ObjArg (cf_adminCapId config)]) ?tx)"
    by (simp add: createCaps_Suc built_facts(1) [OF ck(1)])
  have b1: "built_to ?L (add_command (MoveCall ?f [ObjArg (cf_adminCapId config)]) ?tx) ?ck1"
    using built_call [OF ck(1), of ?f sig_create_oracle_cap "[ObjArg (cf_adminCapId config)]"] assms
    by (simp add: feed_function_simps sigs built_ref [OF ck(1)] known_defs del: use_arg.simps)
  let ?ck2 = "?ck1\<lparr>ck_results := ck_results ck @ [[(Struct ''OracleSVICap'', True)]]\<rparr>"
  have "check_command ?L (TransferObjects [ResultArg ?k] (AddrArg address)) ?ck1 = Some (yields [] ?ck2)"
    by (simp add: use_result_def pure_ok_def)
  from built_add [OF b1 this] b1 have "built_to ?L (createCaps_tx address config (Suc n)) (yields [] ?ck2)"
    unfolding e by (simp add: built_to_def)
  moreover have "settled_results ?L (yields [] ?ck2)" using ck(2) by (simp add: settled_results_def)
  ultimately show ?case by (auto simp: under_way_def)
qed

section \<open>The manager window\<close>

lemma values_map_set: "list_all P (map_values m) \<Longrightarrow> P v \<Longrightarrow> list_all P (map_values (map_set k v m))"
  by (induction k v m rule: map_set.induct) (auto simp: map_values_def)

lemma values_map_delete: "list_all P (map_values m) \<Longrightarrow> list_all P (map_values (map_delete k m))"
  by (auto simp: map_values_def map_delete_def list_all_iff)

lemma values_map_get: "list_all P (map_values m) \<Longrightarrow> map_get m k = Some v \<Longrightarrow> P v"
  by (force simp: map_values_def map_get_def list_all_iff dest: map_of_SomeD)

lemma values_fold_reconcile:
  assumes "list_all (\<lambda>o'. known_oracle G (os_id o')) (map_values m)" "list_all (\<lambda>e. known_oracle G (os_id (snd e))) d"
  shows "list_all (\<lambda>o'. known_oracle G (os_id o')) (map_values (fold reconcile_entry d m))"
  using assms
proof (induction d arbitrary: m)
  case (Cons e d)
  have "list_all (\<lambda>o'. known_oracle G (os_id o')) (map_values (reconcile_entry e m))"
    using Cons.prems values_map_get [OF Cons.prems(1)]
    by (auto simp: reconcile_entry_def intro!: values_map_set split: option.splits)
  then show ?case using Cons by simp
qed simp

lemma values_fold_delete:
  "list_all P (map_values m) \<Longrightarrow> list_all P (map_values (fold (\<lambda>e m. if c e then map_delete (f e) m else m) es m))"
  by (induction es arbitrary: m) (simp_all add: values_map_delete)

lemma known_reconcile:
  assumes "known_state G st" "list_all (\<lambda>o'. known_oracle G (os_id o')) (map_values d)"
  shows "known_state G (reconcileLocalOracles d st)"
proof -
  have "list_all (\<lambda>e. known_oracle G (os_id (snd e))) d" using assms(2) by (simp add: map_values_def list.pred_map comp_def)
  from values_fold_reconcile [OF _ this] assms(1)
  have "list_all (\<lambda>o'. known_oracle G (os_id o')) (map_values (fold reconcile_entry d (st_oracles st)))" by (simp add: known_state_def)
  with assms(1) show ?thesis
    by (simp add: known_state_def) (simp add: reconcileLocalOracles_def Let_def values_fold_delete)
qed

lemma known_execute:
  assumes "known_state G (mg_st g)"
  shows "known_state G (mg_st (fst (mgr_execute w tx g)))"
proof -
  let ?ls = "st_lanes (mg_st g)" and ?io = "mr_io (wd_reply w (mg_replies g))"
  define l where "l = fst (executeLaneTx_end ?io (?ls[0 := (?ls ! 0)\<lparr>ln_available := False\<rparr>] ! 0))"
  have ls: "st_lanes (mg_st (fst (mgr_execute w tx g))) = ?ls[0 := l]"
    unfolding mgr_execute_st release_lane_lanes l_def by (simp add: take_lane_def)
  have "?ls \<noteq> []" "known_lane G (?ls ! 0)" using assms by (auto simp: known_state_def list_all_length)
  then have "known_lane G l" unfolding known_lane_def l_def executeLaneTx_end_lane(2,4) by simp
  then have "list_all (known_lane G) (?ls[0 := l])"
    using assms set_update_subset_insert [of ?ls 0 l] by (auto simp: known_state_def list_all_iff)
  moreover have "st_oracles (mg_st (fst (mgr_execute w tx g))) = st_oracles (mg_st g)"
    unfolding mgr_execute_st release_lane_lanes by (simp add: take_lane_def)
  ultimately show ?thesis using assms ls by (simp add: known_state_def)
qed

lemma mgr_response: "snd (mgr_execute w tx g) = Some r \<Longrightarrow> io_sign (mr_io (wd_reply w (mg_replies g))) = SignResp r"
  by (auto simp: mgr_execute_def release_lane_def executeLaneTx_end_def Let_def split: prod.splits sign_reply.splits if_splits option.splits)

text \<open>The window as an instance of its interface: what it has submitted is under way, and the state names only what is known.\<close>

interpretation mgr_typed: mgr_property
  "\<lambda>g. known_config G config \<and> known_world G config w \<and> known_state G (mg_st g) \<and> list_all (under_way (feed G config)) (mg_sent g)"
  "\<lambda>tx. known_config G config \<and> under_way (feed G config) tx" u64_encoder config "known_oracle G" "known_cap G" w for G config w
proof (unfold_locales, goal_cases)
  case (1 g tx)
  then show ?case using known_execute by (auto simp: mgr_execute_def Let_def split: prod.splits)
next
  case (2 g o')
  then show ?case by (simp add: set_oracle_def known_state_def values_map_set)
next
  case (3 g k)
  then show ?case by (simp add: known_state_def values_map_delete)
next
  case (7 g k o')
  then show ?case using values_map_get by (fastforce simp: known_state_def)
next
  case (8 g tx r e)
  then show ?case using mgr_response [OF 8(2)] by (auto simp: known_world_def list_all_iff)
next
  case (9 g)
  then show ?case by (simp add: known_state_def lane0_def known_lane_def list_all_length)
next
  case (10 g l)
  then show ?case by (auto simp: known_state_def known_lane_def list_all_iff)
next
  case (11 g address)
  then show ?case by (auto simp: known_state_def lane0_def list_all_length intro!: under_lane)
qed (auto simp: known_state_def intro: under_register under_activate under_compact under_prices under_svi under_create)

lemma known_refresh:
  assumes "known_state G st" "\<forall>cs. coins = Inr cs \<longrightarrow> known_coins G cs" "\<forall>cs. after = Inr cs \<longrightarrow> known_coins G cs"
    and "refreshGasLanesIfNeeded address config (Some (st_lanes st)) coins reply after = Inr (Some ls, tx)"
  shows "ls \<noteq> [] \<and> list_all (known_lane G) ls"
proof -
  obtain cs where c: "coins = Inr cs" using assms(4) by (cases coins) (auto simp: refreshGasLanesIfNeeded_def split: if_splits)
  show ?thesis using assms(4) unfolding c
  proof (cases rule: refresh_cases)
    case 1
    then show ?thesis using assms(1) by (simp add: known_state_def)
  next
    case (2 aft tx' primary others)
    have "list_all (\<lambda>c. G (cn_id c) = Some sui_coin) (take (cf_laneCount config) (sortCoinsByBalanceDesc aft))"
      using assms(3) 2(4) by (auto simp: known_coins_def sortCoinsByBalanceDesc_def list_all_iff dest: in_set_takeD)
    moreover have "list_all (known_lane G) (st_lanes st)" using assms(1) by (simp add: known_state_def)
    ultimately have "list_all (known_lane G) ls" using 2(9)
      by (auto simp: list_all_iff known_lane_def set_lane_coin_def dest: set_zip_leftD set_zip_rightD)
    moreover have "length ls = cf_laneCount config" using 2(1,7,9) by (simp add: sortCoinsByBalanceDesc_def)
    ultimately show ?thesis using 2(3) by auto
  qed
qed

lemma typed_manager_work:
  assumes "u64_encoder u64" "known_config G config" "known_world G config w" "known_state G st"
  shows "known_state G (mg_st (fst (manager_work u64 config address w st)))
    \<and> list_all (under_way (feed G config)) (mg_sent (fst (manager_work u64 config address w st)))"
proof -
  have "known_config G config \<and> known_world G config w \<and> known_state G (mg_st (fst (manager_work u64 config address w st)))
    \<and> list_all (under_way (feed G config)) (mg_sent (fst (manager_work u64 config address w st)))"
  proof (rule mgr_typed.keeps_work [OF assms(1)], goal_cases)
    case 1
    then show ?case using assms by simp
  next
    case (2 lanes tx)
    have cs: "\<forall>cs. wd_coins w = Inr cs \<longrightarrow> known_coins G cs" "\<forall>cs. wd_coinsAfter w = Inr cs \<longrightarrow> known_coins G cs"
      using assms(3) by (simp_all add: known_world_def)
    have "under_way (feed G config) t" if "tx = Some t" for t
    proof (cases "wd_coins w")
      case (Inl e)
      with 2 show ?thesis by (auto simp: refreshGasLanesIfNeeded_def split: if_splits)
    next
      case (Inr coins)
      then show ?thesis using typed_refresh [of address config _ coins] 2 that cs(1) by simp
    qed
    with known_refresh [OF assms(4) cs 2] assms show ?case by (simp add: known_state_def split: option.splits)
  next
    case (3 g d now)
    then show ?case using known_reconcile assms(3) by (auto simp: known_world_def)
  qed
  then show ?thesis by blast
qed

section \<open>All transactions of the feed\<close>

lemma known_lane_update: "known_state G st \<Longrightarrow> known_lane G l \<Longrightarrow> known_state G (st\<lparr>st_lanes := (st_lanes st)[i := l]\<rparr>)"
  using set_update_subset_insert [of "st_lanes st" i l] by (auto simp: known_state_def list_all_iff)

lemma known_pushTick:
  assumes "known_state G st" "pushTick u64 config address now st = (Submitting i tx ps, st')"
  shows "known_state G st' \<and> known_state G (pushTick_done i ps io now' st')"
  using assms(2)
proof (cases rule: pushTick_submits)
  case (1 spot acc)
  have l: "known_lane G (st_lanes st ! i)" using assms(1) 1(2) by (simp add: known_state_def list_all_length)
  have "known_state G (st\<lparr>st_laneHint := (i + 1) mod length (st_lanes st)\<rparr>)" using assms(1) by (simp add: known_state_def)
  from known_lane_update [OF this, of "(st_lanes st ! i)\<lparr>ln_available := False\<rparr>" i] l
  have k: "known_state G st'" unfolding 1(10) take_lane_def by (simp add: known_lane_def)
  have "known_lane G (st_lanes st' ! i)" using l 1(2) by (simp add: 1(10) take_lane_def known_lane_def)
  then have "known_lane G (fst (executeLaneTx_end io (st_lanes st' ! i)))"
    unfolding known_lane_def executeLaneTx_end_lane(2,4) .
  from known_lane_update [OF k this, of i] have "known_state G (pushTick_done i ps io now' st')"
    by (auto simp: pushTick_done_def release_lane_def known_state_def split: prod.splits)
  with k show ?thesis by blast
qed

text \<open>C35. Every transaction the oracle feed submits type-checks against the Move functions of the packages: each call names one
  of them with as many arguments as it has parameters, the oracle, the capability, the registry, the clock, the numbers and the results
  of earlier commands each in the place of its type; the coins that are merged are not the one that pays; every
  capability and every component of the split is transferred, once. This holds of a tick, of every transaction of
  a manager window on every path, of the creation of capabilities and of the refresh of the lanes, when the configuration, the
  state and the replies name objects of their kind, and a tick and a window keep that of the state.\<close>

theorem feed_transactions_typed:
  assumes "u64_encoder u64" "known_config G config" "known_state G st" "known_world G config w"
  shows "(\<forall>now i tx ps st' io now'. pushTick u64 config address now st = (Submitting i tx ps, st') \<longrightarrow>
        typed_tx (feed_ledger (cf_predictPackageId config) G) tx
        \<and> known_state G st' \<and> known_state G (pushTick_done i ps io now' st'))
    \<and> (\<forall>tx\<in>set (mg_sent (fst (manager_work u64 config address w st))). typed_tx (feed_ledger (cf_predictPackageId config) G) tx)
    \<and> known_state G (mg_st (fst (manager_work u64 config address w st)))
    \<and> typed_tx (feed_ledger (cf_predictPackageId config) G) (createCaps_tx address config n)
    \<and> (\<forall>lanes coins reply after ls tx. known_coins G coins
        \<and> refreshGasLanesIfNeeded address config lanes (Inr coins) reply after = Inr (ls, Some tx)
        \<longrightarrow> typed_tx (feed_ledger (cf_predictPackageId config) G) tx)"
proof (intro conjI allI impI ballI, goal_cases)
  case (1 now i tx ps st' io now')
  then show ?case using typed_pushTick [OF assms(2,1,3)] by (intro under_way_typed) blast
next
  case (4 tx)
  then show ?case using typed_manager_work [OF assms(1,2,4,3), of address] by (auto simp: list_all_iff intro: under_way_typed)
next
  case (5)
  show ?case using typed_manager_work [OF assms(1,2,4,3), of address] by blast
next
  case 6
  show ?case by (rule under_way_typed [OF typed_createCaps [OF assms(2)]])
next
  case (7 lanes coins reply after ls tx)
  then show ?case using typed_refresh under_way_typed by blast
next
  case (2 now i tx ps st' io now')
  then show ?case using known_pushTick [OF assms(3)] by blast
next
  case (3 now i tx ps st' io now')
  then show ?case using known_pushTick [OF assms(3)] by blast
qed

text \<open>A wallet with one coin for two lanes: the window refreshes the lanes and then fails to read the oracles.\<close>

definition demo_objects :: "string \<Rightarrow> move_type option" where
  "demo_objects = map_of [(''0x6'', Struct ''Clock''), (''0x2'', Struct ''Registry''), (''0x3'', Struct ''Predict''), (''0x4'', Struct ''AdminCap''),
     (''0xa'', Struct ''OracleSVI''), (''c0'', Struct ''OracleSVICap''), (''c1'', Struct ''OracleSVICap''), (''a'', sui_coin), (''b'', sui_coin)]"

definition typing_config :: Config where
  "typing_config = demo_config\<lparr>cf_gasLaneMinSui := 0\<rparr>"

definition typing_coin :: "string \<Rightarrow> CoinStruct" where
  "typing_coin i = \<lparr>cn_id = i, cn_version = ''2'', cn_digest = ''d'', cn_balance = 1000\<rparr>"

definition demo_world :: World where
  "demo_world =
     \<lparr>wd_reply = (\<lambda>n. \<lparr>mr_io = \<lparr>io_sign = SignThrows ''offline'', io_wait = None, io_refresh = None\<rparr>, mr_frames = []\<rparr>), wd_clock = (\<lambda>n. 2000),
      wd_coins = Inr [typing_coin ''a''], wd_submit = SubmitStatus ''success'' True None, wd_coinsAfter = Inr [typing_coin ''a'', typing_coin ''b''],
      wd_discovered = (\<lambda>now. Inl (Error ''offline'')), wd_frames = []\<rparr>"

lemma demo_known:
  "u64_encoder demo_u64" "known_config demo_objects typing_config" "known_state demo_objects demo_service"
  "known_world demo_objects typing_config demo_world"
proof -
  show "u64_encoder demo_u64" by (auto simp: u64_encoder_def demo_u64_def split: js_number.splits if_splits)
  show "known_config demo_objects typing_config"
    by (simp add: known_config_def demo_objects_def typing_config_def demo_config_def)
  show "known_state demo_objects demo_service" by code_simp
  show "known_world demo_objects typing_config demo_world"
    by (simp add: known_world_def demo_world_def known_coins_def typing_coin_def demo_objects_def)
qed

lemma demo_tick: "\<exists>i tx ps st'. pushTick demo_u64 typing_config ''0x9'' 2000 demo_service = (Submitting i tx ps, st')"
proof -
  have e: "encoder demo_u64" by (auto simp: encoder_def demo_u64_def split: js_number.splits if_splits)
  have r: "tick_ready typing_config 2000 demo_service" by code_simp
  have "tick_numbers demo_service o' = map scaleToU64 [Num 100000, Num 100001]" if "o' \<in> set (map_values (st_oracles demo_service))" for o'
    using that by (auto simp: tick_numbers_def demo_service_def map_values_def map_get_def svi_due_def)
  then have "encodable demo_u64 demo_service o'" if "o' \<in> set (map_values (st_oracles demo_service))" for o'
    using that demo_u64_accepts [of 100000] demo_u64_accepts [of 100001] by (simp add: encodable_def)
  with pushTick_submits_iff [OF e, of typing_config "''0x9''" 2000 demo_service] r show ?thesis by blast
qed

theorem feed_transactions_typed_witness:
  "(\<exists>i tx ps st'. pushTick demo_u64 typing_config ''0x9'' 2000 demo_service = (Submitting i tx ps, st')
      \<and> typed_tx (feed_ledger ''0x1'' demo_objects) tx)
   \<and> (\<exists>tx. mg_sent (fst (manager_work demo_u64 typing_config ''0x9'' demo_world demo_service)) = [tx]
      \<and> typed_tx (feed_ledger ''0x1'' demo_objects) tx)
   \<and> typed_tx (feed_ledger ''0x1'' demo_objects) (createCaps_tx ''0x9'' typing_config 3)
   \<and> \<not> typed_tx (feed_ledger ''0x1'' demo_objects) (addActivate ''0x1'' ''c0'' ''0xa'' (newLaneTx ''0x9'' (demo_lane 0 ''a'' ''c0'')))"
proof -
  note t = feed_transactions_typed [OF demo_known, of "''0x9''" 3]
  have p: "cf_predictPackageId typing_config = ''0x1''" by (simp add: typing_config_def demo_config_def)
  have "length (mg_sent (fst (manager_work demo_u64 typing_config ''0x9'' demo_world demo_service))) = 1" by code_simp
  then obtain tx where "mg_sent (fst (manager_work demo_u64 typing_config ''0x9'' demo_world demo_service)) = [tx]"
    by (auto simp: length_Suc_conv)
  moreover have "\<not> typed_tx (feed_ledger ''0x1'' demo_objects) (addActivate ''0x1'' ''c0'' ''0xa'' (newLaneTx ''0x9'' (demo_lane 0 ''a'' ''c0'')))"
    by code_simp
  ultimately show ?thesis using t demo_tick unfolding p by force
qed

end
