(* ===== verification/Spec2Isabelle.thy ===== *)
theory Spec2Isabelle
  imports ParityRunner DashboardBook DashboardSigma ArbChecker WhatIfPanel EventStream DashboardShell RateLimiter
    TwoProtocolDemo Simulation PredictDeploy RegistryScripts MarginRegistry FeedTyping
begin

text \<open>
  DeepVault: the off-chain TypeScript of a structured-product vault on Sui's DeepBook Predict.

  \<^bold>\<open>The program.\<close> The vault itself is a Move package. Around it the repository has
  \<^item> a fixed-point volatility pricer in the browser (\<open>dashboard/src/lib\<close>: \<open>math.ts\<close>, \<open>isqrt.ts\<close>, \<open>ln.ts\<close>,
    \<open>phi.ts\<close>, \<open>svi.ts\<close>, \<open>whatIf.ts\<close>) that must agree bit for bit with the Move code, and a command-line check
    of that agreement (\<open>parity_runner.ts\<close>);
  \<^item> a relay (\<open>indexer/src\<close>): five polling loops tail the chain, apply each event to an in-memory store and
    flush a cursor file; a WebSocket server sends the store to every client and broadcasts its events;
  \<^item> a dashboard (\<open>dashboard/src\<close>): a reconnecting socket client, a hook that keeps the last snapshot and
    the ring of recent events, hooks that derive hedges, positions, the token bucket and the surface, builders
    of vault transactions, and panels over them inside a frame with two modes;
  \<^item> an oracle feed service (\<open>scripts/deepbookv3/scripts/services/oracle-feed\<close>): a market data client fills
    two caches, a timer pushes fresh samples on chain over several gas lanes, and a manager window
    creates, activates, settles and compacts the oracles of a calendar of expiries;
  \<^item> operator scripts (\<open>scripts/\<close>): smoke tests of a deposit and redemption cycle on two networks, a traced
    cycle, and a demo of one transaction over two protocols;
  \<^item> deployment scripts of the prediction market (\<open>scripts/deepbookv3/scripts/transactions/predict\<close> over
    \<open>utils/utils.ts\<close>) that publish packages and record the identifiers in the text of \<open>constants.ts\<close>;
  \<^item> the other scripts of \<open>scripts/deepbookv3/scripts/transactions\<close>: entries of the package registry, administration
    of the exchange and its margin module through an SDK, the pause of a version, package upgrades;
  \<^item> a simulation of the prediction market (\<open>scripts/deepbookv3/packages/predict/simulations/src\<close>) that replays
    a scenario file against a local network.

  \<^bold>\<open>How the code is modelled.\<close> A function of the source is a definition of the same name. A \<open>bigint\<close> is an \<open>int\<close>,
  division and shifts truncate as the language does; a \<open>number\<close> is an \<open>int\<close> where only integers below \<open>2^53\<close>
  occur and otherwise a value of \<open>js_number\<close>, rounded to 53 bits after each operation. A \<open>throw\<close> is the left
  side of a sum. Objects are records, \<open>Map\<close> and \<open>Set\<close> are association lists in insertion order, mutable state is
  passed explicitly. An \<open>await\<close> cuts a function in two: the part before it and the part that takes the answer.
  Clock readings, random numbers, answers of the node, outcomes of file operations and callbacks of sockets
  and timers are arguments or constructors of a step relation, so the theorems hold for all of them.
  The encoder \<open>tx.pure.u64\<close> of the SDK is the parameter \<open>u64\<close>. Log lines and console output are left out.

  \<^bold>\<open>Theories.\<close>
  \<^item> \<open>Prelude\<close>, \<open>JsData\<close>, \<open>JsDouble\<close>, \<open>JsArith\<close>, \<open>JsDate\<close>, \<open>SuiTx\<close>, \<open>ScriptMonad\<close>: exceptions as values, \<open>BigInt\<close> and
    \<open>Number\<close> grammar, insertion-ordered maps (locale \<open>js_map\<close>), IEEE rounding with its relative error,
    arithmetic with infinities and NaN, civil dates, command lists of a transaction, and scripts as functions
    from a state to an error or a result with the state reached.
  \<^item> \<open>FixedMath\<close>, \<open>Isqrt\<close>, \<open>PhiCoefficients\<close>, \<open>LnFixed\<close>, \<open>LnAccuracy\<close>, \<open>Phi\<close>, \<open>Svi\<close>, \<open>WhatIf\<close>, \<open>ParityRunner\<close>: the pricer.
    The square root is exact on 128 bits, the logarithm within 64 units of the real one, the distribution
    function symmetric and a probability, its staged shifts a single shift; total variance is within an
    explicit bound of the real formula; a price is a probability or one of four named errors; the parity
    runner exits with zero exactly when every selected vector agrees.
  \<^item> \<open>DeployInfo\<close>, \<open>SnapshotStore\<close>, \<open>CursorStore\<close>, \<open>Pollers\<close>, \<open>WsServer\<close>, \<open>Relay\<close>: the relay. The store refines a
    history of events (ring = tail, slot = last surface); the cursor file is never torn; each poller
    applies every event exactly once, in order, whatever fails (locale \<open>event_sink\<close>, interpreted for both
    pollers); a client sees a gap-free end of the history; a stop is final; the boot order.
  \<^item> \<open>DashboardSocket\<close>, \<open>DashboardHooks\<close>, \<open>DashboardBook\<close>: the dashboard. A disposed client is silent, the shown
    status is sound, the dashboard's ring is a tail of the relay's history (relay and dashboard composed),
    integers survive the wire, and the derived books hold what the events say.
  \<^item> \<open>DashboardFormat\<close>, \<open>DashboardPtb\<close>, \<open>DepositPanel\<close>, \<open>DashboardSigma\<close>, \<open>ArbChecker\<close>, \<open>WhatIfPanel\<close>, \<open>EventStream\<close>,
    \<open>DashboardPanels\<close>, \<open>DashboardShell\<close>: what the dashboard shows and signs. A displayed amount reads back as
    itself; each builder passes what the Move function takes; the deposit form signs once and only what was
    confirmed; the redeem form names the current account; the simulator shows finite or no figures; the
    stream lists the newest events; every anchor of the navigation is reached.
  \<^item> \<open>RateLimiter\<close>: the token bucket of \<open>rate_limiter.move\<close> on machine words, which the dashboard's view must
    match; withdrawals are bounded by capacity and refill.
  \<^item> \<open>VaultScripts\<close>, \<open>TwoProtocolDemo\<close>: the operator scripts. A green smoke test means the gates held.
  \<^item> \<open>SimScenario\<close>, \<open>SimRuntime\<close>, \<open>Simulation\<close>: the simulation. A written scenario reads back as itself, the
    batched refresh is the sequence of its parts, retries are bounded, strikes are on the grid.
  \<^item> \<open>TxShape\<close>, \<open>RegistryScripts\<close>, \<open>AdminScripts\<close>, \<open>MarginRegistry\<close>: the remaining scripts, each as its calls in order.
    No created object is left behind, the flash loan is returned by the one call that takes it, an upgrade writes
    the last line of the tool's output; the preparation of the margin markets is run against the functions of
    \<open>margin_registry.move\<close> and \<open>margin_pool.move\<close> on 64-bit words and passes all their assertions.
  \<^item> \<open>MoveCheck\<close>, \<open>FeedTyping\<close>: the check the ledger makes of a transaction before it runs it (functions, argument
    types, components of results, values passed once, nothing left over), and the proof that everything the oracle
    feed submits passes it against the signatures of \<open>packages/predict\<close>; the manager window is covered by an
    interpretation of \<open>mgr_property\<close>.
  \<^item> \<open>ConstantsFile\<close>, \<open>DeployTools\<close>, \<open>PredictDeploy\<close>: the deployment scripts. The edit of a constant by regular
    expression refines the update of a definition (locale \<open>text_store\<close>: a text edit is a partial update, a series
    of edits the composition of the updates; interpreted for the file of the test network); a redeployment records
    what the node's answers show, each identifier under its name; default expiries are coming Thursdays; a
    transaction for several signers is written only after its dry run.
  \<^item> \<open>OracleExpiry\<close>, \<open>OraclePtb\<close>, \<open>OracleConfig\<close>, \<open>OracleRegistry\<close>, \<open>OracleSubscriber\<close>, \<open>OracleBootstrap\<close>,
    \<open>OracleExecutor\<close>, \<open>OracleManager\<close>, \<open>OracleService\<close>, \<open>OracleMain\<close>: the oracle feed. The calendar is exactly the schedule and
    its classification inverts it; a subscription covers the targets; a gas refresh spends what is owned;
    a tick updates exactly the due oracles or, when the encoder refuses one number, none; reconciliation mirrors discovery. The locale \<open>mgr_property\<close> lists the
    primitive changes of a manager window, \<open>mgr_invariant\<close> is a sublocale of it for invariants of the service
    state. The process of \<open>index.ts\<close>, from the replies at its start through timers, completions, windows, socket
    events and signals (step relation \<open>proc_step\<close>), refines the service alone (\<open>svc_step\<close>): no two transactions share
    a lane or a capability, and a shutdown is final.

  \<^bold>\<open>Bounds and fuel.\<close> The seven Newton steps, the five shift probes and the coefficient loops are unrolled as
  in the source. The polling loop takes the list of its iterations, one input each. The paged reads recurse
  over the list of replies; that they return is a theorem, not an assumption. \<open>waitForAllLanesIdle\<close> recurses
  on the number of polls the source's timeout allows. The scripts recurse on the bounds they have: three
  attempts to fulfil, five to execute, twenty to read a transaction.

  \<^bold>\<open>Not modelled.\<close> The Move packages (the token bucket, the margin registry that scripts call and parameter lists
  and signatures apart) and the Python backtest are other languages. Markup, style tokens, chart options and number formats of the locale only render.
  Calls that the scripts have commented out are not code. Loggers configure a library.
  The SDKs, the command line tool, the \<open>ws\<close> library and the node are parameters.
\<close>

end
